(* ===== verification/Prelude.thy ===== *)
theory Prelude
  imports Main "HOL-Library.Word" "HOL-Library.Sublist" "HOL-Library.Code_Target_Nat"
begin

text \<open>
  Shared vocabulary of the development: Rust's \<open>str\<close>/\<open>String\<close> with the standard-library
  operations the modelled code calls, Rust's \<open>u64\<close>/\<open>u8\<close>/\<open>u128\<close> arithmetic, and the lemma
  collections the component theories draw on.

  A Rust \<open>char\<close> is a Unicode scalar value, modelled by its number; a \<open>str\<close> is the list of its
  scalar values.  Byte positions and byte lengths, which is what Rust's \<open>len()\<close> and slicing
  count, are obtained through the UTF-8 width of each scalar (\<open>byte_len\<close>), so a slice at a
  position that is no character boundary cannot be expressed by accident.  Code that scans
  \<open>as_bytes()\<close> for ASCII bytes only is modelled on scalars: in UTF-8 no byte of a multi-byte
  scalar is ASCII, so both scans see the same ASCII positions in the same order.
\<close>

section \<open>Lemma collections\<close>

named_theorems rust_str \<open>characteristic equations of the string operations\<close>
named_theorems arith_u64 \<open>readings of the machine-integer operations as natural numbers\<close>

section \<open>Characters\<close>

type_synonym uchar = nat
type_synonym str = "uchar list"

definition lit :: "string \<Rightarrow> str" where
  "lit = map of_char"

lemma lit_eq_iff [simp]: "lit a = lit b \<longleftrightarrow> a = b"
  unfolding lit_def by (rule inj_map_eq_map) (auto intro: injI)

lemma lit_Nil [simp]: "lit [] = []" and lit_Nil_iff [simp]: "lit a = [] \<longleftrightarrow> a = []"
  and length_lit [simp]: "length (lit a) = length a"
  by (auto simp: lit_def)

text \<open>The characters the code compares against, by name.\<close>

abbreviation TAB :: uchar where "TAB \<equiv> 9"
abbreviation NL :: uchar where "NL \<equiv> 10"
abbreviation CR :: uchar where "CR \<equiv> 13"
abbreviation SPACE :: uchar where "SPACE \<equiv> 32"
abbreviation DQUOTE :: uchar where "DQUOTE \<equiv> 34"
abbreviation DOLLAR :: uchar where "DOLLAR \<equiv> 36"
abbreviation PERCENT :: uchar where "PERCENT \<equiv> 37"
abbreviation AMP :: uchar where "AMP \<equiv> 38"
abbreviation SQUOTE :: uchar where "SQUOTE \<equiv> 39"
abbreviation LPAREN :: uchar where "LPAREN \<equiv> 40"
abbreviation RPAREN :: uchar where "RPAREN \<equiv> 41"
abbreviation STAR :: uchar where "STAR \<equiv> 42"
abbreviation QMARK :: uchar where "QMARK \<equiv> 63"
abbreviation COMMA :: uchar where "COMMA \<equiv> 44"
abbreviation DASH :: uchar where "DASH \<equiv> 45"
abbreviation DOT :: uchar where "DOT \<equiv> 46"
abbreviation SLASH :: uchar where "SLASH \<equiv> 47"
abbreviation COLON :: uchar where "COLON \<equiv> 58"
abbreviation SEMI :: uchar where "SEMI \<equiv> 59"
abbreviation LESS :: uchar where "LESS \<equiv> 60"
abbreviation EQUALS :: uchar where "EQUALS \<equiv> 61"
abbreviation GREATER :: uchar where "GREATER \<equiv> 62"
abbreviation ATSIGN :: uchar where "ATSIGN \<equiv> 64"
abbreviation LBRACKET :: uchar where "LBRACKET \<equiv> 91"
abbreviation BSLASH :: uchar where "BSLASH \<equiv> 92"
abbreviation RBRACKET :: uchar where "RBRACKET \<equiv> 93"
abbreviation UNDERSCORE :: uchar where "UNDERSCORE \<equiv> 95"
abbreviation BACKTICK :: uchar where "BACKTICK \<equiv> 96"
abbreviation LBRACE :: uchar where "LBRACE \<equiv> 123"
abbreviation PIPE :: uchar where "PIPE \<equiv> 124"
abbreviation RBRACE :: uchar where "RBRACE \<equiv> 125"

text \<open>\<open>char::is_whitespace\<close>: the Unicode property \<open>White_Space\<close>.\<close>

definition is_ws :: "uchar \<Rightarrow> bool" where
  "is_ws c \<longleftrightarrow> (9 \<le> c \<and> c \<le> 13) \<or> c = 32 \<or> c = 133 \<or> c = 160 \<or> c = 5760
     \<or> (8192 \<le> c \<and> c \<le> 8202) \<or> c = 8232 \<or> c = 8233 \<or> c = 8239 \<or> c = 8287 \<or> c = 12288"

lemma is_ws_code [code]:
  "is_ws c \<longleftrightarrow>
     (if c < 133 then (if c < 32 then 9 \<le> c \<and> c \<le> 13 else c = 32)
      else c = 133 \<or> c = 160 \<or> c = 5760 \<or> (8192 \<le> c \<and> c \<le> 8202) \<or> c = 8232 \<or> c = 8233
        \<or> c = 8239 \<or> c = 8287 \<or> c = 12288)"
  by (auto simp: is_ws_def)

text \<open>\<open>u8::is_ascii_whitespace\<close>, which leaves out the vertical tab.\<close>

definition is_ascii_ws :: "uchar \<Rightarrow> bool" where
  "is_ascii_ws c \<longleftrightarrow> c = 32 \<or> c = 9 \<or> c = 10 \<or> c = 12 \<or> c = 13"

definition is_digit :: "uchar \<Rightarrow> bool" where
  "is_digit c \<longleftrightarrow> 48 \<le> c \<and> c \<le> 57"

definition is_alpha :: "uchar \<Rightarrow> bool" where
  "is_alpha c \<longleftrightarrow> (65 \<le> c \<and> c \<le> 90) \<or> (97 \<le> c \<and> c \<le> 122)"

definition is_alnum :: "uchar \<Rightarrow> bool" where
  "is_alnum c \<longleftrightarrow> is_digit c \<or> is_alpha c"

definition lower_char :: "uchar \<Rightarrow> uchar" where
  "lower_char c = (if 65 \<le> c \<and> c \<le> 90 then c + 32 else c)"

definition to_lower :: "str \<Rightarrow> str" where
  "to_lower = map lower_char"

definition eq_ignore_case :: "str \<Rightarrow> str \<Rightarrow> bool" where
  "eq_ignore_case a b \<longleftrightarrow> to_lower a = to_lower b"

definition utf8_width :: "uchar \<Rightarrow> nat" where
  "utf8_width c = (if c < 128 then 1 else if c < 2048 then 2 else if c < 65536 then 3 else 4)"

definition byte_len :: "str \<Rightarrow> nat" where
  "byte_len s = sum_list (map utf8_width s)"

lemma is_ws_space [simp]: "is_ws SPACE" and is_ws_tab [simp]: "is_ws TAB"
  and is_ws_nl [simp]: "is_ws NL" and is_ws_cr [simp]: "is_ws CR"
  by (simp_all add: is_ws_def)

lemma lower_char_idem [simp]: "lower_char (lower_char c) = lower_char c"
  by (simp add: lower_char_def)

lemma to_lower_idem [simp]: "to_lower (to_lower s) = to_lower s"
  by (simp add: to_lower_def)

lemma to_lower_Nil [simp]: "to_lower [] = []" and to_lower_Nil_iff [simp]: "to_lower s = [] \<longleftrightarrow> s = []"
  by (simp_all add: to_lower_def)

lemma is_ws_lower_char [simp]: "is_ws (lower_char c) \<longleftrightarrow> is_ws c"
  by (auto simp: lower_char_def is_ws_def)

lemma utf8_width_pos [simp]: "0 < utf8_width c" and utf8_width_le: "utf8_width c \<le> 4"
  by (auto simp: utf8_width_def)

lemma byte_len_Nil [simp]: "byte_len [] = 0"
  and byte_len_Cons [simp]: "byte_len (c # s) = utf8_width c + byte_len s"
  and byte_len_append [simp]: "byte_len (s @ t) = byte_len s + byte_len t"
  by (simp_all add: byte_len_def)

lemma length_le_byte_len: "length s \<le> byte_len s"
  by (induction s) (auto simp: Suc_le_eq intro: add_strict_increasing)

lemma byte_len_0_iff [simp]: "byte_len s = 0 \<longleftrightarrow> s = []"
  by (cases s) auto

section \<open>Standard-library string operations\<close>

definition starts_with :: "str \<Rightarrow> str \<Rightarrow> bool" where
  "starts_with s p \<longleftrightarrow> take (length p) s = p"

definition ends_with :: "str \<Rightarrow> str \<Rightarrow> bool" where
  "ends_with s p \<longleftrightarrow> length p \<le> length s \<and> drop (length s - length p) s = p"

definition strip_prefix :: "str \<Rightarrow> str \<Rightarrow> str option" where
  "strip_prefix s p = (if starts_with s p then Some (drop (length p) s) else None)"

definition strip_suffix :: "str \<Rightarrow> str \<Rightarrow> str option" where
  "strip_suffix s p = (if ends_with s p then Some (take (length s - length p) s) else None)"

text \<open>\<open>str::find\<close> with a string pattern: the position (in scalars) of the first occurrence.\<close>

fun find_str :: "str \<Rightarrow> str \<Rightarrow> nat option" where
  "find_str [] p = (if p = [] then Some 0 else None)"
| "find_str (c # s) p =
     (if starts_with (c # s) p then Some 0 else map_option Suc (find_str s p))"

definition contains :: "str \<Rightarrow> str \<Rightarrow> bool" where
  "contains s p \<longleftrightarrow> find_str s p \<noteq> None"

text \<open>\<open>str::split_whitespace\<close>: the maximal runs of characters that are no white space.\<close>

function split_ws :: "str \<Rightarrow> str list" where
  "split_ws [] = []"
| "split_ws (c # cs) =
     (if is_ws c then split_ws cs
      else (c # takeWhile (\<lambda>x. \<not> is_ws x) cs) # split_ws (dropWhile (\<lambda>x. \<not> is_ws x) cs))"
  by pat_completeness auto
termination
  by (relation "measure length") (auto simp: less_Suc_eq_le length_dropWhile_le)

text \<open>\<open>str::split\<close> on the characters that satisfy a predicate; never empty.\<close>

fun split_on :: "(uchar \<Rightarrow> bool) \<Rightarrow> str \<Rightarrow> str list" where
  "split_on p [] = [[]]"
| "split_on p (c # cs) =
     (if p c then [] # split_on p cs
      else (case split_on p cs of [] \<Rightarrow> [[c]] | w # ws \<Rightarrow> (c # w) # ws))"

text \<open>\<open>str::split_once\<close> on one character, and \<open>str::rsplit_once\<close>.\<close>

fun split_once :: "uchar \<Rightarrow> str \<Rightarrow> (str \<times> str) option" where
  "split_once d [] = None"
| "split_once d (c # cs) =
     (if c = d then Some ([], cs)
      else map_option (\<lambda>(a, b). (c # a, b)) (split_once d cs))"

definition rsplit_once :: "uchar \<Rightarrow> str \<Rightarrow> (str \<times> str) option" where
  "rsplit_once d s = map_option (\<lambda>(a, b). (rev b, rev a)) (split_once d (rev s))"

definition trim_start_matches :: "(uchar \<Rightarrow> bool) \<Rightarrow> str \<Rightarrow> str" where
  "trim_start_matches p = dropWhile p"

definition trim_end_matches :: "(uchar \<Rightarrow> bool) \<Rightarrow> str \<Rightarrow> str" where
  "trim_end_matches p s = rev (dropWhile p (rev s))"

definition trim_matches :: "(uchar \<Rightarrow> bool) \<Rightarrow> str \<Rightarrow> str" where
  "trim_matches p s = trim_end_matches p (trim_start_matches p s)"

definition trim :: "str \<Rightarrow> str" where
  "trim = trim_matches is_ws"

text \<open>\<open>[str]::join\<close>.\<close>

fun join :: "str \<Rightarrow> str list \<Rightarrow> str" where
  "join sep [] = []"
| "join sep [w] = w"
| "join sep (w # v # ws) = w @ sep @ join sep (v # ws)"

definition replace_char :: "uchar \<Rightarrow> uchar \<Rightarrow> str \<Rightarrow> str" where
  "replace_char a b = map (\<lambda>c. if c = a then b else c)"

text \<open>Decimal rendering of an unsigned integer (\<open>Display\<close>).\<close>

fun show_nat :: "nat \<Rightarrow> str" where
  "show_nat n = (if n < 10 then [48 + n] else show_nat (n div 10) @ [48 + n mod 10])"

declare show_nat.simps [simp del]

text \<open>
  \<open>Debug\<close> rendering of a \<open>str\<close>: surrounding double quotes, the escapes of
  \<open>char::escape_debug\<close> for ASCII.  Scalars above ASCII are printed as they are (Rust escapes the
  unprintable ones among them).
\<close>

definition debug_char :: "uchar \<Rightarrow> str" where
  "debug_char c =
     (if c = 0 then [BSLASH, 48] else if c = TAB then [BSLASH, 116]
      else if c = NL then [BSLASH, 110] else if c = CR then [BSLASH, 114]
      else if c = DQUOTE \<or> c = BSLASH then [BSLASH, c]
      else if c < 32 \<or> c = 127
        then lit [CHR 0x5C, CHR ''u'', CHR ''{''] @ (if c < 16 then [] else [48 + c div 16])
             @ [if c mod 16 < 10 then 48 + c mod 16 else 87 + c mod 16] @ [RBRACE]
      else [c])"

definition debug_str :: "str \<Rightarrow> str" where
  "debug_str s = [DQUOTE] @ concat (map debug_char s) @ [DQUOTE]"

text \<open>Membership in a literal alternative, \<open>matches!(s, "a" | "b" | ...)\<close>.\<close>

definition one_of :: "str \<Rightarrow> string list \<Rightarrow> bool" where
  "one_of s ls \<longleftrightarrow> s \<in> set (map lit ls)"

section \<open>Lemmas on the string operations\<close>

lemma starts_with_iff [rust_str]: "starts_with s p \<longleftrightarrow> (\<exists>t. s = p @ t)"
  unfolding starts_with_def by (metis append_eq_conv_conj append_take_drop_id)

lemma ends_with_iff [rust_str]: "ends_with s p \<longleftrightarrow> (\<exists>t. s = t @ p)"
proof
  assume "ends_with s p"
  then have "s = take (length s - length p) s @ p"
    unfolding ends_with_def by (metis append_take_drop_id)
  then show "\<exists>t. s = t @ p" by blast
qed (auto simp: ends_with_def)

lemma starts_with_Nil [simp]: "starts_with s []" and ends_with_Nil [simp]: "ends_with s []"
  by (simp_all add: starts_with_def ends_with_def)

lemma starts_with_append [simp]: "starts_with (p @ t) p"
  by (simp add: starts_with_def)

lemma starts_with_appendI: "starts_with s p \<Longrightarrow> starts_with (s @ t) p"
  by (auto simp: starts_with_iff)

lemma ends_with_append [simp]: "ends_with (t @ p) p"
  by (simp add: ends_with_def)

lemma strip_prefix_Some_iff [rust_str]: "strip_prefix s p = Some r \<longleftrightarrow> s = p @ r"
  unfolding strip_prefix_def starts_with_def
  by (auto simp: append_eq_conv_conj) (metis append_take_drop_id)

lemma strip_prefix_None_iff: "strip_prefix s p = None \<longleftrightarrow> \<not> starts_with s p"
  by (simp add: strip_prefix_def)

lemma strip_suffix_Some_iff [rust_str]: "strip_suffix s p = Some r \<longleftrightarrow> s = r @ p"
  unfolding strip_suffix_def ends_with_def by (auto, metis append_take_drop_id)

lemma find_str_Some:
  "find_str s p = Some i \<Longrightarrow> i \<le> length s \<and> s = take i s @ p @ drop (i + length p) s"
proof (induction s arbitrary: i)
  case Nil
  then show ?case by (auto split: if_splits)
next
  case (Cons c s)
  show ?case
  proof (cases "starts_with (c # s) p")
    case True
    with Cons.prems have "i = 0" by simp
    moreover from True obtain t where "c # s = p @ t" by (auto simp: starts_with_iff)
    ultimately show ?thesis by simp
  next
    case False
    with Cons.prems obtain j where "find_str s p = Some j" "i = Suc j" by auto
    with Cons.IH [of j] show ?thesis by simp
  qed
qed

lemma find_str_None_iff: "find_str s p = None \<longleftrightarrow> (\<forall>u v. s \<noteq> u @ p @ v)"
proof (induction s)
  case (Cons c s)
  have "(\<exists>u v. c # s = u @ p @ v) \<longleftrightarrow> starts_with (c # s) p \<or> (\<exists>u v. s = u @ p @ v)"
    unfolding starts_with_iff by (metis append_Cons append_Nil neq_Nil_conv list.sel(3))
  with Cons show ?case by auto
qed auto

lemma contains_iff [rust_str]: "contains s p \<longleftrightarrow> (\<exists>u v. s = u @ p @ v)"
  by (simp add: contains_def find_str_None_iff)

lemma contains_append1 [intro]: "contains s p \<Longrightarrow> contains (s @ t) p"
proof -
  assume "contains s p"
  then obtain u v where "s = u @ p @ v" by (auto simp: contains_iff)
  then have "s @ t = u @ p @ (v @ t)" by simp
  then show ?thesis unfolding contains_iff by blast
qed

lemma contains_append2 [intro]: "contains t p \<Longrightarrow> contains (s @ t) p"
proof -
  assume "contains t p"
  then obtain u v where "t = u @ p @ v" by (auto simp: contains_iff)
  then have "s @ t = (s @ u) @ p @ v" by simp
  then show ?thesis unfolding contains_iff by blast
qed

lemma contains_singleton [rust_str]: "contains s [c] \<longleftrightarrow> c \<in> set s"
  unfolding contains_iff by (auto simp: in_set_conv_decomp)

lemma find_str_is_first:
  "find_str s p = Some i \<Longrightarrow> j < i \<Longrightarrow> \<not> starts_with (drop j s) p"
proof (induction s arbitrary: i j)
  case (Cons c s)
  then show ?case by (cases j) (auto split: if_splits)
qed (auto split: if_splits)

subsection \<open>White space\<close>

lemma set_dropWhile_subset: "set (dropWhile p s) \<subseteq> set s"
  and set_takeWhile_subset: "set (takeWhile p s) \<subseteq> set s"
  by (auto dest: set_dropWhileD set_takeWhileD)

lemma split_ws_token:
  "w \<in> set (split_ws s) \<Longrightarrow> w \<noteq> [] \<and> (\<forall>c \<in> set w. \<not> is_ws c)"
proof (induction s rule: split_ws.induct)
  case (2 c cs)
  show ?case
  proof (cases "is_ws c")
    case True
    with 2 show ?thesis by simp
  next
    case False
    with "2.prems" consider "w = c # takeWhile (\<lambda>x. \<not> is_ws x) cs"
      | "w \<in> set (split_ws (dropWhile (\<lambda>x. \<not> is_ws x) cs))" by auto
    then show ?thesis
    proof cases
      case 1
      with False show ?thesis by (auto dest: set_takeWhileD)
    next
      case 2
      with "2.IH"(2) [OF False] show ?thesis by simp
    qed
  qed
qed simp

lemma split_ws_chars: "w \<in> set (split_ws s) \<Longrightarrow> set w \<subseteq> set s"
proof (induction s rule: split_ws.induct)
  case (2 c cs)
  show ?case
  proof (cases "is_ws c")
    case True
    with 2 show ?thesis by auto
  next
    case False
    with "2.prems" consider "w = c # takeWhile (\<lambda>x. \<not> is_ws x) cs"
      | "w \<in> set (split_ws (dropWhile (\<lambda>x. \<not> is_ws x) cs))" by auto
    then show ?thesis
    proof cases
      case 1
      then show ?thesis using set_takeWhile_subset by fastforce
    next
      case 2
      with "2.IH"(2) [OF False] show ?thesis using set_dropWhile_subset by fastforce
    qed
  qed
qed simp

lemma split_ws_all_ws: "(\<forall>c \<in> set s. is_ws c) \<Longrightarrow> split_ws s = []"
  by (induction s) auto

lemma split_ws_Nil_iff: "split_ws s = [] \<longleftrightarrow> (\<forall>c \<in> set s. is_ws c)"
  by (induction s rule: split_ws.induct) auto

lemma split_ws_word:
  "w \<noteq> [] \<Longrightarrow> (\<forall>c \<in> set w. \<not> is_ws c) \<Longrightarrow> split_ws w = [w]"
  by (cases w) (auto simp: takeWhile_eq_all_conv [THEN iffD2] dropWhile_eq_Nil_conv [THEN iffD2])

lemma split_ws_word_append:
  assumes "w \<noteq> []" "\<forall>c \<in> set w. \<not> is_ws c" "is_ws d"
  shows "split_ws (w @ d # s) = w # split_ws s"
proof -
  obtain c cs where w: "w = c # cs" using assms(1) by (cases w) auto
  have "takeWhile (\<lambda>x. \<not> is_ws x) (cs @ d # s) = cs"
    and "dropWhile (\<lambda>x. \<not> is_ws x) (cs @ d # s) = d # s"
    using assms w by (auto simp: takeWhile_append dropWhile_append)
  with assms w show ?thesis by simp
qed

lemma join_Cons: "ws \<noteq> [] \<Longrightarrow> join sep (w # ws) = w @ sep @ join sep ws"
  by (cases ws) auto

lemma split_ws_join:
  assumes "\<forall>w \<in> set ws. w \<noteq> [] \<and> (\<forall>c \<in> set w. \<not> is_ws c)"
  shows "split_ws (join [SPACE] ws) = ws"
  using assms
proof (induction ws)
  case (Cons w ws)
  show ?case
  proof (cases ws)
    case Nil
    with Cons.prems show ?thesis by (simp add: split_ws_word)
  next
    case (Cons v vs)
    then have "ws \<noteq> []" by simp
    with Cons.IH Cons.prems show ?thesis
      by (simp add: join_Cons split_ws_word_append)
  qed
qed simp

lemma trim_start_hd: "trim_start_matches p s = [] \<or> \<not> p (hd (trim_start_matches p s))"
  unfolding trim_start_matches_def by (metis hd_dropWhile)

lemma trim_all_ws: "trim s = [] \<longleftrightarrow> (\<forall>c \<in> set s. is_ws c)"
proof
  assume "trim s = []"
  then have "\<forall>c \<in> set (dropWhile is_ws s). is_ws c"
    by (auto simp: trim_def trim_matches_def trim_end_matches_def trim_start_matches_def
        dropWhile_eq_Nil_conv)
  then have "dropWhile is_ws s = []" by (metis hd_dropWhile hd_in_set)
  then show "\<forall>c \<in> set s. is_ws c" by (simp add: dropWhile_eq_Nil_conv)
next
  assume "\<forall>c \<in> set s. is_ws c"
  then show "trim s = []"
    by (auto simp: trim_def trim_matches_def trim_end_matches_def trim_start_matches_def
        dropWhile_eq_Nil_conv dest: set_dropWhileD)
qed

lemma set_trim: "set (trim s) \<subseteq> set s"
  unfolding trim_def trim_matches_def trim_end_matches_def trim_start_matches_def
  by (metis set_dropWhile_subset set_rev subset_trans)

lemma trim_id:
  assumes "s \<noteq> []" "\<not> is_ws (hd s)" "\<not> is_ws (last s)"
  shows "trim s = s"
proof -
  have "dropWhile is_ws s = s" using assms(1,2) by (cases s) auto
  moreover have "dropWhile is_ws (rev s) = rev s"
    using assms(1,3) by (cases "rev s") (auto simp: last_rev [symmetric] hd_rev)
  ultimately show ?thesis
    by (simp add: trim_def trim_matches_def trim_end_matches_def trim_start_matches_def)
qed

lemma trim_decomp:
  "\<exists>a b. s = a @ trim s @ b \<and> (\<forall>c \<in> set a. is_ws c) \<and> (\<forall>c \<in> set b. is_ws c)"
proof -
  define x where "x = dropWhile is_ws s"
  have s: "s = takeWhile is_ws s @ x" by (simp add: x_def)
  have "rev x = takeWhile is_ws (rev x) @ dropWhile is_ws (rev x)" by simp
  then have x: "x = rev (dropWhile is_ws (rev x)) @ rev (takeWhile is_ws (rev x))"
    by (metis rev_append rev_rev_ident)
  have t: "trim s = rev (dropWhile is_ws (rev x))"
    by (simp add: trim_def trim_matches_def trim_end_matches_def trim_start_matches_def x_def)
  show ?thesis
    by (rule exI [of _ "takeWhile is_ws s"], rule exI [of _ "rev (takeWhile is_ws (rev x))"])
       (use s x t in \<open>auto dest: set_takeWhileD\<close>)
qed

lemma trim_ends:
  assumes "trim s \<noteq> []"
  shows "\<not> is_ws (hd (trim s)) \<and> \<not> is_ws (last (trim s))"
proof -
  define x where "x = dropWhile is_ws s"
  have t: "trim s = rev (dropWhile is_ws (rev x))"
    by (simp add: trim_def trim_matches_def trim_end_matches_def trim_start_matches_def x_def)
  with assms have "dropWhile is_ws (rev x) \<noteq> []" by simp
  then have last: "\<not> is_ws (last (trim s))" by (simp add: t last_rev hd_dropWhile)
  obtain b where "x = trim s @ b"
    using takeWhile_dropWhile_id [of is_ws "rev x"] t by (metis rev_append rev_rev_ident)
  with assms have "hd (trim s) = hd x" "x \<noteq> []" by auto
  then show ?thesis using last hd_dropWhile [of is_ws s] by (simp add: x_def)
qed

lemma trim_Nil [simp]: "trim [] = []"
  by (simp add: trim_all_ws)

lemma trim_trim [simp]: "trim (trim s) = trim s"
proof (cases "trim s = []")
  case True
  then show ?thesis by (simp only: trim_Nil)
next
  case False
  with trim_ends [OF this] show ?thesis by (simp add: trim_id)
qed

lemma trim_snoc_ws: "is_ws c \<Longrightarrow> trim (s @ [c]) = trim s"
proof -
  assume c: "is_ws c"
  have "dropWhile is_ws (rev (dropWhile is_ws (s @ [c]))) = dropWhile is_ws (rev (dropWhile is_ws s))"
  proof (cases "\<forall>x \<in> set s. is_ws x")
    case True
    then have "dropWhile is_ws (s @ [c]) = []" "dropWhile is_ws s = []" using c
      by (simp_all add: dropWhile_eq_Nil_conv)
    then show ?thesis by (simp only: rev.simps dropWhile.simps)
  next
    case False
    then have "dropWhile is_ws (s @ [c]) = dropWhile is_ws s @ [c]" by (metis dropWhile_append1)
    then show ?thesis using c by simp
  qed
  then show ?thesis
    by (simp add: trim_def trim_matches_def trim_end_matches_def trim_start_matches_def)
qed

subsection \<open>Splitting\<close>

lemma split_on_nonempty [simp]: "split_on p s \<noteq> []"
  by (induction s) (auto split: list.splits)

lemma split_once_Some_iff [rust_str]:
  "split_once d s = Some (a, b) \<longleftrightarrow> s = a @ d # b \<and> d \<notin> set a"
proof (induction s arbitrary: a)
  case (Cons c s)
  show ?case
  proof (cases "c = d")
    case True
    then show ?thesis by (cases a) auto
  next
    case False
    then show ?thesis using Cons.IH by (cases a) auto
  qed
qed auto

lemma split_once_None_iff: "split_once d s = None \<longleftrightarrow> d \<notin> set s"
  by (induction s) auto

lemma split_on_pieces: "w \<in> set (split_on p s) \<Longrightarrow> \<forall>c \<in> set w. \<not> p c"
  by (induction s arbitrary: w) (fastforce split: if_splits list.splits)+

section \<open>Machine integers\<close>

type_synonym u8 = "8 word"
type_synonym u32 = "32 word"
type_synonym u64 = "64 word"
type_synonym u128 = "128 word"
type_synonym i64 = "64 word"

text \<open>
  \<open>u64::MAX\<close> and the saturating operations.  Rust's plain \<open>+\<close> on \<open>u64\<close> is \<open>+\<close> on words: the
  release profile leaves overflow checks off, so it wraps.
\<close>

definition U64_MAX :: u64 where
  "U64_MAX = - 1"

definition saturating_add :: "u64 \<Rightarrow> u64 \<Rightarrow> u64" where
  "saturating_add a b = (if unat a + unat b < 2 ^ 64 then a + b else U64_MAX)"

definition saturating_sub :: "u64 \<Rightarrow> u64 \<Rightarrow> u64" where
  "saturating_sub a b = (if b \<le> a then a - b else 0)"

definition saturating_mul :: "u64 \<Rightarrow> u64 \<Rightarrow> u64" where
  "saturating_mul a b = (if unat a * unat b < 2 ^ 64 then a * b else U64_MAX)"

lemma unat_u64_lt [simp]: "unat (a :: u64) < 18446744073709551616"
  using unsigned_less [of a, where ?'a = nat] by simp

lemma unat_u64_le [simp]: "unat (a :: u64) \<le> 18446744073709551615"
  using unat_u64_lt [of a] by linarith

lemma unat_U64_MAX [arith_u64]: "unat U64_MAX = 18446744073709551615"
  by (simp add: U64_MAX_def unsigned_minus_1_eq_mask mask_eq_exp_minus_1)

lemma unat_saturating_add [arith_u64]:
  "unat (saturating_add a b) = min 18446744073709551615 (unat a + unat b)"
  by (auto simp: saturating_add_def unat_U64_MAX unat_word_ariths)

lemma unat_saturating_sub [arith_u64]: "unat (saturating_sub a b) = unat a - unat b"
  by (auto simp: saturating_sub_def word_le_nat_alt unat_sub)

lemma unat_saturating_mul [arith_u64]:
  "unat (saturating_mul a b) = min 18446744073709551615 (unat a * unat b)"
  by (auto simp: saturating_mul_def unat_U64_MAX unat_word_ariths)

lemma saturating_add_code [code]: "saturating_add a b = (if b \<le> U64_MAX - a then a + b else U64_MAX)"
proof -
  have "unat (U64_MAX - a) = 18446744073709551615 - unat a"
    by (simp add: unat_sub word_le_nat_alt unat_U64_MAX)
  then have "b \<le> U64_MAX - a \<longleftrightarrow> unat a + unat b < 18446744073709551616"
    unfolding word_le_nat_alt using unat_u64_lt [of a] by linarith
  then show ?thesis by (simp add: saturating_add_def)
qed

lemma saturating_mul_code [code]:
  "saturating_mul a b = (if uint a * uint b < 18446744073709551616 then a * b else U64_MAX)"
proof -
  have "uint a * uint b = int (unat a * unat b)" by (simp only: uint_nat of_nat_mult)
  then have "uint a * uint b < 18446744073709551616 \<longleftrightarrow> unat a * unat b < 18446744073709551616" by linarith
  then show ?thesis unfolding saturating_mul_def by (simp only:) simp
qed

lemma saturating_add_ge: "a \<le> saturating_add a b"
  using unat_u64_lt [of a] by (auto simp: word_le_nat_alt unat_saturating_add)

lemma saturating_add_0 [simp]: "saturating_add a 0 = a"
  by (simp add: saturating_add_def)

lemma saturating_add_commute: "saturating_add a b = saturating_add b a"
  by (simp add: saturating_add_def add.commute)

lemma saturating_add_assoc:
  "saturating_add (saturating_add a b) c = saturating_add a (saturating_add b c)"
  by (rule word_unat_eq_iff [THEN iffD2]) (simp add: unat_saturating_add)

end
