(* ===== verification/ShellLex.thy ===== *)
theory ShellLex
  imports Prelude
begin

text \<open>
  The quote-aware string layer of the shell analyser, \<open>crates/squeezy-tools/src/shell_parse.rs\<close>
  (and \<open>collapse_whitespace\<close> of \<open>crates/squeezy-tools/src/lib.rs\<close>): the tokenizer, the operator
  splitter, the command prefix used as a rule target, and the wrapper unwrapper that surfaces the
  payload of \<open>sh -c\<close>, \<open>env\<close>, \<open>nohup\<close>, \<open>xargs\<close> and their kin.  The scanners keep the code's state
  (\<open>quote\<close>, \<open>current\<close>) as arguments; the accumulated output is what the recursion returns.
\<close>

section \<open>Definitions\<close>

definition collapse_whitespace :: "str \<Rightarrow> str" where
  "collapse_whitespace input = join [SPACE] (split_ws input)"

text \<open>\<open>tokenize_shell_segment\<close>: the match arms in the code's order.\<close>

fun tok_scan :: "uchar option \<Rightarrow> str \<Rightarrow> str \<Rightarrow> str list" where
  "tok_scan quote current [] = (if current = [] then [] else [current])"
| "tok_scan quote current (ch # cs) =
     (if quote = Some ch then tok_scan None (current @ [ch]) cs
      else if quote = None \<and> (ch = SQUOTE \<or> ch = DQUOTE) then tok_scan (Some ch) (current @ [ch]) cs
      else if quote = None \<and> is_ws ch then
        (if current = [] then tok_scan None [] cs else current # tok_scan None [] cs)
      else if ch = BSLASH then
        (case cs of [] \<Rightarrow> tok_scan quote (current @ [ch]) []
         | nxt # cs' \<Rightarrow> tok_scan quote (current @ [ch, nxt]) cs')
      else tok_scan quote (current @ [ch]) cs)"

definition tokenize_shell_segment :: "str \<Rightarrow> str list" where
  "tokenize_shell_segment segment = tok_scan None [] segment"

definition dequote_token :: "str \<Rightarrow> str" where
  "dequote_token token =
     (if 2 \<le> length token \<and> (hd token = DQUOTE \<or> hd token = SQUOTE) \<and> hd token = last token
      then butlast (tl token) else token)"

text \<open>\<open>push_shell_segment\<close>: emit the trimmed text unless it is blank.\<close>

definition push_shell_segment :: "str \<Rightarrow> str list \<Rightarrow> str list" where
  "push_shell_segment current rest = (if trim current = [] then rest else trim current # rest)"

text \<open>\<open>shell_segments\<close>: split at unquoted \<open>;\<close>, \<open>&&\<close>, \<open>||\<close> and \<open>|\<close>.\<close>

fun seg_scan :: "uchar option \<Rightarrow> str \<Rightarrow> str \<Rightarrow> str list" where
  "seg_scan quote current [] = push_shell_segment current []"
| "seg_scan quote current (ch # cs) =
     (if quote = Some SQUOTE \<and> ch = SQUOTE then seg_scan None (current @ [ch]) cs
      else if quote = Some DQUOTE \<and> ch = DQUOTE then seg_scan None (current @ [ch]) cs
      else if quote \<noteq> None \<and> ch = BSLASH then
        (case cs of [] \<Rightarrow> seg_scan quote (current @ [ch]) []
         | nxt # cs' \<Rightarrow> seg_scan quote (current @ [ch, nxt]) cs')
      else if quote = None \<and> (ch = SQUOTE \<or> ch = DQUOTE) then
        seg_scan (Some ch) (current @ [ch]) cs
      else if quote = None \<and> ch = SEMI then push_shell_segment current (seg_scan quote [] cs)
      else if quote = None \<and> ch = AMP \<and> take 1 cs = [AMP] then
        push_shell_segment current (seg_scan quote [] (drop 1 cs))
      else if quote = None \<and> ch = PIPE \<and> take 1 cs = [PIPE] then
        push_shell_segment current (seg_scan quote [] (drop 1 cs))
      else if quote = None \<and> ch = PIPE then push_shell_segment current (seg_scan quote [] cs)
      else seg_scan quote (current @ [ch]) cs)"

definition shell_segments :: "str \<Rightarrow> str list" where
  "shell_segments command = seg_scan None [] command"

subsection \<open>Command prefix\<close>

definition is_env_name :: "str \<Rightarrow> bool" where
  "is_env_name name \<longleftrightarrow>
     (case name of [] \<Rightarrow> False
      | first # rest \<Rightarrow> (first = UNDERSCORE \<or> is_alpha first)
                         \<and> (\<forall>ch \<in> set rest. ch = UNDERSCORE \<or> is_alnum ch))"

definition split_env_assignment :: "str \<Rightarrow> (str \<times> str) option" where
  "split_env_assignment token =
     (case split_once EQUALS token of None \<Rightarrow> None
      | Some (name, value) \<Rightarrow> if is_env_name name then Some (name, value) else None)"

definition shell_env_assignment_token :: "str \<Rightarrow> bool" where
  "shell_env_assignment_token token =
     (case split_once EQUALS token of None \<Rightarrow> False | Some (name, _) \<Rightarrow> is_env_name name)"

definition shell_env_assignment_allowed_for_prefix :: "str \<Rightarrow> bool" where
  "shell_env_assignment_allowed_for_prefix name = one_of name
     [''CI'', ''NO_COLOR'', ''RUST_BACKTRACE'', ''RUSTFLAGS'', ''CARGO_TERM_COLOR'',
      ''CARGO_INCREMENTAL'', ''RUST_LOG'']"

definition is_bare_shell_prefix :: "str \<Rightarrow> bool" where
  "is_bare_shell_prefix first = one_of first
     [''sh'', ''bash'', ''zsh'', ''fish'', ''csh'', ''tcsh'', ''ksh'', ''dash'', ''env'', ''xargs'',
      ''nice'', ''nohup'', ''time'', ''timeout'', ''stdbuf'', ''sudo'']"

text \<open>
  The loop over leading assignments: an assignment of an unlisted variable makes the prefix the
  generic \<open>shell\<close>; running out of words reads \<open>shell\<close> as the first word, as \<open>unwrap_or\<close> does.
\<close>

fun prefix_after_env :: "str list \<Rightarrow> (str \<times> str list) option" where
  "prefix_after_env [] = Some (lit ''shell'', [])"
| "prefix_after_env (first # parts) =
     (case split_env_assignment first of
        None \<Rightarrow> Some (first, parts)
      | Some (name, _) \<Rightarrow>
          if shell_env_assignment_allowed_for_prefix name then prefix_after_env parts else None)"

definition shell_command_prefix :: "str \<Rightarrow> str" where
  "shell_command_prefix segment =
     (case prefix_after_env (split_ws segment) of
        None \<Rightarrow> lit ''shell''
      | Some (first, parts) \<Rightarrow>
          if is_bare_shell_prefix first then lit ''shell''
          else if one_of first [''cargo'', ''git'', ''npm'', ''pnpm'', ''yarn'', ''bun'', ''make'', ''just'']
          then (case parts of [] \<Rightarrow> first | sub # _ \<Rightarrow> first @ [SPACE] @ sub)
          else first)"

subsection \<open>Wrapper unwrapping\<close>

definition join_shell_tokens :: "str list \<Rightarrow> str option" where
  "join_shell_tokens tokens = (if tokens = [] then None else Some (join [SPACE] tokens))"

definition is_dash_flag :: "str \<Rightarrow> bool" where
  "is_dash_flag tok \<longleftrightarrow> starts_with tok [DASH]"

text \<open>\<open>sh -c script\<close>: the first single-dash cluster that ends in \<open>c\<close> names the script.\<close>

definition is_script_flag :: "str \<Rightarrow> bool" where
  "is_script_flag tok \<longleftrightarrow>
     strip_prefix tok (lit ''--'') = None
     \<and> (case strip_prefix tok [DASH] of None \<Rightarrow> False
         | Some short \<Rightarrow> short \<noteq> [] \<and> ends_with short (lit ''c''))"

fun shell_script_arg :: "str list \<Rightarrow> str option" where
  "shell_script_arg [] = None"
| "shell_script_arg (tok # rest) =
     (if is_script_flag tok
      then (case rest of [] \<Rightarrow> None | script # _ \<Rightarrow> Some (dequote_token script))
      else shell_script_arg rest)"

text \<open>\<open>env\<close>: \<open>None\<close> when an unknown flag makes the unwrapper bail out.\<close>

fun env_inner :: "str list \<Rightarrow> str list option" where
  "env_inner [] = Some []"
| "env_inner (tok # rest) =
     (if one_of tok [''-'', ''-i'', ''--ignore-environment''] then env_inner rest
      else if is_dash_flag tok then None
      else if shell_env_assignment_token tok then env_inner rest
      else Some (tok # rest))"

fun xargs_inner :: "str list \<Rightarrow> str list" where
  "xargs_inner [] = []"
| "xargs_inner (tok # rest) =
     (if \<not> is_dash_flag tok then tok # rest
      else if one_of tok [''-I'', ''-L'', ''-n'', ''-P'', ''--max-args'', ''--max-procs'']
      then xargs_inner (drop 1 rest)
      else xargs_inner rest)"

definition nice_inner :: "str list \<Rightarrow> str list" where
  "nice_inner rest =
     (case rest of [] \<Rightarrow> []
      | tok # rest' \<Rightarrow>
          if tok = lit ''-n'' then drop 1 rest'
          else if is_dash_flag tok then rest' else rest)"

definition unwrap_shell_wrapper :: "str \<Rightarrow> str option" where
  "unwrap_shell_wrapper segment =
     (case tokenize_shell_segment segment of [] \<Rightarrow> None
      | head # rest \<Rightarrow>
          if one_of head [''sh'', ''bash'', ''zsh'', ''fish'', ''csh'', ''tcsh'', ''ksh'', ''dash'']
          then shell_script_arg rest
          else if head = lit ''env'' then Option.bind (env_inner rest) join_shell_tokens
          else if one_of head [''nohup'', ''time'', ''sudo'']
          then join_shell_tokens (dropWhile is_dash_flag rest)
          else if head = lit ''nice'' then join_shell_tokens (nice_inner rest)
          else if head = lit ''stdbuf'' then join_shell_tokens (dropWhile is_dash_flag rest)
          else if head = lit ''timeout''
          then join_shell_tokens (drop 1 (dropWhile is_dash_flag rest))
          else if head = lit ''xargs'' then join_shell_tokens (xargs_inner rest)
          else None)"

definition MAX_WRAPPER_DEPTH :: nat where
  "MAX_WRAPPER_DEPTH = 8"

text \<open>Push the pieces that are new, in order.\<close>

definition push_pieces :: "str list \<Rightarrow> str list \<Rightarrow> str list" where
  "push_pieces pieces out =
     fold (\<lambda>piece out. if piece \<noteq> [] \<and> piece \<notin> set out then out @ [piece] else out) pieces out"

fun unwrap_loop :: "nat \<Rightarrow> str \<Rightarrow> str list \<Rightarrow> str list" where
  "unwrap_loop 0 current out = out"
| "unwrap_loop (Suc n) current out =
     (case unwrap_shell_wrapper current of None \<Rightarrow> out
      | Some inner \<Rightarrow> unwrap_loop n inner (push_pieces (shell_segments inner) out))"

definition expand_wrapper_segments :: "str list \<Rightarrow> str list" where
  "expand_wrapper_segments segments =
     fold (\<lambda>segment out. unwrap_loop MAX_WRAPPER_DEPTH segment (out @ [segment])) segments []"

section \<open>Splitting is stable\<close>

text \<open>
  What the analyser relies on when it splits text that is itself a piece of a split (a token of a
  token, a segment of a segment): the pieces are atomic, so splitting again changes nothing.
\<close>

locale splitter =
  fixes split :: "str \<Rightarrow> str list" and atomic :: "str \<Rightarrow> bool"
  assumes pieces_atomic: "w \<in> set (split s) \<Longrightarrow> atomic w"
    and split_atomic: "atomic w \<Longrightarrow> split w = [w]"
begin

lemma split_piece: "w \<in> set (split s) \<Longrightarrow> split w = [w]"
  by (rule split_atomic, rule pieces_atomic)

lemma split_stable: "concat (map split (split s)) = split s"
proof -
  have "map split (split s) = map (\<lambda>w. [w]) (split s)"
    by (rule map_cong) (simp_all add: split_piece)
  then show ?thesis by (simp only: concat_map_singleton list.map_ident)
qed

end

definition is_word :: "str \<Rightarrow> bool" where
  "is_word w \<longleftrightarrow> w \<noteq> [] \<and> (\<forall>c \<in> set w. \<not> is_ws c)"

interpretation words: splitter split_ws is_word
  by unfold_locales (auto simp: is_word_def split_ws_word dest: split_ws_token)

subsection \<open>Tokens\<close>

text \<open>
  One step of the tokenizer, as a function: \<open>None\<close> when unquoted white space ends the token,
  otherwise the new quote state, the text consumed, what remains, and whether the consumed text is
  a dangling backslash.  \<open>tok_run\<close> iterates it for as long as the text stays inside one token.
\<close>

definition tok_step :: "uchar option \<Rightarrow> uchar \<Rightarrow> str \<Rightarrow> (uchar option \<times> str \<times> str \<times> bool) option" where
  "tok_step quote ch cs =
     (if quote = Some ch then Some (None, [ch], cs, False)
      else if quote = None \<and> (ch = SQUOTE \<or> ch = DQUOTE) then Some (Some ch, [ch], cs, False)
      else if quote = None \<and> is_ws ch then None
      else if ch = BSLASH then
        (case cs of [] \<Rightarrow> Some (quote, [ch], [], True) | nxt # cs' \<Rightarrow> Some (quote, [ch, nxt], cs', False))
      else Some (quote, [ch], cs, False))"

definition emit_token :: "str \<Rightarrow> str list \<Rightarrow> str list" where
  "emit_token t ts = (if t = [] then ts else t # ts)"

lemma tok_scan_step:
  "tok_scan quote current (ch # cs) =
     (case tok_step quote ch cs of None \<Rightarrow> emit_token current (tok_scan None [] cs)
      | Some (quote', used, rest, _) \<Rightarrow> tok_scan quote' (current @ used) rest)"
  by (simp add: tok_step_def emit_token_def split: list.split)

lemma tok_scan_Nil: "tok_scan quote current [] = emit_token current []"
  by (simp add: emit_token_def)

lemma tok_step_used:
  "tok_step quote ch cs = Some (quote', used, rest, dang) \<Longrightarrow>
     used @ rest = ch # cs \<and> used \<noteq> [] \<and> (dang \<longrightarrow> rest = [])"
  by (auto simp: tok_step_def split: if_splits list.splits)

lemma tok_step_append:
  "tok_step quote ch cs = Some (quote', used, rest, False) \<Longrightarrow>
     tok_step quote ch (cs @ t) = Some (quote', used, rest @ t, False)"
  by (auto simp: tok_step_def split: if_splits list.splits)

lemma tok_step_None: "tok_step quote ch cs = None \<Longrightarrow> quote = None \<and> is_ws ch"
  by (auto simp: tok_step_def split: if_splits list.splits)

lemma tok_step_ws: "is_ws ch \<Longrightarrow> tok_step None ch cs = None"
  by (auto simp: tok_step_def is_ws_def)

declare tok_scan.simps [simp del]

function tok_run :: "uchar option \<Rightarrow> str \<Rightarrow> (uchar option \<times> bool) option" where
  "tok_run quote [] = Some (quote, False)"
| "tok_run quote (ch # cs) =
     (case tok_step quote ch cs of None \<Rightarrow> None
      | Some (quote', used, rest, dang) \<Rightarrow> if dang then Some (quote', True) else tok_run quote' rest)"
  by pat_completeness auto
termination
proof (relation "measure (\<lambda>(q, s). length s)", simp)
  fix quote ch cs x quote' y used z rest dang
  assume "tok_step quote ch cs = Some x" "(quote', y) = x" "(used, z) = y" "(rest, dang) = z"
  then have "tok_step quote ch cs = Some (quote', used, rest, dang)" by simp
  from tok_step_used [OF this] have used: "used @ rest = ch # cs" "used \<noteq> []" by simp_all
  have "length used + length rest = Suc (length cs)"
    using arg_cong [OF used(1), of length] by simp
  with used(2) show "((quote', rest), quote, ch # cs) \<in> measure (\<lambda>(q, s). length s)"
    by (cases used) auto
qed

lemma tok_scan_within:
  "tok_run quote s \<noteq> None \<Longrightarrow> tok_scan quote current s = emit_token (current @ s) []"
proof (induction quote s arbitrary: current rule: tok_run.induct)
  case (1 quote)
  then show ?case by (simp add: tok_scan_Nil)
next
  case (2 quote ch cs)
  show ?case
  proof (cases "tok_step quote ch cs")
    case None
    with "2.prems" show ?thesis by simp
  next
    case (Some r)
    obtain quote' used rest dang where r: "r = (quote', used, rest, dang)" by (cases r) auto
    note used = tok_step_used [OF Some [unfolded r]]
    show ?thesis
    proof (cases dang)
      case True
      with used Some r show ?thesis by (auto simp: tok_scan_step tok_scan_Nil)
    next
      case False
      with "2.prems" Some r have "tok_run quote' rest \<noteq> None" by simp
      from "2.IH" [OF Some [unfolded r] refl refl refl False this, of "current @ used"] used Some r
      show ?thesis by (simp add: tok_scan_step)
    qed
  qed
qed

lemma tok_scan_closed:
  "tok_run quote p = Some (None, False) \<Longrightarrow> is_ws d \<Longrightarrow>
     tok_scan quote current (p @ d # s) = emit_token (current @ p) (tok_scan None [] s)"
proof (induction quote p arbitrary: current rule: tok_run.induct)
  case (1 quote)
  then show ?case by (simp add: tok_scan_step tok_step_ws)
next
  case (2 quote ch cs)
  then obtain quote' used rest where step: "tok_step quote ch cs = Some (quote', used, rest, False)"
    and run: "tok_run quote' rest = Some (None, False)"
    by (auto split: option.splits if_splits)
  note used = tok_step_used [OF step]
  have "tok_scan quote' (current @ used) (rest @ d # s)
      = emit_token ((current @ used) @ rest) (tok_scan None [] s)"
    by (rule "2.IH" [OF step refl refl refl _ run "2.prems"(2)]) simp
  moreover have "tok_scan quote current ((ch # cs) @ d # s)
      = tok_scan quote' (current @ used) (rest @ d # s)"
    using tok_step_append [OF step, of "d # s"] by (simp add: tok_scan_step)
  moreover have "(current @ used) @ rest = current @ ch # cs" using used by simp
  ultimately show ?case by simp
qed

lemma tok_scan_chunk:
  "(tok_run quote s \<noteq> None \<and> tok_scan quote current s = emit_token (current @ s) [])
   \<or> (\<exists>p d s'. s = p @ d # s' \<and> is_ws d \<and> tok_run quote p = Some (None, False)
        \<and> tok_scan quote current s = emit_token (current @ p) (tok_scan None [] s'))"
proof (cases "tok_run quote s")
  case (Some r)
  then show ?thesis by (simp add: tok_scan_within)
next
  case None
  then have "\<exists>p d s'. s = p @ d # s' \<and> is_ws d \<and> tok_run quote p = Some (None, False)"
  proof (induction quote s rule: tok_run.induct)
    case (2 quote ch cs)
    show ?case
    proof (cases "tok_step quote ch cs")
      case None
      then show ?thesis using tok_step_None [OF None]
        by (intro exI [of _ "[]"] exI [of _ ch] exI [of _ cs]) simp
    next
      case (Some r)
      with "2.prems" obtain quote' used rest
        where step: "tok_step quote ch cs = Some (quote', used, rest, False)"
          and run: "tok_run quote' rest = None"
        by (auto split: prod.splits if_splits)
      from "2.IH" [OF step refl refl refl _ run] obtain p d s'
        where IH: "rest = p @ d # s'" "is_ws d" "tok_run quote' p = Some (None, False)" by auto
      from tok_step_used [OF step] obtain us where used: "used = ch # us" "cs = us @ rest"
        by (cases used) auto
      have "tok_step quote ch (us @ p) = Some (quote', used, p, False)"
        using step used by (auto simp: tok_step_def split: if_splits list.splits)
      with IH used show ?thesis
        by (intro exI [of _ "used @ p"] exI [of _ d] exI [of _ s']) simp
    qed
  qed simp
  then obtain p d s' where "s = p @ d # s'" "is_ws d" "tok_run quote p = Some (None, False)" by blast
  with tok_scan_closed [of quote p d current s'] show ?thesis by blast
qed

text \<open>A token is a non-empty text the tokenizer runs through without finding a break.\<close>

definition is_token :: "str \<Rightarrow> bool" where
  "is_token t \<longleftrightarrow> t \<noteq> [] \<and> tok_run None t \<noteq> None"

definition is_closed_token :: "str \<Rightarrow> bool" where
  "is_closed_token t \<longleftrightarrow> t \<noteq> [] \<and> tok_run None t = Some (None, False)"

lemma closed_is_token: "is_closed_token t \<Longrightarrow> is_token t"
  by (simp add: is_token_def is_closed_token_def)

lemma tokens_shape:
  "(\<forall>t \<in> set (tokenize_shell_segment s). is_token t)
   \<and> (\<forall>t \<in> set (butlast (tokenize_shell_segment s)). is_closed_token t)"
proof (induction "length s" arbitrary: s rule: less_induct)
  case less
  consider (one) "tok_run None s \<noteq> None" "tok_scan None [] s = emit_token s []"
    | (more) p d s' where "s = p @ d # s'" "tok_run None p = Some (None, False)"
        "tok_scan None [] s = emit_token p (tok_scan None [] s')"
    using tok_scan_chunk [of None s "[]"] by auto
  then show ?case
  proof cases
    case one
    then show ?thesis by (auto simp: tokenize_shell_segment_def emit_token_def is_token_def)
  next
    case more
    then have "length s' < length s" by simp
    from less [OF this] more show ?thesis
      by (auto simp: tokenize_shell_segment_def emit_token_def is_token_def is_closed_token_def)
  qed
qed

lemma tokenize_token: "is_token t \<Longrightarrow> tokenize_shell_segment t = [t]"
  by (simp add: tokenize_shell_segment_def is_token_def tok_scan_within emit_token_def)

interpretation tokens: splitter tokenize_shell_segment is_token
  by unfold_locales (use tokens_shape tokenize_token in blast)+

lemma tokenize_join:
  "\<forall>t \<in> set ts. is_token t \<Longrightarrow> \<forall>t \<in> set (butlast ts). is_closed_token t \<Longrightarrow>
     tokenize_shell_segment (join [SPACE] ts) = ts"
proof (induction ts)
  case Nil
  then show ?case by (simp add: tokenize_shell_segment_def tok_scan_Nil emit_token_def)
next
  case (Cons t ts)
  show ?case
  proof (cases "ts = []")
    case True
    with Cons.prems show ?thesis by (simp add: tokenize_token)
  next
    case False
    with Cons.prems have closed: "is_closed_token t" by simp
    have "tokenize_shell_segment (join [SPACE] ts) = ts"
      using Cons.IH Cons.prems False by simp
    with closed False show ?thesis
      by (simp add: join_Cons tokenize_shell_segment_def is_closed_token_def tok_scan_closed
          emit_token_def)
  qed
qed

subsection \<open>Segments\<close>

text \<open>
  One step of the operator splitter: \<open>Inl\<close> the text behind an operator, or \<open>Inr\<close> the new quote
  state, the text consumed and what remains.
\<close>

definition seg_step :: "uchar option \<Rightarrow> uchar \<Rightarrow> str \<Rightarrow> str + (uchar option \<times> str \<times> str)" where
  "seg_step quote ch cs =
     (if quote = Some SQUOTE \<and> ch = SQUOTE then Inr (None, [ch], cs)
      else if quote = Some DQUOTE \<and> ch = DQUOTE then Inr (None, [ch], cs)
      else if quote \<noteq> None \<and> ch = BSLASH then
        (case cs of [] \<Rightarrow> Inr (quote, [ch], []) | nxt # cs' \<Rightarrow> Inr (quote, [ch, nxt], cs'))
      else if quote = None \<and> (ch = SQUOTE \<or> ch = DQUOTE) then Inr (Some ch, [ch], cs)
      else if quote = None \<and> ch = SEMI then Inl cs
      else if quote = None \<and> ch = AMP \<and> take 1 cs = [AMP] then Inl (drop 1 cs)
      else if quote = None \<and> ch = PIPE then Inl (if take 1 cs = [PIPE] then drop 1 cs else cs)
      else Inr (quote, [ch], cs))"

lemma seg_scan_step:
  "seg_scan quote current (ch # cs) =
     (case seg_step quote ch cs of Inl rest \<Rightarrow> push_shell_segment current (seg_scan None [] rest)
      | Inr (quote', used, rest) \<Rightarrow> seg_scan quote' (current @ used) rest)"
  by (simp add: seg_step_def split: list.split)

declare seg_scan.simps(2) [simp del]

lemma seg_step_Inr:
  "seg_step quote ch cs = Inr (quote', used, rest) \<Longrightarrow> used @ rest = ch # cs \<and> used \<noteq> []"
  by (auto simp: seg_step_def split: if_splits list.splits)

lemma seg_step_Inl: "seg_step quote ch cs = Inl rest \<Longrightarrow> quote = None \<and> length rest \<le> length cs"
  by (auto simp: seg_step_def split: if_splits list.splits)

lemma seg_step_prefix:
  assumes "seg_step quote ch cs = Inr (quote', used, p @ t)"
  shows "\<exists>us. used = ch # us \<and> seg_step quote ch (us @ p) = Inr (quote', used, p)"
proof -
  from seg_step_Inr [OF assms] obtain us where us: "used = ch # us" "cs = us @ p @ t"
    by (cases used) auto
  note assms [unfolded us]
  moreover have "take 1 (p @ t) \<noteq> [AMP] \<Longrightarrow> take 1 p \<noteq> [AMP]" by (cases p) auto
  ultimately have "seg_step quote ch (us @ p) = Inr (quote', ch # us, p)"
    by (cases us; cases p; cases t; auto simp: seg_step_def split: if_splits)
  with us(1) show ?thesis by simp
qed

function seg_run :: "uchar option \<Rightarrow> str \<Rightarrow> bool" where
  "seg_run quote [] \<longleftrightarrow> True"
| "seg_run quote (ch # cs) \<longleftrightarrow>
     (case seg_step quote ch cs of Inl _ \<Rightarrow> False | Inr (quote', used, rest) \<Rightarrow> seg_run quote' rest)"
  by pat_completeness auto
termination
proof (relation "measure (\<lambda>(q, s). length s)", simp)
  fix quote ch cs x quote' y used rest
  assume "seg_step quote ch cs = Inr x" "(quote', y) = x" "(used, rest) = y"
  then have "seg_step quote ch cs = Inr (quote', used, rest)" by simp
  from seg_step_Inr [OF this] have used: "used @ rest = ch # cs" "used \<noteq> []" by simp_all
  have "length used + length rest = Suc (length cs)"
    using arg_cong [OF used(1), of length] by simp
  with used(2) show "((quote', rest), quote, ch # cs) \<in> measure (\<lambda>(q, s). length s)"
    by (cases used) auto
qed

lemma seg_scan_within: "seg_run quote s \<Longrightarrow> seg_scan quote current s = push_shell_segment (current @ s) []"
proof (induction quote s arbitrary: current rule: seg_run.induct)
  case (2 quote ch cs)
  then obtain quote' used rest where step: "seg_step quote ch cs = Inr (quote', used, rest)"
    and run: "seg_run quote' rest"
    by (auto split: sum.splits)
  from "2.IH" [OF step refl refl run, of "current @ used"] seg_step_Inr [OF step] step
  show ?case by (simp add: seg_scan_step)
qed simp

lemma seg_run_prefix: "seg_run quote (p @ t) \<Longrightarrow> seg_run quote p"
proof (induction "length p" arbitrary: quote p rule: less_induct)
  case less
  show ?case
  proof (cases p)
    case (Cons ch cs)
    with less.prems obtain quote' used rest
      where step: "seg_step quote ch (cs @ t) = Inr (quote', used, rest)" and run: "seg_run quote' rest"
      by (auto split: sum.splits)
    from seg_step_Inr [OF step] obtain us where used: "used = ch # us" "us @ rest = cs @ t"
      by (cases used) auto
    show ?thesis
    proof (cases "length us \<le> length cs")
      case True
      with used obtain p' where p': "cs = us @ p'" "rest = p' @ t"
        by (metis append_eq_append_conv_if append_eq_conv_conj)
      from seg_step_prefix [OF step [unfolded p'(2)]] used p'
      have "seg_step quote ch cs = Inr (quote', used, p')" by auto
      moreover have "seg_run quote' p'" using less.hyps [of p' quote'] run p' Cons by simp
      ultimately show ?thesis using Cons by simp
    next
      case False
      then have "us \<noteq> []" by auto
      with step used(1) have "length us = 1"
        by (auto simp: seg_step_def split: if_splits list.splits)
      with False have "cs = []" by (cases cs) auto
      with step Cons show ?thesis
        by (auto simp: seg_step_def split: if_splits list.splits)
    qed
  qed simp
qed

lemma seg_run_ws: "is_ws c \<Longrightarrow> seg_run None (c # s) \<longleftrightarrow> seg_run None s"
  by (auto simp: seg_step_def is_ws_def)

lemma seg_run_trim: "seg_run None s \<Longrightarrow> seg_run None (trim s)"
proof -
  assume run: "seg_run None s"
  obtain a b where s: "s = a @ trim s @ b" and ws: "\<forall>c \<in> set a. is_ws c"
    using trim_decomp by blast
  from ws have "seg_run None (a @ trim s @ b) \<longleftrightarrow> seg_run None (trim s @ b)"
    by (induction a) (auto simp del: seg_run.simps simp: seg_run_ws)
  with run s show ?thesis using seg_run_prefix by metis
qed

lemma seg_scan_chunk:
  "(seg_run quote s \<and> seg_scan quote current s = push_shell_segment (current @ s) [])
   \<or> (\<exists>p s'. length s' < length s \<and> seg_run quote p
        \<and> seg_scan quote current s = push_shell_segment (current @ p) (seg_scan None [] s')
        \<and> (\<exists>t. s = p @ t))"
proof (induction quote s arbitrary: current rule: seg_run.induct)
  case (2 quote ch cs)
  show ?case
  proof (cases "seg_step quote ch cs")
    case (Inl rest)
    with seg_step_Inl [OF Inl] show ?thesis
      by (intro disjI2 exI [of _ "[]"] exI [of _ rest]) (auto simp: seg_scan_step less_Suc_eq_le)
  next
    case (Inr r)
    obtain quote' used rest where r: "r = (quote', used, rest)" by (cases r) auto
    note step = Inr [unfolded r]
    from seg_step_Inr [OF step] have used: "used @ rest = ch # cs" "used \<noteq> []" by auto
    have scan: "seg_scan quote current (ch # cs) = seg_scan quote' (current @ used) rest"
      using step by (simp add: seg_scan_step)
    have run: "seg_run quote (ch # cs) \<longleftrightarrow> seg_run quote' rest" using step by simp
    from "2.IH" [OF step refl refl, of "current @ used"]
    consider (whole) "seg_run quote' rest"
        "seg_scan quote' (current @ used) rest = push_shell_segment ((current @ used) @ rest) []"
      | (cut) p s' t where "length s' < length rest" "seg_run quote' p" "rest = p @ t"
        "seg_scan quote' (current @ used) rest
           = push_shell_segment ((current @ used) @ p) (seg_scan None [] s')"
      by blast
    then show ?thesis
    proof cases
      case whole
      with scan run used show ?thesis by simp
    next
      case cut
      from seg_step_prefix [OF step [unfolded cut(3)]] obtain us
        where us: "used = ch # us" "seg_step quote ch (us @ p) = Inr (quote', used, p)" by auto
      have "length rest \<le> length (ch # cs)" using used by (metis length_append le_add2)
      then have "length s' < length (ch # cs)" using cut(1) by linarith
      moreover have "seg_run quote (used @ p)" using us cut(2) by simp
      moreover have "ch # cs = (used @ p) @ t" using used cut(3) by simp
      ultimately show ?thesis using scan cut(4)
        by (intro disjI2 exI [of _ "used @ p"] exI [of _ s']) auto
    qed
  qed
qed simp

definition is_segment :: "str \<Rightarrow> bool" where
  "is_segment w \<longleftrightarrow> w \<noteq> [] \<and> trim w = w \<and> seg_run None w"

lemma shell_segments_shape: "w \<in> set (shell_segments s) \<Longrightarrow> is_segment w"
proof (induction "length s" arbitrary: s rule: less_induct)
  case less
  have piece: "w = trim p \<Longrightarrow> trim p \<noteq> [] \<Longrightarrow> seg_run None p \<Longrightarrow> is_segment w" for p
    by (simp add: is_segment_def seg_run_trim)
  from seg_scan_chunk [of None s "[]"] show ?case
  proof (elim disjE exE conjE)
    assume "seg_run None s" "seg_scan None [] s = push_shell_segment ([] @ s) []"
    with less.prems piece [of s] show ?thesis
      by (auto simp: shell_segments_def push_shell_segment_def split: if_splits)
  next
    fix p s'
    assume h: "length s' < length s" "seg_run None p"
      "seg_scan None [] s = push_shell_segment ([] @ p) (seg_scan None [] s')"
    with less.prems have "(w = trim p \<and> trim p \<noteq> []) \<or> w \<in> set (shell_segments s')"
      by (auto simp: shell_segments_def push_shell_segment_def split: if_splits)
    with less.hyps [OF h(1)] piece [of p] h(2) show ?thesis by blast
  qed
qed

lemma shell_segments_segment: "is_segment w \<Longrightarrow> shell_segments w = [w]"
  by (simp add: shell_segments_def is_segment_def seg_scan_within push_shell_segment_def)

interpretation segments: splitter shell_segments is_segment
  by unfold_locales (fact shell_segments_shape, fact shell_segments_segment)

section \<open>Wrapper expansion\<close>

text \<open>
  \<open>payload n s w\<close>: \<open>w\<close> is a segment of the text found under at most \<open>n\<close> layers of wrapping of \<open>s\<close>.
\<close>

fun payload :: "nat \<Rightarrow> str \<Rightarrow> str \<Rightarrow> bool" where
  "payload 0 s w \<longleftrightarrow> False"
| "payload (Suc n) s w \<longleftrightarrow>
     (case unwrap_shell_wrapper s of None \<Rightarrow> False
      | Some inner \<Rightarrow> w \<in> set (shell_segments inner) \<or> payload n inner w)"

lemma set_push_pieces: "set (push_pieces pieces out) = set out \<union> (set pieces - {[]})"
  unfolding push_pieces_def by (induction pieces arbitrary: out) auto

lemma segments_nonempty: "[] \<notin> set (shell_segments s)"
  using shell_segments_shape is_segment_def by blast

lemma set_unwrap_loop: "set (unwrap_loop n cur out) = set out \<union> {w. payload n cur w}"
proof (induction n arbitrary: cur out)
  case (Suc n)
  show ?case
  proof (cases "unwrap_shell_wrapper cur")
    case (Some inner)
    have "set (shell_segments inner) - {[]} = set (shell_segments inner)"
      using segments_nonempty by simp
    with Some Suc.IH show ?thesis by (auto simp: set_push_pieces)
  qed simp
qed auto

text \<open>The segments the analyser sees: the given ones and every payload up to eight layers down.\<close>

definition payload_of :: "str list \<Rightarrow> str \<Rightarrow> bool" where
  "payload_of segs w \<longleftrightarrow> (\<exists>seg \<in> set segs. payload MAX_WRAPPER_DEPTH seg w)"

lemma set_expand_wrapper_segments:
  "set (expand_wrapper_segments segs) = set segs \<union> {w. payload_of segs w}"
proof -
  have "set (fold (\<lambda>segment out. unwrap_loop MAX_WRAPPER_DEPTH segment (out @ [segment])) segs out)
      = set out \<union> set segs \<union> {w. payload_of segs w}" for out
    by (induction segs arbitrary: out) (auto simp: set_unwrap_loop payload_of_def)
  from this [of "[]"] show ?thesis by (simp add: expand_wrapper_segments_def)
qed

lemma expand_Nil_iff [simp]: "expand_wrapper_segments segs = [] \<longleftrightarrow> segs = []"
proof
  assume "expand_wrapper_segments segs = []"
  then have "set segs = {}" using set_expand_wrapper_segments [of segs] by auto
  then show "segs = []" by simp
qed (simp add: expand_wrapper_segments_def)

lemma payload_nonempty: "payload n s w \<Longrightarrow> is_segment w"
  by (induction n arbitrary: s) (auto dest: shell_segments_shape split: option.splits)

lemma subseq_push_pieces: "subseq out (push_pieces pieces out)"
  unfolding push_pieces_def
proof (induction pieces arbitrary: out)
  case (Cons piece pieces)
  let ?out = "if piece \<noteq> [] \<and> piece \<notin> set out then out @ [piece] else out"
  have "subseq out ?out" by (auto intro: prefix_imp_subseq)
  from subseq_order.order_trans [OF this Cons [of ?out]] show ?case by (simp only: fold_Cons o_apply)
qed simp

lemma subseq_unwrap_loop: "subseq out (unwrap_loop n cur out)"
proof (induction n arbitrary: cur out)
  case (Suc n)
  show ?case
    by (cases "unwrap_shell_wrapper cur")
       (auto intro: subseq_order.order_trans [OF subseq_push_pieces Suc])
qed simp

lemma subseq_expand: "subseq segs (expand_wrapper_segments segs)"
proof -
  have "subseq (out @ segs)
          (fold (\<lambda>segment out. unwrap_loop MAX_WRAPPER_DEPTH segment (out @ [segment])) segs out)" for out
  proof (induction segs arbitrary: out)
    case (Cons seg segs)
    have "subseq ((out @ [seg]) @ segs) (unwrap_loop MAX_WRAPPER_DEPTH seg (out @ [seg]) @ segs)"
      by (intro list_emb_append_mono subseq_unwrap_loop subseq_order.order_refl)
    from subseq_order.order_trans [OF this Cons [of "unwrap_loop MAX_WRAPPER_DEPTH seg (out @ [seg])"]]
    show ?case by (simp only: fold_Cons o_apply append_assoc append_Cons append_Nil)
  qed simp
  from this [of "[]"] show ?thesis by (simp add: expand_wrapper_segments_def)
qed

section \<open>Properties\<close>

text \<open>Rendering a tokenized shell segment with single spaces between the tokens and tokenizing
  it again gives the same tokens, for every input: unbalanced quotes and a dangling backslash
  included.  The wrapper unwrapper re-renders the inner command this way (\<open>join_shell_tokens\<close>), so no
  quoted argument is split or fused on the way to the classifier.\<close>

theorem tokenize_join_roundtrip:
  "tokenize_shell_segment (join [SPACE] (tokenize_shell_segment s)) = tokenize_shell_segment s"
  by (rule tokenize_join) (use tokens_shape in blast)+

text \<open>The operator splitter is stable: splitting each of its segments again yields exactly the
  same list, and collapsing white space, tokenizing or splitting into words a piece that is already
  atomic changes nothing either.\<close>

theorem segments_tokens_stable:
  "concat (map shell_segments (shell_segments s)) = shell_segments s
   \<and> concat (map tokenize_shell_segment (tokenize_shell_segment s)) = tokenize_shell_segment s
   \<and> collapse_whitespace (collapse_whitespace s) = collapse_whitespace s"
  using segments.split_stable tokens.split_stable
  by (simp add: collapse_whitespace_def split_ws_join split_ws_token)

text \<open>Wrapper expansion keeps the given segments, in order, and adds exactly the segments of
  every command found under at most eight layers of wrapping (\<open>sh -c\<close>, \<open>env\<close>, \<open>sudo\<close>, \<open>xargs\<close>,
  \<open>nice\<close>, \<open>timeout\<close> and the others the unwrapper knows): nothing else, and nothing is lost to the
  deduplication.\<close>

theorem expand_surfaces_payloads:
  "subseq segs (expand_wrapper_segments segs)
   \<and> set (expand_wrapper_segments segs) = set segs \<union> {w. payload_of segs w}"
  by (simp add: subseq_expand set_expand_wrapper_segments)

end
