(* ===== verification/WindowsCmd.thy ===== *)
theory WindowsCmd
  imports ShellLex
begin

text \<open>
  The destructive-command classifier for PowerShell and cmd.exe,
  \<open>crates/squeezy-tools/src/windows_cmd.rs\<close>: a match over the lower-cased words of one segment.
\<close>

text \<open>
  \<open>iex\<close> as a statement or pipeline element.  The code searches the next occurrence of \<open>iex\<close> from
  one past the previous one; scanning every position with the character before it at hand visits
  the same occurrences.
\<close>

definition iex_before_ok :: "uchar option \<Rightarrow> bool" where
  "iex_before_ok prev = (case prev of None \<Rightarrow> True | Some c \<Rightarrow> c \<in> {SPACE, TAB, PIPE, SEMI, AMP})"

definition iex_after_ok :: "str \<Rightarrow> bool" where
  "iex_after_ok rest =
     (case rest of [] \<Rightarrow> True
      | c # _ \<Rightarrow> c \<in> {SPACE, TAB, LPAREN, SQUOTE, DQUOTE, DOLLAR, PIPE, SEMI, AMP})"

fun iex_scan :: "uchar option \<Rightarrow> str \<Rightarrow> bool" where
  "iex_scan prev [] = False"
| "iex_scan prev (c # cs) =
     ((starts_with (c # cs) (lit ''iex'') \<and> iex_before_ok prev \<and> iex_after_ok (drop 2 cs))
      \<or> iex_scan (Some c) cs)"

definition contains_iex_alias :: "str \<Rightarrow> bool" where
  "contains_iex_alias lower = iex_scan None lower"

definition powershell_has_literalpath_flag :: "str list \<Rightarrow> bool" where
  "powershell_has_literalpath_flag tokens =
     (\<exists>tok \<in> set (drop 1 tokens). starts_with tok (lit ''-literalpath''))"

definition powershell_named_flag_is_on :: "str \<Rightarrow> str \<Rightarrow> bool" where
  "powershell_named_flag_is_on lower_tok name =
     (case strip_prefix lower_tok name of None \<Rightarrow> False
      | Some rest \<Rightarrow>
          if rest = [] then True
          else (case strip_prefix rest [COLON] of None \<Rightarrow> False
                | Some value \<Rightarrow> one_of value [''$true'', ''true'', ''1'']))"

definition powershell_has_recurse_flag :: "str list \<Rightarrow> bool" where
  "powershell_has_recurse_flag tokens =
     (\<exists>tok \<in> set (drop 1 tokens).
        powershell_named_flag_is_on (to_lower tok) (lit ''-recurse'')
        \<or> one_of (to_lower tok) [''-r'', ''-re'', ''-rec'', ''-recu'', ''-recur'', ''-recurs''])"

definition powershell_has_force_flag :: "str list \<Rightarrow> bool" where
  "powershell_has_force_flag tokens =
     (\<exists>tok \<in> set (drop 1 tokens).
        powershell_named_flag_is_on (to_lower tok) (lit ''-force'')
        \<or> one_of (to_lower tok) [''-fo'', ''-for'', ''-forc''])"

definition powershell_command_name :: "str list \<Rightarrow> str" where
  "powershell_command_name tokens =
     (let powershell_command = (case List.find (\<lambda>token. token \<noteq> [AMP]) tokens of
                                  None \<Rightarrow> [] | Some token \<Rightarrow> token)
      in last (split_on (\<lambda>ch. ch = BSLASH \<or> ch = SLASH)
                 (trim_matches (\<lambda>ch. ch = DQUOTE \<or> ch = SQUOTE) powershell_command)))"

definition is_destructive_remove_item :: "str \<Rightarrow> str list \<Rightarrow> bool" where
  "is_destructive_remove_item lower tokens \<longleftrightarrow>
     one_of (powershell_command_name tokens) [''remove-item'', ''ri'', ''rm'']
     \<and> ((powershell_has_recurse_flag tokens \<and> powershell_has_force_flag tokens)
        \<or> (powershell_has_literalpath_flag tokens
           \<and> (powershell_has_recurse_flag tokens \<or> powershell_has_force_flag tokens))
        \<or> contains lower (lit ''-confirm:$false'')
        \<or> contains lower (lit ''-confirm=false''))"

definition has_verb_runas :: "str list \<Rightarrow> bool" where
  "has_verb_runas tokens \<longleftrightarrow>
     (lit ''-verb'', lit ''runas'') \<in> set (zip tokens (drop 1 tokens))
     \<or> (\<exists>t \<in> set tokens. one_of t [''-verb:runas'', ''-verb=runas''])"

text \<open>The cmd.exe half: the match over the first word.\<close>

definition is_destructive_cmd :: "str list \<Rightarrow> bool" where
  "is_destructive_cmd tokens =
     (let first = (case tokens of [] \<Rightarrow> [] | t # _ \<Rightarrow> t);
          flag = (\<lambda>f. lit f \<in> set tokens)
      in if one_of first [''del'', ''erase''] then flag ''/s'' \<or> (flag ''/q'' \<and> flag ''/f'')
         else if one_of first [''rd'', ''rmdir''] then flag ''/s''
         else if one_of first [''format'', ''diskpart''] then True
         else if first = lit ''vssadmin'' then flag ''delete''
         else if first = lit ''bcdedit'' then flag ''/delete'' \<or> flag ''/deletevalue''
         else if first = lit ''reg'' then flag ''delete''
         else if first = lit ''cipher'' then flag ''/w''
         else if first = lit ''wmic'' then flag ''delete''
         else if one_of first [''sc'', ''sc.exe''] then flag ''delete''
         else if one_of first [''schtasks'', ''schtasks.exe''] then flag ''/delete''
         else if first = lit ''takeown'' then flag ''/r''
         else if first = lit ''icacls'' then flag ''/reset'' \<or> flag ''/grant:r''
         else if first = lit ''attrib'' then flag ''/s'' \<and> (flag ''-r'' \<or> flag ''+h'')
         else if first = lit ''net'' \<and> take 1 (drop 1 tokens) = [lit ''user''] then flag ''/delete''
         else if first = lit ''shutdown''
         then flag ''/s'' \<or> flag ''/r'' \<or> flag ''/h'' \<or> flag ''-s'' \<or> flag ''-r''
         else False)"

definition is_destructive_windows_segment :: "str \<Rightarrow> bool" where
  "is_destructive_windows_segment segment =
     (let lower = to_lower segment;
          tokens = split_ws lower;
          command_name = powershell_command_name tokens
      in if is_destructive_remove_item lower tokens then True
         else if command_name = lit ''invoke-expression'' \<or> contains_iex_alias lower then True
         else if one_of command_name
                   [''set-executionpolicy'', ''new-localuser'', ''remove-localuser'',
                    ''disable-localuser'', ''clear-recyclebin'', ''format-volume'',
                    ''stop-computer'', ''restart-computer'', ''remove-service'',
                    ''unregister-scheduledtask'', ''remove-storedcredential'', ''clear-content'',
                    ''remove-netfirewallrule'']
              then True
         else if one_of command_name [''start-process'', ''start''] \<and> has_verb_runas tokens then True
         else is_destructive_cmd tokens)"

section \<open>Properties of the classifier\<close>

text \<open>Letter case never matters, so \<open>Remove-Item\<close> and \<open>DEL\<close> are judged like their lower-case forms.\<close>

lemma windows_case_insensitive:
  "is_destructive_windows_segment (to_lower segment) = is_destructive_windows_segment segment"
  by (simp add: is_destructive_windows_segment_def)

text \<open>
  The \<open>iex\<close> scan finds exactly the occurrences of \<open>iex\<close> between the statement boundaries.
\<close>

definition iex_at :: "uchar option \<Rightarrow> str \<Rightarrow> bool" where
  "iex_at prev s \<longleftrightarrow> (\<exists>u v. s = u @ lit ''iex'' @ v
      \<and> iex_before_ok (if u = [] then prev else Some (last u)) \<and> iex_after_ok v)"

lemma iex_scan_iff: "iex_scan prev s \<longleftrightarrow> iex_at prev s"
proof (induction s arbitrary: prev)
  case Nil
  then show ?case by (auto simp: iex_at_def lit_def)
next
  case (Cons c cs)
  have step: "iex_at prev (c # cs) \<longleftrightarrow>
      (\<exists>v. c # cs = lit ''iex'' @ v \<and> iex_before_ok prev \<and> iex_after_ok v) \<or> iex_at (Some c) cs"
  proof
    assume "iex_at prev (c # cs)"
    then obtain u v where u: "c # cs = u @ lit ''iex'' @ v"
      "iex_before_ok (if u = [] then prev else Some (last u))" "iex_after_ok v"
      by (auto simp: iex_at_def)
    show "(\<exists>v. c # cs = lit ''iex'' @ v \<and> iex_before_ok prev \<and> iex_after_ok v) \<or> iex_at (Some c) cs"
    proof (cases u)
      case Nil
      with u show ?thesis by auto
    next
      case (Cons d u')
      with u have "cs = u' @ lit ''iex'' @ v" "d = c"
        "iex_before_ok (if u' = [] then Some c else Some (last u'))" by auto
      with u(3) show ?thesis unfolding iex_at_def by blast
    qed
  next
    assume "(\<exists>v. c # cs = lit ''iex'' @ v \<and> iex_before_ok prev \<and> iex_after_ok v) \<or> iex_at (Some c) cs"
    then show "iex_at prev (c # cs)"
    proof (elim disjE exE conjE)
      fix v assume "c # cs = lit ''iex'' @ v" "iex_before_ok prev" "iex_after_ok v"
      then show ?thesis unfolding iex_at_def by (intro exI [of _ "[]"] exI [of _ v]) simp
    next
      assume "iex_at (Some c) cs"
      then obtain u v where "cs = u @ lit ''iex'' @ v"
        "iex_before_ok (if u = [] then Some c else Some (last u))" "iex_after_ok v"
        by (auto simp: iex_at_def)
      then show ?thesis unfolding iex_at_def
        by (intro exI [of _ "c # u"] exI [of _ v]) (auto split: if_splits)
    qed
  qed
  have "starts_with (c # cs) (lit ''iex'') \<and> iex_after_ok (drop 2 cs)
      \<longleftrightarrow> (\<exists>v. c # cs = lit ''iex'' @ v \<and> iex_after_ok v)"
  proof -
    have "c # cs = lit ''iex'' @ v \<Longrightarrow> v = drop 2 cs" for v by (simp add: lit_def)
    then show ?thesis by (auto simp: starts_with_iff)
  qed
  with Cons.IH step show ?case by auto
qed

lemma contains_iex_alias_iff: "contains_iex_alias s \<longleftrightarrow> iex_at None s"
  by (simp add: contains_iex_alias_def iex_scan_iff)

text \<open>The Windows classifier ignores letter case, and an \<open>iex\<close> that stands as a statement or a
  pipeline element anywhere in the segment (at a boundary on both sides, in any case) makes the
  segment destructive.\<close>

theorem windows_iex_flagged:
  assumes "to_lower segment = u @ lit ''iex'' @ v"
    and "iex_before_ok (if u = [] then None else Some (last u))" "iex_after_ok v"
  shows "is_destructive_windows_segment segment
    \<and> is_destructive_windows_segment segment = is_destructive_windows_segment (to_lower segment)"
proof -
  have "contains_iex_alias (to_lower segment)"
    unfolding contains_iex_alias_iff iex_at_def using assms by blast
  then show ?thesis by (auto simp: windows_case_insensitive is_destructive_windows_segment_def Let_def)
qed

lemma windows_iex_flagged_witness:
  "is_destructive_windows_segment (lit ''gc p.ps1 |IEX'')"
  by (rule windows_iex_flagged [THEN conjunct1, of _ "lit ''gc p.ps1 |''" "[]"])
     (simp_all add: lit_def to_lower_def lower_char_def iex_before_ok_def iex_after_ok_def)

end
