(* ===== verification/ShellClassify.thy ===== *)
theory ShellClassify
  imports WindowsCmd
begin

text \<open>
  The segment classifiers of \<open>crates/squeezy-tools/src/shell_parse.rs\<close>: which single commands are
  destructive, network, compiler, git, read-only or metadata-writing, and the host a network
  command names.  \<open>reqwest::Url::parse\<close> is third-party code: \<open>host_from_network_token\<close> takes it as
  the parameter \<open>url_parse\<close>, which returns the scheme and the host of a parsable URL.
\<close>

section \<open>Output redirects\<close>

definition redirect_target_is_dev_null :: "str \<Rightarrow> bool" where
  "redirect_target_is_dev_null target =
     (case strip_prefix target (lit ''/dev/null'') of None \<Rightarrow> False
      | Some [] \<Rightarrow> True
      | Some (nxt # _) \<Rightarrow> is_ascii_ws nxt \<or> nxt \<in> {PIPE, AMP, SEMI})"

text \<open>
  What follows a \<open>>\<close>: the rest of the operator (\<open>>\<close> run, optional \<open>|\<close>) and the blanks before the
  target are skipped.
\<close>

definition redirect_target :: "str \<Rightarrow> str" where
  "redirect_target bs =
     (let r1 = dropWhile (\<lambda>b. b = GREATER) bs;
          r2 = (if take 1 r1 = [PIPE] then drop 1 r1 else r1)
      in dropWhile (\<lambda>b. b = SPACE \<or> b = TAB) r2)"

text \<open>\<open>&N\<close>, \<open>&-\<close> or \<open>&N-\<close>: the text behind a descriptor duplication, if the target is one.\<close>

definition dup_target :: "str \<Rightarrow> str option" where
  "dup_target tgt =
     (case tgt of [] \<Rightarrow> None
      | c # r \<Rightarrow>
          if c = AMP then
            (let digits = takeWhile is_digit r; k = dropWhile is_digit r
             in if take 1 k = [DASH] then Some (drop 1 k)
                else if digits \<noteq> [] then Some k else None)
          else None)"

lemma length_redirect_target: "length (redirect_target bs) \<le> length bs"
proof -
  let ?r1 = "dropWhile (\<lambda>b. b = GREATER) bs"
  have "length (redirect_target bs) \<le> length ?r1"
    unfolding redirect_target_def Let_def
    by (cases ?r1) (auto intro!: le_trans [OF length_dropWhile_le])
  then show ?thesis using length_dropWhile_le [of "\<lambda>b. b = GREATER" bs] by linarith
qed

lemma length_dup_target: "dup_target tgt = Some rest \<Longrightarrow> length rest \<le> length tgt"
proof -
  assume "dup_target tgt = Some rest"
  then obtain c r where "tgt = c # r" "length rest \<le> length (dropWhile is_digit r)"
    by (auto simp: dup_target_def Let_def split: list.splits if_splits)
  then show ?thesis using length_dropWhile_le [of is_digit r] by simp
qed

text \<open>
  \<open>shell_segment_has_destructive_redirect\<close>: the index loop as a scan that carries the quote state
  and the character before the current one (the code's \<open>bytes[i - 1]\<close>).  Where the code jumps
  (\<open>i += 2\<close>, past a duplication or past \<open>/dev/null\<close>), the character before the new position is the
  last one jumped over (a digit or a dash behind a duplication: the scan only asks whether it is \<open>=\<close>).
\<close>

function redirect_scan :: "uchar option \<Rightarrow> uchar option \<Rightarrow> str \<Rightarrow> bool" where
  "redirect_scan quote prev [] = False"
| "redirect_scan quote prev (b # bs) =
     (if quote = Some b then redirect_scan None (Some b) bs
      else if quote = None \<and> (b = SQUOTE \<or> b = DQUOTE) then redirect_scan (Some b) (Some b) bs
      else if quote = None \<and> b = BSLASH \<and> bs \<noteq> [] then redirect_scan quote (Some (hd bs)) (tl bs)
      else if quote = None \<and> b = GREATER then
        (if prev = Some EQUALS then redirect_scan quote (Some b) bs
         else
           (case dup_target (redirect_target bs) of
              Some rest \<Rightarrow> redirect_scan quote (Some DASH) rest
            | None \<Rightarrow>
                if redirect_target_is_dev_null (redirect_target bs)
                then redirect_scan quote (Some 108) (drop 9 (redirect_target bs))
                else True))
      else redirect_scan quote (Some b) bs)"
  by pat_completeness auto

termination
  by (relation "measure (\<lambda>(q, p, s). length s)")
     (auto simp: less_Suc_eq_le length_redirect_target
       intro: le_trans [OF length_dup_target length_redirect_target]
         le_trans [OF diff_le_self length_redirect_target])

definition shell_segment_has_destructive_redirect :: "str \<Rightarrow> bool" where
  "shell_segment_has_destructive_redirect segment = redirect_scan None None segment"

section \<open>Destructive segments\<close>

definition destructive_git_pair :: "str list \<Rightarrow> bool" where
  "destructive_git_pair tokens =
     (case tokens of
        git # verb # args \<Rightarrow>
          git = lit ''git''
          \<and> (if one_of verb [''reset'', ''clean'', ''checkout'', ''restore''] then True
             else if verb = lit ''stash''
             then (case args of [] \<Rightarrow> False | a # _ \<Rightarrow> one_of a [''drop'', ''clear''])
             else if verb = lit ''branch'' then lit ''-D'' \<in> set args
             else if verb = lit ''push''
             then (\<exists>tok \<in> set args. tok = lit ''-f'' \<or> starts_with tok (lit ''--force''))
             else False)
      | _ \<Rightarrow> False)"

definition destructive_two_word_command :: "str list \<Rightarrow> bool" where
  "destructive_two_word_command tokens =
     (case tokens of
        first # second # _ \<Rightarrow>
          (first = lit ''terraform'' \<and> second = lit ''destroy'')
          \<or> (first = lit ''kubectl'' \<and> second = lit ''delete'')
          \<or> (first = lit ''docker'' \<and> one_of second [''rm'', ''rmi'', ''system''])
      | _ \<Rightarrow> False)"

definition first_word :: "str \<Rightarrow> str" where
  "first_word segment = (case split_ws segment of [] \<Rightarrow> [] | w # _ \<Rightarrow> w)"

definition destructive_shell_segment_reason :: "str \<Rightarrow> str option" where
  "destructive_shell_segment_reason segment =
     (let tokens = split_ws segment; first = first_word segment
      in if one_of first [''rm'', ''rmdir'', ''dd'', ''truncate'', ''shred'', ''chown'', ''sudo'']
         then Some (lit ''destructive verb '' @ debug_str first)
         else if first = lit ''mv''
                 \<and> (\<exists>tok \<in> set (drop 1 tokens). tok = lit ''-f'' \<or> tok = lit ''--force'')
         then Some (lit ''destructive forced move'')
         else if destructive_git_pair tokens then Some (lit ''destructive git command'')
         else if destructive_two_word_command tokens
         then Some (lit ''destructive command '' @ debug_str (join [SPACE] (take 2 tokens)))
         else if shell_segment_has_destructive_redirect segment
         then Some (lit ''destructive redirect'')
         else if is_destructive_windows_segment segment
         then Some (lit ''destructive Windows command'')
         else None)"

definition is_destructive_shell_segment :: "str \<Rightarrow> bool" where
  "is_destructive_shell_segment segment = (destructive_shell_segment_reason segment \<noteq> None)"

definition is_safe_metadata_write_segment :: "str \<Rightarrow> bool" where
  "is_safe_metadata_write_segment segment =
     (if is_destructive_shell_segment segment then False
      else one_of (first_word segment) [''mkdir'', ''chmod'', ''ln'', ''mv'', ''touch''])"

section \<open>Network segments\<close>

definition is_network_shell_segment :: "str \<Rightarrow> bool" where
  "is_network_shell_segment segment = one_of (shell_command_prefix segment)
     [''curl'', ''wget'', ''nc'', ''netcat'', ''ssh'', ''scp'', ''sftp'', ''rsync'', ''telnet'',
      ''ftp'', ''dig'', ''nslookup'', ''ping'', ''traceroute'', ''gh'', ''git fetch'', ''git pull'',
      ''git push'', ''git clone'', ''git ls-remote'', ''cargo fetch'', ''cargo install'',
      ''cargo update'', ''npm install'', ''pnpm install'', ''yarn install'', ''bun install'']"

definition normalize_permission_host :: "str \<Rightarrow> str" where
  "normalize_permission_host host =
     to_lower (trim_end_matches (\<lambda>c. c = DOT)
       (trim_matches (\<lambda>c. c = LBRACKET \<or> c = RBRACKET) host))"

type_synonym url_parser = "str \<Rightarrow> (str \<times> str option) option"

text \<open>The guesses after \<open>Url::parse\<close>: \<open>git@host:path\<close>, \<open>host:path\<close>, a dotted first path component.\<close>

definition host_without_url :: "str \<Rightarrow> str option" where
  "host_without_url token =
     (case Option.bind (strip_prefix token (lit ''git@'')) (split_once COLON) of
        Some (host, _) \<Rightarrow> Some (normalize_permission_host host)
      | None \<Rightarrow>
          (case split_once COLON token of
             Some (host, _) \<Rightarrow>
               if host \<noteq> [] \<and> DOT \<in> set host \<and> SLASH \<notin> set host
               then Some (normalize_permission_host host)
               else None
           | None \<Rightarrow> None))"

definition host_from_path_component :: "str \<Rightarrow> str option" where
  "host_from_path_component token =
     (let host = hd (split_on (\<lambda>c. c = SLASH) token)
      in if DOT \<in> set token \<and> host \<noteq> [] \<and> ATSIGN \<notin> set host
         then Some (normalize_permission_host host) else None)"

definition host_from_network_token :: "url_parser \<Rightarrow> str \<Rightarrow> str option" where
  "host_from_network_token url_parse raw =
     (let token = trim raw
      in if token = [] \<or> is_dash_flag token then None
         else (case url_parse token of
                 Some (scheme, host_str) \<Rightarrow>
                   if one_of scheme [''http'', ''https'', ''ssh'', ''git'']
                   then map_option normalize_permission_host host_str
                   else (case host_without_url token of Some h \<Rightarrow> Some h
                         | None \<Rightarrow> host_from_path_component token)
               | None \<Rightarrow>
                   (case host_without_url token of Some h \<Rightarrow> Some h
                    | None \<Rightarrow> host_from_path_component token)))"

fun first_some :: "('a \<Rightarrow> 'b option) \<Rightarrow> 'a list \<Rightarrow> 'b option" where
  "first_some f [] = None"
| "first_some f (x # xs) = (case f x of None \<Rightarrow> first_some f xs | Some y \<Rightarrow> Some y)"

definition extract_shell_network_host :: "url_parser \<Rightarrow> str list \<Rightarrow> str option" where
  "extract_shell_network_host url_parse segments =
     first_some (\<lambda>segment. first_some (\<lambda>token. host_from_network_token url_parse (dequote_token token))
                   (tokenize_shell_segment segment)) segments"

section \<open>Compiler, git and read-only segments\<close>

definition is_compiler_shell_segment :: "str \<Rightarrow> bool" where
  "is_compiler_shell_segment segment = one_of (shell_command_prefix segment)
     [''cargo test'', ''cargo nextest'', ''cargo check'', ''cargo clippy'', ''cargo fmt'',
      ''cargo build'', ''rustc'', ''make test'', ''just test'']"

definition is_git_shell_segment :: "str \<Rightarrow> bool" where
  "is_git_shell_segment segment = (take 1 (split_ws segment) = [lit ''git''])"

definition git_arg_writes_output :: "str \<Rightarrow> bool" where
  "git_arg_writes_output arg \<longleftrightarrow> one_of arg [''--output'', ''-o''] \<or> starts_with arg (lit ''--output='')"

definition git_args_are_safe_read_only :: "str list \<Rightarrow> bool" where
  "git_args_are_safe_read_only args = (\<forall>arg \<in> set args. \<not> git_arg_writes_output (dequote_token arg))"

definition git_args_have_no_write_flags :: "str list \<Rightarrow> bool" where
  "git_args_have_no_write_flags args = (\<forall>arg \<in> set args. \<not> git_arg_writes_output (dequote_token arg))"

definition is_plan_mode_read_only_git_segment :: "str \<Rightarrow> bool" where
  "is_plan_mode_read_only_git_segment segment =
     (case tokenize_shell_segment segment of
        first # sub # args \<Rightarrow>
          first = lit ''git''
          \<and> (if dequote_token sub = lit ''status'' then git_args_have_no_write_flags args
             else if one_of (dequote_token sub) [''diff'', ''log'', ''show'']
             then git_args_are_safe_read_only args
             else if dequote_token sub = lit ''branch''
             then (\<forall>token \<in> set args. one_of (dequote_token token)
                     [''-a'', ''--all'', ''-r'', ''--remotes'', ''-v'', ''-vv'', ''--verbose'',
                      ''--list'', ''--show-current'', ''--contains'', ''--merged'', ''--no-merged'',
                      ''--color'', ''--no-color''])
             else False)
      | _ \<Rightarrow> False)"

definition is_git_read_only_segment :: "str \<Rightarrow> bool" where
  "is_git_read_only_segment segment = is_plan_mode_read_only_git_segment segment"

definition windows_segment_has_output_flag :: "str \<Rightarrow> bool" where
  "windows_segment_has_output_flag segment =
     (\<exists>tok \<in> set (split_ws (to_lower segment)).
        one_of tok [''-outfile'', ''-destination'', ''-destinationpath'', ''-append''])"

definition is_read_only_windows_segment :: "str \<Rightarrow> bool" where
  "is_read_only_windows_segment first = one_of (to_lower first)
     [''get-childitem'', ''gci'', ''dir'', ''get-content'', ''get-item'', ''get-location'',
      ''get-process'', ''get-service'', ''get-command'', ''get-help'', ''help'', ''get-member'',
      ''get-variable'', ''get-history'', ''get-alias'', ''select-string'', ''sls'',
      ''measure-object'', ''select-object'', ''where-object'', ''format-list'', ''fl'',
      ''format-table'', ''ft'', ''format-wide'', ''out-string'', ''test-path'', ''resolve-path'',
      ''type'', ''ver'', ''vol'', ''ipconfig'', ''systeminfo'']"

definition is_read_only_shell_segment :: "str \<Rightarrow> bool" where
  "is_read_only_shell_segment segment =
     (if one_of (shell_command_prefix segment)
           [''cat'', ''du'', ''echo'', ''file'', ''grep'', ''head'', ''id'', ''ls'', ''nl'', ''paste'',
            ''pwd'', ''rev'', ''rg'', ''seq'', ''stat'', ''tail'', ''uname'', ''wc'', ''which'', ''whoami'']
      then True
      else if windows_segment_has_output_flag segment then False
      else is_read_only_windows_segment (shell_command_prefix segment))"

section \<open>The redirect scan\<close>

definition plain_char :: "uchar \<Rightarrow> bool" where
  "plain_char c \<longleftrightarrow> c \<noteq> SQUOTE \<and> c \<noteq> DQUOTE \<and> c \<noteq> BSLASH \<and> c \<noteq> GREATER"

lemma redirect_scan_plain:
  "\<forall>c \<in> set u. plain_char c \<Longrightarrow>
     redirect_scan None p (u @ s) = redirect_scan None (if u = [] then p else Some (last u)) s"
  by (induction u arbitrary: p) (auto simp: plain_char_def)

lemma redirect_scan_quoted:
  "q \<notin> set body \<Longrightarrow> redirect_scan (Some q) p (body @ q # s) = redirect_scan None (Some q) s"
  by (induction body arbitrary: p) auto

lemma redirect_target_word:
  assumes "ops \<in> {[], [GREATER], [PIPE], [GREATER, PIPE]}" "\<forall>c \<in> set blanks. c = SPACE \<or> c = TAB"
    and "c \<notin> {GREATER, PIPE, SPACE, TAB}"
  shows "redirect_target (ops @ blanks @ c # t) = c # t"
proof -
  have run: "dropWhile (\<lambda>b. b = SPACE \<or> b = TAB) (blanks @ c # t) = c # t"
    using assms(2,3) by (induction blanks) auto
  have stop: "dropWhile (\<lambda>b. b = GREATER) (blanks @ c # t) = blanks @ c # t"
    "take 1 (blanks @ c # t) \<noteq> [PIPE]"
    using assms(2,3) by (cases blanks; auto)+
  show ?thesis using assms(1) run stop by (auto simp: redirect_target_def Let_def)
qed

text \<open>An output redirect to a file is seen.  Behind text without quotes, backslashes or another
  \<open>>\<close> that does not end in \<open>=\<close>, and behind any quoted part before it, an operator \<open>>\<close>, \<open>>>\<close>, \<open>>|\<close> or
  \<open>>>|\<close> with a target that is neither a descriptor nor \<open>/dev/null\<close> makes the segment destructive;
  a segment without \<open>>\<close> has no redirect.\<close>

theorem redirect_detected:
  assumes "\<forall>c \<in> set u. plain_char c" "\<forall>c \<in> set u'. plain_char c"
    and "q \<in> {SQUOTE, DQUOTE}" "q \<notin> set body" "u' = [] \<or> last u' \<noteq> EQUALS"
    and "ops \<in> {[], [GREATER], [PIPE], [GREATER, PIPE]}" "\<forall>c \<in> set blanks. c = SPACE \<or> c = TAB"
    and "c \<notin> {GREATER, PIPE, AMP, SPACE, TAB}" "\<not> redirect_target_is_dev_null (c # t)"
  shows "shell_segment_has_destructive_redirect (u @ q # body @ q # u' @ GREATER # ops @ blanks @ c # t)
    \<and> \<not> shell_segment_has_destructive_redirect (u @ q # body @ q # u')"
proof -
  have quoted: "redirect_scan None p (q # body @ q # s) = redirect_scan None (Some q) s" for p s
    using assms(3) redirect_scan_quoted [OF assms(4)] by auto
  have tgt: "redirect_target (ops @ blanks @ c # t) = c # t"
    by (rule redirect_target_word) (use assms in auto)
  have prev: "(if u' = [] then Some q else Some (last u')) \<noteq> Some EQUALS"
    using assms(3,5) by auto
  have "redirect_scan None None (u @ q # body @ q # u' @ s)
      = redirect_scan None (if u' = [] then Some q else Some (last u')) s" for s
    by (simp only: redirect_scan_plain [OF assms(1)] quoted redirect_scan_plain [OF assms(2)])
  note pre = this this [of "[]", unfolded append_Nil2]
  show ?thesis unfolding shell_segment_has_destructive_redirect_def pre
    using prev assms(8,9) by (simp add: tgt dup_target_def)
qed

lemma redirect_detected_witness:
  "shell_segment_has_destructive_redirect
     (lit ''echo '' @ DQUOTE # lit ''a>b'' @ DQUOTE # lit '' '' @ GREATER # [GREATER] @ [SPACE] @ 111 # lit ''ut.txt'')"
  by (rule redirect_detected [THEN conjunct1])
     (simp_all add: lit_def plain_char_def redirect_target_is_dev_null_def strip_prefix_def starts_with_def)

end
