(* ===== verification/ShellTree.thy ===== *)
theory ShellTree
  imports ShellClassify "HOL-Library.Multiset"
begin

text \<open>
  The part of \<open>crates/squeezy-tools/src/shell_parse.rs\<close> that walks the tree-sitter-bash parse
  tree.  The parser and its grammar are third-party code: a parse tree is data with the attributes
  the code reads through the tree-sitter API (kind, whether the node is named, whether it contains
  an error, the field it is the value of, its text), and the functions take the parser as the
  parameter \<open>parse\<close>, \<open>None\<close> standing for a grammar that does not load or a parse that fails.
\<close>

datatype ts_node = TsNode
  (nd_kind: string) (nd_named: bool) (nd_error: bool) (nd_field: "string option")
  (nd_text: "str option") (nd_children: "ts_node list")

type_synonym ts_parser = "str \<Rightarrow> ts_node option"

definition named_children :: "ts_node \<Rightarrow> ts_node list" where
  "named_children node = filter nd_named (nd_children node)"

definition child_by_field_name :: "ts_node \<Rightarrow> string \<Rightarrow> ts_node option" where
  "child_by_field_name node name = List.find (\<lambda>c. nd_field c = Some name) (nd_children node)"

section \<open>Segments of a parsed command\<close>

record parsed_shell_command =
  psc_segments :: "str list"
  psc_dynamic :: bool
  psc_heredoc_prefix :: bool

fun collect_shell_command_nodes :: "ts_node \<Rightarrow> str list" where
  "collect_shell_command_nodes (TsNode kind named err fld text children) =
     (case (if kind = ''command'' then map_option collapse_whitespace text else None) of
        Some t \<Rightarrow> if t \<noteq> [] then [t] else concat (map collect_shell_command_nodes children)
      | None \<Rightarrow> concat (map collect_shell_command_nodes children))"

definition is_literal_word_or_number :: "ts_node \<Rightarrow> bool" where
  "is_literal_word_or_number node \<longleftrightarrow>
     nd_kind node \<in> {''word'', ''number''} \<and> named_children node = []"

definition is_allowed_heredoc_attachment_kind :: "string \<Rightarrow> bool" where
  "is_allowed_heredoc_attachment_kind kind \<longleftrightarrow>
     kind \<in> {''heredoc_body'', ''simple_heredoc_body'', ''heredoc_redirect'',
             ''herestring_redirect'', ''redirected_statement''}"

fun heredoc_words :: "ts_node list \<Rightarrow> str list option" where
  "heredoc_words [] = Some []"
| "heredoc_words (child # rest) =
     (if nd_kind child = ''command_name'' then
        (case named_children child of [] \<Rightarrow> None
         | word_node # _ \<Rightarrow>
             if \<not> is_literal_word_or_number word_node then None
             else (case nd_text word_node of None \<Rightarrow> None
                   | Some w \<Rightarrow> map_option (\<lambda>ws. w # ws) (heredoc_words rest)))
      else if nd_kind child \<in> {''word'', ''number''} then
        (if \<not> is_literal_word_or_number child then None
         else (case nd_text child of None \<Rightarrow> None
               | Some w \<Rightarrow> map_option (\<lambda>ws. w # ws) (heredoc_words rest)))
      else if nd_kind child = ''comment'' then heredoc_words rest
      else if is_allowed_heredoc_attachment_kind (nd_kind child) then heredoc_words rest
      else None)"

definition parse_heredoc_command_words :: "ts_node \<Rightarrow> str list option" where
  "parse_heredoc_command_words cmd =
     (if nd_kind cmd \<noteq> ''command'' then None
      else (case heredoc_words (named_children cmd) of None \<Rightarrow> None
            | Some words \<Rightarrow> if words = [] then None else Some words))"

text \<open>
  The two explicit-stack walks.  A stack is a list with its top at the head; pushing the children
  in order onto the code's \<open>Vec\<close> leaves the last child on top.
\<close>

lemma size_named_children: "sum_list (map size (named_children node)) < size node"
proof (cases node)
  case (TsNode k n e f t ch)
  have "sum_list (map size (filter nd_named ch)) \<le> size_list size ch"
    by (induction ch) auto
  with TsNode show ?thesis by (simp add: named_children_def)
qed

function single_command_walk :: "ts_node list \<Rightarrow> ts_node option \<Rightarrow> ts_node option" where
  "single_command_walk [] single = single"
| "single_command_walk (node # stack) single =
     (if nd_kind node = ''command'' \<and> single \<noteq> None then None
      else single_command_walk (rev (named_children node) @ stack)
             (if nd_kind node = ''command'' then Some node else single))"
  by pat_completeness auto
termination
  by (relation "measure (\<lambda>(stack, _). sum_list (map size stack))")
     (use size_named_children in \<open>auto simp: rev_map [symmetric] sum_list_rev\<close>)

definition find_single_command_node :: "ts_node \<Rightarrow> ts_node option" where
  "find_single_command_node root = single_command_walk [root] None"

function named_kind_walk :: "ts_node list \<Rightarrow> string \<Rightarrow> bool" where
  "named_kind_walk [] kind = False"
| "named_kind_walk (current # stack) kind =
     (if nd_kind current = kind then True
      else named_kind_walk (rev (named_children current) @ stack) kind)"
  by pat_completeness auto
termination
  by (relation "measure (\<lambda>(stack, _). sum_list (map size stack))")
     (use size_named_children in \<open>auto simp: rev_map [symmetric] sum_list_rev\<close>)

definition has_named_descendant_kind :: "ts_node \<Rightarrow> string \<Rightarrow> bool" where
  "has_named_descendant_kind node kind = named_kind_walk [node] kind"

definition shell_heredoc_prefix :: "ts_node \<Rightarrow> str list option" where
  "shell_heredoc_prefix root =
     (if nd_error root then None
      else if \<not> has_named_descendant_kind root ''heredoc_redirect''
              \<and> \<not> has_named_descendant_kind root ''herestring_redirect'' then None
      else if has_named_descendant_kind root ''file_redirect'' then None
      else Option.bind (find_single_command_node root) parse_heredoc_command_words)"

fun shell_tree_contains_dynamic :: "ts_node \<Rightarrow> bool \<Rightarrow> bool" where
  "shell_tree_contains_dynamic (TsNode kind named err fld text children) ignore_heredoc_redirect =
     (if kind \<in> {''command_substitution'', ''process_substitution'', ''expansion'',
                 ''simple_expansion'', ''subscript''}
         \<or> (\<not> ignore_heredoc_redirect \<and> kind = ''heredoc_redirect'')
      then True
      else list_ex (\<lambda>child. shell_tree_contains_dynamic child ignore_heredoc_redirect) children)"

definition shell_text_is_dynamic :: "str \<Rightarrow> bool" where
  "shell_text_is_dynamic command \<longleftrightarrow>
     contains command (lit ''$('') \<or> BACKTICK \<in> set command \<or> contains command (lit ''${'')
     \<or> contains command (lit ''<('') \<or> contains command (lit ''>('')"

definition parse_shell_command :: "ts_parser \<Rightarrow> str \<Rightarrow> parsed_shell_command option" where
  "parse_shell_command parse command =
     (case parse command of None \<Rightarrow> None
      | Some root \<Rightarrow>
          let heredoc_prefix_command = map_option (join [SPACE]) (shell_heredoc_prefix root);
              segments = (case heredoc_prefix_command of
                            Some prefix_command \<Rightarrow> [prefix_command]
                          | None \<Rightarrow> collect_shell_command_nodes root);
              dynamic = (case heredoc_prefix_command of
                           Some prefix_command \<Rightarrow> nd_error root \<or> shell_text_is_dynamic prefix_command
                         | None \<Rightarrow> nd_error root \<or> shell_tree_contains_dynamic root False
                                    \<or> shell_text_is_dynamic command)
          in Some \<lparr>psc_segments = (if segments = [] then shell_segments command else segments),
                   psc_dynamic = dynamic,
                   psc_heredoc_prefix = (heredoc_prefix_command \<noteq> None)\<rparr>)"

section \<open>Command units\<close>

record shell_redirect =
  rd_op :: str
  rd_target :: str
  rd_fd :: "u32 option"

record command_unit =
  cu_name :: str
  cu_args :: "str list"
  cu_env :: "(str \<times> str) list"
  cu_redirects :: "shell_redirect list"
  cu_has_substitution :: bool

definition empty_unit :: command_unit where
  "empty_unit = \<lparr>cu_name = [], cu_args = [], cu_env = [], cu_redirects = [], cu_has_substitution = False\<rparr>"

definition is_redirect_kind :: "string \<Rightarrow> bool" where
  "is_redirect_kind kind \<longleftrightarrow> kind \<in> {''file_redirect'', ''heredoc_redirect'', ''herestring_redirect''}"

definition literal_text :: "ts_node \<Rightarrow> str" where
  "literal_text node =
     (if nd_kind node \<in> {''command_substitution'', ''process_substitution'', ''expansion'',
                          ''simple_expansion''}
      then []
      else (case nd_text node of None \<Rightarrow> [] | Some raw \<Rightarrow> dequote_token raw))"

fun child_has_substitution :: "ts_node \<Rightarrow> bool" where
  "child_has_substitution (TsNode kind named err fld text children) =
     (if kind \<in> {''command_substitution'', ''process_substitution'', ''expansion''} then True
      else list_ex (\<lambda>c. nd_named c \<and> child_has_substitution c) children)"

definition parse_variable_assignment :: "ts_node \<Rightarrow> (str \<times> str) option" where
  "parse_variable_assignment node =
     (case child_by_field_name node ''name'' of None \<Rightarrow> None
      | Some name_node \<Rightarrow>
          (case child_by_field_name node ''value'' of None \<Rightarrow> None
           | Some value_node \<Rightarrow> Some (literal_text name_node, literal_text value_node)))"

text \<open>\<open>str::parse::<u32>\<close>: an optional \<open>+\<close>, then at least one digit, and no overflow.\<close>

fun digits_value :: "nat \<Rightarrow> str \<Rightarrow> nat option" where
  "digits_value acc [] = Some acc"
| "digits_value acc (c # cs) = (if is_digit c then digits_value (acc * 10 + (c - 48)) cs else None)"

definition parse_u32 :: "str \<Rightarrow> u32 option" where
  "parse_u32 s =
     (let ds = (case s of [] \<Rightarrow> [] | c # cs \<Rightarrow> if c = 43 \<and> cs \<noteq> [] then cs else s)
      in if ds = [] then None
         else (case digits_value 0 ds of None \<Rightarrow> None
               | Some n \<Rightarrow> if n < 2 ^ 32 then Some (word_of_nat n) else None))"

definition redirect_operator_text :: "ts_node \<Rightarrow> str option" where
  "redirect_operator_text node =
     first_some (\<lambda>child.
         (if nd_named child then None
          else (case nd_text child of None \<Rightarrow> None
                | Some text \<Rightarrow>
                    let trimmed = trim text
                    in if trimmed \<noteq> [] \<and> (\<forall>c \<in> set trimmed. c \<in> {LESS, GREATER, AMP, PIPE})
                       then Some trimmed else None)))
       (nd_children node)"

definition parse_redirect :: "ts_node \<Rightarrow> shell_redirect option" where
  "parse_redirect node =
     (let fd = Option.bind (Option.bind (child_by_field_name node ''descriptor'') nd_text) parse_u32;
          op = (if nd_kind node = ''heredoc_redirect'' then lit ''<<''
                else if nd_kind node = ''herestring_redirect'' then lit ''<<<''
                else (case redirect_operator_text node of None \<Rightarrow> lit ''>'' | Some t \<Rightarrow> t));
          target_node =
            (case child_by_field_name node ''destination'' of Some d \<Rightarrow> Some d
             | None \<Rightarrow>
                 (case child_by_field_name node ''argument'' of Some a \<Rightarrow> Some a
                  | None \<Rightarrow> (case named_children node of [] \<Rightarrow> None | c # _ \<Rightarrow> Some c)))
      in map_option (\<lambda>t. \<lparr>rd_op = op, rd_target = literal_text t, rd_fd = fd\<rparr>) target_node)"

definition add_unit_child :: "ts_node \<Rightarrow> command_unit \<Rightarrow> command_unit" where
  "add_unit_child child cu =
     (if nd_kind child = ''variable_assignment'' then
        (case parse_variable_assignment child of
           Some nv \<Rightarrow> cu\<lparr>cu_env := cu_env cu @ [nv]\<rparr>
         | None \<Rightarrow> if child_has_substitution child then cu\<lparr>cu_has_substitution := True\<rparr> else cu)
      else if nd_kind child = ''command_name'' then
        cu\<lparr>cu_name := literal_text child,
           cu_has_substitution := cu_has_substitution cu \<or> child_has_substitution child\<rparr>
      else if is_redirect_kind (nd_kind child) then
        (case parse_redirect child of
           Some redirect \<Rightarrow> cu\<lparr>cu_redirects := cu_redirects cu @ [redirect]\<rparr>
         | None \<Rightarrow> cu)
      else
        (let text = literal_text child
         in cu\<lparr>cu_has_substitution := cu_has_substitution cu \<or> child_has_substitution child,
               cu_args := (if text = [] then cu_args cu else cu_args cu @ [text])\<rparr>))"

definition build_command_unit :: "ts_node \<Rightarrow> command_unit" where
  "build_command_unit node = fold add_unit_child (named_children node) empty_unit"

fun collect_command_units :: "ts_node \<Rightarrow> shell_redirect list option \<Rightarrow> command_unit list" where
  "collect_command_units (TsNode kind named err fld text children) enclosing =
     (if kind \<in> {''command'', ''declaration_command''} then
        (let cu = build_command_unit (TsNode kind named err fld text children)
         in [case enclosing of None \<Rightarrow> cu
             | Some extra \<Rightarrow> cu\<lparr>cu_redirects := cu_redirects cu @ extra\<rparr>])
      else if kind = ''redirected_statement'' then
        (let wrapper_redirects =
               List.map_filter (\<lambda>child. if nd_named child \<and> is_redirect_kind (nd_kind child)
                                         then parse_redirect child else None) children
         in concat (map (\<lambda>child. if nd_named child \<and> \<not> is_redirect_kind (nd_kind child)
                                 then collect_command_units child (Some wrapper_redirects) else [])
                     children))
      else
        concat (map (\<lambda>child. if nd_named child then collect_command_units child enclosing else [])
                 children))"

definition extract_command_units :: "ts_parser \<Rightarrow> str \<Rightarrow> command_unit list" where
  "extract_command_units parse command =
     (case parse command of None \<Rightarrow> [] | Some root \<Rightarrow> collect_command_units root None)"

section \<open>The walks visit the named descendants\<close>

text \<open>The nodes the two stack walks are meant to visit: the root and its named descendants.\<close>

function named_nodes :: "ts_node \<Rightarrow> ts_node list" where
  "named_nodes node = node # concat (map named_nodes (named_children node))"
  by pat_completeness auto
termination
proof (relation "measure size", simp)
  fix node x
  assume "x \<in> set (named_children node)"
  then have "size x \<le> sum_list (map size (named_children node))"
    by (simp add: member_le_sum_list)
  with size_named_children [of node] show "(x, node) \<in> measure size" by simp
qed

declare named_nodes.simps [simp del]

text \<open>The order of the stack walks: children from last to first, each before its siblings to the left.\<close>

function walk_order :: "ts_node list \<Rightarrow> ts_node list" where
  "walk_order [] = []"
| "walk_order (node # stack) = node # walk_order (rev (named_children node) @ stack)"
  by pat_completeness auto
termination
  by (relation "measure (\<lambda>stack. sum_list (map size stack))")
     (use size_named_children in \<open>auto simp: rev_map [symmetric] sum_list_rev\<close>)

lemma mset_walk_order: "mset (walk_order stack) = (\<Sum>n \<leftarrow> stack. mset (named_nodes n))"
proof (induction stack rule: walk_order.induct)
  case (2 node stack)
  have "mset (named_nodes node) = add_mset node (\<Sum>c \<leftarrow> named_children node. mset (named_nodes c))"
    by (subst named_nodes.simps) (simp add: mset_concat comp_def)
  with 2 show ?case by (simp add: rev_map [symmetric] sum_list_rev)
qed simp

lemma named_kind_walk_order:
  "named_kind_walk stack kind \<longleftrightarrow> (\<exists>n \<in> set (walk_order stack). nd_kind n = kind)"
  by (induction stack kind rule: named_kind_walk.induct) auto

lemma single_command_walk_order:
  "single_command_walk stack single =
     (case (single, filter (\<lambda>n. nd_kind n = ''command'') (walk_order stack)) of
        (Some n, []) \<Rightarrow> Some n | (None, [n]) \<Rightarrow> Some n | _ \<Rightarrow> None)"
  by (induction stack single rule: single_command_walk.induct)
     (auto split: option.splits list.splits)

lemma filter_walk_singleton:
  "filter P (walk_order [root]) = [n] \<longleftrightarrow> filter P (named_nodes root) = [n]"
proof -
  have "mset (filter P (walk_order [root])) = mset (filter P (named_nodes root))"
    by (simp add: mset_walk_order [of "[root]"] del: walk_order.simps)
  then show ?thesis by (metis mset_single_iff_right mset.simps mset_single_iff)
qed

section \<open>Properties\<close>

text \<open>The two explicit-stack walks of the heredoc gate decide what they are written to decide:
  \<open>has_named_descendant_kind\<close> holds exactly when some named descendant (or the node itself) has the
  kind, and \<open>find_single_command_node\<close> returns a node exactly when it is the one \<open>command\<close> node of the
  tree, \<open>None\<close> when there is none or more than one.\<close>

theorem stack_walks_visit_named_nodes:
  "(has_named_descendant_kind root kind \<longleftrightarrow> (\<exists>n. n \<in> set (named_nodes root) \<and> nd_kind n = kind))
   \<and> (find_single_command_node root = Some n
        \<longleftrightarrow> filter (\<lambda>n. nd_kind n = ''command'') (named_nodes root) = [n])"
proof (rule conjI)
  have "set (walk_order [root]) = set (named_nodes root)"
    by (rule mset_eq_setD) (simp add: mset_walk_order del: walk_order.simps)
  then show "has_named_descendant_kind root kind
      \<longleftrightarrow> (\<exists>n. n \<in> set (named_nodes root) \<and> nd_kind n = kind)"
    by (auto simp: has_named_descendant_kind_def named_kind_walk_order)
  have "find_single_command_node root = Some n
     \<longleftrightarrow> filter (\<lambda>n. nd_kind n = ''command'') (walk_order [root]) = [n]"
    unfolding find_single_command_node_def single_command_walk_order
    by (auto split: list.splits simp del: walk_order.simps)
  then show "find_single_command_node root = Some n
     \<longleftrightarrow> filter (\<lambda>n. nd_kind n = ''command'') (named_nodes root) = [n]"
    by (simp only: filter_walk_singleton)
qed

end
