(* ===== verification/PermissionTypes.thy ===== *)
theory PermissionTypes
  imports Prelude
begin

text \<open>
  The enumerations of the permission system, \<open>crates/squeezy-core/src/lib.rs\<close>: policy actions,
  policy presets, session modes, capabilities, risks and rule sources, each with its parser and its
  rendering.  Every rendering parses back to its constructor, and risks are ordered as declared.
\<close>

datatype permission_mode = Allow | Ask | Deny

definition permission_mode_parse :: "str \<Rightarrow> permission_mode option" where
  "permission_mode_parse value =
     (let v = to_lower (trim value)
      in if one_of v [''allow'', ''allowed''] then Some Allow
         else if one_of v [''ask'', ''prompt'', ''confirm''] then Some Ask
         else if one_of v [''deny'', ''denied'', ''refuse''] then Some Deny
         else None)"

fun permission_mode_as_str :: "permission_mode \<Rightarrow> str" where
  "permission_mode_as_str Allow = lit ''allow''"
| "permission_mode_as_str Ask = lit ''ask''"
| "permission_mode_as_str Deny = lit ''deny''"

datatype policy_mode = DefaultMode | AutoReview | FullAccess | CustomMode

definition policy_mode_parse :: "str \<Rightarrow> policy_mode option" where
  "policy_mode_parse value =
     (let v = to_lower (trim value)
      in if one_of v [''default'', ''workspace'', ''workspace_write'', ''workspace-write'']
         then Some DefaultMode
         else if one_of v [''auto_review'', ''auto-review'', ''autoreview'', ''auto'']
         then Some AutoReview
         else if one_of v [''full_access'', ''full-access'', ''danger_full_access'', ''danger-full-access'']
         then Some FullAccess
         else if one_of v [''custom'', ''granular''] then Some CustomMode
         else None)"

fun policy_mode_as_str :: "policy_mode \<Rightarrow> str" where
  "policy_mode_as_str DefaultMode = lit ''default''"
| "policy_mode_as_str AutoReview = lit ''auto_review''"
| "policy_mode_as_str FullAccess = lit ''full_access''"
| "policy_mode_as_str CustomMode = lit ''custom''"

datatype session_mode = Plan | Build

definition session_mode_parse :: "str \<Rightarrow> session_mode option" where
  "session_mode_parse value =
     (let v = to_lower (trim value)
      in if v = lit ''plan'' then Some Plan else if v = lit ''build'' then Some Build else None)"

fun session_mode_as_str :: "session_mode \<Rightarrow> str" where
  "session_mode_as_str Plan = lit ''plan''"
| "session_mode_as_str Build = lit ''build''"

datatype capability = Read | Search | Edit | Shell | Network | Mcp | Git | Compiler | Destructive

definition capability_parse :: "str \<Rightarrow> capability option" where
  "capability_parse value =
     (let v = to_lower (trim value)
      in if v = lit ''read'' then Some Read
         else if v = lit ''search'' then Some Search
         else if one_of v [''edit'', ''write''] then Some Edit
         else if one_of v [''shell'', ''bash'', ''command''] then Some Shell
         else if one_of v [''network'', ''web''] then Some Network
         else if v = lit ''mcp'' then Some Mcp
         else if v = lit ''git'' then Some Git
         else if one_of v [''compiler'', ''verify''] then Some Compiler
         else if one_of v [''destructive'', ''dangerous''] then Some Destructive
         else None)"

fun capability_as_str :: "capability \<Rightarrow> str" where
  "capability_as_str Read = lit ''read''"
| "capability_as_str Search = lit ''search''"
| "capability_as_str Edit = lit ''edit''"
| "capability_as_str Shell = lit ''shell''"
| "capability_as_str Network = lit ''network''"
| "capability_as_str Mcp = lit ''mcp''"
| "capability_as_str Git = lit ''git''"
| "capability_as_str Compiler = lit ''compiler''"
| "capability_as_str Destructive = lit ''destructive''"

text \<open>\<open>PermissionRisk\<close> derives its order from the declaration.\<close>

datatype risk = Low | Medium | High | Critical

fun risk_rank :: "risk \<Rightarrow> nat" where
  "risk_rank Low = 0"
| "risk_rank Medium = 1"
| "risk_rank High = 2"
| "risk_rank Critical = 3"

lemma risk_rank_inj: "risk_rank a = risk_rank b \<Longrightarrow> a = b"
  by (cases a; cases b) simp_all

instantiation risk :: linorder
begin

definition less_eq_risk :: "risk \<Rightarrow> risk \<Rightarrow> bool" where
  "less_eq_risk a b \<longleftrightarrow> risk_rank a \<le> risk_rank b"

definition less_risk :: "risk \<Rightarrow> risk \<Rightarrow> bool" where
  "less_risk a b \<longleftrightarrow> risk_rank a < risk_rank b"

instance
  by standard (auto simp: less_eq_risk_def less_risk_def dest: risk_rank_inj)

end

fun risk_as_str :: "risk \<Rightarrow> str" where
  "risk_as_str Low = lit ''low''"
| "risk_as_str Medium = lit ''medium''"
| "risk_as_str High = lit ''high''"
| "risk_as_str Critical = lit ''critical''"

datatype rule_source = Builtin | User | Project | Session

definition rule_source_parse :: "str \<Rightarrow> rule_source option" where
  "rule_source_parse value =
     (let v = to_lower (trim value)
      in if v = lit ''builtin'' then Some Builtin
         else if v = lit ''user'' then Some User
         else if v = lit ''project'' then Some Project
         else if v = lit ''session'' then Some Session
         else None)"

fun rule_source_as_str :: "rule_source \<Rightarrow> str" where
  "rule_source_as_str Builtin = lit ''builtin''"
| "rule_source_as_str User = lit ''user''"
| "rule_source_as_str Project = lit ''project''"
| "rule_source_as_str Session = lit ''session''"

section \<open>Rendering and parsing agree\<close>

text \<open>
  The contract between a rendering and its parser: what is rendered parses back, with any white
  space around it and in any letter case.  The parsers share the normalisation
  \<open>trim().to_ascii_lowercase()\<close>, so the second law follows from the first.
\<close>

locale parsed_enum =
  fixes parse :: "str \<Rightarrow> 'a option" and render :: "'a \<Rightarrow> str"
  assumes parse_render: "parse (render x) = Some x"
    and parse_normal: "parse (to_lower (trim v)) = parse v"
begin

lemma render_inj: "render x = render y \<Longrightarrow> x = y"
  by (metis option.inject parse_render)

lemma parse_lax: "to_lower (trim v) = to_lower (trim (render x)) \<Longrightarrow> parse v = Some x"
  by (metis parse_normal parse_render)

end

lemma to_lower_trim: "to_lower (trim v) = trim (to_lower v)"
proof -
  have "dropWhile is_ws (map lower_char xs) = map lower_char (dropWhile is_ws xs)" for xs
    by (induction xs) auto
  then show ?thesis
    by (simp add: trim_def trim_matches_def trim_end_matches_def trim_start_matches_def
        to_lower_def rev_map)
qed

lemma normal_idem [simp]: "to_lower (trim (to_lower (trim v))) = to_lower (trim v)"
  by (simp add: to_lower_trim)

lemmas enum_parse_defs = permission_mode_parse_def policy_mode_parse_def session_mode_parse_def
  capability_parse_def rule_source_parse_def

lemmas enum_eval = one_of_def lit_def to_lower_def lower_char_def trim_def trim_matches_def
  trim_end_matches_def trim_start_matches_def is_ws_def

interpretation mode_enum: parsed_enum permission_mode_parse permission_mode_as_str
proof
  show "permission_mode_parse (permission_mode_as_str x) = Some x" for x
    by (cases x) (simp_all add: permission_mode_parse_def enum_eval)
qed (simp add: permission_mode_parse_def)

interpretation policy_enum: parsed_enum policy_mode_parse policy_mode_as_str
proof
  show "policy_mode_parse (policy_mode_as_str x) = Some x" for x
    by (cases x) (simp_all add: policy_mode_parse_def enum_eval)
qed (simp add: policy_mode_parse_def)

interpretation session_enum: parsed_enum session_mode_parse session_mode_as_str
proof
  show "session_mode_parse (session_mode_as_str x) = Some x" for x
    by (cases x) (simp_all add: session_mode_parse_def enum_eval)
qed (simp add: session_mode_parse_def)

interpretation capability_enum: parsed_enum capability_parse capability_as_str
proof
  show "capability_parse (capability_as_str x) = Some x" for x
    by (cases x) (simp_all add: capability_parse_def enum_eval)
qed (simp add: capability_parse_def)

interpretation source_enum: parsed_enum rule_source_parse rule_source_as_str
proof
  show "rule_source_parse (rule_source_as_str x) = Some x" for x
    by (cases x) (simp_all add: rule_source_parse_def enum_eval)
qed (simp add: rule_source_parse_def)

end
