(* ===== verification/ShellAnalyze.thy ===== *)
theory ShellAnalyze
  imports ShellTree PermissionTypes
begin

text \<open>
  \<open>analyze_shell_command\<close> of \<open>crates/squeezy-tools/src/shell_parse.rs\<close>: from a command to the
  capability, risk and rule target the permission system works with.  The thread-local \<open>MEMO\<close> is
  the explicit state \<open>memo\<close> (oldest entry first).  The tree-sitter parser and \<open>Url::parse\<close> are the
  parameters \<open>parse\<close> and \<open>url_parse\<close>.
\<close>

record shell_analysis =
  an_capability :: capability
  an_risk :: risk
  an_rule_target :: str
  an_network :: bool
  an_destructive :: bool
  an_parser_backed :: bool
  an_dynamic :: bool

text \<open>What the code gathers before it decides.\<close>

record analysis_input =
  ai_normalized :: str
  ai_segments :: "str list"
  ai_parser_backed :: bool
  ai_dynamic :: bool
  ai_heredoc_prefix :: bool

definition raw_shell_segments :: "ts_parser \<Rightarrow> str \<Rightarrow> str list" where
  "raw_shell_segments parse command =
     (case parse_shell_command parse command of
        Some parsed \<Rightarrow>
          if psc_segments parsed = [] then shell_segments (collapse_whitespace command)
          else psc_segments parsed
      | None \<Rightarrow> shell_segments (collapse_whitespace command))"

definition analysis_input_of :: "ts_parser \<Rightarrow> str \<Rightarrow> analysis_input" where
  "analysis_input_of parse command =
     (let parsed = parse_shell_command parse command
      in \<lparr>ai_normalized = collapse_whitespace command,
          ai_segments = expand_wrapper_segments (raw_shell_segments parse command),
          ai_parser_backed = (parsed \<noteq> None),
          ai_dynamic = (case parsed of None \<Rightarrow> False | Some p \<Rightarrow> psc_dynamic p),
          ai_heredoc_prefix = (case parsed of None \<Rightarrow> False | Some p \<Rightarrow> psc_heredoc_prefix p)\<rparr>)"

definition first_prefix :: "str list \<Rightarrow> str" where
  "first_prefix segments =
     (case segments of [] \<Rightarrow> lit ''shell''
      | segment # _ \<Rightarrow> if shell_command_prefix segment = [] then lit ''shell''
                       else shell_command_prefix segment)"

definition any_network :: "str list \<Rightarrow> bool" where
  "any_network segments = list_ex is_network_shell_segment segments"

definition any_destructive :: "str list \<Rightarrow> str \<Rightarrow> bool" where
  "any_destructive segments normalized \<longleftrightarrow>
     list_ex is_destructive_shell_segment segments
     \<or> shell_segment_has_destructive_redirect normalized"

definition network_target :: "url_parser \<Rightarrow> str list \<Rightarrow> str" where
  "network_target url_parse segments =
     (case extract_shell_network_host url_parse segments of
        Some host \<Rightarrow> lit ''shell:'' @ first_prefix segments @ lit '':'' @ host
      | None \<Rightarrow> lit ''shell:'' @ first_prefix segments @ lit '':*'')"

text \<open>The cascade, in the order of the code's branches.\<close>

definition decide :: "url_parser \<Rightarrow> analysis_input \<Rightarrow> shell_analysis" where
  "decide url_parse i =
     (let segments = ai_segments i;
          target = first_prefix segments @ lit '':*'';
          result = (\<lambda>cap rsk tgt network destructive.
                      \<lparr>an_capability = cap, an_risk = rsk, an_rule_target = tgt, an_network = network,
                       an_destructive = destructive, an_parser_backed = ai_parser_backed i,
                       an_dynamic = ai_dynamic i\<rparr>)
      in if segments = [] then result Shell High (lit ''shell:*'') False False
         else if ai_dynamic i then
           result Shell High (lit ''shell:*'') (any_network segments)
             (any_destructive segments (ai_normalized i))
         else if any_destructive segments (ai_normalized i) then
           result Destructive Critical target (any_network segments) True
         else if any_network segments then
           result Network High (network_target url_parse segments) True False
         else if list_all is_compiler_shell_segment segments then
           result Compiler Medium target False False
         else if list_all is_git_shell_segment segments then
           result Git (if list_all is_git_read_only_segment segments then Low else High)
             target False False
         else if list_all is_read_only_shell_segment segments then
           result Search Low target False False
         else if list_all is_safe_metadata_write_segment segments then
           result Edit Medium target False False
         else result Shell (if ai_heredoc_prefix i then Medium else High) target False False)"

definition analyze_uncached :: "ts_parser \<Rightarrow> url_parser \<Rightarrow> str \<Rightarrow> shell_analysis" where
  "analyze_uncached parse url_parse command = decide url_parse (analysis_input_of parse command)"

section \<open>The memo\<close>

type_synonym shell_memo = "(str \<times> shell_analysis) list"

definition MEMO_CAPACITY :: nat where
  "MEMO_CAPACITY = 16"

definition memo_push :: "shell_memo \<Rightarrow> str \<Rightarrow> shell_analysis \<Rightarrow> shell_memo" where
  "memo_push memo key analysis =
     (if MEMO_CAPACITY \<le> length memo then tl memo else memo) @ [(key, analysis)]"

definition analyze_shell_command ::
  "ts_parser \<Rightarrow> url_parser \<Rightarrow> shell_memo \<Rightarrow> str \<Rightarrow> shell_analysis \<times> shell_memo" where
  "analyze_shell_command parse url_parse memo command =
     (let normalized = collapse_whitespace command
      in case map_of memo normalized of
           Some analysis \<Rightarrow> (analysis, memo)
         | None \<Rightarrow>
             (let analysis = analyze_uncached parse url_parse command
              in (analysis, memo_push memo normalized analysis)))"

section \<open>Coverage warnings\<close>

definition coverage_word :: "str \<Rightarrow> str" where
  "coverage_word w = trim_matches (\<lambda>c. c \<in> {SQUOTE, DQUOTE, LPAREN, RPAREN, SEMI}) w"

definition suspicious_segment :: "str \<Rightarrow> bool" where
  "suspicious_segment segment =
     (let words = map coverage_word (split_ws segment)
      in list_ex (\<lambda>w. one_of w [''rm'', ''rmdir'', ''mv'', ''cp'', ''dd'', ''truncate'', ''touch'',
                              ''mkdir'', ''>'', ''>>'']) words
         \<and> list_ex (\<lambda>w. starts_with w [SLASH] \<or> contains w (lit ''../'') \<or> w = lit ''..'') words)"

definition shell_coverage_warnings :: "str \<Rightarrow> str list" where
  "shell_coverage_warnings command =
     (if list_ex suspicious_segment (shell_segments (collapse_whitespace command))
      then [lit ''shell command may mutate paths outside the workspace; checkpoint rollback only protects workspace files'']
      else [])"

section \<open>The segments the cascade sees\<close>

definition visible_segment :: "ts_parser \<Rightarrow> str \<Rightarrow> str \<Rightarrow> bool" where
  "visible_segment parse command w \<longleftrightarrow>
     w \<in> set (raw_shell_segments parse command) \<or> payload_of (raw_shell_segments parse command) w"

lemma set_ai_segments:
  "set (ai_segments (analysis_input_of parse command)) = {w. visible_segment parse command w}"
  by (auto simp: analysis_input_of_def Let_def set_expand_wrapper_segments visible_segment_def)

lemma ai_segments_Nil_iff:
  "ai_segments (analysis_input_of parse command) = [] \<longleftrightarrow> (\<forall>w. \<not> visible_segment parse command w)"
  using set_ai_segments [of parse command] by (metis Collect_empty_eq set_empty)

lemma ai_normalized_of [simp]:
  "ai_normalized (analysis_input_of parse command) = collapse_whitespace command"
  by (simp add: analysis_input_of_def Let_def)

lemma any_network_visible:
  "any_network (ai_segments (analysis_input_of parse command)) \<longleftrightarrow>
     (\<exists>w. visible_segment parse command w \<and> is_network_shell_segment w)"
  by (simp add: any_network_def list_ex_iff set_ai_segments)

lemma any_destructive_visible:
  "any_destructive (ai_segments (analysis_input_of parse command)) n \<longleftrightarrow>
     (\<exists>w. visible_segment parse command w \<and> is_destructive_shell_segment w)
     \<or> shell_segment_has_destructive_redirect n"
  by (simp add: any_destructive_def list_ex_iff set_ai_segments)

lemma decide_dynamic [simp]: "an_dynamic (decide url_parse i) = ai_dynamic i"
  by (simp add: decide_def Let_def)

lemma decide_destructive:
  "an_destructive (decide url_parse i) \<longleftrightarrow>
     ai_segments i \<noteq> [] \<and> any_destructive (ai_segments i) (ai_normalized i)"
  by (simp add: decide_def Let_def)

lemma decide_network:
  "an_network (decide url_parse i) \<longleftrightarrow> any_network (ai_segments i)"
  by (simp add: decide_def Let_def any_network_def)

lemma decide_capability_Destructive:
  "an_capability (decide url_parse i) = Destructive \<longleftrightarrow>
     an_destructive (decide url_parse i) \<and> \<not> ai_dynamic i"
  by (simp add: decide_def Let_def)

lemma decide_Critical:
  "an_risk (decide url_parse i) = Critical \<longleftrightarrow> an_capability (decide url_parse i) = Destructive"
  by (simp add: decide_def Let_def)

lemma decide_Low:
  "an_risk (decide url_parse i) = Low \<longleftrightarrow>
     ai_segments i \<noteq> [] \<and> \<not> ai_dynamic i
     \<and> \<not> any_destructive (ai_segments i) (ai_normalized i) \<and> \<not> any_network (ai_segments i)
     \<and> \<not> list_all is_compiler_shell_segment (ai_segments i)
     \<and> (if list_all is_git_shell_segment (ai_segments i)
        then list_all is_git_read_only_segment (ai_segments i)
        else list_all is_read_only_shell_segment (ai_segments i))"
  by (simp add: decide_def Let_def)

lemmas decide_facts = decide_dynamic decide_destructive decide_network decide_capability_Destructive
  decide_Critical

section \<open>The memo along a run\<close>

fun analyze_run :: "ts_parser \<Rightarrow> url_parser \<Rightarrow> shell_memo \<Rightarrow> str list \<Rightarrow> shell_analysis list \<times> shell_memo" where
  "analyze_run parse url_parse memo [] = ([], memo)"
| "analyze_run parse url_parse memo (c # cs) =
     (let (a, memo') = analyze_shell_command parse url_parse memo c;
          (rest, memo'') = analyze_run parse url_parse memo' cs
      in (a # rest, memo''))"

definition memo_ok :: "ts_parser \<Rightarrow> url_parser \<Rightarrow> str set \<Rightarrow> shell_memo \<Rightarrow> bool" where
  "memo_ok parse url_parse seen memo \<longleftrightarrow>
     length memo \<le> MEMO_CAPACITY \<and> distinct (map fst memo)
     \<and> (\<forall>(k, a) \<in> set memo. \<exists>c \<in> seen. collapse_whitespace c = k \<and> a = analyze_uncached parse url_parse c)"

lemma memo_ok_Nil: "memo_ok parse url_parse seen []"
  by (simp add: memo_ok_def)

lemma set_memo_push: "set (memo_push memo k a) \<subseteq> insert (k, a) (set memo)"
  by (cases memo) (auto simp: memo_push_def)

lemma memo_push_shape:
  assumes "length memo \<le> MEMO_CAPACITY" "distinct (map fst memo)" "k \<notin> fst ` set memo"
  shows "length (memo_push memo k a) \<le> MEMO_CAPACITY \<and> distinct (map fst (memo_push memo k a))"
  using assms by (cases memo) (auto simp: memo_push_def MEMO_CAPACITY_def)

lemma analyze_step:
  assumes ok: "memo_ok parse url_parse seen memo"
    and step: "analyze_shell_command parse url_parse memo c = (a, memo')"
  shows "memo_ok parse url_parse (insert c seen) memo'
    \<and> (\<exists>c' \<in> insert c seen. collapse_whitespace c' = collapse_whitespace c
          \<and> a = analyze_uncached parse url_parse c')"
proof (cases "map_of memo (collapse_whitespace c)")
  case None
  with step have a: "a = analyze_uncached parse url_parse c"
    and memo': "memo' = memo_push memo (collapse_whitespace c) a"
    by (auto simp: analyze_shell_command_def Let_def)
  from None have new: "collapse_whitespace c \<notin> fst ` set memo"
    by (simp add: map_of_eq_None_iff)
  have "length memo' \<le> MEMO_CAPACITY \<and> distinct (map fst memo')"
    unfolding memo' by (rule memo_push_shape) (use ok new in \<open>simp_all add: memo_ok_def\<close>)
  moreover have "\<exists>c'\<in>insert c seen. collapse_whitespace c' = k \<and> b = analyze_uncached parse url_parse c'"
    if "(k, b) \<in> set memo'" for k b
    using that set_memo_push [of memo "collapse_whitespace c" a] ok a
    unfolding memo' memo_ok_def by blast
  ultimately show ?thesis using a by (auto simp: memo_ok_def)
next
  case (Some b)
  with step have "a = b" "memo' = memo" by (auto simp: analyze_shell_command_def Let_def)
  moreover from Some have "(collapse_whitespace c, b) \<in> set memo" by (rule map_of_SomeD)
  ultimately show ?thesis using ok unfolding memo_ok_def by blast
qed

lemma analyze_run_sound:
  "memo_ok parse url_parse seen memo \<Longrightarrow> analyze_run parse url_parse memo cs = (rs, memo') \<Longrightarrow>
     memo_ok parse url_parse (seen \<union> set cs) memo'
     \<and> list_all2 (\<lambda>c r. \<exists>c' \<in> seen \<union> set cs. collapse_whitespace c' = collapse_whitespace c
                     \<and> r = analyze_uncached parse url_parse c') cs rs"
proof (induction cs arbitrary: seen memo rs)
  case (Cons c cs)
  obtain a memo1 rest where step: "analyze_shell_command parse url_parse memo c = (a, memo1)"
    and run: "analyze_run parse url_parse memo1 cs = (rest, memo')" and rs: "rs = a # rest"
    using Cons.prems(2) by (auto simp: Let_def split: prod.splits)
  from analyze_step [OF Cons.prems(1) step] have ok1: "memo_ok parse url_parse (insert c seen) memo1"
    and hit: "\<exists>c' \<in> insert c seen. collapse_whitespace c' = collapse_whitespace c
                \<and> a = analyze_uncached parse url_parse c'" by blast+
  from Cons.IH [OF ok1 run] hit rs show ?case by (auto elim!: list_all2_mono)
qed simp

section \<open>Properties\<close>

text \<open>C37: the destructive and network flags are exact over everything the command shows.  The flag
  \<open>destructive\<close> is set exactly when there is a segment, and some segment or some payload nested in at
  most eight wrappers is destructive or the whole text has a destructive redirect; the capability is
  \<open>Destructive\<close> exactly when that flag is set and the text is not dynamic; the risk is \<open>Critical\<close>
  exactly for that capability.\<close>

theorem destructive_flag_exact:
  "(an_destructive (analyze_uncached parse url_parse command) \<longleftrightarrow>
      (\<exists>w. visible_segment parse command w)
      \<and> ((\<exists>w. visible_segment parse command w \<and> is_destructive_shell_segment w)
         \<or> shell_segment_has_destructive_redirect (collapse_whitespace command)))
   \<and> (an_network (analyze_uncached parse url_parse command) \<longleftrightarrow>
        (\<exists>w. visible_segment parse command w \<and> is_network_shell_segment w))
   \<and> (an_capability (analyze_uncached parse url_parse command) = Destructive \<longleftrightarrow>
        an_destructive (analyze_uncached parse url_parse command)
        \<and> \<not> an_dynamic (analyze_uncached parse url_parse command))
   \<and> (an_risk (analyze_uncached parse url_parse command) = Critical \<longleftrightarrow>
        an_capability (analyze_uncached parse url_parse command) = Destructive)"
  by (simp add: analyze_uncached_def decide_facts any_destructive_visible any_network_visible
      ai_segments_Nil_iff)

text \<open>A low-risk verdict is earned.  Risk \<open>Low\<close> is given only when the command is not dynamic, no
  part of it redirects output to a file, and every segment and every payload nested in at most eight
  wrappers is a read-only command (the read-only list or read-only git), neither destructive nor a
  network command.\<close>

theorem low_risk_sound:
  assumes "an_risk (analyze_uncached parse url_parse command) = Low"
  shows "\<not> an_dynamic (analyze_uncached parse url_parse command)
    \<and> \<not> shell_segment_has_destructive_redirect (collapse_whitespace command)
    \<and> (\<exists>w. visible_segment parse command w)
    \<and> (\<forall>w. visible_segment parse command w \<longrightarrow>
          \<not> is_destructive_shell_segment w \<and> \<not> is_network_shell_segment w
          \<and> (is_read_only_shell_segment w \<or> is_git_read_only_segment w))"
  using assms
  by (auto simp: analyze_uncached_def decide_Low any_destructive_visible any_network_visible
      ai_segments_Nil_iff list_all_iff set_ai_segments split: if_splits)

lemma low_risk_sound_witness:
  "\<not> is_destructive_shell_segment (lit ''head'')"
proof -
  have low: "an_risk (analyze_uncached (\<lambda>_. None) (\<lambda>_. None) (lit ''ls | head'')) = Low"
    by code_simp
  have "lit ''head'' \<in> set (raw_shell_segments (\<lambda>_. None) (lit ''ls | head''))"
    by code_simp
  then have "visible_segment (\<lambda>_. None) (lit ''ls | head'') (lit ''head'')"
    by (simp add: visible_segment_def)
  with low_risk_sound [OF low] show ?thesis by blast
qed

text \<open>The memo never grows beyond its capacity, never holds a key twice, and every answer of a
  run, hit or miss, is what the analyser computes for some command of that run with the same
  white-space-collapsed text.\<close>

theorem memo_run_sound:
  "(case analyze_run parse url_parse [] commands of (answers, memo) \<Rightarrow>
      length memo \<le> MEMO_CAPACITY \<and> distinct (map fst memo)
      \<and> list_all2 (\<lambda>c r. \<exists>c'. c' \<in> set commands \<and> collapse_whitespace c' = collapse_whitespace c
                          \<and> r = analyze_uncached parse url_parse c') commands answers)"
proof -
  obtain rs memo where run: "analyze_run parse url_parse [] commands = (rs, memo)" by fastforce
  from analyze_run_sound [OF memo_ok_Nil run, of "{}"] show ?thesis
    unfolding run by (auto simp: memo_ok_def Bex_def)
qed

text \<open>On commands written with single spaces the memo is transparent: every command of the run
  gets exactly the uncached analysis.\<close>

theorem memo_transparent:
  assumes "\<forall>c \<in> set commands. collapse_whitespace c = c"
  shows "fst (analyze_run parse url_parse [] commands) = map (analyze_uncached parse url_parse) commands"
proof -
  obtain rs memo where run: "analyze_run parse url_parse [] commands = (rs, memo)" by fastforce
  from analyze_run_sound [OF memo_ok_Nil run, of "{}"]
  have "list_all2 (\<lambda>c r. \<exists>c' \<in> set commands. collapse_whitespace c' = collapse_whitespace c
                     \<and> r = analyze_uncached parse url_parse c') commands rs" by simp
  then have len: "length commands = length rs"
    and hit: "i < length commands \<Longrightarrow> \<exists>c' \<in> set commands.
        collapse_whitespace c' = collapse_whitespace (commands ! i)
        \<and> rs ! i = analyze_uncached parse url_parse c'" for i
    by (auto simp: list_all2_conv_all_nth)
  have "rs ! i = analyze_uncached parse url_parse (commands ! i)" if "i < length commands" for i
    using hit [OF that] assms nth_mem [OF that] by metis
  with len show ?thesis by (simp add: run list_eq_iff_nth_eq)
qed

lemma memo_transparent_witness:
  "fst (analyze_run (\<lambda>_. None) (\<lambda>_. None) [] [lit ''ls'', lit ''rm x'', lit ''ls''])
     = map (analyze_uncached (\<lambda>_. None) (\<lambda>_. None)) [lit ''ls'', lit ''rm x'', lit ''ls'']"
  by (rule memo_transparent) (simp, code_simp)

text \<open>The memo key is the collapsed text while the parser sees the raw text, so the two-line
  command \<open>ls\<close>, newline, \<open>rm x\<close> asked for after the one-line \<open>ls rm x\<close> is answered with the
  low-risk analysis of the latter, for every parser that reads the two lines as two commands and the
  one line as one; without the memo it is a destructive command.\<close>

theorem memo_newline_collision:
  assumes "parse_shell_command parse (lit ''ls rm x'')
        = Some \<lparr>psc_segments = [lit ''ls rm x''], psc_dynamic = False, psc_heredoc_prefix = False\<rparr>"
    and "parse_shell_command parse (lit ''ls'' @ [10] @ lit ''rm x'')
        = Some \<lparr>psc_segments = [lit ''ls'', lit ''rm x''], psc_dynamic = False, psc_heredoc_prefix = False\<rparr>"
  shows "map an_risk (fst (analyze_run parse url_parse [] [lit ''ls rm x'', lit ''ls'' @ [10] @ lit ''rm x'']))
        = [Low, Low]
    \<and> an_risk (analyze_uncached parse url_parse (lit ''ls'' @ [10] @ lit ''rm x'')) = Critical"
proof -
  have key: "collapse_whitespace (lit ''ls rm x'') = lit ''ls rm x''"
    "collapse_whitespace (lit ''ls'' @ [10] @ lit ''rm x'') = lit ''ls rm x''"
    by (code_simp, code_simp)
  have e1: "expand_wrapper_segments [lit ''ls rm x''] = [lit ''ls rm x'']"
    and e2: "expand_wrapper_segments [lit ''ls'', lit ''rm x''] = [lit ''ls'', lit ''rm x'']"
    by (code_simp, code_simp)
  have in1: "analysis_input_of parse (lit ''ls rm x'') = \<lparr>ai_normalized = lit ''ls rm x'',
      ai_segments = [lit ''ls rm x''], ai_parser_backed = True, ai_dynamic = False, ai_heredoc_prefix = False\<rparr>"
    and in2: "analysis_input_of parse (lit ''ls'' @ [10] @ lit ''rm x'') = \<lparr>ai_normalized = lit ''ls rm x'',
      ai_segments = [lit ''ls'', lit ''rm x''], ai_parser_backed = True, ai_dynamic = False, ai_heredoc_prefix = False\<rparr>"
    using assms by (simp_all add: analysis_input_of_def raw_shell_segments_def key e1 e2 del: append_Cons append_Nil)
  have d: "is_destructive_shell_segment (lit ''ls rm x'') = False"
    "is_destructive_shell_segment (lit ''ls'') = False"
    "is_destructive_shell_segment (lit ''rm x'') = True"
    "shell_segment_has_destructive_redirect (lit ''ls rm x'') = False"
    "is_network_shell_segment (lit ''ls rm x'') = False"
    "is_compiler_shell_segment (lit ''ls rm x'') = False"
    "is_git_shell_segment (lit ''ls rm x'') = False"
    "is_read_only_shell_segment (lit ''ls rm x'') = True"
    by (code_simp, code_simp, code_simp, code_simp, code_simp, code_simp, code_simp, code_simp)
  have low: "an_risk (analyze_uncached parse url_parse (lit ''ls rm x'')) = Low"
    by (simp add: analyze_uncached_def decide_Low in1 any_destructive_def any_network_def d)
  have "an_risk (analyze_uncached parse url_parse (lit ''ls'' @ [10] @ lit ''rm x'')) = Critical"
    unfolding analyze_uncached_def in2 by (simp add: decide_facts any_destructive_def d)
  moreover have "map an_risk (fst (analyze_run parse url_parse [] [lit ''ls rm x'', lit ''ls'' @ [10] @ lit ''rm x'']))
      = [Low, Low]"
    using low by (simp add: analyze_shell_command_def Let_def key memo_push_def MEMO_CAPACITY_def
        del: append_Cons append_Nil)
  ultimately show ?thesis by simp
qed

text \<open>A parser that reads the lines of a text as its commands.\<close>

definition lines_parser :: ts_parser where
  "lines_parser command = Some (TsNode ''program'' True False None (Some command)
     (map (\<lambda>l. TsNode ''command'' True False None (Some l) []) (split_on (\<lambda>c. c = 10) command)))"

lemma memo_newline_collision_witness:
  "map an_risk (fst (analyze_run lines_parser (\<lambda>_. None) []
      [lit ''ls rm x'', lit ''ls'' @ [10] @ lit ''rm x''])) = [Low, Low]"
proof -
  have a: "parse_shell_command lines_parser (lit ''ls rm x'')
        = Some \<lparr>psc_segments = [lit ''ls rm x''], psc_dynamic = False, psc_heredoc_prefix = False\<rparr>"
    by code_simp
  have b: "parse_shell_command lines_parser (lit ''ls'' @ [10] @ lit ''rm x'')
        = Some \<lparr>psc_segments = [lit ''ls'', lit ''rm x''], psc_dynamic = False, psc_heredoc_prefix = False\<rparr>"
    by code_simp
  from memo_newline_collision [OF a b] show ?thesis by blast
qed

end
