(* ===== verification/PlanMode.thy ===== *)
theory PlanMode
  imports ShellAnalyze
begin

text \<open>
  Plan mode's command filter (\<open>crates/squeezy-tools/src/shell_parse.rs\<close>): which shell segments are
  proven read-only, which are known mutators, and \<open>classify_plan_mode_shell_command\<close>, which joins
  them over the segments of a command.  Tokens are dequoted before they are compared, as in the code.
\<close>

section \<open>Token helpers\<close>

text \<open>The dequoted program name and arguments of a segment; \<open>None\<close> for an empty segment.\<close>

definition dequoted_command :: "str \<Rightarrow> (str \<times> str list) option" where
  "dequoted_command segment =
     (case tokenize_shell_segment segment of [] \<Rightarrow> None
      | t # ts \<Rightarrow> Some (dequote_token t, map dequote_token ts))"

definition sub_command :: "str list \<Rightarrow> string list \<Rightarrow> bool" where
  "sub_command args names = (case args of [] \<Rightarrow> False | a # _ \<Rightarrow> one_of a names)"

section \<open>Compiler and git segments\<close>

definition is_plan_mode_read_only_compiler_segment :: "str \<Rightarrow> bool" where
  "is_plan_mode_read_only_compiler_segment segment =
     (case dequoted_command segment of None \<Rightarrow> False
      | Some (first, args) \<Rightarrow>
          if first = lit ''cargo''
          then (if sub_command args [''test'', ''nextest'', ''check'', ''build''] then True
                else if sub_command args [''clippy''] then lit ''--fix'' \<notin> set (drop 1 args)
                else if sub_command args [''fmt''] then lit ''--check'' \<in> set (drop 1 args)
                else False)
          else first = lit ''rustc'')"

definition is_plan_mode_mutating_compiler_segment :: "str \<Rightarrow> bool" where
  "is_plan_mode_mutating_compiler_segment segment =
     (case dequoted_command segment of None \<Rightarrow> False
      | Some (first, args) \<Rightarrow>
          first = lit ''cargo''
          \<and> (if sub_command args [''fmt''] then lit ''--check'' \<notin> set (drop 1 args)
             else if sub_command args [''clippy''] then lit ''--fix'' \<in> set (drop 1 args)
             else False))"

definition is_plan_mode_mutating_git_segment :: "str \<Rightarrow> bool" where
  "is_plan_mode_mutating_git_segment segment =
     (case dequoted_command segment of None \<Rightarrow> False
      | Some (first, args) \<Rightarrow>
          first = lit ''git''
          \<and> (if sub_command args [''checkout'', ''switch'', ''restore'', ''reset'', ''clean'', ''add'', ''commit'']
             then True
             else if sub_command args [''branch''] then \<not> is_plan_mode_read_only_git_segment segment
             else if sub_command args [''diff'', ''log'', ''show'']
             then list_ex git_arg_writes_output (drop 1 args)
             else False))"

section \<open>Filters\<close>

definition base64_writes :: "str \<Rightarrow> bool" where
  "base64_writes token \<longleftrightarrow>
     one_of token [''-o'', ''--output''] \<or> starts_with token (lit ''-o'') \<or> starts_with token (lit ''--output='')"

definition sort_writes :: "str \<Rightarrow> bool" where
  "sort_writes token \<longleftrightarrow>
     one_of token [''-o'', ''--output'', ''--output-document''] \<or> starts_with token (lit ''--output='')"

definition is_plan_mode_mutating_filter_segment :: "str \<Rightarrow> bool" where
  "is_plan_mode_mutating_filter_segment segment =
     (case dequoted_command segment of None \<Rightarrow> False
      | Some (first, args) \<Rightarrow>
          if first = lit ''sed''
          then list_ex (\<lambda>t. t = lit ''--in-place'' \<or> starts_with t (lit ''-i'')) args
          else if first = lit ''base64'' then list_ex base64_writes args
          else if first = lit ''sort'' then list_ex sort_writes args
          else False)"

definition is_plan_mode_read_only_filter_segment :: "str \<Rightarrow> bool" where
  "is_plan_mode_read_only_filter_segment segment =
     (case dequoted_command segment of None \<Rightarrow> False
      | Some (first, args) \<Rightarrow>
          if one_of first [''true'', ''cut'', ''tr'', ''jq''] then True
          else if first = lit ''base64'' then \<not> list_ex base64_writes args
          else if first = lit ''sort'' then \<not> list_ex sort_writes args
          else if first = lit ''uniq'' then length (filter (\<lambda>t. \<not> starts_with t [DASH]) args) \<le> 1
          else False)"

definition is_plan_mode_read_only_find_segment :: "str \<Rightarrow> bool" where
  "is_plan_mode_read_only_find_segment segment =
     (case dequoted_command segment of None \<Rightarrow> False
      | Some (first, args) \<Rightarrow>
          first = lit ''find''
          \<and> \<not> list_ex (\<lambda>t. one_of t [''-delete'', ''-exec'', ''-execdir'', ''-ok'', ''-okdir'',
                                      ''-fprint'', ''-fprint0'', ''-fprintf'']) args)"

definition digits_nonempty :: "str \<Rightarrow> bool" where
  "digits_nonempty s \<longleftrightarrow> s \<noteq> [] \<and> list_all is_digit s"

definition sed_print_script_is_read_only :: "str \<Rightarrow> bool" where
  "sed_print_script_is_read_only script =
     (case strip_suffix script (lit ''p'') of None \<Rightarrow> False
      | Some rest \<Rightarrow>
          if rest = [] then False
          else (case split_on (\<lambda>c. c = COMMA) rest of
                  [start] \<Rightarrow> digits_nonempty start
                | [start, stop] \<Rightarrow> digits_nonempty start \<and> digits_nonempty stop
                | _ \<Rightarrow> False))"

definition is_plan_mode_read_only_sed_segment :: "str \<Rightarrow> bool" where
  "is_plan_mode_read_only_sed_segment segment =
     (case dequoted_command segment of None \<Rightarrow> False
      | Some (first, args) \<Rightarrow>
          first = lit ''sed''
          \<and> (case args of
               n # script # rest \<Rightarrow>
                 n = lit ''-n'' \<and> \<not> list_ex (\<lambda>a. starts_with a [DASH]) rest
                 \<and> sed_print_script_is_read_only script
             | _ \<Rightarrow> False))"

section \<open>Inline Python filters\<close>

definition first_or_empty :: "str list \<Rightarrow> str" where
  "first_or_empty xs = (case xs of [] \<Rightarrow> [] | x # _ \<Rightarrow> x)"

definition import_module_allowed :: "str \<Rightarrow> bool" where
  "import_module_allowed module \<longleftrightarrow>
     one_of (first_or_empty (split_on (\<lambda>c. c = DOT) (first_or_empty (split_ws module))))
       [''sys'', ''json'', ''csv'', ''re'', ''collections'', ''itertools'', ''math'', ''statistics'']"

definition import_statement_allowed :: "str \<Rightarrow> bool" where
  "import_statement_allowed statement =
     (let trimmed = trim statement
      in case strip_prefix trimmed (lit ''import '') of
           Some rest \<Rightarrow> list_all import_module_allowed (split_on (\<lambda>c. c = COMMA) rest)
         | None \<Rightarrow>
             (case strip_prefix trimmed (lit ''from '') of
                Some rest \<Rightarrow> one_of (first_or_empty (split_ws rest))
                               [''json'', ''csv'', ''re'', ''collections'', ''itertools'']
              | None \<Rightarrow> True))"

definition python_inline_imports_are_read_only :: "str \<Rightarrow> bool" where
  "python_inline_imports_are_read_only script =
     list_all import_statement_allowed (split_on (\<lambda>c. c = SEMI \<or> c = NL) script)"

definition python_banned :: "string list" where
  "python_banned =
     [''__'', ''open('', ''exec('', ''eval('', ''compile('', ''os.'', ''subprocess'', ''socket'', ''requests'',
      ''urllib'', ''pathlib'', ''shutil'', ''glob'', ''system('', ''popen'', ''remove('', ''unlink('', ''mkdir('',
      ''rmdir('', ''rename('', ''replace('', ''chmod('', ''chown('', ''.write('', ''write('']"

definition python_inline_script_is_read_only_filter :: "str \<Rightarrow> bool" where
  "python_inline_script_is_read_only_filter script \<longleftrightarrow>
     \<not> list_ex (\<lambda>needle. contains (to_lower script) (lit needle)) python_banned
     \<and> python_inline_imports_are_read_only script"

fun inline_script :: "str list \<Rightarrow> str option" where
  "inline_script (flag # script # rest) =
     (if one_of flag [''-c'', ''--command''] then Some script else inline_script (script # rest))"
| "inline_script _ = None"

definition is_plan_mode_read_only_python_filter_segment :: "str \<Rightarrow> bool" where
  "is_plan_mode_read_only_python_filter_segment segment =
     (case dequoted_command segment of None \<Rightarrow> False
      | Some (first, args) \<Rightarrow>
          one_of first [''python'', ''python2'', ''python3'']
          \<and> (case inline_script (first # args) of None \<Rightarrow> False
             | Some script \<Rightarrow> python_inline_script_is_read_only_filter script))"

section \<open>Commands\<close>

definition is_plan_mode_read_only_shell_segment :: "str \<Rightarrow> bool" where
  "is_plan_mode_read_only_shell_segment segment \<longleftrightarrow>
     is_read_only_shell_segment segment
     \<or> is_plan_mode_read_only_find_segment segment
     \<or> is_plan_mode_read_only_filter_segment segment
     \<or> is_plan_mode_read_only_sed_segment segment
     \<or> is_plan_mode_read_only_python_filter_segment segment
     \<or> is_plan_mode_read_only_git_segment segment
     \<or> is_plan_mode_read_only_compiler_segment segment"

definition is_plan_mode_mutating_shell_segment :: "str \<Rightarrow> bool" where
  "is_plan_mode_mutating_shell_segment segment \<longleftrightarrow>
     is_destructive_shell_segment segment
     \<or> is_safe_metadata_write_segment segment
     \<or> is_plan_mode_mutating_filter_segment segment
     \<or> is_plan_mode_mutating_compiler_segment segment
     \<or> is_plan_mode_mutating_git_segment segment"

definition dynamic_shell_text_contains_mutator :: "str \<Rightarrow> bool" where
  "dynamic_shell_text_contains_mutator command =
     list_ex (\<lambda>needle. contains (to_lower command) (lit needle))
       [''rm '', ''rmdir '', ''touch '', ''mkdir '', ''mv '', ''cp '', ''tee '', ''sed -i'', ''chmod '', ''chown '',
        ''truncate '', ''dd '', ''git checkout'', ''git switch'', ''git reset'', ''git clean'', ''cargo fmt'',
        ''clippy --fix'']"

datatype plan_mode_shell_safety = ReadOnly | NeedsApproval | Mutating

definition classify_plan_mode_shell_command :: "ts_parser \<Rightarrow> str \<Rightarrow> plan_mode_shell_safety" where
  "classify_plan_mode_shell_command parse command =
     (let normalized = collapse_whitespace command
      in case parse_shell_command parse normalized of None \<Rightarrow> NeedsApproval
         | Some parsed \<Rightarrow>
             if psc_dynamic parsed \<and> dynamic_shell_text_contains_mutator normalized then Mutating
             else if shell_segment_has_destructive_redirect normalized then Mutating
             else
               (let segments = expand_wrapper_segments (psc_segments parsed)
                in if segments = [] then NeedsApproval
                   else if list_ex is_plan_mode_mutating_shell_segment segments then Mutating
                   else if \<not> psc_dynamic parsed \<and> list_all is_plan_mode_read_only_shell_segment segments
                   then ReadOnly
                   else NeedsApproval))"

definition plan_mode_shell_command_is_read_only :: "ts_parser \<Rightarrow> str \<Rightarrow> bool" where
  "plan_mode_shell_command_is_read_only parse command \<longleftrightarrow>
     classify_plan_mode_shell_command parse command = ReadOnly"

section \<open>Facts\<close>

lemma classify_cases:
  assumes "parse_shell_command parse (collapse_whitespace command) = Some parsed"
  shows "classify_plan_mode_shell_command parse command = ReadOnly \<longleftrightarrow>
      \<not> psc_dynamic parsed \<and> \<not> shell_segment_has_destructive_redirect (collapse_whitespace command)
      \<and> psc_segments parsed \<noteq> []
      \<and> (\<forall>w \<in> set (expand_wrapper_segments (psc_segments parsed)).
            is_plan_mode_read_only_shell_segment w \<and> \<not> is_plan_mode_mutating_shell_segment w)"
  using assms by (auto simp: classify_plan_mode_shell_command_def Let_def list_all_iff list_ex_iff)

lemma read_only_parsed:
  "classify_plan_mode_shell_command parse command = ReadOnly \<Longrightarrow>
     \<exists>parsed. parse_shell_command parse (collapse_whitespace command) = Some parsed"
  by (auto simp: classify_plan_mode_shell_command_def Let_def split: option.splits)

text \<open>The read-only and the mutating lists do not overlap.\<close>

lemma compiler_disjoint:
  "is_plan_mode_read_only_compiler_segment w \<Longrightarrow> \<not> is_plan_mode_mutating_compiler_segment w"
  by (auto simp: is_plan_mode_read_only_compiler_segment_def is_plan_mode_mutating_compiler_segment_def
      sub_command_def one_of_def split: option.splits prod.splits list.splits if_splits)

lemma collapse_idem [simp]: "collapse_whitespace (collapse_whitespace command) = collapse_whitespace command"
  by (simp add: collapse_whitespace_def split_ws_join split_ws_token)

lemma visible_of_parsed:
  assumes "parse_shell_command parse c = Some parsed" "psc_segments parsed \<noteq> []"
  shows "visible_segment parse c w \<longleftrightarrow> w \<in> set (expand_wrapper_segments (psc_segments parsed))"
  using assms by (auto simp: visible_segment_def raw_shell_segments_def set_expand_wrapper_segments)

section \<open>Properties\<close>



text \<open>Plan mode judges the text after its line breaks were collapsed.  For every parser that
  reads \<open>ls cp a b\<close> as one command, the two-line script \<open>ls\<close>, newline, \<open>cp a b\<close> is \<open>ReadOnly\<close>,
  although its second line is a segment Plan mode has no proof for.\<close>

theorem plan_mode_newline_hides_command:
  assumes "parse_shell_command parse (lit ''ls cp a b'')
     = Some \<lparr>psc_segments = [lit ''ls cp a b''], psc_dynamic = False, psc_heredoc_prefix = False\<rparr>"
  shows "classify_plan_mode_shell_command parse (lit ''ls'' @ [NL] @ lit ''cp a b'') = ReadOnly
    \<and> \<not> is_plan_mode_read_only_shell_segment (lit ''cp a b'')"
proof
  have key: "collapse_whitespace (lit ''ls'' @ [NL] @ lit ''cp a b'') = lit ''ls cp a b''" by code_simp
  have e: "expand_wrapper_segments [lit ''ls cp a b''] = [lit ''ls cp a b'']" by code_simp
  have f: "is_plan_mode_read_only_shell_segment (lit ''ls cp a b'')"
    "\<not> is_plan_mode_mutating_shell_segment (lit ''ls cp a b'')"
    "\<not> shell_segment_has_destructive_redirect (lit ''ls cp a b'')"
    by (code_simp, code_simp, code_simp)
  show "classify_plan_mode_shell_command parse (lit ''ls'' @ [NL] @ lit ''cp a b'') = ReadOnly"
    using classify_cases [of parse "lit ''ls'' @ [NL] @ lit ''cp a b''", unfolded key, OF assms] f
    by (simp add: e del: append_Cons append_Nil)
  show "\<not> is_plan_mode_read_only_shell_segment (lit ''cp a b'')" by code_simp
qed

lemma plan_mode_newline_hides_command_witness:
  "classify_plan_mode_shell_command lines_parser (lit ''ls'' @ [NL] @ lit ''cp a b'') = ReadOnly"
proof -
  have "parse_shell_command lines_parser (lit ''ls cp a b'')
     = Some \<lparr>psc_segments = [lit ''ls cp a b''], psc_dynamic = False, psc_heredoc_prefix = False\<rparr>"
    by code_simp
  from plan_mode_newline_hides_command [OF this] show ?thesis by blast
qed

text \<open>Two writers pass the read-only lists: \<open>find . -fls out\<close> and \<open>sort -oout\<close> write the file
  \<open>out\<close>, are proven read-only by Plan mode and are on no mutating list; the spellings \<open>-fprint out\<close>
  and \<open>-o out\<close> are not read-only.\<close>

theorem plan_mode_accepts_fls_and_attached_output:
  "is_plan_mode_read_only_shell_segment (lit ''find . -fls out'')
   \<and> \<not> is_plan_mode_mutating_shell_segment (lit ''find . -fls out'')
   \<and> is_plan_mode_read_only_shell_segment (lit ''sort -oout'')
   \<and> \<not> is_plan_mode_mutating_shell_segment (lit ''sort -oout'')
   \<and> \<not> is_plan_mode_read_only_shell_segment (lit ''find . -fprint out'')
   \<and> \<not> is_plan_mode_read_only_shell_segment (lit ''sort -o out'')"
proof -
  have "\<not> is_destructive_shell_segment (lit ''find . -fls out'')"
    "\<not> is_safe_metadata_write_segment (lit ''find . -fls out'')"
    "\<not> is_plan_mode_mutating_filter_segment (lit ''find . -fls out'')"
    "\<not> is_plan_mode_mutating_compiler_segment (lit ''find . -fls out'')"
    "\<not> is_plan_mode_mutating_git_segment (lit ''find . -fls out'')"
    by (code_simp, code_simp, code_simp, code_simp, code_simp)
  then have "\<not> is_plan_mode_mutating_shell_segment (lit ''find . -fls out'')"
    unfolding is_plan_mode_mutating_shell_segment_def by blast
  moreover have "is_plan_mode_read_only_shell_segment (lit ''find . -fls out'')"
    "is_plan_mode_read_only_shell_segment (lit ''sort -oout'')"
    "\<not> is_plan_mode_mutating_shell_segment (lit ''sort -oout'')"
    "\<not> is_plan_mode_read_only_shell_segment (lit ''find . -fprint out'')"
    "\<not> is_plan_mode_read_only_shell_segment (lit ''sort -o out'')"
    by (code_simp, code_simp, code_simp, code_simp, code_simp)
  ultimately show ?thesis by blast
qed

end
