(* ===== verification/WriteTargets.thy ===== *)
theory WriteTargets
  imports ShellTree
begin

text \<open>
  The write targets of file-mutating commands, \<open>crates/squeezy-tools/src/shell_parse.rs\<close> from
  \<open>extract_shell_write_targets\<close> on: which operands a verb writes, and the expansion of \<open>~\<close> and
  environment variables in them.  The process environment is the parameter \<open>env\<close>.
\<close>

type_synonym environment = "str \<Rightarrow> str option"

section \<open>Variable expansion\<close>

definition is_var_char :: "uchar \<Rightarrow> bool" where
  "is_var_char c \<longleftrightarrow> is_alnum c \<or> c = UNDERSCORE"

definition is_valid_var_name :: "str \<Rightarrow> bool" where
  "is_valid_var_name name \<longleftrightarrow> name \<noteq> [] \<and> list_all is_var_char name"

definition powershell_env_provider_var :: "str \<Rightarrow> str option" where
  "powershell_env_provider_var brace_content =
     (if length brace_content < 4 \<or> \<not> eq_ignore_case (take 4 brace_content) (lit ''env:'') then None
      else if is_valid_var_name (drop 4 brace_content) then Some (drop 4 brace_content) else None)"

definition home_dir :: "environment \<Rightarrow> str option" where
  "home_dir env = (case env (lit ''HOME'') of Some h \<Rightarrow> Some h | None \<Rightarrow> env (lit ''USERPROFILE''))"

text \<open>One \<open>%\<close>, \<open>${...}\<close> or \<open>$NAME\<close> after its first character: what is emitted and what remains.\<close>

definition expand_percent :: "environment \<Rightarrow> str \<Rightarrow> str \<times> str" where
  "expand_percent env cs =
     (let name = takeWhile is_var_char cs; rest = dropWhile is_var_char cs
      in if name \<noteq> [] \<and> take 1 rest = [PERCENT]
         then (case env name of Some val \<Rightarrow> val | None \<Rightarrow> PERCENT # name @ [PERCENT], drop 1 rest)
         else (PERCENT # name, rest))"

definition expand_brace :: "environment \<Rightarrow> str \<Rightarrow> str \<times> str" where
  "expand_brace env cs =
     (let name = takeWhile (\<lambda>c. c \<noteq> RBRACE) cs; after = dropWhile (\<lambda>c. c \<noteq> RBRACE) cs;
          closed = (after \<noteq> []);
          resolved_name = (case powershell_env_provider_var name of Some v \<Rightarrow> v | None \<Rightarrow> name);
          literal = DOLLAR # LBRACE # name @ (if closed then [RBRACE] else [])
      in (if closed \<and> is_valid_var_name resolved_name
          then (case env resolved_name of Some val \<Rightarrow> val | None \<Rightarrow> literal)
          else literal,
          drop 1 after))"

definition expand_name :: "environment \<Rightarrow> str \<Rightarrow> str \<times> str" where
  "expand_name env cs =
     (let name = takeWhile is_var_char cs; rest = dropWhile is_var_char cs
      in if take 1 rest = [COLON]
         then (let provider = name @ [COLON];
                   var = takeWhile is_var_char (drop 1 rest);
                   rest' = dropWhile is_var_char (drop 1 rest);
                   literal = DOLLAR # provider @ var
               in (if eq_ignore_case provider (lit ''env:'') \<and> var \<noteq> []
                   then (case env var of Some val \<Rightarrow> val | None \<Rightarrow> literal) else literal,
                   rest'))
         else (case env name of Some val \<Rightarrow> val | None \<Rightarrow> DOLLAR # name, rest))"

lemma length_expand_percent: "length (snd (expand_percent env cs)) \<le> length cs"
  using length_dropWhile_le [of is_var_char cs]
  by (auto simp: expand_percent_def Let_def split: option.split)

lemma length_expand_brace: "length (snd (expand_brace env cs)) \<le> length cs"
  using length_dropWhile_le [of "\<lambda>c. c \<noteq> RBRACE" cs] by (simp add: expand_brace_def Let_def)

lemma length_expand_name: "length (snd (expand_name env cs)) \<le> length cs"
  using length_dropWhile_le [of is_var_char cs]
    length_dropWhile_le [of is_var_char "drop 1 (dropWhile is_var_char cs)"]
  by (auto simp: expand_name_def Let_def)

function expand_env_vars :: "environment \<Rightarrow> str \<Rightarrow> str" where
  "expand_env_vars env [] = []"
| "expand_env_vars env (c # cs) =
     (if c = PERCENT then
        fst (expand_percent env cs) @ expand_env_vars env (snd (expand_percent env cs))
      else if c \<noteq> DOLLAR then c # expand_env_vars env cs
      else if take 1 cs = [LBRACE] then
        fst (expand_brace env (drop 1 cs)) @ expand_env_vars env (snd (expand_brace env (drop 1 cs)))
      else if cs \<noteq> [] \<and> (is_alpha (hd cs) \<or> hd cs = UNDERSCORE) then
        fst (expand_name env cs) @ expand_env_vars env (snd (expand_name env cs))
      else DOLLAR # expand_env_vars env cs)"
  by pat_completeness auto
termination
proof (relation "measure (\<lambda>(env, s). length s)", goal_cases)
  case (4 env c cs)
  have "length (snd (expand_brace env (drop 1 cs))) \<le> length (drop 1 cs)" by (rule length_expand_brace)
  then show ?case by simp
qed (auto simp: less_Suc_eq_le length_expand_percent length_expand_name)

text \<open>\<open>path_has_unresolved_var\<close>: the scan over \<open>%NAME%\<close>.\<close>

function percent_var_scan :: "str \<Rightarrow> bool" where
  "percent_var_scan [] = False"
| "percent_var_scan (c # cs) =
     (if c \<noteq> PERCENT then percent_var_scan cs
      else if takeWhile is_var_char cs \<noteq> [] \<and> take 1 (dropWhile is_var_char cs) = [PERCENT] then True
      else percent_var_scan (dropWhile is_var_char cs))"
  by pat_completeness auto
termination
  by (relation "measure length") (auto simp: less_Suc_eq_le length_dropWhile_le)

definition path_has_unresolved_var :: "str \<Rightarrow> bool" where
  "path_has_unresolved_var path \<longleftrightarrow> DOLLAR \<in> set path \<or> percent_var_scan path"

definition expand_path_vars :: "environment \<Rightarrow> str \<Rightarrow> str" where
  "expand_path_vars env path =
     expand_env_vars env
       (if path = lit ''~'' then (case home_dir env of Some h \<Rightarrow> h | None \<Rightarrow> path)
        else case strip_prefix path (lit ''~/'') of
               Some rest \<Rightarrow>
                 (case home_dir env of
                    Some home \<Rightarrow> trim_end_matches (\<lambda>c. c = SLASH) home @ [SLASH] @ rest
                  | None \<Rightarrow> path)
             | None \<Rightarrow> path)"

definition push_write_target :: "environment \<Rightarrow> str \<Rightarrow> str list \<Rightarrow> str list" where
  "push_write_target env raw out =
     (let raw = trim raw
      in if raw = [] \<or> raw = [DASH] \<or> starts_with raw (lit ''/dev/'') then out
         else if expand_path_vars env raw \<in> set out then out
         else out @ [expand_path_vars env raw])"

definition push_write_targets :: "environment \<Rightarrow> str list \<Rightarrow> str list \<Rightarrow> str list" where
  "push_write_targets env raws out = fold (push_write_target env) raws out"

section \<open>Operands by verb\<close>

definition is_shell_flag :: "str \<Rightarrow> bool" where
  "is_shell_flag token \<longleftrightarrow> starts_with token [DASH] \<and> token \<noteq> [DASH]"

fun target_directory_arg :: "str list \<Rightarrow> str option" where
  "target_directory_arg [] = None"
| "target_directory_arg (arg # args) =
     (if one_of arg [''-t'', ''--target-directory''] then (case args of [] \<Rightarrow> None | d # _ \<Rightarrow> Some d)
      else case strip_prefix arg (lit ''--target-directory='') of
             Some rest \<Rightarrow> Some rest
           | None \<Rightarrow>
               (case strip_prefix arg (lit ''-t'') of
                  Some rest \<Rightarrow> if rest \<noteq> [] then Some rest else target_directory_arg args
                | None \<Rightarrow> target_directory_arg args))"

definition is_cmd_flag :: "str \<Rightarrow> bool" where
  "is_cmd_flag token \<longleftrightarrow>
     starts_with token [SLASH] \<and> 2 \<le> byte_len token \<and> list_all (\<lambda>c. is_alnum c \<or> c = COLON) (drop 1 token)"

fun powershell_named_value :: "str list \<Rightarrow> string list \<Rightarrow> str option" where
  "powershell_named_value [] names = None"
| "powershell_named_value (arg # args) names =
     (case split_once COLON arg of
        Some (flag, inline) \<Rightarrow>
          if list_ex (\<lambda>n. eq_ignore_case flag (lit n)) names \<and> inline \<noteq> [] then Some inline
          else if list_ex (\<lambda>n. eq_ignore_case arg (lit n)) names
          then (case args of [] \<Rightarrow> None | v # _ \<Rightarrow> Some v)
          else powershell_named_value args names
      | None \<Rightarrow>
          if list_ex (\<lambda>n. eq_ignore_case arg (lit n)) names
          then (case args of [] \<Rightarrow> None | v # _ \<Rightarrow> Some v)
          else powershell_named_value args names)"

fun powershell_positionals_from :: "bool \<Rightarrow> str list \<Rightarrow> str list" where
  "powershell_positionals_from skip_value [] = []"
| "powershell_positionals_from skip_value (arg # args) =
     (if skip_value then powershell_positionals_from False args
      else if starts_with arg [DASH] then powershell_positionals_from (COLON \<notin> set arg) args
      else arg # powershell_positionals_from False args)"

definition powershell_positionals :: "str list \<Rightarrow> str list" where
  "powershell_positionals args = powershell_positionals_from False args"

definition last_option :: "'a list \<Rightarrow> 'a list" where
  "last_option xs = (if xs = [] then [] else [last xs])"

definition windows_raw_targets :: "str \<Rightarrow> str list \<Rightarrow> str list" where
  "windows_raw_targets name args =
     (let lowered = to_lower name;
          verb = (case strip_suffix lowered (lit ''.exe'') of Some v \<Rightarrow> v | None \<Rightarrow> lowered);
          positional = filter (\<lambda>a. \<not> is_cmd_flag a) args
      in if one_of verb [''copy'', ''move'', ''xcopy''] then last_option positional
         else if verb = lit ''robocopy'' then take 1 (drop 1 positional)
         else if verb = lit ''md'' then positional
         else if one_of verb [''copy-item'', ''move-item'']
         then (case powershell_named_value args [''-destination'', ''-dest''] of
                 Some dest \<Rightarrow> [dest] | None \<Rightarrow> last_option (powershell_positionals args))
         else if one_of verb [''set-content'', ''add-content'', ''out-file'', ''new-item'']
         then (case powershell_named_value args [''-path'', ''-filepath'', ''-literalpath''] of
                 Some t \<Rightarrow> [t] | None \<Rightarrow> take 1 (powershell_positionals args))
         else [])"

definition collect_windows_write_targets ::
  "environment \<Rightarrow> str \<Rightarrow> str list \<Rightarrow> str list \<Rightarrow> str list" where
  "collect_windows_write_targets env name args out =
     push_write_targets env (windows_raw_targets name args) out"

definition verb_raw_targets :: "str \<Rightarrow> str list \<Rightarrow> str list" where
  "verb_raw_targets name args =
     (let operands = filter (\<lambda>a. \<not> is_shell_flag a) args
      in if one_of name [''tee'', ''touch'', ''mkdir'', ''ln''] then operands
         else if one_of name [''cp'', ''mv'', ''install'']
         then (case target_directory_arg args of Some dir \<Rightarrow> [dir] | None \<Rightarrow> last_option operands)
         else if name = lit ''dd'' then List.map_filter (\<lambda>a. strip_prefix a (lit ''of='')) args
         else if name = lit ''sed''
         then (if list_ex (\<lambda>a. starts_with a (lit ''-i'') \<or> starts_with a (lit ''--in-place'')) args
               then (if list_ex (\<lambda>a. one_of a [''-e'', ''--expression'', ''-f'', ''--file'']) args
                        \<or> length operands \<le> 1
                     then operands else drop 1 operands)
               else [])
         else if name = lit ''chmod'' then drop 1 operands
         else windows_raw_targets name args)"

definition collect_verb_write_targets ::
  "environment \<Rightarrow> str \<Rightarrow> str list \<Rightarrow> str list \<Rightarrow> str list" where
  "collect_verb_write_targets env name args out = push_write_targets env (verb_raw_targets name args) out"

definition extract_shell_write_targets :: "ts_parser \<Rightarrow> environment \<Rightarrow> str \<Rightarrow> str list" where
  "extract_shell_write_targets parse env command =
     (let segments = expand_wrapper_segments (shell_segments (collapse_whitespace command));
          units = concat (map (extract_command_units parse) segments)
      in fold (\<lambda>u. collect_verb_write_targets env (cu_name u) (cu_args u)) units [])"

section \<open>What expansion leaves alone\<close>

lemma take1_eq: "take 1 xs = [x] \<Longrightarrow> xs = x # drop 1 xs"
  by (cases xs) auto

lemma expand_percent_unset:
  "fst (expand_percent (\<lambda>_. None) cs) @ snd (expand_percent (\<lambda>_. None) cs) = PERCENT # cs"
proof -
  have "takeWhile is_var_char cs @ dropWhile is_var_char cs = cs" by simp
  moreover have "take 1 (dropWhile is_var_char cs) = [PERCENT] \<Longrightarrow>
      [PERCENT] @ drop 1 (dropWhile is_var_char cs) = dropWhile is_var_char cs"
    using take1_eq by (metis append_Cons append_Nil)
  ultimately show ?thesis by (auto simp: expand_percent_def Let_def)
qed

lemma expand_brace_unset:
  "fst (expand_brace (\<lambda>_. None) cs) @ snd (expand_brace (\<lambda>_. None) cs) = DOLLAR # LBRACE # cs"
proof (cases "dropWhile (\<lambda>c. c \<noteq> RBRACE) cs")
  case Nil
  then have tk: "takeWhile (\<lambda>c. c \<noteq> RBRACE) cs = cs"
    by (metis append_Nil2 takeWhile_dropWhile_id)
  show ?thesis unfolding expand_brace_def Let_def Nil tk by simp
next
  case (Cons x xs)
  then have "x = RBRACE" using hd_dropWhile [of "\<lambda>c. c \<noteq> RBRACE" cs] by simp
  moreover have "takeWhile (\<lambda>c. c \<noteq> RBRACE) cs @ x # xs = cs"
    using Cons by (metis takeWhile_dropWhile_id)
  ultimately show ?thesis using Cons by (simp add: expand_brace_def Let_def)
qed

lemma expand_name_unset:
  "fst (expand_name (\<lambda>_. None) cs) @ snd (expand_name (\<lambda>_. None) cs) = DOLLAR # cs"
proof (cases "take 1 (dropWhile is_var_char cs) = [COLON]")
  case True
  let ?r = "drop 1 (dropWhile is_var_char cs)"
  have "takeWhile is_var_char ?r @ dropWhile is_var_char ?r = ?r" by (rule takeWhile_dropWhile_id)
  then have "takeWhile is_var_char cs @ COLON # takeWhile is_var_char ?r @ dropWhile is_var_char ?r = cs"
    using take1_eq [OF True] by (metis takeWhile_dropWhile_id)
  with True show ?thesis by (simp add: expand_name_def Let_def)
next
  case False
  then show ?thesis by (simp add: expand_name_def Let_def)
qed

text \<open>A variable that is not set stays literal.  With no variable set, expansion is the identity on
  every text (percent, brace, provider and plain forms, closed or not), so a write target that names
  an unset \<open>$VAR\<close> still contains its dollar sign and is reported as unresolved.\<close>

theorem unset_variables_stay_literal:
  "expand_env_vars (\<lambda>_. None) s = s
   \<and> path_has_unresolved_var (expand_env_vars (\<lambda>_. None) s) = path_has_unresolved_var s"
proof -
  have "expand_env_vars env s = s" if "env = (\<lambda>_. None)" for env
    using that
  proof (induction env s rule: expand_env_vars.induct)
    case (2 env c cs)
    let ?e = "\<lambda>_ :: str. None :: str option"
    consider "c = PERCENT" | "c \<noteq> PERCENT" "c \<noteq> DOLLAR"
      | "c = DOLLAR" "take 1 cs = [LBRACE]"
      | "c = DOLLAR" "take 1 cs \<noteq> [LBRACE]" "cs \<noteq> [] \<and> (is_alpha (hd cs) \<or> hd cs = UNDERSCORE)"
      | "c = DOLLAR" "take 1 cs \<noteq> [LBRACE]" "\<not> (cs \<noteq> [] \<and> (is_alpha (hd cs) \<or> hd cs = UNDERSCORE))"
      by blast
    then show ?case
    proof cases
      case 1
      with "2.IH"(1) "2.prems" expand_percent_unset [of cs] show ?thesis by simp
    next
      case 2
      with "2.IH"(2) "2.prems" show ?thesis by simp
    next
      case 3
      have "cs = LBRACE # drop 1 cs" by (rule take1_eq [OF 3(2)])
      with 3 "2.IH"(3) "2.prems" expand_brace_unset [of "drop 1 cs"] show ?thesis by simp
    next
      case 4
      with "2.IH"(4) "2.prems" expand_name_unset [of cs] show ?thesis by simp
    next
      case 5
      then have "expand_env_vars env (c # cs) = DOLLAR # expand_env_vars env cs" by auto
      with 5 "2.IH"(5) "2.prems" show ?thesis by simp
    qed
  qed simp
  then show ?thesis by simp
qed

end
