(* ===== verification/Paths.thy ===== *)
theory Paths
  imports Prelude "HOL-Library.List_Lexorder"
begin

text \<open>
  What the code uses of \<open>std::path\<close> (Unix): components, component-wise prefix, join, order.  The file
  system itself is outside the source; the operations that ask it take a \<open>file_system\<close> record of the
  answers (\<open>canonicalize\<close>, \<open>is_dir\<close>, \<open>exists\<close>).
\<close>

datatype path_component = RootDir | CurDir | ParentDir | Normal str

fun component_rank :: "path_component \<Rightarrow> nat \<times> str" where
  "component_rank RootDir = (0, [])"
| "component_rank CurDir = (1, [])"
| "component_rank ParentDir = (2, [])"
| "component_rank (Normal s) = (3, s)"

lemma component_rank_inj: "component_rank a = component_rank b \<longleftrightarrow> a = b"
  by (cases a; cases b) auto

text \<open>The derived order of \<open>std::path::Component\<close>.\<close>

instantiation path_component :: linorder
begin

definition less_eq_path_component :: "path_component \<Rightarrow> path_component \<Rightarrow> bool" where
  "less_eq_path_component a b \<longleftrightarrow>
     (case (component_rank a, component_rank b) of
        ((i, s), (j, t)) \<Rightarrow> i < j \<or> (i = j \<and> s \<le> t))"

definition less_path_component :: "path_component \<Rightarrow> path_component \<Rightarrow> bool" where
  "less_path_component a b \<longleftrightarrow> a \<le> b \<and> \<not> b \<le> (a :: path_component)"

instance
proof
  fix x y z :: path_component
  show "(x < y) = (x \<le> y \<and> \<not> y \<le> x)" by (simp add: less_path_component_def)
  show "x \<le> x" by (simp add: less_eq_path_component_def split: prod.split)
  show "x \<le> y \<Longrightarrow> y \<le> z \<Longrightarrow> x \<le> z"
    by (auto simp: less_eq_path_component_def split: prod.splits)
  show "x \<le> y \<Longrightarrow> y \<le> x \<Longrightarrow> x = y"
    by (auto simp: less_eq_path_component_def component_rank_inj [symmetric] split: prod.splits)
  show "x \<le> y \<or> y \<le> x"
    by (auto simp: less_eq_path_component_def split: prod.splits)
qed

end

text \<open>
  \<open>Path::components\<close>: empty pieces vanish, \<open>.\<close> is kept only as the first component of a relative path.
\<close>

definition piece_component :: "str \<Rightarrow> path_component option" where
  "piece_component w =
     (if w = [] \<or> w = [DOT] then None else if w = [DOT, DOT] then Some ParentDir else Some (Normal w))"

definition path_components :: "str \<Rightarrow> path_component list" where
  "path_components p =
     (let pieces = split_on (\<lambda>c. c = SLASH) p
      in (if starts_with p [SLASH] then [RootDir]
          else if p \<noteq> [] \<and> hd pieces = [DOT] then [CurDir] else [])
         @ List.map_filter piece_component pieces)"

definition path_is_absolute :: "str \<Rightarrow> bool" where
  "path_is_absolute p = starts_with p [SLASH]"

definition path_starts_with :: "str \<Rightarrow> str \<Rightarrow> bool" where
  "path_starts_with p base =
     (take (length (path_components base)) (path_components p) = path_components base)"

definition path_join :: "str \<Rightarrow> str \<Rightarrow> str" where
  "path_join base p =
     (if path_is_absolute p then p
      else if base = [] \<or> ends_with base [SLASH] then base @ p
      else base @ [SLASH] @ p)"

definition path_eq :: "str \<Rightarrow> str \<Rightarrow> bool" where
  "path_eq a b \<longleftrightarrow> path_components a = path_components b"

definition path_member :: "str \<Rightarrow> str list \<Rightarrow> bool" where
  "path_member p ps = list_ex (path_eq p) ps"

record file_system =
  fs_canonicalize :: "str \<Rightarrow> str option"
  fs_is_dir :: "str \<Rightarrow> bool"
  fs_exists :: "str \<Rightarrow> bool"

text \<open>\<open>expand_home_path\<close> of \<open>crates/squeezy-core/src/lib.rs\<close> for a given home directory.\<close>

definition expand_home_path :: "str option \<Rightarrow> str \<Rightarrow> str" where
  "expand_home_path home p =
     (if p = lit ''~'' then (case home of None \<Rightarrow> p | Some h \<Rightarrow> h)
      else case strip_prefix p (lit ''~/'') of
             Some rest \<Rightarrow> (case home of None \<Rightarrow> p | Some h \<Rightarrow> path_join h rest)
           | None \<Rightarrow> p)"

end
