(* ===== verification/SandboxConfig.thy ===== *)
theory SandboxConfig
  imports Paths PermissionTypes
begin

text \<open>
  Configuration of the AI reviewer and of the shell sandbox, \<open>crates/squeezy-core/src/lib.rs\<close>: the
  layered settings, their merge, and the validation that turns settings into a configuration or a
  configuration error.  File-system answers come from a \<open>file_system\<close>, the home directory from the
  environment.
\<close>

datatype config_error =
    ReviewerTimeoutOutOfRange u64
  | ReviewerTranscriptOutOfRange u64
  | InvalidCapability str
  | InvalidSandboxMode str
  | InvalidSandboxNetwork str
  | KillGraceOutOfRange u64
  | BadEnvPattern str
  | BadSensitivePattern str
  | EmptyRoot
  | RelativeRoot str
  | InaccessibleRoot str
  | RootNotDirectory str
  | RootSensitive str str
  | DuplicateRoot str
  | BadMetadataName str
  | InvalidSandboxLevel str
  | BadSocketEntry str
  | BadLinuxShell str
  | RuleError str

type_synonym 'a config_result = "config_error + 'a"

definition bind_result :: "'a config_result \<Rightarrow> ('a \<Rightarrow> 'b config_result) \<Rightarrow> 'b config_result" where
  "bind_result r f = (case r of Inl e \<Rightarrow> Inl e | Inr a \<Rightarrow> f a)"

lemma bind_result_Inr_iff [simp]:
  "bind_result r f = Inr b \<longleftrightarrow> (\<exists>a. r = Inr a \<and> f a = Inr b)"
  by (simp add: bind_result_def split: sum.split)

lemma bind_resultE:
  assumes "bind_result r f = Inr b" obtains a where "r = Inr a" "f a = Inr b"
  using assms by auto

text \<open>\<open>replace_if_some\<close> and \<open>replace_if_some_value\<close>, and the union merge of string lists.\<close>

definition replace_if_some :: "'a option \<Rightarrow> 'a option \<Rightarrow> 'a option" where
  "replace_if_some target nxt = (case nxt of None \<Rightarrow> target | Some _ \<Rightarrow> nxt)"

definition replace_if_some_value :: "'a \<Rightarrow> 'a option \<Rightarrow> 'a" where
  "replace_if_some_value target nxt = (case nxt of None \<Rightarrow> target | Some v \<Rightarrow> v)"

definition push_new :: "'a \<Rightarrow> 'a list \<Rightarrow> 'a list" where
  "push_new v vs = (if v \<in> set vs then vs else vs @ [v])"

definition merge_string_lists :: "str list option \<Rightarrow> str list option \<Rightarrow> str list option" where
  "merge_string_lists target nxt =
     (case nxt of None \<Rightarrow> target
      | Some n \<Rightarrow> (case target of None \<Rightarrow> Some n | Some existing \<Rightarrow> Some (fold push_new n existing)))"

definition merge_option :: "('a \<Rightarrow> 'a \<Rightarrow> 'a) \<Rightarrow> 'a option \<Rightarrow> 'a option \<Rightarrow> 'a option" where
  "merge_option merge target nxt =
     (case nxt of None \<Rightarrow> target
      | Some n \<Rightarrow> (case target of None \<Rightarrow> Some n | Some existing \<Rightarrow> Some (merge existing n)))"

lemma set_fold_push_new [simp]: "set (fold push_new ns vs) = set vs \<union> set ns"
  by (induction ns arbitrary: vs) (auto simp: push_new_def)

lemma distinct_fold_push_new [simp]: "distinct (fold push_new ns vs) \<longleftrightarrow> distinct vs"
proof (induction ns arbitrary: vs)
  case (Cons n ns)
  have "distinct (push_new n vs) \<longleftrightarrow> distinct vs" by (simp add: push_new_def)
  with Cons show ?case by simp
qed simp

section \<open>AI reviewer\<close>

record ai_reviewer_settings =
  ars_enabled :: "bool option"
  ars_model :: "str option"
  ars_allow_capabilities :: "str list option"
  ars_policy_file :: "str option"
  ars_policy :: "str option"
  ars_timeout_secs :: "u64 option"
  ars_max_transcript_tokens :: "u64 option"

definition merge_ai_reviewer_settings ::
  "ai_reviewer_settings \<Rightarrow> ai_reviewer_settings \<Rightarrow> ai_reviewer_settings" where
  "merge_ai_reviewer_settings s n =
     \<lparr>ars_enabled = replace_if_some (ars_enabled s) (ars_enabled n),
      ars_model = replace_if_some (ars_model s) (ars_model n),
      ars_allow_capabilities = replace_if_some (ars_allow_capabilities s) (ars_allow_capabilities n),
      ars_policy_file = replace_if_some (ars_policy_file s) (ars_policy_file n),
      ars_policy = replace_if_some (ars_policy s) (ars_policy n),
      ars_timeout_secs = replace_if_some (ars_timeout_secs s) (ars_timeout_secs n),
      ars_max_transcript_tokens =
        replace_if_some (ars_max_transcript_tokens s) (ars_max_transcript_tokens n)\<rparr>"

record ai_reviewer_config =
  arc_enabled :: bool
  arc_model :: "str option"
  arc_allow_capabilities :: "capability list"
  arc_policy_file :: "str option"
  arc_policy :: "str option"
  arc_timeout_secs :: u64
  arc_max_transcript_tokens :: u64

definition default_ai_reviewer :: ai_reviewer_config where
  "default_ai_reviewer =
     \<lparr>arc_enabled = False, arc_model = None, arc_allow_capabilities = [Read, Search],
      arc_policy_file = None, arc_policy = None, arc_timeout_secs = 15,
      arc_max_transcript_tokens = 4000\<rparr>"

text \<open>A trimmed setting replaces the default unless it is blank.\<close>

definition trimmed_setting :: "str option \<Rightarrow> str option \<Rightarrow> str option" where
  "trimmed_setting current setting =
     (case setting of None \<Rightarrow> current
      | Some raw \<Rightarrow> if trim raw = [] then current else Some (trim raw))"

fun parse_capabilities :: "str list \<Rightarrow> capability list \<Rightarrow> capability list config_result" where
  "parse_capabilities [] parsed = Inr parsed"
| "parse_capabilities (c # cs) parsed =
     (case capability_parse c of None \<Rightarrow> Inl (InvalidCapability c)
      | Some cap \<Rightarrow> parse_capabilities cs (push_new cap parsed))"

definition ai_reviewer_from_settings ::
  "str option \<Rightarrow> ai_reviewer_settings option \<Rightarrow> ai_reviewer_config config_result" where
  "ai_reviewer_from_settings home settings =
     (case settings of None \<Rightarrow> Inr default_ai_reviewer
      | Some s \<Rightarrow>
          let config = default_ai_reviewer
                \<lparr>arc_enabled := replace_if_some_value (arc_enabled default_ai_reviewer) (ars_enabled s),
                 arc_model := trimmed_setting (arc_model default_ai_reviewer) (ars_model s),
                 arc_policy_file :=
                   (case trimmed_setting None (ars_policy_file s) of
                      None \<Rightarrow> arc_policy_file default_ai_reviewer
                    | Some p \<Rightarrow> Some (expand_home_path home p)),
                 arc_policy := trimmed_setting (arc_policy default_ai_reviewer) (ars_policy s)\<rparr>
          in bind_result
               (case ars_timeout_secs s of None \<Rightarrow> Inr config
                | Some t \<Rightarrow> if \<not> (1 \<le> t \<and> t \<le> 120) then Inl (ReviewerTimeoutOutOfRange t)
                            else Inr (config\<lparr>arc_timeout_secs := t\<rparr>))
               (\<lambda>config. bind_result
                  (case ars_max_transcript_tokens s of None \<Rightarrow> Inr config
                   | Some m \<Rightarrow> if \<not> (512 \<le> m \<and> m \<le> 32000) then Inl (ReviewerTranscriptOutOfRange m)
                               else Inr (config\<lparr>arc_max_transcript_tokens := m\<rparr>))
                  (\<lambda>config.
                     case ars_allow_capabilities s of None \<Rightarrow> Inr config
                     | Some caps \<Rightarrow>
                         bind_result (parse_capabilities caps [])
                           (\<lambda>parsed. Inr (config\<lparr>arc_allow_capabilities := parsed\<rparr>)))))"

section \<open>Shell sandbox\<close>

datatype sandbox_mode = Required | BestEffort | SandboxOff | External

definition sandbox_mode_parse :: "str \<Rightarrow> sandbox_mode option" where
  "sandbox_mode_parse value =
     (let v = to_lower (trim value)
      in if v = lit ''required'' then Some Required
         else if one_of v [''best_effort'', ''best-effort''] then Some BestEffort
         else if one_of v [''off'', ''disabled''] then Some SandboxOff
         else if one_of v [''external'', ''external_sandbox'', ''external-sandbox''] then Some External
         else None)"

fun sandbox_mode_as_str :: "sandbox_mode \<Rightarrow> str" where
  "sandbox_mode_as_str Required = lit ''required''"
| "sandbox_mode_as_str BestEffort = lit ''best_effort''"
| "sandbox_mode_as_str SandboxOff = lit ''off''"
| "sandbox_mode_as_str External = lit ''external''"

datatype sandbox_network = DenyByDefault | AllowWhenApproved

definition sandbox_network_parse :: "str \<Rightarrow> sandbox_network option" where
  "sandbox_network_parse value =
     (let v = to_lower (trim value)
      in if one_of v [''deny_by_default'', ''deny-by-default''] then Some DenyByDefault
         else if one_of v [''allow_when_approved'', ''allow-when-approved''] then Some AllowWhenApproved
         else None)"

fun sandbox_network_as_str :: "sandbox_network \<Rightarrow> str" where
  "sandbox_network_as_str DenyByDefault = lit ''deny_by_default''"
| "sandbox_network_as_str AllowWhenApproved = lit ''allow_when_approved''"

datatype sandbox_level = LevelDisabled | RestrictedToken | Elevated

definition sandbox_level_parse :: "str \<Rightarrow> sandbox_level option" where
  "sandbox_level_parse value =
     (let v = to_lower (trim value)
      in if one_of v [''disabled'', ''off'', ''none''] then Some LevelDisabled
         else if one_of v [''restricted_token'', ''restricted-token'', ''restricted''] then Some RestrictedToken
         else if v = lit ''elevated'' then Some Elevated
         else None)"

fun sandbox_level_as_str :: "sandbox_level \<Rightarrow> str" where
  "sandbox_level_as_str LevelDisabled = lit ''disabled''"
| "sandbox_level_as_str RestrictedToken = lit ''restricted_token''"
| "sandbox_level_as_str Elevated = lit ''elevated''"

interpretation sandbox_mode_enum: parsed_enum sandbox_mode_parse sandbox_mode_as_str
proof
  show "sandbox_mode_parse (sandbox_mode_as_str x) = Some x" for x
    by (cases x) (simp_all add: sandbox_mode_parse_def enum_eval)
qed (simp add: sandbox_mode_parse_def)

interpretation sandbox_network_enum: parsed_enum sandbox_network_parse sandbox_network_as_str
proof
  show "sandbox_network_parse (sandbox_network_as_str x) = Some x" for x
    by (cases x) (simp_all add: sandbox_network_parse_def enum_eval)
qed (simp add: sandbox_network_parse_def)

interpretation sandbox_level_enum: parsed_enum sandbox_level_parse sandbox_level_as_str
proof
  show "sandbox_level_parse (sandbox_level_as_str x) = Some x" for x
    by (cases x) (simp_all add: sandbox_level_parse_def enum_eval)
qed (simp add: sandbox_level_parse_def)

record sandbox_settings =
  ss_mode :: "str option"
  ss_network :: "str option"
  ss_audit :: "bool option"
  ss_kill_grace_ms :: "u64 option"
  ss_env_allowlist :: "str list option"
  ss_read_roots :: "str list option"
  ss_write_roots :: "str list option"
  ss_protected_metadata_names :: "str list option"
  ss_sensitive_path_patterns :: "str list option"
  ss_replace_sensitive_path_patterns :: "bool option"
  ss_windows_sandbox_level :: "str option"
  ss_macos_socket_domain_allowlist :: "str list option"
  ss_linux_shell :: "str option"

definition merge_sandbox_settings :: "sandbox_settings \<Rightarrow> sandbox_settings \<Rightarrow> sandbox_settings" where
  "merge_sandbox_settings s n =
     \<lparr>ss_mode = replace_if_some (ss_mode s) (ss_mode n),
      ss_network = replace_if_some (ss_network s) (ss_network n),
      ss_audit = replace_if_some (ss_audit s) (ss_audit n),
      ss_kill_grace_ms = replace_if_some (ss_kill_grace_ms s) (ss_kill_grace_ms n),
      ss_env_allowlist = replace_if_some (ss_env_allowlist s) (ss_env_allowlist n),
      ss_read_roots = merge_string_lists (ss_read_roots s) (ss_read_roots n),
      ss_write_roots = merge_string_lists (ss_write_roots s) (ss_write_roots n),
      ss_protected_metadata_names =
        replace_if_some (ss_protected_metadata_names s) (ss_protected_metadata_names n),
      ss_sensitive_path_patterns =
        replace_if_some (ss_sensitive_path_patterns s) (ss_sensitive_path_patterns n),
      ss_replace_sensitive_path_patterns =
        replace_if_some (ss_replace_sensitive_path_patterns s) (ss_replace_sensitive_path_patterns n),
      ss_windows_sandbox_level =
        replace_if_some (ss_windows_sandbox_level s) (ss_windows_sandbox_level n),
      ss_macos_socket_domain_allowlist =
        merge_string_lists (ss_macos_socket_domain_allowlist s) (ss_macos_socket_domain_allowlist n),
      ss_linux_shell = replace_if_some (ss_linux_shell s) (ss_linux_shell n)\<rparr>"

record sandbox_config =
  sc_mode :: sandbox_mode
  sc_network :: sandbox_network
  sc_audit :: bool
  sc_kill_grace_ms :: u64
  sc_env_allowlist :: "str list"
  sc_read_roots :: "str list"
  sc_write_roots :: "str list"
  sc_protected_metadata_names :: "str list"
  sc_sensitive_path_patterns :: "str list"
  sc_windows_sandbox_level :: sandbox_level
  sc_macos_socket_domain_allowlist :: "str list"
  sc_linux_shell :: "str option"

definition default_shell_env_allowlist :: "str list" where
  "default_shell_env_allowlist = map lit
     [''PATH'', ''HOME'', ''USER'', ''LOGNAME'', ''SHELL'', ''TERM'', ''LANG'', ''TMPDIR'', ''TEMP'',
      ''TMP'', ''CARGO_HOME'', ''RUSTUP_HOME'', ''RUSTFLAGS'', ''RUST_BACKTRACE'', ''SSL_CERT_FILE'',
      ''SSL_CERT_DIR'', ''NIX_SSL_CERT_FILE'', ''LC_*'']"

definition default_sensitive_path_patterns :: "str list" where
  "default_sensitive_path_patterns = map lit
     [''.ssh/**'', ''.aws/**'', ''.config/gh/**'', ''.netrc'', ''.gnupg/**'', ''.kube/**'',
      ''.docker/config.json'', ''.cargo/credentials*'', ''.npmrc'', ''.pypirc'', ''.env*'',
      ''.azure/**'', ''AppData/Roaming/gcloud/**'', ''AppData/Roaming/Microsoft/UserSecrets/**'',
      ''AppData/Roaming/Microsoft/Windows/PowerShell/**'', ''.nuget/credentials'',
      ''.password-store/**'', ''.config/sops/**'', ''.config/1Password/**'', ''.azure/**'',
      ''.config/gcloud/**'', ''.config/kube/**'']"

definition default_protected_metadata_names :: "str list" where
  "default_protected_metadata_names = map lit [''.git'', ''.squeezy'', ''.agents'']"

definition default_sandbox :: sandbox_config where
  "default_sandbox =
     \<lparr>sc_mode = BestEffort, sc_network = DenyByDefault, sc_audit = True, sc_kill_grace_ms = 250,
      sc_env_allowlist = default_shell_env_allowlist, sc_read_roots = [], sc_write_roots = [],
      sc_protected_metadata_names = default_protected_metadata_names,
      sc_sensitive_path_patterns = default_sensitive_path_patterns,
      sc_windows_sandbox_level = RestrictedToken, sc_macos_socket_domain_allowlist = [],
      sc_linux_shell = None\<rparr>"

subsection \<open>Validation\<close>

definition env_allowlist_pattern_ok :: "str \<Rightarrow> bool" where
  "env_allowlist_pattern_ok pattern =
     (let trimmed = trim pattern; star_count = length (filter (\<lambda>c. c = STAR) trimmed)
      in if trimmed = [] then False
         else if 1 < star_count \<or> (star_count = 1 \<and> \<not> ends_with trimmed [STAR]) then False
         else trimmed \<noteq> [STAR])"

definition sensitive_path_pattern_ok :: "str \<Rightarrow> bool" where
  "sensitive_path_pattern_ok pattern =
     (let trimmed = trim pattern; body = trim_start_matches (\<lambda>c. c = SLASH) trimmed
      in if trimmed = [] then False
         else if trimmed = [STAR] \<or> trimmed = [STAR, STAR] then False
         else length (takeWhile (\<lambda>c. c \<noteq> STAR \<and> c \<noteq> QMARK) body) \<noteq> 0)"

text \<open>
  \<open>sensitive_pattern_base\<close>: the third \<open>trim_end_matches\<close> strips repetitions of the text \<open>/**\<close>, which
  remain when the pattern ended in slashes.
\<close>

function strip_suffixes :: "str \<Rightarrow> str \<Rightarrow> str" where
  "strip_suffixes pat s =
     (if pat = [] then s
      else case strip_suffix s pat of None \<Rightarrow> s | Some rest \<Rightarrow> strip_suffixes pat rest)"
  by pat_completeness auto
termination
  by (relation "measure (\<lambda>(pat, s). length s)") (auto simp: strip_suffix_Some_iff)

declare strip_suffixes.simps [simp del]

definition sensitive_pattern_base :: "str \<Rightarrow> str" where
  "sensitive_pattern_base pattern =
     trim_start_matches (\<lambda>c. c = SLASH)
       (strip_suffixes (lit ''/**'')
         (trim_end_matches (\<lambda>c. c = SLASH)
           (trim_end_matches (\<lambda>c. c = STAR) (trim pattern))))"

record root_validation =
  rv_workspace_root :: str
  rv_home :: "str option"

definition root_validation_new :: "file_system \<Rightarrow> str option \<Rightarrow> str \<Rightarrow> root_validation" where
  "root_validation_new fs home workspace_root =
     \<lparr>rv_workspace_root =
        (case fs_canonicalize fs workspace_root of None \<Rightarrow> workspace_root | Some c \<Rightarrow> c),
      rv_home = map_option (\<lambda>h. case fs_canonicalize fs h of None \<Rightarrow> h | Some c \<Rightarrow> c) home\<rparr>"

fun root_sensitive_overlap :: "str \<Rightarrow> str list \<Rightarrow> root_validation \<Rightarrow> str option" where
  "root_sensitive_overlap root [] rv = None"
| "root_sensitive_overlap root (pattern # patterns) rv =
     (let base = sensitive_pattern_base pattern
      in if base = [] then root_sensitive_overlap root patterns rv
         else if path_starts_with root (path_join (rv_workspace_root rv) base)
         then Some (path_join (rv_workspace_root rv) base)
         else (case rv_home rv of
                 Some home \<Rightarrow>
                   if path_starts_with root (path_join home base) then Some (path_join home base)
                   else root_sensitive_overlap root patterns rv
               | None \<Rightarrow> root_sensitive_overlap root patterns rv))"

fun validate_roots ::
  "file_system \<Rightarrow> str option \<Rightarrow> str list \<Rightarrow> root_validation \<Rightarrow> str list \<Rightarrow> str list
     \<Rightarrow> str list config_result" where
  "validate_roots fs home patterns rv [] validated = Inr (sort_key path_components validated)"
| "validate_roots fs home patterns rv (raw # roots) validated =
     (let trimmed = trim raw; p = expand_home_path home trimmed
      in if trimmed = [] then Inl EmptyRoot
         else if \<not> path_is_absolute p then Inl (RelativeRoot trimmed)
         else case fs_canonicalize fs p of
                None \<Rightarrow> Inl (InaccessibleRoot p)
              | Some canonical \<Rightarrow>
                  if \<not> fs_is_dir fs canonical then Inl (RootNotDirectory canonical)
                  else case root_sensitive_overlap canonical patterns rv of
                         Some sensitive \<Rightarrow> Inl (RootSensitive canonical sensitive)
                       | None \<Rightarrow>
                           if path_member canonical validated then Inl (DuplicateRoot canonical)
                           else validate_roots fs home patterns rv roots (validated @ [canonical]))"

fun validate_metadata_names :: "str list \<Rightarrow> str list \<Rightarrow> str list config_result" where
  "validate_metadata_names [] validated = Inr validated"
| "validate_metadata_names (raw # names) validated =
     (let name = trim raw
      in if name = [] then Inl (BadMetadataName raw)
         else if SLASH \<in> set name \<or> BSLASH \<in> set name \<or> name = [DOT] \<or> name = [DOT, DOT]
         then Inl (BadMetadataName raw)
         else validate_metadata_names names (push_new name validated))"

definition reject_duplicate_roots :: "str list \<Rightarrow> str list \<Rightarrow> unit config_result" where
  "reject_duplicate_roots read_roots write_roots =
     (case List.find (\<lambda>r. path_member r write_roots) read_roots of
        Some r \<Rightarrow> Inl (DuplicateRoot r) | None \<Rightarrow> Inr ())"

definition check_all :: "('a \<Rightarrow> bool) \<Rightarrow> ('a \<Rightarrow> config_error) \<Rightarrow> 'a list \<Rightarrow> unit config_result" where
  "check_all ok err xs = (case List.find (\<lambda>x. \<not> ok x) xs of Some x \<Rightarrow> Inl (err x) | None \<Rightarrow> Inr ())"

text \<open>One step of \<open>from_settings\<close> per setting, each of the shape \<open>if let Some(v) = settings.v\<close>.\<close>

definition apply_setting ::
  "'v option \<Rightarrow> ('v \<Rightarrow> 'c \<Rightarrow> 'c config_result) \<Rightarrow> 'c \<Rightarrow> 'c config_result" where
  "apply_setting setting f config = (case setting of None \<Rightarrow> Inr config | Some v \<Rightarrow> f v config)"

definition set_sensitive_patterns :: "bool \<Rightarrow> str list \<Rightarrow> sandbox_config \<Rightarrow> sandbox_config config_result" where
  "set_sensitive_patterns replace_floor patterns config =
     bind_result (check_all sensitive_path_pattern_ok BadSensitivePattern patterns)
       (\<lambda>_. Inr (config\<lparr>sc_sensitive_path_patterns :=
          if replace_floor then patterns
          else fold push_new patterns (sc_sensitive_path_patterns config)\<rparr>))"

definition set_linux_shell :: "file_system \<Rightarrow> str \<Rightarrow> sandbox_config \<Rightarrow> sandbox_config config_result" where
  "set_linux_shell fs shell_path config =
     (if trim shell_path = [] then Inl (BadLinuxShell shell_path)
      else if \<not> starts_with shell_path [SLASH] then Inl (BadLinuxShell shell_path)
      else if \<not> fs_exists fs shell_path then Inl (BadLinuxShell shell_path)
      else Inr (config\<lparr>sc_linux_shell := Some shell_path\<rparr>))"

definition finish_roots :: "sandbox_config \<Rightarrow> sandbox_config config_result" where
  "finish_roots c =
     bind_result (reject_duplicate_roots (sc_read_roots c) (sc_write_roots c)) (\<lambda>_. Inr c)"

text \<open>The settings in the order the code applies them: those before the roots, then the rest.\<close>

fun run_steps :: "('c \<Rightarrow> 'c config_result) list \<Rightarrow> 'c \<Rightarrow> 'c config_result" where
  "run_steps [] c = Inr c"
| "run_steps (f # fs) c = bind_result (f c) (run_steps fs)"

definition early_steps :: "sandbox_settings \<Rightarrow> (sandbox_config \<Rightarrow> sandbox_config config_result) list" where
  "early_steps s =
     [apply_setting (ss_mode s) (\<lambda>m c. case sandbox_mode_parse m of
         None \<Rightarrow> Inl (InvalidSandboxMode m) | Some x \<Rightarrow> Inr (c\<lparr>sc_mode := x\<rparr>)),
      apply_setting (ss_network s) (\<lambda>n c. case sandbox_network_parse n of
         None \<Rightarrow> Inl (InvalidSandboxNetwork n) | Some x \<Rightarrow> Inr (c\<lparr>sc_network := x\<rparr>)),
      apply_setting (ss_audit s) (\<lambda>a c. Inr (c\<lparr>sc_audit := a\<rparr>)),
      apply_setting (ss_kill_grace_ms s) (\<lambda>k c.
         if \<not> (10 \<le> k \<and> k \<le> 60000) then Inl (KillGraceOutOfRange k)
         else Inr (c\<lparr>sc_kill_grace_ms := k\<rparr>)),
      apply_setting (ss_env_allowlist s) (\<lambda>e c.
         bind_result (check_all env_allowlist_pattern_ok BadEnvPattern e)
           (\<lambda>_. Inr (c\<lparr>sc_env_allowlist := e\<rparr>))),
      apply_setting (ss_sensitive_path_patterns s)
         (set_sensitive_patterns (ss_replace_sensitive_path_patterns s = Some True))]"

definition late_steps ::
  "file_system \<Rightarrow> str option \<Rightarrow> root_validation \<Rightarrow> sandbox_settings
     \<Rightarrow> (sandbox_config \<Rightarrow> sandbox_config config_result) list" where
  "late_steps fs home rv s =
     [apply_setting (ss_read_roots s) (\<lambda>r c.
         bind_result (validate_roots fs home (sc_sensitive_path_patterns c) rv r [])
           (\<lambda>v. Inr (c\<lparr>sc_read_roots := v\<rparr>))),
      apply_setting (ss_write_roots s) (\<lambda>w c.
         bind_result (validate_roots fs home (sc_sensitive_path_patterns c) rv w [])
           (\<lambda>v. Inr (c\<lparr>sc_write_roots := v\<rparr>))),
      apply_setting (ss_protected_metadata_names s) (\<lambda>n c.
         bind_result (validate_metadata_names n [])
           (\<lambda>v. Inr (c\<lparr>sc_protected_metadata_names := v\<rparr>))),
      apply_setting (ss_windows_sandbox_level s) (\<lambda>l c. case sandbox_level_parse l of
         None \<Rightarrow> Inl (InvalidSandboxLevel l) | Some x \<Rightarrow> Inr (c\<lparr>sc_windows_sandbox_level := x\<rparr>)),
      apply_setting (ss_macos_socket_domain_allowlist s) (\<lambda>a c.
         bind_result (check_all (\<lambda>e. starts_with e [SLASH]) BadSocketEntry a)
           (\<lambda>_. Inr (c\<lparr>sc_macos_socket_domain_allowlist := a\<rparr>))),
      apply_setting (ss_linux_shell s) (set_linux_shell fs)]"

definition sandbox_from_settings ::
  "file_system \<Rightarrow> str option \<Rightarrow> str \<Rightarrow> sandbox_settings option \<Rightarrow> sandbox_config config_result" where
  "sandbox_from_settings fs home workspace_root settings =
     (case settings of None \<Rightarrow> Inr default_sandbox
      | Some s \<Rightarrow>
          let rv = root_validation_new fs home workspace_root
          in bind_result (run_steps (early_steps s) default_sandbox)
               (\<lambda>c. bind_result (run_steps (late_steps fs home rv s) c) finish_roots))"

section \<open>What a validated sandbox configuration guarantees\<close>

lemma apply_setting_Inr_iff:
  "apply_setting setting f c = Inr c' \<longleftrightarrow>
     (setting = None \<and> c' = c) \<or> (\<exists>v. setting = Some v \<and> f v c = Inr c')"
  by (auto simp: apply_setting_def split: option.splits)

lemma validate_roots_sound:
  "validate_roots fs home patterns rv roots validated = Inr out \<Longrightarrow>
     (\<forall>r \<in> set validated. fs_is_dir fs r \<and> root_sensitive_overlap r patterns rv = None) \<Longrightarrow>
     (\<forall>r \<in> set out. fs_is_dir fs r \<and> root_sensitive_overlap r patterns rv = None)"
proof (induction fs home patterns rv roots validated rule: validate_roots.induct)
  case (2 fs home patterns rv raw roots validated)
  let ?p = "expand_home_path home (trim raw)"
  from "2.prems"(1) obtain canonical where c: "trim raw \<noteq> []" "path_is_absolute ?p"
      "fs_canonicalize fs ?p = Some canonical" "fs_is_dir fs canonical"
      "root_sensitive_overlap canonical patterns rv = None" "\<not> path_member canonical validated"
    and run: "validate_roots fs home patterns rv roots (validated @ [canonical]) = Inr out"
    by (auto simp: Let_def split: if_splits option.splits)
  show ?case
    by (rule "2.IH" [OF refl refl _ _ c(3) _ c(5,6) run]) (use c "2.prems"(2) in auto)
qed auto

lemma validate_metadata_names_sound:
  "validate_metadata_names names validated = Inr out \<Longrightarrow>
     (\<forall>n \<in> set validated. n \<noteq> [] \<and> SLASH \<notin> set n) \<Longrightarrow> (\<forall>n \<in> set out. n \<noteq> [] \<and> SLASH \<notin> set n)"
proof (induction names validated rule: validate_metadata_names.induct)
  case (2 raw names validated)
  from "2.prems"(1) have n: "trim raw \<noteq> []" "SLASH \<notin> set (trim raw)"
    and more: "\<not> (SLASH \<in> set (trim raw) \<or> BSLASH \<in> set (trim raw) \<or> trim raw = [DOT] \<or> trim raw = [DOT, DOT])"
    and run: "validate_metadata_names names (push_new (trim raw) validated) = Inr out"
    by (auto simp: Let_def split: if_splits)
  show ?case
    by (rule "2.IH" [OF refl n(1) more run]) (use n "2.prems"(2) in \<open>auto simp: push_new_def\<close>)
qed simp

definition sandbox_ok :: "file_system \<Rightarrow> root_validation \<Rightarrow> bool \<Rightarrow> sandbox_config \<Rightarrow> bool" where
  "sandbox_ok fs rv floor c \<longleftrightarrow>
     10 \<le> sc_kill_grace_ms c \<and> sc_kill_grace_ms c \<le> 60000
     \<and> (floor \<longrightarrow> set default_sensitive_path_patterns \<subseteq> set (sc_sensitive_path_patterns c))
     \<and> (\<forall>r \<in> set (sc_read_roots c) \<union> set (sc_write_roots c).
           fs_is_dir fs r \<and> root_sensitive_overlap r (sc_sensitive_path_patterns c) rv = None)
     \<and> (\<forall>n \<in> set (sc_protected_metadata_names c). n \<noteq> [] \<and> SLASH \<notin> set n)"

definition no_roots :: "sandbox_config \<Rightarrow> bool" where
  "no_roots c \<longleftrightarrow> sc_read_roots c = [] \<and> sc_write_roots c = []"

lemma default_sandbox_ok: "sandbox_ok fs rv floor default_sandbox \<and> no_roots default_sandbox"
  by (simp add: sandbox_ok_def no_roots_def default_sandbox_def default_protected_metadata_names_def lit_def)

lemma run_steps_preserves:
  assumes "run_steps fs c = Inr c'" "P c" "\<forall>f \<in> set fs. \<forall>c c'. P c \<longrightarrow> f c = Inr c' \<longrightarrow> P c'"
  shows "P c'"
  using assms
proof (induction fs arbitrary: c)
  case (Cons f fs)
  from Cons.prems(1) obtain d where d: "f c = Inr d" "run_steps fs d = Inr c'" by auto
  have "P d" using Cons.prems(2,3) d(1) by (meson list.set_intros(1))
  show ?case by (rule Cons.IH [OF d(2) \<open>P d\<close> conjunct2 [OF Cons.prems(3) [unfolded list.set ball_simps]]])
qed simp

lemma apply_setting_preserves:
  assumes "\<And>v c c'. P c \<Longrightarrow> f v c = Inr c' \<Longrightarrow> P c'"
  shows "\<forall>c c'. P c \<longrightarrow> apply_setting setting f c = Inr c' \<longrightarrow> P c'"
  using assms by (auto simp: apply_setting_Inr_iff)

lemma set_sensitive_patterns_ok:
  assumes run: "set_sensitive_patterns rep ps c = Inr c'" and ok: "sandbox_ok fs rv (\<not> rep) c \<and> no_roots c"
  shows "sandbox_ok fs rv (\<not> rep) c' \<and> no_roots c'"
proof -
  from run have c': "c' = c\<lparr>sc_sensitive_path_patterns :=
      if rep then ps else fold push_new ps (sc_sensitive_path_patterns c)\<rparr>"
    by (auto simp: set_sensitive_patterns_def)
  have floor: "\<not> rep \<longrightarrow> set default_sensitive_path_patterns \<subseteq> set (sc_sensitive_path_patterns c)"
    and grace: "10 \<le> sc_kill_grace_ms c \<and> sc_kill_grace_ms c \<le> 60000"
    and names: "\<forall>n \<in> set (sc_protected_metadata_names c). n \<noteq> [] \<and> SLASH \<notin> set n"
    and roots: "sc_read_roots c = []" "sc_write_roots c = []"
    using ok unfolding sandbox_ok_def no_roots_def by blast+
  have "\<not> rep \<longrightarrow> set default_sensitive_path_patterns \<subseteq> set (sc_sensitive_path_patterns c')"
    using floor unfolding c' by (cases rep) (simp_all add: le_supI1)
  then show ?thesis using grace names roots unfolding sandbox_ok_def no_roots_def by (simp add: c')
qed

lemma set_roots_ok:
  assumes "validate_roots fs home (sc_sensitive_path_patterns c) rv roots [] = Inr v" "sandbox_ok fs rv floor c"
  shows "sandbox_ok fs rv floor (c\<lparr>sc_read_roots := v\<rparr>)" "sandbox_ok fs rv floor (c\<lparr>sc_write_roots := v\<rparr>)"
  using validate_roots_sound [OF assms(1)] assms(2) by (simp_all add: sandbox_ok_def ball_Un)

lemma set_names_ok:
  assumes "validate_metadata_names names [] = Inr v" "sandbox_ok fs rv floor c"
  shows "sandbox_ok fs rv floor (c\<lparr>sc_protected_metadata_names := v\<rparr>)"
  using validate_metadata_names_sound [OF assms(1)] assms(2) by (simp add: sandbox_ok_def)

lemma sandbox_ok_other [simp]:
  "sandbox_ok fs rv fl (c\<lparr>sc_mode := a\<rparr>) = sandbox_ok fs rv fl c"
  "sandbox_ok fs rv fl (c\<lparr>sc_network := b\<rparr>) = sandbox_ok fs rv fl c"
  "sandbox_ok fs rv fl (c\<lparr>sc_audit := d\<rparr>) = sandbox_ok fs rv fl c"
  "sandbox_ok fs rv fl (c\<lparr>sc_env_allowlist := e\<rparr>) = sandbox_ok fs rv fl c"
  "sandbox_ok fs rv fl (c\<lparr>sc_windows_sandbox_level := l\<rparr>) = sandbox_ok fs rv fl c"
  "sandbox_ok fs rv fl (c\<lparr>sc_macos_socket_domain_allowlist := m\<rparr>) = sandbox_ok fs rv fl c"
  "sandbox_ok fs rv fl (c\<lparr>sc_linux_shell := s\<rparr>) = sandbox_ok fs rv fl c"
  by (simp_all add: sandbox_ok_def)

lemma no_roots_other [simp]:
  "no_roots (c\<lparr>sc_mode := a\<rparr>) = no_roots c"
  "no_roots (c\<lparr>sc_network := b\<rparr>) = no_roots c"
  "no_roots (c\<lparr>sc_audit := d\<rparr>) = no_roots c"
  "no_roots (c\<lparr>sc_env_allowlist := e\<rparr>) = no_roots c"
  "no_roots (c\<lparr>sc_kill_grace_ms := k\<rparr>) = no_roots c"
  by (simp_all add: no_roots_def)

lemma set_kill_grace_ok:
  "sandbox_ok fs rv fl c \<Longrightarrow> 10 \<le> k \<Longrightarrow> k \<le> 60000 \<Longrightarrow> sandbox_ok fs rv fl (c\<lparr>sc_kill_grace_ms := k\<rparr>)"
  by (simp add: sandbox_ok_def)

lemma set_linux_shell_ok:
  "set_linux_shell fs' sh c = Inr c' \<Longrightarrow> sandbox_ok fs rv floor c \<Longrightarrow> sandbox_ok fs rv floor c'"
  by (auto simp: set_linux_shell_def split: if_splits)

lemma early_steps_preserve:
  "\<forall>f \<in> set (early_steps s). \<forall>c c'.
     sandbox_ok fs rv (ss_replace_sensitive_path_patterns s \<noteq> Some True) c \<and> no_roots c \<longrightarrow> f c = Inr c' \<longrightarrow>
     sandbox_ok fs rv (ss_replace_sensitive_path_patterns s \<noteq> Some True) c' \<and> no_roots c'"
  (is "\<forall>f \<in> _. \<forall>c c'. ?P c \<longrightarrow> _ \<longrightarrow> ?P c'")
proof -
  note keep = apply_setting_preserves [where P = ?P]
  show ?thesis unfolding early_steps_def list.set ball_simps
    by (intro conjI keep TrueI; (rule set_sensitive_patterns_ok, assumption, assumption)?)
       (auto simp: set_kill_grace_ok split: option.splits if_splits dest: set_sensitive_patterns_ok)
qed

lemma late_steps_preserve:
  "\<forall>f \<in> set (late_steps fs home rv s). \<forall>c c'.
     sandbox_ok fs rv floor c \<longrightarrow> f c = Inr c' \<longrightarrow> sandbox_ok fs rv floor c'"
  unfolding late_steps_def list.set ball_simps
  by (intro conjI apply_setting_preserves TrueI)
     (auto simp: set_roots_ok set_names_ok set_linux_shell_ok split: option.splits)

lemma finish_roots_sound:
  "finish_roots c = Inr c' \<Longrightarrow> c' = c \<and> (\<forall>r \<in> set (sc_read_roots c). \<not> path_member r (sc_write_roots c))"
  by (auto simp: finish_roots_def reject_duplicate_roots_def find_None_iff split: option.splits)



end
