(* ===== verification/Safety.thy ===== *)
theory Safety
  imports WriteTargets SandboxConfig
begin

text \<open>
  The structural safety floor, \<open>crates/squeezy-tools/src/safety.rs\<close> (pre-classification of shell
  commands, write-path assessment) with the sensitive-path and protected-metadata matchers of
  \<open>crates/squeezy-tools/src/shell.rs\<close>.  The process environment is the parameter \<open>env\<close>.
\<close>

section \<open>Sensitive paths\<close>

text \<open>The \<open>%VAR%\<close> and \<open>$env:VAR\<close> roots, in the order tried.\<close>

definition windows_roots :: "(string \<times> string \<times> string) list" where
  "windows_roots =
     [(''%USERPROFILE%'', ''$env:USERPROFILE'', ''USERPROFILE''),
      (''%APPDATA%'', ''$env:APPDATA'', ''APPDATA''),
      (''%LOCALAPPDATA%'', ''$env:LOCALAPPDATA'', ''LOCALAPPDATA''),
      (''%HOME%'', ''$env:HOME'', ''HOME'')]"

definition expand_windows_prefix :: "str \<Rightarrow> str \<Rightarrow> str \<Rightarrow> str option" where
  "expand_windows_prefix token value prfx =
     (case strip_prefix (to_lower token) (to_lower prfx @ [SLASH]) of
        Some rest \<Rightarrow> Some (value @ [SLASH] @ drop (length token - length rest) token)
      | None \<Rightarrow> if to_lower token = to_lower prfx then Some value else None)"

definition expand_windows_root :: "environment \<Rightarrow> str \<Rightarrow> string \<times> string \<times> string \<Rightarrow> str option" where
  "expand_windows_root env token = (\<lambda>(cmd_var, ps_var, env_key).
     (let value = (case env (lit env_key) of None \<Rightarrow> [] | Some v \<Rightarrow> replace_char BSLASH SLASH v)
      in if value = [] then None
         else first_some (\<lambda>p. expand_windows_prefix token value (lit p)) [cmd_var, ps_var]))"

definition expand_home_form :: "str \<Rightarrow> str \<Rightarrow> string \<Rightarrow> str option" where
  "expand_home_form home token form =
     (case strip_prefix token (lit form @ [SLASH]) of
        Some rest \<Rightarrow> Some (home @ [SLASH] @ rest)
      | None \<Rightarrow> if token = lit form then Some home else None)"

definition normalize_path_token :: "environment \<Rightarrow> str \<Rightarrow> str option \<Rightarrow> str" where
  "normalize_path_token env raw home =
     (let token = replace_char BSLASH SLASH raw;
          unix = (case home of None \<Rightarrow> None
                  | Some h \<Rightarrow> first_some (expand_home_form h token) [''$HOME'', ''${HOME}'', ''~''])
      in case unix of Some t \<Rightarrow> t
         | None \<Rightarrow>
             (case first_some (expand_windows_root env token) windows_roots of
                Some t \<Rightarrow> t | None \<Rightarrow> token))"

definition piece_matches_base :: "str \<Rightarrow> str \<Rightarrow> bool" where
  "piece_matches_base base piece =
     (piece = base
      \<or> (case strip_prefix piece base of None \<Rightarrow> False
          | Some rest \<Rightarrow> rest = [] \<or> starts_with rest [DOT] \<or> starts_with rest [DASH]
                         \<or> starts_with rest [UNDERSCORE]))"

definition token_contains_sensitive_base :: "str \<Rightarrow> str \<Rightarrow> bool" where
  "token_contains_sensitive_base token base =
     (if token = base then True
      else list_ex (piece_matches_base (trim_end_matches (\<lambda>c. c = SLASH) base))
             (split_on (\<lambda>c. c = SLASH) (trim_start_matches (\<lambda>c. c = SLASH) token)))"

definition needle_follow_ok :: "str \<Rightarrow> bool" where
  "needle_follow_ok rest =
     (case rest of [] \<Rightarrow> True
      | c # _ \<Rightarrow> c \<in> {SLASH, SPACE, TAB, 0, DQUOTE, SQUOTE} \<or> c \<in> {DOT, DASH, UNDERSCORE})"

definition normalized_command_references_base :: "str \<Rightarrow> str \<Rightarrow> bool" where
  "normalized_command_references_base command base =
     list_ex (\<lambda>needle. case find_str command needle of None \<Rightarrow> False
                | Some idx \<Rightarrow> needle_follow_ok (drop (idx + length needle) command))
       [SLASH # base, SPACE # base, TAB # base]"

definition shell_command_references_sensitive_path ::
  "environment \<Rightarrow> str \<Rightarrow> str list \<Rightarrow> str option" where
  "shell_command_references_sensitive_path env command patterns =
     (case first_some (\<lambda>raw.
             let normalized = normalize_path_token env (dequote_token raw) (env (lit ''HOME''))
             in List.find (\<lambda>pattern. sensitive_pattern_base pattern \<noteq> []
                     \<and> token_contains_sensitive_base normalized (sensitive_pattern_base pattern)) patterns)
           (tokenize_shell_segment command) of
        Some pattern \<Rightarrow> Some pattern
      | None \<Rightarrow>
          List.find (\<lambda>pattern. sensitive_pattern_base pattern \<noteq> []
              \<and> normalized_command_references_base (replace_char BSLASH SLASH command)
                  (sensitive_pattern_base pattern)) patterns)"

section \<open>Protected metadata in commands\<close>

definition shell_command_references_protected_metadata :: "str \<Rightarrow> str list \<Rightarrow> str option" where
  "shell_command_references_protected_metadata command protected_names =
     (if protected_names = [] then None
      else case first_some (\<lambda>raw. List.find (\<lambda>part. part \<in> set protected_names)
                  (split_on (\<lambda>c. c = SLASH) (replace_char BSLASH SLASH (dequote_token raw))))
                (tokenize_shell_segment command) of
             Some part \<Rightarrow> Some part
           | None \<Rightarrow>
               List.find (\<lambda>name. list_ex (\<lambda>token. list_ex
                     (\<lambda>part. trim_matches (\<lambda>c. c = DQUOTE) part = name) (split_on (\<lambda>c. c = SLASH) token))
                   (split_ws (replace_char BSLASH SLASH command))) protected_names)"

definition shell_segment_writes_filesystem :: "str \<Rightarrow> bool" where
  "shell_segment_writes_filesystem segment =
     (if is_destructive_shell_segment segment then True
      else
        (let tokens = map dequote_token (tokenize_shell_segment segment);
             first = (case tokens of [] \<Rightarrow> [] | t # _ \<Rightarrow> t)
         in if one_of first [''chmod'', ''cp'', ''install'', ''ln'', ''mkdir'', ''mktemp'', ''mv'',
                             ''rsync'', ''tee'', ''touch''] then True
            else first = lit ''sed''
                 \<and> list_ex (\<lambda>t. t = lit ''-i'' \<or> starts_with t (lit ''-i.'')) tokens))"

definition shell_command_writes_protected_metadata ::
  "ts_parser \<Rightarrow> str \<Rightarrow> str list \<Rightarrow> str option" where
  "shell_command_writes_protected_metadata parse command protected_names =
     (case shell_command_references_protected_metadata command protected_names of None \<Rightarrow> None
      | Some name \<Rightarrow>
          (let raw_segments =
                 (case parse_shell_command parse command of
                    Some parsed \<Rightarrow> if psc_segments parsed \<noteq> [] then psc_segments parsed
                                   else shell_segments command
                  | None \<Rightarrow> shell_segments command)
           in if list_ex shell_segment_writes_filesystem (expand_wrapper_segments raw_segments)
              then Some name else None))"

section \<open>Pre-classification\<close>

datatype shell_pre_classification = AutoAllow str | RequiresApproval str | AskAi

definition python_series_label :: "str \<Rightarrow> str option" where
  "python_series_label program =
     (if program = lit ''python'' then Some (lit ''python'')
      else case strip_prefix program (lit ''python'') of None \<Rightarrow> None
      | Some series \<Rightarrow>
          (let major = takeWhile (\<lambda>c. c \<noteq> DOT) series; rest = dropWhile (\<lambda>c. c \<noteq> DOT) series;
               bad = (case strip_prefix rest [DOT] of
                        Some minor \<Rightarrow> minor = [] \<or> \<not> list_all is_digit minor
                      | None \<Rightarrow> rest \<noteq> [])
           in if bad then None
              else if major = lit ''2'' then Some (lit ''python2'')
              else if major = lit ''3'' then Some (lit ''python3'')
              else None))"

definition interpreter_program_name :: "str \<Rightarrow> str" where
  "interpreter_program_name head =
     (let tail_piece = last (split_on (\<lambda>c. c = SLASH \<or> c = BSLASH) head);
          base = (if tail_piece = [] then head else tail_piece);
          cut = length base - 4
      in if 4 \<le> length base \<and> eq_ignore_case (drop cut base) (lit ''.exe'') then take cut base else base)"

definition is_env_like :: "str \<Rightarrow> bool" where
  "is_env_like tok =
     (case split_once EQUALS tok of None \<Rightarrow> False
      | Some (name, _) \<Rightarrow> name \<noteq> [] \<and> list_all (\<lambda>ch. ch = UNDERSCORE \<or> is_alnum ch) name)"

definition interpreter_label :: "str \<Rightarrow> str option" where
  "interpreter_label program =
     (if one_of program [''node'', ''deno'', ''ruby'', ''perl'', ''php'', ''lua'', ''tclsh'', ''osascript'',
                         ''eval'', ''exec'', ''sudo'', ''doas'']
      then Some program else python_series_label program)"

definition dangerous_interpreter :: "str \<Rightarrow> str option" where
  "dangerous_interpreter segment =
     (case dropWhile is_env_like (split_ws segment) of [] \<Rightarrow> None
      | head # tokens \<Rightarrow>
          (case interpreter_label (interpreter_program_name head) of None \<Rightarrow> None
           | Some interpreter \<Rightarrow>
               if one_of interpreter [''sudo'', ''doas'', ''eval'', ''exec''] then Some interpreter
               else if list_ex (\<lambda>tok. one_of tok [''-c'', ''-e'', ''-E'', ''-m'', ''--command'', ''--eval'', ''--code'']) tokens
               then Some interpreter else None))"

definition segment_approval_reason :: "str \<Rightarrow> str option" where
  "segment_approval_reason segment =
     (case destructive_shell_segment_reason segment of Some reason \<Rightarrow> Some reason
      | None \<Rightarrow> map_option (\<lambda>i. lit ''dangerous interpreter '' @ debug_str i) (dangerous_interpreter segment))"

definition pre_classify_shell :: "environment \<Rightarrow> str \<Rightarrow> sandbox_config \<Rightarrow> shell_pre_classification" where
  "pre_classify_shell env command sandbox =
     (let trimmed = trim command
      in if trimmed = [] then AskAi
         else case shell_command_references_sensitive_path env trimmed (sc_sensitive_path_patterns sandbox) of
                Some pattern \<Rightarrow> RequiresApproval (lit ''references sensitive path pattern '' @ debug_str pattern)
              | None \<Rightarrow>
                  if shell_segments trimmed = [] then AskAi
                  else
                    (let segments = expand_wrapper_segments (shell_segments trimmed)
                     in case first_some segment_approval_reason segments of
                          Some reason \<Rightarrow> RequiresApproval reason
                        | None \<Rightarrow>
                            if list_all is_read_only_shell_segment segments
                            then AutoAllow (lit ''read-only shell verbs'') else AskAi))"

section \<open>Write paths\<close>

datatype path_safety_error =
    OutsideWritableRoots "path_component list"
  | ProtectedMetadata "path_component list" str

fun path_safety_error_code :: "path_safety_error \<Rightarrow> str" where
  "path_safety_error_code (OutsideWritableRoots p) = lit ''patch_path_outside_roots''"
| "path_safety_error_code (ProtectedMetadata p name) = lit ''protected_metadata_path''"

text \<open>\<open>PathBuf::pop\<close> and \<open>PathBuf::push\<close> on the components of a path.\<close>

definition path_pop :: "path_component list \<Rightarrow> path_component list" where
  "path_pop p = (if p = [] \<or> last p = RootDir then p else butlast p)"

fun push_component :: "path_component list \<Rightarrow> path_component \<Rightarrow> path_component list" where
  "push_component p CurDir = p"
| "push_component p ParentDir = path_pop p"
| "push_component p RootDir = [RootDir]"
| "push_component p (Normal part) = p @ [Normal part]"

definition normalize_candidate :: "str \<Rightarrow> str \<Rightarrow> path_component list" where
  "normalize_candidate raw workspace_root =
     foldl push_component (if path_is_absolute raw then [] else path_components workspace_root)
       (path_components raw)"

definition comps_start_with :: "path_component list \<Rightarrow> str \<Rightarrow> bool" where
  "comps_start_with p root \<longleftrightarrow> take (length (path_components root)) p = path_components root"

definition is_under_writable_root :: "path_component list \<Rightarrow> str \<Rightarrow> sandbox_config \<Rightarrow> bool" where
  "is_under_writable_root p workspace_root sandbox \<longleftrightarrow>
     comps_start_with p workspace_root \<or> list_ex (comps_start_with p) (sc_write_roots sandbox)"

definition normal_part :: "path_component \<Rightarrow> str option" where
  "normal_part c = (case c of Normal part \<Rightarrow> Some part | _ \<Rightarrow> None)"

definition protected_metadata_component ::
  "path_component list \<Rightarrow> str \<Rightarrow> sandbox_config \<Rightarrow> str option" where
  "protected_metadata_component p workspace_root sandbox =
     (if sc_protected_metadata_names sandbox = [] then None
      else first_some (\<lambda>root.
             if \<not> comps_start_with p root then None
             else List.find (\<lambda>part. part \<in> set (sc_protected_metadata_names sandbox))
                    (List.map_filter normal_part (drop (length (path_components root)) p)))
           (workspace_root # sc_write_roots sandbox))"

definition assess_write_path ::
  "str \<Rightarrow> str \<Rightarrow> sandbox_config \<Rightarrow> path_safety_error + path_component list" where
  "assess_write_path raw workspace_root sandbox =
     (let normalized = normalize_candidate raw workspace_root
      in if \<not> is_under_writable_root normalized workspace_root sandbox
         then Inl (OutsideWritableRoots normalized)
         else case protected_metadata_component normalized workspace_root sandbox of
                Some name \<Rightarrow> Inl (ProtectedMetadata normalized name)
              | None \<Rightarrow> Inr normalized)"

definition path_targets_protected_metadata ::
  "path_component list \<Rightarrow> str \<Rightarrow> sandbox_config \<Rightarrow> str option" where
  "path_targets_protected_metadata p workspace_root sandbox =
     protected_metadata_component p workspace_root sandbox"

definition temp_dir_roots :: "environment \<Rightarrow> str list" where
  "temp_dir_roots env =
     List.map_filter (\<lambda>name. env (lit name)) [''TMPDIR'', ''TEMP'', ''TMP'']
     @ [lit ''/tmp'', lit ''/private/tmp'', lit ''/private/var/folders'']"

definition permission_writable_roots :: "environment \<Rightarrow> str \<Rightarrow> sandbox_config \<Rightarrow> str list" where
  "permission_writable_roots env workspace_root sandbox =
     workspace_root # temp_dir_roots env @ sc_write_roots sandbox"

definition path_escapes_permission_writable_roots ::
  "environment \<Rightarrow> str \<Rightarrow> str \<Rightarrow> sandbox_config \<Rightarrow> bool" where
  "path_escapes_permission_writable_roots env raw workspace_root sandbox =
     (if path_has_unresolved_var raw then True
      else \<not> list_ex (comps_start_with (normalize_candidate raw workspace_root))
              (permission_writable_roots env workspace_root sandbox))"

section \<open>Properties\<close>

lemma first_some_None_iff: "first_some f xs = None \<longleftrightarrow> (\<forall>x \<in> set xs. f x = None)"
  by (induction xs) (auto split: option.splits)

lemma first_some_SomeE:
  assumes "first_some f xs = Some y" obtains x where "x \<in> set xs" "f x = Some y"
  using assms by (induction xs) (auto split: option.splits)



text \<open>The pre-classifier does not look inside a command substitution: \<open>echo $(curl x)\<close> is one
  read-only segment to it and is auto-allowed, although the shell runs the network command inside.\<close>

theorem substitution_is_auto_allowed:
  "pre_classify_shell (\<lambda>_. None) (lit ''echo $(curl x)'') (default_sandbox\<lparr>sc_sensitive_path_patterns := []\<rparr>)
     = AutoAllow (lit ''read-only shell verbs'')
   \<and> is_network_shell_segment (lit ''curl x'')"
proof
  show "pre_classify_shell (\<lambda>_. None) (lit ''echo $(curl x)'') (default_sandbox\<lparr>sc_sensitive_path_patterns := []\<rparr>)
     = AutoAllow (lit ''read-only shell verbs'')" by code_simp
  show "is_network_shell_segment (lit ''curl x'')" by code_simp
qed

section \<open>Normalised paths\<close>

text \<open>A resolved path: no \<open>.\<close> and no \<open>..\<close> left, the root only in front.\<close>

definition resolved :: "path_component list \<Rightarrow> bool" where
  "resolved p \<longleftrightarrow> ParentDir \<notin> set p \<and> CurDir \<notin> set p \<and> RootDir \<notin> set (drop 1 p)"

lemma resolved_Nil [simp]: "resolved []" and resolved_root [simp]: "resolved [RootDir]"
  by (simp_all add: resolved_def)

lemma resolved_pop: "resolved p \<Longrightarrow> resolved (path_pop p)"
  by (cases p rule: rev_cases) (auto simp: resolved_def path_pop_def dest: in_set_dropD)

lemma resolved_push: "resolved p \<Longrightarrow> resolved (push_component p c)"
proof (cases c)
  case ParentDir
  then show "resolved p \<Longrightarrow> ?thesis" by (simp add: resolved_pop)
qed (cases p; simp add: resolved_def)+

lemma resolved_normalize:
  "path_is_absolute raw \<or> resolved (path_components workspace_root) \<Longrightarrow>
     resolved (normalize_candidate raw workspace_root)"
proof -
  have "resolved p \<Longrightarrow> resolved (foldl push_component p cs)" for p cs
    by (induction cs arbitrary: p) (simp_all add: resolved_push)
  then show "path_is_absolute raw \<or> resolved (path_components workspace_root) \<Longrightarrow> ?thesis"
    by (auto simp: normalize_candidate_def)
qed

text \<open>C35: an accepted write path is contained.  When the assessment returns a path, that path has no
  \<open>.\<close> or \<open>..\<close> left, lies below the workspace or a configured write root, and below none of these
  roots does it pass through a protected metadata directory.\<close>

theorem assess_write_path_contained:
  assumes "assess_write_path raw workspace_root sandbox = Inr p"
    and "resolved (path_components workspace_root)"
  shows "resolved p
    \<and> (\<exists>root. root \<in> set (workspace_root # sc_write_roots sandbox) \<and> comps_start_with p root)
    \<and> (\<forall>root name. root \<in> set (workspace_root # sc_write_roots sandbox) \<and> comps_start_with p root
          \<and> name \<in> set (sc_protected_metadata_names sandbox)
          \<longrightarrow> Normal name \<notin> set (drop (length (path_components root)) p))"
proof -
  from assms(1) have p: "p = normalize_candidate raw workspace_root"
    and under: "is_under_writable_root p workspace_root sandbox"
    and prot: "protected_metadata_component p workspace_root sandbox = None"
    by (auto simp: assess_write_path_def Let_def split: if_splits option.splits)
  have "Normal name \<notin> set (drop (length (path_components root)) p)"
    if r: "root \<in> set (workspace_root # sc_write_roots sandbox)" "comps_start_with p root"
      "name \<in> set (sc_protected_metadata_names sandbox)" for root name
  proof
    assume n: "Normal name \<in> set (drop (length (path_components root)) p)"
    from r(3) have ne: "sc_protected_metadata_names sandbox \<noteq> []" by auto
    from prot ne r(1) have "(if \<not> comps_start_with p root then None
             else List.find (\<lambda>part. part \<in> set (sc_protected_metadata_names sandbox))
                    (List.map_filter normal_part (drop (length (path_components root)) p))) = None"
      unfolding protected_metadata_component_def by (simp only: if_False first_some_None_iff)
    with r(2) have "\<forall>part \<in> set (List.map_filter normal_part (drop (length (path_components root)) p)).
        part \<notin> set (sc_protected_metadata_names sandbox)"
      by (auto simp: find_None_iff)
    moreover have "name \<in> set (List.map_filter normal_part (drop (length (path_components root)) p))"
      using n by (force simp: List.map_filter_def normal_part_def)
    ultimately show False using r(3) by blast
  qed
  moreover have "resolved p" unfolding p by (rule resolved_normalize) (use assms(2) in blast)
  moreover from under have "\<exists>root. root \<in> set (workspace_root # sc_write_roots sandbox) \<and> comps_start_with p root"
    by (auto simp: is_under_writable_root_def list_ex_iff)
  ultimately show ?thesis by blast
qed

lemma assess_write_path_contained_witness:
  "resolved [RootDir, Normal (lit ''w''), Normal (lit ''b'')]
   \<and> (case assess_write_path (lit ''a/../../etc'') (lit ''/w'') default_sandbox of Inl _ \<Rightarrow> True | Inr _ \<Rightarrow> False)"
proof
  have "assess_write_path (lit ''a/../b'') (lit ''/w'') default_sandbox
      = Inr [RootDir, Normal (lit ''w''), Normal (lit ''b'')]" by code_simp
  moreover have "resolved (path_components (lit ''/w''))" by code_simp
  ultimately show "resolved [RootDir, Normal (lit ''w''), Normal (lit ''b'')]"
    using assess_write_path_contained by blast
  show "case assess_write_path (lit ''a/../../etc'') (lit ''/w'') default_sandbox of Inl _ \<Rightarrow> True | Inr _ \<Rightarrow> False"
    by code_simp
qed

text \<open>A sensitive directory with more than one component escapes the matcher when the path is
  quoted: \<open>cat .config/gh/hosts.yml\<close> is reported for the pattern \<open>.config/gh/**\<close>, the same command
  with the path in double quotes is not.\<close>

theorem quoted_nested_sensitive_path_missed:
  "shell_command_references_sensitive_path (\<lambda>_. None) (lit ''cat .config/gh/h'') [lit ''.config/gh/**'']
     = Some (lit ''.config/gh/**'')
   \<and> shell_command_references_sensitive_path (\<lambda>_. None)
       (lit ''cat '' @ [DQUOTE] @ lit ''.config/gh/h'' @ [DQUOTE]) [lit ''.config/gh/**''] = None"
proof
  show "shell_command_references_sensitive_path (\<lambda>_. None) (lit ''cat .config/gh/h'') [lit ''.config/gh/**'']
     = Some (lit ''.config/gh/**'')" by code_simp
  show "shell_command_references_sensitive_path (\<lambda>_. None)
       (lit ''cat '' @ [DQUOTE] @ lit ''.config/gh/h'' @ [DQUOTE]) [lit ''.config/gh/**''] = None" by code_simp
qed

end
