(* ===== verification/Wildcard.thy ===== *)
theory Wildcard
  imports Prelude
begin

text \<open>
  \<open>wildcard_match\<close> of \<open>crates/squeezy-core/src/lib.rs\<close>, the glob matcher of permission rules, and its
  equivalence with a declarative matcher.  The code works with byte offsets that always fall on
  character boundaries; the search window \<open>value[cursor..end]\<close> is the list \<open>window\<close> here.
\<close>

fun wildcard_mid :: "str \<Rightarrow> str list \<Rightarrow> bool" where
  "wildcard_mid window [] = True"
| "wildcard_mid window (segment # segments) =
     (if segment = [] then wildcard_mid window segments
      else case find_str window segment of
             None \<Rightarrow> False
           | Some idx \<Rightarrow> wildcard_mid (drop (idx + length segment) window) segments)"

definition wildcard_match :: "str \<Rightarrow> str \<Rightarrow> bool" where
  "wildcard_match raw_value raw_pattern =
     (let value = trim raw_value; pattern = trim raw_pattern
      in if pattern = value then True
         else if STAR \<notin> set pattern then False
         else
           (let segments = split_on (\<lambda>c. c = STAR) pattern;
                first = hd segments;
                last' = (if tl segments = [] then [] else last segments);
                middle = butlast (tl segments)
            in if \<not> starts_with value first \<or> \<not> ends_with value last' then False
               else if byte_len value < byte_len first + byte_len last' then False
               else wildcard_mid
                      (take (length value - length first - length last') (drop (length first) value))
                      middle))"

section \<open>The declarative matcher\<close>

fun glob :: "str \<Rightarrow> str \<Rightarrow> bool" where
  "glob [] v \<longleftrightarrow> v = []"
| "glob (p # ps) v \<longleftrightarrow>
     (if p = STAR then \<exists>a b. v = a @ b \<and> glob ps b
      else case v of [] \<Rightarrow> False | c # cs \<Rightarrow> c = p \<and> glob ps cs)"

fun tail_glob :: "str list \<Rightarrow> str \<Rightarrow> bool" where
  "tail_glob [] m \<longleftrightarrow> m = []"
| "tail_glob (w # ws) m \<longleftrightarrow> (\<exists>a r. m = a @ w @ r \<and> tail_glob ws r)"

fun in_order :: "str list \<Rightarrow> str \<Rightarrow> bool" where
  "in_order [] m \<longleftrightarrow> True"
| "in_order (w # ws) m \<longleftrightarrow> (\<exists>a r. m = a @ w @ r \<and> in_order ws r)"

lemma glob_pieces:
  "glob ps v \<longleftrightarrow> (case split_on (\<lambda>c. c = STAR) ps of [] \<Rightarrow> False
                   | w # ws \<Rightarrow> \<exists>m. v = w @ m \<and> tail_glob ws m)"
proof (induction ps arbitrary: v)
  case (Cons p ps)
  obtain w ws where sp: "split_on (\<lambda>c. c = STAR) ps = w # ws"
    using split_on_nonempty [of "\<lambda>c. c = STAR" ps] by (cases "split_on (\<lambda>c. c = STAR) ps") auto
  show ?case
  proof (cases "p = STAR")
    case True
    have "(\<exists>a b. v = a @ b \<and> glob ps b) \<longleftrightarrow> (\<exists>a m. v = a @ w @ m \<and> tail_glob ws m)"
      unfolding Cons.IH sp by auto
    with True sp show ?thesis by simp
  next
    case False
    with sp show ?thesis using Cons.IH by (cases v) auto
  qed
qed simp

lemma tail_glob_snoc: "tail_glob (ws @ [l]) m \<longleftrightarrow> (\<exists>m'. m = m' @ l \<and> in_order ws m')"
proof (induction ws arbitrary: m)
  case (Cons w ws)
  have "tail_glob ((w # ws) @ [l]) m \<longleftrightarrow> (\<exists>a r m'. m = a @ w @ r \<and> r = m' @ l \<and> in_order ws m')"
    by (simp add: Cons.IH)
  also have "\<dots> \<longleftrightarrow> (\<exists>m'. m = m' @ l \<and> in_order (w # ws) m')" by fastforce
  finally show ?case .
qed simp

lemma in_order_append: "in_order ws r \<Longrightarrow> in_order ws (a @ r)"
proof (induction ws)
  case (Cons w ws)
  then obtain b s where "r = b @ w @ s" "in_order ws s" by auto
  then have "a @ r = (a @ b) @ w @ s \<and> in_order ws s" by simp
  then show ?case by (metis in_order.simps(2))
qed simp

lemma wildcard_mid_iff: "wildcard_mid window ws \<longleftrightarrow> in_order ws window"
proof (induction ws arbitrary: window)
  case (Cons w ws)
  show ?case
  proof (cases "w = []")
    case True
    with Cons.IH show ?thesis by (auto intro: in_order_append)
  next
    case False
    show ?thesis
    proof (cases "find_str window w")
      case None
      then have "\<not> (\<exists>a r. window = a @ w @ r)" using find_str_None_iff by blast
      then have "\<not> in_order (w # ws) window" by auto
      with None False show ?thesis by simp
    next
      case (Some i)
      have step: "in_order (w # ws) window \<longleftrightarrow> in_order ws (drop (i + length w) window)"
      proof
        assume "in_order ws (drop (i + length w) window)"
        with find_str_Some [OF Some] show "in_order (w # ws) window" by auto
      next
        assume "in_order (w # ws) window"
        then obtain a r where ar: "window = a @ w @ r" "in_order ws r" by auto
        then have "starts_with (drop (length a) window) w" by (simp add: starts_with_iff)
        with find_str_is_first [OF Some, of "length a"] have "i \<le> length a" by force
        then have "drop (i + length w) window = drop (i + length w) (a @ w) @ r"
          unfolding ar(1) by (simp add: drop_append)
        with in_order_append [OF ar(2), of "drop (i + length w) (a @ w)"]
        show "in_order ws (drop (i + length w) window)" by simp
      qed
      with Some False Cons.IH show ?thesis by simp
    qed
  qed
qed simp

lemma split_on_two: "STAR \<in> set s \<Longrightarrow> tl (split_on (\<lambda>c. c = STAR) s) \<noteq> []"
  by (induction s) (auto split: list.splits)

lemma glob_self: "glob p p"
proof (induction p)
  case (Cons c p)
  have "c # p = [c] @ p \<and> glob p p" using Cons by simp
  then show ?case by (cases "c = STAR") (simp_all, metis append_Cons append_Nil)
qed simp

lemma glob_no_star: "STAR \<notin> set p \<Longrightarrow> glob p v \<longleftrightarrow> v = p"
  by (induction p arbitrary: v) (auto split: list.splits)

lemma byte_len_append [simp]: "byte_len (a @ b) = byte_len a + byte_len b"
  by (simp add: byte_len_def)

lemma overlap_iff:
  assumes "v = f @ x" "v = y @ l"
  shows "byte_len v < byte_len f + byte_len l \<longleftrightarrow> length v < length f + length l"
proof (cases "length f + length l \<le> length v")
  case True
  have "length v = length y + length l" using assms(2) by simp
  with True have "length f \<le> length y" by linarith
  with assms obtain m where "y = f @ m"
    by (metis append_eq_append_conv_if append_take_drop_id)
  then have "v = f @ m @ l" using assms(2) by simp
  with True show ?thesis by simp
next
  case False
  have "length v = length y + length l" using assms(2) by simp
  with False have less: "length y < length f" by linarith
  with assms obtain m where m: "f = y @ m" "m \<noteq> []"
    by (metis append_eq_append_conv_if append_take_drop_id append_Nil2 less_irrefl less_imp_le_nat not_le)
  have "0 < byte_len m" using m(2) byte_len_0_iff [of m] by linarith
  with m assms False show ?thesis by simp
qed

lemma window_eq:
  assumes "v = f @ x" "v = y @ l" "length f + length l \<le> length v"
  shows "v = f @ take (length v - length f - length l) (drop (length f) v) @ l"
proof -
  have "length v = length y + length l" using assms(2) by simp
  with assms(3) have "length f \<le> length y" by linarith
  then obtain m where m: "y = f @ m"
    using assms by (metis append_eq_append_conv_if append_take_drop_id)
  then have v: "v = f @ m @ l" using assms(2) by simp
  show ?thesis by (subst (1 2 3) v) simp
qed

text \<open>C40: the permission glob matcher decides exactly the declarative match of the trimmed texts: a
  \<open>*\<close> stands for any run of characters, every other character for itself.  The greedy left-to-right
  search of the middle pieces loses no match, and the byte-length guard is exactly the overlap test.\<close>

theorem wildcard_match_iff_glob:
  "wildcard_match value pattern \<longleftrightarrow> glob (trim pattern) (trim value)"
proof -
  define v p where "v = trim value" and "p = trim pattern"
  show ?thesis
  proof (cases "p = v \<or> STAR \<notin> set p")
    case True
    then show ?thesis
      unfolding wildcard_match_def Let_def v_def [symmetric] p_def [symmetric]
      using glob_self glob_no_star by auto
  next
    case False
    obtain f ws where sp: "split_on (\<lambda>c. c = STAR) p = f # ws" and ws: "ws \<noteq> []"
      using False split_on_two [of p] by (cases "split_on (\<lambda>c. c = STAR) p") auto
    define mid l where "mid = butlast ws" and "l = last ws"
    have ws_eq: "ws = mid @ [l]" using ws by (simp add: mid_def l_def)
    have spec: "glob p v \<longleftrightarrow> (\<exists>m. v = f @ m @ l \<and> in_order mid m)"
      unfolding glob_pieces sp ws_eq by (auto simp: tail_glob_snoc)
    let ?win = "take (length v - length f - length l) (drop (length f) v)"
    have match: "wildcard_match value pattern \<longleftrightarrow>
        starts_with v f \<and> ends_with v l \<and> \<not> byte_len v < byte_len f + byte_len l
        \<and> wildcard_mid ?win mid"
      unfolding wildcard_match_def Let_def v_def [symmetric] p_def [symmetric]
      using False sp ws by (auto simp: mid_def l_def)
    have "\<dots> \<longleftrightarrow> (\<exists>m. v = f @ m @ l \<and> in_order mid m)"
    proof
      assume h: "starts_with v f \<and> ends_with v l \<and> \<not> byte_len v < byte_len f + byte_len l
        \<and> wildcard_mid ?win mid"
      then obtain x y where xy: "v = f @ x" "v = y @ l"
        unfolding starts_with_iff ends_with_iff by blast
      with h overlap_iff [OF xy] have "length f + length l \<le> length v" by simp
      from window_eq [OF xy this] h show "\<exists>m. v = f @ m @ l \<and> in_order mid m"
        unfolding wildcard_mid_iff by blast
    next
      assume "\<exists>m. v = f @ m @ l \<and> in_order mid m"
      then obtain m where m: "v = f @ m @ l" "in_order mid m" by blast
      then show "starts_with v f \<and> ends_with v l \<and> \<not> byte_len v < byte_len f + byte_len l
        \<and> wildcard_mid ?win mid"
        by (auto simp: starts_with_iff ends_with_iff wildcard_mid_iff)
    qed
    with match spec show ?thesis unfolding v_def p_def by blast
  qed
qed

end
