(* ===== verification/Policy.thy ===== *)
theory Policy
  imports SandboxConfig Wildcard
begin

text \<open>
  The permission policy of \<open>crates/squeezy-core/src/lib.rs\<close>: layered settings, presets, the
  construction of a policy from settings and environment, rule loading, and the evaluation of a
  request against the rules.
\<close>

section \<open>Rules and requests\<close>

record permission_rule =
  rule_capability :: str
  rule_target :: str
  rule_action :: permission_mode
  rule_origin :: rule_source
  rule_reason :: "str option"
  rule_silent :: bool

record permission_request =
  req_call_id :: str
  req_tool_name :: str
  req_capability :: capability
  req_target :: str
  req_risk :: risk
  req_summary :: str
  req_metadata :: "str \<rightharpoonup> str"
  req_suggested_rules :: "permission_rule list"

record permission_verdict =
  ver_action :: permission_mode
  ver_matched_rule :: "permission_rule option"
  ver_reason :: str
  ver_silent :: bool

definition permission_rule_new ::
  "str \<Rightarrow> str \<Rightarrow> permission_mode \<Rightarrow> rule_source \<Rightarrow> str option \<Rightarrow> permission_rule" where
  "permission_rule_new capability target action source reason =
     \<lparr>rule_capability = capability, rule_target = target, rule_action = action, rule_origin = source,
      rule_reason = reason, rule_silent = False\<rparr>"

definition with_silent :: "permission_rule \<Rightarrow> bool \<Rightarrow> permission_rule" where
  "with_silent rule silent = rule\<lparr>rule_silent := silent\<rparr>"

definition target_is_effectively_wildcard :: "str \<Rightarrow> bool" where
  "target_is_effectively_wildcard target =
     (if trim target = [] then True else list_all (\<lambda>ch. ch = STAR \<or> is_ws ch) (trim target))"

section \<open>Settings\<close>

record custom_settings =
  cs_read :: "permission_mode option"
  cs_search :: "permission_mode option"
  cs_edit :: "permission_mode option"
  cs_shell :: "permission_mode option"
  cs_ignored_search :: "permission_mode option"
  cs_network :: "permission_mode option"
  cs_mcp :: "permission_mode option"
  cs_git :: "permission_mode option"
  cs_compiler :: "permission_mode option"
  cs_destructive :: "permission_mode option"

definition merge_custom_settings :: "custom_settings \<Rightarrow> custom_settings \<Rightarrow> custom_settings" where
  "merge_custom_settings s n =
     \<lparr>cs_read = replace_if_some (cs_read s) (cs_read n),
      cs_search = replace_if_some (cs_search s) (cs_search n),
      cs_edit = replace_if_some (cs_edit s) (cs_edit n),
      cs_shell = replace_if_some (cs_shell s) (cs_shell n),
      cs_ignored_search = replace_if_some (cs_ignored_search s) (cs_ignored_search n),
      cs_network = replace_if_some (cs_network s) (cs_network n),
      cs_mcp = replace_if_some (cs_mcp s) (cs_mcp n),
      cs_git = replace_if_some (cs_git s) (cs_git n),
      cs_compiler = replace_if_some (cs_compiler s) (cs_compiler n),
      cs_destructive = replace_if_some (cs_destructive s) (cs_destructive n)\<rparr>"

record permission_settings =
  ps_mode :: "policy_mode option"
  ps_read :: "permission_mode option"
  ps_search :: "permission_mode option"
  ps_edit :: "permission_mode option"
  ps_shell :: "permission_mode option"
  ps_ignored_search :: "permission_mode option"
  ps_web :: "permission_mode option"
  ps_mcp :: "permission_mode option"
  ps_git :: "permission_mode option"
  ps_compiler :: "permission_mode option"
  ps_destructive :: "permission_mode option"
  ps_shell_classifier :: "bool option"
  ps_custom :: "custom_settings option"
  ps_ai_reviewer :: "ai_reviewer_settings option"
  ps_shell_sandbox :: "sandbox_settings option"
  ps_rules :: "permission_rule list"

definition merge_permission_settings ::
  "permission_settings \<Rightarrow> permission_settings \<Rightarrow> permission_settings" where
  "merge_permission_settings s n =
     \<lparr>ps_mode = replace_if_some (ps_mode s) (ps_mode n),
      ps_read = replace_if_some (ps_read s) (ps_read n),
      ps_search = replace_if_some (ps_search s) (ps_search n),
      ps_edit = replace_if_some (ps_edit s) (ps_edit n),
      ps_shell = replace_if_some (ps_shell s) (ps_shell n),
      ps_ignored_search = replace_if_some (ps_ignored_search s) (ps_ignored_search n),
      ps_web = replace_if_some (ps_web s) (ps_web n),
      ps_mcp = replace_if_some (ps_mcp s) (ps_mcp n),
      ps_git = replace_if_some (ps_git s) (ps_git n),
      ps_compiler = replace_if_some (ps_compiler s) (ps_compiler n),
      ps_destructive = replace_if_some (ps_destructive s) (ps_destructive n),
      ps_shell_classifier = replace_if_some (ps_shell_classifier s) (ps_shell_classifier n),
      ps_custom = merge_option merge_custom_settings (ps_custom s) (ps_custom n),
      ps_ai_reviewer = merge_option merge_ai_reviewer_settings (ps_ai_reviewer s) (ps_ai_reviewer n),
      ps_shell_sandbox = merge_option merge_sandbox_settings (ps_shell_sandbox s) (ps_shell_sandbox n),
      ps_rules = ps_rules s @ ps_rules n\<rparr>"

definition has_legacy_defaults :: "permission_settings \<Rightarrow> bool" where
  "has_legacy_defaults s \<longleftrightarrow>
     ps_read s \<noteq> None \<or> ps_search s \<noteq> None \<or> ps_edit s \<noteq> None \<or> ps_shell s \<noteq> None
     \<or> ps_ignored_search s \<noteq> None \<or> ps_web s \<noteq> None \<or> ps_mcp s \<noteq> None \<or> ps_git s \<noteq> None
     \<or> ps_compiler s \<noteq> None \<or> ps_destructive s \<noteq> None"

section \<open>Loading a rule\<close>

text \<open>The fields of a \<open>[[permissions.rules]]\<close> table after the typed getters.\<close>

record rule_table =
  rt_capability :: "str option"
  rt_target :: "str option"
  rt_action :: "permission_mode option"
  rt_source :: "str option"
  rt_reason :: "str option"
  rt_silent :: "bool option"

definition default_permission_rule_source :: "str \<Rightarrow> rule_source" where
  "default_permission_rule_source source =
     (if starts_with source (lit ''user:'') then User else Project)"

definition load_permission_rule :: "str \<Rightarrow> rule_table \<Rightarrow> permission_rule config_result" where
  "load_permission_rule source t =
     (case rt_capability t of None \<Rightarrow> Inl (RuleError (lit ''missing required string value''))
      | Some capability \<Rightarrow>
          if capability_parse capability = None \<and> STAR \<notin> set capability
          then Inl (RuleError (lit ''invalid permission capability''))
          else case rt_target t of None \<Rightarrow> Inl (RuleError (lit ''missing required string value''))
          | Some target \<Rightarrow>
              case rt_action t of None \<Rightarrow> Inl (RuleError (lit ''missing required permission action''))
              | Some action \<Rightarrow>
                  if action = Allow \<and> capability_parse capability = Some Destructive
                  then Inl (RuleError (lit ''refuse to load Allow rule on destructive capability''))
                  else if action = Allow \<and> target_is_effectively_wildcard target
                  then Inl (RuleError (lit ''refuse to load Allow rule with bare wildcard target''))
                  else
                    let origin = (case Option.bind (rt_source t) rule_source_parse of
                                    None \<Rightarrow> default_permission_rule_source source | Some s \<Rightarrow> s);
                        silent = (case rt_silent t of None \<Rightarrow> False | Some b \<Rightarrow> b)
                    in if silent \<and> action \<noteq> Deny
                       then Inl (RuleError (lit ''silent = true is only valid on Deny rules''))
                       else Inr (with_silent
                              (permission_rule_new capability target action origin (rt_reason t)) silent))"

fun load_permission_rules :: "str \<Rightarrow> rule_table list \<Rightarrow> permission_rule list config_result" where
  "load_permission_rules source [] = Inr []"
| "load_permission_rules source (t # ts) =
     bind_result (load_permission_rule source t)
       (\<lambda>r. bind_result (load_permission_rules source ts) (\<lambda>rs. Inr (r # rs)))"

section \<open>The policy\<close>

record permission_policy =
  pol_mode :: policy_mode
  pol_read :: permission_mode
  pol_search :: permission_mode
  pol_edit :: permission_mode
  pol_shell :: permission_mode
  pol_ignored_search :: permission_mode
  pol_web :: permission_mode
  pol_mcp :: permission_mode
  pol_git :: permission_mode
  pol_compiler :: permission_mode
  pol_destructive :: permission_mode
  pol_shell_classifier :: bool
  pol_ai_reviewer :: ai_reviewer_config
  pol_shell_sandbox :: sandbox_config
  pol_rules :: "permission_rule list"

definition auto_review_allow_capabilities :: "capability list" where
  "auto_review_allow_capabilities = [Read, Search, Network, Mcp, Edit, Shell, Git, Compiler]"

definition preset :: "policy_mode \<Rightarrow> permission_policy" where
  "preset mode =
     (let sandbox = default_sandbox\<lparr>sc_network := AllowWhenApproved\<rparr>;
          base = \<lparr>pol_mode = mode, pol_read = Allow, pol_search = Allow, pol_edit = Allow,
                  pol_shell = Allow, pol_ignored_search = Allow, pol_web = Ask, pol_mcp = Ask,
                  pol_git = Allow, pol_compiler = Allow, pol_destructive = Ask,
                  pol_shell_classifier = False, pol_ai_reviewer = default_ai_reviewer,
                  pol_shell_sandbox = sandbox, pol_rules = []\<rparr>
      in case mode of
           DefaultMode \<Rightarrow> base
         | CustomMode \<Rightarrow> base
         | AutoReview \<Rightarrow>
             base\<lparr>pol_edit := Ask, pol_shell := Ask, pol_git := Ask, pol_compiler := Ask,
                  pol_ai_reviewer := default_ai_reviewer
                    \<lparr>arc_enabled := True, arc_allow_capabilities := auto_review_allow_capabilities\<rparr>\<rparr>
         | FullAccess \<Rightarrow>
             base\<lparr>pol_web := Allow, pol_mcp := Allow, pol_destructive := Allow,
                  pol_shell_sandbox := sandbox\<lparr>sc_mode := SandboxOff\<rparr>\<rparr>)"

definition legacy_compat_defaults :: permission_policy where
  "legacy_compat_defaults =
     \<lparr>pol_mode = CustomMode, pol_read = Allow, pol_search = Allow, pol_edit = Allow, pol_shell = Ask,
      pol_ignored_search = Allow, pol_web = Ask, pol_mcp = Ask, pol_git = Ask, pol_compiler = Ask,
      pol_destructive = Ask, pol_shell_classifier = False, pol_ai_reviewer = default_ai_reviewer,
      pol_shell_sandbox = default_sandbox, pol_rules = []\<rparr>"

definition apply_legacy_defaults :: "permission_settings \<Rightarrow> bool \<Rightarrow> permission_policy \<Rightarrow> permission_policy" where
  "apply_legacy_defaults s fan_out_shell p =
     (let p1 = p\<lparr>pol_read := replace_if_some_value (pol_read p) (ps_read s),
                 pol_search := replace_if_some_value (pol_search p) (ps_search s),
                 pol_edit := replace_if_some_value (pol_edit p) (ps_edit s)\<rparr>;
          p2 = (case ps_shell s of None \<Rightarrow> p1
                | Some shell \<Rightarrow>
                    if fan_out_shell
                    then p1\<lparr>pol_shell := shell, pol_git := shell, pol_compiler := shell,
                            pol_destructive := shell\<rparr>
                    else p1\<lparr>pol_shell := shell\<rparr>)
      in p2\<lparr>pol_ignored_search := replace_if_some_value (pol_ignored_search p2) (ps_ignored_search s),
            pol_web := replace_if_some_value (pol_web p2) (ps_web s),
            pol_mcp := replace_if_some_value (pol_mcp p2) (ps_mcp s),
            pol_git := replace_if_some_value (pol_git p2) (ps_git s),
            pol_compiler := replace_if_some_value (pol_compiler p2) (ps_compiler s),
            pol_destructive := replace_if_some_value (pol_destructive p2) (ps_destructive s)\<rparr>)"

definition apply_custom_defaults :: "custom_settings \<Rightarrow> permission_policy \<Rightarrow> permission_policy" where
  "apply_custom_defaults c p =
     p\<lparr>pol_read := replace_if_some_value (pol_read p) (cs_read c),
       pol_search := replace_if_some_value (pol_search p) (cs_search c),
       pol_edit := replace_if_some_value (pol_edit p) (cs_edit c),
       pol_shell := replace_if_some_value (pol_shell p) (cs_shell c),
       pol_ignored_search := replace_if_some_value (pol_ignored_search p) (cs_ignored_search c),
       pol_web := replace_if_some_value (pol_web p) (cs_network c),
       pol_mcp := replace_if_some_value (pol_mcp p) (cs_mcp c),
       pol_git := replace_if_some_value (pol_git p) (cs_git c),
       pol_compiler := replace_if_some_value (pol_compiler p) (cs_compiler c),
       pol_destructive := replace_if_some_value (pol_destructive p) (cs_destructive c)\<rparr>"

type_synonym env_vars = "str \<Rightarrow> str option"

definition parse_permission :: "str option \<Rightarrow> permission_mode \<Rightarrow> permission_mode" where
  "parse_permission value fallback =
     (case Option.bind value permission_mode_parse of None \<Rightarrow> fallback | Some m \<Rightarrow> m)"

definition parse_enabled_bool :: "str \<Rightarrow> bool" where
  "parse_enabled_bool value = one_of (to_lower (trim value)) [''1'', ''true'', ''yes'', ''on'']"

definition parse_bool :: "str option \<Rightarrow> bool \<Rightarrow> bool" where
  "parse_bool value fallback = (case value of None \<Rightarrow> fallback | Some v \<Rightarrow> parse_enabled_bool v)"

definition apply_env_permissions :: "env_vars \<Rightarrow> permission_policy \<Rightarrow> permission_policy" where
  "apply_env_permissions var p =
     p\<lparr>pol_read := parse_permission (var (lit ''SQUEEZY_READ_PERMISSION'')) (pol_read p),
       pol_search := parse_permission (var (lit ''SQUEEZY_SEARCH_PERMISSION'')) (pol_search p),
       pol_edit := parse_permission (var (lit ''SQUEEZY_EDIT_PERMISSION'')) (pol_edit p),
       pol_shell := parse_permission (var (lit ''SQUEEZY_SHELL_PERMISSION'')) (pol_shell p),
       pol_ignored_search :=
         parse_permission (var (lit ''SQUEEZY_IGNORED_SEARCH_PERMISSION'')) (pol_ignored_search p),
       pol_web := parse_permission (var (lit ''SQUEEZY_WEB_PERMISSION'')) (pol_web p),
       pol_mcp := parse_permission (var (lit ''SQUEEZY_MCP_PERMISSION'')) (pol_mcp p),
       pol_git := parse_permission (var (lit ''SQUEEZY_GIT_PERMISSION'')) (pol_git p),
       pol_compiler := parse_permission (var (lit ''SQUEEZY_COMPILER_PERMISSION'')) (pol_compiler p),
       pol_destructive :=
         parse_permission (var (lit ''SQUEEZY_DESTRUCTIVE_PERMISSION'')) (pol_destructive p)\<rparr>"

text \<open>The mode, and the per-capability defaults before the environment.\<close>

definition settings_mode :: "permission_settings \<Rightarrow> policy_mode" where
  "settings_mode s =
     (case ps_mode s of Some m \<Rightarrow> m
      | None \<Rightarrow> if has_legacy_defaults s \<or> ps_custom s \<noteq> None then CustomMode else DefaultMode)"

definition settings_base :: "permission_settings \<Rightarrow> permission_policy" where
  "settings_base s =
     (let legacy_compat = (has_legacy_defaults s \<and> ps_mode s = None);
          mode = settings_mode s;
          p = (if legacy_compat then legacy_compat_defaults else preset mode)\<lparr>pol_mode := mode\<rparr>
      in if mode = CustomMode
         then (let p = apply_legacy_defaults s legacy_compat p
               in case ps_custom s of None \<Rightarrow> p | Some custom \<Rightarrow> apply_custom_defaults custom p)
         else p)"

definition finish_reviewer :: "policy_mode \<Rightarrow> bool \<Rightarrow> ai_reviewer_config \<Rightarrow> ai_reviewer_config" where
  "finish_reviewer mode capabilities_configured c =
     (case mode of
        AutoReview \<Rightarrow>
          if capabilities_configured then c\<lparr>arc_enabled := True\<rparr>
          else c\<lparr>arc_enabled := True, arc_allow_capabilities := auto_review_allow_capabilities\<rparr>
      | FullAccess \<Rightarrow> c\<lparr>arc_enabled := False\<rparr>
      | _ \<Rightarrow> c)"

definition finish_sandbox :: "policy_mode \<Rightarrow> bool \<Rightarrow> sandbox_config \<Rightarrow> sandbox_config" where
  "finish_sandbox mode network_configured c =
     (case mode of
        FullAccess \<Rightarrow> c\<lparr>sc_mode := SandboxOff, sc_network := AllowWhenApproved\<rparr>
      | CustomMode \<Rightarrow> c
      | _ \<Rightarrow> if network_configured then c else c\<lparr>sc_network := AllowWhenApproved\<rparr>)"

definition policy_from_settings_and_env ::
  "file_system \<Rightarrow> str option \<Rightarrow> str \<Rightarrow> env_vars \<Rightarrow> permission_settings \<Rightarrow> permission_policy config_result" where
  "policy_from_settings_and_env fs home workspace_root var s =
     (let mode = settings_mode s;
          p = (apply_env_permissions var (settings_base s))
                \<lparr>pol_shell_classifier := parse_bool (var (lit ''SQUEEZY_SHELL_PERMISSION_CLASSIFIER''))
                   (replace_if_some_value False (ps_shell_classifier s))\<rparr>;
          capabilities_configured =
            (case ps_ai_reviewer s of None \<Rightarrow> False | Some r \<Rightarrow> ars_allow_capabilities r \<noteq> None);
          network_configured =
            (case ps_shell_sandbox s of None \<Rightarrow> False | Some b \<Rightarrow> ss_network b \<noteq> None)
      in bind_result (ai_reviewer_from_settings home (ps_ai_reviewer s)) (\<lambda>reviewer.
         bind_result (sandbox_from_settings fs home workspace_root (ps_shell_sandbox s)) (\<lambda>sandbox.
         Inr (p\<lparr>pol_ai_reviewer := finish_reviewer mode capabilities_configured reviewer,
                pol_shell_sandbox := finish_sandbox mode network_configured sandbox,
                pol_rules := ps_rules s\<rparr>))))"

section \<open>Evaluation\<close>

datatype permission_scope = ScopeRead | ScopeEdit | ScopeShell | ScopeIgnoredSearch | ScopeWeb | ScopeMcp

fun mode_for :: "permission_policy \<Rightarrow> permission_scope \<Rightarrow> permission_mode" where
  "mode_for p ScopeRead = pol_read p"
| "mode_for p ScopeEdit = pol_edit p"
| "mode_for p ScopeShell = pol_shell p"
| "mode_for p ScopeIgnoredSearch = pol_ignored_search p"
| "mode_for p ScopeWeb = pol_web p"
| "mode_for p ScopeMcp = pol_mcp p"

fun mode_for_capability :: "permission_policy \<Rightarrow> capability \<Rightarrow> permission_mode" where
  "mode_for_capability p Read = pol_read p"
| "mode_for_capability p Search = pol_search p"
| "mode_for_capability p Edit = pol_edit p"
| "mode_for_capability p Shell = pol_shell p"
| "mode_for_capability p Network = pol_web p"
| "mode_for_capability p Mcp = pol_mcp p"
| "mode_for_capability p Git = pol_git p"
| "mode_for_capability p Compiler = pol_compiler p"
| "mode_for_capability p Destructive = pol_destructive p"

definition apply_mode :: "permission_policy \<Rightarrow> policy_mode \<Rightarrow> permission_policy" where
  "apply_mode p mode =
     (let n = preset mode
      in n\<lparr>pol_rules := pol_rules p,
           pol_shell_classifier := pol_shell_classifier p,
           pol_ai_reviewer := (pol_ai_reviewer p)
             \<lparr>arc_enabled := arc_enabled (pol_ai_reviewer n),
              arc_allow_capabilities := arc_allow_capabilities (pol_ai_reviewer n)\<rparr>,
           pol_shell_sandbox := (pol_shell_sandbox p)
             \<lparr>sc_mode := sc_mode (pol_shell_sandbox n), sc_network := sc_network (pol_shell_sandbox n)\<rparr>\<rparr>)"

definition rule_matches :: "permission_request \<Rightarrow> permission_rule \<Rightarrow> bool" where
  "rule_matches request rule \<longleftrightarrow>
     wildcard_match (capability_as_str (req_capability request)) (rule_capability rule)
     \<and> wildcard_match (req_target request) (rule_target rule)"

definition downgrade_unsafe_action ::
  "permission_mode \<Rightarrow> capability \<Rightarrow> str \<Rightarrow> permission_mode \<times> str option" where
  "downgrade_unsafe_action action capability target =
     (if action = Allow \<and> capability = Destructive then
        (Ask, Some (lit ''ignoring Allow rule on destructive capability; require explicit per-call approval''))
      else if action = Allow \<and> target_is_effectively_wildcard target then
        (Ask, Some (lit ''ignoring Allow rule with bare wildcard target; require a narrower target''))
      else (action, None))"

definition path_request_targets_outside_workspace :: "permission_request \<Rightarrow> bool" where
  "path_request_targets_outside_workspace request \<longleftrightarrow>
     req_capability request \<in> {Read, Edit, Shell}
     \<and> req_metadata request (lit ''outside_workspace'') = Some (lit ''true'')"

definition default_action :: "permission_policy \<Rightarrow> permission_request \<Rightarrow> permission_mode" where
  "default_action p request =
     (if path_request_targets_outside_workspace request \<and> pol_mode p \<noteq> FullAccess then Ask
      else mode_for_capability p (req_capability request))"

definition evaluate_with_extra ::
  "permission_policy \<Rightarrow> permission_request \<Rightarrow> permission_rule list \<Rightarrow> permission_verdict" where
  "evaluate_with_extra p request extra =
     (case List.find (rule_matches request) (rev (pol_rules p @ extra)) of
        Some rule \<Rightarrow>
          (let (action, override_reason) =
                 downgrade_unsafe_action (rule_action rule) (req_capability request) (rule_target rule)
           in \<lparr>ver_action = action, ver_matched_rule = Some rule,
               ver_reason =
                 (case override_reason of Some r \<Rightarrow> r
                  | None \<Rightarrow>
                      (case rule_reason rule of Some r \<Rightarrow> r
                       | None \<Rightarrow> lit ''matched '' @ rule_source_as_str (rule_origin rule)
                                 @ lit '' permission rule'')),
               ver_silent = (rule_silent rule \<and> action = Deny)\<rparr>)
      | None \<Rightarrow>
          \<lparr>ver_action = default_action p request, ver_matched_rule = None,
           ver_reason = lit ''default '' @ capability_as_str (req_capability request)
                        @ lit '' permission is '' @ permission_mode_as_str (default_action p request),
           ver_silent = False\<rparr>)"

definition evaluate :: "permission_policy \<Rightarrow> permission_request \<Rightarrow> permission_verdict" where
  "evaluate p request = evaluate_with_extra p request []"

section \<open>Layered settings form a monoid\<close>

text \<open>
  Configuration is layered (defaults, user file, project file, session): the merge of the layers may
  be bracketed in any way, and an empty layer changes nothing.
\<close>

locale layered =
  fixes merge :: "'a \<Rightarrow> 'a \<Rightarrow> 'a" and empty :: 'a
  assumes merge_assoc: "merge (merge a b) c = merge a (merge b c)"
    and merge_empty_left: "merge empty a = a"
    and merge_empty_right: "merge a empty = a"
begin

definition merge_all :: "'a list \<Rightarrow> 'a" where
  "merge_all layers = fold (\<lambda>n s. merge s n) layers empty"

lemma fold_merge: "fold (\<lambda>n s. merge s n) layers a = merge a (merge_all layers)"
proof (induction layers arbitrary: a)
  case Nil
  show ?case by (simp add: merge_all_def merge_empty_right)
next
  case (Cons l ls)
  have "merge_all (l # ls) = merge l (merge_all ls)"
    using Cons [of "merge empty l"] by (simp add: merge_all_def merge_empty_left)
  with Cons [of "merge a l"] show ?case by (simp add: merge_assoc)
qed

lemma merge_all_append: "merge_all (xs @ ys) = merge (merge_all xs) (merge_all ys)"
  using fold_merge [of ys "merge_all xs"] by (simp add: merge_all_def)

end

lemma replace_if_some_assoc [simp]:
  "replace_if_some (replace_if_some a b) c = replace_if_some a (replace_if_some b c)"
  by (simp add: replace_if_some_def split: option.split)

lemma replace_if_some_None [simp]: "replace_if_some None a = a" "replace_if_some a None = a"
  by (simp_all add: replace_if_some_def split: option.split)

lemma fold_push_new_push_new: "fold push_new (push_new x b) a = push_new x (fold push_new b a)"
  by (auto simp: push_new_def)

lemma fold_push_new_assoc: "fold push_new (fold push_new c b) a = fold push_new c (fold push_new b a)"
  by (induction c arbitrary: b) (simp_all add: fold_push_new_push_new)

lemma merge_string_lists_assoc [simp]:
  "merge_string_lists (merge_string_lists a b) c = merge_string_lists a (merge_string_lists b c)"
  by (simp add: merge_string_lists_def fold_push_new_assoc split: option.split)

lemma merge_string_lists_None [simp]: "merge_string_lists None a = a" "merge_string_lists a None = a"
  by (simp_all add: merge_string_lists_def split: option.split)

lemma merge_option_None [simp]: "merge_option f None a = a" "merge_option f a None = a"
  by (simp_all add: merge_option_def split: option.split)

lemma merge_option_assoc:
  "(\<And>x y z. f (f x y) z = f x (f y z)) \<Longrightarrow>
     merge_option f (merge_option f a b) c = merge_option f a (merge_option f b c)"
  by (simp add: merge_option_def split: option.split)

definition empty_custom :: custom_settings where
  "empty_custom = \<lparr>cs_read = None, cs_search = None, cs_edit = None, cs_shell = None,
     cs_ignored_search = None, cs_network = None, cs_mcp = None, cs_git = None, cs_compiler = None,
     cs_destructive = None\<rparr>"

definition empty_reviewer :: ai_reviewer_settings where
  "empty_reviewer = \<lparr>ars_enabled = None, ars_model = None, ars_allow_capabilities = None,
     ars_policy_file = None, ars_policy = None, ars_timeout_secs = None,
     ars_max_transcript_tokens = None\<rparr>"

definition empty_sandbox :: sandbox_settings where
  "empty_sandbox = \<lparr>ss_mode = None, ss_network = None, ss_audit = None, ss_kill_grace_ms = None,
     ss_env_allowlist = None, ss_read_roots = None, ss_write_roots = None,
     ss_protected_metadata_names = None, ss_sensitive_path_patterns = None,
     ss_replace_sensitive_path_patterns = None, ss_windows_sandbox_level = None,
     ss_macos_socket_domain_allowlist = None, ss_linux_shell = None\<rparr>"

definition empty_settings :: permission_settings where
  "empty_settings = \<lparr>ps_mode = None, ps_read = None, ps_search = None, ps_edit = None,
     ps_shell = None, ps_ignored_search = None, ps_web = None, ps_mcp = None, ps_git = None,
     ps_compiler = None, ps_destructive = None, ps_shell_classifier = None, ps_custom = None,
     ps_ai_reviewer = None, ps_shell_sandbox = None, ps_rules = []\<rparr>"

interpretation custom_layers: layered merge_custom_settings empty_custom
  by unfold_locales (simp_all add: merge_custom_settings_def empty_custom_def)

interpretation reviewer_layers: layered merge_ai_reviewer_settings empty_reviewer
  by unfold_locales (simp_all add: merge_ai_reviewer_settings_def empty_reviewer_def)

interpretation sandbox_layers: layered merge_sandbox_settings empty_sandbox
  by unfold_locales (simp_all add: merge_sandbox_settings_def empty_sandbox_def)

interpretation settings_layers: layered merge_permission_settings empty_settings
  by unfold_locales
     (simp_all add: merge_permission_settings_def empty_settings_def merge_option_assoc
       custom_layers.merge_assoc reviewer_layers.merge_assoc sandbox_layers.merge_assoc)

text \<open>Merging the configuration layers is associative with the empty layer as unit, so reading
  the layers one after the other gives what merging any two consecutive groups first gives; in
  particular the rules of a later layer stand behind those of an earlier one.\<close>

theorem settings_layers_associative:
  "fold (\<lambda>n s. merge_permission_settings s n) (xs @ ys) empty_settings
     = merge_permission_settings
         (fold (\<lambda>n s. merge_permission_settings s n) xs empty_settings)
         (fold (\<lambda>n s. merge_permission_settings s n) ys empty_settings)
   \<and> ps_rules (fold (\<lambda>n s. merge_permission_settings s n) xs empty_settings) = concat (map ps_rules xs)"
proof
  show "fold (\<lambda>n s. merge_permission_settings s n) (xs @ ys) empty_settings
     = merge_permission_settings
         (fold (\<lambda>n s. merge_permission_settings s n) xs empty_settings)
         (fold (\<lambda>n s. merge_permission_settings s n) ys empty_settings)"
    using settings_layers.merge_all_append [of xs ys] by (simp only: settings_layers.merge_all_def)
  have "ps_rules (fold (\<lambda>n s. merge_permission_settings s n) xs a) = ps_rules a @ concat (map ps_rules xs)" for a
    by (induction xs arbitrary: a) (simp_all add: merge_permission_settings_def)
  then show "ps_rules (fold (\<lambda>n s. merge_permission_settings s n) xs empty_settings)
      = concat (map ps_rules xs)"
    by (simp add: empty_settings_def)
qed

section \<open>The deciding rule\<close>

lemma find_rev_Some_iff:
  "List.find P (rev xs) = Some r \<longleftrightarrow>
     (\<exists>as bs. xs = as @ r # bs \<and> P r \<and> (\<forall>b \<in> set bs. \<not> P b))"
proof
  assume "List.find P (rev xs) = Some r"
  then show "\<exists>as bs. xs = as @ r # bs \<and> P r \<and> (\<forall>b \<in> set bs. \<not> P b)"
  proof (induction xs rule: rev_induct)
    case (snoc x xs)
    show ?case
    proof (cases "P x")
      case True
      with snoc.prems have "xs @ [x] = xs @ r # []" "P r" by auto
      then show ?thesis by (intro exI [of _ xs] exI [of _ "[]"]) simp
    next
      case False
      with snoc obtain as bs where "xs = as @ r # bs" "P r" "\<forall>b \<in> set bs. \<not> P b" by auto
      with False show ?thesis by (intro exI [of _ as] exI [of _ "bs @ [x]"]) simp
    qed
  qed simp
next
  assume "\<exists>as bs. xs = as @ r # bs \<and> P r \<and> (\<forall>b \<in> set bs. \<not> P b)"
  then obtain as bs where xs: "xs = as @ r # bs" "P r" "\<forall>b \<in> set bs. \<not> P b" by blast
  from xs(3) have "List.find P (rev bs @ zs) = List.find P zs" for zs
    by (induction bs arbitrary: zs) auto
  with xs show "List.find P (rev xs) = Some r" by simp
qed

lemma evaluate_rule:
  assumes "List.find (rule_matches request) (rev (pol_rules p @ extra)) = Some rule"
  shows "ver_action (evaluate_with_extra p request extra)
       = fst (downgrade_unsafe_action (rule_action rule) (req_capability request) (rule_target rule))"
    and "ver_matched_rule (evaluate_with_extra p request extra) = Some rule"
    and "ver_silent (evaluate_with_extra p request extra) \<longleftrightarrow> rule_silent rule \<and> rule_action rule = Deny"
  using assms by (auto simp: evaluate_with_extra_def downgrade_unsafe_action_def)

lemma evaluate_default:
  assumes "List.find (rule_matches request) (rev (pol_rules p @ extra)) = None"
  shows "ver_action (evaluate_with_extra p request extra) = default_action p request"
    and "ver_matched_rule (evaluate_with_extra p request extra) = None"
    and "\<not> ver_silent (evaluate_with_extra p request extra)"
  using assms by (auto simp: evaluate_with_extra_def)

lemma downgrade_cases:
  "fst (downgrade_unsafe_action a c t) =
     (if a = Allow \<and> (c = Destructive \<or> target_is_effectively_wildcard t) then Ask else a)"
  by (simp add: downgrade_unsafe_action_def)

text \<open>C32: the last matching rule decides, session rules after configured ones.  The verdict names a
  rule exactly when it is the last one in configured-then-session order that matches capability and
  target; its action is then the rule's, except that an \<open>Allow\<close> on the destructive capability or with a
  bare wildcard target counts as \<open>Ask\<close>; it is silent exactly for a silent \<open>Deny\<close>.\<close>

theorem last_matching_rule_decides:
  "ver_matched_rule (evaluate_with_extra p request extra) = Some rule \<longleftrightarrow>
     (\<exists>before after. pol_rules p @ extra = before @ rule # after \<and> rule_matches request rule
        \<and> list_all (\<lambda>r. \<not> rule_matches request r) after
        \<and> ver_action (evaluate_with_extra p request extra)
            = (if rule_action rule = Allow \<and> (req_capability request = Destructive
                   \<or> target_is_effectively_wildcard (rule_target rule)) then Ask else rule_action rule)
        \<and> ver_silent (evaluate_with_extra p request extra) = (rule_silent rule \<and> rule_action rule = Deny))"
proof (cases "List.find (rule_matches request) (rev (pol_rules p @ extra)) = Some rule")
  case True
  from True obtain before after where "pol_rules p @ extra = before @ rule # after"
      "rule_matches request rule" "list_all (\<lambda>r. \<not> rule_matches request r) after"
    unfolding find_rev_Some_iff list_all_iff by blast
  then show ?thesis unfolding evaluate_rule [OF True] downgrade_cases by blast
next
  case False
  then have "ver_matched_rule (evaluate_with_extra p request extra) \<noteq> Some rule"
    using evaluate_default(2) evaluate_rule(2)
    by (cases "List.find (rule_matches request) (rev (pol_rules p @ extra))") auto
  moreover from False have "\<not> (\<exists>before after. pol_rules p @ extra = before @ rule # after
      \<and> rule_matches request rule \<and> list_all (\<lambda>r. \<not> rule_matches request r) after)"
    unfolding find_rev_Some_iff list_all_iff by blast
  ultimately show ?thesis by blast
qed

text \<open>C31: what an \<open>Allow\<close> verdict rests on.  Either a matching \<open>Allow\<close> rule whose target is not a bare
  wildcard, for a capability other than destructive; or no rule matches, the default of the capability
  is \<open>Allow\<close>, and a path outside the workspace is involved only under full access.\<close>

theorem allow_verdict_sound:
  assumes "ver_action (evaluate_with_extra p request extra) = Allow"
  shows "(\<exists>rule. rule \<in> set (pol_rules p @ extra) \<and> rule_matches request rule \<and> rule_action rule = Allow
            \<and> req_capability request \<noteq> Destructive \<and> \<not> target_is_effectively_wildcard (rule_target rule))
    \<or> (list_all (\<lambda>r. \<not> rule_matches request r) (pol_rules p @ extra)
        \<and> mode_for_capability p (req_capability request) = Allow
        \<and> (\<not> path_request_targets_outside_workspace request \<or> pol_mode p = FullAccess))"
proof (cases "List.find (rule_matches request) (rev (pol_rules p @ extra))")
  case None
  from assms evaluate_default(1) [OF None] have "default_action p request = Allow" by simp
  moreover from None have "list_all (\<lambda>r. \<not> rule_matches request r) (pol_rules p @ extra)"
    by (auto simp: find_None_iff list_all_iff)
  ultimately show ?thesis by (auto simp: default_action_def split: if_splits)
next
  case (Some rule)
  then have "rule \<in> set (pol_rules p @ extra)" "rule_matches request rule"
    unfolding find_rev_Some_iff by (metis in_set_conv_decomp, blast)
  with assms evaluate_rule(1) [OF Some] show ?thesis
    by (auto simp: downgrade_cases split: if_splits)
qed

definition sample_rule :: permission_rule where
  "sample_rule = permission_rule_new (lit ''git'') (lit ''git push:*'') Allow User None"

definition sample_request :: permission_request where
  "sample_request =
     \<lparr>req_call_id = lit ''c1'', req_tool_name = lit ''shell'', req_capability = Git,
      req_target = lit ''git push:*'', req_risk = High, req_summary = [], req_metadata = Map.empty,
      req_suggested_rules = []\<rparr>"

lemma allow_verdict_sound_witness:
  "\<exists>rule. rule_matches sample_request rule \<and> \<not> target_is_effectively_wildcard (rule_target rule)"
proof -
  have "ver_action (evaluate_with_extra (preset AutoReview) sample_request [sample_rule]) = Allow"
    by code_simp
  from allow_verdict_sound [OF this] have "\<exists>rule. rule_matches sample_request rule
      \<and> \<not> target_is_effectively_wildcard (rule_target rule)
    \<or> mode_for_capability (preset AutoReview) (req_capability sample_request) = Allow" by blast
  then show ?thesis by (simp add: preset_def sample_request_def Let_def)
qed

section \<open>Loaded rules\<close>

definition loadable :: "permission_rule \<Rightarrow> bool" where
  "loadable r \<longleftrightarrow>
     (rule_action r = Allow \<longrightarrow>
        \<not> target_is_effectively_wildcard (rule_target r) \<and> capability_parse (rule_capability r) \<noteq> Some Destructive)
     \<and> (rule_silent r \<longrightarrow> rule_action r = Deny)
     \<and> (capability_parse (rule_capability r) \<noteq> None \<or> STAR \<in> set (rule_capability r))"

lemma load_permission_rule_loadable: "load_permission_rule source t = Inr r \<Longrightarrow> loadable r"
  by (auto simp: load_permission_rule_def loadable_def permission_rule_new_def with_silent_def Let_def
      split: option.splits if_splits)

text \<open>The loader and the evaluator agree.  Every rule the loader accepts names a capability or a
  glob, is silent only as a \<open>Deny\<close>, and as an \<open>Allow\<close> has a narrow target and does not name the
  destructive capability; so for requests of any other capability the evaluator never has to
  downgrade a loaded rule: the verdict is the rule's own action.\<close>

theorem loaded_rules_are_honoured:
  assumes "load_permission_rules source tables = Inr rules"
  shows "list_all loadable rules \<and> length rules = length tables
    \<and> (\<forall>p request rule. pol_rules p = rules \<and> req_capability request \<noteq> Destructive
          \<and> ver_matched_rule (evaluate p request) = Some rule
          \<longrightarrow> ver_action (evaluate p request) = rule_action rule)"
proof -
  have ok: "list_all loadable rules \<and> length rules = length tables"
    using assms
    by (induction tables arbitrary: rules) (auto dest: load_permission_rule_loadable)
  have "ver_action (evaluate p request) = rule_action rule"
    if h: "pol_rules p = rules" "req_capability request \<noteq> Destructive"
      "ver_matched_rule (evaluate p request) = Some rule" for p request rule
  proof -
    from h(3) have f: "List.find (rule_matches request) (rev (pol_rules p @ [])) = Some rule"
      using evaluate_default(2) evaluate_rule(2) unfolding evaluate_def
      by (cases "List.find (rule_matches request) (rev (pol_rules p @ []))") auto
    then have "rule \<in> set (pol_rules p @ [])" unfolding find_rev_Some_iff by (metis in_set_conv_decomp)
    with ok h(1) have "loadable rule" by (simp add: list_all_iff)
    with h(2) show ?thesis
      unfolding evaluate_def evaluate_rule(1) [OF f] downgrade_cases loadable_def by auto
  qed
  with ok show ?thesis by blast
qed

lemma loaded_rules_are_honoured_witness:
  "\<exists>rules. list_all loadable rules \<and> length rules = 1"
proof -
  let ?t = "\<lparr>rt_capability = Some (lit ''git''), rt_target = Some (lit ''git push:*''), rt_action = Some Deny,
      rt_source = None, rt_reason = None, rt_silent = Some True\<rparr>"
  have "load_permission_rules (lit ''user:x'') [?t]
      = Inr [with_silent (permission_rule_new (lit ''git'') (lit ''git push:*'') Deny User None) True]"
    by code_simp
  from loaded_rules_are_honoured [OF this] show ?thesis by (intro exI conjI) (elim conjE, assumption, simp)
qed

section \<open>Presets\<close>

text \<open>Switching the preset keeps the rules, the classifier switch and every sandbox and reviewer
  setting the preset does not own, forgets the previous preset entirely (two switches are the second
  one), and never turns a destructive default to \<open>Allow\<close> except by choosing full access.\<close>

theorem apply_mode_laws:
  "pol_rules (apply_mode p m) = pol_rules p
   \<and> pol_shell_classifier (apply_mode p m) = pol_shell_classifier p
   \<and> sc_sensitive_path_patterns (pol_shell_sandbox (apply_mode p m))
       = sc_sensitive_path_patterns (pol_shell_sandbox p)
   \<and> apply_mode (apply_mode p m) m' = apply_mode p m'
   \<and> (pol_destructive (apply_mode p m) = Allow \<longleftrightarrow> m = FullAccess)
   \<and> (sc_mode (pol_shell_sandbox (apply_mode p m)) = SandboxOff \<longleftrightarrow> m = FullAccess)
   \<and> (arc_enabled (pol_ai_reviewer (apply_mode p m)) \<longleftrightarrow> m = AutoReview)"
  by (cases m; cases m')
     (simp_all add: apply_mode_def preset_def Let_def default_sandbox_def default_ai_reviewer_def)

text \<open>Destructive commands are never allowed by default.  If a policy built from settings and
  environment has \<open>Allow\<close> as the destructive default, then full access was selected, or the setting
  itself, the custom setting, the environment, or the legacy \<open>shell\<close> setting that fans out, says so.\<close>

theorem destructive_allow_is_opt_in:
  assumes "policy_from_settings_and_env fs home ws var s = Inr p" "pol_destructive p = Allow"
  shows "ps_mode s = Some FullAccess \<or> ps_destructive s = Some Allow
    \<or> (ps_mode s = None \<and> ps_shell s = Some Allow)
    \<or> (\<exists>c. ps_custom s = Some c \<and> cs_destructive c = Some Allow)
    \<or> (\<exists>v. var (lit ''SQUEEZY_DESTRUCTIVE_PERMISSION'') = Some v \<and> permission_mode_parse v = Some Allow)"
proof -
  from assms(1) have dest: "pol_destructive p
      = parse_permission (var (lit ''SQUEEZY_DESTRUCTIVE_PERMISSION'')) (pol_destructive (settings_base s))"
    by (auto simp: policy_from_settings_and_env_def apply_env_permissions_def Let_def)
  have base: "pol_destructive (settings_base s) = Allow \<Longrightarrow>
      ps_mode s = Some FullAccess \<or> ps_destructive s = Some Allow
      \<or> (ps_mode s = None \<and> ps_shell s = Some Allow)
      \<or> (\<exists>c. ps_custom s = Some c \<and> cs_destructive c = Some Allow)"
    by (auto simp: settings_base_def settings_mode_def preset_def legacy_compat_defaults_def
        apply_legacy_defaults_def apply_custom_defaults_def replace_if_some_value_def Let_def
        split: option.splits if_splits policy_mode.splits)
  from dest assms(2) base show ?thesis
    by (cases "var (lit ''SQUEEZY_DESTRUCTIVE_PERMISSION'')")
       (auto simp: parse_permission_def split: option.splits)
qed

lemma destructive_allow_is_opt_in_witness:
  "\<exists>p. policy_from_settings_and_env \<lparr>fs_canonicalize = Some, fs_is_dir = (\<lambda>_. True), fs_exists = (\<lambda>_. True)\<rparr>
         None (lit ''/w'') (\<lambda>_. None) (empty_settings\<lparr>ps_mode := Some FullAccess\<rparr>) = Inr p
     \<and> pol_destructive p = Allow \<and> ps_mode (empty_settings\<lparr>ps_mode := Some FullAccess\<rparr>) = Some FullAccess"
proof -
  let ?fs = "\<lparr>fs_canonicalize = Some, fs_is_dir = (\<lambda>_. True), fs_exists = (\<lambda>_. True)\<rparr>"
  let ?s = "empty_settings\<lparr>ps_mode := Some FullAccess\<rparr>"
  obtain p where p: "policy_from_settings_and_env ?fs None (lit ''/w'') (\<lambda>_. None) ?s = Inr p"
    "pol_destructive p = Allow"
    by (simp add: policy_from_settings_and_env_def empty_settings_def settings_mode_def settings_base_def
        preset_def apply_env_permissions_def parse_permission_def ai_reviewer_from_settings_def
        sandbox_from_settings_def bind_result_def Let_def)
  from destructive_allow_is_opt_in [OF p] p show ?thesis by (simp add: empty_settings_def)
qed

end
