(* ===== verification/OrdMap.thy ===== *)
theory OrdMap
  imports Prelude "HOL-Library.List_Lexorder" "HOL-Library.Multiset"
begin

text \<open>
  \<open>BTreeMap<String, V>\<close> as the code uses it: an association list in strictly increasing key order
  (iteration order), with the entry operation \<open>entry(k).or_insert(d)\<close> followed by an update.
\<close>

type_synonym 'v ordmap = "(str \<times> 'v) list"

definition ordered :: "'v ordmap \<Rightarrow> bool" where
  "ordered m \<longleftrightarrow> sorted_wrt (<) (map fst m)"

fun upsert :: "str \<Rightarrow> 'v \<Rightarrow> ('v \<Rightarrow> 'v) \<Rightarrow> 'v ordmap \<Rightarrow> 'v ordmap" where
  "upsert k d f [] = [(k, f d)]"
| "upsert k d f ((k', v) # m) =
     (if k = k' then (k', f v) # m
      else if k < k' then (k, f d) # (k', v) # m
      else (k', v) # upsert k d f m)"

lemma ordered_Nil [simp]: "ordered []"
  by (simp add: ordered_def)

lemma ordered_Cons [simp]: "ordered ((k, v) # m) \<longleftrightarrow> (\<forall>k' \<in> fst ` set m. k < k') \<and> ordered m"
  by (auto simp: ordered_def)

lemma keys_upsert: "fst ` set (upsert k d f m) = insert k (fst ` set m)"
  by (induction k d f m rule: upsert.induct) auto

lemma ordered_upsert: "ordered m \<Longrightarrow> ordered (upsert k d f m)"
  by (induction k d f m rule: upsert.induct) (auto simp: keys_upsert)

lemma map_of_upsert:
  "ordered m \<Longrightarrow> map_of (upsert k d f m)
     = (map_of m)(k \<mapsto> f (case map_of m k of None \<Rightarrow> d | Some v \<Rightarrow> v))"
proof (induction k d f m rule: upsert.induct)
  case (2 k d f k' v m)
  have no: "k < k' \<Longrightarrow> map_of m k = None"
    using "2.prems" by (force simp: map_of_eq_None_iff)
  show ?case
    using 2 no by (cases "k = k'"; cases "k < k'") (auto simp: fun_upd_twist)
qed simp

text \<open>What an upsert does to a commutative sum over the values.\<close>

locale value_sum =
  fixes add :: "'a \<Rightarrow> 'a \<Rightarrow> 'a" and zero :: 'a
  assumes add_assoc: "add (add a b) c = add a (add b c)"
    and add_comm: "add a b = add b a"
    and add_zero: "add zero a = a"
begin

definition total :: "('v \<Rightarrow> 'a) \<Rightarrow> 'v ordmap \<Rightarrow> 'a" where
  "total g m = fold (\<lambda>(k, v) acc. add acc (g v)) m zero"

lemma add_zero_right: "add a zero = a"
  using add_zero add_comm by metis

lemma add_left_comm: "add a (add b c) = add b (add a c)"
  by (metis add_assoc add_comm)

lemma fold_add: "fold (\<lambda>(k, v) acc. add acc (g v)) m a = add a (total g m)"
proof (induction m arbitrary: a)
  case Nil
  show ?case by (simp add: total_def add_zero_right)
next
  case (Cons kv m)
  obtain k v where kv: "kv = (k, v)" by (cases kv)
  have "total g (kv # m) = add (g v) (total g m)"
    using Cons [of "add zero (g v)"] by (simp add: total_def kv add_zero)
  with Cons [of "add a (g v)"] show ?case by (simp add: kv add_assoc)
qed

lemma total_Nil [simp]: "total g [] = zero"
  by (simp add: total_def)

lemma total_Cons [simp]: "total g ((k, v) # m) = add (g v) (total g m)"
  using fold_add [of g m "add zero (g v)"] by (simp add: total_def add_zero)

lemma total_upsert:
  assumes "\<And>v. g (f v) = add (g v) x" "g d = zero"
  shows "total g (upsert k d f m) = add (total g m) x"
  using assms
  by (induction k d f m rule: upsert.induct)
     (auto simp: add_zero add_zero_right add_assoc add_left_comm add_comm)

lemma fold_list: "fold (\<lambda>x acc. add acc x) xs a = add a (fold (\<lambda>x acc. add acc x) xs zero)"
proof (induction xs arbitrary: a)
  case (Cons x xs)
  show ?case using Cons [of "add a x"] Cons [of "add zero x"] by (simp add: add_zero add_assoc)
qed (simp add: add_zero_right)

lemma fold_mset:
  assumes "mset xs = mset ys"
  shows "fold (\<lambda>x acc. add acc x) xs a = fold (\<lambda>x acc. add acc x) ys a"
proof -
  have "fold (\<lambda>x acc. add acc x) xs = fold (\<lambda>x acc. add acc x) ys"
  proof (rule fold_multiset_equiv [OF _ assms])
    show "(\<lambda>acc. add acc x) \<circ> (\<lambda>acc. add acc y) = (\<lambda>acc. add acc y) \<circ> (\<lambda>acc. add acc x)" for x y
      by (rule ext) (simp, metis add_assoc add_comm)
  qed
  then show ?thesis by simp
qed

end

end
