(* ===== verification/Metrics.thy ===== *)
theory Metrics
  imports OrdMap
begin

text \<open>
  Cost accounting of \<open>crates/squeezy-core/src/lib.rs\<close>: cost snapshots, per-kind and per-model buckets,
  the model ledger, turn and session metrics, and how they fold into one another.  Plain \<open>+\<close> on
  \<open>u64\<close> wraps (the release profile has no overflow checks); \<open>saturating_add\<close> is \<open>saturating_add\<close>.
\<close>

section \<open>Cost snapshots\<close>

record cost_snapshot =
  input_tokens :: "u64 option"
  output_tokens :: "u64 option"
  reasoning_output_tokens :: "u64 option"
  cached_input_tokens :: "u64 option"
  cache_write_input_tokens :: "u64 option"
  estimated_usd_micros :: "u64 option"

definition empty_cost :: cost_snapshot where
  "empty_cost = \<lparr>input_tokens = None, output_tokens = None, reasoning_output_tokens = None,
     cached_input_tokens = None, cache_write_input_tokens = None, estimated_usd_micros = None\<rparr>"

fun add_optional_u64 :: "u64 option \<Rightarrow> u64 option \<Rightarrow> u64 option" where
  "add_optional_u64 (Some a) (Some b) = Some (a + b)"
| "add_optional_u64 (Some a) None = Some a"
| "add_optional_u64 None r = r"

definition merge_cost_snapshot :: "cost_snapshot \<Rightarrow> cost_snapshot \<Rightarrow> cost_snapshot" where
  "merge_cost_snapshot t n =
     \<lparr>input_tokens = add_optional_u64 (input_tokens t) (input_tokens n),
      output_tokens = add_optional_u64 (output_tokens t) (output_tokens n),
      reasoning_output_tokens =
        add_optional_u64 (reasoning_output_tokens t) (reasoning_output_tokens n),
      cached_input_tokens = add_optional_u64 (cached_input_tokens t) (cached_input_tokens n),
      cache_write_input_tokens =
        add_optional_u64 (cache_write_input_tokens t) (cache_write_input_tokens n),
      estimated_usd_micros = add_optional_u64 (estimated_usd_micros t) (estimated_usd_micros n)\<rparr>"

section \<open>Subagent buckets\<close>

record kind_bucket =
  kb_calls :: u64
  kb_failures :: u64
  kb_tool_calls :: u64
  kb_bytes_read :: u64
  kb_provider :: cost_snapshot

definition empty_kind_bucket :: kind_bucket where
  "empty_kind_bucket = \<lparr>kb_calls = 0, kb_failures = 0, kb_tool_calls = 0, kb_bytes_read = 0,
     kb_provider = empty_cost\<rparr>"

definition merge_kind_bucket :: "kind_bucket \<Rightarrow> kind_bucket \<Rightarrow> kind_bucket" where
  "merge_kind_bucket s n =
     \<lparr>kb_calls = kb_calls s + kb_calls n, kb_failures = kb_failures s + kb_failures n,
      kb_tool_calls = kb_tool_calls s + kb_tool_calls n,
      kb_bytes_read = kb_bytes_read s + kb_bytes_read n,
      kb_provider = merge_cost_snapshot (kb_provider s) (kb_provider n)\<rparr>"

record kind_metrics =
  km_delegate :: kind_bucket
  km_explore :: kind_bucket
  km_plan :: kind_bucket
  km_review :: kind_bucket

definition empty_kind_metrics :: kind_metrics where
  "empty_kind_metrics = \<lparr>km_delegate = empty_kind_bucket, km_explore = empty_kind_bucket,
     km_plan = empty_kind_bucket, km_review = empty_kind_bucket\<rparr>"

definition merge_kind_metrics :: "kind_metrics \<Rightarrow> kind_metrics \<Rightarrow> kind_metrics" where
  "merge_kind_metrics s n =
     \<lparr>km_delegate = merge_kind_bucket (km_delegate s) (km_delegate n),
      km_explore = merge_kind_bucket (km_explore s) (km_explore n),
      km_plan = merge_kind_bucket (km_plan s) (km_plan n),
      km_review = merge_kind_bucket (km_review s) (km_review n)\<rparr>"

text \<open>\<open>bucket_mut\<close>: apply an update to the bucket of a kind; \<open>None\<close> for an unaudited kind.\<close>

definition update_bucket ::
  "str \<Rightarrow> (kind_bucket \<Rightarrow> kind_bucket) \<Rightarrow> kind_metrics \<Rightarrow> kind_metrics option" where
  "update_bucket kind f m =
     (if kind = lit ''delegate'' then Some (m\<lparr>km_delegate := f (km_delegate m)\<rparr>)
      else if kind = lit ''explore'' then Some (m\<lparr>km_explore := f (km_explore m)\<rparr>)
      else if kind = lit ''plan'' then Some (m\<lparr>km_plan := f (km_plan m)\<rparr>)
      else if kind = lit ''review'' then Some (m\<lparr>km_review := f (km_review m)\<rparr>)
      else None)"

section \<open>The model ledger\<close>

datatype cost_origin = MainOrigin | SubagentOrigin | AiReviewerOrigin

record model_bucket =
  mb_provider :: str
  mb_model :: str
  mb_main :: cost_snapshot
  mb_subagent :: cost_snapshot
  mb_reviewer :: cost_snapshot

definition new_model_bucket :: "str \<Rightarrow> str \<Rightarrow> model_bucket" where
  "new_model_bucket provider model =
     \<lparr>mb_provider = provider, mb_model = model, mb_main = empty_cost, mb_subagent = empty_cost,
      mb_reviewer = empty_cost\<rparr>"

definition merge_model_bucket :: "model_bucket \<Rightarrow> model_bucket \<Rightarrow> model_bucket" where
  "merge_model_bucket s n =
     s\<lparr>mb_main := merge_cost_snapshot (mb_main s) (mb_main n),
       mb_subagent := merge_cost_snapshot (mb_subagent s) (mb_subagent n),
       mb_reviewer := merge_cost_snapshot (mb_reviewer s) (mb_reviewer n)\<rparr>"

definition bucket_total_usd_micros :: "model_bucket \<Rightarrow> u64 option" where
  "bucket_total_usd_micros b =
     add_optional_u64
       (add_optional_u64 (estimated_usd_micros (mb_main b)) (estimated_usd_micros (mb_subagent b)))
       (estimated_usd_micros (mb_reviewer b))"

type_synonym model_ledger = "model_bucket ordmap"

definition ledger_key :: "str \<Rightarrow> str \<Rightarrow> str" where
  "ledger_key provider model = provider @ [31] @ model"

fun record_origin :: "cost_origin \<Rightarrow> cost_snapshot \<Rightarrow> model_bucket \<Rightarrow> model_bucket" where
  "record_origin MainOrigin c b = b\<lparr>mb_main := merge_cost_snapshot (mb_main b) c\<rparr>"
| "record_origin SubagentOrigin c b = b\<lparr>mb_subagent := merge_cost_snapshot (mb_subagent b) c\<rparr>"
| "record_origin AiReviewerOrigin c b = b\<lparr>mb_reviewer := merge_cost_snapshot (mb_reviewer b) c\<rparr>"

definition ledger_record ::
  "str \<Rightarrow> str \<Rightarrow> cost_origin \<Rightarrow> cost_snapshot \<Rightarrow> model_ledger \<Rightarrow> model_ledger" where
  "ledger_record provider model origin cost ledger =
     upsert (ledger_key provider model) (new_model_bucket provider model) (record_origin origin cost) ledger"

definition ledger_merge :: "model_ledger \<Rightarrow> model_ledger \<Rightarrow> model_ledger" where
  "ledger_merge s other =
     fold (\<lambda>(key, bucket).
        upsert key (new_model_bucket (mb_provider bucket) (mb_model bucket)) (\<lambda>b. merge_model_bucket b bucket))
       other s"

definition ledger_totals :: "model_ledger \<Rightarrow> cost_snapshot" where
  "ledger_totals ledger =
     fold (\<lambda>(_, bucket) total.
        merge_cost_snapshot (merge_cost_snapshot (merge_cost_snapshot total (mb_main bucket))
          (mb_subagent bucket)) (mb_reviewer bucket)) ledger empty_cost"

section \<open>Turn and session metrics\<close>

record turn_metrics =
  tm_tool_calls :: u64
  tm_tool_successes :: u64
  tm_tool_errors :: u64
  tm_tool_denials :: u64
  tm_tool_cancellations :: u64
  tm_files_scanned :: u64
  tm_bytes_read :: u64
  tm_matches_returned :: u64
  tm_model_output_bytes :: u64
  tm_receipt_stub_hits :: u64
  tm_negative_receipt_hits :: u64
  tm_spill_writes :: u64
  tm_spill_reads :: u64
  tm_budget_denials :: u64
  tm_planner_turns :: u64
  tm_planner_tool_calls :: u64
  tm_planner_refusals :: u64
  tm_subagent_calls :: u64
  tm_subagent_failures :: u64
  tm_subagent_tool_calls :: u64
  tm_subagent_budget_denials :: u64
  tm_subagent_files_scanned :: u64
  tm_subagent_bytes_read :: u64
  tm_subagent_model_output_bytes :: u64
  tm_redactions :: u64
  tm_provider :: cost_snapshot
  tm_subagent_provider :: cost_snapshot
  tm_subagent_by_kind :: kind_metrics
  tm_model_ledger :: model_ledger
  tm_routing_judge_usd_micros :: u64
  tm_routing_cheap_main_provider :: cost_snapshot
  tm_routed_to_cheap :: bool
  tm_routed_to_subagent :: bool
  tm_escalated_to_parent :: bool
  tm_routing_estimated_savings_usd_micros :: u64
  tm_routing_estimated_net_savings_usd_micros :: i64
  tm_routing_strong_baseline_usd_micros :: u64
  tm_stop_reason_token :: "str option"
  tm_reasoning_only_stop :: bool
  tm_cache_supported :: bool
  tm_cache_write_tokens :: "u64 option"
  tm_reasoning_output_tokens :: "u64 option"

record session_metrics =
  sm_turns :: u64
  sm_tool_calls :: u64
  sm_tool_successes :: u64
  sm_tool_errors :: u64
  sm_tool_denials :: u64
  sm_tool_cancellations :: u64
  sm_files_scanned :: u64
  sm_bytes_read :: u64
  sm_matches_returned :: u64
  sm_model_output_bytes :: u64
  sm_receipt_stub_hits :: u64
  sm_negative_receipt_hits :: u64
  sm_spill_writes :: u64
  sm_spill_reads :: u64
  sm_budget_denials :: u64
  sm_planner_turns :: u64
  sm_planner_tool_calls :: u64
  sm_planner_refusals :: u64
  sm_subagent_calls :: u64
  sm_subagent_failures :: u64
  sm_subagent_tool_calls :: u64
  sm_subagent_budget_denials :: u64
  sm_subagent_files_scanned :: u64
  sm_subagent_bytes_read :: u64
  sm_subagent_model_output_bytes :: u64
  sm_redactions :: u64
  sm_provider :: cost_snapshot
  sm_subagent_provider :: cost_snapshot
  sm_subagent_by_kind :: kind_metrics
  sm_model_ledger :: model_ledger
  sm_routing_judge_usd_micros :: u64
  sm_routed_to_cheap_turns :: u64
  sm_routed_to_subagent_turns :: u64
  sm_escalated_to_parent_turns :: u64
  sm_routing_estimated_savings_usd_micros :: u64
  sm_routing_estimated_net_savings_usd_micros :: i64
  sm_routing_strong_baseline_usd_micros :: u64

definition empty_turn :: turn_metrics where
  "empty_turn = \<lparr>tm_tool_calls = 0,
     tm_tool_successes = 0,
     tm_tool_errors = 0,
     tm_tool_denials = 0,
     tm_tool_cancellations = 0,
     tm_files_scanned = 0,
     tm_bytes_read = 0,
     tm_matches_returned = 0,
     tm_model_output_bytes = 0,
     tm_receipt_stub_hits = 0,
     tm_negative_receipt_hits = 0,
     tm_spill_writes = 0,
     tm_spill_reads = 0,
     tm_budget_denials = 0,
     tm_planner_turns = 0,
     tm_planner_tool_calls = 0,
     tm_planner_refusals = 0,
     tm_subagent_calls = 0,
     tm_subagent_failures = 0,
     tm_subagent_tool_calls = 0,
     tm_subagent_budget_denials = 0,
     tm_subagent_files_scanned = 0,
     tm_subagent_bytes_read = 0,
     tm_subagent_model_output_bytes = 0,
     tm_redactions = 0,
     tm_provider = empty_cost,
     tm_subagent_provider = empty_cost,
     tm_subagent_by_kind = empty_kind_metrics,
     tm_model_ledger = [],
     tm_routing_judge_usd_micros = 0,
     tm_routing_cheap_main_provider = empty_cost,
     tm_routed_to_cheap = False,
     tm_routed_to_subagent = False,
     tm_escalated_to_parent = False,
     tm_routing_estimated_savings_usd_micros = 0,
     tm_routing_estimated_net_savings_usd_micros = 0,
     tm_routing_strong_baseline_usd_micros = 0,
     tm_stop_reason_token = None,
     tm_reasoning_only_stop = False,
     tm_cache_supported = False,
     tm_cache_write_tokens = None,
     tm_reasoning_output_tokens = None\<rparr>"

definition empty_session :: session_metrics where
  "empty_session = \<lparr>sm_turns = 0,
     sm_tool_calls = 0,
     sm_tool_successes = 0,
     sm_tool_errors = 0,
     sm_tool_denials = 0,
     sm_tool_cancellations = 0,
     sm_files_scanned = 0,
     sm_bytes_read = 0,
     sm_matches_returned = 0,
     sm_model_output_bytes = 0,
     sm_receipt_stub_hits = 0,
     sm_negative_receipt_hits = 0,
     sm_spill_writes = 0,
     sm_spill_reads = 0,
     sm_budget_denials = 0,
     sm_planner_turns = 0,
     sm_planner_tool_calls = 0,
     sm_planner_refusals = 0,
     sm_subagent_calls = 0,
     sm_subagent_failures = 0,
     sm_subagent_tool_calls = 0,
     sm_subagent_budget_denials = 0,
     sm_subagent_files_scanned = 0,
     sm_subagent_bytes_read = 0,
     sm_subagent_model_output_bytes = 0,
     sm_redactions = 0,
     sm_provider = empty_cost,
     sm_subagent_provider = empty_cost,
     sm_subagent_by_kind = empty_kind_metrics,
     sm_model_ledger = [],
     sm_routing_judge_usd_micros = 0,
     sm_routed_to_cheap_turns = 0,
     sm_routed_to_subagent_turns = 0,
     sm_escalated_to_parent_turns = 0,
     sm_routing_estimated_savings_usd_micros = 0,
     sm_routing_estimated_net_savings_usd_micros = 0,
     sm_routing_strong_baseline_usd_micros = 0\<rparr>"

definition saturating_add_i64 :: "i64 \<Rightarrow> i64 \<Rightarrow> i64" where
  "saturating_add_i64 a b =
     word_of_int (max (- (2 ^ 63)) (min (2 ^ 63 - 1) (sint a + sint b)))"

definition merge_turn :: "session_metrics \<Rightarrow> turn_metrics \<Rightarrow> session_metrics" where
  "merge_turn s t =
     \<lparr>sm_turns = sm_turns s + 1,
     sm_tool_calls = sm_tool_calls s + tm_tool_calls t,
     sm_tool_successes = sm_tool_successes s + tm_tool_successes t,
     sm_tool_errors = sm_tool_errors s + tm_tool_errors t,
     sm_tool_denials = sm_tool_denials s + tm_tool_denials t,
     sm_tool_cancellations = sm_tool_cancellations s + tm_tool_cancellations t,
     sm_files_scanned = sm_files_scanned s + tm_files_scanned t,
     sm_bytes_read = sm_bytes_read s + tm_bytes_read t,
     sm_matches_returned = sm_matches_returned s + tm_matches_returned t,
     sm_model_output_bytes = sm_model_output_bytes s + tm_model_output_bytes t,
     sm_receipt_stub_hits = sm_receipt_stub_hits s + tm_receipt_stub_hits t,
     sm_negative_receipt_hits = sm_negative_receipt_hits s + tm_negative_receipt_hits t,
     sm_spill_writes = sm_spill_writes s + tm_spill_writes t,
     sm_spill_reads = sm_spill_reads s + tm_spill_reads t,
     sm_budget_denials = sm_budget_denials s + tm_budget_denials t,
     sm_planner_turns = sm_planner_turns s + tm_planner_turns t,
     sm_planner_tool_calls = sm_planner_tool_calls s + tm_planner_tool_calls t,
     sm_planner_refusals = sm_planner_refusals s + tm_planner_refusals t,
     sm_subagent_calls = sm_subagent_calls s + tm_subagent_calls t,
     sm_subagent_failures = sm_subagent_failures s + tm_subagent_failures t,
     sm_subagent_tool_calls = sm_subagent_tool_calls s + tm_subagent_tool_calls t,
     sm_subagent_budget_denials = sm_subagent_budget_denials s + tm_subagent_budget_denials t,
     sm_subagent_files_scanned = sm_subagent_files_scanned s + tm_subagent_files_scanned t,
     sm_subagent_bytes_read = sm_subagent_bytes_read s + tm_subagent_bytes_read t,
     sm_subagent_model_output_bytes = sm_subagent_model_output_bytes s + tm_subagent_model_output_bytes t,
     sm_redactions = sm_redactions s + tm_redactions t,
     sm_provider = merge_cost_snapshot (sm_provider s) (tm_provider t),
     sm_subagent_provider = merge_cost_snapshot (sm_subagent_provider s) (tm_subagent_provider t),
     sm_subagent_by_kind = merge_kind_metrics (sm_subagent_by_kind s) (tm_subagent_by_kind t),
     sm_model_ledger = ledger_merge (sm_model_ledger s) (tm_model_ledger t),
     sm_routing_judge_usd_micros = saturating_add (sm_routing_judge_usd_micros s) (tm_routing_judge_usd_micros t),
     sm_routed_to_cheap_turns = (if tm_routed_to_cheap t then saturating_add (sm_routed_to_cheap_turns s) 1 else sm_routed_to_cheap_turns s),
     sm_routed_to_subagent_turns = (if tm_routed_to_subagent t then saturating_add (sm_routed_to_subagent_turns s) 1 else sm_routed_to_subagent_turns s),
     sm_escalated_to_parent_turns = (if tm_escalated_to_parent t then saturating_add (sm_escalated_to_parent_turns s) 1 else sm_escalated_to_parent_turns s),
     sm_routing_estimated_savings_usd_micros = saturating_add (sm_routing_estimated_savings_usd_micros s) (tm_routing_estimated_savings_usd_micros t),
     sm_routing_estimated_net_savings_usd_micros = saturating_add_i64 (sm_routing_estimated_net_savings_usd_micros s) (tm_routing_estimated_net_savings_usd_micros t),
     sm_routing_strong_baseline_usd_micros = saturating_add (sm_routing_strong_baseline_usd_micros s) (tm_routing_strong_baseline_usd_micros t)\<rparr>"

definition record_provider :: "cost_snapshot \<Rightarrow> turn_metrics \<Rightarrow> turn_metrics" where
  "record_provider cost t = t\<lparr>tm_provider := merge_cost_snapshot (tm_provider t) cost\<rparr>"

definition merge_subagent_tool_metrics :: "turn_metrics \<Rightarrow> turn_metrics \<Rightarrow> turn_metrics" where
  "merge_subagent_tool_metrics t m =
     t\<lparr>tm_subagent_tool_calls := tm_subagent_tool_calls t + tm_tool_calls m,
       tm_subagent_budget_denials := tm_subagent_budget_denials t + tm_budget_denials m,
       tm_subagent_files_scanned := tm_subagent_files_scanned t + tm_files_scanned m,
       tm_subagent_bytes_read := tm_subagent_bytes_read t + tm_bytes_read m,
       tm_subagent_model_output_bytes :=
         tm_subagent_model_output_bytes t + tm_model_output_bytes m,
       tm_redactions := tm_redactions t + tm_redactions m,
       tm_subagent_provider := merge_cost_snapshot (tm_subagent_provider t) (tm_provider m)\<rparr>"

section \<open>Merges are commutative monoids\<close>

lemma add_optional_u64_assoc:
  "add_optional_u64 (add_optional_u64 a b) c = add_optional_u64 a (add_optional_u64 b c)"
  by (cases a; cases b; cases c) simp_all

lemma add_optional_u64_comm: "add_optional_u64 a b = add_optional_u64 b a"
  by (cases a; cases b) simp_all

lemma add_optional_u64_None [simp]: "add_optional_u64 a None = a"
  by (cases a) simp_all

interpretation cost_sum: value_sum merge_cost_snapshot empty_cost
proof
  show "merge_cost_snapshot (merge_cost_snapshot a b) c = merge_cost_snapshot a (merge_cost_snapshot b c)"
    for a b c :: cost_snapshot
    by (simp add: merge_cost_snapshot_def add_optional_u64_assoc)
  show "merge_cost_snapshot a b = merge_cost_snapshot b a" for a b :: cost_snapshot
    by (simp add: merge_cost_snapshot_def add_optional_u64_comm)
qed (simp add: merge_cost_snapshot_def empty_cost_def)

interpretation bucket_sum: value_sum merge_kind_bucket empty_kind_bucket
proof
  show "merge_kind_bucket (merge_kind_bucket a b) c = merge_kind_bucket a (merge_kind_bucket b c)"
    for a b c :: kind_bucket
    by (simp add: merge_kind_bucket_def cost_sum.add_assoc add.assoc)
  show "merge_kind_bucket a b = merge_kind_bucket b a" for a b :: kind_bucket
    by (simp add: merge_kind_bucket_def cost_sum.add_comm add.commute)
qed (simp add: merge_kind_bucket_def empty_kind_bucket_def cost_sum.add_zero)

interpretation kind_sum: value_sum merge_kind_metrics empty_kind_metrics
proof
  show "merge_kind_metrics (merge_kind_metrics a b) c = merge_kind_metrics a (merge_kind_metrics b c)"
    for a b c :: kind_metrics
    by (simp add: merge_kind_metrics_def bucket_sum.add_assoc)
  show "merge_kind_metrics a b = merge_kind_metrics b a" for a b :: kind_metrics
    by (simp add: merge_kind_metrics_def bucket_sum.add_comm)
qed (simp add: merge_kind_metrics_def empty_kind_metrics_def bucket_sum.add_zero)

section \<open>Ledger totals\<close>

definition bucket_sum3 :: "model_bucket \<Rightarrow> cost_snapshot" where
  "bucket_sum3 b = merge_cost_snapshot (mb_main b) (merge_cost_snapshot (mb_subagent b) (mb_reviewer b))"

lemma ledger_totals_total: "ledger_totals ledger = cost_sum.total bucket_sum3 ledger"
proof -
  have "(\<lambda>(_, bucket) total.
        merge_cost_snapshot (merge_cost_snapshot (merge_cost_snapshot total (mb_main bucket))
          (mb_subagent bucket)) (mb_reviewer bucket))
      = (\<lambda>(k :: str, v) acc. merge_cost_snapshot acc (bucket_sum3 v))"
    by (auto simp: fun_eq_iff bucket_sum3_def cost_sum.add_assoc)
  then show ?thesis by (simp add: ledger_totals_def cost_sum.total_def)
qed

lemma bucket_sum3_new: "bucket_sum3 (new_model_bucket p m) = empty_cost"
  by (simp add: bucket_sum3_def new_model_bucket_def cost_sum.add_zero)

lemma bucket_sum3_record: "bucket_sum3 (record_origin origin c b) = merge_cost_snapshot (bucket_sum3 b) c"
  by (cases origin)
     (simp_all add: bucket_sum3_def cost_sum.add_assoc cost_sum.add_comm cost_sum.add_left_comm)

lemma bucket_sum3_merge:
  "bucket_sum3 (merge_model_bucket a b) = merge_cost_snapshot (bucket_sum3 a) (bucket_sum3 b)"
  by (simp add: bucket_sum3_def merge_model_bucket_def cost_sum.add_assoc cost_sum.add_comm
      cost_sum.add_left_comm)

lemma totals_record:
  "ledger_totals (ledger_record p m origin c ledger) = merge_cost_snapshot (ledger_totals ledger) c"
  unfolding ledger_totals_total ledger_record_def
  by (rule cost_sum.total_upsert) (simp_all add: bucket_sum3_record bucket_sum3_new)

lemma totals_merge:
  "ledger_totals (ledger_merge s other) = merge_cost_snapshot (ledger_totals s) (ledger_totals other)"
  unfolding ledger_merge_def ledger_totals_total
proof (induction other arbitrary: s)
  case Nil
  show ?case by (simp add: cost_sum.add_zero_right)
next
  case (Cons kb other)
  obtain k b where kb: "kb = (k, b)" by (cases kb)
  have "cost_sum.total bucket_sum3 (upsert k (new_model_bucket (mb_provider b) (mb_model b))
          (\<lambda>b'. merge_model_bucket b' b) s)
      = merge_cost_snapshot (cost_sum.total bucket_sum3 s) (bucket_sum3 b)"
    by (rule cost_sum.total_upsert) (simp_all add: bucket_sum3_merge bucket_sum3_new)
  with Cons show ?case by (simp add: kb cost_sum.add_assoc)
qed

lemma ordered_record: "ordered ledger \<Longrightarrow> ordered (ledger_record p m origin c ledger)"
  by (simp add: ledger_record_def ordered_upsert)

lemma ordered_merge: "ordered s \<Longrightarrow> ordered (ledger_merge s other)"
  unfolding ledger_merge_def
  by (induction other arbitrary: s) (auto simp: ordered_upsert)

section \<open>Recording a turn\<close>

text \<open>A recorded round: where it ran, what for, and what it cost.\<close>

type_synonym round_cost = "str \<times> str \<times> cost_origin \<times> cost_snapshot"

definition record_round :: "round_cost \<Rightarrow> model_ledger \<Rightarrow> model_ledger" where
  "record_round = (\<lambda>(p, m, origin, c). ledger_record p m origin c)"

definition round_snapshot :: "round_cost \<Rightarrow> cost_snapshot" where
  "round_snapshot = (\<lambda>(p, m, origin, c). c)"

definition sum_costs :: "cost_snapshot list \<Rightarrow> cost_snapshot" where
  "sum_costs cs = fold (\<lambda>c acc. merge_cost_snapshot acc c) cs empty_cost"

lemma sum_costs_Cons: "sum_costs (c # cs) = merge_cost_snapshot c (sum_costs cs)"
  using cost_sum.fold_list [of cs "merge_cost_snapshot empty_cost c"]
  by (simp add: sum_costs_def cost_sum.add_zero)

lemma totals_rounds:
  "ledger_totals (fold record_round rounds ledger)
     = merge_cost_snapshot (ledger_totals ledger) (sum_costs (map round_snapshot rounds))"
proof (induction rounds arbitrary: ledger)
  case Nil
  show ?case by (simp add: sum_costs_def cost_sum.add_zero_right)
next
  case (Cons r rounds)
  have "ledger_totals (record_round r ledger) = merge_cost_snapshot (ledger_totals ledger) (round_snapshot r)"
    by (cases r) (simp add: record_round_def round_snapshot_def totals_record)
  with Cons show ?case by (simp add: sum_costs_Cons cost_sum.add_assoc)
qed

text \<open>The drill-down always adds up to the headline.  However the rounds are spread over
  providers, models and origins, the totals of the per-model ledger are the field-wise sum of all
  recorded rounds, in any order of the rounds; and folding one ledger into another adds their totals.\<close>

theorem ledger_totals_are_round_sums:
  "ledger_totals (fold record_round rounds []) = sum_costs (map round_snapshot rounds)
   \<and> (mset rounds = mset rounds' \<longrightarrow>
        ledger_totals (fold record_round rounds []) = ledger_totals (fold record_round rounds' []))
   \<and> ledger_totals (ledger_merge s other) = merge_cost_snapshot (ledger_totals s) (ledger_totals other)"
proof (intro conjI impI)
  show sum: "ledger_totals (fold record_round rounds []) = sum_costs (map round_snapshot rounds)"
    using totals_rounds [of rounds "[]"] by (simp add: ledger_totals_def cost_sum.add_zero)
  assume "mset rounds = mset rounds'"
  then have "sum_costs (map round_snapshot rounds) = sum_costs (map round_snapshot rounds')"
    unfolding sum_costs_def by (intro cost_sum.fold_mset) simp
  then show "ledger_totals (fold record_round rounds []) = ledger_totals (fold record_round rounds' [])"
    using totals_rounds [of rounds "[]"] totals_rounds [of rounds' "[]"] by simp
qed (rule totals_merge)

definition sample_cost :: "u64 \<Rightarrow> cost_snapshot" where
  "sample_cost n = empty_cost\<lparr>input_tokens := Some n, estimated_usd_micros := Some (2 * n)\<rparr>"

lemma ledger_totals_are_round_sums_witness:
  "ledger_totals (fold record_round [(lit ''a'', lit ''m'', MainOrigin, sample_cost 1),
      (lit ''b'', lit ''m'', SubagentOrigin, sample_cost 2)] [])
    = ledger_totals (fold record_round [(lit ''b'', lit ''m'', SubagentOrigin, sample_cost 2),
      (lit ''a'', lit ''m'', MainOrigin, sample_cost 1)] [])"
proof -
  have "mset [(lit ''a'', lit ''m'', MainOrigin, sample_cost 1), (lit ''b'', lit ''m'', SubagentOrigin, sample_cost 2)]
      = mset [(lit ''b'', lit ''m'', SubagentOrigin, sample_cost 2), (lit ''a'', lit ''m'', MainOrigin, sample_cost 1)]"
    by simp
  from ledger_totals_are_round_sums [THEN conjunct2, THEN conjunct1, rule_format, OF this] show ?thesis .
qed

lemma map_of_record:
  "ordered ledger \<Longrightarrow> map_of (ledger_record p m origin c ledger)
     = (map_of ledger)(ledger_key p m \<mapsto> record_origin origin c
          (case map_of ledger (ledger_key p m) of None \<Rightarrow> new_model_bucket p m | Some b \<Rightarrow> b))"
  by (simp add: ledger_record_def map_of_upsert)

section \<open>Sessions\<close>

definition session_of_turns :: "turn_metrics list \<Rightarrow> session_metrics" where
  "session_of_turns turns = fold (\<lambda>t s. merge_turn s t) turns empty_session"

lemma merge_turn_sums:
  "sm_tool_calls (fold (\<lambda>t s. merge_turn s t) turns s0) = sm_tool_calls s0 + sum_list (map tm_tool_calls turns)"
  "sm_bytes_read (fold (\<lambda>t s. merge_turn s t) turns s0) = sm_bytes_read s0 + sum_list (map tm_bytes_read turns)"
  "sm_redactions (fold (\<lambda>t s. merge_turn s t) turns s0) = sm_redactions s0 + sum_list (map tm_redactions turns)"
  "sm_turns (fold (\<lambda>t s. merge_turn s t) turns s0) = sm_turns s0 + of_nat (length turns)"
  by (induction turns arbitrary: s0) (simp_all add: merge_turn_def add.assoc)

lemma merge_turn_costs:
  "sm_provider (fold (\<lambda>t s. merge_turn s t) turns s0)
     = merge_cost_snapshot (sm_provider s0) (sum_costs (map tm_provider turns))"
  "sm_subagent_provider (fold (\<lambda>t s. merge_turn s t) turns s0)
     = merge_cost_snapshot (sm_subagent_provider s0) (sum_costs (map tm_subagent_provider turns))"
  "ledger_totals (sm_model_ledger (fold (\<lambda>t s. merge_turn s t) turns s0))
     = merge_cost_snapshot (ledger_totals (sm_model_ledger s0))
         (sum_costs (map (\<lambda>t. ledger_totals (tm_model_ledger t)) turns))"
  by (induction turns arbitrary: s0)
     (simp_all add: merge_turn_def sum_costs_Cons cost_sum.add_assoc totals_merge,
      simp_all add: sum_costs_def cost_sum.add_zero_right)

text \<open>A session is the sum of its turns.  After any sequence of turns the session counts the
  turns, its counters are the (wrapping) sums of the turns' counters, its provider and subagent costs
  are the sums of the turns' costs, and its ledger stays ordered and totals to the turns' ledgers.\<close>

theorem session_is_sum_of_turns:
  "sm_turns (session_of_turns turns) = of_nat (length turns)
   \<and> sm_tool_calls (session_of_turns turns) = sum_list (map tm_tool_calls turns)
   \<and> sm_bytes_read (session_of_turns turns) = sum_list (map tm_bytes_read turns)
   \<and> sm_redactions (session_of_turns turns) = sum_list (map tm_redactions turns)
   \<and> sm_provider (session_of_turns turns) = sum_costs (map tm_provider turns)
   \<and> sm_subagent_provider (session_of_turns turns) = sum_costs (map tm_subagent_provider turns)
   \<and> ordered (sm_model_ledger (session_of_turns turns))
   \<and> ledger_totals (sm_model_ledger (session_of_turns turns))
       = sum_costs (map (\<lambda>t. ledger_totals (tm_model_ledger t)) turns)"
proof -
  have "ordered (sm_model_ledger (fold (\<lambda>t s. merge_turn s t) turns s0))" if "ordered (sm_model_ledger s0)" for s0
    using that by (induction turns arbitrary: s0) (simp_all add: merge_turn_def ordered_merge)
  then show ?thesis
    by (simp add: session_of_turns_def merge_turn_sums merge_turn_costs)
       (simp add: empty_session_def ledger_totals_def cost_sum.add_zero)
qed

end
