(* ===== verification/CostBroker.thy ===== *)
theory CostBroker
  imports Metrics
begin

text \<open>
  The cost broker of \<open>crates/squeezy-agent/src/cost_broker.rs\<close>: the per-turn budgets, the session cost
  cap with its one-shot notices, and the pre-flight projections.  The model registry's pricing table
  is the parameter \<open>pricing_of\<close>; \<open>estimate_cost\<close> is that of \<open>crates/squeezy-llm/src/registry.rs\<close>.
  The token calibration (floating point) is opaque state of type \<open>'cal\<close>.
\<close>

section \<open>Pricing\<close>

record token_pricing =
  tp_input :: u64
  tp_output :: u64
  tp_cache_read :: "u64 option"
  tp_cache_write :: "u64 option"

type_synonym pricing_table = "str \<Rightarrow> str \<Rightarrow> token_pricing option"

definition or_zero :: "u64 option \<Rightarrow> u64" where
  "or_zero v = (case v of None \<Rightarrow> 0 | Some x \<Rightarrow> x)"

definition estimate_tokens :: "u64 \<Rightarrow> u64 \<Rightarrow> u64" where
  "estimate_tokens tokens usd_micros_per_mtok = saturating_mul tokens usd_micros_per_mtok div 1000000"

definition estimate :: "u64 option \<Rightarrow> u64 \<Rightarrow> u64" where
  "estimate tokens usd_micros_per_mtok = estimate_tokens (or_zero tokens) usd_micros_per_mtok"

definition estimate_cost :: "pricing_table \<Rightarrow> str \<Rightarrow> str \<Rightarrow> cost_snapshot \<Rightarrow> u64 option" where
  "estimate_cost pricing_of provider model cost =
     (case pricing_of provider model of None \<Rightarrow> None
      | Some pricing \<Rightarrow>
          (let cached = or_zero (cached_input_tokens cost);
               cache_write = or_zero (cache_write_input_tokens cost);
               standard = saturating_sub (saturating_sub (or_zero (input_tokens cost)) cached) cache_write
           in Some (estimate_tokens standard (tp_input pricing)
                + estimate (output_tokens cost) (tp_output pricing)
                + estimate_tokens cached (or_zero (tp_cache_read pricing))
                + estimate_tokens cache_write (or_zero (tp_cache_write pricing)))))"

section \<open>State\<close>

record cost_cap_status =
  ccs_spent :: u64
  ccs_cap :: u64
  ccs_percent :: u8

record round_input_gate_status =
  rig_estimated_input_tokens :: u64
  rig_limit_tokens :: u64
  rig_estimated_usd_micros :: "u64 option"

record cost_progress_snapshot =
  cps_tool_count :: u64
  cps_input_tokens :: u64
  cps_micro_usd :: u64

record 'cal cost_broker =
  cb_max_tool_calls :: u64
  cb_max_bytes_read :: u64
  cb_max_search_files :: u64
  cb_metrics :: turn_metrics
  cb_session_cost_usd_micros :: u64
  cb_session_cost :: cost_snapshot
  cb_max_session_cost_usd_micros :: "u64 option"
  cb_cost_warn_percent :: u8
  cb_warn_emitted :: bool
  cb_cap_unenforceable_emitted :: bool
  cb_pressure_gate_emitted :: bool
  cb_calibration :: 'cal

text \<open>The fields of \<open>AppConfig\<close> the broker reads.\<close>

record broker_config =
  bc_max_tool_calls_per_turn :: u64
  bc_max_tool_bytes_read_per_turn :: u64
  bc_max_search_files_per_turn :: u64
  bc_max_session_cost_usd_micros :: "u64 option"
  bc_cost_warn_percent :: u8

definition PRESSURE_GATE_PERCENT :: u8 where
  "PRESSURE_GATE_PERCENT = 80"

definition PROJECTED_OUTPUT_TOKEN_FALLBACK :: u64 where
  "PROJECTED_OUTPUT_TOKEN_FALLBACK = 1024"

definition clamp_percent :: "u8 \<Rightarrow> u8" where
  "clamp_percent p = max 1 (min 100 p)"

definition cost_broker_new :: "'cal \<Rightarrow> broker_config \<Rightarrow> 'cal cost_broker" where
  "cost_broker_new default_calibration config =
     \<lparr>cb_max_tool_calls = bc_max_tool_calls_per_turn config,
      cb_max_bytes_read = bc_max_tool_bytes_read_per_turn config,
      cb_max_search_files = bc_max_search_files_per_turn config,
      cb_metrics = empty_turn,
      cb_session_cost_usd_micros = 0,
      cb_session_cost = empty_cost,
      cb_max_session_cost_usd_micros =
        (case bc_max_session_cost_usd_micros config of None \<Rightarrow> None
         | Some cap \<Rightarrow> if 0 < cap then Some cap else None),
      cb_cost_warn_percent = clamp_percent (bc_cost_warn_percent config),
      cb_warn_emitted = False, cb_cap_unenforceable_emitted = False,
      cb_pressure_gate_emitted = False, cb_calibration = default_calibration\<rparr>"

text \<open>
  The \<open>u128\<close> arithmetic of the two percentage helpers: the products stay below \<open>2 ^ 72\<close>, so they are
  written on natural numbers.
\<close>

definition warn_threshold_micros :: "u64 \<Rightarrow> u8 \<Rightarrow> u64" where
  "warn_threshold_micros cap warn_percent =
     of_nat (min (2 ^ 64 - 1) (unat cap * unat (clamp_percent warn_percent) div 100))"

definition cap_percent :: "u64 \<Rightarrow> u64 \<Rightarrow> u8" where
  "cap_percent spent cap =
     (if cap = 0 then 0 else of_nat (min 255 (unat spent * 100 div unat cap)))"

definition cap_status :: "u64 \<Rightarrow> u64 \<Rightarrow> cost_cap_status" where
  "cap_status spent cap = \<lparr>ccs_spent = spent, ccs_cap = cap, ccs_percent = cap_percent spent cap\<rparr>"

section \<open>Operations\<close>

definition seed_session :: "cost_snapshot \<Rightarrow> 'cal \<Rightarrow> 'cal cost_broker \<Rightarrow> 'cal cost_broker" where
  "seed_session prior_cost calibration b =
     (let b = b\<lparr>cb_session_cost := prior_cost,
               cb_session_cost_usd_micros := or_zero (estimated_usd_micros prior_cost),
               cb_calibration := calibration\<rparr>
      in case cb_max_session_cost_usd_micros b of None \<Rightarrow> b
         | Some cap \<Rightarrow>
             if warn_threshold_micros cap (cb_cost_warn_percent b) \<le> cb_session_cost_usd_micros b
             then b\<lparr>cb_warn_emitted := True\<rparr> else b)"

definition record_round_metrics ::
  "str \<Rightarrow> str \<Rightarrow> cost_origin \<Rightarrow> cost_snapshot \<Rightarrow> turn_metrics \<Rightarrow> turn_metrics" where
  "record_round_metrics provider model origin cost t =
     (let t = record_provider cost t
      in t\<lparr>tm_model_ledger := ledger_record provider model origin cost (tm_model_ledger t)\<rparr>)"

definition record_provider_cost ::
  "str \<Rightarrow> str \<Rightarrow> cost_origin \<Rightarrow> cost_snapshot \<Rightarrow> 'cal cost_broker
     \<Rightarrow> cost_cap_status option \<times> 'cal cost_broker" where
  "record_provider_cost provider model origin cost b =
     (let b = b\<lparr>cb_metrics := record_round_metrics provider model origin cost (cb_metrics b),
               cb_session_cost := merge_cost_snapshot (cb_session_cost b) cost,
               cb_session_cost_usd_micros :=
                 saturating_add (cb_session_cost_usd_micros b) (or_zero (estimated_usd_micros cost))\<rparr>
      in case cb_max_session_cost_usd_micros b of None \<Rightarrow> (None, b)
         | Some cap \<Rightarrow>
             if cb_warn_emitted b then (None, b)
             else if cb_session_cost_usd_micros b < warn_threshold_micros cap (cb_cost_warn_percent b)
             then (None, b)
             else (Some (cap_status (cb_session_cost_usd_micros b) cap), b\<lparr>cb_warn_emitted := True\<rparr>))"

definition session_cost_snapshot :: "'cal cost_broker \<Rightarrow> cost_snapshot" where
  "session_cost_snapshot b =
     (cb_session_cost b)\<lparr>estimated_usd_micros := Some (cb_session_cost_usd_micros b)\<rparr>"

definition note_unenforceable_cap_round ::
  "cost_snapshot \<Rightarrow> 'cal cost_broker \<Rightarrow> bool \<times> 'cal cost_broker" where
  "note_unenforceable_cap_round cost b =
     (if cb_max_session_cost_usd_micros b = None \<or> estimated_usd_micros cost \<noteq> None
         \<or> cb_cap_unenforceable_emitted b
      then (False, b) else (True, b\<lparr>cb_cap_unenforceable_emitted := True\<rparr>))"

definition session_cap_reached :: "'cal cost_broker \<Rightarrow> cost_cap_status option" where
  "session_cap_reached b =
     (case cb_max_session_cost_usd_micros b of None \<Rightarrow> None
      | Some cap \<Rightarrow>
          if cap \<le> cb_session_cost_usd_micros b
          then Some (cap_status (cb_session_cost_usd_micros b) cap) else None)"

definition pressure_percent :: "'cal cost_broker \<Rightarrow> u8 option" where
  "pressure_percent b =
     map_option (cap_percent (cb_session_cost_usd_micros b)) (cb_max_session_cost_usd_micros b)"

definition pressure_gate :: "'cal cost_broker \<Rightarrow> cost_cap_status option \<times> 'cal cost_broker" where
  "pressure_gate b =
     (if cb_pressure_gate_emitted b then (None, b)
      else case pressure_percent b of None \<Rightarrow> (None, b)
      | Some percent \<Rightarrow>
          if percent < PRESSURE_GATE_PERCENT then (None, b)
          else case cb_max_session_cost_usd_micros b of None \<Rightarrow> (None, b)
          | Some cap \<Rightarrow>
              (Some \<lparr>ccs_spent = cb_session_cost_usd_micros b, ccs_cap = cap, ccs_percent = percent\<rparr>,
               b\<lparr>cb_pressure_gate_emitted := True\<rparr>))"

definition projection :: "u64 \<Rightarrow> u64 \<Rightarrow> cost_snapshot" where
  "projection inp outp = empty_cost\<lparr>input_tokens := Some inp, output_tokens := Some outp\<rparr>"

definition projected_session_cap_overrun ::
  "pricing_table \<Rightarrow> str \<Rightarrow> str \<Rightarrow> u64 \<Rightarrow> u64 \<Rightarrow> 'cal cost_broker \<Rightarrow> cost_cap_status option" where
  "projected_session_cap_overrun pricing_of provider model projected_input_tokens projected_output_tokens b =
     (case cb_max_session_cost_usd_micros b of None \<Rightarrow> None
      | Some cap \<Rightarrow>
          (case estimate_cost pricing_of provider model
                  (projection projected_input_tokens projected_output_tokens) of None \<Rightarrow> None
           | Some projected_round_micros \<Rightarrow>
               (let projected_total = saturating_add (cb_session_cost_usd_micros b) projected_round_micros
                in if projected_total < cap then None else Some (cap_status projected_total cap))))"

definition projected_output_tokens :: "u32 option \<Rightarrow> u64 option \<Rightarrow> u64" where
  "projected_output_tokens configured model_max =
     (case configured of Some n \<Rightarrow> ucast n
      | None \<Rightarrow> (case model_max of Some n \<Rightarrow> n | None \<Rightarrow> PROJECTED_OUTPUT_TOKEN_FALLBACK))"

definition round_input_gate ::
  "pricing_table \<Rightarrow> u64 option \<Rightarrow> u64 \<Rightarrow> str \<Rightarrow> str \<Rightarrow> u64 \<Rightarrow> round_input_gate_status option" where
  "round_input_gate pricing_of max_round_input_tokens estimated_input_tokens provider model projected_output =
     (case max_round_input_tokens of None \<Rightarrow> None
      | Some limit_tokens \<Rightarrow>
          if estimated_input_tokens \<le> limit_tokens then None
          else Some \<lparr>rig_estimated_input_tokens = estimated_input_tokens, rig_limit_tokens = limit_tokens,
                     rig_estimated_usd_micros =
                       estimate_cost pricing_of provider model
                         (projection estimated_input_tokens projected_output)\<rparr>)"

definition record_out_of_band_session_cost :: "u64 \<Rightarrow> 'cal cost_broker \<Rightarrow> 'cal cost_broker" where
  "record_out_of_band_session_cost usd_micros b =
     (if usd_micros = 0 then b
      else b\<lparr>cb_session_cost_usd_micros := saturating_add (cb_session_cost_usd_micros b) usd_micros\<rparr>)"

subsection \<open>Tool budgets\<close>

definition reserve_call :: "'cal cost_broker \<Rightarrow> ((u64 \<times> str) + u64) \<times> 'cal cost_broker" where
  "reserve_call b =
     (let tool_sequence = tm_tool_calls (cb_metrics b) + 1;
          b = b\<lparr>cb_metrics := (cb_metrics b)\<lparr>tm_tool_calls := tool_sequence\<rparr>\<rparr>
      in (if cb_max_tool_calls b < tool_sequence
          then Inl (tool_sequence, lit ''per-turn tool-call budget exceeded: limit=''
                                   @ show_nat (unat (cb_max_tool_calls b)))
          else Inr tool_sequence, b))"

definition deny_reason :: "'cal cost_broker \<Rightarrow> str option" where
  "deny_reason b =
     (if cb_max_bytes_read b \<le> tm_bytes_read (cb_metrics b)
      then Some (lit ''per-turn tool byte-read budget exceeded: limit=''
                 @ show_nat (unat (cb_max_bytes_read b)))
      else if cb_max_search_files b \<le> tm_files_scanned (cb_metrics b)
      then Some (lit ''per-turn search file-scan budget exceeded: limit=''
                 @ show_nat (unat (cb_max_search_files b)))
      else None)"

definition enforces_result_budgets :: "'cal cost_broker \<Rightarrow> bool" where
  "enforces_result_budgets b \<longleftrightarrow> cb_max_bytes_read b < U64_MAX \<or> cb_max_search_files b < U64_MAX"

datatype tool_status = ToolSuccess | ToolError | ToolDenied | ToolStale | ToolCancelled

text \<open>
  What the broker reads of a \<open>ToolResult\<close>: \<open>tr_content_bool key\<close> is \<open>content.get(key).as_bool()\<close>, and
  \<open>tr_model_output_len\<close> the byte length of the rendering sent to the model.
\<close>

record tool_result =
  tr_tool_name :: str
  tr_status :: tool_status
  tr_files_scanned :: u64
  tr_bytes_read :: u64
  tr_matches_returned :: u64
  tr_redactions :: u64
  tr_content_bool :: "str \<Rightarrow> bool option"
  tr_model_output_len :: u64

definition is_budget_denied :: "tool_result \<Rightarrow> bool" where
  "is_budget_denied r \<longleftrightarrow> tr_content_bool r (lit ''budget_denied'') = Some True"

definition count_status :: "tool_status \<Rightarrow> turn_metrics \<Rightarrow> turn_metrics" where
  "count_status st t =
     (case st of
        ToolSuccess \<Rightarrow> t\<lparr>tm_tool_successes := tm_tool_successes t + 1\<rparr>
      | ToolError \<Rightarrow> t\<lparr>tm_tool_errors := tm_tool_errors t + 1\<rparr>
      | ToolStale \<Rightarrow> t\<lparr>tm_tool_errors := tm_tool_errors t + 1\<rparr>
      | ToolDenied \<Rightarrow> t\<lparr>tm_tool_denials := tm_tool_denials t + 1\<rparr>
      | ToolCancelled \<Rightarrow> t\<lparr>tm_tool_cancellations := tm_tool_cancellations t + 1\<rparr>)"

definition record_result_metrics :: "tool_result \<Rightarrow> turn_metrics \<Rightarrow> turn_metrics" where
  "record_result_metrics r t =
     (let t = count_status (tr_status r) t;
          t = t\<lparr>tm_files_scanned := tm_files_scanned t + tr_files_scanned r,
               tm_bytes_read := tm_bytes_read t + tr_bytes_read r,
               tm_matches_returned := tm_matches_returned t + tr_matches_returned r,
               tm_redactions := tm_redactions t + tr_redactions r\<rparr>;
          t = (if tr_content_bool r (lit ''spilled'') = Some True
               then t\<lparr>tm_spill_writes := tm_spill_writes t + 1\<rparr> else t);
          t = (if tr_tool_name r = lit ''read_tool_output'' \<and> tr_status r = ToolSuccess
               then t\<lparr>tm_spill_reads := tm_spill_reads t + 1\<rparr> else t)
      in if is_budget_denied r then t\<lparr>tm_budget_denials := tm_budget_denials t + 1\<rparr> else t)"

definition record_executed_result :: "tool_result \<Rightarrow> 'cal cost_broker \<Rightarrow> 'cal cost_broker" where
  "record_executed_result r b = b\<lparr>cb_metrics := record_result_metrics r (cb_metrics b)\<rparr>"

definition progress_snapshot_if_due :: "u64 \<Rightarrow> 'cal cost_broker \<Rightarrow> cost_progress_snapshot option" where
  "progress_snapshot_if_due stride b =
     (let m = cb_metrics b;
          total = saturating_add (saturating_add (saturating_add (tm_tool_successes m) (tm_tool_errors m))
                    (tm_tool_denials m)) (tm_tool_cancellations m)
      in if stride = 0 \<or> total = 0 \<or> total mod stride \<noteq> 0 then None
         else Some \<lparr>cps_tool_count = total,
                    cps_input_tokens = or_zero (input_tokens (tm_provider m)),
                    cps_micro_usd = or_zero (estimated_usd_micros (tm_provider m))\<rparr>)"

definition record_model_result :: "tool_result \<Rightarrow> 'cal cost_broker \<Rightarrow> 'cal cost_broker" where
  "record_model_result r b =
     (let t = cb_metrics b;
          t = t\<lparr>tm_model_output_bytes := tm_model_output_bytes t + tr_model_output_len r\<rparr>;
          t = (if tr_content_bool r (lit ''receipt_stub'') = Some True
               then t\<lparr>tm_receipt_stub_hits := tm_receipt_stub_hits t + 1\<rparr> else t);
          t = (if tr_content_bool r (lit ''negative_receipt_stub'') = Some True
               then t\<lparr>tm_negative_receipt_hits := tm_negative_receipt_hits t + 1\<rparr> else t)
      in b\<lparr>cb_metrics := t\<rparr>)"

section \<open>Thresholds\<close>

lemma unat_clamp_percent: "1 \<le> unat (clamp_percent p) \<and> unat (clamp_percent p) \<le> 100"
proof -
  have "1 \<le> clamp_percent p \<and> clamp_percent p \<le> 100" by (simp add: clamp_percent_def)
  then show ?thesis by (simp add: word_le_nat_alt)
qed

lemma unat_warn_threshold:
  "unat (warn_threshold_micros cap p) = unat cap * unat (clamp_percent p) div 100"
proof -
  have "unat cap * unat (clamp_percent p) div 100 \<le> unat cap * 100 div 100"
    using unat_clamp_percent [of p] by (intro div_le_mono mult_le_mono2) simp
  then have le: "unat cap * unat (clamp_percent p) div 100 \<le> unat cap" by simp
  also have "unat cap < 2 ^ 64" using unat_u64_lt [of cap] by simp
  finally show ?thesis by (simp add: warn_threshold_micros_def unat_of_nat min_def take_bit_nat_eq_self)
qed

lemma warn_threshold_le_cap: "warn_threshold_micros cap p \<le> cap"
proof -
  have "unat cap * unat (clamp_percent p) div 100 \<le> unat cap * 100 div 100"
    using unat_clamp_percent [of p] by (intro div_le_mono mult_le_mono2) simp
  then show ?thesis by (simp add: word_le_nat_alt unat_warn_threshold)
qed

lemma unat_cap_percent:
  "cap \<noteq> 0 \<Longrightarrow> unat (cap_percent spent cap) = min 255 (unat spent * 100 div unat cap)"
  by (simp add: cap_percent_def unat_of_nat take_bit_nat_eq_self)

lemma cap_percent_at_cap:
  assumes "cap \<noteq> 0" "cap \<le> spent"
  shows "PRESSURE_GATE_PERCENT \<le> cap_percent spent cap"
proof -
  have "0 < unat cap" using assms(1) by (simp add: unat_gt_0)
  moreover have "unat cap * 100 \<le> unat spent * 100" using assms(2) by (simp add: word_le_nat_alt)
  ultimately have "100 \<le> unat spent * 100 div unat cap"
    by (metis div_le_mono nonzero_mult_div_cancel_left less_numeral_extra(3))
  then show ?thesis using assms(1)
    by (simp add: PRESSURE_GATE_PERCENT_def word_le_nat_alt unat_cap_percent)
qed

section \<open>Runs of the broker\<close>

datatype broker_op =
    RoundOp str str cost_origin cost_snapshot
  | OutOfBandOp u64
  | GateOp
  | UnpricedOp cost_snapshot
  | ReserveOp
  | ExecutedOp tool_result
  | ModelResultOp tool_result

datatype broker_event = WarnEvent cost_cap_status | GateEvent cost_cap_status | UnpricedEvent

fun broker_step :: "broker_op \<Rightarrow> 'cal cost_broker \<Rightarrow> broker_event list \<times> 'cal cost_broker" where
  "broker_step (RoundOp p m origin c) b =
     (case record_provider_cost p m origin c b of
        (Some st, b') \<Rightarrow> ([WarnEvent st], b') | (None, b') \<Rightarrow> ([], b'))"
| "broker_step (OutOfBandOp n) b = ([], record_out_of_band_session_cost n b)"
| "broker_step GateOp b =
     (case pressure_gate b of (Some st, b') \<Rightarrow> ([GateEvent st], b') | (None, b') \<Rightarrow> ([], b'))"
| "broker_step (UnpricedOp c) b =
     (case note_unenforceable_cap_round c b of (noted, b') \<Rightarrow> (if noted then [UnpricedEvent] else [], b'))"
| "broker_step ReserveOp b = ([], snd (reserve_call b))"
| "broker_step (ExecutedOp r) b = ([], record_executed_result r b)"
| "broker_step (ModelResultOp r) b = ([], record_model_result r b)"

fun broker_run :: "broker_op list \<Rightarrow> 'cal cost_broker \<Rightarrow> broker_event list \<times> 'cal cost_broker" where
  "broker_run [] b = ([], b)"
| "broker_run (op # ops) b =
     (let (evs, b') = broker_step op b; (rest, b'') = broker_run ops b' in (evs @ rest, b''))"

definition is_warn :: "broker_event \<Rightarrow> bool" where
  "is_warn e \<longleftrightarrow> (case e of WarnEvent _ \<Rightarrow> True | _ \<Rightarrow> False)"

definition is_gate :: "broker_event \<Rightarrow> bool" where
  "is_gate e \<longleftrightarrow> (case e of GateEvent _ \<Rightarrow> True | _ \<Rightarrow> False)"

definition occurrences :: "(broker_event \<Rightarrow> bool) \<Rightarrow> broker_event list \<Rightarrow> nat" where
  "occurrences p evs = length (filter p evs)"

text \<open>A notice with its latch: it is emitted at most once, only while the latch is open.\<close>

locale one_shot =
  fixes notice :: "broker_event \<Rightarrow> bool" and latch :: "'cal cost_broker \<Rightarrow> bool"
  assumes step_latch: "broker_step op b = (evs, b') \<Longrightarrow>
    occurrences notice evs + (if latch b then 1 else 0) \<le> (if latch b' then 1 else 0)"
begin

lemma run_latch:
  "broker_run ops b = (evs, b') \<Longrightarrow>
     occurrences notice evs + (if latch b then 1 else 0) \<le> (if latch b' then 1 else 0)"
proof (induction ops arbitrary: b evs)
  case (Cons op ops)
  obtain e1 b1 rest where s: "broker_step op b = (e1, b1)" "broker_run ops b1 = (rest, b')" "evs = e1 @ rest"
    using Cons.prems by (auto simp: Let_def split: prod.splits)
  from step_latch [OF s(1)] Cons.IH [OF s(2)] s(3) show ?case
    by (simp add: occurrences_def)
qed (simp add: occurrences_def)

lemma at_most_once: "broker_run ops b = (evs, b') \<Longrightarrow> occurrences notice evs \<le> (if latch b then 0 else 1)"
  using run_latch [of ops b evs b'] by (simp split: if_splits)

end

lemmas broker_defs = record_provider_cost_def record_out_of_band_session_cost_def pressure_gate_def
  note_unenforceable_cap_round_def reserve_call_def record_executed_result_def record_model_result_def
  Let_def

interpretation warn_notice: one_shot is_warn cb_warn_emitted
proof
  fix op and b b' :: "'a cost_broker" and evs
  assume "broker_step op b = (evs, b')"
  then show "occurrences is_warn evs + (if cb_warn_emitted b then 1 else 0)
      \<le> (if cb_warn_emitted b' then 1 else 0)"
    by (cases op) (auto simp: broker_defs occurrences_def is_warn_def split: option.splits if_splits)
qed

interpretation gate_notice: one_shot is_gate cb_pressure_gate_emitted
proof
  fix op and b b' :: "'a cost_broker" and evs
  assume "broker_step op b = (evs, b')"
  then show "occurrences is_gate evs + (if cb_pressure_gate_emitted b then 1 else 0)
      \<le> (if cb_pressure_gate_emitted b' then 1 else 0)"
    by (cases op) (auto simp: broker_defs occurrences_def is_gate_def split: option.splits if_splits)
qed

interpretation unpriced_notice: one_shot "\<lambda>e. e = UnpricedEvent" cb_cap_unenforceable_emitted
proof
  fix op and b b' :: "'a cost_broker" and evs
  assume "broker_step op b = (evs, b')"
  then show "occurrences (\<lambda>e. e = UnpricedEvent) evs + (if cb_cap_unenforceable_emitted b then 1 else 0)
      \<le> (if cb_cap_unenforceable_emitted b' then 1 else 0)"
    by (cases op) (auto simp: broker_defs occurrences_def split: option.splits if_splits)
qed

lemma step_frame:
  "broker_step op b = (evs, b') \<Longrightarrow>
     cb_max_session_cost_usd_micros b' = cb_max_session_cost_usd_micros b
     \<and> cb_session_cost_usd_micros b \<le> cb_session_cost_usd_micros b'"
  by (cases op) (auto simp: broker_defs saturating_add_ge split: option.splits if_splits)

lemma run_frame:
  "broker_run ops b = (evs, b') \<Longrightarrow>
     cb_max_session_cost_usd_micros b' = cb_max_session_cost_usd_micros b
     \<and> cb_session_cost_usd_micros b \<le> cb_session_cost_usd_micros b'"
proof (induction ops arbitrary: b evs)
  case (Cons op ops)
  obtain e1 b1 rest where s: "broker_step op b = (e1, b1)" "broker_run ops b1 = (rest, b')"
    using Cons.prems by (auto simp: Let_def split: prod.splits)
  from step_frame [OF s(1)] Cons.IH [OF s(2)] show ?case by (auto intro: order_trans)
qed simp

text \<open>Each notice of the broker is one-shot.  Over any sequence of recorded rounds, out-of-band
  spend, gate checks, unpriced rounds and tool results, the cost warning, the pressure gate and the
  unenforceable-cap notice are each emitted at most once, never if already latched; the cap never
  changes and the session cost never decreases, so a reached cap stays reached.\<close>

theorem notices_at_most_once:
  "(case broker_run ops b of (evs, b') \<Rightarrow>
      occurrences is_warn evs \<le> (if cb_warn_emitted b then 0 else 1)
      \<and> occurrences is_gate evs \<le> (if cb_pressure_gate_emitted b then 0 else 1)
      \<and> occurrences (\<lambda>e. e = UnpricedEvent) evs \<le> (if cb_cap_unenforceable_emitted b then 0 else 1)
      \<and> cb_max_session_cost_usd_micros b' = cb_max_session_cost_usd_micros b
      \<and> cb_session_cost_usd_micros b \<le> cb_session_cost_usd_micros b')"
proof -
  obtain evs b' where run: "broker_run ops b = (evs, b')" by fastforce
  show ?thesis unfolding run prod.case
    using warn_notice.at_most_once [OF run] gate_notice.at_most_once [OF run]
      unpriced_notice.at_most_once [OF run] run_frame [OF run] by blast
qed


definition sample_config :: broker_config where
  "sample_config = \<lparr>bc_max_tool_calls_per_turn = 2, bc_max_tool_bytes_read_per_turn = 100,
     bc_max_search_files_per_turn = 10, bc_max_session_cost_usd_micros = Some 1000,
     bc_cost_warn_percent = 50\<rparr>"

definition sample_broker :: "unit cost_broker" where
  "sample_broker = cost_broker_new () sample_config"

lemmas sample_eval = sample_broker_def sample_config_def cost_broker_new_def sample_cost_def empty_cost_def
  record_provider_cost_def saturating_add_code U64_MAX_def or_zero_def Let_def


text \<open>The pre-flight projection is sound.  If it lets a round through for a priced model and the
  round then costs no more than the projection, the session is still below its cap afterwards.\<close>

theorem preflight_keeps_below_cap:
  assumes "projected_session_cap_overrun pricing_of p m inp outp b = None"
    and "estimate_cost pricing_of p m (projection inp outp) = Some projected"
    and "or_zero (estimated_usd_micros c) \<le> projected"
  shows "session_cap_reached (snd (record_provider_cost p m origin c b)) = None"
proof (cases "cb_max_session_cost_usd_micros b")
  case (Some cap)
  with assms(1,2) have below: "saturating_add (cb_session_cost_usd_micros b) projected < cap"
    by (simp add: projected_session_cap_overrun_def Let_def split: if_splits)
  have "saturating_add (cb_session_cost_usd_micros b) (or_zero (estimated_usd_micros c))
      \<le> saturating_add (cb_session_cost_usd_micros b) projected"
    using assms(3) by (simp add: word_le_nat_alt unat_saturating_add)
  also note below
  finally show ?thesis
    using Some by (auto simp: record_provider_cost_def session_cap_reached_def Let_def not_le [symmetric])
qed (simp add: record_provider_cost_def session_cap_reached_def Let_def)

lemma preflight_keeps_below_cap_witness:
  "session_cap_reached (snd (record_provider_cost (lit ''p'') (lit ''m'') MainOrigin (sample_cost 10) sample_broker))
     = None"
proof (rule preflight_keeps_below_cap)
  let ?pricing = "\<lambda>_ _. Some \<lparr>tp_input = 1000000, tp_output = 2000000, tp_cache_read = None, tp_cache_write = None\<rparr>"
  show "projected_session_cap_overrun ?pricing (lit ''p'') (lit ''m'') 100 50 sample_broker = None"
    by (simp add: sample_eval projected_session_cap_overrun_def estimate_cost_def estimate_def
        estimate_tokens_def saturating_mul_code saturating_sub_def projection_def)
  show "estimate_cost ?pricing (lit ''p'') (lit ''m'') (projection 100 50) = Some 200"
    by (simp add: sample_eval estimate_cost_def estimate_def estimate_tokens_def saturating_mul_code
        saturating_sub_def projection_def)
  show "or_zero (estimated_usd_micros (sample_cost 10)) \<le> 200" by (simp add: sample_eval)
qed

section \<open>Tool budgets\<close>

fun reserve_many :: "nat \<Rightarrow> 'cal cost_broker \<Rightarrow> ((u64 \<times> str) + u64) list" where
  "reserve_many 0 b = []"
| "reserve_many (Suc n) b = (let (r, b') = reserve_call b in r # reserve_many n b')"

definition granted :: "((u64 \<times> str) + u64) list \<Rightarrow> u64 list" where
  "granted rs = List.map_filter (\<lambda>r. case r of Inl _ \<Rightarrow> None | Inr n \<Rightarrow> Some n) rs"

lemma granted_Cons [simp]: "granted (Inl e # rs) = granted rs" "granted (Inr n # rs) = n # granted rs"
  by (simp_all add: granted_def List.map_filter_simps)

lemma granted_Nil [simp]: "granted [] = []"
  by (simp add: granted_def List.map_filter_simps)

lemma granted_reserve_many:
  "unat (tm_tool_calls (cb_metrics b)) + n < 2 ^ 64 \<Longrightarrow>
     map unat (granted (reserve_many n b))
       = [unat (tm_tool_calls (cb_metrics b)) + 1 ..<
          min (unat (tm_tool_calls (cb_metrics b)) + n) (unat (cb_max_tool_calls b)) + 1]"
proof (induction n arbitrary: b)
  case (Suc n)
  let ?k = "unat (tm_tool_calls (cb_metrics b))"
  let ?b = "b\<lparr>cb_metrics := (cb_metrics b)\<lparr>tm_tool_calls := tm_tool_calls (cb_metrics b) + 1\<rparr>\<rparr>"
  have k: "unat (tm_tool_calls (cb_metrics b) + 1) = ?k + 1"
    using Suc.prems by (subst unat_add_lem [THEN iffD1]) (auto simp: unat_add_lem [symmetric])
  let ?m = "min (?k + Suc n) (unat (cb_max_tool_calls b))"
  have IH: "map unat (granted (reserve_many n ?b)) = [Suc (?k + 1) ..< ?m + 1]"
    using Suc.IH [of ?b] Suc.prems by (simp add: k)
  show ?case
  proof (cases "cb_max_tool_calls b < tm_tool_calls (cb_metrics b) + 1")
    case True
    then have "unat (cb_max_tool_calls b) \<le> ?k" by (simp add: word_less_nat_alt k)
    with True IH show ?thesis by (simp add: reserve_call_def Let_def)
  next
    case False
    then have "?k + 1 < ?m + 1" by (simp add: word_less_nat_alt k)
    then have upt: "[?k + 1 ..< ?m + 1] = (?k + 1) # [Suc (?k + 1) ..< ?m + 1]" by (rule upt_conv_Cons)
    have "reserve_many (Suc n) b = Inr (tm_tool_calls (cb_metrics b) + 1) # reserve_many n ?b"
      using False by (simp add: reserve_call_def Let_def)
    then have "map unat (granted (reserve_many (Suc n) b)) = (?k + 1) # map unat (granted (reserve_many n ?b))"
      by (simp add: k)
    then show ?thesis by (simp only: IH upt)
  qed
qed simp

text \<open>The tool-call budget is exact.  Out of any number of reservations from a fresh turn, exactly
  the first \<open>max_tool_calls\<close> are granted, with the sequence numbers 1, 2, 3, and so on.\<close>

theorem reserve_budget_exact:
  assumes "n < 2 ^ 64"
  shows "map unat (granted (reserve_many n (cost_broker_new cal config)))
      = [1 ..< min n (unat (bc_max_tool_calls_per_turn config)) + 1]
    \<and> length (granted (reserve_many n (cost_broker_new cal config)))
      = min n (unat (bc_max_tool_calls_per_turn config))"
proof -
  have "map unat (granted (reserve_many n (cost_broker_new cal config)))
      = [1 ..< min n (unat (bc_max_tool_calls_per_turn config)) + 1]"
    using granted_reserve_many [of "cost_broker_new cal config" n] assms
    by (simp add: cost_broker_new_def empty_turn_def)
  then show ?thesis by (metis length_map length_upt add_diff_cancel_right')
qed

lemma reserve_budget_exact_witness:
  "length (granted (reserve_many 5 sample_broker)) = 2"
proof -
  have "length (granted (reserve_many 5 (cost_broker_new () sample_config)))
      = min 5 (unat (bc_max_tool_calls_per_turn sample_config))"
    using reserve_budget_exact [of 5 "()" sample_config] by simp
  then show ?thesis by (simp add: sample_broker_def sample_config_def)
qed

definition outcomes :: "'cal cost_broker \<Rightarrow> u64" where
  "outcomes b = (let m = cb_metrics b in
     tm_tool_successes m + tm_tool_errors m + tm_tool_denials m + tm_tool_cancellations m)"

lemma outcomes_record: "outcomes (record_executed_result r b) = outcomes b + 1"
  by (cases "tr_status r")
     (simp_all add: outcomes_def record_executed_result_def record_result_metrics_def count_status_def Let_def)

lemma bytes_record: "tm_bytes_read (cb_metrics (record_executed_result r b))
    = tm_bytes_read (cb_metrics b) + tr_bytes_read r"
  by (cases "tr_status r")
     (simp_all add: record_executed_result_def record_result_metrics_def count_status_def Let_def)

text \<open>Every executed tool result is counted exactly once.  After any results, successes, errors
  (stale ones included), denials and cancellations together have grown by their number and the bytes
  read by their sum; the byte budget denies exactly from that sum on.\<close>

theorem executed_results_counted_once:
  "outcomes (fold record_executed_result rs b) = outcomes b + of_nat (length rs)
   \<and> tm_bytes_read (cb_metrics (fold record_executed_result rs b))
       = tm_bytes_read (cb_metrics b) + sum_list (map tr_bytes_read rs)
   \<and> cb_max_bytes_read (fold record_executed_result rs b) = cb_max_bytes_read b"
proof (induction rs arbitrary: b)
  case (Cons r rs)
  have "cb_max_bytes_read (record_executed_result r b) = cb_max_bytes_read b"
    by (simp add: record_executed_result_def)
  with Cons [of "record_executed_result r b"] show ?case
    by (simp add: outcomes_record bytes_record add.assoc)
qed simp

end
