(* ===== verification/ReviewTranscript.thy ===== *)
theory ReviewTranscript
  imports Prelude
begin

text \<open>
  The transcript the AI reviewer is shown (\<open>crates/squeezy-agent/src/ai_reviewer.rs\<close>): truncation of
  one entry, the summary of older entries, and the bounded rendering that keeps the recent window and
  the last user entry.  Token and character counts are \<open>usize\<close>; the sums here stay far below its
  range, so they are natural numbers, with the code's \<open>saturating_sub\<close> as truncated subtraction.
\<close>

datatype transcript_role = UserRole | AssistantRole | SystemRole

record transcript_item =
  ti_role :: transcript_role
  ti_content :: str

fun role_label :: "transcript_role \<Rightarrow> str" where
  "role_label UserRole = lit ''user''"
| "role_label AssistantRole = lit ''assistant''"
| "role_label SystemRole = lit ''system''"

definition RECENT_WINDOW_ITEMS :: nat where "RECENT_WINDOW_ITEMS = 8"
definition MAX_USER_TOKENS :: nat where "MAX_USER_TOKENS = 2000"
definition MAX_OTHER_TOKENS :: nat where "MAX_OTHER_TOKENS = 400"
definition SUMMARY_TOKEN_RESERVE :: nat where "SUMMARY_TOKEN_RESERVE = 200"
definition CHARS_PER_TOKEN :: nat where "CHARS_PER_TOKEN = 4"

definition truncated_suffix :: str where
  "truncated_suffix = lit '' [truncated]''"

text \<open>The loop over \<open>char_indices\<close> returns the cut text when it meets the character number \<open>max_chars\<close>.\<close>

definition truncate_chars :: "str \<Rightarrow> nat \<Rightarrow> str" where
  "truncate_chars value max_chars =
     (if max_chars < length value then take (max_chars - 12) value @ truncated_suffix else value)"

definition approx_tokens :: "str \<Rightarrow> nat" where
  "approx_tokens value = (length value + 3) div 4"

definition format_transcript_line :: "nat \<Rightarrow> transcript_item \<Rightarrow> nat \<Rightarrow> str option" where
  "format_transcript_line index item max_tokens =
     (if max_tokens = 0 then None
      else Some (show_nat index @ [COLON] @ role_label (ti_role item) @ lit '': ''
                 @ truncate_chars (ti_content item) (max_tokens * CHARS_PER_TOKEN)))"

text \<open>\<open>Iterator::rposition\<close> of a user entry.\<close>

fun last_user_index :: "nat \<Rightarrow> transcript_item list \<Rightarrow> nat option" where
  "last_user_index i [] = None"
| "last_user_index i (item # items) =
     (case last_user_index (Suc i) items of Some j \<Rightarrow> Some j
      | None \<Rightarrow> if ti_role item = UserRole then Some i else None)"

definition count_role :: "transcript_role \<Rightarrow> transcript_item list \<Rightarrow> nat" where
  "count_role role items = length (filter (\<lambda>i. ti_role i = role) items)"

definition summary_header :: "transcript_item list \<Rightarrow> str" where
  "summary_header older =
     lit ''[summary of '' @ show_nat (length older) @ lit '' earlier turn(s): ''
     @ show_nat (count_role UserRole older) @ lit '' user, ''
     @ show_nat (count_role AssistantRole older) @ lit '' assistant, ''
     @ show_nat (count_role SystemRole older) @ lit '' system]''"

definition compact_older_summary :: "transcript_item list \<Rightarrow> nat option \<Rightarrow> nat \<Rightarrow> str option" where
  "compact_older_summary older last_user_global summary_budget_tokens =
     (if older = [] \<or> summary_budget_tokens = 0 then None
      else
        let header = summary_header older;
            body_budget_chars = (summary_budget_tokens - approx_tokens header) * CHARS_PER_TOKEN
        in if summary_budget_tokens \<le> approx_tokens header \<or> body_budget_chars = 0 then Some header
           else
             let pick_index = (case last_user_global of
                                 Some index \<Rightarrow> if index < length older then Some index
                                               else last_user_index 0 older
                               | None \<Rightarrow> last_user_index 0 older);
                 pick = (case pick_index of Some i \<Rightarrow> older ! i | None \<Rightarrow> last older)
             in Some (header @ [SPACE] @ role_label (ti_role pick) @ lit '': ''
                      @ truncate_chars (ti_content pick) body_budget_chars))"

type_synonym kept_lines = "(nat \<times> str) list"

text \<open>The loop over the recent entries, newest first: \<open>pairs\<close> are the global indices with their items.\<close>

fun keep_recent :: "nat option \<Rightarrow> nat \<Rightarrow> (nat \<times> transcript_item) list \<Rightarrow> nat \<Rightarrow> kept_lines \<Rightarrow> kept_lines" where
  "keep_recent last_user recent_budget [] used kept = kept"
| "keep_recent last_user recent_budget ((index, item) # pairs) used kept =
     (if Some index = last_user then keep_recent last_user recent_budget pairs used kept
      else if recent_budget \<le> used then kept
      else
        let role_cap = (if ti_role item = UserRole then MAX_USER_TOKENS else MAX_OTHER_TOKENS)
        in case format_transcript_line index item (min role_cap (recent_budget - used)) of
             Some line \<Rightarrow> keep_recent last_user recent_budget pairs (used + approx_tokens line) (kept @ [(index, line)])
           | None \<Rightarrow> keep_recent last_user recent_budget pairs used kept)"

definition push_transcript_output_line :: "str \<Rightarrow> str \<Rightarrow> str" where
  "push_transcript_output_line out line = (if out \<noteq> [] then out @ [NL] @ line else line)"

definition user_line :: "transcript_item list \<Rightarrow> nat \<Rightarrow> (nat \<times> str) option" where
  "user_line items index =
     map_option (Pair index) (format_transcript_line index (items ! index) MAX_USER_TOKENS)"

definition option_lines :: "'a option \<Rightarrow> 'a list" where
  "option_lines x = (case x of None \<Rightarrow> [] | Some a \<Rightarrow> [a])"

definition no_transcript :: str where
  "no_transcript = lit ''No recent transcript entries fit the review budget.''"

definition kept_transcript :: "transcript_item list \<Rightarrow> nat \<Rightarrow> kept_lines" where
  "kept_transcript items recent_budget =
     (let recent_start = length items - RECENT_WINDOW_ITEMS;
          last_user = last_user_index 0 items;
          user_kept = (case last_user of None \<Rightarrow> [] | Some index \<Rightarrow> option_lines (user_line items index));
          in_window = (case last_user of None \<Rightarrow> False | Some index \<Rightarrow> recent_start \<le> index);
          first = (if in_window then user_kept else []);
          kept = keep_recent last_user recent_budget
                   (rev (zip [recent_start..<length items] (drop recent_start items)))
                   (sum_list (map (approx_tokens \<circ> snd) first)) first
      in sort_key fst (if in_window then kept else kept @ user_kept))"

definition bounded_transcript :: "transcript_item list \<Rightarrow> str option \<Rightarrow> nat \<Rightarrow> str" where
  "bounded_transcript items delta_marker max_transcript_tokens =
     (if max_transcript_tokens = 0 \<or> items = [] then no_transcript
      else
        let older = take (length items - RECENT_WINDOW_ITEMS) items;
            summary_budget = (if older = [] then 0 else min SUMMARY_TOKEN_RESERVE (max_transcript_tokens div 4));
            summary = compact_older_summary older (last_user_index 0 items) summary_budget;
            lines = option_lines delta_marker @ option_lines summary
                    @ map snd (kept_transcript items (max_transcript_tokens - summary_budget));
            rendered = fold (\<lambda>line out. push_transcript_output_line out line) lines []
        in if rendered = [] then no_transcript else rendered)"

section \<open>Facts\<close>

lemma length_truncate_chars: "length (truncate_chars v m) \<le> max m 12"
proof -
  have "length truncated_suffix = 12" by (simp add: truncated_suffix_def lit_def)
  then show ?thesis by (auto simp: truncate_chars_def max_def)
qed

lemma set_keep_recent: "set kept \<subseteq> set (keep_recent lu b pairs used kept)"
proof (induction lu b pairs used kept rule: keep_recent.induct)
  case (2 lu b index item pairs used kept)
  then show ?case by (auto simp: Let_def split: option.split)
qed simp

lemma user_line_kept:
  assumes "last_user_index 0 items = Some index"
  shows "(index, show_nat index @ [COLON] @ role_label (ti_role (items ! index)) @ lit '': ''
            @ truncate_chars (ti_content (items ! index)) 8000) \<in> set (kept_transcript items budget)"
    (is "?l \<in> _")
proof -
  have u: "user_line items index = Some ?l"
    by (simp add: user_line_def format_transcript_line_def MAX_USER_TOKENS_def CHARS_PER_TOKEN_def)
  show ?thesis
    using set_keep_recent [of "[?l]"]
    by (auto simp: kept_transcript_def Let_def assms u option_lines_def)
qed

lemma push_last: "\<exists>a. push_transcript_output_line out line = a @ line"
  by (cases "out = []") (simp_all add: push_transcript_output_line_def)

lemma push_keep: "\<exists>b'. push_transcript_output_line (a @ line @ b) x = a @ line @ b'"
  by (cases "a @ line @ b = []") (simp_all add: push_transcript_output_line_def)

lemma push_lines_keep:
  "line \<in> set lines \<Longrightarrow> \<exists>a b. fold (\<lambda>line out. push_transcript_output_line out line) lines out = a @ line @ b"
proof (induction lines arbitrary: out rule: rev_induct)
  case (snoc x xs)
  show ?case
  proof (cases "line = x")
    case True
    then show ?thesis using push_last [of _ x] by simp (metis append_Nil2)
  next
    case False
    with snoc obtain a b where f: "fold (\<lambda>line out. push_transcript_output_line out line) xs out = a @ line @ b"
      by fastforce
    then show ?thesis using push_keep [of a line b x] by (simp del: append_assoc) blast
  qed
qed simp

section \<open>Properties\<close>

text \<open>The reviewer never loses what the user asked for.  However long the transcript and however
  small a positive budget, the rendered transcript contains the line of the last user entry, cut to
  eight thousand characters at most, whether that entry lies in the recent window or before it.\<close>

theorem last_user_entry_is_shown:
  assumes "last_user_index 0 items = Some index" and "0 < budget"
  shows "contains (bounded_transcript items delta_marker budget)
     (show_nat index @ [COLON] @ role_label (ti_role (items ! index)) @ lit '': ''
      @ truncate_chars (ti_content (items ! index)) 8000)"
proof -
  let ?l = "show_nat index @ [COLON] @ role_label (ti_role (items ! index)) @ lit '': ''
      @ truncate_chars (ti_content (items ! index)) 8000"
  have ne: "items \<noteq> []" using assms(1) by auto
  define lines where "lines = option_lines delta_marker
     @ option_lines (compact_older_summary (take (length items - RECENT_WINDOW_ITEMS) items) (last_user_index 0 items)
         (if take (length items - RECENT_WINDOW_ITEMS) items = [] then 0 else min SUMMARY_TOKEN_RESERVE (budget div 4)))
     @ map snd (kept_transcript items (budget
         - (if take (length items - RECENT_WINDOW_ITEMS) items = [] then 0 else min SUMMARY_TOKEN_RESERVE (budget div 4))))"
  define rendered where "rendered = fold (\<lambda>line out. push_transcript_output_line out line) lines []"
  have "?l \<in> set lines"
    using user_line_kept [OF assms(1)] unfolding lines_def by (force simp del: append_assoc)
  then obtain a b where r: "rendered = a @ ?l @ b" unfolding rendered_def using push_lines_keep by blast
  have "bounded_transcript items delta_marker budget = rendered"
    using ne assms(2) r unfolding bounded_transcript_def rendered_def lines_def Let_def by (simp only: if_False) simp
  then show ?thesis unfolding contains_iff r by blast
qed

lemma last_user_entry_is_shown_witness:
  "contains (bounded_transcript [\<lparr>ti_role = UserRole, ti_content = lit ''fix it''\<rparr>,
      \<lparr>ti_role = AssistantRole, ti_content = lit ''ok''\<rparr>] None 1) (lit ''0:user: fix it'')"
proof -
  have "last_user_index 0 [\<lparr>ti_role = UserRole, ti_content = lit ''fix it''\<rparr>,
      \<lparr>ti_role = AssistantRole, ti_content = lit ''ok''\<rparr>] = Some 0" by simp
  from last_user_entry_is_shown [OF this, of 1 None] show ?thesis
    by (simp add: show_nat.simps [of 0] truncate_chars_def lit_def)
qed

end
