(* ===== verification/Reviewer.thy ===== *)
theory Reviewer
  imports Policy CostBroker ReviewTranscript
begin

text \<open>
  The AI permission reviewer (\<open>crates/squeezy-agent/src/ai_reviewer.rs\<close>): what it may auto-approve, its
  per-turn circuit breaker, its audit ring, and \<open>review_permission\<close>.  The model call, the JSON parser,
  the file read of a policy and the clock are outside; they are the fields of \<open>reviewer_world\<close>.
\<close>

section \<open>What may be auto-approved\<close>

definition within_auto_allow_ceiling :: "capability \<Rightarrow> risk \<Rightarrow> bool" where
  "within_auto_allow_ceiling cap r =
     (if Critical \<le> r then False
      else (case cap of Network \<Rightarrow> r \<le> Medium | Mcp \<Rightarrow> r \<le> Medium | _ \<Rightarrow> r \<le> High))"

definition reviewer_request_outside_workspace :: "permission_request \<Rightarrow> bool" where
  "reviewer_request_outside_workspace request \<longleftrightarrow>
     req_metadata request (lit ''outside_workspace'') = Some (lit ''true'')"

definition reviewer_may_auto_allow :: "capability list \<Rightarrow> permission_request \<Rightarrow> bool" where
  "reviewer_may_auto_allow allow_capabilities request \<longleftrightarrow>
     req_capability request \<in> set allow_capabilities
     \<and> \<not> reviewer_request_outside_workspace request
     \<and> within_auto_allow_ceiling (req_capability request) (req_risk request)"

definition reviewer_denial_requests_human_escalation :: "str \<Rightarrow> bool" where
  "reviewer_denial_requests_human_escalation reason =
     (let lower = to_lower reason
      in (contains lower (lit ''escalat'') \<and> contains lower (lit ''human''))
         \<or> contains lower (lit ''reach a human'')
         \<or> contains lower (lit ''route to a human'')
         \<or> contains lower (lit ''ask the human'')
         \<or> contains lower (lit ''must ask'')
         \<or> contains lower (lit ''never auto-approved'')
         \<or> contains lower (lit ''not auto-approved'')
         \<or> contains lower (lit ''cannot auto-approve'')
         \<or> contains lower (lit ''can'' @ [SQUOTE] @ lit ''t auto-approve'')
         \<or> contains lower (lit ''must not auto-approve''))"

section \<open>State: circuits, cursor, audit ring\<close>

definition CONSECUTIVE_DENIAL_TRIP :: nat where "CONSECUTIVE_DENIAL_TRIP = 2"
definition RECENT_WINDOW :: nat where "RECENT_WINDOW = 20"
definition RECENT_DENIAL_TRIP :: nat where "RECENT_DENIAL_TRIP = 5"
definition AUDIT_RING_CAPACITY :: nat where "AUDIT_RING_CAPACITY = 50"
definition CIRCUIT_TURN_WINDOW :: u64 where "CIRCUIT_TURN_WINDOW = 8"

datatype audit_verdict = AuditAllow | AuditAllowDowngraded | AuditDeny | AuditNoDecision | AuditCircuitTripped

record audit_entry =
  au_recorded_at :: nat
  au_turn_id :: u64
  au_tool_name :: str
  au_capability :: capability
  au_target :: str
  au_verdict :: audit_verdict
  au_reason :: str

record turn_circuit =
  tc_tripped :: bool
  tc_consecutive :: nat
  tc_recent :: "bool list"

definition empty_circuit :: turn_circuit where
  "empty_circuit = \<lparr>tc_tripped = False, tc_consecutive = 0, tc_recent = []\<rparr>"

record reviewer_state =
  rv_circuits :: "u64 \<rightharpoonup> turn_circuit"
  rv_cursor :: "(u64 \<times> nat) option"
  rv_audit :: "audit_entry list"

definition empty_reviewer_state :: reviewer_state where
  "empty_reviewer_state = \<lparr>rv_circuits = Map.empty, rv_cursor = None, rv_audit = []\<rparr>"

definition prune_turn_circuits :: "u64 \<Rightarrow> (u64 \<rightharpoonup> turn_circuit) \<Rightarrow> (u64 \<rightharpoonup> turn_circuit)" where
  "prune_turn_circuits current circuits =
     (\<lambda>id. if current \<le> saturating_add id CIRCUIT_TURN_WINDOW then circuits id else None)"

text \<open>\<open>entry(turn).or_default()\<close> after pruning.\<close>

definition circuit_of :: "u64 \<Rightarrow> (u64 \<rightharpoonup> turn_circuit) \<Rightarrow> turn_circuit" where
  "circuit_of turn circuits = (case circuits turn of None \<Rightarrow> empty_circuit | Some c \<Rightarrow> c)"

definition update_circuit ::
  "u64 \<Rightarrow> (turn_circuit \<Rightarrow> turn_circuit) \<Rightarrow> reviewer_state \<Rightarrow> reviewer_state" where
  "update_circuit turn f s =
     (let circuits = prune_turn_circuits turn (rv_circuits s)
      in s\<lparr>rv_circuits := circuits(turn \<mapsto> f (circuit_of turn circuits))\<rparr>)"

definition trim_recent :: "bool list \<Rightarrow> bool list" where
  "trim_recent recent = drop (length recent - RECENT_WINDOW) recent"

definition bypass_reason :: "u64 \<Rightarrow> reviewer_state \<Rightarrow> str option \<times> reviewer_state" where
  "bypass_reason turn s =
     (let s' = update_circuit turn (\<lambda>c. c) s
      in (if tc_tripped (circuit_of turn (rv_circuits s'))
          then Some (lit ''ai reviewer circuit breaker is tripped for this turn'') else None, s'))"

definition record_non_denial :: "u64 \<Rightarrow> reviewer_state \<Rightarrow> reviewer_state" where
  "record_non_denial turn s =
     update_circuit turn (\<lambda>c. c\<lparr>tc_consecutive := 0, tc_recent := trim_recent (tc_recent c @ [False])\<rparr>) s"

definition count_denial :: "turn_circuit \<Rightarrow> turn_circuit" where
  "count_denial c = c\<lparr>tc_consecutive := tc_consecutive c + 1, tc_recent := trim_recent (tc_recent c @ [True])\<rparr>"

definition recent_denials :: "turn_circuit \<Rightarrow> nat" where
  "recent_denials c = length (filter (\<lambda>d. d) (tc_recent c))"

definition denial_trip :: "turn_circuit \<Rightarrow> str option" where
  "denial_trip c =
     (if CONSECUTIVE_DENIAL_TRIP \<le> tc_consecutive c
      then Some (lit ''ai reviewer denied '' @ show_nat CONSECUTIVE_DENIAL_TRIP @ lit '' requests consecutively'')
      else if RECENT_DENIAL_TRIP \<le> recent_denials c
      then Some (lit ''ai reviewer denied '' @ show_nat (recent_denials c) @ lit '' of the last ''
                 @ show_nat (length (tc_recent c)) @ lit '' reviewed requests'')
      else None)"

definition record_denial :: "u64 \<Rightarrow> reviewer_state \<Rightarrow> str option \<times> reviewer_state" where
  "record_denial turn s =
     (let circuits = prune_turn_circuits turn (rv_circuits s);
          c = count_denial (circuit_of turn circuits)
      in (denial_trip c,
          s\<lparr>rv_circuits := circuits(turn \<mapsto> c\<lparr>tc_tripped := tc_tripped c \<or> denial_trip c \<noteq> None\<rparr>)\<rparr>))"

definition transcript_delta_marker :: "u64 \<Rightarrow> nat \<Rightarrow> reviewer_state \<Rightarrow> str option \<times> reviewer_state" where
  "transcript_delta_marker history_version entry_count s =
     (case rv_cursor s of
        Some (version, seen) \<Rightarrow>
          if version = history_version \<and> seen < entry_count
          then Some (lit ''['' @ show_nat seen @ lit '' earlier entries reviewed previously and unchanged]'')
          else None
      | None \<Rightarrow> None,
      s\<lparr>rv_cursor := Some (history_version, entry_count)\<rparr>)"

definition record_audit ::
  "nat \<Rightarrow> u64 \<Rightarrow> permission_request \<Rightarrow> audit_verdict \<Rightarrow> str \<Rightarrow> reviewer_state \<Rightarrow> reviewer_state" where
  "record_audit now turn request verdict reason s =
     (let kept = (if length (rv_audit s) = AUDIT_RING_CAPACITY then drop 1 (rv_audit s) else rv_audit s)
      in s\<lparr>rv_audit := kept @ [\<lparr>au_recorded_at = now, au_turn_id = turn, au_tool_name = req_tool_name request,
             au_capability = req_capability request, au_target = req_target request,
             au_verdict = verdict, au_reason = reason\<rparr>]\<rparr>)"

section \<open>Reading the answer\<close>

text \<open>The JSON object of a text, seen through its string fields \<open>action\<close> and \<open>reason\<close>; \<open>None\<close> when it
  does not parse.\<close>

type_synonym json_reader = "str \<Rightarrow> (str option \<times> str option) option"

record reviewer_decision =
  rd_action :: permission_mode
  rd_reason :: str

definition brace_slice :: "str \<Rightarrow> str option" where
  "brace_slice text =
     (if LBRACE \<in> set text \<and> RBRACE \<in> set text
      then (let start = length (takeWhile (\<lambda>c. c \<noteq> LBRACE) text);
                stop = length text - 1 - length (takeWhile (\<lambda>c. c \<noteq> RBRACE) (rev text))
            in if stop < start then None else Some (take (stop + 1 - start) (drop start text)))
      else None)"

definition parse_reviewer_response :: "json_reader \<Rightarrow> str \<Rightarrow> reviewer_decision option" where
  "parse_reviewer_response json text =
     (case Option.bind (brace_slice text) json of None \<Rightarrow> None
      | Some (action, reason) \<Rightarrow>
          (case Option.bind action permission_mode_parse of None \<Rightarrow> None
           | Some a \<Rightarrow>
               Some \<lparr>rd_action = a,
                     rd_reason = (case reason of
                                    Some r \<Rightarrow> if trim r = [] then lit ''no reason supplied'' else trim r
                                  | None \<Rightarrow> lit ''no reason supplied'')\<rparr>))"

section \<open>The prompt\<close>

text \<open>\<open>transcript\<close> is the snapshot: items, history version and entry count.\<close>

type_synonym transcript_snapshot = "transcript_item list \<times> u64 \<times> nat"

definition load_policy ::
  "(str \<Rightarrow> str + str) \<Rightarrow> str \<Rightarrow> str \<Rightarrow> ai_reviewer_config \<Rightarrow> str + str" where
  "load_policy read_file bundled workspace_root reviewer =
     (let base = (case arc_policy_file reviewer of
                    None \<Rightarrow> Inr bundled
                  | Some policy_file \<Rightarrow>
                      (let path = (if path_is_absolute policy_file then policy_file
                                   else path_join workspace_root policy_file)
                       in case read_file path of
                            Inl err \<Rightarrow> Inl (lit ''failed to read AI reviewer policy '' @ path @ lit '': '' @ err)
                          | Inr text \<Rightarrow> Inr text))
      in case base of Inl err \<Rightarrow> Inl err
         | Inr text \<Rightarrow>
             Inr (case arc_policy reviewer of
                    Some extra \<Rightarrow>
                      if trim extra \<noteq> []
                      then text @ [NL, NL] @ lit ''## Additional project policy'' @ [NL, NL] @ trim extra
                      else text
                  | None \<Rightarrow> text))"

definition build_review_prompt ::
  "(permission_request \<Rightarrow> capability list \<Rightarrow> str) \<Rightarrow> ai_reviewer_config \<Rightarrow> permission_request
     \<Rightarrow> transcript_snapshot option \<Rightarrow> str \<Rightarrow> reviewer_state \<Rightarrow> str \<times> reviewer_state" where
  "build_review_prompt payload reviewer request transcript policy s =
     (let (transcript_text, s') =
            (case transcript of
               Some (items, history_version, entry_count) \<Rightarrow>
                 (let (marker, s1) = transcript_delta_marker history_version entry_count s
                  in (bounded_transcript items marker (unat (arc_max_transcript_tokens reviewer)), s1))
             | None \<Rightarrow> (lit ''No transcript snapshot is available.'', s))
      in (lit ''Approval policy:'' @ [NL] @ policy @ [NL, NL] @ lit ''Bounded transcript:'' @ [NL] @ transcript_text
          @ [NL, NL] @ lit ''Permission request:'' @ [NL] @ payload request (arc_allow_capabilities reviewer)
          @ [NL, NL] @ lit ''Return JSON only.'', s'))"

section \<open>A review\<close>

datatype reviewer_outcome = Verdict permission_verdict | NoDecision str | CircuitTripped str

record reviewer_result =
  rr_outcome :: reviewer_outcome
  rr_cost :: cost_snapshot
  rr_model :: str

text \<open>The call to the model: text and cost, an error, or the timeout.\<close>

datatype model_answer = Answered str cost_snapshot | CallFailed str | TimedOut

record reviewer_world =
  rw_now :: nat
  rw_read_file :: "str \<Rightarrow> str + str"
  rw_bundled_policy :: str
  rw_workspace_root :: str
  rw_payload :: "permission_request \<Rightarrow> capability list \<Rightarrow> str"
  rw_call :: "str \<Rightarrow> str \<Rightarrow> model_answer"
  rw_json :: json_reader
  rw_pricing :: pricing_table
  rw_provider :: str
  rw_small_fast_model :: "str option"
  rw_main_model :: str

definition no_cost :: "reviewer_outcome \<Rightarrow> reviewer_result" where
  "no_cost outcome = \<lparr>rr_outcome = outcome, rr_cost = empty_cost, rr_model = []\<rparr>"

definition reviewer_model :: "reviewer_world \<Rightarrow> ai_reviewer_config \<Rightarrow> str" where
  "reviewer_model w reviewer =
     (case arc_model reviewer of Some m \<Rightarrow> m
      | None \<Rightarrow> (case rw_small_fast_model w of Some m \<Rightarrow> m | None \<Rightarrow> rw_main_model w))"

definition priced :: "reviewer_world \<Rightarrow> str \<Rightarrow> cost_snapshot \<Rightarrow> cost_snapshot" where
  "priced w model cost =
     (if estimated_usd_micros cost = None
      then cost\<lparr>estimated_usd_micros := estimate_cost (rw_pricing w) (rw_provider w) model cost\<rparr>
      else cost)"

definition plain_verdict :: "permission_mode \<Rightarrow> str \<Rightarrow> permission_verdict" where
  "plain_verdict action reason =
     \<lparr>ver_action = action, ver_matched_rule = None, ver_reason = reason, ver_silent = False\<rparr>"

definition allow_withheld_reason :: "ai_reviewer_config \<Rightarrow> permission_request \<Rightarrow> str" where
  "allow_withheld_reason reviewer request =
     (let cap = capability_as_str (req_capability request)
      in if req_capability request \<notin> set (arc_allow_capabilities reviewer)
         then lit ''ai reviewer allow ignored for non-allowlisted '' @ cap @ lit '' capability''
         else if reviewer_request_outside_workspace request
         then lit ''ai reviewer allow withheld for out-of-workspace '' @ cap @ lit '' request''
         else lit ''ai reviewer allow withheld for '' @ risk_as_str (req_risk request) @ lit ''-risk '' @ cap
              @ lit '' request (exceeds auto-allow ceiling)'')"

text \<open>The arms of the final match on the decision.\<close>

definition apply_decision ::
  "reviewer_world \<Rightarrow> ai_reviewer_config \<Rightarrow> u64 \<Rightarrow> permission_request \<Rightarrow> reviewer_decision \<Rightarrow> reviewer_state
     \<Rightarrow> reviewer_outcome \<times> reviewer_state" where
  "apply_decision w reviewer turn request d s =
     (let audit = record_audit (rw_now w) turn request
      in case rd_action d of
           Allow \<Rightarrow>
             if reviewer_may_auto_allow (arc_allow_capabilities reviewer) request
             then (let reason = lit ''AI reviewer approved: '' @ rd_reason d
                   in (Verdict (plain_verdict Allow reason), audit AuditAllow reason (record_non_denial turn s)))
             else (let reason = allow_withheld_reason reviewer request
                   in (NoDecision reason, audit AuditAllowDowngraded reason (record_non_denial turn s)))
         | Ask \<Rightarrow> (NoDecision (rd_reason d), audit AuditNoDecision (rd_reason d) (record_non_denial turn s))
         | Deny \<Rightarrow>
             if reviewer_denial_requests_human_escalation (rd_reason d)
             then (let reason = lit ''AI reviewer escalated to human: '' @ rd_reason d
                   in (NoDecision reason, audit AuditNoDecision reason (record_non_denial turn s)))
             else (case record_denial turn s of
                     (Some reason, s') \<Rightarrow> (CircuitTripped reason, audit AuditCircuitTripped reason s')
                   | (None, s') \<Rightarrow>
                       (let reason = lit ''AI reviewer denied: '' @ rd_reason d
                        in (Verdict (plain_verdict Deny reason), audit AuditDeny reason s'))))"

definition review_permission ::
  "reviewer_world \<Rightarrow> ai_reviewer_config \<Rightarrow> u64 \<Rightarrow> permission_request \<Rightarrow> transcript_snapshot option
     \<Rightarrow> reviewer_state \<Rightarrow> reviewer_result \<times> reviewer_state" where
  "review_permission w reviewer turn request transcript s =
     (let audit = record_audit (rw_now w) turn request
      in if \<not> arc_enabled reviewer then (no_cost (NoDecision (lit ''ai reviewer disabled'')), s)
         else case bypass_reason turn s of
           (Some reason, s1) \<Rightarrow> (no_cost (CircuitTripped reason), audit AuditCircuitTripped reason s1)
         | (None, s1) \<Rightarrow>
             (case load_policy (rw_read_file w) (rw_bundled_policy w) (rw_workspace_root w) reviewer of
                Inl reason \<Rightarrow> (no_cost (NoDecision reason), audit AuditNoDecision reason s1)
              | Inr policy \<Rightarrow>
                  (let (prompt, s2) = build_review_prompt (rw_payload w) reviewer request transcript policy s1;
                       model = reviewer_model w reviewer
                   in case rw_call w model prompt of
                        CallFailed reason \<Rightarrow> (no_cost (NoDecision reason), audit AuditNoDecision reason s2)
                      | TimedOut \<Rightarrow>
                          (let reason = lit ''ai reviewer timed out''
                           in (no_cost (NoDecision reason), audit AuditNoDecision reason s2))
                      | Answered response cost \<Rightarrow>
                          (let billed = priced w model cost
                           in case parse_reviewer_response (rw_json w) response of
                                None \<Rightarrow>
                                  (let reason = lit ''ai reviewer returned invalid decision JSON''
                                   in (\<lparr>rr_outcome = NoDecision reason, rr_cost = billed, rr_model = model\<rparr>,
                                       audit AuditNoDecision reason s2))
                              | Some d \<Rightarrow>
                                  (let (outcome, s3) = apply_decision w reviewer turn request d s2
                                   in (\<lparr>rr_outcome = outcome, rr_cost = billed, rr_model = model\<rparr>, s3))))))"

section \<open>Runs\<close>

type_synonym review_call = "u64 \<times> reviewer_world \<times> permission_request \<times> transcript_snapshot option"

fun review_run ::
  "ai_reviewer_config \<Rightarrow> review_call list \<Rightarrow> reviewer_state \<Rightarrow> reviewer_outcome list \<times> reviewer_state" where
  "review_run reviewer [] s = ([], s)"
| "review_run reviewer ((turn, w, request, transcript) # calls) s =
     (let (r, s1) = review_permission w reviewer turn request transcript s;
          (rest, s2) = review_run reviewer calls s1
      in (rr_outcome r # rest, s2))"

definition is_tripped :: "reviewer_outcome \<Rightarrow> bool" where
  "is_tripped outcome \<longleftrightarrow> (case outcome of CircuitTripped _ \<Rightarrow> True | _ \<Rightarrow> False)"

definition is_denial :: "reviewer_outcome \<Rightarrow> bool" where
  "is_denial outcome \<longleftrightarrow> (case outcome of Verdict v \<Rightarrow> ver_action v = Deny | _ \<Rightarrow> False)"

section \<open>Circuits under the operations\<close>

definition circuit_at :: "reviewer_state \<Rightarrow> u64 \<Rightarrow> turn_circuit" where
  "circuit_at s turn = circuit_of turn (rv_circuits s)"

definition non_denial :: "turn_circuit \<Rightarrow> turn_circuit" where
  "non_denial c = c\<lparr>tc_consecutive := 0, tc_recent := trim_recent (tc_recent c @ [False])\<rparr>"

lemma prune_current [simp]: "prune_turn_circuits turn circuits turn = circuits turn"
  by (simp add: prune_turn_circuits_def saturating_add_ge)

lemma circuit_of_prune [simp]: "circuit_of turn (prune_turn_circuits turn circuits) = circuit_of turn circuits"
  by (simp add: circuit_of_def)

lemma circuit_at_update [simp]: "circuit_at (update_circuit turn f s) turn = f (circuit_at s turn)"
  by (simp add: circuit_at_def update_circuit_def Let_def circuit_of_def split: option.split)

lemma audit_circuits [simp]: "rv_circuits (record_audit now turn request v reason s) = rv_circuits s"
  by (simp add: record_audit_def Let_def)

lemma audit_circuit_at [simp]: "circuit_at (record_audit now turn request v reason s) t = circuit_at s t"
  by (simp add: circuit_at_def)

lemma prompt_circuits [simp]: "rv_circuits (snd (build_review_prompt pl rc req tr policy s)) = rv_circuits s"
  by (auto simp: build_review_prompt_def transcript_delta_marker_def Let_def split: option.splits prod.splits)

lemma prompt_audit [simp]: "rv_audit (snd (build_review_prompt pl rc req tr policy s)) = rv_audit s"
  by (auto simp: build_review_prompt_def transcript_delta_marker_def Let_def split: option.splits prod.splits)

lemma non_denial_at [simp]: "circuit_at (record_non_denial turn s) turn = non_denial (circuit_at s turn)"
  by (simp add: record_non_denial_def non_denial_def)

lemma denial_at:
  "circuit_at (snd (record_denial turn s)) turn
     = (let c = count_denial (circuit_at s turn) in c\<lparr>tc_tripped := tc_tripped c \<or> denial_trip c \<noteq> None\<rparr>)"
  "fst (record_denial turn s) = denial_trip (count_denial (circuit_at s turn))"
  by (simp_all add: record_denial_def circuit_at_def Let_def circuit_of_def split: option.split)

lemma bypass_at [simp]: "circuit_at (snd (bypass_reason turn s)) turn = circuit_at s turn"
  by (simp add: bypass_reason_def Let_def)

lemma bypass_iff: "fst (bypass_reason turn s) = None \<longleftrightarrow> \<not> tc_tripped (circuit_at s turn)"
  by (simp add: bypass_reason_def Let_def circuit_at_def [symmetric])

text \<open>What the final match does, by outcome.\<close>

lemma apply_decision_cases:
  assumes "apply_decision w reviewer turn request d s = (outcome, s')"
  shows "(outcome = Verdict (plain_verdict Allow (lit ''AI reviewer approved: '' @ rd_reason d))
            \<and> rd_action d = Allow \<and> reviewer_may_auto_allow (arc_allow_capabilities reviewer) request
            \<and> circuit_at s' turn = non_denial (circuit_at s turn))
    \<or> (outcome = Verdict (plain_verdict Deny (lit ''AI reviewer denied: '' @ rd_reason d))
            \<and> rd_action d = Deny \<and> denial_trip (count_denial (circuit_at s turn)) = None
            \<and> circuit_at s' turn = count_denial (circuit_at s turn))
    \<or> (\<exists>reason. outcome = NoDecision reason \<and> circuit_at s' turn = non_denial (circuit_at s turn))
    \<or> (\<exists>reason. outcome = CircuitTripped reason \<and> denial_trip (count_denial (circuit_at s turn)) = Some reason
            \<and> circuit_at s' turn = (count_denial (circuit_at s turn))\<lparr>tc_tripped := True\<rparr>)"
proof (cases "rd_action d")
  case Deny
  show ?thesis
  proof (cases "reviewer_denial_requests_human_escalation (rd_reason d)")
    case True
    with Deny assms show ?thesis by (auto simp: apply_decision_def Let_def)
  next
    case False
    obtain trip t where rd: "record_denial turn s = (trip, t)" by fastforce
    have t: "circuit_at t turn = (let c = count_denial (circuit_at s turn)
          in c\<lparr>tc_tripped := tc_tripped c \<or> denial_trip c \<noteq> None\<rparr>)"
      and trip: "denial_trip (count_denial (circuit_at s turn)) = trip"
      using denial_at [of turn s] by (simp_all add: rd)
    have keep: "c\<lparr>tc_tripped := tc_tripped c\<rparr> = c" for c :: turn_circuit by simp
    show ?thesis
    proof (cases trip)
      case None
      with t trip keep have "circuit_at t turn = count_denial (circuit_at s turn)" by (simp add: Let_def)
      with None assms False Deny rd trip show ?thesis by (auto simp: apply_decision_def Let_def)
    next
      case (Some reason)
      with t trip have "circuit_at t turn = (count_denial (circuit_at s turn))\<lparr>tc_tripped := True\<rparr>"
        by (simp add: Let_def)
      with Some assms False Deny rd trip show ?thesis by (auto simp: apply_decision_def Let_def)
    qed
  qed
qed (use assms in \<open>auto simp: apply_decision_def Let_def split: if_splits\<close>)

lemma review_cases:
  assumes "review_permission w reviewer turn request transcript s = (r, s')"
  shows "(\<not> arc_enabled reviewer \<and> s' = s \<and> (\<exists>reason. rr_outcome r = NoDecision reason))
    \<or> (arc_enabled reviewer \<and> tc_tripped (circuit_at s turn) \<and> is_tripped (rr_outcome r)
         \<and> rr_cost r = empty_cost \<and> circuit_at s' turn = circuit_at s turn)
    \<or> (arc_enabled reviewer \<and> \<not> tc_tripped (circuit_at s turn)
         \<and> (\<exists>reason. rr_outcome r = NoDecision reason) \<and> circuit_at s' turn = circuit_at s turn)
    \<or> (arc_enabled reviewer \<and> \<not> tc_tripped (circuit_at s turn)
         \<and> (\<exists>d s2. apply_decision w reviewer turn request d s2 = (rr_outcome r, s')
              \<and> circuit_at s2 turn = circuit_at s turn))"
proof (cases "arc_enabled reviewer")
  case True
  obtain bypass s1 where b: "bypass_reason turn s = (bypass, s1)" by fastforce
  have s1: "circuit_at s1 turn = circuit_at s turn" using bypass_at [of turn s] by (simp add: b)
  show ?thesis
  proof (cases bypass)
    case (Some reason)
    with b bypass_iff [of turn s] have "tc_tripped (circuit_at s turn)" by simp
    with assms True b Some s1 show ?thesis
      by (auto simp: review_permission_def no_cost_def is_tripped_def)
  next
    case None
    with b bypass_iff [of turn s] have nt: "\<not> tc_tripped (circuit_at s turn)" by simp
    show ?thesis
    proof (cases "load_policy (rw_read_file w) (rw_bundled_policy w) (rw_workspace_root w) reviewer")
      case (Inl e)
      with assms True b None s1 nt show ?thesis by (auto simp: review_permission_def no_cost_def)
    next
      case (Inr policy)
      obtain prompt s2 where p: "build_review_prompt (rw_payload w) reviewer request transcript policy s1 = (prompt, s2)"
        by fastforce
      have s2: "circuit_at s2 turn = circuit_at s turn"
        using prompt_circuits [of "rw_payload w" reviewer request transcript policy s1] s1
        by (simp add: p circuit_at_def)
      note base = review_permission_def True b None Inr p no_cost_def Let_def
      show ?thesis
      proof (cases "rw_call w (reviewer_model w reviewer) prompt")
        case (Answered response cost)
        then show ?thesis using assms s2 nt True
          by (auto simp: base split: option.splits prod.splits)
      qed (use assms s2 nt True in \<open>auto simp: base\<close>)
    qed
  qed
qed (use assms in \<open>auto simp: review_permission_def no_cost_def\<close>)

section \<open>Invariant of the state\<close>

definition circuit_ok :: "turn_circuit \<Rightarrow> bool" where
  "circuit_ok c \<longleftrightarrow> length (tc_recent c) \<le> RECENT_WINDOW \<and> (tc_tripped c \<or> tc_consecutive c \<le> 1)
     \<and> tc_consecutive c \<le> CONSECUTIVE_DENIAL_TRIP"

definition reviewer_ok :: "reviewer_state \<Rightarrow> bool" where
  "reviewer_ok s \<longleftrightarrow> length (rv_audit s) \<le> AUDIT_RING_CAPACITY \<and> (\<forall>c \<in> ran (rv_circuits s). circuit_ok c)"

lemma circuit_ok_empty: "circuit_ok empty_circuit"
  by (simp add: circuit_ok_def empty_circuit_def)

lemma length_trim_recent: "length (trim_recent r) \<le> RECENT_WINDOW"
  by (simp add: trim_recent_def)

lemma circuit_ok_non_denial: "circuit_ok (non_denial c)"
  by (simp add: circuit_ok_def non_denial_def length_trim_recent)

lemma circuit_ok_denial:
  assumes "circuit_ok c" "\<not> tc_tripped c" "c' = count_denial c"
  shows "circuit_ok (c'\<lparr>tc_tripped := tc_tripped c' \<or> denial_trip c' \<noteq> None\<rparr>)"
  using assms length_trim_recent
  by (auto simp: circuit_ok_def count_denial_def denial_trip_def CONSECUTIVE_DENIAL_TRIP_def)

lemma reviewer_ok_at: "reviewer_ok s \<Longrightarrow> circuit_ok (circuit_at s turn)"
  by (auto simp: reviewer_ok_def circuit_at_def circuit_of_def circuit_ok_empty ranI split: option.split)

lemma ok_prune_insert:
  assumes "reviewer_ok s" "circuit_ok c" "rv_audit s' = rv_audit s"
    "rv_circuits s' = (prune_turn_circuits turn (rv_circuits s))(turn \<mapsto> c)"
  shows "reviewer_ok s'"
  using assms by (auto simp: reviewer_ok_def ran_def prune_turn_circuits_def split: if_splits)

lemma ok_audit: "reviewer_ok s \<Longrightarrow> reviewer_ok (record_audit now turn request v reason s)"
  by (auto simp: reviewer_ok_def record_audit_def Let_def AUDIT_RING_CAPACITY_def)

lemma ok_non_denial: "reviewer_ok s \<Longrightarrow> reviewer_ok (record_non_denial turn s)"
  by (rule ok_prune_insert [of s "non_denial (circuit_at s turn)" _ turn])
     (simp_all add: circuit_ok_non_denial record_non_denial_def update_circuit_def Let_def
       circuit_at_def [symmetric] non_denial_def [symmetric])

lemma ok_denial:
  assumes "reviewer_ok s" "\<not> tc_tripped (circuit_at s turn)"
  shows "reviewer_ok (snd (record_denial turn s))"
proof -
  define c where "c = count_denial (circuit_at s turn)"
  have c: "circuit_ok (c\<lparr>tc_tripped := tc_tripped c \<or> denial_trip c \<noteq> None\<rparr>)"
    by (rule circuit_ok_denial [OF reviewer_ok_at [OF assms(1)] assms(2) c_def])
  show ?thesis
    by (rule ok_prune_insert [OF assms(1) c, of _ turn])
       (simp_all add: record_denial_def Let_def circuit_at_def [symmetric] c_def)
qed

lemma ok_bypass: "reviewer_ok s \<Longrightarrow> reviewer_ok (snd (bypass_reason turn s))"
  by (rule ok_prune_insert [of s "circuit_at s turn" _ turn])
     (simp_all add: reviewer_ok_at bypass_reason_def update_circuit_def Let_def circuit_at_def [symmetric])

lemma ok_prompt: "reviewer_ok s \<Longrightarrow> reviewer_ok (snd (build_review_prompt pl rc req tr policy s))"
  by (simp add: reviewer_ok_def)

lemma ok_apply:
  assumes "reviewer_ok s" "\<not> tc_tripped (circuit_at s turn)"
  shows "reviewer_ok (snd (apply_decision w reviewer turn request d s))"
proof (cases "rd_action d")
  case Deny
  obtain trip t where rd: "record_denial turn s = (trip, t)" by fastforce
  with ok_denial [OF assms] have "reviewer_ok t" by simp
  with Deny rd assms(1) show ?thesis
    by (cases trip) (simp_all add: apply_decision_def Let_def ok_audit ok_non_denial)
qed (use assms in \<open>simp_all add: apply_decision_def Let_def ok_audit ok_non_denial\<close>)

lemma review_ok:
  assumes "reviewer_ok s"
  shows "reviewer_ok (snd (review_permission w reviewer turn request transcript s))"
proof -
  obtain bypass s1 where b: "bypass_reason turn s = (bypass, s1)" by fastforce
  have s1: "reviewer_ok s1" using ok_bypass [OF assms, of turn] by (simp add: b)
  have at1: "circuit_at s1 turn = circuit_at s turn" using bypass_at [of turn s] by (simp add: b)
  show ?thesis
  proof (cases "arc_enabled reviewer \<and> bypass = None")
    case True
    then have nt: "\<not> tc_tripped (circuit_at s1 turn)" using bypass_iff [of turn s] b at1 by simp
    show ?thesis
    proof (cases "load_policy (rw_read_file w) (rw_bundled_policy w) (rw_workspace_root w) reviewer")
      case (Inl e)
      with True b s1 show ?thesis by (simp add: review_permission_def ok_audit)
    next
      case (Inr policy)
      obtain prompt s2 where p: "build_review_prompt (rw_payload w) reviewer request transcript policy s1 = (prompt, s2)"
        by fastforce
      have s2: "reviewer_ok s2" using ok_prompt [OF s1] p by (metis snd_conv)
      have nt2: "\<not> tc_tripped (circuit_at s2 turn)"
        using prompt_circuits [of "rw_payload w" reviewer request transcript policy s1] nt
        by (simp add: p circuit_at_def)
      show ?thesis
      proof (cases "rw_call w (reviewer_model w reviewer) prompt")
        case (Answered response cost)
        then show ?thesis using True b Inr p s2 ok_apply [OF s2 nt2]
          by (simp add: review_permission_def ok_audit Let_def split: option.split prod.split)
             (metis snd_conv)
      qed (use True b Inr p s2 in \<open>simp_all add: review_permission_def ok_audit Let_def\<close>)
    qed
  next
    case False
    show ?thesis
    proof (cases "arc_enabled reviewer")
      case True
      with False obtain reason where "bypass = Some reason" by (cases bypass) auto
      with True b s1 show ?thesis by (simp add: review_permission_def ok_audit)
    qed (simp add: review_permission_def assms)
  qed
qed

lemma run_ok: "reviewer_ok s \<Longrightarrow> reviewer_ok (snd (review_run reviewer calls s))"
proof (induction calls arbitrary: s)
  case (Cons call calls)
  obtain turn w request transcript where c: "call = (turn, w, request, transcript)" by (cases call)
  from review_ok [OF Cons.prems] have "reviewer_ok (snd (review_permission w reviewer turn request transcript s))" .
  from Cons.IH [OF this] show ?case by (auto simp: c split: prod.splits)
qed simp

text \<open>A review touches the key of its turn and drops those out of the window.\<close>

definition turn_window :: "u64 \<Rightarrow> u64 set \<Rightarrow> u64 set" where
  "turn_window turn D = insert turn {id \<in> D. turn \<le> saturating_add id CIRCUIT_TURN_WINDOW}"

lemma turn_window_idem [simp]: "turn_window turn (turn_window turn D) = turn_window turn D"
  by (auto simp: turn_window_def saturating_add_ge)

lemma dom_prune [simp]: "dom ((prune_turn_circuits turn circuits)(turn \<mapsto> c)) = turn_window turn (dom circuits)"
  by (auto simp: prune_turn_circuits_def dom_def turn_window_def)

lemma rv_circuits_update: "rv_circuits (s\<lparr>rv_circuits := c\<rparr>) = c"
  by simp

lemma dom_ops [simp]:
  "dom (rv_circuits (update_circuit turn f s)) = turn_window turn (dom (rv_circuits s))"
  "dom (rv_circuits (record_non_denial turn s)) = turn_window turn (dom (rv_circuits s))"
  "dom (rv_circuits (snd (record_denial turn s))) = turn_window turn (dom (rv_circuits s))"
  "dom (rv_circuits (snd (bypass_reason turn s))) = turn_window turn (dom (rv_circuits s))"
  by (simp_all only: update_circuit_def record_non_denial_def record_denial_def bypass_reason_def Let_def snd_conv
      rv_circuits_update dom_prune)

lemma dom_apply:
  "dom (rv_circuits (snd (apply_decision w reviewer turn request d s))) = turn_window turn (dom (rv_circuits s))"
proof (cases "rd_action d")
  case Deny
  obtain trip t where rd: "record_denial turn s = (trip, t)" by fastforce
  then have "dom (rv_circuits t) = turn_window turn (dom (rv_circuits s))" using dom_ops(3) by (metis snd_conv)
  with Deny rd show ?thesis by (cases trip) (simp_all add: apply_decision_def Let_def)
qed (simp_all add: apply_decision_def Let_def)

lemma dom_review:
  assumes "arc_enabled reviewer"
  shows "dom (rv_circuits (snd (review_permission w reviewer turn request transcript s)))
    = turn_window turn (dom (rv_circuits s))"
proof -
  obtain bypass s1 where b: "bypass_reason turn s = (bypass, s1)" by fastforce
  have s1: "dom (rv_circuits s1) = turn_window turn (dom (rv_circuits s))" using dom_ops(4) b by (metis snd_conv)
  show ?thesis
  proof (cases bypass)
    case (Some reason)
    with assms b s1 show ?thesis by (simp add: review_permission_def)
  next
    case None
    show ?thesis
    proof (cases "load_policy (rw_read_file w) (rw_bundled_policy w) (rw_workspace_root w) reviewer")
      case (Inl e)
      with assms None b s1 show ?thesis by (simp add: review_permission_def)
    next
      case (Inr policy)
      obtain prompt s2 where p: "build_review_prompt (rw_payload w) reviewer request transcript policy s1 = (prompt, s2)"
        by fastforce
      have s2: "dom (rv_circuits s2) = turn_window turn (dom (rv_circuits s))"
        using prompt_circuits [of "rw_payload w" reviewer request transcript policy s1] s1 by (simp add: p)
      note base = review_permission_def assms b None Inr p Let_def
      show ?thesis
      proof (cases "rw_call w (reviewer_model w reviewer) prompt")
        case (Answered response cost)
        show ?thesis
        proof (cases "parse_reviewer_response (rw_json w) response")
          case (Some d)
          with Answered s2 dom_apply [of w reviewer turn request d s2] show ?thesis
            by (simp add: base split: prod.split) (metis snd_conv turn_window_idem)
        qed (use Answered s2 in \<open>simp add: base\<close>)
      qed (use s2 in \<open>simp_all add: base\<close>)
    qed
  qed
qed

text \<open>With turns in order, the keys are the last nine turns at most.\<close>

lemma window_card:
  assumes "\<forall>id \<in> D. id \<le> turn \<and> turn \<le> saturating_add id CIRCUIT_TURN_WINDOW"
  shows "card D \<le> 9"
proof -
  have "unat ` D \<subseteq> {unat turn - 8..unat turn}"
  proof
    fix n assume "n \<in> unat ` D"
    then obtain id where "id \<in> D" "n = unat id" by blast
    with assms have "unat id \<le> unat turn" "unat turn \<le> unat (saturating_add id CIRCUIT_TURN_WINDOW)"
      by (auto simp: word_le_nat_alt)
    then show "n \<in> {unat turn - 8..unat turn}"
      using \<open>n = unat id\<close> by (auto simp: unat_saturating_add CIRCUIT_TURN_WINDOW_def)
  qed
  then have "card (unat ` D) \<le> card {unat turn - 8..unat turn}" by (intro card_mono) simp_all
  moreover have "card (unat ` D) = card D" by (intro card_image inj_onI) (simp add: word_unat_eq_iff)
  ultimately show ?thesis by simp
qed

lemma run_window:
  assumes "arc_enabled reviewer" "calls \<noteq> []" "sorted (map fst calls)"
    "\<forall>id \<in> dom (rv_circuits s). id \<le> fst (hd calls)"
  shows "\<forall>id \<in> dom (rv_circuits (snd (review_run reviewer calls s))).
     id \<le> fst (last calls) \<and> fst (last calls) \<le> saturating_add id CIRCUIT_TURN_WINDOW"
  using assms
proof (induction calls arbitrary: s)
  case (Cons call calls)
  obtain turn w request transcript where c: "call = (turn, w, request, transcript)" by (cases call)
  define s1 where "s1 = snd (review_permission w reviewer turn request transcript s)"
  have d: "dom (rv_circuits s1) = turn_window turn (dom (rv_circuits s))"
    unfolding s1_def by (rule dom_review [OF assms(1)])
  have r: "snd (review_run reviewer (call # calls) s) = snd (review_run reviewer calls s1)"
    by (simp add: c s1_def split: prod.split)
  show ?case
  proof (cases "calls = []")
    case True
    then show ?thesis using Cons.prems(4) unfolding r d
      by (auto simp: c d turn_window_def saturating_add_ge)
  next
    case False
    have "\<forall>id \<in> dom (rv_circuits s1). id \<le> turn"
      using Cons.prems(4) by (auto simp: d c turn_window_def)
    moreover have "turn \<le> fst (hd calls)" using Cons.prems(3) False by (cases calls) (auto simp: c)
    ultimately have "\<forall>id \<in> dom (rv_circuits s1). id \<le> fst (hd calls)" by (meson order_trans)
    with Cons.IH [of s1] False Cons.prems show ?thesis by (simp add: r)
  qed
qed simp

section \<open>Properties\<close>

lemma reviewer_verdict_facts:
  assumes "review_permission w reviewer turn request transcript s = (r, s')"
    and "rr_outcome r = Verdict v"
  shows "arc_enabled reviewer \<and> \<not> tc_tripped (circuit_at s turn) \<and> \<not> ver_silent v
    \<and> ver_matched_rule v = None
    \<and> (ver_action v = Deny
       \<or> ver_action v = Allow
          \<and> req_capability request \<in> set (arc_allow_capabilities reviewer)
          \<and> req_metadata request (lit ''outside_workspace'') \<noteq> Some (lit ''true'')
          \<and> req_risk request \<noteq> Critical
          \<and> (req_capability request \<in> {Network, Mcp} \<longrightarrow> req_risk request \<noteq> High))"
proof -
  from review_cases [OF assms(1)] assms(2) obtain d s2
    where e: "arc_enabled reviewer" and nt: "\<not> tc_tripped (circuit_at s turn)"
      and a: "apply_decision w reviewer turn request d s2 = (Verdict v, s')"
    by (auto simp: is_tripped_def)
  have ceiling: "req_risk request \<noteq> Critical \<and> (req_capability request \<in> {Network, Mcp} \<longrightarrow> req_risk request \<noteq> High)"
    if "within_auto_allow_ceiling (req_capability request) (req_risk request)"
    using that by (auto simp: within_auto_allow_ceiling_def less_eq_risk_def split: if_splits)
  from apply_decision_cases [OF a] e nt ceiling show ?thesis
    by (auto simp: plain_verdict_def reviewer_may_auto_allow_def reviewer_request_outside_workspace_def)
qed

text \<open>C30: what the reviewer can approve on its own.  An \<open>Allow\<close> verdict is given only for an allowlisted
  capability, never for a request outside the workspace, never at critical risk, and for network and
  MCP requests only up to medium risk; every verdict is \<open>Allow\<close> or a spoken \<open>Deny\<close>; and after the
  circuit of the turn has tripped no model call is billed.\<close>

theorem reviewer_verdict_sound:
  assumes "review_permission w reviewer turn request transcript s = (r, s')"
    and "rr_outcome r = Verdict v"
  shows "arc_enabled reviewer \<and> \<not> tc_tripped (circuit_at s turn) \<and> \<not> ver_silent v
    \<and> ver_matched_rule v = None
    \<and> (ver_action v = Deny
       \<or> ver_action v = Allow
          \<and> req_capability request \<in> set (arc_allow_capabilities reviewer)
          \<and> req_metadata request (lit ''outside_workspace'') \<noteq> Some (lit ''true'')
          \<and> req_risk request \<noteq> Critical
          \<and> (req_capability request \<in> {Network, Mcp} \<longrightarrow> req_risk request \<noteq> High))"
  using assms by (rule reviewer_verdict_facts)

definition sample_world :: "model_answer \<Rightarrow> (str option \<times> str option) option \<Rightarrow> reviewer_world" where
  "sample_world answer obj =
     \<lparr>rw_now = 0, rw_read_file = (\<lambda>_. Inl []), rw_bundled_policy = lit ''policy'', rw_workspace_root = lit ''/w'',
      rw_payload = (\<lambda>_ _. []), rw_call = (\<lambda>_ _. answer), rw_json = (\<lambda>_. obj), rw_pricing = (\<lambda>_ _. None),
      rw_provider = [], rw_small_fast_model = None, rw_main_model = lit ''m''\<rparr>"

lemma reviewer_verdict_sound_witness:
  "req_capability sample_request \<in> {Read, Search, Git}
   \<and> arc_enabled (default_ai_reviewer\<lparr>arc_enabled := True, arc_allow_capabilities := [Read, Search, Git]\<rparr>)"
proof -
  let ?r = "default_ai_reviewer\<lparr>arc_enabled := True, arc_allow_capabilities := [Read, Search, Git]\<rparr>"
  let ?w = "sample_world (Answered (lit ''{}'') empty_cost) (Some (Some (lit ''allow''), None))"
  have may: "reviewer_may_auto_allow (arc_allow_capabilities ?r) sample_request" by code_simp
  have parse: "parse_reviewer_response (rw_json ?w) (lit ''{}'')
      = Some \<lparr>rd_action = Allow, rd_reason = lit ''no reason supplied''\<rparr>" by code_simp
  obtain r s' where rv: "review_permission ?w ?r 1 sample_request None empty_reviewer_state = (r, s')"
    by fastforce
  have out: "rr_outcome r = Verdict (plain_verdict Allow (lit ''AI reviewer approved: '' @ lit ''no reason supplied''))"
    using rv may parse
    by (auto simp: review_permission_def bypass_reason_def update_circuit_def Let_def empty_reviewer_state_def
        circuit_of_def empty_circuit_def load_policy_def default_ai_reviewer_def sample_world_def
        build_review_prompt_def apply_decision_def prune_turn_circuits_def)
  from reviewer_verdict_sound [OF rv out]
  have "arc_enabled ?r \<and> req_capability sample_request \<in> set (arc_allow_capabilities ?r)"
    unfolding plain_verdict_def by auto
  then show ?thesis by simp
qed

lemma circuit_run_aux:
  assumes "\<forall>call \<in> set calls. fst call = turn" "arc_enabled reviewer"
    "is_tripped prev \<longrightarrow> tc_tripped (circuit_at s turn)"
    "is_denial prev \<longrightarrow> 1 \<le> tc_consecutive (circuit_at s turn)"
  shows "successively (\<lambda>a b. (is_tripped a \<longrightarrow> is_tripped b) \<and> \<not> (is_denial a \<and> is_denial b))
     (prev # fst (review_run reviewer calls s))"
  using assms
proof (induction calls arbitrary: s prev)
  case (Cons call calls)
  obtain w request transcript where c: "call = (turn, w, request, transcript)"
    using Cons.prems(1) by (cases call) auto
  obtain r s1 where rv: "review_permission w reviewer turn request transcript s = (r, s1)" by fastforce
  note cases = review_cases [OF rv]
  have now: "is_tripped (rr_outcome r) \<longrightarrow> tc_tripped (circuit_at s1 turn)"
    "is_denial (rr_outcome r) \<longrightarrow> 1 \<le> tc_consecutive (circuit_at s1 turn)"
    "tc_tripped (circuit_at s turn) \<longrightarrow> is_tripped (rr_outcome r)"
    "1 \<le> tc_consecutive (circuit_at s turn) \<longrightarrow> \<not> is_denial (rr_outcome r)"
    using cases Cons.prems(2)
    by (auto simp: is_tripped_def is_denial_def plain_verdict_def count_denial_def denial_trip_def
        CONSECUTIVE_DENIAL_TRIP_def split: if_splits reviewer_outcome.splits dest!: apply_decision_cases)
  have "successively (\<lambda>a b. (is_tripped a \<longrightarrow> is_tripped b) \<and> \<not> (is_denial a \<and> is_denial b))
     (rr_outcome r # fst (review_run reviewer calls s1))"
    by (rule Cons.IH) (use Cons.prems now in auto)
  moreover have "fst (review_run reviewer (call # calls) s) = rr_outcome r # fst (review_run reviewer calls s1)"
    by (simp add: c rv split: prod.split)
  ultimately show ?case using Cons.prems(3,4) now(3,4) by (simp add: successively_Cons)
qed simp

lemma disabled_run: "\<not> arc_enabled reviewer \<Longrightarrow> \<forall>out \<in> set (fst (review_run reviewer calls s)). \<exists>reason. out = NoDecision reason"
proof (induction calls arbitrary: s)
  case (Cons call calls)
  then show ?case
    by (cases call) (auto simp: review_permission_def no_cost_def split: prod.split, metis fst_conv)
qed simp

lemma disabled_run_state: "\<not> arc_enabled reviewer \<Longrightarrow> snd (review_run reviewer calls s) = s"
  by (induction calls arbitrary: s) (auto simp: review_permission_def split: prod.splits, metis snd_conv)

lemma successively_tail: "successively P (x # xs) \<Longrightarrow> successively P xs"
  by (cases xs) simp_all

lemma successively_no_decision:
  "\<forall>out \<in> set outs. \<exists>reason. out = NoDecision reason \<Longrightarrow>
     successively (\<lambda>a b. (is_tripped a \<longrightarrow> is_tripped b) \<and> \<not> (is_denial a \<and> is_denial b)) outs"
  by (induction outs) (auto simp: successively_Cons is_tripped_def is_denial_def)

text \<open>The circuit breaker.  Within one turn, whatever the requests and the model answers: once a
  review trips the circuit every later one is answered as tripped, and the reviewer never denies two
  reviews in a row (the second denial trips the circuit and a human decides).\<close>

theorem circuit_breaker_run:
  "successively (\<lambda>a b. (is_tripped a \<longrightarrow> is_tripped b) \<and> \<not> (is_denial a \<and> is_denial b))
     (fst (review_run reviewer (map (Pair turn) calls) s))"
proof (cases "arc_enabled reviewer")
  case True
  have "successively (\<lambda>a b. (is_tripped a \<longrightarrow> is_tripped b) \<and> \<not> (is_denial a \<and> is_denial b))
     (NoDecision [] # fst (review_run reviewer (map (Pair turn) calls) s))"
    by (rule circuit_run_aux [OF _ True, of _ turn]) (auto simp: is_tripped_def is_denial_def)
  then show ?thesis by (rule successively_tail)
next
  case False
  then show ?thesis
    by (intro successively_no_decision disabled_run)
qed

lemma circuit_breaker_run_witness:
  "successively (\<lambda>a b. (is_tripped a \<longrightarrow> is_tripped b) \<and> \<not> (is_denial a \<and> is_denial b))
     (fst (review_run default_ai_reviewer (map (Pair 3) [(sample_world TimedOut None, sample_request, None)])
        empty_reviewer_state))"
  by (rule circuit_breaker_run)

text \<open>The reviewer's memory is bounded.  From the empty state and for turns in increasing order, after
  any run the audit ring holds at most fifty entries, every circuit remembers at most twenty decisions
  and two consecutive denials, and at most nine turns have a circuit.\<close>

theorem reviewer_memory_bounded:
  assumes "sorted (map fst calls)"
  shows "length (rv_audit (snd (review_run reviewer calls empty_reviewer_state))) \<le> 50
    \<and> card (dom (rv_circuits (snd (review_run reviewer calls empty_reviewer_state)))) \<le> 9
    \<and> (\<forall>c \<in> ran (rv_circuits (snd (review_run reviewer calls empty_reviewer_state))).
          length (tc_recent c) \<le> 20 \<and> tc_consecutive c \<le> 2)"
proof -
  have "reviewer_ok empty_reviewer_state" by (simp add: reviewer_ok_def empty_reviewer_state_def)
  from run_ok [OF this] have "reviewer_ok (snd (review_run reviewer calls empty_reviewer_state))" .
  moreover have "card (dom (rv_circuits (snd (review_run reviewer calls empty_reviewer_state)))) \<le> 9"
  proof (cases "arc_enabled reviewer \<and> calls \<noteq> []")
    case True
    show ?thesis
      by (rule window_card [OF run_window]) (use True assms in \<open>simp_all add: empty_reviewer_state_def\<close>)
  next
    case False
    then have "snd (review_run reviewer calls empty_reviewer_state) = empty_reviewer_state"
      by (auto simp: disabled_run_state)
    then show ?thesis by (simp add: empty_reviewer_state_def)
  qed
  ultimately show ?thesis
    by (auto simp: reviewer_ok_def circuit_ok_def AUDIT_RING_CAPACITY_def RECENT_WINDOW_def
        CONSECUTIVE_DENIAL_TRIP_def)
qed

lemma reviewer_memory_bounded_witness:
  "card (dom (rv_circuits (snd (review_run default_ai_reviewer
      [(1, sample_world TimedOut None, sample_request, None), (2, sample_world TimedOut None, sample_request, None)]
      empty_reviewer_state)))) \<le> 9"
proof -
  have "sorted (map fst [(1 :: u64, sample_world TimedOut None, sample_request, None :: transcript_snapshot option),
      (2, sample_world TimedOut None, sample_request, None)])" by simp
  from reviewer_memory_bounded [OF this] show ?thesis by blast
qed

text \<open>Nine is attained: the window keeps the current turn and the eight before it.\<close>

lemma turn_circuits_reach_nine:
  "card (dom (rv_circuits (snd (review_run (default_ai_reviewer\<lparr>arc_enabled := True\<rparr>)
      (map (\<lambda>t. (t, sample_world TimedOut None, sample_request, None)) [1, 2, 3, 4, 5, 6, 7, 8, 9])
      empty_reviewer_state)))) = 9"
proof -
  let ?r = "default_ai_reviewer\<lparr>arc_enabled := True\<rparr>"
  have step: "dom (rv_circuits (snd (review_run ?r ((t, w, q, tr) # calls) s)))
      = dom (rv_circuits (snd (review_run ?r calls (snd (review_permission w ?r t q tr s)))))" for t w q tr calls s
    by (simp split: prod.split)
  have d: "dom (rv_circuits (snd (review_permission w ?r t q tr s))) = turn_window t (dom (rv_circuits s))"
    for w t q tr s by (rule dom_review) simp
  have e: "dom (rv_circuits empty_reviewer_state) = {}" by (simp add: empty_reviewer_state_def)
  have n: "dom (rv_circuits (snd (review_run ?r [] s))) = dom (rv_circuits s)" for s by simp
  have "dom (rv_circuits (snd (review_run ?r
      (map (\<lambda>t. (t, sample_world TimedOut None, sample_request, None)) [1, 2, 3, 4, 5, 6, 7, 8, 9])
      empty_reviewer_state))) = {1, 2, 3, 4, 5, 6, 7, 8, 9}"
    unfolding list.map step n d e
    by (auto simp: turn_window_def saturating_add_code CIRCUIT_TURN_WINDOW_def U64_MAX_def)
  then show ?thesis by simp
qed

end
