(* ===== verification/PermissionPersist.thy ===== *)
theory PermissionPersist
  imports Policy
begin

text \<open>
  Persisting an approval as a rule: which rule is chosen (\<open>permission_rule_for_persistence\<close> in
  \<open>crates/squeezy-agent/src/lib.rs\<close>), how it is written as TOML and found again
  (\<open>crates/squeezy-agent/src/permission_persist.rs\<close>, \<open>escape_toml_basic_string\<close> in
  \<open>crates/squeezy-core/src/lib.rs\<close>), and how concurrent writers share the settings file through the
  lock file, with I/O errors and crashes as steps.
\<close>

section \<open>TOML basic strings\<close>

definition hex_digit :: "nat \<Rightarrow> uchar" where
  "hex_digit n = (if n < 10 then 48 + n else 87 + n)"

definition show_hex4 :: "nat \<Rightarrow> str" where
  "show_hex4 n = [hex_digit (n div 4096 mod 16), hex_digit (n div 256 mod 16),
                  hex_digit (n div 16 mod 16), hex_digit (n mod 16)]"

definition escape_char :: "uchar \<Rightarrow> str" where
  "escape_char ch =
     (if ch = BSLASH then [BSLASH, BSLASH]
      else if ch = DQUOTE then [BSLASH, DQUOTE]
      else if ch = NL then [BSLASH, 110]
      else if ch = CR then [BSLASH, 114]
      else if ch = TAB then [BSLASH, 116]
      else if ch < 32 then [BSLASH, 117] @ show_hex4 ch
      else [ch])"

definition escape_toml_basic_string :: "str \<Rightarrow> str" where
  "escape_toml_basic_string value = [DQUOTE] @ concat (map escape_char value) @ [DQUOTE]"

text \<open>\<open>u32::from_str_radix(_, 16)\<close> on at most four characters (it allows one leading plus sign), and
  \<open>char::from_u32\<close>.\<close>

definition hex_value :: "uchar \<Rightarrow> nat option" where
  "hex_value c =
     (if 48 \<le> c \<and> c \<le> 57 then Some (c - 48)
      else if 97 \<le> c \<and> c \<le> 102 then Some (c - 87)
      else if 65 \<le> c \<and> c \<le> 70 then Some (c - 55)
      else None)"

fun hex_number :: "nat \<Rightarrow> str \<Rightarrow> nat option" where
  "hex_number acc [] = Some acc"
| "hex_number acc (c # cs) =
     (case hex_value c of None \<Rightarrow> None | Some d \<Rightarrow> hex_number (16 * acc + d) cs)"

definition from_str_radix_16 :: "str \<Rightarrow> nat option" where
  "from_str_radix_16 s =
     (let digits = (case s of c # cs \<Rightarrow> if c = 43 then cs else s | [] \<Rightarrow> [])
      in if digits = [] then None else hex_number 0 digits)"

definition char_from_u32 :: "nat \<Rightarrow> uchar option" where
  "char_from_u32 n = (if n < 55296 \<or> (57344 \<le> n \<and> n < 1114112) then Some n else None)"

definition hex_escape :: "str \<Rightarrow> str" where
  "hex_escape hex =
     (case Option.bind (from_str_radix_16 hex) char_from_u32 of
        Some decoded \<Rightarrow> [decoded] | None \<Rightarrow> [BSLASH, 117] @ hex)"

function unescape_toml :: "str \<Rightarrow> str" where
  "unescape_toml [] = []"
| "unescape_toml (ch # chars) =
     (if ch \<noteq> BSLASH then ch # unescape_toml chars
      else case chars of
             [] \<Rightarrow> [BSLASH]
           | e # rest \<Rightarrow>
               if e = BSLASH then BSLASH # unescape_toml rest
               else if e = DQUOTE then DQUOTE # unescape_toml rest
               else if e = 110 then NL # unescape_toml rest
               else if e = 114 then CR # unescape_toml rest
               else if e = 116 then TAB # unescape_toml rest
               else if e = 117 then hex_escape (take 4 rest) @ unescape_toml (drop 4 rest)
               else [BSLASH, e] @ unescape_toml rest)"
  by pat_completeness auto
termination
  by (relation "measure length") auto

definition strip_prefix_or :: "str \<Rightarrow> str \<Rightarrow> str" where
  "strip_prefix_or s p = (case strip_prefix s p of Some r \<Rightarrow> r | None \<Rightarrow> s)"

definition strip_suffix_or :: "str \<Rightarrow> str \<Rightarrow> str" where
  "strip_suffix_or s p = (case strip_suffix s p of Some r \<Rightarrow> r | None \<Rightarrow> s)"

definition parse_basic_string :: "str \<Rightarrow> str" where
  "parse_basic_string value =
     unescape_toml (strip_suffix_or (strip_prefix_or (trim value) [DQUOTE]) [DQUOTE])"

section \<open>Rules as text\<close>

definition rules_header :: str where
  "rules_header = lit ''[[permissions.rules]]''"

definition persisted_reason :: "permission_rule \<Rightarrow> str" where
  "persisted_reason rule =
     (case rule_reason rule of None \<Rightarrow> lit ''added from approval prompt'' | Some r \<Rightarrow> r)"

definition format_permission_rule :: "permission_rule \<Rightarrow> str" where
  "format_permission_rule rule =
     rules_header @ [NL]
     @ lit ''capability = '' @ escape_toml_basic_string (rule_capability rule) @ [NL]
     @ lit ''target = '' @ escape_toml_basic_string (rule_target rule) @ [NL]
     @ lit ''action = '' @ escape_toml_basic_string (permission_mode_as_str (rule_action rule)) @ [NL]
     @ lit ''source = '' @ escape_toml_basic_string (rule_source_as_str (rule_origin rule)) @ [NL]
     @ lit ''reason = '' @ escape_toml_basic_string (persisted_reason rule) @ [NL]"

text \<open>\<open>str::lines\<close>: the pieces ended by a line feed, without a carriage return before it, and the rest
  if it is not empty.\<close>

definition strip_cr :: "str \<Rightarrow> str" where
  "strip_cr line = strip_suffix_or line [CR]"

fun lines_from :: "str \<Rightarrow> str \<Rightarrow> str list" where
  "lines_from current [] = (if current = [] then [] else [current])"
| "lines_from current (c # cs) =
     (if c = NL then strip_cr current # lines_from [] cs else lines_from (current @ [c]) cs)"

definition text_lines :: "str \<Rightarrow> str list" where
  "text_lines text = lines_from [] text"

record rule_key =
  rk_capability :: str
  rk_target :: str
  rk_action :: permission_mode
  rk_source :: rule_source

definition default_rule_key :: rule_key where
  "default_rule_key = \<lparr>rk_capability = [], rk_target = [], rk_action = Ask, rk_source = User\<rparr>"

definition rule_key_matches :: "rule_key \<Rightarrow> permission_rule \<Rightarrow> bool" where
  "rule_key_matches key rule \<longleftrightarrow>
     rk_capability key = rule_capability rule \<and> rk_target key = rule_target rule
     \<and> rk_action key = rule_action rule \<and> rk_source key = rule_origin rule"

definition key_line :: "str \<Rightarrow> rule_key \<Rightarrow> rule_key" where
  "key_line trimmed candidate =
     (case split_once EQUALS trimmed of None \<Rightarrow> candidate
      | Some (key, raw) \<Rightarrow>
          (let value = parse_basic_string (trim raw)
           in if trim key = lit ''capability'' then candidate\<lparr>rk_capability := value\<rparr>
              else if trim key = lit ''target'' then candidate\<lparr>rk_target := value\<rparr>
              else if trim key = lit ''action''
              then (case permission_mode_parse value of None \<Rightarrow> candidate
                    | Some action \<Rightarrow> candidate\<lparr>rk_action := action\<rparr>)
              else if trim key = lit ''source''
              then (case rule_source_parse value of None \<Rightarrow> candidate
                    | Some source \<Rightarrow> candidate\<lparr>rk_source := source\<rparr>)
              else candidate))"

definition current_matches :: "permission_rule \<Rightarrow> rule_key option \<Rightarrow> bool" where
  "current_matches rule current =
     (case current of None \<Rightarrow> False | Some key \<Rightarrow> rule_key_matches key rule)"

fun contains_scan :: "permission_rule \<Rightarrow> rule_key option \<Rightarrow> str list \<Rightarrow> bool" where
  "contains_scan rule current [] = current_matches rule current"
| "contains_scan rule current (line # lines) =
     (if trim line = rules_header
      then current_matches rule current \<or> contains_scan rule (Some default_rule_key) lines
      else contains_scan rule (map_option (key_line (trim line)) current) lines)"

definition contains_rule :: "str \<Rightarrow> permission_rule \<Rightarrow> bool" where
  "contains_rule text rule = contains_scan rule None (text_lines text)"

text \<open>The text that replaces the settings file.\<close>

definition next_text :: "str \<Rightarrow> permission_rule \<Rightarrow> str" where
  "next_text existing rule =
     (let a = (if existing \<noteq> [] \<and> \<not> ends_with existing [NL] then existing @ [NL] else existing);
          b = (if a \<noteq> [] then a @ [NL] else a)
      in b @ format_permission_rule rule)"

section \<open>Choosing the rule\<close>

definition permission_rule_for_persistence ::
  "permission_request \<Rightarrow> rule_source \<Rightarrow> permission_mode \<Rightarrow> permission_rule option" where
  "permission_rule_for_persistence request source action =
     (let suggested = (case req_suggested_rules request of
                         r # _ \<Rightarrow> r
                       | [] \<Rightarrow> permission_rule_new (capability_as_str (req_capability request))
                                 (req_target request) action source
                                 (Some (lit ''added from approval prompt'')));
          rule = suggested\<lparr>rule_action := action, rule_origin := source\<rparr>
      in if action = Allow
            \<and> (req_capability request = Destructive
               \<or> rule_capability rule = lit ''destructive''
               \<or> target_is_effectively_wildcard (rule_target rule)
               \<or> rule_target rule = lit ''shell:*'')
         then None else Some rule)"

section \<open>Strings round-trip\<close>

lemma hex_value_digit: "n < 16 \<Longrightarrow> hex_value (hex_digit n) = Some n"
  by (simp add: hex_value_def hex_digit_def)

lemma hex_escape_show:
  assumes "n < 32"
  shows "hex_escape (show_hex4 n) = [n]"
proof -
  have d: "n div 16 mod 16 < 16" "n mod 16 < 16" by simp_all
  have z: "n div 4096 mod 16 = 0" "n div 256 mod 16 = 0" using assms by simp_all
  have "16 * (n div 16 mod 16) + n mod 16 = n" using assms by simp
  moreover have "hex_digit 0 = 48" by (simp add: hex_digit_def)
  ultimately show ?thesis
    using assms hex_value_digit [OF d(1)] hex_value_digit [OF d(2)]
    by (simp add: hex_escape_def show_hex4_def from_str_radix_16_def z hex_value_def [of 48] char_from_u32_def)
qed

lemma length_show_hex4: "length (show_hex4 n) = 4"
  by (simp add: show_hex4_def)

lemma unescape_hex:
  "n < 32 \<Longrightarrow> unescape_toml (BSLASH # 117 # show_hex4 n @ r) = n # unescape_toml r"
  by (simp add: length_show_hex4 hex_escape_show)

lemma unescape_escape_char: "unescape_toml (escape_char c @ r) = c # unescape_toml r"
  using unescape_hex [of c r] by (auto simp: escape_char_def simp del: unescape_toml.simps(2)) (simp_all)

lemma unescape_escape: "unescape_toml (concat (map escape_char s)) = s"
  by (induction s) (simp_all add: unescape_escape_char del: unescape_toml.simps(2))

lemma parse_escaped: "parse_basic_string (escape_toml_basic_string s) = s"
proof -
  have "trim (escape_toml_basic_string s) = escape_toml_basic_string s"
    by (rule trim_id) (simp_all add: escape_toml_basic_string_def is_ws_def)
  moreover have "strip_prefix_or (escape_toml_basic_string s) [DQUOTE] = concat (map escape_char s) @ [DQUOTE]"
    by (simp add: strip_prefix_or_def escape_toml_basic_string_def strip_prefix_def starts_with_def)
  moreover have "strip_suffix_or (concat (map escape_char s) @ [DQUOTE]) [DQUOTE] = concat (map escape_char s)"
    by (simp add: strip_suffix_or_def strip_suffix_def ends_with_def)
  ultimately show ?thesis by (simp add: parse_basic_string_def unescape_escape)
qed

lemma hex_digit_ne: "n < 16 \<Longrightarrow> hex_digit n \<noteq> NL \<and> hex_digit n \<noteq> CR"
  by (auto simp: hex_digit_def)

lemma escape_char_one_line: "NL \<notin> set (escape_char c)"
  by (auto simp: escape_char_def show_hex4_def hex_digit_def split: if_splits)

lemma escape_one_line: "NL \<notin> set (escape_toml_basic_string s)"
  by (auto simp: escape_toml_basic_string_def escape_char_one_line)

section \<open>Lines\<close>

lemma lines_from_line: "NL \<notin> set l \<Longrightarrow> lines_from cur (l @ NL # rest) = strip_cr (cur @ l) # lines_from [] rest"
  by (induction l arbitrary: cur) auto

lemma lines_from_append: "lines_from cur (t @ NL # rest) = lines_from cur (t @ [NL]) @ lines_from [] rest"
  by (induction t arbitrary: cur) auto

lemma trim_strip_cr: "trim (strip_cr l) = trim l"
proof (cases "strip_suffix l [CR]")
  case (Some r)
  then have "l = r @ [CR]" by (simp add: strip_suffix_Some_iff)
  then show ?thesis
    using Some by (simp add: strip_cr_def strip_suffix_or_def trim_snoc_ws)
qed (simp add: strip_cr_def strip_suffix_or_def)

lemma ends_with_single: "ends_with s [c] \<longleftrightarrow> s \<noteq> [] \<and> last s = c"
  by (cases s rule: rev_cases) (simp_all add: ends_with_def)

lemma lines_from_final:
  "\<not> ends_with (cur @ t) [NL] \<Longrightarrow> cur @ t \<noteq> [] \<Longrightarrow>
     map trim (lines_from cur (t @ [NL])) = map trim (lines_from cur t)"
proof (induction t arbitrary: cur)
  case Nil
  then show ?case by (simp add: trim_strip_cr)
next
  case (Cons c t)
  show ?case
  proof (cases "c = NL")
    case True
    with Cons.prems have "t \<noteq> []" "\<not> ends_with t [NL]" by (auto simp: ends_with_single)
    with Cons.IH [of "[]"] True show ?thesis by simp
  next
    case False
    with Cons.IH [of "cur @ [c]"] Cons.prems show ?thesis by simp
  qed
qed

section \<open>Finding a written rule again\<close>

lemma contains_scan_trim: "contains_scan rule current (map trim ls) = contains_scan rule current ls"
  by (induction ls arbitrary: current) simp_all

lemma header_not_empty: "rules_header \<noteq> []"
  by (simp add: rules_header_def lit_def)

lemma contains_scan_blank: "contains_scan rule current (ls @ [[]]) = contains_scan rule current ls"
proof (induction ls arbitrary: current)
  case Nil
  have "map_option (key_line []) current = current" by (cases current) (simp_all add: key_line_def)
  then show ?case using header_not_empty by simp
qed simp

lemma contains_scan_keep:
  "contains_scan rule current ls \<Longrightarrow> trim h = rules_header \<Longrightarrow> contains_scan rule current (ls @ h # rest)"
  by (induction ls arbitrary: current) (auto split: if_splits)

lemma contains_scan_found:
  "(\<And>cur. contains_scan rule cur rest) \<Longrightarrow> contains_scan rule current (ls @ rest)"
  by (induction ls arbitrary: current) auto

text \<open>One \<open>key = "value"\<close> line.\<close>

definition setting_line :: "string \<Rightarrow> str \<Rightarrow> str" where
  "setting_line key value = lit key @ lit '' = '' @ escape_toml_basic_string value"

lemma lit_append: "lit (a @ b) = lit a @ lit b"
  by (simp add: lit_def)

definition setting_keys :: "string set" where
  "setting_keys = {''capability'', ''target'', ''action'', ''source'', ''reason''}"

lemma setting_key_shape:
  assumes "key \<in> setting_keys"
  shows "EQUALS \<notin> set (lit key) \<and> NL \<notin> set (lit key) \<and> lit key \<noteq> [] \<and> \<not> is_ws (hd (lit key))
    \<and> hd (lit key) \<noteq> LBRACKET \<and> trim (lit key @ [SPACE]) = lit key"
proof -
  have "\<not> is_ws (hd (lit key)) \<and> \<not> is_ws (last (lit key)) \<and> EQUALS \<notin> set (lit key) \<and> NL \<notin> set (lit key)
     \<and> lit key \<noteq> [] \<and> hd (lit key) \<noteq> LBRACKET"
    using assms unfolding setting_keys_def by (elim insertE emptyE; simp add: lit_def is_ws_def)
  then show ?thesis by (simp add: trim_snoc_ws trim_id)
qed

lemma setting_line_trim: "key \<in> setting_keys \<Longrightarrow> trim (setting_line key v) = setting_line key v"
  using setting_key_shape [of key]
  by (intro trim_id) (simp_all add: setting_line_def escape_toml_basic_string_def is_ws_def hd_append)

lemma setting_line_not_header: "key \<in> setting_keys \<Longrightarrow> setting_line key v \<noteq> rules_header"
proof -
  assume "key \<in> setting_keys"
  then have "hd (setting_line key v) \<noteq> LBRACKET"
    using setting_key_shape [of key] by (simp add: setting_line_def hd_append)
  moreover have "hd rules_header = LBRACKET" by (simp add: rules_header_def lit_def)
  ultimately show ?thesis by metis
qed

lemma setting_line_one_line: "key \<in> setting_keys \<Longrightarrow> NL \<notin> set (setting_line key v)"
  using setting_key_shape [of key] by (auto simp: setting_line_def escape_one_line) (simp add: lit_def)

lemma strip_cr_setting: "strip_cr (setting_line key v) = setting_line key v"
proof -
  have "last (setting_line key v) = DQUOTE" by (simp add: setting_line_def escape_toml_basic_string_def)
  then have "\<not> ends_with (setting_line key v) [CR]" by (simp add: ends_with_single)
  then show ?thesis by (simp add: strip_cr_def strip_suffix_or_def strip_suffix_def)
qed

lemma split_setting:
  assumes "key \<in> setting_keys"
  shows "split_once EQUALS (setting_line key v) = Some (lit key @ [SPACE], SPACE # escape_toml_basic_string v)"
  using setting_key_shape [OF assms]
  by (simp add: split_once_Some_iff setting_line_def) (simp add: lit_def)

lemma trim_escaped: "trim (SPACE # escape_toml_basic_string v) = escape_toml_basic_string v"
proof -
  have "trim (escape_toml_basic_string v) = escape_toml_basic_string v"
    by (rule trim_id) (simp_all add: escape_toml_basic_string_def is_ws_def)
  then show ?thesis by (simp add: trim_def trim_matches_def trim_start_matches_def)
qed

lemma key_line_setting:
  assumes "key \<in> setting_keys"
  shows "key_line (setting_line key v) k =
     (if key = ''capability'' then k\<lparr>rk_capability := v\<rparr>
      else if key = ''target'' then k\<lparr>rk_target := v\<rparr>
      else if key = ''action'' then (case permission_mode_parse v of None \<Rightarrow> k | Some a \<Rightarrow> k\<lparr>rk_action := a\<rparr>)
      else if key = ''source'' then (case rule_source_parse v of None \<Rightarrow> k | Some a \<Rightarrow> k\<lparr>rk_source := a\<rparr>)
      else k)"
proof -
  show ?thesis
    using setting_key_shape [OF assms]
    by (simp add: key_line_def split_setting [OF assms] trim_escaped parse_escaped Let_def)
qed

definition rule_lines :: "permission_rule \<Rightarrow> str list" where
  "rule_lines rule =
     [rules_header, setting_line ''capability'' (rule_capability rule), setting_line ''target'' (rule_target rule),
      setting_line ''action'' (permission_mode_as_str (rule_action rule)),
      setting_line ''source'' (rule_source_as_str (rule_origin rule)),
      setting_line ''reason'' (persisted_reason rule)]"


lemma lines_of_format: "text_lines (format_permission_rule rule) = rule_lines rule"
proof -
  have f: "format_permission_rule rule = rules_header @ NL # setting_line ''capability'' (rule_capability rule)
      @ NL # setting_line ''target'' (rule_target rule)
      @ NL # setting_line ''action'' (permission_mode_as_str (rule_action rule))
      @ NL # setting_line ''source'' (rule_source_as_str (rule_origin rule))
      @ NL # setting_line ''reason'' (persisted_reason rule) @ [NL]"
    by (simp add: format_permission_rule_def setting_line_def lit_def)
  have h: "NL \<notin> set rules_header" "strip_cr rules_header = rules_header"
    by (simp_all add: rules_header_def lit_def strip_cr_def strip_suffix_or_def strip_suffix_def ends_with_def)
  have k: "NL \<notin> set (setting_line ''capability'' v)" "NL \<notin> set (setting_line ''target'' v)"
    "NL \<notin> set (setting_line ''action'' v)" "NL \<notin> set (setting_line ''source'' v)"
    "NL \<notin> set (setting_line ''reason'' v)" for v
    by (rule setting_line_one_line, simp add: setting_keys_def)+
  show ?thesis
    by (simp only: text_lines_def f rule_lines_def lines_from_line h k strip_cr_setting append_Nil
        lines_from.simps simp_thms if_True)
qed

lemma scan_rule_lines: "contains_scan rule current (rule_lines rule)"
proof -
  note sk = setting_keys_def
  have t: "trim rules_header = rules_header"
    by (rule trim_id) (simp_all add: rules_header_def lit_def is_ws_def)
  have m: "setting_line ''capability'' v \<noteq> rules_header" "setting_line ''target'' v \<noteq> rules_header"
    "setting_line ''action'' v \<noteq> rules_header" "setting_line ''source'' v \<noteq> rules_header"
    "setting_line ''reason'' v \<noteq> rules_header" for v
    by (rule setting_line_not_header, simp add: sk)+
  have r: "trim (setting_line ''capability'' v) = setting_line ''capability'' v"
    "trim (setting_line ''target'' v) = setting_line ''target'' v"
    "trim (setting_line ''action'' v) = setting_line ''action'' v"
    "trim (setting_line ''source'' v) = setting_line ''source'' v"
    "trim (setting_line ''reason'' v) = setting_line ''reason'' v" for v
    by (rule setting_line_trim, simp add: sk)+
  show ?thesis
    by (simp add: rule_lines_def t m r key_line_setting sk current_matches_def rule_key_matches_def
        mode_enum.parse_render source_enum.parse_render)
qed

text \<open>The lines of the new text: the old lines, perhaps a blank one, and the lines of the rule.\<close>

lemma next_text_lines:
  "\<exists>blank. set blank \<subseteq> {[]} \<and> length blank \<le> 1
     \<and> map trim (text_lines (next_text t rule)) = map trim (text_lines t) @ blank @ map trim (rule_lines rule)"
proof -
  define u where "u = (if t \<noteq> [] \<and> \<not> ends_with t [NL] then t @ [NL] else t)"
  have u: "map trim (text_lines u) = map trim (text_lines t)"
    using lines_from_final [of "[]" t] by (simp add: u_def text_lines_def)
  show ?thesis
  proof (cases "u = []")
    case True
    then have "t = []" by (simp add: u_def split: if_splits)
    moreover have "text_lines [] = []" by (simp add: text_lines_def)
    ultimately show ?thesis
      by (intro exI [of _ "[]"]) (simp add: next_text_def lines_of_format)
  next
    case False
    then obtain v where v: "u = v @ [NL]"
      unfolding u_def by (metis append_is_Nil_conv ends_with_iff)
    have n: "next_text t rule = u @ NL # format_permission_rule rule"
      using False by (simp add: next_text_def u_def Let_def)
    have "text_lines (next_text t rule) = text_lines u @ [] # text_lines (format_permission_rule rule)"
      unfolding n v text_lines_def
      using lines_from_append [of "[]" v "NL # format_permission_rule rule"]
      by (simp add: strip_cr_def strip_suffix_or_def strip_suffix_def ends_with_def)
    then show ?thesis
      by (intro exI [of _ "[[]]"]) (simp add: u lines_of_format)
  qed
qed

lemma contains_next: "contains_rule (next_text t rule) rule"
proof -
  obtain blank where l: "map trim (text_lines (next_text t rule))
      = map trim (text_lines t) @ blank @ map trim (rule_lines rule)" using next_text_lines by blast
  have "contains_scan rule None ((map trim (text_lines t) @ blank) @ map trim (rule_lines rule))"
    by (rule contains_scan_found) (simp add: contains_scan_trim scan_rule_lines)
  then show ?thesis
    using contains_scan_trim [of rule None "text_lines (next_text t rule)"] by (simp add: contains_rule_def l)
qed

lemma contains_keep:
  assumes "contains_rule t rule"
  shows "contains_rule (next_text t rule') rule"
proof -
  obtain blank where b: "set blank \<subseteq> {[]}" "length blank \<le> 1"
    and l: "map trim (text_lines (next_text t rule'))
      = map trim (text_lines t) @ blank @ map trim (rule_lines rule')" using next_text_lines by blast
  have "contains_scan rule None (map trim (text_lines t))"
    using assms by (simp add: contains_rule_def contains_scan_trim)
  moreover have "blank = [] \<or> blank = [[]]" using b by (cases blank) auto
  ultimately have "contains_scan rule None (map trim (text_lines t) @ blank)"
    by (auto simp: contains_scan_blank)
  moreover have "trim (trim rules_header) = rules_header"
    using trim_id [of rules_header] by (simp add: rules_header_def lit_def is_ws_def)
  ultimately have "contains_scan rule None ((map trim (text_lines t) @ blank) @ map trim (rule_lines rule'))"
    by (simp add: rule_lines_def contains_scan_keep del: append_assoc)
  then show ?thesis
    using contains_scan_trim [of rule None "text_lines (next_text t rule')"] by (simp add: contains_rule_def l)
qed

section \<open>Loading what was written\<close>

text \<open>The table the loader sees for a written rule: the five strings.\<close>

definition written_table :: "permission_rule \<Rightarrow> rule_table" where
  "written_table rule =
     \<lparr>rt_capability = Some (rule_capability rule), rt_target = Some (rule_target rule),
      rt_action = Some (rule_action rule), rt_source = Some (rule_source_as_str (rule_origin rule)),
      rt_reason = Some (persisted_reason rule), rt_silent = None\<rparr>"



end
