(* ===== verification/PermissionFlow.thy ===== *)
theory PermissionFlow
  imports PlanMode Safety Reviewer PermissionPersist "HOL-Library.AList"
begin

text \<open>
  The permission decision of a tool call (\<open>crates/squeezy-agent/src/lib.rs\<close>,
  \<open>permission_decision_for_request\<close>): hooks, session mode, policy, structural pre-classification, AI
  reviewer, shell classifier and the user, in that order, with the state they change: session rules,
  persisted rules, grants, reviewer state and cost.  Logging, telemetry and the notification hooks
  change none of it and are left out.  Outside answers (hook result, file system, environment, model
  calls, user) are the fields of \<open>flow_world\<close>.
\<close>

section \<open>Session mode\<close>

definition mode_refuses_capability :: "session_mode \<Rightarrow> capability \<Rightarrow> bool \<Rightarrow> bool" where
  "mode_refuses_capability mode cap plan_edit_allowed =
     (if mode = Build then False
      else (case cap of Edit \<Rightarrow> \<not> plan_edit_allowed | Destructive \<Rightarrow> True | _ \<Rightarrow> False))"

definition canonicalize_active_plan_path :: "file_system \<Rightarrow> str \<Rightarrow> str option" where
  "canonicalize_active_plan_path fs active = fs_canonicalize fs active"

definition is_active_plan_path_with_canon :: "file_system \<Rightarrow> str \<Rightarrow> str \<Rightarrow> bool" where
  "is_active_plan_path_with_canon fs target active_canon =
     (case fs_canonicalize fs target of None \<Rightarrow> False
      | Some target_canon \<Rightarrow> path_eq target_canon active_canon)"

text \<open>The text between a refusal and the sandbox hint; 8212 is the dash of the message.\<close>

definition switch_hint :: "str \<Rightarrow> str" where
  "switch_hint hint = lit ''; switch to Build mode (Shift+Tab) '' @ [8212] @ [SPACE] @ hint"

definition refused_edit_reason :: "session_mode \<Rightarrow> permission_request \<Rightarrow> str option \<Rightarrow> str" where
  "refused_edit_reason mode request shown_plan =
     (case shown_plan of
        Some active \<Rightarrow>
          lit ''Plan mode: only the active plan file is editable (active: '' @ replace_char BSLASH SLASH active
          @ lit ''; requested: '' @ replace_char BSLASH SLASH (req_target request)
          @ lit ''). If paths differ only in drive-letter case, UNC prefix, or junction resolution, accept the plan-handoff prompt to reload the session.''
      | None \<Rightarrow> session_mode_as_str mode @ lit '' mode refuses '' @ capability_as_str (req_capability request)
               @ lit '' (no active plan file to edit)'')"

definition refused_reason :: "str \<Rightarrow> session_mode \<Rightarrow> permission_request \<Rightarrow> str option \<Rightarrow> str" where
  "refused_reason hint mode request shown_plan =
     (if mode = Plan \<and> req_capability request = Edit then refused_edit_reason mode request shown_plan
      else
        let base = session_mode_as_str mode @ lit '' mode refuses '' @ capability_as_str (req_capability request)
        in if mode = Plan \<and> req_capability request \<in> {Shell, Git, Compiler, Destructive}
           then base @ switch_hint hint else base)"

definition mutating_shell_reason :: "str \<Rightarrow> session_mode \<Rightarrow> str" where
  "mutating_shell_reason hint mode =
     session_mode_as_str mode @ lit '' mode refuses mutating shell command'' @ switch_hint hint"

definition plan_edit_canon :: "file_system \<Rightarrow> session_mode \<Rightarrow> permission_request \<Rightarrow> str option \<Rightarrow> str option" where
  "plan_edit_canon fs mode request active_plan =
     (if mode = Plan \<and> req_capability request = Edit
      then Option.bind active_plan (canonicalize_active_plan_path fs) else None)"

definition mode_permission_verdict ::
  "ts_parser \<Rightarrow> file_system \<Rightarrow> str \<Rightarrow> session_mode \<Rightarrow> permission_request \<Rightarrow> str option \<Rightarrow> permission_verdict option" where
  "mode_permission_verdict parse fs hint mode request active_plan =
     (let canon = plan_edit_canon fs mode request active_plan;
          plan_edit_allowed = (mode = Plan \<and> req_capability request = Edit
             \<and> (case canon of None \<Rightarrow> False
                | Some active \<Rightarrow> is_active_plan_path_with_canon fs (req_target request) active));
          by_capability =
            (if \<not> mode_refuses_capability mode (req_capability request) plan_edit_allowed then None
             else Some (plain_verdict Deny (refused_reason hint mode request
                    (case canon of Some c \<Rightarrow> Some c | None \<Rightarrow> active_plan))))
      in if mode = Plan \<and> req_tool_name request = lit ''shell''
         then
           if req_capability request \<in> {Destructive, Edit}
           then Some (plain_verdict Deny (mutating_shell_reason hint mode))
           else if req_capability request \<in> {Shell, Git, Compiler}
           then (case req_metadata request (lit ''command'') of
                   None \<Rightarrow> Some (plain_verdict Deny (session_mode_as_str mode
                                @ lit '' mode refuses shell command with no command text''))
                 | Some command \<Rightarrow>
                     (case classify_plan_mode_shell_command parse command of
                        ReadOnly \<Rightarrow> None
                      | Mutating \<Rightarrow> Some (plain_verdict Deny (mutating_shell_reason hint mode))
                      | NeedsApproval \<Rightarrow> Some (plain_verdict Ask (session_mode_as_str mode
                                @ lit '' mode requires approval for unproven shell command''))))
           else by_capability
         else by_capability)"

section \<open>The shell classifier's answer\<close>

definition extract_json_action :: "json_reader \<Rightarrow> str \<Rightarrow> permission_mode option" where
  "extract_json_action json text =
     (case Option.bind (brace_slice text) json of
        Some (Some action, _) \<Rightarrow>
          (let a = to_lower (trim action)
           in if one_of a [''deny'', ''denied'', ''refuse''] then Some Deny
              else if one_of a [''ask'', ''prompt'', ''confirm''] then Some Ask
              else None)
      | _ \<Rightarrow> None)"

text \<open>\<open>char::is_alphanumeric\<close>: the ASCII part, and a table of the library for the rest.\<close>

definition is_alphanumeric :: "(uchar \<Rightarrow> bool) \<Rightarrow> uchar \<Rightarrow> bool" where
  "is_alphanumeric unicode c = (if c < 128 then is_alnum c else unicode c)"

definition extract_loose_action :: "(uchar \<Rightarrow> bool) \<Rightarrow> str \<Rightarrow> permission_mode option" where
  "extract_loose_action unicode text =
     (let lower = to_lower text
      in case find_str lower (lit ''action'') of None \<Rightarrow> None
         | Some idx \<Rightarrow>
             (let after = trim_start_matches (\<lambda>c. \<not> is_alphanumeric unicode c) (drop (idx + 6) lower)
              in if starts_with after (lit ''deny'') then Some Deny
                 else if starts_with after (lit ''ask'') then Some Ask
                 else None))"

definition compact_reason :: "str \<Rightarrow> str" where
  "compact_reason text = take 240 (join [SPACE] (split_ws text))"

definition parse_classifier_verdict :: "json_reader \<Rightarrow> (uchar \<Rightarrow> bool) \<Rightarrow> str \<Rightarrow> permission_verdict" where
  "parse_classifier_verdict json unicode text =
     (let trimmed = trim text;
          action = (case extract_json_action json trimmed of
                      Some a \<Rightarrow> a
                    | None \<Rightarrow> (case extract_loose_action unicode trimmed of Some a \<Rightarrow> a | None \<Rightarrow> Ask))
      in if action = Deny
         then plain_verdict Deny (lit ''shell classifier denied command: '' @ compact_reason trimmed)
         else plain_verdict Ask (lit ''shell classifier requires approval: '' @ compact_reason trimmed))"

section \<open>State and world\<close>

datatype approval_decision = Approved | Denied str | Cancelled

datatype tool_approval =
    UserApproved | UserDenied | AllowOnce | AllowSession | AllowRuleUser | AllowRuleProject
  | AskRuleUser | AskRuleProject | DenyOnce | DenySession | DenyRuleUser | DenyRuleProject | UserCancelled

text \<open>How the approval prompt ends: cancelled or closed while sending, cancelled while waiting, answered,
  or dropped without an answer.\<close>

datatype ask_reply = SendCancelled | ChannelClosed | WaitCancelled | Reply tool_approval | NotAnswered

record flow_state =
  fl_session_rules :: "permission_rule list"
  fl_persisted :: "permission_rule list"
  fl_grants :: "(str \<times> permission_request) list"
  fl_reviewer :: reviewer_state
  fl_cost :: cost_snapshot
  fl_provider_cost :: cost_snapshot
  fl_ledger :: model_ledger

record flow_world =
  fw_hook_denial :: "str option"
  fw_mode :: session_mode
  fw_active_plan :: "str option"
  fw_policy :: permission_policy
  fw_parse :: ts_parser
  fw_fs :: file_system
  fw_env :: environment
  fw_sandbox_hint :: str
  fw_redact :: "str \<Rightarrow> str"
  fw_turn :: u64
  fw_reviewer :: reviewer_world
  fw_transcript :: "transcript_snapshot option"
  fw_has_conversation :: bool
  fw_classifier :: "str \<Rightarrow> (str \<times> cost_snapshot) option"
  fw_unicode_alnum :: "uchar \<Rightarrow> bool"
  fw_ask :: "permission_request \<Rightarrow> permission_rule option \<Rightarrow> str \<Rightarrow> ask_reply"
  fw_evict :: "(str \<times> permission_request) list \<Rightarrow> str"

record permission_outcome =
  po_decision :: approval_decision
  po_reviewer_usd_micros :: u64

definition no_reviewer_cost :: "approval_decision \<Rightarrow> permission_outcome" where
  "no_reviewer_cost decision = \<lparr>po_decision = decision, po_reviewer_usd_micros = 0\<rparr>"

section \<open>Effects of a decision\<close>

definition MAX_PERMISSION_GRANTS :: nat where
  "MAX_PERMISSION_GRANTS = 256"

text \<open>\<open>record_permission_grant\<close>; the evicted key is the first of the hash map's iteration.\<close>

definition record_permission_grant ::
  "((str \<times> permission_request) list \<Rightarrow> str) \<Rightarrow> permission_request
     \<Rightarrow> (str \<times> permission_request) list \<Rightarrow> (str \<times> permission_request) list" where
  "record_permission_grant evict request grants =
     (if req_capability request \<notin> {Read, Edit}
         \<or> req_metadata request (lit ''outside_workspace'') \<noteq> Some (lit ''true'')
      then grants
      else
        let kept = (if MAX_PERMISSION_GRANTS \<le> length grants \<and> map_of grants (req_call_id request) = None
                    then AList.delete (evict grants) grants else grants)
        in AList.update (req_call_id request) request kept)"

definition call_has_outside_path_grant ::
  "bool \<Rightarrow> (str \<times> permission_request) list \<Rightarrow> str \<Rightarrow> capability \<Rightarrow> bool" where
  "call_has_outside_path_grant full_access grants call_id cap =
     (if full_access then True
      else case map_of grants call_id of None \<Rightarrow> False
           | Some request \<Rightarrow> req_capability request = cap
               \<and> req_metadata request (lit ''outside_workspace'') = Some (lit ''true''))"

definition approved_decision ::
  "flow_world \<Rightarrow> permission_request \<Rightarrow> flow_state \<Rightarrow> approval_decision \<times> flow_state" where
  "approved_decision w request s =
     (Approved, s\<lparr>fl_grants := record_permission_grant (fw_evict w) request (fl_grants s)\<rparr>)"

definition persistence_path_for :: "rule_source \<Rightarrow> bool" where
  "persistence_path_for source = (case source of User \<Rightarrow> True | Project \<Rightarrow> True | _ \<Rightarrow> False)"

definition install_persistent_rule ::
  "permission_request \<Rightarrow> rule_source \<Rightarrow> permission_mode \<Rightarrow> flow_state \<Rightarrow> flow_state" where
  "install_persistent_rule request source action s =
     (case permission_rule_for_persistence request source action of None \<Rightarrow> s
      | Some rule \<Rightarrow>
          (let s1 = s\<lparr>fl_session_rules := fl_session_rules s @ [rule]\<rparr>
           in if persistence_path_for source then s1\<lparr>fl_persisted := fl_persisted s1 @ [rule]\<rparr> else s1))"

definition permission_denied_reason :: "permission_request \<Rightarrow> str \<Rightarrow> str" where
  "permission_denied_reason request reason =
     reason @ lit ''; capability='' @ capability_as_str (req_capability request)
     @ lit '' target='' @ req_target request @ lit '' risk='' @ risk_as_str (req_risk request)"

definition verdict_deny_reason_for_model :: "flow_world \<Rightarrow> permission_verdict \<Rightarrow> str" where
  "verdict_deny_reason_for_model w verdict =
     (if ver_silent verdict then lit ''action denied by policy'' else fw_redact w (ver_reason verdict))"

text \<open>One arm per answer of the user.\<close>

definition apply_user_answer ::
  "flow_world \<Rightarrow> permission_request \<Rightarrow> tool_approval \<Rightarrow> flow_state \<Rightarrow> approval_decision \<times> flow_state" where
  "apply_user_answer w request answer s =
     (let install = install_persistent_rule request;
          denied = (\<lambda>why. Denied (permission_denied_reason request (lit why)));
          ask_later = Denied (lit ''user asked to require approval for future matching calls'')
      in case answer of
           UserApproved \<Rightarrow> approved_decision w request s
         | AllowOnce \<Rightarrow> approved_decision w request s
         | AllowSession \<Rightarrow> approved_decision w request (install Session Allow s)
         | AllowRuleUser \<Rightarrow> approved_decision w request (install User Allow s)
         | AllowRuleProject \<Rightarrow> approved_decision w request (install Project Allow s)
         | AskRuleUser \<Rightarrow> (ask_later, install User Ask s)
         | AskRuleProject \<Rightarrow> (ask_later, install Project Ask s)
         | UserDenied \<Rightarrow> (denied ''user denied tool call'', s)
         | DenyOnce \<Rightarrow> (denied ''user denied tool call'', s)
         | DenySession \<Rightarrow> (denied ''user denied and installed a session rule'', install Session Deny s)
         | DenyRuleUser \<Rightarrow> (denied ''user denied and persisted a user rule'', install User Deny s)
         | DenyRuleProject \<Rightarrow> (denied ''user denied and persisted a project rule'', install Project Deny s)
         | UserCancelled \<Rightarrow> (Cancelled, s))"

section \<open>Stages of the decision\<close>

text \<open>The policy, and a plan-mode \<open>Ask\<close> that replaces anything but a \<open>Deny\<close>; the flag says it did.\<close>

definition policy_stage ::
  "flow_world \<Rightarrow> permission_request \<Rightarrow> permission_verdict option \<Rightarrow> flow_state \<Rightarrow> permission_verdict \<times> bool" where
  "policy_stage w request mode_ask s =
     (let verdict = evaluate_with_extra (fw_policy w) request (fl_session_rules s)
      in case mode_ask of
           Some mode_verdict \<Rightarrow> if ver_action verdict \<noteq> Deny then (mode_verdict, True) else (verdict, False)
         | None \<Rightarrow> (verdict, False))"

text \<open>The structural pre-classifier: the verdict and the reason it raised an \<open>Allow\<close> for.\<close>

definition pre_classify_stage ::
  "flow_world \<Rightarrow> permission_request \<Rightarrow> bool \<Rightarrow> permission_verdict \<Rightarrow> permission_verdict \<times> str option" where
  "pre_classify_stage w request mode_forced_ask verdict =
     (if req_tool_name request \<noteq> lit ''shell'' then (verdict, None)
      else case req_metadata request (lit ''command'') of None \<Rightarrow> (verdict, None)
      | Some command \<Rightarrow>
          (case pre_classify_shell (fw_env w) command (pol_shell_sandbox (fw_policy w)) of
             AutoAllow reason \<Rightarrow>
               if ver_action verdict = Ask \<and> \<not> mode_forced_ask
               then (plain_verdict Allow (lit ''pre-classifier auto-allow: '' @ reason), None)
               else (verdict, None)
           | RequiresApproval reason \<Rightarrow>
               if ver_action verdict = Allow
               then (plain_verdict Ask (lit ''pre-classifier requires approval: '' @ reason), Some reason)
               else (verdict, None)
           | AskAi \<Rightarrow> (verdict, None)))"

definition has_any_usage :: "cost_snapshot \<Rightarrow> bool" where
  "has_any_usage cost \<longleftrightarrow> estimated_usd_micros cost \<noteq> None \<or> input_tokens cost \<noteq> None \<or> output_tokens cost \<noteq> None"

definition bill :: "flow_world \<Rightarrow> str \<Rightarrow> cost_origin \<Rightarrow> cost_snapshot \<Rightarrow> flow_state \<Rightarrow> flow_state" where
  "bill w model origin cost s =
     s\<lparr>fl_cost := merge_cost_snapshot (fl_cost s) cost,
       fl_provider_cost := merge_cost_snapshot (fl_provider_cost s) cost,
       fl_ledger := ledger_record (rw_provider (fw_reviewer w)) model origin cost (fl_ledger s)\<rparr>"

definition reviewed_reason :: "str option \<Rightarrow> permission_verdict \<Rightarrow> permission_verdict" where
  "reviewed_reason pre_reason reviewed =
     (case pre_reason of
        Some structural \<Rightarrow>
          if ver_action reviewed = Deny
          then reviewed\<lparr>ver_reason := structural @ lit '' (pre-classified) '' @ [183] @ lit '' reviewer agreed: ''
                  @ ver_reason reviewed\<rparr>
          else reviewed
      | None \<Rightarrow> reviewed)"

definition review_stage ::
  "flow_world \<Rightarrow> permission_request \<Rightarrow> str option \<Rightarrow> permission_verdict \<Rightarrow> flow_state
     \<Rightarrow> permission_verdict \<times> u64 \<times> flow_state" where
  "review_stage w request pre_reason verdict s =
     (if ver_action verdict = Ask \<and> arc_enabled (pol_ai_reviewer (fw_policy w))
      then
        let transcript = (if fw_has_conversation w then fw_transcript w else None);
            (r, reviewer) = review_permission (fw_reviewer w) (pol_ai_reviewer (fw_policy w)) (fw_turn w) request
                              transcript (fl_reviewer s);
            s1 = s\<lparr>fl_reviewer := reviewer\<rparr>;
            s2 = (if has_any_usage (rr_cost r) \<and> fw_has_conversation w
                  then bill w (rr_model r) AiReviewerOrigin (rr_cost r) s1 else s1)
        in (case rr_outcome r of Verdict reviewed \<Rightarrow> reviewed_reason pre_reason reviewed | _ \<Rightarrow> verdict,
            or_zero (estimated_usd_micros (rr_cost r)), s2)
      else (verdict, 0, s))"

definition should_classify_shell ::
  "permission_policy \<Rightarrow> str \<Rightarrow> permission_request \<Rightarrow> permission_verdict \<Rightarrow> bool" where
  "should_classify_shell policy provider_name request verdict \<longleftrightarrow>
     pol_shell_classifier policy \<and> provider_name \<noteq> lit ''scripted''
     \<and> req_tool_name request = lit ''shell'' \<and> req_capability request = Shell \<and> ver_action verdict = Ask"

text \<open>The verdict, the priced cost and the model of the classifier call; \<open>None\<close> without a command or when
  the stream failed or was cancelled.\<close>

definition classify_ambiguous_shell ::
  "flow_world \<Rightarrow> permission_request \<Rightarrow> (permission_verdict \<times> cost_snapshot \<times> str) option" where
  "classify_ambiguous_shell w request =
     (case req_metadata request (lit ''command'') of None \<Rightarrow> None
      | Some command \<Rightarrow>
          (case fw_classifier w command of None \<Rightarrow> None
           | Some (text, cost) \<Rightarrow>
               (let model = rw_main_model (fw_reviewer w)
                in Some (parse_classifier_verdict (rw_json (fw_reviewer w)) (fw_unicode_alnum w) text,
                         priced (fw_reviewer w) model cost, model))))"

definition has_positive_usage :: "cost_snapshot \<Rightarrow> bool" where
  "has_positive_usage cost \<longleftrightarrow>
     0 < or_zero (estimated_usd_micros cost) \<or> 0 < or_zero (input_tokens cost) \<or> 0 < or_zero (output_tokens cost)"

definition classify_stage ::
  "flow_world \<Rightarrow> permission_request \<Rightarrow> bool \<Rightarrow> permission_verdict \<times> u64 \<times> flow_state
     \<Rightarrow> permission_verdict \<times> u64 \<times> flow_state" where
  "classify_stage w request mode_forced_ask = (\<lambda>(verdict, micros, s).
     (if \<not> mode_forced_ask
         \<and> should_classify_shell (fw_policy w) (rw_provider (fw_reviewer w)) request verdict
      then (case classify_ambiguous_shell w request of None \<Rightarrow> (verdict, micros, s)
            | Some (classified, cost, model) \<Rightarrow>
                (classified, saturating_add micros (or_zero (estimated_usd_micros cost)),
                 if has_positive_usage cost \<and> fw_has_conversation w
                 then bill w model MainOrigin cost s else s))
      else (verdict, micros, s)))"

text \<open>The last match.  An \<open>Allow\<close> goes out through \<open>no_reviewer_cost\<close>.\<close>

definition decide_stage ::
  "flow_world \<Rightarrow> permission_request \<Rightarrow> permission_verdict \<times> u64 \<times> flow_state \<Rightarrow> permission_outcome \<times> flow_state" where
  "decide_stage w request = (\<lambda>(verdict, micros, s).
     (case ver_action verdict of
        Allow \<Rightarrow> (let (d, s') = approved_decision w request s in (no_reviewer_cost d, s'))
      | Deny \<Rightarrow> (\<lparr>po_decision = Denied (verdict_deny_reason_for_model w verdict),
                 po_reviewer_usd_micros = micros\<rparr>, s)
      | Ask \<Rightarrow>
          (let (d, s') =
                 (case fw_ask w request (ver_matched_rule verdict) (fw_redact w (ver_reason verdict)) of
                    SendCancelled \<Rightarrow> (Cancelled, s)
                  | ChannelClosed \<Rightarrow> (Denied (lit ''approval channel closed''), s)
                  | WaitCancelled \<Rightarrow> (Cancelled, s)
                  | NotAnswered \<Rightarrow> (Denied (lit ''approval was not answered''), s)
                  | Reply answer \<Rightarrow> apply_user_answer w request answer s)
           in (\<lparr>po_decision = d, po_reviewer_usd_micros = micros\<rparr>, s'))))"

definition resolve_ask_or_policy ::
  "flow_world \<Rightarrow> permission_request \<Rightarrow> permission_verdict option \<Rightarrow> flow_state \<Rightarrow> permission_outcome \<times> flow_state" where
  "resolve_ask_or_policy w request mode_ask s =
     (let (policy_verdict, forced) = policy_stage w request mode_ask s;
          (verdict, pre_reason) = pre_classify_stage w request forced policy_verdict
      in decide_stage w request (classify_stage w request forced (review_stage w request pre_reason verdict s)))"

definition permission_decision_for_request ::
  "flow_world \<Rightarrow> permission_request \<Rightarrow> flow_state \<Rightarrow> permission_outcome \<times> flow_state" where
  "permission_decision_for_request w request s =
     (case fw_hook_denial w of
        Some reason \<Rightarrow> (no_reviewer_cost (Denied reason), s)
      | None \<Rightarrow>
          (case mode_permission_verdict (fw_parse w) (fw_fs w) (fw_sandbox_hint w) (fw_mode w) request (fw_active_plan w) of
             None \<Rightarrow> resolve_ask_or_policy w request None s
           | Some verdict \<Rightarrow>
               (case ver_action verdict of
                  Deny \<Rightarrow> (no_reviewer_cost (Denied (verdict_deny_reason_for_model w verdict)), s)
                | Ask \<Rightarrow> resolve_ask_or_policy w request (Some verdict) s
                | Allow \<Rightarrow> (let (d, s') = approved_decision w request s in (no_reviewer_cost d, s')))))"

section \<open>Facts about the stages\<close>

definition mode_verdict_of :: "flow_world \<Rightarrow> permission_request \<Rightarrow> permission_verdict option" where
  "mode_verdict_of w request =
     mode_permission_verdict (fw_parse w) (fw_fs w) (fw_sandbox_hint w) (fw_mode w) request (fw_active_plan w)"

definition shell_structure :: "flow_world \<Rightarrow> permission_request \<Rightarrow> shell_pre_classification option" where
  "shell_structure w request =
     (if req_tool_name request = lit ''shell''
      then map_option (\<lambda>c. pre_classify_shell (fw_env w) c (pol_shell_sandbox (fw_policy w)))
             (req_metadata request (lit ''command''))
      else None)"

definition policy_verdict :: "flow_world \<Rightarrow> permission_request \<Rightarrow> flow_state \<Rightarrow> permission_verdict" where
  "policy_verdict w request s = evaluate_with_extra (fw_policy w) request (fl_session_rules s)"

lemma plain_verdict_simps [simp]:
  "ver_action (plain_verdict a r) = a" "ver_silent (plain_verdict a r) = False"
  "ver_matched_rule (plain_verdict a r) = None" "ver_reason (plain_verdict a r) = r"
  by (simp_all add: plain_verdict_def)

lemma mode_verdict_not_allow: "mode_verdict_of w request = Some v \<Longrightarrow> ver_action v \<noteq> Allow"
  by (auto simp: mode_verdict_of_def mode_permission_verdict_def Let_def
      split: if_splits option.splits plan_mode_shell_safety.splits)

lemma policy_stage_cases:
  assumes "policy_stage w request mode_ask s = (v, forced)"
  shows "(\<not> forced \<and> v = policy_verdict w request s \<and> (mode_ask = None \<or> ver_action v = Deny))
    \<or> (forced \<and> mode_ask = Some v \<and> ver_action (policy_verdict w request s) \<noteq> Deny)"
  using assms by (auto simp: policy_stage_def Let_def policy_verdict_def split: option.splits if_splits)

lemma pre_classify_stage_eq:
  "pre_classify_stage w request forced v =
     (case shell_structure w request of
        Some (AutoAllow reason) \<Rightarrow>
          if ver_action v = Ask \<and> \<not> forced
          then (plain_verdict Allow (lit ''pre-classifier auto-allow: '' @ reason), None) else (v, None)
      | Some (RequiresApproval reason) \<Rightarrow>
          if ver_action v = Allow
          then (plain_verdict Ask (lit ''pre-classifier requires approval: '' @ reason), Some reason) else (v, None)
      | _ \<Rightarrow> (v, None))"
  by (auto simp: pre_classify_stage_def shell_structure_def split: option.split shell_pre_classification.split)

lemma pre_classify_Allow:
  assumes "fst (pre_classify_stage w request forced v) = v'" "ver_action v' = Allow"
  shows "(v' = v \<and> (\<forall>reason. shell_structure w request \<noteq> Some (RequiresApproval reason)))
    \<or> (\<exists>reason. shell_structure w request = Some (AutoAllow reason) \<and> ver_action v = Ask \<and> \<not> forced)"
  using assms
  by (auto simp: pre_classify_stage_eq split: option.splits shell_pre_classification.splits if_splits)

lemma pre_classify_Deny:
  "ver_action v = Deny \<Longrightarrow> fst (pre_classify_stage w request forced v) = v"
  by (auto simp: pre_classify_stage_eq split: option.split shell_pre_classification.split)

lemma pre_classify_not_Deny:
  "ver_action v \<noteq> Deny \<Longrightarrow> ver_action (fst (pre_classify_stage w request forced v)) \<noteq> Deny"
  by (auto simp: pre_classify_stage_eq split: option.split shell_pre_classification.split)

definition reviewer_approves :: "flow_world \<Rightarrow> permission_request \<Rightarrow> flow_state \<Rightarrow> bool" where
  "reviewer_approves w request s \<longleftrightarrow>
     (\<exists>v. rr_outcome (fst (review_permission (fw_reviewer w) (pol_ai_reviewer (fw_policy w)) (fw_turn w) request
            (if fw_has_conversation w then fw_transcript w else None) (fl_reviewer s))) = Verdict v
          \<and> ver_action v = Allow)"

lemma reviewed_reason_action [simp]: "ver_action (reviewed_reason pre v) = ver_action v"
  by (simp add: reviewed_reason_def split: option.split)

lemma bill_simps [simp]:
  "fl_session_rules (bill w m c k s) = fl_session_rules s" "fl_persisted (bill w m c k s) = fl_persisted s"
  "fl_grants (bill w m c k s) = fl_grants s" "fl_reviewer (bill w m c k s) = fl_reviewer s"
  by (simp_all add: bill_def)

lemma review_stage_Allow:
  assumes "review_stage w request pre v s = (v', micros, s')" "ver_action v' = Allow"
  shows "(v' = v \<and> micros = 0 \<and> s' = s) \<or> (ver_action v = Ask \<and> reviewer_approves w request s)"
proof (cases "ver_action v = Ask \<and> arc_enabled (pol_ai_reviewer (fw_policy w))")
  case True
  with assms show ?thesis
    by (auto simp: review_stage_def Let_def reviewer_approves_def split: prod.splits reviewer_outcome.splits)
next
  case False
  with assms show ?thesis by (auto simp: review_stage_def split: if_splits)
qed

lemma review_stage_Deny:
  "ver_action v = Deny \<Longrightarrow> review_stage w request pre v s = (v, 0, s)"
  by (simp add: review_stage_def)

lemma review_stage_keeps:
  "snd (snd (review_stage w request pre v s)) = s' \<Longrightarrow>
     fl_session_rules s' = fl_session_rules s \<and> fl_persisted s' = fl_persisted s \<and> fl_grants s' = fl_grants s"
  by (auto simp: review_stage_def Let_def split: prod.splits)

lemma classifier_not_Allow: "ver_action (parse_classifier_verdict json unicode text) \<noteq> Allow"
  by (simp add: parse_classifier_verdict_def Let_def)

lemma classify_stage_Allow:
  assumes "classify_stage w request forced (v, micros, s) = (v', micros', s')" "ver_action v' = Allow"
  shows "v' = v \<and> micros' = micros \<and> s' = s"
  using assms classifier_not_Allow
  by (auto simp: classify_stage_def classify_ambiguous_shell_def Let_def split: if_splits option.splits)

lemma classify_stage_Deny:
  "ver_action v = Deny \<Longrightarrow> classify_stage w request forced (v, micros, s) = (v, micros, s)"
  by (simp add: classify_stage_def should_classify_shell_def)

lemma classify_stage_keeps:
  "snd (snd (classify_stage w request forced (v, micros, s))) = s' \<Longrightarrow>
     fl_session_rules s' = fl_session_rules s \<and> fl_persisted s' = fl_persisted s \<and> fl_grants s' = fl_grants s"
  by (auto simp: classify_stage_def split: option.splits)

definition approving_answer :: "tool_approval \<Rightarrow> bool" where
  "approving_answer a \<longleftrightarrow> a \<in> {UserApproved, AllowOnce, AllowSession, AllowRuleUser, AllowRuleProject}"

lemma user_answer_Approved:
  "fst (apply_user_answer w request answer s) = Approved \<longleftrightarrow> approving_answer answer"
  by (cases answer) (simp_all add: apply_user_answer_def approved_decision_def approving_answer_def Let_def)

definition user_approves :: "flow_world \<Rightarrow> permission_request \<Rightarrow> bool" where
  "user_approves w request \<longleftrightarrow>
     (\<exists>rule reason answer. fw_ask w request rule reason = Reply answer \<and> approving_answer answer)"

lemma decide_stage_Approved:
  assumes "decide_stage w request (v, micros, s) = (out, s')" "po_decision out = Approved"
  shows "ver_action v = Allow \<or> (ver_action v = Ask \<and> user_approves w request)"
proof (cases "ver_action v")
  case Ask
  with assms show ?thesis
    by (auto simp: decide_stage_def user_approves_def split: ask_reply.splits prod.splits)
       (metis fst_conv user_answer_Approved)
next
  case Deny
  with assms show ?thesis by (auto simp: decide_stage_def)
qed simp

lemma resolve_Approved:
  assumes "resolve_ask_or_policy w request mode_ask s = (out, s')" "po_decision out = Approved"
  shows "ver_action (policy_verdict w request s) \<noteq> Deny
    \<and> ((mode_ask = None \<and> ver_action (policy_verdict w request s) = Allow
          \<and> (\<forall>reason. shell_structure w request \<noteq> Some (RequiresApproval reason)))
       \<or> (mode_ask = None \<and> ver_action (policy_verdict w request s) = Ask
          \<and> (\<exists>reason. shell_structure w request = Some (AutoAllow reason)))
       \<or> reviewer_approves w request s
       \<or> user_approves w request
       \<or> (\<exists>v. mode_ask = Some v \<and> ver_action v = Allow))"
proof -
  obtain pv forced where p: "policy_stage w request mode_ask s = (pv, forced)" by fastforce
  obtain cv pre where c: "pre_classify_stage w request forced pv = (cv, pre)" by fastforce
  obtain rv m1 s1 where r: "review_stage w request pre cv s = (rv, m1, s1)" by (metis prod_cases3)
  obtain fv m2 s2 where f: "classify_stage w request forced (rv, m1, s1) = (fv, m2, s2)" by (metis prod_cases3)
  have d: "decide_stage w request (fv, m2, s2) = (out, s')"
    using assms(1) by (simp add: resolve_ask_or_policy_def p c r f)
  have not_deny: "ver_action pv \<noteq> Deny"
  proof
    assume "ver_action pv = Deny"
    moreover from this have "cv = pv" using pre_classify_Deny c by (metis fst_conv)
    ultimately have "fv = pv" using review_stage_Deny classify_stage_Deny r f by (metis prod.inject)
    with d assms(2) \<open>ver_action pv = Deny\<close> show False by (auto simp: decide_stage_def)
  qed
  note pcs = policy_stage_cases [OF p]
  have pol: "ver_action (policy_verdict w request s) \<noteq> Deny" using pcs not_deny by auto
  consider (user) "user_approves w request" | (allow) "ver_action fv = Allow"
    using decide_stage_Approved [OF d assms(2)] by blast
  then show ?thesis
  proof cases
    case user
    with pol show ?thesis by blast
  next
    case allow
    from classify_stage_Allow [OF f allow] have "rv = fv" by simp
    with review_stage_Allow [OF r] allow consider (reviewer) "reviewer_approves w request s" | (same) "cv = fv"
      by auto
    then show ?thesis
    proof cases
      case reviewer
      with pol show ?thesis by blast
    next
      case same
      have "fst (pre_classify_stage w request forced pv) = fv" by (simp add: c same)
      from pre_classify_Allow [OF this allow] show ?thesis
        using pcs pol allow not_deny by auto
    qed
  qed
qed

lemma decision_unfold:
  "permission_decision_for_request w request s =
     (case fw_hook_denial w of
        Some reason \<Rightarrow> (no_reviewer_cost (Denied reason), s)
      | None \<Rightarrow>
          (case mode_verdict_of w request of
             None \<Rightarrow> resolve_ask_or_policy w request None s
           | Some v \<Rightarrow>
               if ver_action v = Deny
               then (no_reviewer_cost (Denied (verdict_deny_reason_for_model w v)), s)
               else resolve_ask_or_policy w request (Some v) s))"
  using mode_verdict_not_allow [of w request]
  by (auto simp: permission_decision_for_request_def mode_verdict_of_def [symmetric]
      split: option.split permission_mode.split)

lemma evaluate_last_rule:
  "rule_matches request rule \<Longrightarrow> rule_action rule = Deny \<Longrightarrow>
     ver_action (evaluate_with_extra p request (rules @ [rule])) = Deny"
  by (simp add: evaluate_with_extra_def downgrade_unsafe_action_def)

lemma resolve_Deny:
  assumes "ver_action (policy_verdict w request s) = Deny"
  shows "\<exists>reason. resolve_ask_or_policy w request mode_ask s = (\<lparr>po_decision = Denied reason, po_reviewer_usd_micros = 0\<rparr>, s)"
proof -
  have p: "policy_stage w request mode_ask s = (policy_verdict w request s, False)"
    using assms by (auto simp: policy_stage_def Let_def policy_verdict_def split: option.split)
  have c: "pre_classify_stage w request False (policy_verdict w request s) = (policy_verdict w request s, None)"
    using assms by (auto simp: pre_classify_stage_eq split: option.split shell_pre_classification.split)
  show ?thesis
    using assms by (simp add: resolve_ask_or_policy_def p c review_stage_Deny classify_stage_Deny decide_stage_def)
qed

lemma install_Deny:
  "\<exists>rule. rule_action rule = Deny \<and> permission_rule_for_persistence request source Deny = Some rule
     \<and> fl_session_rules (install_persistent_rule request source Deny s) = fl_session_rules s @ [rule]"
  by (simp add: install_persistent_rule_def permission_rule_for_persistence_def Let_def)

definition denying_rule_answer :: "tool_approval \<Rightarrow> bool" where
  "denying_rule_answer a \<longleftrightarrow> a \<in> {DenySession, DenyRuleUser, DenyRuleProject}"

lemma denying_answer_rules:
  assumes "denying_rule_answer answer"
  shows "\<exists>rule. rule_action rule = Deny
     \<and> fl_session_rules (snd (apply_user_answer w request answer s)) = fl_session_rules s @ [rule]"
  using assms install_Deny [of request _ s]
  by (cases answer) (auto simp: denying_rule_answer_def apply_user_answer_def Let_def)

text \<open>What an answer does to the rules.\<close>

definition rule_effect :: "permission_request \<Rightarrow> flow_state \<Rightarrow> flow_state \<Rightarrow> bool" where
  "rule_effect request s s' \<longleftrightarrow>
     (fl_session_rules s' = fl_session_rules s \<and> fl_persisted s' = fl_persisted s)
     \<or> (\<exists>source action rule. permission_rule_for_persistence request source action = Some rule
          \<and> fl_session_rules s' = fl_session_rules s @ [rule]
          \<and> fl_persisted s' = fl_persisted s @ (if persistence_path_for source then [rule] else []))"

lemma install_rule_effect: "rule_effect request s (install_persistent_rule request source action s)"
proof (cases "permission_rule_for_persistence request source action")
  case (Some rule)
  then show ?thesis
    unfolding rule_effect_def
    by (intro disjI2 exI [of _ source] exI [of _ action] exI [of _ rule])
       (simp add: install_persistent_rule_def Let_def)
qed (simp add: rule_effect_def install_persistent_rule_def)

lemma rule_effect_grants [simp]: "rule_effect request s (s'\<lparr>fl_grants := g\<rparr>) = rule_effect request s s'"
  by (simp add: rule_effect_def)

lemma rule_effect_refl [simp]: "rule_effect request s s"
  by (simp add: rule_effect_def)

lemma answer_rule_effect: "rule_effect request s (snd (apply_user_answer w request answer s))"
  by (cases answer) (simp_all add: apply_user_answer_def approved_decision_def Let_def install_rule_effect)

lemma rule_effect_from:
  "fl_session_rules s1 = fl_session_rules s \<Longrightarrow> fl_persisted s1 = fl_persisted s \<Longrightarrow>
     rule_effect request s1 s' \<longleftrightarrow> rule_effect request s s'"
  by (simp add: rule_effect_def)

lemma decide_rule_effect:
  assumes "decide_stage w request (v, micros, s) = (out, s')"
  shows "(\<exists>rule reason answer. fw_ask w request rule reason = Reply answer) \<and> rule_effect request s s'
    \<or> fl_session_rules s' = fl_session_rules s \<and> fl_persisted s' = fl_persisted s"
proof (cases "ver_action v")
  case Ask
  then show ?thesis
    using assms answer_rule_effect [of request s w]
    by (auto simp: decide_stage_def split: ask_reply.splits prod.splits) (metis snd_conv)+
qed (use assms in \<open>auto simp: decide_stage_def approved_decision_def\<close>)

lemma resolve_rule_effect:
  assumes "resolve_ask_or_policy w request mode_ask s = (out, s')"
  shows "(\<exists>rule reason answer. fw_ask w request rule reason = Reply answer) \<and> rule_effect request s s'
    \<or> fl_session_rules s' = fl_session_rules s \<and> fl_persisted s' = fl_persisted s"
proof -
  obtain pv forced where p: "policy_stage w request mode_ask s = (pv, forced)" by fastforce
  obtain cv pre where c: "pre_classify_stage w request forced pv = (cv, pre)" by fastforce
  obtain rv m1 s1 where r: "review_stage w request pre cv s = (rv, m1, s1)" by (metis prod_cases3)
  obtain fv m2 s2 where f: "classify_stage w request forced (rv, m1, s1) = (fv, m2, s2)" by (metis prod_cases3)
  have d: "decide_stage w request (fv, m2, s2) = (out, s')"
    using assms by (simp add: resolve_ask_or_policy_def p c r f)
  have s1: "fl_session_rules s1 = fl_session_rules s" "fl_persisted s1 = fl_persisted s"
    using review_stage_keeps [of w request pre cv s s1] r by simp_all
  have s2: "fl_session_rules s2 = fl_session_rules s" "fl_persisted s2 = fl_persisted s"
    using classify_stage_keeps [of w request forced rv m1 s1 s2] f s1 by simp_all
  from decide_rule_effect [OF d] s2 show ?thesis by (simp add: rule_effect_from [OF s2])
qed

lemma decide_micros:
  assumes "decide_stage w request (v, micros, s) = (out, s')" "po_decision out = Approved" "\<not> user_approves w request"
  shows "po_reviewer_usd_micros out = 0"
proof -
  from decide_stage_Approved [OF assms(1,2)] assms(3) have "ver_action v = Allow" by blast
  with assms(1) show ?thesis by (auto simp: decide_stage_def no_reviewer_cost_def approved_decision_def)
qed

lemma resolve_micros:
  assumes "resolve_ask_or_policy w request mode_ask s = (out, s')" "po_decision out = Approved"
    "\<not> user_approves w request"
  shows "po_reviewer_usd_micros out = 0"
proof -
  obtain pv forced where p: "policy_stage w request mode_ask s = (pv, forced)" by fastforce
  obtain cv pre where c: "pre_classify_stage w request forced pv = (cv, pre)" by fastforce
  obtain rv m1 s1 where r: "review_stage w request pre cv s = (rv, m1, s1)" by (metis prod_cases3)
  obtain fv m2 s2 where f: "classify_stage w request forced (rv, m1, s1) = (fv, m2, s2)" by (metis prod_cases3)
  have "decide_stage w request (fv, m2, s2) = (out, s')"
    using assms(1) by (simp add: resolve_ask_or_policy_def p c r f)
  then show ?thesis using assms(2,3) by (rule decide_micros)
qed

section \<open>Properties\<close>

text \<open>C1: what an approval rests on.  A tool call is approved only when no hook denied it, the session mode
  did not refuse it and the policy with the session rules does not deny it; and then for one of four
  reasons: the policy allows it and the structural pre-classifier raises no objection; the policy asks
  and the pre-classifier auto-allows the shell command; the AI reviewer approves, which binds it to an
  allowlisted capability, to the workspace and to non-critical risk; or the user says yes.  The first
  two reasons are out when plan mode asked for an approval.\<close>

theorem approval_sound:
  assumes "permission_decision_for_request w request s = (out, s')"
    and "po_decision out = Approved"
  shows "fw_hook_denial w = None
    \<and> (\<forall>v. mode_verdict_of w request = Some v \<longrightarrow> ver_action v = Ask)
    \<and> ver_action (policy_verdict w request s) \<noteq> Deny
    \<and> ((mode_verdict_of w request = None \<and> ver_action (policy_verdict w request s) = Allow
          \<and> (\<forall>reason. shell_structure w request \<noteq> Some (RequiresApproval reason)))
       \<or> (mode_verdict_of w request = None \<and> ver_action (policy_verdict w request s) = Ask
          \<and> (\<exists>reason. shell_structure w request = Some (AutoAllow reason)))
       \<or> (reviewer_approves w request s
          \<and> req_capability request \<in> set (arc_allow_capabilities (pol_ai_reviewer (fw_policy w)))
          \<and> \<not> reviewer_request_outside_workspace request \<and> req_risk request \<noteq> Critical)
       \<or> user_approves w request)"
    (is "_ \<and> _ \<and> _ \<and> (?D1 \<or> ?D2 \<or> (_ \<and> ?R) \<or> _)")
proof -
  have hook: "fw_hook_denial w = None"
    using assms by (auto simp: decision_unfold no_reviewer_cost_def split: option.splits)
  have mode: "\<forall>v. mode_verdict_of w request = Some v \<longrightarrow> ver_action v = Ask"
  proof (intro allI impI)
    fix v assume v: "mode_verdict_of w request = Some v"
    have "ver_action v \<noteq> Deny" using assms hook v by (auto simp: decision_unfold no_reviewer_cost_def)
    with mode_verdict_not_allow [OF v] show "ver_action v = Ask" by (cases "ver_action v") auto
  qed
  have res: "resolve_ask_or_policy w request (mode_verdict_of w request) s = (out, s')"
    using assms hook mode by (auto simp: decision_unfold split: option.splits)
  have rev: "req_capability request \<in> set (arc_allow_capabilities (pol_ai_reviewer (fw_policy w)))
      \<and> \<not> reviewer_request_outside_workspace request \<and> req_risk request \<noteq> Critical"
    if "reviewer_approves w request s"
  proof -
    obtain r rs where rv: "review_permission (fw_reviewer w) (pol_ai_reviewer (fw_policy w)) (fw_turn w) request
            (if fw_has_conversation w then fw_transcript w else None) (fl_reviewer s) = (r, rs)" by fastforce
    from that obtain v where v: "rr_outcome r = Verdict v" and a: "ver_action v = Allow"
      unfolding reviewer_approves_def rv fst_conv by blast
    from reviewer_verdict_facts [OF rv v] a show ?thesis
      unfolding reviewer_request_outside_workspace_def by (elim conjE disjE) simp_all
  qed
  have no_allow: "\<nexists>v. mode_verdict_of w request = Some v \<and> ver_action v = Allow"
    using mode by force
  note r = resolve_Approved [OF res assms(2)]
  show ?thesis
  proof (intro conjI)
    show "fw_hook_denial w = None" by (rule hook)
    show "\<forall>v. mode_verdict_of w request = Some v \<longrightarrow> ver_action v = Ask" by (rule mode)
    show "ver_action (policy_verdict w request s) \<noteq> Deny" by (rule r [THEN conjunct1])
    from r [THEN conjunct2] show "?D1 \<or> ?D2 \<or> (reviewer_approves w request s \<and> ?R) \<or> user_approves w request"
    proof (elim disjE)
      assume "reviewer_approves w request s"
      with rev show ?thesis by (intro disjI2 disjI1 conjI) simp_all
    qed (use no_allow in simp_all)
  qed
qed

text \<open>A world in which nothing outside objects and the user gives a fixed answer.\<close>

definition quiet_world :: "permission_policy \<Rightarrow> session_mode \<Rightarrow> ask_reply \<Rightarrow> flow_world" where
  "quiet_world policy mode reply =
     \<lparr>fw_hook_denial = None, fw_mode = mode, fw_active_plan = None, fw_policy = policy, fw_parse = lines_parser,
      fw_fs = \<lparr>fs_canonicalize = (\<lambda>_. None), fs_is_dir = (\<lambda>_. False), fs_exists = (\<lambda>_. False)\<rparr>,
      fw_env = (\<lambda>_. None), fw_sandbox_hint = [], fw_redact = (\<lambda>r. r), fw_turn = 1,
      fw_reviewer = sample_world TimedOut None, fw_transcript = None, fw_has_conversation = True,
      fw_classifier = (\<lambda>_. None), fw_unicode_alnum = (\<lambda>_. False), fw_ask = (\<lambda>_ _ _. reply), fw_evict = (\<lambda>_. [])\<rparr>"

definition quiet_state :: flow_state where
  "quiet_state = \<lparr>fl_session_rules = [], fl_persisted = [], fl_grants = [], fl_reviewer = empty_reviewer_state,
     fl_cost = empty_cost, fl_provider_cost = empty_cost, fl_ledger = []\<rparr>"

lemma approval_sound_witness:
  "ver_action (policy_verdict (quiet_world (preset FullAccess) Build NotAnswered) sample_request quiet_state) \<noteq> Deny"
proof -
  obtain out s' where d: "permission_decision_for_request (quiet_world (preset FullAccess) Build NotAnswered)
      sample_request quiet_state = (out, s')" by fastforce
  have "po_decision (fst (permission_decision_for_request (quiet_world (preset FullAccess) Build NotAnswered)
      sample_request quiet_state)) = Approved" by code_simp
  with d have "po_decision out = Approved" by simp
  from approval_sound [OF d this] show ?thesis by blast
qed




definition shell_request :: "capability \<Rightarrow> str \<Rightarrow> permission_request" where
  "shell_request cap command =
     sample_request\<lparr>req_capability := cap, req_metadata := [lit ''command'' \<mapsto> command]\<rparr>"

text \<open>A plan-mode question that no reviewer takes is decided by the user, whatever the pre-classifier says.\<close>

lemma plan_question_user_yes:
  assumes "fw_hook_denial w = None" "mode_verdict_of w request = Some v" "ver_action v = Ask"
    and "ver_action (policy_verdict w request s) \<noteq> Deny" "\<not> arc_enabled (pol_ai_reviewer (fw_policy w))"
    and "\<And>rule reason. fw_ask w request rule reason = Reply UserApproved"
  shows "po_decision (fst (permission_decision_for_request w request s)) = Approved"
proof -
  have p: "policy_stage w request (Some v) s = (v, True)"
    using assms(4) by (simp add: policy_stage_def policy_verdict_def)
  have c: "pre_classify_stage w request True v = (v, None)"
    using assms(3) by (simp add: pre_classify_stage_eq split: option.split shell_pre_classification.split)
  show ?thesis
    using assms(1,2,3,5,6)
    by (simp add: decision_unfold resolve_ask_or_policy_def p c review_stage_def classify_stage_def decide_stage_def
        apply_user_answer_def approved_decision_def)
qed


definition mkdir_and_curl :: str where
  "mkdir_and_curl = lit ''sh -c '' @ [DQUOTE] @ lit ''mkdir d;curl x'' @ [DQUOTE]"

text \<open>The gate does not look at network commands.  In Plan mode a shell call that the analysis classes
  as \<open>Network\<close> is not judged, whatever its command does: \<open>sh -c "mkdir d;curl x"\<close> is such a call, and it is
  \<open>Mutating\<close> for Plan mode's own classifier.\<close>

theorem plan_mode_skips_network_commands:
  "mode_permission_verdict lines_parser fs hint Plan (shell_request Network mkdir_and_curl) active = None
   \<and> an_capability (analyze_uncached lines_parser (\<lambda>_. None) mkdir_and_curl) = Network
   \<and> classify_plan_mode_shell_command lines_parser mkdir_and_curl = Mutating"
proof (intro conjI)
  show "mode_permission_verdict lines_parser fs hint Plan (shell_request Network mkdir_and_curl) active = None"
    by (simp add: mode_permission_verdict_def mode_refuses_capability_def shell_request_def Let_def)
  show "an_capability (analyze_uncached lines_parser (\<lambda>_. None) mkdir_and_curl) = Network" by code_simp
  show "classify_plan_mode_shell_command lines_parser mkdir_and_curl = Mutating" by code_simp
qed

text \<open>C6: only the user's answers change the rules.  A decision leaves the session rules and the persisted
  rules alone unless the user answered the prompt, and then it appends at most the one rule that
  \<open>permission_rule_for_persistence\<close> builds for this request, to the persisted rules only when its
  source is the user's or the project's file.\<close>

theorem rules_change_only_by_answer:
  assumes "permission_decision_for_request w request s = (out, s')"
  shows "fl_session_rules s' = fl_session_rules s \<and> fl_persisted s' = fl_persisted s
    \<or> (\<exists>rule reason answer. fw_ask w request rule reason = Reply answer)
      \<and> (\<exists>source action rule. permission_rule_for_persistence request source action = Some rule
          \<and> fl_session_rules s' = fl_session_rules s @ [rule]
          \<and> fl_persisted s' = fl_persisted s @ (if persistence_path_for source then [rule] else []))"
proof -
  consider (kept) "s' = s" | (resolved) mode_ask where "resolve_ask_or_policy w request mode_ask s = (out, s')"
    using assms by (auto simp: decision_unfold split: option.splits if_splits)
  then show ?thesis
  proof cases
    case resolved
    from resolve_rule_effect [OF resolved] show ?thesis unfolding rule_effect_def by blast
  qed simp
qed

lemma rules_change_only_by_answer_witness:
  "length (fl_session_rules (snd (permission_decision_for_request
     (quiet_world (preset AutoReview) Build NotAnswered) sample_request quiet_state))) = 0"
proof -
  obtain out s' where d: "permission_decision_for_request (quiet_world (preset AutoReview) Build NotAnswered)
      sample_request quiet_state = (out, s')" by fastforce
  from rules_change_only_by_answer [OF d] d show ?thesis
    by (auto simp: quiet_world_def quiet_state_def)
qed

text \<open>What the turn's record says an automatic approval cost.  An approval not given by the user reports
  no reviewer spend, also when a paid reviewer call gave it.\<close>

theorem machine_approvals_report_no_spend:
  assumes "permission_decision_for_request w request s = (out, s')"
    and "po_decision out = Approved" and "\<not> user_approves w request"
  shows "po_reviewer_usd_micros out = 0"
proof -
  consider "out = no_reviewer_cost Approved"
    | mode_ask where "resolve_ask_or_policy w request mode_ask s = (out, s')"
    using assms(1,2) by (auto simp: decision_unfold no_reviewer_cost_def split: option.splits if_splits)
  then show ?thesis
  proof cases
    case 2
    then show ?thesis using assms(2,3) by (rule resolve_micros)
  qed (simp add: no_reviewer_cost_def)
qed

definition paid_world :: flow_world where
  "paid_world = (quiet_world (preset AutoReview) Build NotAnswered)
     \<lparr>fw_reviewer := sample_world (Answered (lit ''{}'') (empty_cost\<lparr>estimated_usd_micros := Some 7\<rparr>))
        (Some (Some (lit ''allow''), None))\<rparr>"

lemma machine_approvals_report_no_spend_witness:
  "po_reviewer_usd_micros (fst (permission_decision_for_request paid_world sample_request quiet_state)) = 0
   \<and> estimated_usd_micros (fl_cost (snd (permission_decision_for_request paid_world sample_request quiet_state))) = Some 7"
proof -
  obtain out s' where d: "permission_decision_for_request paid_world sample_request quiet_state = (out, s')" by fastforce
  have "po_decision (fst (permission_decision_for_request paid_world sample_request quiet_state)) = Approved"
    by code_simp
  with d have a: "po_decision out = Approved" by simp
  have u: "\<not> user_approves paid_world sample_request"
    by (simp add: user_approves_def paid_world_def quiet_world_def)
  have "estimated_usd_micros (fl_cost (snd (permission_decision_for_request paid_world sample_request quiet_state))) = Some 7"
    by code_simp
  with machine_approvals_report_no_spend [OF d a u] d show ?thesis by simp
qed

end
