(* ===== verification/PersistProtocol.thy ===== *)
theory PersistProtocol
  imports PermissionPersist
begin

text \<open>
  \<open>persist_permission_rule\<close> of \<open>crates/squeezy-agent/src/permission_persist.rs\<close> as a protocol: any
  number of agents (processes or threads) persist rules into one settings file.  The lock is the
  existence of the lock file (created with \<open>create_new\<close>, removed on drop), the new text goes to one
  shared temporary file and replaces the settings by a rename.  Every system call may fail and every
  agent may die between two of them.
\<close>

section \<open>State\<close>

text \<open>Where one agent stands: waiting for the lock, holding it, having read the text, having written
  the temporary file, having renamed it, and the outcomes.\<close>

datatype persist_pc =
    Waiting permission_rule
  | Holding permission_rule
  | HaveText permission_rule str
  | TmpWritten permission_rule
  | Replaced permission_rule
  | Persisted permission_rule bool
  | IoFailed permission_rule
  | Crashed

record settings_dir =
  sd_file :: "str option"
  sd_tmp :: "str option"
  sd_lock :: bool
  sd_agents :: "nat \<Rightarrow> persist_pc"

definition existing_text :: "str option \<Rightarrow> str" where
  "existing_text file = (case file of None \<Rightarrow> [] | Some text \<Rightarrow> text)"

definition settings_text :: "settings_dir \<Rightarrow> str" where
  "settings_text s = existing_text (sd_file s)"

fun holds_lock :: "persist_pc \<Rightarrow> bool" where
  "holds_lock (Holding _) = True"
| "holds_lock (HaveText _ _) = True"
| "holds_lock (TmpWritten _) = True"
| "holds_lock (Replaced _) = True"
| "holds_lock _ = False"

text \<open>The call when nobody else runs and nothing fails: the result and the new file.\<close>

definition persist_permission_rule :: "str option \<Rightarrow> permission_rule \<Rightarrow> bool \<times> str option" where
  "persist_permission_rule file rule =
     (if contains_rule (existing_text file) rule then (False, file)
      else (True, Some (next_text (existing_text file) rule)))"

abbreviation set_agent :: "settings_dir \<Rightarrow> nat \<Rightarrow> persist_pc \<Rightarrow> settings_dir" where
  "set_agent s i pc \<equiv> s\<lparr>sd_agents := (sd_agents s)(i := pc)\<rparr>"

section \<open>Steps\<close>

inductive persist_step :: "settings_dir \<Rightarrow> settings_dir \<Rightarrow> bool" where
  acquire: "sd_agents s i = Waiting r \<Longrightarrow> \<not> sd_lock s \<Longrightarrow>
     persist_step s (set_agent s i (Holding r)\<lparr>sd_lock := True\<rparr>)"
| acquire_timeout: "sd_agents s i = Waiting r \<Longrightarrow> sd_lock s \<Longrightarrow> persist_step s (set_agent s i (IoFailed r))"
| acquire_error: "sd_agents s i = Waiting r \<Longrightarrow> persist_step s (set_agent s i (IoFailed r))"
| read: "sd_agents s i = Holding r \<Longrightarrow> persist_step s (set_agent s i (HaveText r (settings_text s)))"
| read_error: "sd_agents s i = Holding r \<Longrightarrow>
     persist_step s (set_agent s i (IoFailed r)\<lparr>sd_lock := False\<rparr>)"
| already: "sd_agents s i = HaveText r t \<Longrightarrow> contains_rule t r \<Longrightarrow>
     persist_step s (set_agent s i (Persisted r False)\<lparr>sd_lock := False\<rparr>)"
| write_tmp: "sd_agents s i = HaveText r t \<Longrightarrow> \<not> contains_rule t r \<Longrightarrow>
     persist_step s (set_agent s i (TmpWritten r)\<lparr>sd_tmp := Some (next_text t r)\<rparr>)"
| write_error: "sd_agents s i = HaveText r t \<Longrightarrow> \<not> contains_rule t r \<Longrightarrow>
     persist_step s (set_agent s i (IoFailed r)\<lparr>sd_lock := False, sd_tmp := garbage\<rparr>)"
| rename: "sd_agents s i = TmpWritten r \<Longrightarrow>
     persist_step s (set_agent s i (Replaced r)\<lparr>sd_file := sd_tmp s, sd_tmp := None\<rparr>)"
| rename_error: "sd_agents s i = TmpWritten r \<Longrightarrow>
     persist_step s (set_agent s i (IoFailed r)\<lparr>sd_lock := False\<rparr>)"
| release: "sd_agents s i = Replaced r \<Longrightarrow>
     persist_step s (set_agent s i (Persisted r True)\<lparr>sd_lock := False\<rparr>)"
| crash: "persist_step s (set_agent s i Crashed)"
| crash_writing: "sd_agents s i = HaveText r t \<Longrightarrow>
     persist_step s (set_agent s i Crashed\<lparr>sd_tmp := garbage\<rparr>)"

definition persist_start :: "str option \<Rightarrow> (nat \<Rightarrow> permission_rule) \<Rightarrow> settings_dir" where
  "persist_start file rules =
     \<lparr>sd_file = file, sd_tmp = None, sd_lock = False, sd_agents = (\<lambda>i. Waiting (rules i))\<rparr>"

section \<open>Invariant\<close>

fun agent_ok :: "settings_dir \<Rightarrow> persist_pc \<Rightarrow> bool" where
  "agent_ok s (HaveText r t) \<longleftrightarrow> t = settings_text s"
| "agent_ok s (TmpWritten r) \<longleftrightarrow> sd_tmp s = Some (next_text (settings_text s) r)"
| "agent_ok s (Replaced r) \<longleftrightarrow> contains_rule (settings_text s) r"
| "agent_ok s (Persisted r _) \<longleftrightarrow> contains_rule (settings_text s) r"
| "agent_ok s _ \<longleftrightarrow> True"

definition persist_inv :: "settings_dir \<Rightarrow> bool" where
  "persist_inv s \<longleftrightarrow>
     (\<forall>i. agent_ok s (sd_agents s i))
     \<and> (\<forall>i. holds_lock (sd_agents s i) \<longrightarrow> sd_lock s)
     \<and> (\<forall>i j. holds_lock (sd_agents s i) \<longrightarrow> holds_lock (sd_agents s j) \<longrightarrow> i = j)"

lemma agent_ok_unlocked:
  "\<not> holds_lock pc \<Longrightarrow> agent_ok s pc \<Longrightarrow>
     (\<And>r. contains_rule (settings_text s) r \<Longrightarrow> contains_rule (settings_text s') r) \<Longrightarrow> agent_ok s' pc"
  by (cases pc) auto

text \<open>One agent moves: the other agents keep their facts when the files are as before, or when the
  mover holds the lock and the settings only gain rules.\<close>

lemma persist_inv_move:
  assumes inv: "persist_inv s"
    and others: "\<And>j. j \<noteq> i \<Longrightarrow> sd_agents s' j = sd_agents s j"
    and me: "agent_ok s' (sd_agents s' i)"
    and lock: "holds_lock (sd_agents s' i) \<longrightarrow> sd_lock s'"
    and keep: "\<And>r. contains_rule (settings_text s) r \<Longrightarrow> contains_rule (settings_text s') r"
    and files: "holds_lock (sd_agents s i) \<or>
       settings_text s' = settings_text s \<and> sd_tmp s' = sd_tmp s
       \<and> (sd_lock s' = sd_lock s \<and> \<not> holds_lock (sd_agents s' i) \<or> \<not> sd_lock s \<and> sd_lock s')"
  shows "persist_inv s'"
proof -
  from inv have ok: "agent_ok s (sd_agents s j)" for j by (simp add: persist_inv_def)
  from inv have lk: "holds_lock (sd_agents s j) \<Longrightarrow> sd_lock s" for j
    unfolding persist_inv_def by blast
  from inv have mutex: "holds_lock (sd_agents s j) \<Longrightarrow> holds_lock (sd_agents s k) \<Longrightarrow> j = k" for j k
    by (simp add: persist_inv_def)
  have other_ok: "agent_ok s' (sd_agents s j)" if "j \<noteq> i" for j
  proof (cases "holds_lock (sd_agents s j)")
    case True
    with that files mutex have "settings_text s' = settings_text s \<and> sd_tmp s' = sd_tmp s" by blast
    with ok [of j] show ?thesis by (cases "sd_agents s j") simp_all
  next
    case False
    then show ?thesis using ok keep by (rule agent_ok_unlocked)
  qed
  have other_unlocked: "\<not> holds_lock (sd_agents s j)" if "j \<noteq> i" "holds_lock (sd_agents s' i)" for j
    using that files mutex lk by blast
  have other_lock: "sd_lock s'" if "j \<noteq> i" "holds_lock (sd_agents s j)" for j
    using that files mutex lk by blast
  show ?thesis
    unfolding persist_inv_def
  proof (intro conjI allI impI)
    fix j k
    show "agent_ok s' (sd_agents s' j)" using me other_ok others by (cases "j = i") simp_all
    show "sd_lock s'" if "holds_lock (sd_agents s' j)"
      using that lock other_lock others by (cases "j = i") auto
    show "j = k" if "holds_lock (sd_agents s' j)" "holds_lock (sd_agents s' k)"
      using that other_unlocked mutex others by (metis (full_types))
  qed
qed

lemma settings_text_simps [simp]:
  "settings_text (s\<lparr>sd_agents := a\<rparr>) = settings_text s"
  "settings_text (s\<lparr>sd_lock := b\<rparr>) = settings_text s"
  "settings_text (s\<lparr>sd_tmp := t\<rparr>) = settings_text s"
  "settings_text (s\<lparr>sd_file := f\<rparr>) = existing_text f"
  by (simp_all add: settings_text_def)

lemma existing_text_Some [simp]: "existing_text (Some t) = t"
  by (simp add: existing_text_def)

lemma inv_tmp: "persist_inv s \<Longrightarrow> sd_agents s i = TmpWritten r \<Longrightarrow> sd_tmp s = Some (next_text (settings_text s) r)"
  unfolding persist_inv_def by (metis agent_ok.simps(2))

lemma inv_text: "persist_inv s \<Longrightarrow> sd_agents s i = HaveText r t \<Longrightarrow> t = settings_text s"
  unfolding persist_inv_def by (metis agent_ok.simps(1))

lemma inv_replaced: "persist_inv s \<Longrightarrow> sd_agents s i = Replaced r \<Longrightarrow> contains_rule (settings_text s) r"
  unfolding persist_inv_def by (metis agent_ok.simps(3))

lemma inv_lock: "persist_inv s \<Longrightarrow> sd_agents s i = Holding r \<Longrightarrow> sd_lock s"
  unfolding persist_inv_def by (metis holds_lock.simps(1))

text \<open>A step keeps the invariant, and the settings never lose a rule.\<close>

lemma persist_step_keeps:
  assumes "persist_step s s'" "persist_inv s" "contains_rule (settings_text s) r"
  shows "contains_rule (settings_text s') r"
  using assms
proof (cases rule: persist_step.cases)
  case (rename i r')
  with assms(2) have "sd_tmp s = Some (next_text (settings_text s) r')" by (simp add: inv_tmp)
  with rename assms(3) show ?thesis by (simp add: contains_keep)
qed simp_all

lemma persist_step_inv:
  assumes step: "persist_step s s'" and inv: "persist_inv s"
  shows "persist_inv s'"
  using step
proof (cases rule: persist_step.cases)
  case (acquire i r)
  then show ?thesis by (intro persist_inv_move [OF inv, of i]) simp_all
next
  case (acquire_timeout i r)
  then show ?thesis by (intro persist_inv_move [OF inv, of i]) simp_all
next
  case (acquire_error i r)
  then show ?thesis by (intro persist_inv_move [OF inv, of i]) simp_all
next
  case (read i r)
  then show ?thesis using inv_lock [OF inv] by (intro persist_inv_move [OF inv, of i]) simp_all
next
  case (read_error i r)
  then show ?thesis by (intro persist_inv_move [OF inv, of i]) simp_all
next
  case (already i r t)
  then show ?thesis using inv_text [OF inv] by (intro persist_inv_move [OF inv, of i]) simp_all
next
  case (write_tmp i r t)
  moreover have "sd_lock s" using inv write_tmp(2) unfolding persist_inv_def by (metis holds_lock.simps(2))
  ultimately show ?thesis using inv_text [OF inv] by (intro persist_inv_move [OF inv, of i]) simp_all
next
  case (write_error i r t garbage)
  then show ?thesis by (intro persist_inv_move [OF inv, of i]) simp_all
next
  case (rename i r)
  moreover have "sd_lock s" using inv rename(2) unfolding persist_inv_def by (metis holds_lock.simps(3))
  ultimately show ?thesis using inv_tmp [OF inv]
    by (intro persist_inv_move [OF inv, of i]) (simp_all add: contains_next contains_keep)
next
  case (rename_error i r)
  then show ?thesis by (intro persist_inv_move [OF inv, of i]) simp_all
next
  case (release i r)
  then show ?thesis using inv_replaced [OF inv] by (intro persist_inv_move [OF inv, of i]) simp_all
next
  case (crash i)
  then show ?thesis by (intro persist_inv_move [OF inv, of i]) simp_all
next
  case (crash_writing i r t garbage)
  then show ?thesis by (intro persist_inv_move [OF inv, of i]) simp_all
qed

lemma persist_run_inv:
  "persist_step\<^sup>*\<^sup>* s s' \<Longrightarrow> persist_inv s \<Longrightarrow>
     persist_inv s' \<and> (\<forall>r. contains_rule (settings_text s) r \<longrightarrow> contains_rule (settings_text s') r)"
  by (induction rule: rtranclp_induct) (auto dest: persist_step_inv persist_step_keeps)

lemma persist_start_inv: "persist_inv (persist_start file rules)"
  by (simp add: persist_inv_def persist_start_def)

text \<open>A lock without an owner stays, and nothing is written any more.\<close>

definition orphaned :: "settings_dir \<Rightarrow> bool" where
  "orphaned s \<longleftrightarrow> sd_lock s \<and> (\<forall>i. \<not> holds_lock (sd_agents s i))"

lemma orphaned_pc: "orphaned s \<Longrightarrow> sd_agents s i = pc \<Longrightarrow> \<not> holds_lock pc"
  by (auto simp: orphaned_def)

lemma orphaned_step:
  assumes "persist_step s s'" "orphaned s"
  shows "orphaned s' \<and> sd_file s' = sd_file s
    \<and> (\<forall>j. sd_agents s' j = sd_agents s j \<or> (\<forall>r b. sd_agents s' j \<noteq> Persisted r b))"
  using assms
  by (cases rule: persist_step.cases) (auto simp: orphaned_def dest: orphaned_pc [OF assms(2)])

lemma orphaned_run:
  "persist_step\<^sup>*\<^sup>* s s' \<Longrightarrow> orphaned s \<Longrightarrow>
     orphaned s' \<and> sd_file s' = sd_file s
     \<and> (\<forall>j. sd_agents s' j = sd_agents s j \<or> (\<forall>r b. sd_agents s' j \<noteq> Persisted r b))"
proof (induction rule: rtranclp_induct)
  case (step t u)
  then show ?case using orphaned_step [of t u] by metis
qed simp

section \<open>One agent alone\<close>

lemma alone_skip:
  assumes "contains_rule (existing_text file) r"
  shows "\<exists>s. persist_step\<^sup>*\<^sup>* (persist_start file (\<lambda>_. r)) s \<and> sd_agents s i = Persisted r False
           \<and> sd_file s = file \<and> \<not> sd_lock s"
proof -
  define s0 where "s0 = persist_start file (\<lambda>_. r)"
  define s1 where "s1 = set_agent s0 i (Holding r)\<lparr>sd_lock := True\<rparr>"
  define s2 where "s2 = set_agent s1 i (HaveText r (settings_text s1))"
  define s3 where "s3 = set_agent s2 i (Persisted r False)\<lparr>sd_lock := False\<rparr>"
  have a: "persist_step s0 s1" unfolding s1_def by (rule persist_step.acquire) (simp_all add: s0_def persist_start_def)
  have b: "persist_step s1 s2" unfolding s2_def by (rule persist_step.read) (simp add: s1_def)
  have c: "persist_step s2 s3" unfolding s3_def
    by (rule persist_step.already)
       (use assms in \<open>simp_all add: s2_def s1_def s0_def persist_start_def settings_text_def\<close>)
  note run = r_into_rtranclp [of persist_step, OF a, THEN rtranclp.rtrancl_into_rtrancl, OF b, THEN rtranclp.rtrancl_into_rtrancl, OF c]
  have "sd_agents s3 i = Persisted r False \<and> sd_file s3 = file \<and> \<not> sd_lock s3"
    by (simp add: s3_def s2_def s1_def s0_def persist_start_def)
  with run show ?thesis unfolding s0_def by blast
qed

lemma alone_write:
  assumes "\<not> contains_rule (existing_text file) r"
  shows "\<exists>s. persist_step\<^sup>*\<^sup>* (persist_start file (\<lambda>_. r)) s \<and> sd_agents s i = Persisted r True
           \<and> sd_file s = Some (next_text (existing_text file) r) \<and> \<not> sd_lock s"
proof -
  define s0 where "s0 = persist_start file (\<lambda>_. r)"
  define s1 where "s1 = set_agent s0 i (Holding r)\<lparr>sd_lock := True\<rparr>"
  define s2 where "s2 = set_agent s1 i (HaveText r (settings_text s1))"
  define s3 where "s3 = set_agent s2 i (TmpWritten r)\<lparr>sd_tmp := Some (next_text (settings_text s1) r)\<rparr>"
  define s4 where "s4 = set_agent s3 i (Replaced r)\<lparr>sd_file := sd_tmp s3, sd_tmp := None\<rparr>"
  define s5 where "s5 = set_agent s4 i (Persisted r True)\<lparr>sd_lock := False\<rparr>"
  have t: "settings_text s1 = existing_text file"
    by (simp add: s1_def s0_def persist_start_def settings_text_def)
  have a: "persist_step s0 s1" unfolding s1_def by (rule persist_step.acquire) (simp_all add: s0_def persist_start_def)
  have b: "persist_step s1 s2" unfolding s2_def by (rule persist_step.read) (simp add: s1_def)
  have c: "persist_step s2 s3" unfolding s3_def
    by (rule persist_step.write_tmp) (use assms in \<open>simp_all add: s2_def t\<close>)
  have d: "persist_step s3 s4" unfolding s4_def by (rule persist_step.rename) (simp add: s3_def)
  have e: "persist_step s4 s5" unfolding s5_def by (rule persist_step.release) (simp add: s4_def)
  note run = r_into_rtranclp [of persist_step, OF a, THEN rtranclp.rtrancl_into_rtrancl, OF b, THEN rtranclp.rtrancl_into_rtrancl, OF c,
      THEN rtranclp.rtrancl_into_rtrancl, OF d, THEN rtranclp.rtrancl_into_rtrancl, OF e]
  have "sd_agents s5 i = Persisted r True \<and> sd_file s5 = Some (next_text (existing_text file) r)
      \<and> \<not> sd_lock s5"
    by (simp add: s5_def s4_def s3_def t)
  with run show ?thesis unfolding s0_def by blast
qed

section \<open>Properties\<close>

text \<open>C4: concurrent approvals are never lost.  Whatever the interleaving, the I/O errors and the
  crashes, at most one agent holds the lock; every rule the settings held at the start is still there;
  and the rule of every agent that reported success is there.\<close>

theorem persist_no_lost_update:
  assumes "persist_step\<^sup>*\<^sup>* (persist_start file rules) s"
  shows "(\<forall>i j. holds_lock (sd_agents s i) \<and> holds_lock (sd_agents s j) \<longrightarrow> i = j)
    \<and> (\<forall>r. contains_rule (existing_text file) r \<longrightarrow> contains_rule (settings_text s) r)
    \<and> (\<forall>i r b. sd_agents s i = Persisted r b \<longrightarrow> contains_rule (settings_text s) r)"
proof -
  have start: "settings_text (persist_start file rules) = existing_text file"
    by (simp add: settings_text_def persist_start_def)
  from persist_run_inv [OF assms persist_start_inv] have inv: "persist_inv s"
    and keep: "\<forall>r. contains_rule (existing_text file) r \<longrightarrow> contains_rule (settings_text s) r"
    by (simp_all add: start)
  have "contains_rule (settings_text s) r" if "sd_agents s i = Persisted r b" for i r b
    using inv that unfolding persist_inv_def by (metis agent_ok.simps(4))
  moreover have "\<forall>i j. holds_lock (sd_agents s i) \<and> holds_lock (sd_agents s j) \<longrightarrow> i = j"
    using inv unfolding persist_inv_def by blast
  ultimately show ?thesis using keep by blast
qed

lemma persist_no_lost_update_witness:
  "\<exists>s :: settings_dir. sd_agents s 0 = Persisted sample_rule True \<and> contains_rule (settings_text s) sample_rule"
proof -
  have "\<not> contains_rule (existing_text None) sample_rule"
    by (simp add: existing_text_def contains_rule_def text_lines_def current_matches_def)
  from alone_write [OF this, of 0] obtain s
    where run: "persist_step\<^sup>*\<^sup>* (persist_start None (\<lambda>_. sample_rule)) s"
      and ok: "sd_agents s 0 = Persisted sample_rule True" by blast
  from persist_no_lost_update [OF run] ok show ?thesis by blast
qed

text \<open>C5: persisting does what its sequential reading says, and only once.  An undisturbed agent
  reaches the outcome and the settings text of \<open>persist_permission_rule\<close> and frees the lock; a second
  call for the same rule, whatever its text, changes nothing and reports so.\<close>

theorem persist_run_refines:
  "(\<exists>s. persist_step\<^sup>*\<^sup>* (persist_start file (\<lambda>_. rule)) s
        \<and> sd_agents s i = Persisted rule (fst (persist_permission_rule file rule))
        \<and> sd_file s = snd (persist_permission_rule file rule) \<and> \<not> sd_lock s)
   \<and> persist_permission_rule (snd (persist_permission_rule file rule)) rule
      = (False, snd (persist_permission_rule file rule))"
proof (cases "contains_rule (existing_text file) rule")
  case True
  then show ?thesis using alone_skip [OF True, of i] by (simp add: persist_permission_rule_def)
next
  case False
  then show ?thesis using alone_write [OF False, of i]
    by (simp add: persist_permission_rule_def contains_next)
qed

text \<open>The lock has no owner record.  When the agent that holds it dies, the lock file stays; from
  then on no agent ever gets it, the settings never change and no further call succeeds.\<close>

theorem crashed_holder_blocks_everyone:
  assumes "persist_step\<^sup>*\<^sup>* (persist_start file rules) s"
    and "holds_lock (sd_agents s i)"
    and "persist_step\<^sup>*\<^sup>* (set_agent s i Crashed) s'"
  shows "sd_lock s' \<and> (\<forall>j. \<not> holds_lock (sd_agents s' j)) \<and> sd_file s' = sd_file s
    \<and> (\<forall>j r b. sd_agents s' j = Persisted r b \<longrightarrow> sd_agents s j = Persisted r b)"
proof -
  from persist_run_inv [OF assms(1) persist_start_inv] have inv: "persist_inv s" by simp
  have "orphaned (set_agent s i Crashed)"
    using inv assms(2) unfolding orphaned_def persist_inv_def by auto
  note o = orphaned_run [OF assms(3) this]
  have "sd_agents s j = Persisted r b" if p: "sd_agents s' j = Persisted r b" for j r b
  proof -
    from o p have "sd_agents (set_agent s i Crashed) j = Persisted r b" by metis
    then show ?thesis by (simp split: if_splits)
  qed
  with o show ?thesis unfolding orphaned_def by auto
qed

lemma crashed_holder_blocks_everyone_witness:
  "\<exists>s' :: settings_dir. sd_lock s' \<and> (\<forall>j. \<not> holds_lock (sd_agents s' j))"
proof -
  let ?s = "set_agent (persist_start None (\<lambda>_. sample_rule)) 0 (Holding sample_rule)\<lparr>sd_lock := True\<rparr>"
  have "persist_step (persist_start None (\<lambda>_. sample_rule)) ?s"
    by (rule persist_step.acquire) (simp_all add: persist_start_def)
  then have r: "persist_step\<^sup>*\<^sup>* (persist_start None (\<lambda>_. sample_rule)) ?s" by (rule r_into_rtranclp)
  have h: "holds_lock (sd_agents ?s 0)" by simp
  note w = crashed_holder_blocks_everyone [OF r h rtranclp.rtrancl_refl]
  define t where "t = set_agent ?s 0 Crashed"
  have "sd_lock t \<and> (\<forall>j. \<not> holds_lock (sd_agents t j))"
    unfolding t_def by (rule conjI [OF w [THEN conjunct1] w [THEN conjunct2, THEN conjunct1]])
  then show ?thesis by (rule exI)
qed

end
