(* ===== verification/Disk.thy ===== *)
theory Disk
  imports Safety
begin

text \<open>
  What the tools use of the file system: regular files by their canonical place, \<open>canonicalize\<close>, reads,
  and the two ways they change it, \<open>write_atomic\<close> and \<open>remove_file\<close>.  A \<open>PathBuf\<close> is its list of
  components, which is what \<open>Path\<close> compares.  Directories and links do not change; a directory entry
  that is no directory is a file of the map or free.
\<close>

type_synonym path_buf = "path_component list"

text \<open>Contents: text where the bytes are UTF-8, the bytes otherwise.\<close>

datatype file_content = Text str | Binary "nat list"

record disk =
  dk_files :: "path_buf \<rightharpoonup> file_content"
  dk_is_dir :: "path_buf \<Rightarrow> bool"
  dk_resolve :: "path_buf \<Rightarrow> path_buf option"

text \<open>\<open>dk_resolve\<close> is the canonical place that an absolute path names, all links followed, whether or not a
  file is there; \<open>None\<close> when a directory on the way is missing.\<close>

definition canonicalize :: "disk \<Rightarrow> path_buf \<Rightarrow> path_buf option" where
  "canonicalize d p =
     (case dk_resolve d p of None \<Rightarrow> None
      | Some l \<Rightarrow> if dk_files d l \<noteq> None \<or> dk_is_dir d l then Some l else None)"

definition path_exists :: "disk \<Rightarrow> path_buf \<Rightarrow> bool" where
  "path_exists d p \<longleftrightarrow> canonicalize d p \<noteq> None"

definition path_parent :: "path_buf \<Rightarrow> path_buf option" where
  "path_parent p = (if p = [] \<or> last p = RootDir then None else Some (butlast p))"

definition path_file_name :: "path_buf \<Rightarrow> str option" where
  "path_file_name p = (if p = [] then None else normal_part (last p))"

definition read_file :: "disk \<Rightarrow> path_buf \<Rightarrow> file_content option" where
  "read_file d p = Option.bind (dk_resolve d p) (dk_files d)"

definition set_file :: "path_buf \<Rightarrow> file_content option \<Rightarrow> disk \<Rightarrow> disk" where
  "set_file l content d = d\<lparr>dk_files := (dk_files d)(l := content)\<rparr>"

text \<open>\<open>mutation_key\<close> of \<open>file_mutation_queue.rs\<close>.\<close>

definition mutation_key :: "disk \<Rightarrow> path_buf \<Rightarrow> path_buf" where
  "mutation_key d p =
     (case canonicalize d p of Some canonical \<Rightarrow> canonical
      | None \<Rightarrow>
          (case (path_parent p, path_file_name p) of
             (Some parent, Some name) \<Rightarrow>
               (case canonicalize d parent of Some canonical \<Rightarrow> canonical @ [Normal name] | None \<Rightarrow> p)
           | _ \<Rightarrow> p))"

text \<open>The documented behaviour of the file system the code relies on: canonical places name themselves, a name
  without an entry stands for that entry of the canonical directory, names live in directories, and a
  directory is no file.\<close>

definition disk_ok :: "disk \<Rightarrow> bool" where
  "disk_ok d \<longleftrightarrow>
     (\<forall>p l. dk_resolve d p = Some l \<longrightarrow> dk_resolve d l = Some l)
     \<and> (\<forall>parent name cp. canonicalize d parent = Some cp \<longrightarrow> dk_is_dir d cp
           \<longrightarrow> canonicalize d (parent @ [Normal name]) = None
           \<longrightarrow> dk_resolve d (parent @ [Normal name]) = Some (cp @ [Normal name]))
     \<and> (\<forall>parent name l. dk_resolve d (parent @ [Normal name]) = Some l
           \<longrightarrow> (\<exists>cp. dk_resolve d parent = Some cp \<and> dk_is_dir d cp))
     \<and> (\<forall>l. dk_is_dir d l \<longrightarrow> dk_files d l = None)"

definition nameable :: "disk \<Rightarrow> path_buf \<Rightarrow> bool" where
  "nameable d p \<longleftrightarrow> canonicalize d p \<noteq> None
     \<or> (\<exists>parent name cp. p = parent @ [Normal name] \<and> canonicalize d parent = Some cp \<and> dk_is_dir d cp)"

lemma path_parent_snoc [simp]: "path_parent (p @ [Normal n]) = Some p"
  and path_file_name_snoc [simp]: "path_file_name (p @ [Normal n]) = Some n"
  by (simp_all add: path_parent_def path_file_name_def normal_part_def)

lemma canonicalize_resolve: "canonicalize d p = Some l \<Longrightarrow> dk_resolve d p = Some l"
  by (auto simp: canonicalize_def split: option.splits if_splits)

text \<open>The lock key of a path is the place it names.\<close>

lemma mutation_key_resolve:
  assumes "disk_ok d" "nameable d p"
  shows "dk_resolve d p = Some (mutation_key d p)"
proof (cases "canonicalize d p")
  case None
  then obtain parent name cp where p: "p = parent @ [Normal name]" and c: "canonicalize d parent = Some cp" "dk_is_dir d cp"
    using assms(2) unfolding nameable_def by auto
  have "dk_resolve d p = Some (cp @ [Normal name])"
    using assms(1) c None unfolding p disk_ok_def by blast
  moreover have "mutation_key d p = cp @ [Normal name]"
    using None c unfolding p mutation_key_def by simp
  ultimately show ?thesis by simp
qed (simp add: mutation_key_def canonicalize_resolve)

lemma same_place_same_key:
  "disk_ok d \<Longrightarrow> nameable d p \<Longrightarrow> nameable d q \<Longrightarrow>
     mutation_key d p = mutation_key d q \<longleftrightarrow> dk_resolve d p = dk_resolve d q"
  by (metis mutation_key_resolve option.inject)

lemma set_file_simps [simp]:
  "dk_files (set_file l c d) = (dk_files d)(l := c)"
  "dk_is_dir (set_file l c d) = dk_is_dir d" "dk_resolve (set_file l c d) = dk_resolve d"
  by (simp_all add: set_file_def)

text \<open>A disk without links: every absolute path whose directory exists names itself.\<close>

definition plain_disk :: "(path_buf \<rightharpoonup> file_content) \<Rightarrow> (path_buf \<Rightarrow> bool) \<Rightarrow> disk" where
  "plain_disk files is_dir =
     \<lparr>dk_files = files, dk_is_dir = is_dir,
      dk_resolve = (\<lambda>p. if is_dir p \<or> (p \<noteq> [] \<and> is_dir (butlast p)) then Some p else None)\<rparr>"

lemma plain_disk_ok:
  assumes "\<And>p n. is_dir (p @ [Normal n]) \<Longrightarrow> is_dir p" "\<And>p. is_dir p \<Longrightarrow> files p = None"
  shows "disk_ok (plain_disk files is_dir)"
  using assms by (auto simp: disk_ok_def plain_disk_def canonicalize_def split: if_splits option.splits)

end
