(* ===== verification/MutationQueue.thy ===== *)
theory MutationQueue
  imports Disk
begin

text \<open>
  The per-file mutation queue (\<open>crates/squeezy-tools/src/file_mutation_queue.rs\<close>).  Tool calls that
  change files run concurrently; each takes the mutexes of its target files first.  The mutexes live in
  a table that is pruned of idle entries at every lookup.  The model interleaves the lookups, the waits,
  the takes and the releases of any number of calls; a call that is cancelled releases what it holds.
\<close>

section \<open>Keys\<close>

text \<open>\<open>Vec::dedup\<close>.\<close>

fun dedup :: "'a list \<Rightarrow> 'a list" where
  "dedup (x # y # ys) = (if x = y then dedup (y # ys) else x # dedup (y # ys))"
| "dedup xs = xs"

definition lock_keys :: "disk \<Rightarrow> path_buf list \<Rightarrow> path_buf list" where
  "lock_keys d paths = dedup (sort (map (mutation_key d) paths))"

lemma set_dedup [simp]: "set (dedup xs) = set xs"
  by (induction xs rule: dedup.induct) auto

lemma sorted_dedup: "sorted xs \<Longrightarrow> sorted_wrt (<) (dedup (xs :: 'a :: linorder list))"
proof (induction xs rule: dedup.induct)
  case (1 x y ys)
  show ?case
  proof (cases "x = y")
    case False
    with 1 have "sorted_wrt (<) (dedup (y # ys))" by simp
    moreover have "\<forall>z \<in> set (y # ys). x < z" using 1(3) False by fastforce
    ultimately show ?thesis using False by simp
  qed (use 1 in simp)
qed simp_all

lemma lock_keys_sorted: "sorted_wrt (<) (lock_keys d paths)"
  by (simp add: lock_keys_def sorted_dedup)

lemma set_lock_keys: "set (lock_keys d paths) = mutation_key d ` set paths"
  by (simp add: lock_keys_def)

section \<open>State and steps\<close>

text \<open>Where a call stands: about to look up its next key, waiting for a mutex, holding all its guards,
  dropping them, finished.  Guards are pairs of a key and the mutex that was in the table for it.\<close>

type_synonym guard = "path_buf \<times> nat"

datatype mutation_pc =
    Locking "path_buf list" "guard list"
  | Awaiting path_buf nat "path_buf list" "guard list"
  | Mutating "guard list"
  | Releasing "guard list"
  | MutationDone

record lock_state =
  ls_table :: "path_buf \<rightharpoonup> nat"
  ls_next :: nat
  ls_holder :: "nat \<rightharpoonup> nat"
  ls_calls :: "nat \<Rightarrow> mutation_pc"

fun held_guards :: "mutation_pc \<Rightarrow> guard list" where
  "held_guards (Locking ks held) = held"
| "held_guards (Awaiting k m ks held) = held"
| "held_guards (Mutating held) = held"
| "held_guards (Releasing held) = held"
| "held_guards MutationDone = []"

fun awaited_guard :: "mutation_pc \<Rightarrow> guard list" where
  "awaited_guard (Awaiting k m ks held) = [(k, m)]"
| "awaited_guard _ = []"

text \<open>The references a call has to mutexes, besides the table's own.\<close>

definition referenced :: "mutation_pc \<Rightarrow> guard set" where
  "referenced pc = set (awaited_guard pc) \<union> set (held_guards pc)"

definition in_use :: "lock_state \<Rightarrow> nat \<Rightarrow> bool" where
  "in_use s m \<longleftrightarrow> (\<exists>i k. (k, m) \<in> referenced (ls_calls s i))"

text \<open>\<open>retain\<close> with a strong count above one.\<close>

definition pruned_table :: "lock_state \<Rightarrow> path_buf \<rightharpoonup> nat" where
  "pruned_table s = (\<lambda>k. case ls_table s k of None \<Rightarrow> None | Some m \<Rightarrow> if in_use s m then Some m else None)"

definition acquire_named_lock :: "path_buf \<Rightarrow> lock_state \<Rightarrow> nat \<times> lock_state" where
  "acquire_named_lock k s =
     (let table = pruned_table s
      in case table k of
           Some m \<Rightarrow> (m, s\<lparr>ls_table := table\<rparr>)
         | None \<Rightarrow> (ls_next s, s\<lparr>ls_table := table(k \<mapsto> ls_next s), ls_next := ls_next s + 1\<rparr>))"

abbreviation set_call :: "lock_state \<Rightarrow> nat \<Rightarrow> mutation_pc \<Rightarrow> lock_state" where
  "set_call s i pc \<equiv> s\<lparr>ls_calls := (ls_calls s)(i := pc)\<rparr>"

inductive lock_step :: "lock_state \<Rightarrow> lock_state \<Rightarrow> bool" where
  look_up: "ls_calls s i = Locking (k # ks) held \<Longrightarrow> acquire_named_lock k s = (m, s') \<Longrightarrow>
     lock_step s (set_call s' i (Awaiting k m ks held))"
| take_lock: "ls_calls s i = Awaiting k m ks held \<Longrightarrow> ls_holder s m = None \<Longrightarrow>
     lock_step s (set_call s i (Locking ks (held @ [(k, m)]))\<lparr>ls_holder := (ls_holder s)(m \<mapsto> i)\<rparr>)"
| locked: "ls_calls s i = Locking [] held \<Longrightarrow> lock_step s (set_call s i (Mutating held))"
| finish: "ls_calls s i = Mutating held \<Longrightarrow> lock_step s (set_call s i (Releasing held))"
| drop_guard: "ls_calls s i = Releasing ((k, m) # held) \<Longrightarrow>
     lock_step s (set_call s i (Releasing held)\<lparr>ls_holder := (ls_holder s)(m := None)\<rparr>)"
| dropped: "ls_calls s i = Releasing [] \<Longrightarrow> lock_step s (set_call s i MutationDone)"

text \<open>Cancellation drops the future: the wait is given up, the guards taken so far are released.\<close>

inductive cancel_step :: "lock_state \<Rightarrow> lock_state \<Rightarrow> bool" where
  cancel_locking: "ls_calls s i = Locking ks held \<Longrightarrow> cancel_step s (set_call s i (Releasing held))"
| cancel_waiting: "ls_calls s i = Awaiting k m ks held \<Longrightarrow> cancel_step s (set_call s i (Releasing held))"

definition any_step :: "lock_state \<Rightarrow> lock_state \<Rightarrow> bool" where
  "any_step s s' \<longleftrightarrow> lock_step s s' \<or> cancel_step s s'"

text \<open>The start: call \<open>i\<close> wants the files of \<open>paths ! i\<close>, with the keys computed on the disk it saw.\<close>

definition lock_start :: "(nat \<Rightarrow> disk) \<Rightarrow> path_buf list list \<Rightarrow> lock_state" where
  "lock_start disks paths =
     \<lparr>ls_table = Map.empty, ls_next = 0, ls_holder = Map.empty,
      ls_calls = (\<lambda>i. if i < length paths then Locking (lock_keys (disks i) (paths ! i)) [] else MutationDone)\<rparr>"

section \<open>Invariant\<close>

text \<open>The table is injective and has every referenced guard; the holder map says who holds which guard.\<close>

definition table_inv :: "lock_state \<Rightarrow> bool" where
  "table_inv s \<longleftrightarrow>
     (\<forall>k m. ls_table s k = Some m \<longrightarrow> m < ls_next s)
     \<and> (\<forall>k k' m. ls_table s k = Some m \<longrightarrow> ls_table s k' = Some m \<longrightarrow> k = k')
     \<and> (\<forall>i k m. (k, m) \<in> referenced (ls_calls s i) \<longrightarrow> ls_table s k = Some m)"

definition holder_inv :: "lock_state \<Rightarrow> bool" where
  "holder_inv s \<longleftrightarrow>
     (\<forall>i k m. (k, m) \<in> set (held_guards (ls_calls s i)) \<longrightarrow> ls_holder s m = Some i)
     \<and> (\<forall>i m. ls_holder s m = Some i \<longrightarrow> (\<exists>k. (k, m) \<in> set (held_guards (ls_calls s i))))"

text \<open>The keys a call works through are its lock keys, held ones first; a releasing call has a rest of them.\<close>

fun keys_inv :: "path_buf list \<Rightarrow> mutation_pc \<Rightarrow> bool" where
  "keys_inv all (Locking ks held) \<longleftrightarrow> map fst held @ ks = all"
| "keys_inv all (Awaiting k m ks held) \<longleftrightarrow> map fst held @ k # ks = all"
| "keys_inv all (Mutating held) \<longleftrightarrow> map fst held = all"
| "keys_inv all (Releasing held) \<longleftrightarrow> (\<exists>a b. all = a @ map fst held @ b)"
| "keys_inv all MutationDone = True"

definition calls_inv :: "(nat \<Rightarrow> disk) \<Rightarrow> path_buf list list \<Rightarrow> lock_state \<Rightarrow> bool" where
  "calls_inv disks paths s \<longleftrightarrow>
     (\<forall>i. if i < length paths then keys_inv (lock_keys (disks i) (paths ! i)) (ls_calls s i)
          else ls_calls s i = MutationDone)"

lemma referenced_simps [simp]:
  "referenced (Locking ks held) = set held" "referenced (Awaiting k m ks held) = insert (k, m) (set held)"
  "referenced (Mutating held) = set held" "referenced (Releasing held) = set held"
  "referenced MutationDone = {}"
  by (simp_all add: referenced_def)

lemma held_referenced: "g \<in> set (held_guards pc) \<Longrightarrow> g \<in> referenced pc"
  by (simp add: referenced_def)

lemma keys_inv_held_distinct:
  "sorted_wrt (<) all \<Longrightarrow> keys_inv all pc \<Longrightarrow> distinct (map fst (held_guards pc))"
  by (cases pc) (auto simp: sorted_wrt_append strict_sorted_iff)

lemma acquire_named_lock_keeps:
  assumes "acquire_named_lock k s = (m, s')" "table_inv s"
  shows "ls_calls s' = ls_calls s \<and> ls_holder s' = ls_holder s \<and> ls_table s' k = Some m
    \<and> table_inv s' \<and> (ls_table s k = Some m \<or> (m = ls_next s \<and> ls_holder s' = ls_holder s))"
proof -
  have old: "pruned_table s k' = Some m' \<Longrightarrow> ls_table s k' = Some m'" for k' m'
    by (auto simp: pruned_table_def split: option.splits if_splits)
  have kept: "(k', m') \<in> referenced (ls_calls s i) \<Longrightarrow> pruned_table s k' = Some m'" for i k' m'
    using assms(2) by (auto simp: pruned_table_def table_inv_def in_use_def)
  show ?thesis
  proof (cases "pruned_table s k")
    case None
    with assms(1) have s': "m = ls_next s"
      "s' = s\<lparr>ls_table := (pruned_table s)(k \<mapsto> ls_next s), ls_next := ls_next s + 1\<rparr>"
      by (auto simp: acquire_named_lock_def Let_def)
    have "table_inv s'"
      unfolding table_inv_def s'
      using assms(2) old kept None
      by (auto simp: table_inv_def less_Suc_eq) (metis old less_irrefl)+
    with s' show ?thesis by simp
  next
    case (Some m')
    with assms(1) have s': "m = m'" "s' = s\<lparr>ls_table := pruned_table s\<rparr>"
      by (auto simp: acquire_named_lock_def Let_def)
    have "table_inv s'"
      unfolding table_inv_def s' using assms(2) old kept by (auto simp: table_inv_def) blast
    with s' Some old show ?thesis by simp
  qed
qed

definition lock_inv :: "(nat \<Rightarrow> disk) \<Rightarrow> path_buf list list \<Rightarrow> lock_state \<Rightarrow> bool" where
  "lock_inv disks paths s \<longleftrightarrow> table_inv s \<and> holder_inv s \<and> calls_inv disks paths s"

lemma lock_start_inv: "lock_inv disks paths (lock_start disks paths)"
  by (auto simp: lock_inv_def lock_start_def table_inv_def holder_inv_def calls_inv_def)

lemma table_inv_holder [simp]: "table_inv (s\<lparr>ls_holder := h\<rparr>) = table_inv s"
  by (simp add: table_inv_def)

lemma table_inv_set_call:
  "table_inv s \<Longrightarrow> \<forall>(k, m) \<in> referenced pc. ls_table s k = Some m \<Longrightarrow> table_inv (set_call s i pc)"
  unfolding table_inv_def by auto

lemma table_inv_sub:
  "table_inv s \<Longrightarrow> referenced pc \<subseteq> referenced (ls_calls s i) \<Longrightarrow> table_inv (set_call s i pc)"
  by (rule table_inv_set_call) (auto simp: table_inv_def)

lemma holder_inv_set_call:
  "held_guards pc = held_guards (ls_calls s i) \<Longrightarrow> holder_inv (set_call s i pc) = holder_inv s"
proof -
  assume "held_guards pc = held_guards (ls_calls s i)"
  then have "held_guards (((ls_calls s)(i := pc)) j) = held_guards (ls_calls s j)" for j by simp
  then show ?thesis by (simp add: holder_inv_def del: fun_upd_apply)
qed

lemma calls_inv_set_call:
  assumes "calls_inv disks paths s" "ls_calls s i \<noteq> MutationDone"
    "\<And>all. keys_inv all (ls_calls s i) \<Longrightarrow> keys_inv all pc"
  shows "calls_inv disks paths (set_call s i pc)"
proof -
  have "i < length paths" using assms(1,2) unfolding calls_inv_def by metis
  with assms show ?thesis unfolding calls_inv_def by simp
qed

lemma calls_inv_holder [simp]: "calls_inv disks paths (s\<lparr>ls_holder := h\<rparr>) = calls_inv disks paths s"
  by (simp add: calls_inv_def)

lemma look_up_inv:
  assumes "lock_inv disks paths s" "ls_calls s i = Locking (k # ks) held" "acquire_named_lock k s = (m, s')"
  shows "lock_inv disks paths (set_call s' i (Awaiting k m ks held))"
proof -
  note inv = assms(1) [unfolded lock_inv_def]
  note a = acquire_named_lock_keeps [OF assms(3) inv [THEN conjunct1]]
  have calls: "ls_calls s' = ls_calls s" and tab: "table_inv s'" using a by simp_all
  have "(a, b) \<in> set held \<Longrightarrow> ls_table s' a = Some b" for a b
    using tab assms(2) calls unfolding table_inv_def by (metis referenced_simps(1))
  then have "table_inv (set_call s' i (Awaiting k m ks held))"
    using tab a by (intro table_inv_set_call) auto
  moreover have "holder_inv s'" using inv a by (simp add: holder_inv_def)
  then have "holder_inv (set_call s' i (Awaiting k m ks held))"
    using holder_inv_set_call [of "Awaiting k m ks held" s' i] assms(2) calls by simp
  moreover have "calls_inv disks paths s'" using inv a by (simp add: calls_inv_def)
  then have "calls_inv disks paths (set_call s' i (Awaiting k m ks held))"
    by (rule calls_inv_set_call) (simp_all add: calls assms(2))
  ultimately show ?thesis by (simp add: lock_inv_def)
qed

lemma take_lock_inv:
  assumes "lock_inv disks paths s" "ls_calls s i = Awaiting k m ks held" "ls_holder s m = None"
  shows "lock_inv disks paths (set_call s i (Locking ks (held @ [(k, m)]))\<lparr>ls_holder := (ls_holder s)(m \<mapsto> i)\<rparr>)"
proof -
  note inv = assms(1) [unfolded lock_inv_def]
  have "holder_inv (set_call s i (Locking ks (held @ [(k, m)]))\<lparr>ls_holder := (ls_holder s)(m \<mapsto> i)\<rparr>)"
    unfolding holder_inv_def
  proof (intro conjI allI impI)
    fix j k' m'
    assume "(k', m') \<in> set (held_guards (ls_calls (set_call s i (Locking ks (held @ [(k, m)]))
        \<lparr>ls_holder := (ls_holder s)(m \<mapsto> i)\<rparr>) j))"
    then have "(j = i \<and> k' = k \<and> m' = m) \<or> (k', m') \<in> set (held_guards (ls_calls s j))"
      using assms(2) by (auto split: if_splits)
    with inv assms(3) show "ls_holder (set_call s i (Locking ks (held @ [(k, m)]))
        \<lparr>ls_holder := (ls_holder s)(m \<mapsto> i)\<rparr>) m' = Some j"
      by (auto simp: holder_inv_def)
  next
    fix j m'
    assume "ls_holder (set_call s i (Locking ks (held @ [(k, m)]))\<lparr>ls_holder := (ls_holder s)(m \<mapsto> i)\<rparr>) m' = Some j"
    then have "(m' = m \<and> j = i) \<or> ls_holder s m' = Some j" by (auto split: if_splits)
    then show "\<exists>k'. (k', m') \<in> set (held_guards (ls_calls (set_call s i (Locking ks (held @ [(k, m)]))
        \<lparr>ls_holder := (ls_holder s)(m \<mapsto> i)\<rparr>) j))"
    proof
      assume "ls_holder s m' = Some j"
      with inv obtain k' where "(k', m') \<in> set (held_guards (ls_calls s j))" unfolding holder_inv_def by blast
      then show ?thesis using assms(2) by (cases "j = i") auto
    qed auto
  qed
  moreover have "table_inv (set_call s i (Locking ks (held @ [(k, m)])))"
    using inv assms(2) by (intro table_inv_sub) auto
  moreover have "calls_inv disks paths (set_call s i (Locking ks (held @ [(k, m)])))"
    using inv by (intro calls_inv_set_call) (simp_all add: assms(2))
  ultimately show ?thesis by (simp add: lock_inv_def)
qed

lemma drop_guard_inv:
  assumes "lock_inv disks paths s" "ls_calls s i = Releasing ((k, m) # held)"
  shows "lock_inv disks paths (set_call s i (Releasing held)\<lparr>ls_holder := (ls_holder s)(m := None)\<rparr>)"
proof -
  note inv = assms(1) [unfolded lock_inv_def]
  have i: "i < length paths" using inv assms(2) by (auto simp: calls_inv_def split: if_splits)
  have "distinct (map fst (held_guards (ls_calls s i)))"
    using inv i by (intro keys_inv_held_distinct [OF lock_keys_sorted [of "disks i" "paths ! i"]]) (simp add: calls_inv_def)
  with assms(2) have k: "k \<notin> fst ` set held" by simp
  have tab: "(k', m') \<in> set (held_guards (ls_calls s j)) \<Longrightarrow> ls_table s k' = Some m'" for j k' m'
    using inv held_referenced unfolding table_inv_def by blast
  have mk: "ls_table s k = Some m" using tab [of k m i] assms(2) by simp
  have same: "ls_table s k' = Some m \<Longrightarrow> k' = k" for k' using inv mk unfolding table_inv_def by blast
  have "holder_inv (set_call s i (Releasing held)\<lparr>ls_holder := (ls_holder s)(m := None)\<rparr>)"
    unfolding holder_inv_def
  proof (intro conjI allI impI)
    fix j k' m'
    assume g: "(k', m') \<in> set (held_guards (ls_calls (set_call s i (Releasing held)
        \<lparr>ls_holder := (ls_holder s)(m := None)\<rparr>) j))"
    then have old: "(k', m') \<in> set (held_guards (ls_calls s j))" using assms(2) by (auto split: if_splits)
    have "m' \<noteq> m"
    proof
      assume m: "m' = m"
      with old tab same have "k' = k" by blast
      with g k m have "j \<noteq> i" by force
      moreover have "ls_holder s m = Some j" using inv old m unfolding holder_inv_def by blast
      moreover have "ls_holder s m = Some i" using inv assms(2) unfolding holder_inv_def by force
      ultimately show False by simp
    qed
    then show "ls_holder (set_call s i (Releasing held)\<lparr>ls_holder := (ls_holder s)(m := None)\<rparr>) m' = Some j"
      using inv old by (simp add: holder_inv_def)
  next
    fix j m'
    assume h: "ls_holder (set_call s i (Releasing held)\<lparr>ls_holder := (ls_holder s)(m := None)\<rparr>) m' = Some j"
    then have "m' \<noteq> m" "ls_holder s m' = Some j" by (auto split: if_splits)
    with inv obtain k' where "(k', m') \<in> set (held_guards (ls_calls s j))" unfolding holder_inv_def by blast
    with \<open>m' \<noteq> m\<close> assms(2) show "\<exists>k'. (k', m') \<in> set (held_guards (ls_calls (set_call s i (Releasing held)
        \<lparr>ls_holder := (ls_holder s)(m := None)\<rparr>) j))"
      by (cases "j = i") auto
  qed
  moreover have "table_inv (set_call s i (Releasing held))"
    using inv assms(2) by (intro table_inv_sub) auto
  moreover have "calls_inv disks paths (set_call s i (Releasing held))"
  proof (rule calls_inv_set_call [OF inv [THEN conjunct2, THEN conjunct2]])
    fix all assume "keys_inv all (ls_calls s i)"
    then obtain a b where "all = a @ map fst ((k, m) # held) @ b" by (auto simp: assms(2))
    then have "all = (a @ [k]) @ map fst held @ b" by simp
    then show "keys_inv all (Releasing held)" by (simp only: keys_inv.simps) blast
  qed (simp add: assms(2))
  ultimately show ?thesis by (simp add: lock_inv_def)
qed

text \<open>Steps that keep the guards.\<close>

lemma quiet_step_inv:
  assumes "lock_inv disks paths s" "ls_calls s i \<noteq> MutationDone" "held_guards pc = held_guards (ls_calls s i)"
    "awaited_guard pc = []" "\<And>all. keys_inv all (ls_calls s i) \<Longrightarrow> keys_inv all pc"
  shows "lock_inv disks paths (set_call s i pc)"
  using assms unfolding lock_inv_def
  by (auto intro!: table_inv_sub calls_inv_set_call simp: holder_inv_set_call referenced_def)

lemma any_step_inv:
  assumes "any_step s s'" "lock_inv disks paths s"
  shows "lock_inv disks paths s'"
  using assms(1) unfolding any_step_def
proof
  assume "lock_step s s'"
  then show ?thesis
  proof cases
    case look_up
    then show ?thesis using look_up_inv [OF assms(2)] by simp
  next
    case take_lock
    then show ?thesis using take_lock_inv [OF assms(2)] by simp
  next
    case drop_guard
    then show ?thesis using drop_guard_inv [OF assms(2)] by simp
  next
    case (locked i held)
    then show ?thesis using quiet_step_inv [OF assms(2), of i "Mutating held"] by simp
  next
    case (finish i held)
    have "keys_inv all (Releasing held)" if "keys_inv all (ls_calls s i)" for all
      using that finish by (simp, intro exI [of _ "[]"]) simp
    then show ?thesis using finish quiet_step_inv [OF assms(2), of i "Releasing held"] by simp
  next
    case (dropped i)
    then show ?thesis using quiet_step_inv [OF assms(2), of i MutationDone] by simp
  qed
next
  have rest: "keys_inv all (Releasing held)" if "all = map fst held @ ks" for all held ks
    using that by (simp, intro exI [of _ "[]"] exI [of _ ks]) simp
  assume "cancel_step s s'"
  then show ?thesis
  proof cases
    case (cancel_locking i ks held)
    then show ?thesis using quiet_step_inv [OF assms(2), of i "Releasing held"] rest by simp
  next
    case (cancel_waiting i k m ks held)
    then show ?thesis using quiet_step_inv [OF assms(2), of i "Releasing held"] rest by simp
  qed
qed

lemma any_run_inv: "any_step\<^sup>*\<^sup>* s s' \<Longrightarrow> lock_inv disks paths s \<Longrightarrow> lock_inv disks paths s'"
  by (induction rule: rtranclp_induct) (auto intro: any_step_inv)

section \<open>Progress\<close>

fun work_of :: "mutation_pc \<Rightarrow> nat" where
  "work_of (Locking ks held) = 3 * length ks + length held + 3"
| "work_of (Awaiting k m ks held) = 3 * length ks + length held + 5"
| "work_of (Mutating held) = length held + 2"
| "work_of (Releasing held) = length held + 1"
| "work_of MutationDone = 0"

definition work_left :: "nat \<Rightarrow> lock_state \<Rightarrow> nat" where
  "work_left n s = (\<Sum>i<n. work_of (ls_calls s i))"

lemma work_set_call:
  assumes "i < n" "ls_calls s' = (ls_calls s)(i := pc)" "work_of pc < work_of (ls_calls s i)"
  shows "work_left n s' < work_left n s"
proof -
  have "(\<Sum>j<n. work_of (ls_calls s' j)) = work_of pc + (\<Sum>j\<in>{..<n} - {i}. work_of (ls_calls s j))"
    using assms(1) by (subst sum.remove [of _ i]) (simp_all add: assms(2))
  moreover have "(\<Sum>j<n. work_of (ls_calls s j)) = work_of (ls_calls s i) + (\<Sum>j\<in>{..<n} - {i}. work_of (ls_calls s j))"
    using assms(1) by (subst sum.remove [of _ i]) simp_all
  ultimately show ?thesis using assms(3) by (simp add: work_left_def)
qed

lemma unfinished_in_range:
  "lock_inv disks paths s \<Longrightarrow> ls_calls s i \<noteq> MutationDone \<Longrightarrow> i < length paths"
  unfolding lock_inv_def calls_inv_def by metis

lemma any_step_work:
  assumes "any_step s s'" "lock_inv disks paths s"
  shows "work_left (length paths) s' < work_left (length paths) s"
proof -
  note range = unfinished_in_range [OF assms(2)]
  show ?thesis
    using assms(1) unfolding any_step_def
  proof
    assume "lock_step s s'"
    then show ?thesis
    proof cases
      case (look_up i k ks held m t)
      have "ls_calls t = ls_calls s"
        using acquire_named_lock_keeps [OF look_up(3)] assms(2) by (simp add: lock_inv_def)
      then show ?thesis using look_up range [of i] by (intro work_set_call [of i]) auto
    next
      case (take_lock i k m ks held)
      then show ?thesis using range [of i] by (intro work_set_call [of i]) auto
    next
      case (locked i held)
      then show ?thesis using range [of i] by (intro work_set_call [of i]) auto
    next
      case (finish i held)
      then show ?thesis using range [of i] by (intro work_set_call [of i]) auto
    next
      case (drop_guard i k m held)
      then show ?thesis using range [of i] by (intro work_set_call [of i]) auto
    next
      case (dropped i)
      then show ?thesis using range [of i] by (intro work_set_call [of i]) auto
    qed
  next
    assume "cancel_step s s'"
    then show ?thesis
    proof cases
      case (cancel_locking i ks held)
      then show ?thesis using range [of i] by (intro work_set_call [of i]) auto
    next
      case (cancel_waiting i k m ks held)
      then show ?thesis using range [of i] by (intro work_set_call [of i]) auto
    qed
  qed
qed

text \<open>Whoever waits for a held mutex waits for a call that holds a smaller key than it waits for itself.\<close>

lemma waiting_on_smaller:
  assumes inv: "lock_inv disks paths s" and i: "ls_calls s i = Awaiting k m ks held"
    and h: "ls_holder s m = Some j" and j: "ls_calls s j = Awaiting k' m' ks' held'"
  shows "k < k'"
proof -
  from inv h obtain k0 where g: "(k0, m) \<in> set held'"
    unfolding lock_inv_def holder_inv_def by (metis j held_guards.simps(2))
  have "ls_table s k0 = Some m" "ls_table s k = Some m"
    using inv g i j unfolding lock_inv_def table_inv_def by (metis insertI2 insertI1 referenced_simps(2))+
  then have k0: "k0 = k" using inv unfolding lock_inv_def table_inv_def by metis
  have "j < length paths" using unfinished_in_range [OF inv, of j] j by simp
  then have "map fst held' @ k' # ks' = lock_keys (disks j) (paths ! j)"
    using inv j unfolding lock_inv_def calls_inv_def by (metis keys_inv.simps(2))
  then have "sorted_wrt (<) (map fst held' @ k' # ks')" using lock_keys_sorted by metis
  then show ?thesis using g k0 by (auto simp: sorted_wrt_append)
qed

fun awaited_key :: "mutation_pc \<Rightarrow> path_buf" where
  "awaited_key (Awaiting k m ks held) = k"
| "awaited_key _ = []"

lemma lock_progress:
  assumes inv: "lock_inv disks paths s" and unfinished: "ls_calls s i0 \<noteq> MutationDone"
  shows "\<exists>s'. lock_step s s'"
proof (rule ccontr)
  assume stuck: "\<nexists>s'. lock_step s s'"
  have await: "\<exists>k m ks held j. ls_calls s i = Awaiting k m ks held \<and> ls_holder s m = Some j"
    if "ls_calls s i \<noteq> MutationDone" for i
  proof (cases "ls_calls s i")
    case (Locking ks held)
    with stuck show ?thesis
      by (cases ks) (use Locking lock_step.locked in blast, metis lock_step.look_up surj_pair)
  next
    case (Awaiting k m ks held)
    with stuck show ?thesis using lock_step.take_lock by (cases "ls_holder s m") blast+
  next
    case (Mutating held)
    with stuck show ?thesis using lock_step.finish by blast
  next
    case (Releasing held)
    with stuck show ?thesis
      by (cases held) (use Releasing lock_step.dropped in blast, metis lock_step.drop_guard surj_pair)
  qed (use that in simp)
  define waiting where "waiting = {i. ls_calls s i \<noteq> MutationDone}"
  have "finite waiting"
    using unfinished_in_range [OF inv] by (auto simp: waiting_def intro: finite_subset [of _ "{..<length paths}"])
  moreover have "waiting \<noteq> {}" using unfinished by (auto simp: waiting_def)
  ultimately have "Max ((\<lambda>j. awaited_key (ls_calls s j)) ` waiting) \<in> (\<lambda>j. awaited_key (ls_calls s j)) ` waiting"
    by simp
  then obtain i where i: "i \<in> waiting"
    and m: "Max ((\<lambda>j. awaited_key (ls_calls s j)) ` waiting) = awaited_key (ls_calls s i)" by blast
  have top: "\<forall>j \<in> waiting. awaited_key (ls_calls s j) \<le> awaited_key (ls_calls s i)"
    using \<open>finite waiting\<close> unfolding m [symmetric] by simp
  from i obtain k m ks held j where a: "ls_calls s i = Awaiting k m ks held" "ls_holder s m = Some j"
    using await unfolding waiting_def by blast
  have "held_guards (ls_calls s j) \<noteq> []"
    using inv a(2) unfolding lock_inv_def holder_inv_def by (metis empty_iff list.set(1))
  then have "ls_calls s j \<noteq> MutationDone" by auto
  then obtain k' m' ks' held' where b: "ls_calls s j = Awaiting k' m' ks' held'" using await by blast
  then have "j \<in> waiting" by (simp add: waiting_def)
  with top a b have "k' \<le> k" by force
  with waiting_on_smaller [OF inv a b] show False by simp
qed

section \<open>Properties\<close>

text \<open>C7: mutual exclusion.  While two calls hold their guards, no path of the one names the same file as a
  path of the other, whatever the interleaving, the pruning of the table and the cancellations, also when
  they saw different states of the disk and spelled the file differently.\<close>

theorem mutations_exclude_each_other:
  assumes "any_step\<^sup>*\<^sup>* (lock_start disks paths) s"
    and "ls_calls s i = Mutating held" "ls_calls s j = Mutating held'" "i \<noteq> j"
    and "p \<in> set (paths ! i)" "q \<in> set (paths ! j)"
    and "disk_ok (disks i)" "disk_ok (disks j)" "nameable (disks i) p" "nameable (disks j) q"
  shows "dk_resolve (disks i) p \<noteq> dk_resolve (disks j) q"
proof
  assume "dk_resolve (disks i) p = dk_resolve (disks j) q"
  then have key: "mutation_key (disks i) p = mutation_key (disks j) q"
    using assms(7-10) mutation_key_resolve by (metis option.inject)
  have inv: "lock_inv disks paths s" using any_run_inv [OF assms(1) lock_start_inv] .
  have keys: "map fst h = lock_keys (disks l) (paths ! l)" if "ls_calls s l = Mutating h" for l h
  proof -
    have "l < length paths" using unfinished_in_range [OF inv, of l] that by simp
    then have "keys_inv (lock_keys (disks l) (paths ! l)) (ls_calls s l)"
      using inv unfolding lock_inv_def calls_inv_def by metis
    with that show ?thesis by simp
  qed
  have named: "mutation_key (disks l) x \<in> fst ` set h" if "ls_calls s l = Mutating h" "x \<in> set (paths ! l)" for l h x
    using keys [OF that(1)] that(2) set_lock_keys [of "disks l" "paths ! l"] by (metis image_eqI list.set_map)
  obtain m m' where g: "(mutation_key (disks i) p, m) \<in> set held" "(mutation_key (disks i) p, m') \<in> set held'"
    using named [OF assms(2,5)] named [OF assms(3,6)] unfolding key by force
  then have "m = m'"
    using inv assms(2,3) unfolding lock_inv_def table_inv_def by (metis option.inject referenced_simps(3))
  with g inv assms(2-4) show False
    unfolding lock_inv_def holder_inv_def by (metis held_guards.simps(3) option.inject)
qed

text \<open>One call that finds its only key unused goes through to its guard.\<close>

lemma lock_one_file:
  assumes "ls_calls s i = Locking [k] []" "ls_table s k = None" "ls_holder s (ls_next s) = None"
  shows "any_step\<^sup>*\<^sup>* s (s\<lparr>ls_table := (pruned_table s)(k \<mapsto> ls_next s), ls_next := ls_next s + 1,
    ls_holder := (ls_holder s)(ls_next s \<mapsto> i), ls_calls := (ls_calls s)(i := Mutating [(k, ls_next s)])\<rparr>)"
proof -
  let ?m = "ls_next s"
  let ?t = "s\<lparr>ls_table := (pruned_table s)(k \<mapsto> ?m), ls_next := ?m + 1\<rparr>"
  have none: "pruned_table s k = None" using assms(2) by (simp add: pruned_table_def)
  have "acquire_named_lock k s = (?m, ?t)" by (simp add: acquire_named_lock_def Let_def none)
  from lock_step.look_up [OF assms(1) this]
  have 1: "any_step s (set_call ?t i (Awaiting k ?m [] []))" by (simp add: any_step_def)
  have 2: "any_step (set_call ?t i (Awaiting k ?m [] []))
      (set_call ?t i (Locking [] [(k, ?m)])\<lparr>ls_holder := (ls_holder s)(?m \<mapsto> i)\<rparr>)"
    unfolding any_step_def using lock_step.take_lock [of "set_call ?t i (Awaiting k ?m [] [])" i k ?m "[]" "[]"] assms(3)
    by simp
  have 3: "any_step (set_call ?t i (Locking [] [(k, ?m)])\<lparr>ls_holder := (ls_holder s)(?m \<mapsto> i)\<rparr>)
      (set_call ?t i (Mutating [(k, ?m)])\<lparr>ls_holder := (ls_holder s)(?m \<mapsto> i)\<rparr>)"
  proof -
    let ?u = "set_call ?t i (Locking [] [(k, ?m)])\<lparr>ls_holder := (ls_holder s)(?m \<mapsto> i)\<rparr>"
    have "lock_step ?u (set_call ?u i (Mutating [(k, ?m)]))" by (rule lock_step.locked) simp
    moreover have "set_call ?u i (Mutating [(k, ?m)]) = set_call ?t i (Mutating [(k, ?m)])\<lparr>ls_holder := (ls_holder s)(?m \<mapsto> i)\<rparr>"
      by (rule lock_state.equality) simp_all
    ultimately show ?thesis unfolding any_step_def by metis
  qed
  have run: "any_step\<^sup>*\<^sup>* s (set_call ?t i (Mutating [(k, ?m)])\<lparr>ls_holder := (ls_holder s)(?m \<mapsto> i)\<rparr>)"
    using r_into_rtranclp [of any_step, OF 1, THEN rtranclp.rtrancl_into_rtrancl, OF 2,
        THEN rtranclp.rtrancl_into_rtrancl, OF 3] .
  have eq: "set_call ?t i (Mutating [(k, ?m)])\<lparr>ls_holder := (ls_holder s)(?m \<mapsto> i)\<rparr>
    = s\<lparr>ls_table := (pruned_table s)(k \<mapsto> ls_next s), ls_next := ls_next s + 1,
        ls_holder := (ls_holder s)(ls_next s \<mapsto> i), ls_calls := (ls_calls s)(i := Mutating [(k, ls_next s)])\<rparr>"
    by (rule lock_state.equality) simp_all
  from run show ?thesis unfolding eq .
qed

definition file_a :: path_buf where "file_a = [RootDir, Normal (lit ''a'')]"
definition file_b :: path_buf where "file_b = [RootDir, Normal (lit ''b'')]"

definition root_disk :: disk where
  "root_disk = plain_disk Map.empty (\<lambda>p. p = [RootDir])"

lemma root_disk_facts:
  "nameable root_disk file_a" "nameable root_disk file_b"
  "mutation_key root_disk file_a = file_a" "mutation_key root_disk file_b = file_b" "file_a \<noteq> file_b"
  unfolding root_disk_def
  by (auto simp: nameable_def mutation_key_def canonicalize_def plain_disk_def file_a_def file_b_def
      path_parent_def path_file_name_def normal_part_def)

lemma root_disk_ok: "disk_ok root_disk"
  unfolding root_disk_def by (rule plain_disk_ok) auto

lemma mutations_exclude_each_other_witness:
  "dk_resolve root_disk file_a \<noteq> dk_resolve root_disk file_b"
proof -
  let ?s = "lock_start (\<lambda>_. root_disk) [[file_a], [file_b]]"
  have k: "lock_keys root_disk [file_a] = [file_a]" "lock_keys root_disk [file_b] = [file_b]"
    by (simp_all add: lock_keys_def root_disk_facts)
  note a = lock_one_file [of ?s 0 file_a]
  have "any_step\<^sup>*\<^sup>* ?s (?s\<lparr>ls_table := (pruned_table ?s)(file_a \<mapsto> 0), ls_next := 1, ls_holder := [0 \<mapsto> 0],
      ls_calls := (ls_calls ?s)(0 := Mutating [(file_a, 0)])\<rparr>)" (is "any_step\<^sup>*\<^sup>* _ ?t")
    using a by (simp add: lock_start_def k)
  moreover have "any_step\<^sup>*\<^sup>* ?t (?t\<lparr>ls_table := (pruned_table ?t)(file_b \<mapsto> 1), ls_next := 2, ls_holder := [0 \<mapsto> 0, 1 \<mapsto> 1],
      ls_calls := (ls_calls ?t)(1 := Mutating [(file_b, 1)])\<rparr>)" (is "any_step\<^sup>*\<^sup>* _ ?u")
    using lock_one_file [of ?t 1 file_b] root_disk_facts(5)
    by (simp add: lock_start_def k pruned_table_def numeral_2_eq_2)
  ultimately have run: "any_step\<^sup>*\<^sup>* ?s ?u" by (rule rtranclp_trans)
  have u: "ls_calls ?u 0 = Mutating [(file_a, 0)]" "ls_calls ?u 1 = Mutating [(file_b, 1)]" by simp_all
  show ?thesis
    using mutations_exclude_each_other [OF run u, of file_a file_b] root_disk_facts root_disk_ok by simp
qed

text \<open>C8: no deadlock.  From every reachable state all calls can finish without any cancellation, and every step
  uses up work, so no run goes on forever.\<close>

theorem mutations_never_deadlock:
  assumes "any_step\<^sup>*\<^sup>* (lock_start disks paths) s"
  shows "(\<exists>s'. lock_step\<^sup>*\<^sup>* s s' \<and> (\<forall>i. ls_calls s' i = MutationDone))
    \<and> (\<forall>s'. any_step s s' \<longrightarrow> work_left (length paths) s' < work_left (length paths) s)"
proof
  have inv: "lock_inv disks paths s" using any_run_inv [OF assms lock_start_inv] .
  then show "\<forall>s'. any_step s s' \<longrightarrow> work_left (length paths) s' < work_left (length paths) s"
    using any_step_work by blast
  from inv show "\<exists>s'. lock_step\<^sup>*\<^sup>* s s' \<and> (\<forall>i. ls_calls s' i = MutationDone)"
  proof (induction "work_left (length paths) s" arbitrary: s rule: less_induct)
    case less
    show ?case
    proof (cases "\<forall>i. ls_calls s i = MutationDone")
      case False
      then obtain s1 where s1: "lock_step s s1" using lock_progress [OF less.prems] by blast
      then have step: "any_step s s1" by (simp add: any_step_def)
      from less.hyps [OF any_step_work [OF step less.prems] any_step_inv [OF step less.prems]]
      obtain s' where "lock_step\<^sup>*\<^sup>* s1 s'" "\<forall>i. ls_calls s' i = MutationDone" by blast
      with s1 show ?thesis by (meson converse_rtranclp_into_rtranclp)
    qed blast
  qed
qed

lemma mutations_never_deadlock_witness:
  "\<exists>s'. lock_step\<^sup>*\<^sup>* (lock_start (\<lambda>_. root_disk) [[file_a, file_b], [file_b, file_a]]) s'
     \<and> (\<forall>i. ls_calls s' i = MutationDone)"
  using mutations_never_deadlock [OF rtranclp.rtrancl_refl,
      of "\<lambda>_. root_disk" "[[file_a, file_b], [file_b, file_a]]"] by blast

end
