(* ===== verification/PatchText.thy ===== *)
theory PatchText
  imports Prelude
begin

text \<open>
  The text edits of \<open>apply_patch\<close> (\<open>crates/squeezy-tools/src/lib.rs\<close>): counting and replacing matches,
  and the two fallbacks for search text that is not in the file as it is written: quotes, and Unicode
  compatibility forms.  Positions are counted in characters; where the code maps bytes of the normalised
  text back to bytes of the original, the same map is taken on characters.
\<close>

section \<open>Matches\<close>

lemma find_str_bound: "find_str s p = Some i \<Longrightarrow> i + length p \<le> length s"
proof -
  assume "find_str s p = Some i"
  note f = find_str_Some [OF this]
  have "length s = length (take i s) + (length p + length (drop (i + length p) s))"
    using f [THEN conjunct2] by (metis length_append)
  then show ?thesis using f [THEN conjunct1] by simp
qed

lemma find_str_shorter:
  "(if p = [] then None else find_str s p) = Some i \<Longrightarrow> length (drop (i + length p) s) < length s"
  using find_str_bound [of s p i] by (cases p) (auto split: if_splits)

text \<open>\<open>str::match_indices\<close> for a pattern that is not empty.\<close>

function match_positions :: "nat \<Rightarrow> str \<Rightarrow> str \<Rightarrow> nat list" where
  "match_positions offset s p =
     (case (if p = [] then None else find_str s p) of None \<Rightarrow> []
      | Some i \<Rightarrow> (offset + i) # match_positions (offset + i + length p) (drop (i + length p) s) p)"
  by pat_completeness auto
termination
  by (relation "measure (\<lambda>(_, s, _). length s)") (use find_str_shorter in auto)

declare match_positions.simps [simp del]

text \<open>The number of matches; the empty pattern matches at every character boundary.\<close>

definition match_count :: "str \<Rightarrow> str \<Rightarrow> nat" where
  "match_count s p = (if p = [] then length s + 1 else length (match_positions 0 s p))"

text \<open>\<open>str::replacen(p, r, 1)\<close> and \<open>str::replace(p, r)\<close>.\<close>

definition replace_first :: "str \<Rightarrow> str \<Rightarrow> str \<Rightarrow> str" where
  "replace_first s p r =
     (case find_str s p of None \<Rightarrow> s | Some i \<Rightarrow> take i s @ r @ drop (i + length p) s)"

function replace_all_from :: "str \<Rightarrow> str \<Rightarrow> str \<Rightarrow> str" where
  "replace_all_from p r s =
     (case (if p = [] then None else find_str s p) of None \<Rightarrow> s
      | Some i \<Rightarrow> take i s @ r @ replace_all_from p r (drop (i + length p) s))"
  by pat_completeness auto
termination
  by (relation "measure (\<lambda>(_, _, s). length s)") (use find_str_shorter in auto)

declare replace_all_from.simps [simp del]

definition replace_all :: "str \<Rightarrow> str \<Rightarrow> str \<Rightarrow> str" where
  "replace_all s p r =
     (if p = [] then r @ concat (map (\<lambda>c. c # r) s) else replace_all_from p r s)"

section \<open>Quotes\<close>

definition map_curly_to_straight :: "uchar \<Rightarrow> uchar option" where
  "map_curly_to_straight c =
     (if c = 8216 \<or> c = 8217 then Some SQUOTE else if c = 8220 \<or> c = 8221 then Some DQUOTE else None)"

definition normalize_quotes :: "str \<Rightarrow> str" where
  "normalize_quotes = map (\<lambda>c. case map_curly_to_straight c of Some q \<Rightarrow> q | None \<Rightarrow> c)"

text \<open>One character stays one character, so a match of the normalised text is at the same characters.\<close>

definition find_with_quote_normalization :: "str \<Rightarrow> str \<Rightarrow> (nat \<times> nat \<times> nat) option" where
  "find_with_quote_normalization content search =
     (let needle = normalize_quotes search;
          matches = match_positions 0 (normalize_quotes content) needle
      in if needle = [] then None
         else case matches of [] \<Rightarrow> None | start # _ \<Rightarrow> Some (start, start + length needle, length matches))"

definition is_opening_quote_context :: "str \<Rightarrow> nat \<Rightarrow> bool" where
  "is_opening_quote_context chars index \<longleftrightarrow>
     index = 0 \<or> chars ! (index - 1) \<in> {SPACE, TAB, NL, CR, LPAREN, LBRACKET, LBRACE, 8212, 8211}"

text \<open>\<open>char::is_alphabetic\<close>: ASCII letters, and a table of the library for the rest.\<close>

definition is_alphabetic :: "(uchar \<Rightarrow> bool) \<Rightarrow> uchar \<Rightarrow> bool" where
  "is_alphabetic table c = (if c < 128 then is_alpha c else table c)"

definition letter_at :: "(uchar \<Rightarrow> bool) \<Rightarrow> str \<Rightarrow> nat \<Rightarrow> bool" where
  "letter_at table chars i \<longleftrightarrow> i < length chars \<and> is_alphabetic table (chars ! i)"

definition quote_at :: "(uchar \<Rightarrow> bool) \<Rightarrow> str \<Rightarrow> bool \<Rightarrow> bool \<Rightarrow> nat \<Rightarrow> uchar" where
  "quote_at table chars double single i =
     (if chars ! i = DQUOTE \<and> double
      then (if is_opening_quote_context chars i then 8220 else 8221)
      else if chars ! i = SQUOTE \<and> single
      then (if 0 < i \<and> letter_at table chars (i - 1) \<and> letter_at table chars (i + 1) then 8217
            else if is_opening_quote_context chars i then 8216 else 8217)
      else chars ! i)"

definition preserve_quote_style :: "(uchar \<Rightarrow> bool) \<Rightarrow> str \<Rightarrow> str \<Rightarrow> str" where
  "preserve_quote_style table replacement original_slice =
     (let double = (8220 \<in> set original_slice \<or> 8221 \<in> set original_slice);
          single = (8216 \<in> set original_slice \<or> 8217 \<in> set original_slice)
      in if \<not> double \<and> \<not> single then replacement
         else map (quote_at table replacement double single) [0..<length replacement])"

section \<open>Unicode forms\<close>

definition map_unicode_to_ascii :: "uchar \<Rightarrow> str option" where
  "map_unicode_to_ascii c =
     (if c \<in> {8216, 8217, 8218, 8219} then Some [SQUOTE]
      else if c \<in> {8220, 8221, 8222, 8223} then Some [DQUOTE]
      else if c = 8212 then Some [DASH, DASH]
      else if c \<in> {8211, 8208, 8209, 8210, 8213, 8722} then Some [DASH]
      else if c = 160 \<or> (8194 \<le> c \<and> c \<le> 8202) \<or> c \<in> {8239, 8287, 12288} then Some [SPACE]
      else None)"

text \<open>The normalised characters, each with the index of the source character that gave it; \<open>nfkc\<close> is the
  compatibility decomposition of a character.\<close>

definition unicode_marks :: "(uchar \<Rightarrow> str) \<Rightarrow> str \<Rightarrow> (nat \<times> uchar) list" where
  "unicode_marks nfkc input =
     concat (map (\<lambda>i. map (Pair i) (concat (map (\<lambda>c. case map_unicode_to_ascii c of Some t \<Rightarrow> t | None \<Rightarrow> [c])
                                             (nfkc (input ! i)))))
              [0..<length input])"

definition unicode_normalize :: "(uchar \<Rightarrow> str) \<Rightarrow> str \<Rightarrow> str" where
  "unicode_normalize nfkc input = map snd (unicode_marks nfkc input)"

text \<open>
  The scan for clean matches, on what is left of the normalised text.  A rejected candidate advances by
  one byte; in the middle of a character the next slice panics, which is the result \<open>None\<close>.
\<close>

definition clean_slice :: "(uchar \<Rightarrow> str) \<Rightarrow> str \<Rightarrow> str \<Rightarrow> nat \<Rightarrow> nat \<Rightarrow> bool" where
  "clean_slice nfkc content needle from_index to_index \<longleftrightarrow>
     unicode_normalize nfkc (take (to_index - from_index) (drop from_index content)) = needle"

function unicode_scan ::
  "(uchar \<Rightarrow> str) \<Rightarrow> str \<Rightarrow> str \<Rightarrow> (nat \<times> uchar) list \<Rightarrow> (nat \<times> nat) list option" where
  "unicode_scan nfkc content needle marks =
     (case (if needle = [] then None else find_str (map snd marks) needle) of None \<Rightarrow> Some []
      | Some i \<Rightarrow>
          (let orig_start = fst (marks ! i);
               orig_end = (if i + length needle < length marks then fst (marks ! (i + length needle))
                           else length content)
           in if clean_slice nfkc content needle orig_start orig_end
              then map_option (Cons (orig_start, orig_end))
                     (unicode_scan nfkc content needle (drop (i + length needle) marks))
              else if utf8_width (snd (marks ! i)) = 1
              then unicode_scan nfkc content needle (drop (i + 1) marks)
              else None))"
  by pat_completeness auto
termination
proof (relation "measure (\<lambda>(_, _, _, marks). length marks)", goal_cases)
  case (2 nfkc content needle marks i)
  then show ?case using find_str_shorter [of needle "map snd marks" i] by (simp split: if_splits)
next
  case (3 nfkc content needle marks i)
  then show ?case using find_str_bound [of "map snd marks" needle i] by (cases needle) (auto split: if_splits)
qed simp

declare unicode_scan.simps [simp del]

text \<open>The outer \<open>None\<close> is the panic.\<close>

definition find_with_unicode_normalization ::
  "(uchar \<Rightarrow> str) \<Rightarrow> str \<Rightarrow> str \<Rightarrow> (nat \<times> nat \<times> nat) option option" where
  "find_with_unicode_normalization nfkc content search =
     (let needle = unicode_normalize nfkc search
      in if needle = [] then Some None
         else if unicode_normalize nfkc content = content \<and> needle = search then Some None
         else map_option (\<lambda>clean. case clean of [] \<Rightarrow> None | (a, b) # _ \<Rightarrow> Some (a, b, length clean))
                (unicode_scan nfkc content needle (unicode_marks nfkc content)))"

end
