(* ===== verification/PatchOps.thy ===== *)
theory PatchOps
  imports MutationQueue PatchText CostBroker
begin

text \<open>
  \<open>apply_patch\<close>: its arguments, path resolution, and the staging of its operations
  (\<open>crates/squeezy-tools/src/patch.rs\<close>, \<open>crates/squeezy-tools/src/lib.rs\<close>).  Staging computes in memory
  what every operation will do; only the unified-diff fallback, which runs \<open>git apply\<close>, touches the disk.
\<close>

section \<open>Arguments\<close>

record post_move_replace =
  pm_search :: str
  pm_replace :: str
  pm_allow_multiple :: "bool option"

datatype apply_patch_operation =
    SearchReplace (sr_path: str) (sr_search: str) (sr_replace: str) (sr_expected: "str option")
      (sr_allow_multiple: "bool option") (sr_unified_diff: bool)
  | CreateFile (cf_path: str) (cf_contents: str) (cf_expected_absent: "bool option")
  | DeleteFile (df_path: str) (df_expected: "str option")
  | MoveFile (mf_from: str) (mf_to: str) (mf_expected: "str option") (mf_post: "post_move_replace option")

record search_replace_patch =
  sp_path :: str
  sp_search :: str
  sp_replace :: str
  sp_expected :: "str option"
  sp_allow_multiple :: "bool option"
  sp_unified_diff :: bool

record apply_patch_args =
  pa_patches :: "search_replace_patch list"
  pa_operations :: "apply_patch_operation list"
  pa_plan_id :: "str option"
  pa_dry_run :: "bool option"
  pa_confirm_outside_plan :: bool

definition unwrap_or :: "'a option \<Rightarrow> 'a \<Rightarrow> 'a" where
  "unwrap_or x d = (case x of None \<Rightarrow> d | Some v \<Rightarrow> v)"

fun apply_patch_op_paths :: "apply_patch_operation \<Rightarrow> str list" where
  "apply_patch_op_paths (SearchReplace path _ _ _ _ _) = [path]"
| "apply_patch_op_paths (CreateFile path _ _) = [path]"
| "apply_patch_op_paths (DeleteFile path _) = [path]"
| "apply_patch_op_paths (MoveFile from to _ _) = [from, to]"

datatype op_kind = SearchReplaceKind | CreateKind | DeleteKind | MoveKind

fun apply_patch_op_kind :: "apply_patch_operation \<Rightarrow> op_kind" where
  "apply_patch_op_kind (SearchReplace _ _ _ _ _ _) = SearchReplaceKind"
| "apply_patch_op_kind (CreateFile _ _ _) = CreateKind"
| "apply_patch_op_kind (DeleteFile _ _) = DeleteKind"
| "apply_patch_op_kind (MoveFile _ _ _ _) = MoveKind"

definition legacy_operation :: "search_replace_patch \<Rightarrow> apply_patch_operation" where
  "legacy_operation p = SearchReplace (sp_path p) (sp_search p) (sp_replace p) (sp_expected p)
     (sp_allow_multiple p) (sp_unified_diff p)"

section \<open>World\<close>

text \<open>
  What staging asks: the workspace, the sandbox settings, the hash, the last hash the model has seen of a
  path with the call that showed it, tables of the Unicode library, the call-independent path grant,
  \<open>git apply\<close> (with \<open>True\<close> for \<open>--check\<close>): an error, or whether it applied, and the disk afterwards; and
  the I/O errors of the checkpoint, of writes and of removals.
\<close>

record patch_world =
  pw_root :: str
  pw_sandbox :: sandbox_config
  pw_sha :: "file_content \<Rightarrow> str"
  pw_seen :: "str \<Rightarrow> (str \<times> str) option"
  pw_nfkc :: "uchar \<Rightarrow> str"
  pw_alphabetic :: "uchar \<Rightarrow> bool"
  pw_outside_grant :: bool
  pw_git :: "bool \<Rightarrow> str \<Rightarrow> disk \<Rightarrow> (str + bool) \<times> disk"
  pw_checkpoint_error :: "str option"
  pw_write_error :: "path_buf \<Rightarrow> str option"
  pw_remove_error :: "path_buf \<Rightarrow> str option"

definition root_comps :: "patch_world \<Rightarrow> path_buf" where
  "root_comps w = path_components (pw_root w)"

section \<open>Paths\<close>

definition starts_with_comps :: "path_buf \<Rightarrow> path_buf \<Rightarrow> bool" where
  "starts_with_comps p base \<longleftrightarrow> take (length base) p = base"

text \<open>\<open>Path::join\<close> on the workspace root.\<close>

definition joined :: "patch_world \<Rightarrow> str \<Rightarrow> path_buf" where
  "joined w raw = path_components (path_join (pw_root w) raw)"

definition join_shell_path :: "patch_world \<Rightarrow> str \<Rightarrow> str + path_buf" where
  "join_shell_path w raw =
     (if trim raw = [] then Inl (lit ''path must not be empty'')
      else if ParentDir \<in> set (path_components raw) then Inl (lit ''path must stay inside the workspace'')
      else Inr (joined w raw))"

definition join_workspace :: "patch_world \<Rightarrow> str \<Rightarrow> str + path_buf" where
  "join_workspace w raw =
     (case join_shell_path w raw of Inl e \<Rightarrow> Inl e
      | Inr p \<Rightarrow> if \<not> starts_with_comps p (root_comps w) \<and> \<not> pw_outside_grant w
                 then Inl (lit ''path must stay inside the workspace'') else Inr p)"

definition ensure_inside :: "patch_world \<Rightarrow> path_buf \<Rightarrow> str + path_buf" where
  "ensure_inside w canonical =
     (if starts_with_comps canonical (root_comps w) \<or> pw_outside_grant w then Inr canonical
      else Inl (lit ''path is outside the workspace''))"

definition resolve_existing :: "patch_world \<Rightarrow> disk \<Rightarrow> str \<Rightarrow> str + path_buf" where
  "resolve_existing w d raw =
     (case join_workspace w raw of Inl e \<Rightarrow> Inl e
      | Inr candidate \<Rightarrow>
          (case canonicalize d candidate of
             None \<Rightarrow> Inl (lit ''path does not exist or is inaccessible'')
           | Some canonical \<Rightarrow> ensure_inside w canonical))"

definition resolve_for_write :: "patch_world \<Rightarrow> disk \<Rightarrow> str \<Rightarrow> str + path_buf" where
  "resolve_for_write w d raw =
     (case join_workspace w raw of Inl e \<Rightarrow> Inl e
      | Inr candidate \<Rightarrow>
          if path_exists d candidate then resolve_existing w d raw
          else (case path_parent candidate of
                  None \<Rightarrow> Inl (lit ''path has no parent'')
                | Some parent \<Rightarrow>
                    (case canonicalize d parent of
                       None \<Rightarrow> Inl (lit ''parent directory does not exist or is inaccessible'')
                     | Some canonical \<Rightarrow>
                         (case ensure_inside w canonical of Inl e \<Rightarrow> Inl e | Inr _ \<Rightarrow> Inr candidate))))"

fun component_str :: "path_component \<Rightarrow> str" where
  "component_str RootDir = []"
| "component_str CurDir = [DOT]"
| "component_str ParentDir = [DOT, DOT]"
| "component_str (Normal s) = s"

definition path_str :: "path_buf \<Rightarrow> str" where
  "path_str p = (if p = [RootDir] then [SLASH] else join [SLASH] (map component_str p))"

text \<open>\<open>relative\<close>, shown with forward slashes.\<close>

definition relative_str :: "patch_world \<Rightarrow> path_buf \<Rightarrow> str" where
  "relative_str w p =
     replace_char BSLASH SLASH
       (path_str (if starts_with_comps p (root_comps w) then drop (length (root_comps w)) p else p))"

definition is_secret_part :: "str \<Rightarrow> bool" where
  "is_secret_part part0 =
     (let part = to_lower part0
      in part = lit ''.env'' \<or> starts_with part (lit ''.env.'') \<or> contains part (lit ''secret'')
         \<or> contains part (lit ''credential'') \<or> one_of part [''id_rsa'', ''id_ed25519'']
         \<or> list_ex (\<lambda>e. ends_with part (lit e)) [''.pem'', ''.key'', ''.p12''])"

definition is_secret_path :: "str \<Rightarrow> bool" where
  "is_secret_path p = list_ex (\<lambda>c. is_secret_part (case c of RootDir \<Rightarrow> [SLASH] | _ \<Rightarrow> component_str c)) (path_components p)"

text \<open>\<open>Path::extension\<close> of the last component, compared with \<open>ipynb\<close>.\<close>

definition is_notebook_path :: "str \<Rightarrow> bool" where
  "is_notebook_path p =
     (case path_file_name (path_components p) of None \<Rightarrow> False
      | Some name \<Rightarrow>
          (case rsplit_once DOT name of None \<Rightarrow> False
           | Some (stem, extension) \<Rightarrow> stem \<noteq> [] \<and> eq_ignore_case extension (lit ''ipynb'')))"

function trim_dot_slash :: "str \<Rightarrow> str" where
  "trim_dot_slash s = (case strip_prefix s [DOT, SLASH] of None \<Rightarrow> s | Some rest \<Rightarrow> trim_dot_slash rest)"
  by pat_completeness auto
termination
  by (relation "measure length") (auto simp: strip_prefix_Some_iff)

declare trim_dot_slash.simps [simp del]

definition normalize_workspace_path_str :: "str \<Rightarrow> str option" where
  "normalize_workspace_path_str path =
     (let normalized = replace_char BSLASH SLASH (trim path)
      in if normalized = [] then None
         else let result = trim_end_matches (\<lambda>c. c = SLASH) (trim_dot_slash normalized)
              in if result = [] then None else Some result)"

definition normalized_path_set :: "str list \<Rightarrow> str set" where
  "normalized_path_set paths = set (List.map_filter normalize_workspace_path_str paths)"

section \<open>Conflicts\<close>

type_synonym seen_keys = "path_buf \<rightharpoonup> (op_kind \<times> str)"

fun conflict_of_endpoints ::
  "patch_world \<Rightarrow> disk \<Rightarrow> op_kind \<Rightarrow> str list \<Rightarrow> seen_keys \<Rightarrow> (str \<times> op_kind \<times> op_kind) + seen_keys" where
  "conflict_of_endpoints w d kind [] seen = Inr seen"
| "conflict_of_endpoints w d kind (endpoint # rest) seen =
     (case normalize_workspace_path_str endpoint of
        None \<Rightarrow> conflict_of_endpoints w d kind rest seen
      | Some shown \<Rightarrow>
          (let key = mutation_key d (joined w endpoint)
           in case seen key of
                Some (prior_kind, prior_shown) \<Rightarrow>
                  if prior_kind = SearchReplaceKind \<and> kind = SearchReplaceKind
                  then conflict_of_endpoints w d kind rest seen
                  else Inl (prior_shown, prior_kind, kind)
              | None \<Rightarrow> conflict_of_endpoints w d kind rest (seen(key \<mapsto> (kind, shown)))))"

fun conflict_from ::
  "patch_world \<Rightarrow> disk \<Rightarrow> apply_patch_operation list \<Rightarrow> seen_keys \<Rightarrow> (str \<times> op_kind \<times> op_kind) option" where
  "conflict_from w d [] seen = None"
| "conflict_from w d (op # ops) seen =
     (case conflict_of_endpoints w d (apply_patch_op_kind op) (apply_patch_op_paths op) seen of
        Inl conflict \<Rightarrow> Some conflict
      | Inr seen' \<Rightarrow> conflict_from w d ops seen')"

definition detect_apply_patch_path_conflict ::
  "patch_world \<Rightarrow> disk \<Rightarrow> apply_patch_operation list \<Rightarrow> (str \<times> op_kind \<times> op_kind) option" where
  "detect_apply_patch_path_conflict w d ops = conflict_from w d ops Map.empty"

section \<open>Staged operations\<close>

record patch_file =
  pf_path :: path_buf
  pf_rel :: str
  pf_before :: str
  pf_current :: str
  pf_before_sha :: str

datatype staged_op =
    StagedSearchReplace (so_rel: str) (so_file: nat) (so_exact: bool) (so_fallback: "str option")
  | StagedCreate (so_rel: str) (so_abs: path_buf) (so_contents: str)
  | StagedDelete (so_rel: str) (so_abs: path_buf) (so_sha: str) (so_before: "str option")
  | StagedMove (so_rel_from: str) (so_from: path_buf) (so_rel: str) (so_to: path_buf)
      (so_before_text: str) (so_after: str) (so_sha: str)

record staged_apply =
  st_files :: "patch_file list"
  st_index :: "str \<rightharpoonup> nat"
  st_ops :: "staged_op list"

definition empty_staged :: staged_apply where
  "empty_staged = \<lparr>st_files = [], st_index = Map.empty, st_ops = []\<rparr>"

definition push_op :: "staged_op \<Rightarrow> staged_apply \<Rightarrow> staged_apply" where
  "push_op op st = st\<lparr>st_ops := st_ops st @ [op]\<rparr>"

definition read_text :: "disk \<Rightarrow> path_buf \<Rightarrow> str option" where
  "read_text d p = (case read_file d p of Some (Text s) \<Rightarrow> Some s | _ \<Rightarrow> None)"

definition ensure_search_replace ::
  "patch_world \<Rightarrow> disk \<Rightarrow> str \<Rightarrow> path_buf \<Rightarrow> staged_apply \<Rightarrow> (nat \<times> staged_apply) option" where
  "ensure_search_replace w d rel abs_path st =
     (case st_index st rel of
        Some idx \<Rightarrow> Some (idx, push_op (StagedSearchReplace rel idx True None) st)
      | None \<Rightarrow>
          (case read_text d abs_path of None \<Rightarrow> None
           | Some before \<Rightarrow>
               (let idx = length (st_files st);
                    file = \<lparr>pf_path = abs_path, pf_rel = rel, pf_before = before, pf_current = before,
                            pf_before_sha = pw_sha w (Text before)\<rparr>
                in Some (idx, push_op (StagedSearchReplace rel idx True None)
                     (st\<lparr>st_files := st_files st @ [file], st_index := (st_index st)(rel \<mapsto> idx)\<rparr>)))))"

definition mark_last_op_inexact :: "str option \<Rightarrow> staged_apply \<Rightarrow> staged_apply" where
  "mark_last_op_inexact tag st =
     (case rev (st_ops st) of
        StagedSearchReplace rel file exact fallback # rest \<Rightarrow>
          st\<lparr>st_ops := rev (StagedSearchReplace rel file False (if tag \<noteq> None then tag else fallback) # rest)\<rparr>
      | _ \<Rightarrow> st)"

definition set_current :: "nat \<Rightarrow> str \<Rightarrow> staged_apply \<Rightarrow> staged_apply" where
  "set_current idx text st =
     st\<lparr>st_files := (st_files st)[idx := (st_files st ! idx)\<lparr>pf_current := text\<rparr>]\<rparr>"

section \<open>Errors\<close>

datatype patch_error =
    EmptySearch
  | NotAnExistingFile str
  | Unreadable str
  | ShaMismatch str str
  | ChangedSinceSeen str str
  | NeverSeen str
  | SearchNotFound str
  | ManyMatches str nat
  | DiffDoesNotApply str
  | DiffNotRun str str
  | InvalidPath str
  | TargetExists str
  | BothForms
  | NoOperations
  | TooManyOperations
  | Conflict str op_kind op_kind
  | NotebookPath str
  | OutsidePlan str "str set"
  | UnsafePath str path_safety_error
  | SecretOrProtected str
  | CheckpointFailed str
  | ApplyFailed str str

fun patch_error_status :: "patch_error \<Rightarrow> tool_status" where
  "patch_error_status (ShaMismatch _ _) = ToolStale"
| "patch_error_status (ChangedSinceSeen _ _) = ToolStale"
| "patch_error_status (NeverSeen _) = ToolStale"
| "patch_error_status (SearchNotFound _) = ToolStale"
| "patch_error_status (ManyMatches _ _) = ToolStale"
| "patch_error_status (DiffDoesNotApply _) = ToolStale"
| "patch_error_status (DiffNotRun _ _) = ToolStale"
| "patch_error_status (TargetExists _) = ToolStale"
| "patch_error_status (OutsidePlan _ _) = ToolStale"
| "patch_error_status (UnsafePath _ _) = ToolDenied"
| "patch_error_status (SecretOrProtected _) = ToolDenied"
| "patch_error_status _ = ToolError"

text \<open>Staging refuses with an error, or the slice of the Unicode fallback panics.\<close>

datatype stage_failure = Refused patch_error | Panicked

text \<open>The hash gate: an expected hash must be the current one; without one, the model must have seen it.\<close>

definition gate_on_seen_sha256 :: "patch_world \<Rightarrow> str \<Rightarrow> str \<Rightarrow> patch_error option" where
  "gate_on_seen_sha256 w rel current =
     (case pw_seen w rel of
        Some (seen, _) \<Rightarrow> if seen = current then None else Some (ChangedSinceSeen rel seen)
      | None \<Rightarrow> Some (NeverSeen rel))"

definition sha_gate :: "patch_world \<Rightarrow> str option \<Rightarrow> str \<Rightarrow> str \<Rightarrow> patch_error option" where
  "sha_gate w expected rel current =
     (case expected of
        Some e \<Rightarrow> if e = current then None else Some (ShaMismatch rel current)
      | None \<Rightarrow> gate_on_seen_sha256 w rel current)"

section \<open>Editing text\<close>

datatype edit_result = Edited str "str option" | NoMatch | MatchedOften nat | EditPanic

definition splice :: "str \<Rightarrow> nat \<Rightarrow> nat \<Rightarrow> str \<Rightarrow> str" where
  "splice s a b r = take a s @ r @ drop b s"

definition unicode_edit :: "patch_world \<Rightarrow> str \<Rightarrow> str \<Rightarrow> str \<Rightarrow> edit_result" where
  "unicode_edit w search replacement current =
     (case find_with_unicode_normalization (pw_nfkc w) current search of
        None \<Rightarrow> EditPanic
      | Some (Some (a, b, n)) \<Rightarrow>
          if n = 1 then Edited (splice current a b replacement) (Some (lit ''unicode_normalize'')) else NoMatch
      | Some None \<Rightarrow> NoMatch)"

definition rescue_edit :: "patch_world \<Rightarrow> str \<Rightarrow> str \<Rightarrow> str \<Rightarrow> edit_result" where
  "rescue_edit w search replacement current =
     (case find_with_quote_normalization current search of
        Some (a, b, n) \<Rightarrow>
          if n = 1
          then Edited (splice current a b (preserve_quote_style (pw_alphabetic w) replacement (take (b - a) (drop a current))))
                 (Some (lit ''quote_normalize''))
          else unicode_edit w search replacement current
      | None \<Rightarrow> unicode_edit w search replacement current)"

definition replace_matches :: "bool \<Rightarrow> str \<Rightarrow> str \<Rightarrow> str \<Rightarrow> str" where
  "replace_matches allow_multi search replacement current =
     (if allow_multi then replace_all current search replacement else replace_first current search replacement)"

definition edit_text :: "patch_world \<Rightarrow> str \<Rightarrow> str \<Rightarrow> bool \<Rightarrow> str \<Rightarrow> edit_result" where
  "edit_text w search replacement allow_multi current =
     (let matches = match_count current search
      in if matches = 0 then rescue_edit w search replacement current
         else if 1 < matches \<and> \<not> allow_multi then MatchedOften matches
         else Edited (replace_matches allow_multi search replacement current) None)"

section \<open>Staging\<close>

text \<open>The unified-diff fallback.  A dry run asks \<open>git apply --check\<close>; otherwise \<open>git apply\<close> changes the disk
  and the file is read again.\<close>

definition unified_diff_fallback ::
  "patch_world \<Rightarrow> bool \<Rightarrow> str \<Rightarrow> path_buf \<Rightarrow> str \<Rightarrow> nat \<Rightarrow> staged_apply \<Rightarrow> disk
     \<Rightarrow> (stage_failure + staged_apply) \<times> disk" where
  "unified_diff_fallback w dry_run rel abs_path diff idx st d =
     (let (outcome, d') = pw_git w dry_run diff d;
          marked = mark_last_op_inexact (Some (lit ''unified_diff''))
      in case outcome of
           Inl err \<Rightarrow> (Inl (Refused (DiffNotRun rel err)), d')
         | Inr False \<Rightarrow> (Inl (Refused (DiffDoesNotApply rel)), d')
         | Inr True \<Rightarrow>
             if dry_run then (Inr (marked st), d')
             else (case read_text d' abs_path of
                     None \<Rightarrow> (Inl (Refused (Unreadable rel)), d')
                   | Some text \<Rightarrow> (Inr (marked (set_current idx text st)), d')))"

definition stage_search_replace ::
  "patch_world \<Rightarrow> bool \<Rightarrow> str \<Rightarrow> str \<Rightarrow> str \<Rightarrow> str option \<Rightarrow> bool \<Rightarrow> bool \<Rightarrow> staged_apply \<Rightarrow> disk
     \<Rightarrow> (stage_failure + staged_apply) \<times> disk" where
  "stage_search_replace w dry_run path search replacement expected allow_multi unified st d =
     (if search = [] then (Inl (Refused EmptySearch), d)
      else case resolve_existing w d path of Inl e \<Rightarrow> (Inl (Refused (NotAnExistingFile path)), d)
      | Inr abs_path \<Rightarrow>
          (let rel = relative_str w abs_path
           in case ensure_search_replace w d rel abs_path st of None \<Rightarrow> (Inl (Refused (Unreadable rel)), d)
              | Some (idx, st1) \<Rightarrow>
                  (case sha_gate w expected rel (pf_before_sha (st_files st1 ! idx)) of
                     Some e \<Rightarrow> (Inl (Refused e), d)
                   | None \<Rightarrow>
                       (case edit_text w search replacement allow_multi (pf_current (st_files st1 ! idx)) of
                          Edited text None \<Rightarrow> (Inr (set_current idx text st1), d)
                        | Edited text (Some tag) \<Rightarrow> (Inr (mark_last_op_inexact (Some tag) (set_current idx text st1)), d)
                        | MatchedOften n \<Rightarrow> (Inl (Refused (ManyMatches rel n)), d)
                        | EditPanic \<Rightarrow> (Inl Panicked, d)
                        | NoMatch \<Rightarrow>
                            if unified then unified_diff_fallback w dry_run rel abs_path search idx st1 d
                            else (Inl (Refused (SearchNotFound rel)), d)))))"

definition stage_create ::
  "patch_world \<Rightarrow> str \<Rightarrow> str \<Rightarrow> bool \<Rightarrow> staged_apply \<Rightarrow> disk \<Rightarrow> stage_failure + staged_apply" where
  "stage_create w path contents expect_absent st d =
     (case resolve_for_write w d path of Inl e \<Rightarrow> Inl (Refused (InvalidPath path))
      | Inr abs_path \<Rightarrow>
          (let rel = relative_str w abs_path
           in if expect_absent \<and> path_exists d abs_path then Inl (Refused (TargetExists rel))
              else Inr (push_op (StagedCreate rel abs_path contents) st)))"

definition stage_delete ::
  "patch_world \<Rightarrow> str \<Rightarrow> str option \<Rightarrow> staged_apply \<Rightarrow> disk \<Rightarrow> stage_failure + staged_apply" where
  "stage_delete w path expected st d =
     (case resolve_existing w d path of Inl e \<Rightarrow> Inl (Refused (NotAnExistingFile path))
      | Inr abs_path \<Rightarrow>
          (let rel = relative_str w abs_path
           in case read_file d abs_path of None \<Rightarrow> Inl (Refused (Unreadable rel))
              | Some existing \<Rightarrow>
                  (let current = pw_sha w existing
                   in case sha_gate w expected rel current of Some e \<Rightarrow> Inl (Refused e)
                      | None \<Rightarrow> Inr (push_op (StagedDelete rel abs_path current
                                     (case existing of Text s \<Rightarrow> Some s | Binary _ \<Rightarrow> None)) st))))"

definition post_move_text :: "post_move_replace option \<Rightarrow> str \<Rightarrow> str \<Rightarrow> patch_error + str" where
  "post_move_text post rel contents =
     (case post of None \<Rightarrow> Inr contents
      | Some p \<Rightarrow>
          (let matches = match_count contents (pm_search p);
               allow_multi = unwrap_or (pm_allow_multiple p) False
           in if matches = 0 then Inl (SearchNotFound rel)
              else if 1 < matches \<and> \<not> allow_multi then Inl (ManyMatches rel matches)
              else Inr (replace_matches allow_multi (pm_search p) (pm_replace p) contents)))"

definition stage_move ::
  "patch_world \<Rightarrow> str \<Rightarrow> str \<Rightarrow> str option \<Rightarrow> post_move_replace option \<Rightarrow> staged_apply \<Rightarrow> disk
     \<Rightarrow> stage_failure + staged_apply" where
  "stage_move w from_path to_path expected post st d =
     (case resolve_existing w d from_path of Inl e \<Rightarrow> Inl (Refused (NotAnExistingFile from_path))
      | Inr abs_from \<Rightarrow>
          (case resolve_for_write w d to_path of Inl e \<Rightarrow> Inl (Refused (InvalidPath to_path))
           | Inr abs_to \<Rightarrow>
               (let rel_from = relative_str w abs_from; rel_to = relative_str w abs_to
                in if path_exists d abs_to then Inl (Refused (TargetExists rel_to))
                   else case read_text d abs_from of None \<Rightarrow> Inl (Refused (Unreadable rel_from))
                   | Some contents \<Rightarrow>
                       (case sha_gate w expected rel_from (pw_sha w (Text contents)) of
                          Some e \<Rightarrow> Inl (Refused e)
                        | None \<Rightarrow>
                            (case post_move_text post rel_from contents of Inl e \<Rightarrow> Inl (Refused e)
                             | Inr final_contents \<Rightarrow>
                                 Inr (push_op (StagedMove rel_from abs_from rel_to abs_to contents final_contents
                                        (pw_sha w (Text contents))) st))))))"

fun stage_apply_patch_op ::
  "patch_world \<Rightarrow> bool \<Rightarrow> apply_patch_operation \<Rightarrow> staged_apply \<Rightarrow> disk \<Rightarrow> (stage_failure + staged_apply) \<times> disk" where
  "stage_apply_patch_op w dry_run (SearchReplace path search replacement expected allow unified) st d =
     stage_search_replace w dry_run path search replacement expected (unwrap_or allow False) unified st d"
| "stage_apply_patch_op w dry_run (CreateFile path contents expected_absent) st d =
     (stage_create w path contents (unwrap_or expected_absent True) st d, d)"
| "stage_apply_patch_op w dry_run (DeleteFile path expected) st d = (stage_delete w path expected st d, d)"
| "stage_apply_patch_op w dry_run (MoveFile from_path to_path expected post) st d =
     (stage_move w from_path to_path expected post st d, d)"

fun stage_all ::
  "patch_world \<Rightarrow> bool \<Rightarrow> apply_patch_operation list \<Rightarrow> staged_apply \<Rightarrow> disk \<Rightarrow> (stage_failure + staged_apply) \<times> disk" where
  "stage_all w dry_run [] st d = (Inr st, d)"
| "stage_all w dry_run (op # ops) st d =
     (case stage_apply_patch_op w dry_run op st d of
        (Inl e, d') \<Rightarrow> (Inl e, d')
      | (Inr st', d') \<Rightarrow> stage_all w dry_run ops st' d')"

section \<open>Commit\<close>

text \<open>\<open>write_atomic\<close> puts the contents at the place the path names; a directory is never replaced.\<close>

definition write_atomic :: "patch_world \<Rightarrow> path_buf \<Rightarrow> str \<Rightarrow> disk \<Rightarrow> str option \<times> disk" where
  "write_atomic w p contents d =
     (case pw_write_error w p of Some e \<Rightarrow> (Some e, d)
      | None \<Rightarrow>
          (case dk_resolve d p of None \<Rightarrow> (Some (lit ''not found''), d)
           | Some l \<Rightarrow> if dk_is_dir d l then (Some (lit ''is a directory''), d)
                      else (None, set_file l (Some (Text contents)) d)))"

definition remove_file :: "patch_world \<Rightarrow> path_buf \<Rightarrow> disk \<Rightarrow> str option \<times> disk" where
  "remove_file w p d =
     (case pw_remove_error w p of Some e \<Rightarrow> (Some e, d)
      | None \<Rightarrow>
          (case dk_resolve d p of None \<Rightarrow> (Some (lit ''not found''), d)
           | Some l \<Rightarrow> if dk_files d l = None then (Some (lit ''not found''), d) else (None, set_file l None d)))"

text \<open>\<open>StagedOp::apply\<close>: the error if there is one, the written files and the disk.  The parent directory of a
  new file exists, because \<open>resolve_for_write\<close> resolved it.\<close>

fun apply_staged_op ::
  "patch_world \<Rightarrow> patch_file list \<Rightarrow> staged_op \<Rightarrow> nat set \<Rightarrow> disk \<Rightarrow> str option \<times> nat set \<times> disk" where
  "apply_staged_op w files (StagedSearchReplace rel idx exact fallback) written d =
     (if idx \<in> written then (None, written, d)
      else let state = files ! idx
           in if pf_before state = pf_current state then (None, insert idx written, d)
              else (case write_atomic w (pf_path state) (pf_current state) d of
                      (Some e, d') \<Rightarrow> (Some e, written, d')
                    | (None, d') \<Rightarrow> (None, insert idx written, d')))"
| "apply_staged_op w files (StagedCreate rel abs_path contents) written d =
     (let (e, d') = write_atomic w abs_path contents d in (e, written, d'))"
| "apply_staged_op w files (StagedDelete rel abs_path sha before) written d =
     (let (e, d') = remove_file w abs_path d in (e, written, d'))"
| "apply_staged_op w files (StagedMove rel_from abs_from rel_to abs_to before after sha) written d =
     (case write_atomic w abs_to after d of
        (Some e, d') \<Rightarrow> (Some e, written, d')
      | (None, d') \<Rightarrow> (let (e, d'') = remove_file w abs_from d' in (e, written, d'')))"

datatype delta_status = Applied | Failed str | Skipped | StagedOnly

text \<open>The loop over the staged operations: after a failure the rest is skipped.\<close>

fun commit_ops ::
  "patch_world \<Rightarrow> patch_file list \<Rightarrow> staged_op list \<Rightarrow> nat set \<Rightarrow> disk
     \<Rightarrow> (staged_op \<times> delta_status) list \<times> (str \<times> str) option \<times> disk" where
  "commit_ops w files [] written d = ([], None, d)"
| "commit_ops w files (op # ops) written d =
     (case apply_staged_op w files op written d of
        (Some e, written', d') \<Rightarrow>
          ((op, Failed e) # map (\<lambda>op. (op, Skipped)) ops, Some (so_rel op, e), d')
      | (None, written', d') \<Rightarrow>
          (let (delta, failure, d'') = commit_ops w files ops written' d'
           in ((op, Applied) # delta, failure, d'')))"

end
