(* ===== verification/PatchApply.thy ===== *)
theory PatchApply
  imports PatchOps
begin

text \<open>
  The \<open>apply_patch\<close> tool as a whole (\<open>crates/squeezy-tools/src/patch.rs\<close>): the checks before it, the binding
  to a registered plan, staging, the dry run and the commit; and what a call does to the files, against a
  specification that runs the operations one after the other on a file map.
\<close>

section \<open>Plans\<close>

record patch_plan =
  pp_neighborhood :: "str set"
  pp_expires_at_ms :: nat

type_synonym patch_plans = "str \<rightharpoonup> patch_plan"

definition PATCH_PLAN_TTL :: nat where "PATCH_PLAN_TTL = 30 * 60 * 1000"

text \<open>\<open>HashMap::retain\<close> on the plans that have not expired.\<close>

definition live_plans :: "nat \<Rightarrow> patch_plans \<Rightarrow> patch_plans" where
  "live_plans now plans = (\<lambda>k. case plans k of None \<Rightarrow> None
     | Some plan \<Rightarrow> if now < pp_expires_at_ms plan then Some plan else None)"

definition register_patch_plan :: "nat \<Rightarrow> str \<Rightarrow> str set \<Rightarrow> patch_plans \<Rightarrow> patch_plans" where
  "register_patch_plan now plan_id neighborhood plans =
     (live_plans now plans)(plan_id \<mapsto>
        \<lparr>pp_neighborhood = neighborhood, pp_expires_at_ms = min (now + PATCH_PLAN_TTL) (2 ^ 128 - 1)\<rparr>)"

definition lookup_patch_plan :: "nat \<Rightarrow> str \<Rightarrow> patch_plans \<Rightarrow> patch_plan option \<times> patch_plans" where
  "lookup_patch_plan now plan_id plans = (live_plans now plans plan_id, live_plans now plans)"

section \<open>Checks before staging\<close>

definition MAX_PATCH_BLOCKS :: nat where "MAX_PATCH_BLOCKS = 64"

definition patch_operations :: "apply_patch_args \<Rightarrow> patch_error + apply_patch_operation list" where
  "patch_operations args =
     (if pa_patches args \<noteq> [] \<and> pa_operations args \<noteq> [] then Inl BothForms
      else let ops = (if pa_operations args \<noteq> [] then pa_operations args
                      else map legacy_operation (pa_patches args))
           in if ops = [] then Inl NoOperations
              else if MAX_PATCH_BLOCKS < length ops then Inl TooManyOperations
              else Inr ops)"

definition touched_paths :: "apply_patch_operation list \<Rightarrow> str list" where
  "touched_paths ops = concat (map apply_patch_op_paths ops)"

definition plan_violation :: "nat \<Rightarrow> apply_patch_args \<Rightarrow> str set \<Rightarrow> patch_plans \<Rightarrow> patch_error option \<times> patch_plans" where
  "plan_violation now args paths plans =
     (case pa_plan_id args of None \<Rightarrow> (None, plans)
      | Some plan_id \<Rightarrow>
          (case lookup_patch_plan now plan_id plans of
             (None, plans') \<Rightarrow> (None, plans')
           | (Some plan, plans') \<Rightarrow>
               (if \<not> pa_confirm_outside_plan args \<and> paths - pp_neighborhood plan \<noteq> {}
                then Some (OutsidePlan plan_id (paths - pp_neighborhood plan)) else None, plans')))"

text \<open>The safety floor of one path.\<close>

definition path_refusal :: "patch_world \<Rightarrow> str \<Rightarrow> patch_error option" where
  "path_refusal w rel =
     (case assess_write_path rel (pw_root w) (pw_sandbox w) of
        Inl e \<Rightarrow> Some (UnsafePath rel e)
      | Inr _ \<Rightarrow>
          if is_secret_path rel \<or> path_targets_protected_metadata (joined w rel) (pw_root w) (pw_sandbox w) \<noteq> None
          then Some (SecretOrProtected rel) else None)"

definition patch_refusal ::
  "patch_world \<Rightarrow> nat \<Rightarrow> apply_patch_args \<Rightarrow> apply_patch_operation list \<Rightarrow> patch_plans \<Rightarrow> disk
     \<Rightarrow> patch_error option \<times> patch_plans" where
  "patch_refusal w now args ops plans d =
     (case detect_apply_patch_path_conflict w d ops of
        Some (path, first, second) \<Rightarrow> (Some (Conflict path first second), plans)
      | None \<Rightarrow>
          (case List.find is_notebook_path (touched_paths ops) of
             Some bad \<Rightarrow> (Some (NotebookPath bad), plans)
           | None \<Rightarrow>
               (case plan_violation now args (normalized_path_set (touched_paths ops)) plans of
                  (Some e, plans') \<Rightarrow> (Some e, plans')
                | (None, plans') \<Rightarrow> (first_some (path_refusal w) (touched_paths ops), plans'))))"

section \<open>The call\<close>

record patch_report =
  rp_error :: "patch_error option"
  rp_dry_run :: bool
  rp_delta :: "(staged_op \<times> delta_status) list"
  rp_exact :: bool
  rp_changed :: "path_buf list"

definition error_report :: "patch_error \<Rightarrow> patch_report" where
  "error_report e = \<lparr>rp_error = Some e, rp_dry_run = False, rp_delta = [], rp_exact = False, rp_changed = []\<rparr>"

definition report_status :: "patch_report \<Rightarrow> tool_status" where
  "report_status r = (case rp_error r of None \<Rightarrow> ToolSuccess | Some e \<Rightarrow> patch_error_status e)"

fun staged_exact :: "staged_op \<Rightarrow> bool" where
  "staged_exact (StagedSearchReplace rel file exact fallback) = exact"
| "staged_exact _ = True"

fun op_changed_abs_paths :: "patch_file list \<Rightarrow> staged_op \<Rightarrow> path_buf list" where
  "op_changed_abs_paths files (StagedSearchReplace rel idx exact fallback) =
     (if idx < length files then [pf_path (files ! idx)] else [])"
| "op_changed_abs_paths files (StagedCreate rel abs_path contents) = [abs_path]"
| "op_changed_abs_paths files (StagedDelete rel abs_path sha before) = [abs_path]"
| "op_changed_abs_paths files (StagedMove rel_from abs_from rel_to abs_to before after sha) = [abs_from, abs_to]"

definition commit_report :: "staged_apply \<Rightarrow> (staged_op \<times> delta_status) list \<Rightarrow> (str \<times> str) option \<Rightarrow> patch_report" where
  "commit_report st delta failure =
     \<lparr>rp_error = map_option (\<lambda>(path, e). ApplyFailed path e) failure, rp_dry_run = False, rp_delta = delta,
      rp_exact = (failure = None \<and> list_all staged_exact (st_ops st)),
      rp_changed = concat (map (\<lambda>(op, status). if status = Applied then op_changed_abs_paths (st_files st) op else []) delta)\<rparr>"

definition preview_report :: "staged_apply \<Rightarrow> patch_report" where
  "preview_report st =
     \<lparr>rp_error = None, rp_dry_run = True, rp_delta = map (\<lambda>op. (op, StagedOnly)) (st_ops st),
      rp_exact = list_all staged_exact (st_ops st), rp_changed = []\<rparr>"

text \<open>Staging and commit.  \<open>None\<close> is the panic of the Unicode fallback, which ends the call without a result.\<close>

definition stage_and_commit ::
  "patch_world \<Rightarrow> bool \<Rightarrow> apply_patch_operation list \<Rightarrow> disk \<Rightarrow> patch_report option \<times> disk" where
  "stage_and_commit w dry_run ops d =
     (case (if dry_run then None else pw_checkpoint_error w) of
        Some e \<Rightarrow> (Some (error_report (CheckpointFailed e)), d)
      | None \<Rightarrow>
          (case stage_all w dry_run ops empty_staged d of
             (Inl Panicked, d') \<Rightarrow> (None, d')
           | (Inl (Refused e), d') \<Rightarrow> (Some (error_report e), d')
           | (Inr st, d') \<Rightarrow>
               if dry_run then (Some (preview_report st), d')
               else (let (delta, failure, d'') = commit_ops w (st_files st) (st_ops st) {} d'
                     in (Some (commit_report st delta failure), d''))))"

definition execute_apply_patch ::
  "patch_world \<Rightarrow> nat \<Rightarrow> apply_patch_args \<Rightarrow> patch_plans \<Rightarrow> disk \<Rightarrow> patch_report option \<times> patch_plans \<times> disk" where
  "execute_apply_patch w now args plans d =
     (case patch_operations args of Inl e \<Rightarrow> (Some (error_report e), plans, d)
      | Inr ops \<Rightarrow>
          (case patch_refusal w now args ops plans d of
             (Some e, plans') \<Rightarrow> (Some (error_report e), plans', d)
           | (None, plans') \<Rightarrow>
               (let (report, d') = stage_and_commit w (unwrap_or (pa_dry_run args) False) ops d
                in (report, plans', d'))))"

end
