(* ===== verification/PatchSpec.thy ===== *)
theory PatchSpec
  imports PatchApply
begin

text \<open>
  What \<open>apply_patch\<close> promises: the operations of a call, run one after the other on a map from places to
  contents, with no staging, no file table and no conflict check.  The lemmas show that staging followed by
  the commit computes the same map, that refused and previewed calls change nothing, and which places a
  call can change.
\<close>

section \<open>The specification\<close>

type_synonym file_map = "path_buf \<rightharpoonup> file_content"

definition place :: "patch_world \<Rightarrow> disk \<Rightarrow> str \<Rightarrow> path_buf option" where
  "place w d path = dk_resolve d (joined w path)"

definition text_at :: "file_map \<Rightarrow> path_buf \<Rightarrow> str option" where
  "text_at m l = (case m l of Some (Text t) \<Rightarrow> Some t | _ \<Rightarrow> None)"

definition edited_text :: "edit_result \<Rightarrow> str option" where
  "edited_text r = (case r of Edited t tag \<Rightarrow> Some t | _ \<Rightarrow> None)"

fun spec_op :: "patch_world \<Rightarrow> disk \<Rightarrow> apply_patch_operation \<Rightarrow> file_map \<Rightarrow> file_map option" where
  "spec_op w d (SearchReplace path search replacement expected allow unified) m =
     Option.bind (place w d path) (\<lambda>l. Option.bind (text_at m l) (\<lambda>t.
       map_option (\<lambda>t'. m(l \<mapsto> Text t')) (edited_text (edit_text w search replacement (unwrap_or allow False) t))))"
| "spec_op w d (CreateFile path contents expected_absent) m =
     Option.bind (place w d path) (\<lambda>l.
       if unwrap_or expected_absent True \<and> m l \<noteq> None then None else Some (m(l \<mapsto> Text contents)))"
| "spec_op w d (DeleteFile path expected) m =
     Option.bind (place w d path) (\<lambda>l. if m l = None then None else Some (m(l := None)))"
| "spec_op w d (MoveFile from_path to_path expected post) m =
     Option.bind (place w d from_path) (\<lambda>l. Option.bind (place w d to_path) (\<lambda>l'. Option.bind (text_at m l) (\<lambda>t.
       if m l' \<noteq> None then None
       else (case post_move_text post [] t of Inl e \<Rightarrow> None | Inr t' \<Rightarrow> Some (m(l := None, l' \<mapsto> Text t'))))))"

fun spec_all :: "patch_world \<Rightarrow> disk \<Rightarrow> apply_patch_operation list \<Rightarrow> file_map \<Rightarrow> file_map option" where
  "spec_all w d [] m = Some m"
| "spec_all w d (op # ops) m = Option.bind (spec_op w d op m) (spec_all w d ops)"

fun uses_git :: "apply_patch_operation \<Rightarrow> bool" where
  "uses_git (SearchReplace path search replacement expected allow unified) = unified"
| "uses_git _ = False"

section \<open>Paths and places\<close>

definition plain_root :: "patch_world \<Rightarrow> bool" where
  "plain_root w \<longleftrightarrow> path_is_absolute (pw_root w) \<and> ParentDir \<notin> set (root_comps w)"

lemma split_on_append:
  "p c \<Longrightarrow> split_on p (s @ c # t) = split_on p s @ split_on p t"
  by (induction s) (auto split: list.splits simp: neq_Nil_conv)

lemma path_components_absolute:
  "path_is_absolute p \<Longrightarrow> path_components p = RootDir # List.map_filter piece_component (split_on (\<lambda>c. c = SLASH) p)"
  by (simp add: path_components_def path_is_absolute_def)

lemma map_filter_append': "List.map_filter f (xs @ ys) = List.map_filter f xs @ List.map_filter f ys"
  by (simp add: List.map_filter_def)

lemma joined_form:
  assumes "plain_root w" "ParentDir \<notin> set (path_components raw)"
  shows "\<exists>names. joined w raw = RootDir # map Normal names"
proof -
  let ?pc = "\<lambda>s. List.map_filter piece_component (split_on (\<lambda>c. c = SLASH) s)"
  have abs: "path_is_absolute (path_join (pw_root w) raw)"
    using assms(1) by (auto simp: plain_root_def path_join_def path_is_absolute_def starts_with_iff)
  have root: "ParentDir \<notin> set (?pc (pw_root w))" and raw: "ParentDir \<notin> set (?pc raw)"
    using assms by (auto simp: plain_root_def root_comps_def path_components_def Let_def split: if_splits)
  have "set (?pc (path_join (pw_root w) raw)) \<subseteq> set (?pc (pw_root w)) \<union> set (?pc raw)"
  proof (cases "ends_with (pw_root w) [SLASH]")
    case True
    then obtain r where r: "pw_root w = r @ [SLASH]" by (auto simp: ends_with_iff)
    then show ?thesis
      using split_on_append [of "\<lambda>c. c = SLASH" SLASH r raw] split_on_append [of "\<lambda>c. c = SLASH" SLASH r "[]"]
      by (auto simp: path_join_def map_filter_append' True)
  next
    case False
    moreover have "pw_root w \<noteq> []" using assms(1) by (auto simp: plain_root_def path_is_absolute_def starts_with_def)
    ultimately show ?thesis
      using split_on_append [of "\<lambda>c. c = SLASH" SLASH "pw_root w" raw]
      by (auto simp: path_join_def map_filter_append')
  qed
  with root raw have "ParentDir \<notin> set (?pc (path_join (pw_root w) raw))" by blast
  then have "\<forall>c \<in> set (?pc (path_join (pw_root w) raw)). \<exists>n. c = Normal n"
    by (force simp: List.map_filter_def piece_component_def split: if_splits)
  then have "\<exists>names. ?pc (path_join (pw_root w) raw) = map Normal names"
    by (metis ex_map_conv)
  then show ?thesis unfolding joined_def path_components_absolute [OF abs] by auto
qed


definition inside :: "patch_world \<Rightarrow> path_buf \<Rightarrow> bool" where
  "inside w l \<longleftrightarrow> starts_with_comps l (root_comps w) \<or> pw_outside_grant w"

lemma starts_with_comps_append: "starts_with_comps p b \<Longrightarrow> starts_with_comps (p @ q) b"
  unfolding starts_with_comps_def by (metis append.assoc append_eq_conv_conj append_take_drop_id)

lemma join_workspace_facts:
  "join_workspace w raw = Inr p \<Longrightarrow> p = joined w raw \<and> ParentDir \<notin> set (path_components raw)"
  by (auto simp: join_workspace_def join_shell_path_def split: sum.splits if_splits)

lemma ensure_inside_Inr [simp]: "ensure_inside w l = Inr x \<longleftrightarrow> x = l \<and> inside w l"
  by (auto simp: ensure_inside_def inside_def)

lemma resolve_existing_facts:
  assumes "resolve_existing w d raw = Inr p"
  shows "canonicalize d (joined w raw) = Some p" "inside w p"
  using assms by (auto simp: resolve_existing_def dest: join_workspace_facts split: sum.splits option.splits)

lemma existing_place:
  assumes "disk_ok d" "resolve_existing w d raw = Inr p"
  shows "place w d raw = Some p \<and> dk_resolve d p = Some p \<and> mutation_key d (joined w raw) = p \<and> inside w p"
proof -
  note c = resolve_existing_facts [OF assms(2)]
  then have "place w d raw = Some p" by (simp add: place_def canonicalize_resolve)
  moreover have "dk_resolve d p = Some p"
    using assms(1) calculation unfolding disk_ok_def place_def by blast
  ultimately show ?thesis using c by (simp add: mutation_key_def)
qed

lemma resolve_for_write_cases:
  assumes "resolve_for_write w d raw = Inr p"
  obtains (there) "resolve_existing w d raw = Inr p"
  | (new) parent cp where "p = joined w raw" "canonicalize d p = None" "ParentDir \<notin> set (path_components raw)"
      "path_parent p = Some parent" "canonicalize d parent = Some cp" "inside w cp"
  using assms
  by (auto simp: resolve_for_write_def path_exists_def dest!: join_workspace_facts split: sum.splits option.splits if_splits)

text \<open>A resolved write target is the place the path names, and that place is inside.\<close>

lemma write_place:
  assumes "disk_ok d" "plain_root w" "resolve_for_write w d raw = Inr p" "dk_resolve d p = Some l"
  shows "place w d raw = Some l \<and> mutation_key d (joined w raw) = l \<and> inside w l"
  using assms(3)
proof (cases rule: resolve_for_write_cases)
  case there
  from existing_place [OF assms(1) there] assms(4) show ?thesis by simp
next
  case (new parent cp)
  obtain names where names: "p = RootDir # map Normal names"
    using joined_form [OF assms(2) new(3)] new(1) by auto
  with new(4) have ne: "names \<noteq> []" by (auto simp: path_parent_def)
  then have p: "p = parent @ [Normal (last names)]"
    using new(4) unfolding names by (auto simp: path_parent_def last_map split: if_splits)
      (metis append_butlast_last_id last_map map_is_Nil_conv)
  obtain q where q: "dk_resolve d parent = Some q" "dk_is_dir d q"
    using assms(1,4) unfolding disk_ok_def p by blast
  with new(5) have dir: "dk_is_dir d cp" by (simp add: canonicalize_resolve)
  then have nm: "nameable d p" using new(5) p unfolding nameable_def by blast
  have key: "mutation_key d p = cp @ [Normal (last names)]"
    using new(2,5) by (simp add: mutation_key_def p)
  with mutation_key_resolve [OF assms(1) nm] assms(4) have l: "l = cp @ [Normal (last names)]" by simp
  then have "inside w l" using new(6) by (auto simp: inside_def intro: starts_with_comps_append)
  then show ?thesis using assms(4) key l new(1) by (simp add: place_def)
qed

section \<open>The commit reaches its target\<close>

text \<open>What an operation leaves at the places it owns.  A \<open>search_replace\<close> owns an entry of the file table.\<close>

fun op_writes :: "disk \<Rightarrow> staged_op \<Rightarrow> (path_buf \<times> file_content option) list" where
  "op_writes d (StagedSearchReplace rel idx exact fallback) = []"
| "op_writes d (StagedCreate rel abs_path contents) = [(the (dk_resolve d abs_path), Some (Text contents))]"
| "op_writes d (StagedDelete rel abs_path sha before) = [(the (dk_resolve d abs_path), None)]"
| "op_writes d (StagedMove rel_from abs_from rel_to abs_to before after sha) =
     [(the (dk_resolve d abs_to), Some (Text after)), (the (dk_resolve d abs_from), None)]"

definition table_ref :: "staged_op \<Rightarrow> nat option" where
  "table_ref op = (case op of StagedSearchReplace rel idx exact fallback \<Rightarrow> Some idx | _ \<Rightarrow> None)"

fun op_named :: "disk \<Rightarrow> staged_op \<Rightarrow> bool" where
  "op_named d (StagedSearchReplace rel idx exact fallback) \<longleftrightarrow> True"
| "op_named d (StagedCreate rel abs_path contents) \<longleftrightarrow> dk_resolve d abs_path \<noteq> None"
| "op_named d (StagedDelete rel abs_path sha before) \<longleftrightarrow> dk_resolve d abs_path \<noteq> None"
| "op_named d (StagedMove rel_from abs_from rel_to abs_to before after sha) \<longleftrightarrow>
     dk_resolve d abs_to \<noteq> None \<and> dk_resolve d abs_from \<noteq> None"

definition table_ok :: "disk \<Rightarrow> file_map \<Rightarrow> patch_file list \<Rightarrow> bool" where
  "table_ok d m files \<longleftrightarrow> (\<forall>f \<in> set files. dk_resolve d (pf_path f) = Some (pf_path f)
     \<and> dk_files d (pf_path f) = Some (Text (pf_before f)) \<and> m (pf_path f) = Some (Text (pf_current f)))"

definition op_lands :: "disk \<Rightarrow> file_map \<Rightarrow> patch_file list \<Rightarrow> staged_op \<Rightarrow> bool" where
  "op_lands d m files op \<longleftrightarrow> (\<forall>(l, c) \<in> set (op_writes d op). m l = c)
     \<and> (\<forall>idx. table_ref op = Some idx \<longrightarrow> idx < length files)"

definition pending :: "disk \<Rightarrow> patch_file list \<Rightarrow> staged_op list \<Rightarrow> nat set \<Rightarrow> path_buf set" where
  "pending d files ops written =
     (\<Union>op \<in> set ops. fst ` set (op_writes d op) \<union> (\<lambda>idx. pf_path (files ! idx)) ` (set_option (table_ref op) - written))"

lemma write_atomic_None:
  "write_atomic w p c d = (None, d') \<Longrightarrow> \<exists>l. dk_resolve d p = Some l \<and> d' = set_file l (Some (Text c)) d"
  by (auto simp: write_atomic_def split: option.splits if_splits)

lemma remove_file_None:
  "remove_file w p d = (None, d') \<Longrightarrow> \<exists>l. dk_resolve d p = Some l \<and> d' = set_file l None d"
  by (auto simp: remove_file_def split: option.splits if_splits)

lemma apply_staged_op_resolve:
  "apply_staged_op w files op written d = (e, written', d') \<Longrightarrow> dk_resolve d' = dk_resolve d \<and> dk_is_dir d' = dk_is_dir d"
  by (cases op) (auto simp: write_atomic_def remove_file_def Let_def split: option.splits if_splits prod.splits)

lemma apply_staged_op_named:
  "apply_staged_op w files op written d = (None, written', d') \<Longrightarrow> op_named d op"
  by (cases op) (auto dest!: write_atomic_None remove_file_None split: option.splits if_splits prod.splits)

lemma commit_ops_named:
  "commit_ops w files ops written d = (delta, None, d') \<Longrightarrow> \<forall>op \<in> set ops. op_named d op"
proof (induction ops arbitrary: written d delta)
  case (Cons op ops)
  then obtain written1 d1 delta1 where 1: "apply_staged_op w files op written d = (None, written1, d1)"
    and 2: "commit_ops w files ops written1 d1 = (delta1, None, d')"
    by (auto split: prod.splits option.splits)
  have "op_named d1 = op_named d"
  proof
    fix x show "op_named d1 x = op_named d x" using apply_staged_op_resolve [OF 1] by (cases x) auto
  qed
  with Cons.IH [OF 2] apply_staged_op_named [OF 1] show ?case by simp
qed simp

text \<open>One operation brings the places it owns to the target and leaves the others.\<close>

lemma apply_staged_op_lands:
  assumes "apply_staged_op w files op written d = (None, written', d')"
    and "op_lands d m files op" "table_ok d0 m files" "dk_resolve d = dk_resolve d0"
    and "\<forall>l. dk_files d l = m l \<or> dk_files d l = dk_files d0 l"
  shows "(\<forall>l. dk_files d' l = m l
            \<or> (dk_files d' l = dk_files d l \<and> l \<notin> fst ` set (op_writes d op)
               \<and> l \<notin> (\<lambda>idx. pf_path (files ! idx)) ` (set_option (table_ref op) - written)))
         \<and> written' = written \<union> set_option (table_ref op)"
proof (cases op)
  case (StagedSearchReplace rel idx exact fallback)
  then have idx: "idx < length files" using assms(2) by (simp add: op_lands_def table_ref_def)
  let ?f = "files ! idx"
  have f: "dk_resolve d (pf_path ?f) = Some (pf_path ?f)" "dk_files d0 (pf_path ?f) = Some (Text (pf_before ?f))"
      "m (pf_path ?f) = Some (Text (pf_current ?f))"
    using assms(3,4) idx by (auto simp: table_ok_def)
  show ?thesis
  proof (cases "idx \<in> written \<or> pf_before ?f = pf_current ?f")
    case True
    then have "dk_files d (pf_path ?f) = m (pf_path ?f) \<or> idx \<in> written"
      using assms(5) f(2,3) by metis
    then show ?thesis using True assms(1) StagedSearchReplace
      by (auto simp: table_ref_def Let_def split: if_splits)
  next
    case False
    then obtain l where "dk_resolve d (pf_path ?f) = Some l" "d' = set_file l (Some (Text (pf_current ?f))) d"
        "written' = insert idx written"
      using assms(1) StagedSearchReplace by (auto simp: Let_def split: option.splits prod.splits dest!: write_atomic_None)
    then show ?thesis using f False StagedSearchReplace by (auto simp: table_ref_def)
  qed
next
  case (StagedCreate rel abs_path contents)
  then show ?thesis using assms(1,2)
    by (auto simp: op_lands_def table_ref_def split: prod.splits dest!: write_atomic_None)
next
  case (StagedDelete rel abs_path sha before)
  then show ?thesis using assms(1,2)
    by (auto simp: op_lands_def table_ref_def split: prod.splits dest!: remove_file_None)
next
  case (StagedMove rel_from abs_from rel_to abs_to before after sha)
  then obtain l l' where "dk_resolve d abs_to = Some l'" "dk_resolve d abs_from = Some l" "written' = written"
      "d' = set_file l None (set_file l' (Some (Text after)) d)"
    using assms(1) by (auto split: prod.splits option.splits dest!: write_atomic_None remove_file_None)
  then show ?thesis using StagedMove assms(2) by (auto simp: op_lands_def table_ref_def)
qed

lemma op_writes_cong: "dk_resolve d = dk_resolve d' \<Longrightarrow> op_writes d op = op_writes d' op"
  by (cases op) auto

lemma op_lands_cong: "dk_resolve d = dk_resolve d' \<Longrightarrow> op_lands d m files op = op_lands d' m files op"
  unfolding op_lands_def by (simp cong: op_writes_cong)

lemma pending_cong: "dk_resolve d = dk_resolve d' \<Longrightarrow> pending d files ops written = pending d' files ops written"
  unfolding pending_def by (simp cong: op_writes_cong)

lemma pending_Cons:
  "l \<in> pending d files (op # ops) written \<Longrightarrow>
     l \<in> pending d files ops (written \<union> set_option (table_ref op))
     \<or> l \<in> fst ` set (op_writes d op) \<or> l \<in> (\<lambda>idx. pf_path (files ! idx)) ` (set_option (table_ref op) - written)"
  by (cases "table_ref op") (auto simp: pending_def image_iff Bex_def)

lemma pendingE:
  assumes "l \<in> pending d files ops {}"
  obtains (written) op where "op \<in> set ops" "l \<in> fst ` set (op_writes d op)"
  | (listed) op idx where "op \<in> set ops" "table_ref op = Some idx" "l = pf_path (files ! idx)"
  using assms unfolding pending_def by auto

lemma pending_listed:
  "op \<in> set ops \<Longrightarrow> table_ref op = Some idx \<Longrightarrow> pf_path (files ! idx) \<in> pending d files ops {}"
  by (force simp: pending_def)

text \<open>A commit without an error brings the disk to any map where every staged operation lands and that agrees
  with the disk elsewhere.\<close>

lemma commit_reaches_target:
  assumes "commit_ops w files ops written d = (delta, None, d')"
    and "\<forall>op \<in> set ops. op_lands d0 m files op" "table_ok d0 m files" "dk_resolve d = dk_resolve d0"
    and "\<forall>l. dk_files d l = m l \<or> (dk_files d l = dk_files d0 l \<and> l \<in> pending d0 files ops written)"
  shows "dk_files d' = m"
  using assms
proof (induction ops arbitrary: written d delta)
  case Nil
  then show ?case by (auto simp: pending_def)
next
  case (Cons op ops)
  from Cons.prems(1) obtain written1 d1 delta1 where 1: "apply_staged_op w files op written d = (None, written1, d1)"
    and 2: "commit_ops w files ops written1 d1 = (delta1, None, d')"
    by (auto split: prod.splits option.splits)
  have "op_lands d m files op"
    using Cons.prems(2) by (simp add: op_lands_cong [OF Cons.prems(4)])
  note step = apply_staged_op_lands [OF 1 this Cons.prems(3,4)]
  have ok: "\<forall>l. dk_files d l = m l \<or> dk_files d l = dk_files d0 l" using Cons.prems(5) by blast
  show ?case
  proof (rule Cons.IH [OF 2])
    show "dk_resolve d1 = dk_resolve d0" using apply_staged_op_resolve [OF 1] Cons.prems(4) by simp
    show "\<forall>l. dk_files d1 l = m l \<or> (dk_files d1 l = dk_files d0 l \<and> l \<in> pending d0 files ops written1)"
    proof
      fix l
      from step [OF ok] have w1: "written1 = written \<union> set_option (table_ref op)"
        and "dk_files d1 l = m l
            \<or> (dk_files d1 l = dk_files d l \<and> l \<notin> fst ` set (op_writes d op)
               \<and> l \<notin> (\<lambda>idx. pf_path (files ! idx)) ` (set_option (table_ref op) - written))" by blast+
      then show "dk_files d1 l = m l \<or> (dk_files d1 l = dk_files d0 l \<and> l \<in> pending d0 files ops written1)"
        using Cons.prems(5) pending_Cons [of l d0 files op ops written]
        unfolding w1 op_writes_cong [OF Cons.prems(4)] by metis
    qed
  qed (use Cons.prems in auto)
qed

section \<open>Staging keeps to the specification\<close>

text \<open>
  \<open>m\<close> is the map the specification has reached, \<open>seen\<close> the endpoints the conflict check has met, \<open>P\<close> the places
  of the call.  Files of the table belong to \<open>search_replace\<close> operations, and no other operation has their place.
\<close>

definition sr_seen :: "seen_keys \<Rightarrow> path_buf \<Rightarrow> bool" where
  "sr_seen seen l \<longleftrightarrow> (\<exists>shown. seen l = Some (SearchReplaceKind, shown))"

definition other_seen :: "seen_keys \<Rightarrow> path_buf \<Rightarrow> bool" where
  "other_seen seen l \<longleftrightarrow> (\<exists>kind shown. seen l = Some (kind, shown) \<and> kind \<noteq> SearchReplaceKind)"

definition index_ok :: "patch_world \<Rightarrow> path_buf set \<Rightarrow> staged_apply \<Rightarrow> bool" where
  "index_ok w P st \<longleftrightarrow>
     (\<forall>rel idx. st_index st rel = Some idx \<longrightarrow> idx < length (st_files st) \<and> relative_str w (pf_path (st_files st ! idx)) = rel)
     \<and> (\<forall>f \<in> set (st_files st). st_index st (relative_str w (pf_path f)) \<noteq> None \<and> pf_path f \<in> P)
     \<and> distinct (map pf_path (st_files st))"

definition staged_inv ::
  "patch_world \<Rightarrow> disk \<Rightarrow> path_buf set \<Rightarrow> file_map \<Rightarrow> seen_keys \<Rightarrow> staged_apply \<Rightarrow> bool" where
  "staged_inv w d P m seen st \<longleftrightarrow>
     index_ok w P st
     \<and> table_ok d m (st_files st)
     \<and> (\<forall>idx < length (st_files st). sr_seen seen (pf_path (st_files st ! idx)) \<and> Some idx \<in> table_ref ` set (st_ops st))
     \<and> (\<forall>op \<in> set (st_ops st). op_lands d m (st_files st) op \<and> (\<forall>l \<in> fst ` set (op_writes d op). other_seen seen l))
     \<and> (\<forall>l. m l = dk_files d l \<or> l \<in> pending d (st_files st) (st_ops st) {})"

lemma seen_kinds_disjoint: "sr_seen seen l \<Longrightarrow> other_seen seen l \<Longrightarrow> False"
  by (auto simp: sr_seen_def other_seen_def)

lemma not_seen: "seen l = None \<Longrightarrow> \<not> sr_seen seen l \<and> \<not> other_seen seen l"
  by (simp add: sr_seen_def other_seen_def)

lemma push_op_simps [simp]:
  "st_files (push_op op st) = st_files st" "st_index (push_op op st) = st_index st"
  "st_ops (push_op op st) = st_ops st @ [op]"
  by (simp_all add: push_op_def)

lemma pending_append:
  "pending d files (ops @ [op]) {} = pending d files ops {} \<union> fst ` set (op_writes d op)
     \<union> (\<lambda>idx. pf_path (files ! idx)) ` set_option (table_ref op)"
  by (auto simp: pending_def)

text \<open>An operation other than \<open>search_replace\<close>, on places not met before.\<close>

lemma staged_inv_push:
  assumes inv: "staged_inv w d P m seen st" and "table_ref op = None"
    and fresh: "\<forall>l \<in> fst ` set (op_writes d op). seen l = None"
    and new: "\<forall>(l, c) \<in> set (op_writes d op). m' l = c" "\<forall>l \<in> fst ` set (op_writes d op). other_seen seen' l"
    and old: "\<forall>l. l \<notin> fst ` set (op_writes d op) \<longrightarrow> m' l = m l \<and> seen' l = seen l"
  shows "staged_inv w d P m' seen' (push_op op st)"
proof -
  let ?L = "fst ` set (op_writes d op)"
  have away: "l \<notin> ?L" if "sr_seen seen l \<or> other_seen seen l" for l
    using that fresh not_seen by blast
  have files: "pf_path f \<notin> ?L" if f: "f \<in> set (st_files st)" for f
  proof -
    obtain idx where "idx < length (st_files st)" "f = st_files st ! idx" using f by (metis in_set_conv_nth)
    then show ?thesis using inv away unfolding staged_inv_def by blast
  qed
  have ops: "l \<notin> ?L" if "x \<in> set (st_ops st)" "l \<in> fst ` set (op_writes d x)" for x l
    using inv away that unfolding staged_inv_def by blast
  have "index_ok w P (push_op op st)" using inv by (simp add: staged_inv_def index_ok_def)
  moreover have "table_ok d m' (st_files st)"
    using inv old files unfolding staged_inv_def table_ok_def by metis
  moreover have "sr_seen seen' (pf_path (st_files st ! idx)) \<and> Some idx \<in> table_ref ` set (st_ops st)"
    if "idx < length (st_files st)" for idx
    using inv old files [of "st_files st ! idx"] that by (simp add: staged_inv_def sr_seen_def)
  moreover have "op_lands d m' (st_files st) x \<and> (\<forall>l \<in> fst ` set (op_writes d x). other_seen seen' l)"
    if x: "x \<in> set (st_ops st)" for x
  proof -
    have lands: "op_lands d m (st_files st) x" and os: "\<forall>l \<in> fst ` set (op_writes d x). other_seen seen l"
      using inv x unfolding staged_inv_def by blast+
    have same: "m' l = m l \<and> seen' l = seen l" if "l \<in> fst ` set (op_writes d x)" for l
      using old ops [OF x that] by blast
    have "\<forall>(l, c) \<in> set (op_writes d x). m' l = c"
      using lands same unfolding op_lands_def by force
    then show ?thesis using lands os same unfolding op_lands_def other_seen_def by auto
  qed
  moreover have "op_lands d m' (st_files st) op" using new(1) assms(2) by (simp add: op_lands_def)
  moreover have "\<forall>l. m' l = dk_files d l \<or> l \<in> pending d (st_files st) (st_ops st @ [op]) {}"
    using inv old unfolding pending_append staged_inv_def by (metis UnCI)
  ultimately show ?thesis using new(2) unfolding staged_inv_def by auto
qed

lemma staged_inv_seen:
  assumes "staged_inv w d P m seen st" "sr_seen seen' l" "\<not> other_seen seen l" "\<forall>x. x \<noteq> l \<longrightarrow> seen' x = seen x"
  shows "staged_inv w d P m seen' st"
proof -
  have "sr_seen seen x \<Longrightarrow> sr_seen seen' x" "other_seen seen x \<Longrightarrow> other_seen seen' x" for x
    using assms(2-4) by (cases "x = l"; auto simp: sr_seen_def other_seen_def)+
  then show ?thesis using assms(1) unfolding staged_inv_def by blast
qed

lemma staged_inv_again:
  assumes "staged_inv w d P m seen st" "idx < length (st_files st)"
  shows "staged_inv w d P m seen (push_op (StagedSearchReplace rel idx exact fallback) st)"
  using assms by (auto simp: staged_inv_def index_ok_def op_lands_def table_ref_def pending_append)

lemma staged_inv_set_current:
  assumes inv: "staged_inv w d P m seen st" and idx: "idx < length (st_files st)"
  shows "staged_inv w d P (m(pf_path (st_files st ! idx) \<mapsto> Text text)) seen (set_current idx text st)"
proof -
  let ?l = "pf_path (st_files st ! idx)"
  let ?fs = "(st_files st)[idx := (st_files st ! idx)\<lparr>pf_current := text\<rparr>]"
  have path: "pf_path (?fs ! i) = pf_path (st_files st ! i)" for i
    by (cases "i = idx") (use idx in simp_all)
  have paths: "map pf_path ?fs = map pf_path (st_files st)"
    by (rule nth_equalityI) (auto simp: path)
  have dist: "distinct (map pf_path (st_files st))" using inv by (simp add: staged_inv_def index_ok_def)
  have sr: "sr_seen seen ?l" using inv idx by (simp add: staged_inv_def)
  have "pf_path f \<in> P \<and> st_index st (relative_str w (pf_path f)) \<noteq> None" if "f \<in> set ?fs" for f
  proof -
    from that have "pf_path f \<in> set (map pf_path ?fs)" by force
    then obtain g where "g \<in> set (st_files st)" "pf_path g = pf_path f" unfolding paths by auto
    then show ?thesis using inv unfolding staged_inv_def index_ok_def by metis
  qed
  then have "index_ok w P (set_current idx text st)"
    using inv paths by (simp add: staged_inv_def index_ok_def set_current_def path)
  moreover have "table_ok d (m(?l \<mapsto> Text text)) ?fs"
    unfolding table_ok_def
  proof
    fix f assume "f \<in> set ?fs"
    then obtain i where i: "i < length (st_files st)" "f = ?fs ! i" by (metis in_set_conv_nth length_list_update)
    have old: "dk_resolve d (pf_path g) = Some (pf_path g)" "dk_files d (pf_path g) = Some (Text (pf_before g))"
        "m (pf_path g) = Some (Text (pf_current g))" if "g \<in> set (st_files st)" for g
      using inv that unfolding staged_inv_def table_ok_def by blast+
    show "dk_resolve d (pf_path f) = Some (pf_path f) \<and> dk_files d (pf_path f) = Some (Text (pf_before f))
        \<and> (m(?l \<mapsto> Text text)) (pf_path f) = Some (Text (pf_current f))"
    proof (cases "i = idx")
      case True
      then show ?thesis using old [of "st_files st ! idx"] idx i by simp
    next
      case False
      then have "pf_path (st_files st ! i) \<noteq> ?l"
        using dist i(1) idx by (auto simp: distinct_conv_nth)
      then show ?thesis using old [of "st_files st ! i"] i False by simp
    qed
  qed
  moreover have "op_lands d (m(?l \<mapsto> Text text)) ?fs x" if x: "x \<in> set (st_ops st)" for x
  proof -
    have lands: "op_lands d m (st_files st) x" and "\<forall>l \<in> fst ` set (op_writes d x). other_seen seen l"
      using inv x unfolding staged_inv_def by blast+
    then have "?l \<notin> fst ` set (op_writes d x)" using sr seen_kinds_disjoint by blast
    then show ?thesis using lands by (force simp: op_lands_def)
  qed
  moreover have "?l \<in> pending d (st_files st) (st_ops st) {}"
    using inv idx unfolding staged_inv_def pending_def by (force simp: image_iff)
  ultimately show ?thesis
    using inv unfolding staged_inv_def
    by (auto simp: set_current_def path pending_def)
qed

lemma mark_last_op_shape:
  "mark_last_op_inexact tag st = st \<or>
     (\<exists>ops rel idx exact fallback fallback'. st_ops st = ops @ [StagedSearchReplace rel idx exact fallback]
        \<and> mark_last_op_inexact tag st = st\<lparr>st_ops := ops @ [StagedSearchReplace rel idx False fallback']\<rparr>)"
proof (cases "rev (st_ops st)")
  case (Cons x xs)
  then have "st_ops st = rev xs @ [x]" by simp
  then show ?thesis by (cases x) (auto simp: mark_last_op_inexact_def)
qed (simp add: mark_last_op_inexact_def)

lemma staged_inv_mark:
  assumes "staged_inv w d P m seen st"
  shows "staged_inv w d P m seen (mark_last_op_inexact tag st)"
  using mark_last_op_shape [of tag st]
proof (elim disjE exE conjE)
  fix ops rel idx exact fallback fallback'
  assume ops: "st_ops st = ops @ [StagedSearchReplace rel idx exact fallback]"
    and eq: "mark_last_op_inexact tag st = st\<lparr>st_ops := ops @ [StagedSearchReplace rel idx False fallback']\<rparr>"
  show ?thesis unfolding eq using assms
    by (auto simp: staged_inv_def index_ok_def ops op_lands_def table_ref_def pending_append)
qed (use assms in simp)

lemma staged_inv_ensure:
  assumes inv: "staged_inv w d P m seen st" and ens: "ensure_search_replace w d (relative_str w l) l st = Some (idx, st')"
    and l: "dk_resolve d l = Some l" "l \<in> P" "inj_on (relative_str w) P"
    and seen: "sr_seen seen' l" "\<not> other_seen seen l" "\<forall>x. x \<noteq> l \<longrightarrow> seen' x = seen x"
  shows "staged_inv w d P m seen' st' \<and> idx < length (st_files st') \<and> pf_path (st_files st' ! idx) = l
    \<and> m l = Some (Text (pf_current (st_files st' ! idx)))"
proof (cases "st_index st (relative_str w l)")
  case (Some i)
  with ens have eq: "idx = i" "st' = push_op (StagedSearchReplace (relative_str w l) i True None) st"
    by (auto simp: ensure_search_replace_def)
  from inv Some have i: "i < length (st_files st)" "relative_str w (pf_path (st_files st ! i)) = relative_str w l"
    by (simp_all add: staged_inv_def index_ok_def)
  moreover have "pf_path (st_files st ! i) \<in> P"
    using inv i(1) by (simp add: staged_inv_def index_ok_def)
  ultimately have path: "pf_path (st_files st ! i) = l" using l(2,3) by (meson inj_onD)
  have "m l = Some (Text (pf_current (st_files st ! i)))"
    using inv i(1) path unfolding staged_inv_def table_ok_def by (metis nth_mem)
  then show ?thesis
    using staged_inv_seen [OF staged_inv_again [OF inv i(1)] seen] i(1) path by (simp add: eq)
next
  case None
  from ens None obtain before where was: "read_text d l = Some before" and eq: "idx = length (st_files st)"
    "st' = push_op (StagedSearchReplace (relative_str w l) idx True None)
       (st\<lparr>st_files := st_files st @ [\<lparr>pf_path = l, pf_rel = relative_str w l, pf_before = before, pf_current = before,
                            pf_before_sha = pw_sha w (Text before)\<rparr>],
           st_index := (st_index st)(relative_str w l \<mapsto> idx)\<rparr>)"
    by (auto simp: ensure_search_replace_def Let_def split: option.splits)
  have was_at: "dk_files d l = Some (Text before)"
    using was l(1) by (auto simp: read_text_def read_file_def split: option.splits file_content.splits)
  have fresh: "pf_path f \<noteq> l" if "f \<in> set (st_files st)" for f
    using inv that None unfolding staged_inv_def index_ok_def by metis
  have old: "x \<noteq> l" if "op \<in> set (st_ops st)" "x \<in> fst ` set (op_writes d op)" for op x
    using inv that seen(2) unfolding staged_inv_def by metis
  have refs: "idx' < length (st_files st)" if "op \<in> set (st_ops st)" "table_ref op = Some idx'" for op idx'
    using inv that unfolding staged_inv_def op_lands_def by blast
  have "l \<notin> pending d (st_files st) (st_ops st) {}"
    by (metis pendingE old refs fresh nth_mem)
  then have ml: "m l = Some (Text before)" using inv was_at unfolding staged_inv_def by metis
  have inv': "staged_inv w d P m seen' st" using staged_inv_seen [OF inv seen] .
  have "staged_inv w d P m seen' st'"
    unfolding staged_inv_def
  proof (intro conjI)
    show "index_ok w P st'"
      using inv fresh l(2) unfolding staged_inv_def index_ok_def eq
      by (auto simp: nth_append less_Suc_eq split: if_splits)
    show "table_ok d m (st_files st')"
      using inv l(1) was_at ml by (auto simp: staged_inv_def table_ok_def eq)
    show "\<forall>i < length (st_files st'). sr_seen seen' (pf_path (st_files st' ! i)) \<and> Some i \<in> table_ref ` set (st_ops st')"
      using inv' seen(1) by (auto simp: staged_inv_def eq nth_append table_ref_def less_Suc_eq)
    show "\<forall>op \<in> set (st_ops st'). op_lands d m (st_files st') op \<and> (\<forall>l \<in> fst ` set (op_writes d op). other_seen seen' l)"
      using inv' by (fastforce simp: staged_inv_def eq op_lands_def table_ref_def)
    show "\<forall>x. m x = dk_files d x \<or> x \<in> pending d (st_files st') (st_ops st') {}"
    proof
      fix x
      have "x \<in> pending d (st_files st') (st_ops st) {}" if "x \<in> pending d (st_files st) (st_ops st) {}"
        using that
      proof (elim pendingE)
        fix op idx
        assume op: "op \<in> set (st_ops st)" "table_ref op = Some idx" "x = pf_path (st_files st ! idx)"
        then have "x = pf_path (st_files st' ! idx)" using refs by (simp add: eq nth_append)
        then show ?thesis using pending_listed [OF op(1,2), of "st_files st'" d] by simp
      qed (auto simp: pending_def)
      then show "m x = dk_files d x \<or> x \<in> pending d (st_files st') (st_ops st') {}"
        using inv unfolding staged_inv_def by (auto simp: eq pending_append)
    qed
  qed
  then show ?thesis using ml by (simp add: eq)
qed

lemma fresh_place:
  assumes "staged_inv w d P m seen st" "seen l = None"
  shows "m l = dk_files d l"
proof (rule ccontr)
  assume "m l \<noteq> dk_files d l"
  then have "l \<in> pending d (st_files st) (st_ops st) {}" using assms(1) unfolding staged_inv_def by blast
  then have "other_seen seen l \<or> sr_seen seen l"
  proof (cases rule: pendingE)
    case (written op)
    then show ?thesis using assms(1) unfolding staged_inv_def by blast
  next
    case (listed op idx)
    then have "idx < length (st_files st)" using assms(1) unfolding staged_inv_def op_lands_def by blast
    then show ?thesis using assms(1) listed(3) unfolding staged_inv_def by blast
  qed
  with not_seen [of seen l] assms(2) show False by blast
qed

lemma one_endpoint:
  assumes "conflict_of_endpoints w d kind [e] seen = Inr seen'" "normalize_workspace_path_str e \<noteq> None"
  shows "(\<forall>x. x \<noteq> mutation_key d (joined w e) \<longrightarrow> seen' x = seen x)
    \<and> (if kind = SearchReplaceKind
       then sr_seen seen' (mutation_key d (joined w e)) \<and> \<not> other_seen seen (mutation_key d (joined w e))
       else seen (mutation_key d (joined w e)) = None \<and> other_seen seen' (mutation_key d (joined w e)))"
  using assms by (auto simp: sr_seen_def other_seen_def Let_def split: option.splits if_splits prod.splits)

lemma two_endpoints:
  assumes "conflict_of_endpoints w d MoveKind [e, f] seen = Inr seen'"
    and "normalize_workspace_path_str e \<noteq> None" "normalize_workspace_path_str f \<noteq> None"
  defines "k \<equiv> mutation_key d (joined w e)" and "k' \<equiv> mutation_key d (joined w f)"
  shows "seen k = None \<and> seen k' = None \<and> k \<noteq> k' \<and> other_seen seen' k \<and> other_seen seen' k'
    \<and> (\<forall>x. x \<noteq> k \<and> x \<noteq> k' \<longrightarrow> seen' x = seen x)"
  using assms(1-3) unfolding k_def k'_def
  by (auto simp: other_seen_def Let_def split: option.splits if_splits prod.splits)

lemma post_move_text_rel: "post_move_text post rel t = Inr t' \<Longrightarrow> post_move_text post rel' t = Inr t'"
  by (auto simp: post_move_text_def Let_def split: option.splits if_splits)

text \<open>Staging one operation is the specification's step.\<close>

lemma stage_search_replace_refines:
  assumes "stage_search_replace w dry path search replacement expected allow False st d = (Inr st', d')"
    and "disk_ok d" "inj_on (relative_str w) P" "normalize_workspace_path_str path \<noteq> None"
    and "\<forall>l. place w d path = Some l \<longrightarrow> l \<in> P" "staged_inv w d P m seen st"
    and "conflict_of_endpoints w d SearchReplaceKind [path] seen = Inr seen'"
  shows "d' = d \<and> (\<exists>l t t'. place w d path = Some l \<and> text_at m l = Some t
    \<and> edited_text (edit_text w search replacement allow t) = Some t'
    \<and> staged_inv w d P (m(l \<mapsto> Text t')) seen' st')"
proof -
  obtain l where l: "resolve_existing w d path = Inr l"
    using assms(1) by (auto simp: stage_search_replace_def split: if_splits sum.splits)
  obtain idx st1 where e: "ensure_search_replace w d (relative_str w l) l st = Some (idx, st1)"
    using assms(1) l by (auto simp: stage_search_replace_def Let_def split: if_splits option.splits)
  let ?t = "pf_current (st_files st1 ! idx)"
  obtain t' tag where t: "edit_text w search replacement allow ?t = Edited t' tag" "d' = d"
      "st' = (case tag of None \<Rightarrow> set_current idx t' st1
              | Some tag \<Rightarrow> mark_last_op_inexact (Some tag) (set_current idx t' st1))"
    using assms(1) l e
    by (auto simp: stage_search_replace_def Let_def split: if_splits option.splits edit_result.splits)
  from existing_place [OF assms(2) l] have p: "place w d path = Some l" "dk_resolve d l = Some l"
      "mutation_key d (joined w path) = l" by simp_all
  have "staged_inv w d P m seen' st1 \<and> idx < length (st_files st1) \<and> pf_path (st_files st1 ! idx) = l
    \<and> m l = Some (Text ?t)"
    using one_endpoint [OF assms(7,4)] assms(5) p
    by (intro staged_inv_ensure [OF assms(6) e p(2) _ assms(3)]) auto
  then have i: "staged_inv w d P m seen' st1" "idx < length (st_files st1)" "pf_path (st_files st1 ! idx) = l"
      "text_at m l = Some ?t"
    by (simp_all add: text_at_def)
  have "staged_inv w d P (m(l \<mapsto> Text t')) seen' (set_current idx t' st1)"
    using staged_inv_set_current [OF i(1,2), of t'] by (simp add: i(3))
  then have "staged_inv w d P (m(l \<mapsto> Text t')) seen' st'"
    unfolding t(3) by (auto split: option.split intro: staged_inv_mark)
  then show ?thesis using p(1) i(4) t(1,2) by (auto simp: edited_text_def)
qed

lemma stage_create_refines:
  assumes "stage_create w path contents absent st d = Inr st'"
    and "disk_ok d" "plain_root w" "normalize_workspace_path_str path \<noteq> None" "staged_inv w d P m seen st"
    and "conflict_of_endpoints w d CreateKind [path] seen = Inr seen'" "\<forall>op \<in> set (st_ops st'). op_named d op"
  shows "\<exists>l. place w d path = Some l \<and> (absent \<longrightarrow> m l = None)
    \<and> staged_inv w d P (m(l \<mapsto> Text contents)) seen' st'"
proof -
  obtain p where p: "resolve_for_write w d path = Inr p" "\<not> (absent \<and> path_exists d p)"
      "st' = push_op (StagedCreate (relative_str w p) p contents) st"
    using assms(1) by (auto simp: stage_create_def Let_def split: sum.splits if_splits)
  obtain l where l: "dk_resolve d p = Some l" using assms(7) p(3) by auto
  note at = write_place [OF assms(2,3) p(1) l]
  from one_endpoint [OF assms(6,4)] at
  have seen: "seen l = None" "other_seen seen' l" "\<forall>x. x \<noteq> l \<longrightarrow> seen' x = seen x" by simp_all
  have "absent \<Longrightarrow> dk_files d l = None"
    using p(2) l by (auto simp: path_exists_def canonicalize_def split: if_splits)
  moreover have "staged_inv w d P (m(l \<mapsto> Text contents)) seen' st'"
    unfolding p(3) by (rule staged_inv_push [OF assms(5)]) (use seen l in \<open>simp_all add: table_ref_def\<close>)
  ultimately show ?thesis using at fresh_place [OF assms(5) seen(1)] by auto
qed

lemma stage_delete_refines:
  assumes "stage_delete w path expected st d = Inr st'"
    and "disk_ok d" "normalize_workspace_path_str path \<noteq> None" "staged_inv w d P m seen st"
    and "conflict_of_endpoints w d DeleteKind [path] seen = Inr seen'"
  shows "\<exists>l. place w d path = Some l \<and> m l \<noteq> None \<and> staged_inv w d P (m(l := None)) seen' st'"
proof -
  obtain l existing where l: "resolve_existing w d path = Inr l" "read_file d l = Some existing"
      "st' = push_op (StagedDelete (relative_str w l) l (pw_sha w existing)
         (case existing of Text s \<Rightarrow> Some s | Binary _ \<Rightarrow> None)) st"
    using assms(1) by (auto simp: stage_delete_def Let_def split: sum.splits option.splits)
  note at = existing_place [OF assms(2) l(1)]
  from one_endpoint [OF assms(5,3)] at
  have seen: "seen l = None" "other_seen seen' l" "\<forall>x. x \<noteq> l \<longrightarrow> seen' x = seen x" by simp_all
  have "dk_files d l \<noteq> None" using l(2) at by (simp add: read_file_def)
  moreover have "staged_inv w d P (m(l := None)) seen' st'"
    unfolding l(3) by (rule staged_inv_push [OF assms(4)]) (use seen at in \<open>simp_all add: table_ref_def\<close>)
  ultimately show ?thesis using at fresh_place [OF assms(4) seen(1)] by auto
qed

lemma stage_move_refines:
  assumes "stage_move w from_path to_path expected post st d = Inr st'"
    and "disk_ok d" "plain_root w" "normalize_workspace_path_str from_path \<noteq> None"
      "normalize_workspace_path_str to_path \<noteq> None" "staged_inv w d P m seen st"
    and "conflict_of_endpoints w d MoveKind [from_path, to_path] seen = Inr seen'"
      "\<forall>op \<in> set (st_ops st'). op_named d op"
  shows "\<exists>l l' t t'. place w d from_path = Some l \<and> place w d to_path = Some l' \<and> text_at m l = Some t
    \<and> m l' = None \<and> post_move_text post [] t = Inr t'
    \<and> staged_inv w d P (m(l := None, l' \<mapsto> Text t')) seen' st'"
proof -
  obtain l p t t' where l: "resolve_existing w d from_path = Inr l" "resolve_for_write w d to_path = Inr p"
      "\<not> path_exists d p" "read_text d l = Some t" "post_move_text post (relative_str w l) t = Inr t'"
      "st' = push_op (StagedMove (relative_str w l) l (relative_str w p) p t t' (pw_sha w (Text t))) st"
    using assms(1) by (auto simp: stage_move_def Let_def split: sum.splits option.splits if_splits)
  obtain l' where l': "dk_resolve d p = Some l'" using assms(8) l(6) by auto
  note at = existing_place [OF assms(2) l(1)] and at' = write_place [OF assms(2,3) l(2) l']
  from two_endpoints [OF assms(7,4,5)] at at'
  have seen: "seen l = None" "seen l' = None" "l \<noteq> l'" "other_seen seen' l" "other_seen seen' l'"
      "\<forall>x. x \<noteq> l \<and> x \<noteq> l' \<longrightarrow> seen' x = seen x" by simp_all
  have "text_at (dk_files d) l = Some t"
    using l(4) at by (simp add: read_text_def read_file_def text_at_def)
  moreover have "dk_files d l' = None"
    using l(3) l' by (auto simp: path_exists_def canonicalize_def split: if_splits)
  moreover have "staged_inv w d P (m(l := None, l' \<mapsto> Text t')) seen' st'"
    unfolding l(6) by (rule staged_inv_push [OF assms(6)]) (use seen at l' in \<open>simp_all add: table_ref_def\<close>)
  ultimately show ?thesis
    using at at' post_move_text_rel [OF l(5)] fresh_place [OF assms(6) seen(1)] fresh_place [OF assms(6) seen(2)]
    by (auto simp: text_at_def)
qed

lemma mark_last_op_keeps:
  "x \<in> set (st_ops st) \<Longrightarrow> table_ref x = None \<Longrightarrow> x \<in> set (st_ops (mark_last_op_inexact tag st))"
  using mark_last_op_shape [of tag st] by (auto simp: table_ref_def)

lemma ensure_keeps:
  "ensure_search_replace w d rel p st = Some (idx, st') \<Longrightarrow> x \<in> set (st_ops st) \<Longrightarrow> x \<in> set (st_ops st')"
  by (auto simp: ensure_search_replace_def Let_def split: option.splits)

lemma set_current_ops [simp]: "st_ops (set_current idx t st) = st_ops st"
  by (simp add: set_current_def)

lemma unified_diff_shape:
  "unified_diff_fallback w dry rel p diff idx st d = (Inr st', d') \<Longrightarrow>
     (\<exists>tag. st' = mark_last_op_inexact tag st) \<or> (\<exists>t tag. st' = mark_last_op_inexact tag (set_current idx t st))"
  by (auto simp: unified_diff_fallback_def Let_def split: prod.splits sum.splits bool.splits if_splits option.splits)

lemma stage_op_keeps:
  assumes "stage_apply_patch_op w dry op st d = (Inr st', d')" "x \<in> set (st_ops st)" "table_ref x = None"
  shows "x \<in> set (st_ops st')"
proof (cases op)
  case (SearchReplace path search replacement expected allow unified)
  with assms(1) have run: "stage_search_replace w dry path search replacement expected (unwrap_or allow False) unified st d
      = (Inr st', d')" by simp
  obtain p where p: "resolve_existing w d path = Inr p"
    using run by (auto simp: stage_search_replace_def split: if_splits sum.splits)
  obtain idx st1 where e: "ensure_search_replace w d (relative_str w p) p st = Some (idx, st1)"
    using run p by (auto simp: stage_search_replace_def Let_def split: if_splits option.splits)
  have st': "\<exists>t tag. st' \<in> {set_current idx t st1, mark_last_op_inexact tag (set_current idx t st1), mark_last_op_inexact tag st1}"
    using run p e
    by (auto simp: stage_search_replace_def Let_def
        split: if_splits option.splits edit_result.splits dest!: unified_diff_shape)
  have "x \<in> set (st_ops st1)" using ensure_keeps [OF e assms(2)] .
  with st' assms(3) show ?thesis by (auto intro: mark_last_op_keeps)
next
  case (CreateFile path contents absent)
  then show ?thesis using assms by (auto simp: stage_create_def Let_def split: sum.splits if_splits)
next
  case (DeleteFile path expected)
  then show ?thesis using assms by (auto simp: stage_delete_def Let_def split: sum.splits option.splits)
next
  case (MoveFile from_path to_path expected post)
  then show ?thesis using assms
    by (auto simp: stage_move_def Let_def split: sum.splits option.splits if_splits)
qed

lemma stage_all_keeps:
  "stage_all w dry ops st d = (Inr st', d') \<Longrightarrow> x \<in> set (st_ops st) \<Longrightarrow> table_ref x = None \<Longrightarrow> x \<in> set (st_ops st')"
  by (induction ops arbitrary: st d) (auto split: prod.splits sum.splits dest: stage_op_keeps)

lemma table_ref_named: "table_ref x \<noteq> None \<Longrightarrow> op_named d x"
  by (cases x) (auto simp: table_ref_def)

lemma stage_op_refines:
  assumes "stage_apply_patch_op w dry op st d = (Inr st', d')" "\<not> uses_git op"
    and "disk_ok d" "plain_root w" "inj_on (relative_str w) P" "staged_inv w d P m seen st"
    and "\<forall>p \<in> set (apply_patch_op_paths op). normalize_workspace_path_str p \<noteq> None \<and> (\<forall>l. place w d p = Some l \<longrightarrow> l \<in> P)"
    and "conflict_of_endpoints w d (apply_patch_op_kind op) (apply_patch_op_paths op) seen = Inr seen'"
    and "\<forall>x \<in> set (st_ops st'). op_named d x"
  shows "d' = d \<and> (\<exists>m'. spec_op w d op m = Some m' \<and> staged_inv w d P m' seen' st')"
proof (cases op)
  case (SearchReplace path search replacement expected allow unified)
  have "d' = d \<and> (\<exists>l t t'. place w d path = Some l \<and> text_at m l = Some t
    \<and> edited_text (edit_text w search replacement (unwrap_or allow False) t) = Some t'
    \<and> staged_inv w d P (m(l \<mapsto> Text t')) seen' st')"
    by (rule stage_search_replace_refines [where seen = seen]) (use assms SearchReplace in simp_all)
  then show ?thesis using SearchReplace by auto
next
  case (CreateFile path contents absent)
  with assms(1) have run: "stage_create w path contents (unwrap_or absent True) st d = Inr st'" by auto
  have "\<exists>l. place w d path = Some l \<and> (unwrap_or absent True \<longrightarrow> m l = None)
    \<and> staged_inv w d P (m(l \<mapsto> Text contents)) seen' st'"
    by (rule stage_create_refines [OF run assms(3,4) _ assms(6) _ assms(9)]) (use assms(7,8) CreateFile in simp_all)
  then show ?thesis using CreateFile assms(1) by auto
next
  case (DeleteFile path expected)
  with assms(1) have run: "stage_delete w path expected st d = Inr st'" by auto
  have "\<exists>l. place w d path = Some l \<and> m l \<noteq> None \<and> staged_inv w d P (m(l := None)) seen' st'"
    by (rule stage_delete_refines [OF run assms(3) _ assms(6)]) (use assms(7,8) DeleteFile in simp_all)
  then show ?thesis using DeleteFile assms(1) by auto
next
  case (MoveFile from_path to_path expected post)
  with assms(1) have run: "stage_move w from_path to_path expected post st d = Inr st'" by auto
  have "\<exists>l l' t t'. place w d from_path = Some l \<and> place w d to_path = Some l' \<and> text_at m l = Some t
    \<and> m l' = None \<and> post_move_text post [] t = Inr t'
    \<and> staged_inv w d P (m(l := None, l' \<mapsto> Text t')) seen' st'"
    by (rule stage_move_refines [OF run assms(3,4) _ _ assms(6) _ assms(9)]) (use assms(7,8) MoveFile in simp_all)
  then show ?thesis using MoveFile assms(1) by auto
qed

lemma stage_all_refines:
  assumes "stage_all w dry ops st d = (Inr st', d')" "conflict_from w d ops seen = None"
    and "disk_ok d" "plain_root w" "inj_on (relative_str w) P" "staged_inv w d P m seen st"
    and "\<forall>op \<in> set ops. \<not> uses_git op"
    and "\<forall>p \<in> set (touched_paths ops). normalize_workspace_path_str p \<noteq> None \<and> (\<forall>l. place w d p = Some l \<longrightarrow> l \<in> P)"
    and "\<forall>x \<in> set (st_ops st'). op_named d x"
  shows "d' = d \<and> (\<exists>m' seen'. spec_all w d ops m = Some m' \<and> staged_inv w d P m' seen' st')"
  using assms(1,2,6-8)
proof (induction ops arbitrary: st seen m)
  case (Cons op ops)
  obtain seen1 where c: "conflict_of_endpoints w d (apply_patch_op_kind op) (apply_patch_op_paths op) seen = Inr seen1"
      "conflict_from w d ops seen1 = None"
    using Cons.prems(2) by (auto split: sum.splits)
  obtain st1 d1 where r: "stage_apply_patch_op w dry op st d = (Inr st1, d1)" "stage_all w dry ops st1 d1 = (Inr st', d')"
    using Cons.prems(1) by (auto split: prod.splits sum.splits)
  have named: "\<forall>x \<in> set (st_ops st1). op_named d x"
    using stage_all_keeps [OF r(2)] assms(9) table_ref_named by blast
  have "d1 = d \<and> (\<exists>m'. spec_op w d op m = Some m' \<and> staged_inv w d P m' seen1 st1)"
    by (rule stage_op_refines [OF r(1) _ assms(3-5) Cons.prems(3) _ c(1) named])
      (use Cons.prems(4,5) in \<open>auto simp: touched_paths_def\<close>)
  then obtain m1 where m1: "d1 = d" "spec_op w d op m = Some m1" "staged_inv w d P m1 seen1 st1" by blast
  from r(2) m1(1) have "stage_all w dry ops st1 d = (Inr st', d')" by simp
  moreover have "\<forall>p \<in> set (touched_paths ops). normalize_workspace_path_str p \<noteq> None \<and> (\<forall>l. place w d p = Some l \<longrightarrow> l \<in> P)"
    using Cons.prems(5) by (auto simp: touched_paths_def)
  ultimately have "d' = d \<and> (\<exists>m' seen'. spec_all w d ops m1 = Some m' \<and> staged_inv w d P m' seen' st')"
    using Cons.prems(4) by (intro Cons.IH [OF _ c(2) m1(3)]) simp_all
  then show ?case using m1(2) by simp
qed auto

lemma commit_ops_frame:
  "commit_ops w files ops written d = (delta, failure, d') \<Longrightarrow> dk_resolve d' = dk_resolve d \<and> dk_is_dir d' = dk_is_dir d"
proof (induction ops arbitrary: written d delta)
  case (Cons op ops)
  then show ?case
    by (auto split: prod.splits option.splits dest!: apply_staged_op_resolve Cons.IH)
qed simp

lemma staged_inv_empty: "staged_inv w d P (dk_files d) Map.empty empty_staged"
  by (simp add: staged_inv_def empty_staged_def index_ok_def table_ok_def pending_def)

text \<open>Staging without the unified-diff fallback, or as a dry run with a \<open>git apply --check\<close> that changes nothing, is
  pure.\<close>

lemma stage_op_disk:
  assumes "stage_apply_patch_op w dry op st d = (res, d')"
    and "\<not> uses_git op \<or> (dry \<and> (\<forall>diff. snd (pw_git w True diff d) = d))"
  shows "d' = d"
proof (cases op)
  case (SearchReplace path search replacement expected allow unified)
  have "snd (unified_diff_fallback w dry rel p diff idx st1 d) = d" if "unified" for rel p diff idx st1
    using assms(2) that SearchReplace
    by (auto simp: unified_diff_fallback_def Let_def split: prod.split sum.split bool.split)
      (metis snd_conv)+
  then show ?thesis using assms(1) SearchReplace
    by (auto simp: stage_search_replace_def Let_def prod_eq_iff
        split: if_splits sum.splits option.splits edit_result.splits)
qed (use assms in auto)

lemma stage_all_disk:
  assumes "stage_all w dry ops st d = (res, d')"
    and "(\<forall>op \<in> set ops. \<not> uses_git op) \<or> (dry \<and> (\<forall>diff. snd (pw_git w True diff d) = d))"
  shows "d' = d"
  using assms
proof (induction ops arbitrary: st)
  case (Cons op ops)
  obtain res1 d1 where r: "stage_apply_patch_op w dry op st d = (res1, d1)" by fastforce
  then have "d1 = d" using stage_op_disk [OF r] Cons.prems(2) by auto
  with r Cons.prems Cons.IH show ?case by (auto split: sum.splits)
qed simp

lemma stage_and_commit_refines:
  assumes "stage_and_commit w False ops d = (Some r, d')" "rp_error r = None"
    and "detect_apply_patch_path_conflict w d ops = None" "disk_ok d" "plain_root w"
    and "\<forall>op \<in> set ops. \<not> uses_git op" "\<forall>p \<in> set (touched_paths ops). normalize_workspace_path_str p \<noteq> None"
    and "inj_on (relative_str w) {l. \<exists>p \<in> set (touched_paths ops). place w d p = Some l}"
  shows "\<exists>m. spec_all w d ops (dk_files d) = Some m \<and> d' = d\<lparr>dk_files := m\<rparr>"
proof -
  let ?P = "{l. \<exists>p \<in> set (touched_paths ops). place w d p = Some l}"
  obtain st d1 delta where st: "stage_all w False ops empty_staged d = (Inr st, d1)"
      and commit: "commit_ops w (st_files st) (st_ops st) {} d1 = (delta, None, d')"
    using assms(1,2)
    by (auto simp: stage_and_commit_def error_report_def commit_report_def Let_def
        split: option.splits prod.splits sum.splits stage_failure.splits)
  have d1: "d1 = d" using stage_all_disk [OF st] assms(6) by blast
  have named: "\<forall>x \<in> set (st_ops st). op_named d x" using commit_ops_named [OF commit] d1 by simp
  have touched: "\<forall>p \<in> set (touched_paths ops). normalize_workspace_path_str p \<noteq> None
      \<and> (\<forall>l. place w d p = Some l \<longrightarrow> l \<in> ?P)"
    using assms(7) by blast
  have conflict: "conflict_from w d ops Map.empty = None"
    using assms(3) by (simp add: detect_apply_patch_path_conflict_def)
  obtain m seen where m: "spec_all w d ops (dk_files d) = Some m" and inv: "staged_inv w d ?P m seen st"
    using stage_all_refines [OF st conflict assms(4,5,8) staged_inv_empty assms(6) touched named] by blast
  have "dk_files d' = m"
  proof (rule commit_reaches_target [OF commit, of d])
    show "\<forall>op \<in> set (st_ops st). op_lands d m (st_files st) op" "table_ok d m (st_files st)"
      using inv by (simp_all add: staged_inv_def)
    show "\<forall>l. dk_files d1 l = m l \<or> (dk_files d1 l = dk_files d l \<and> l \<in> pending d (st_files st) (st_ops st) {})"
      using inv unfolding d1 staged_inv_def by metis
  qed (simp add: d1)
  then show ?thesis using m commit_ops_frame [OF commit] d1 by auto
qed

section \<open>Which places a call can change\<close>

definition reaches :: "patch_world \<Rightarrow> disk \<Rightarrow> str set \<Rightarrow> path_buf \<Rightarrow> bool" where
  "reaches w d T p \<longleftrightarrow> (\<forall>l. dk_resolve d p = Some l \<longrightarrow> inside w l \<and> (\<exists>path \<in> T. place w d path = Some l))"

definition staged_within :: "patch_world \<Rightarrow> disk \<Rightarrow> str set \<Rightarrow> staged_apply \<Rightarrow> bool" where
  "staged_within w d T st \<longleftrightarrow>
     (\<forall>f \<in> set (st_files st). reaches w d T (pf_path f))
     \<and> (\<forall>op \<in> set (st_ops st). \<forall>p \<in> set (op_changed_abs_paths [] op). reaches w d T p)
     \<and> (\<forall>op \<in> set (st_ops st). \<forall>idx. table_ref op = Some idx \<longrightarrow> idx < length (st_files st))
     \<and> (\<forall>rel idx. st_index st rel = Some idx \<longrightarrow> idx < length (st_files st))"

lemma resolve_existing_reaches:
  assumes "disk_ok d" "resolve_existing w d path = Inr p" "path \<in> T"
  shows "reaches w d T p"
  using existing_place [OF assms(1,2)] assms(3) by (auto simp: reaches_def)

lemma resolve_for_write_reaches:
  assumes "disk_ok d" "plain_root w" "resolve_for_write w d path = Inr p" "path \<in> T"
  shows "reaches w d T p"
  using write_place [OF assms(1-3)] assms(4) by (auto simp: reaches_def)

lemma staged_within_push:
  "staged_within w d T st \<Longrightarrow> table_ref op = None \<Longrightarrow> (\<And>p. p \<in> set (op_changed_abs_paths [] op) \<Longrightarrow> reaches w d T p)
     \<Longrightarrow> staged_within w d T (push_op op st)"
  by (auto simp: staged_within_def)

lemma staged_within_ensure:
  assumes "staged_within w d T st" "ensure_search_replace w d rel p st = Some (idx, st')" "reaches w d T p"
  shows "staged_within w d T st' \<and> idx < length (st_files st')"
  using assms
  by (auto simp: ensure_search_replace_def staged_within_def table_ref_def Let_def less_Suc_eq
      split: option.splits if_splits)

lemma staged_within_set_current:
  assumes "staged_within w d T st" "idx < length (st_files st)"
  shows "staged_within w d T (set_current idx t st)"
  using assms by (auto simp: staged_within_def set_current_def dest!: in_set_conv_nth [THEN iffD1] subsetD [OF set_update_subset_insert])

lemma staged_within_mark: "staged_within w d T st \<Longrightarrow> staged_within w d T (mark_last_op_inexact tag st)"
  using mark_last_op_shape [of tag st] by (auto simp: staged_within_def table_ref_def)

lemma stage_op_within:
  assumes "stage_apply_patch_op w dry op st d = (Inr st', d')" "\<not> uses_git op"
    and "disk_ok d" "plain_root w" "set (apply_patch_op_paths op) \<subseteq> T" "staged_within w d T st"
  shows "staged_within w d T st'"
proof (cases op)
  case (SearchReplace path search replacement expected allow unified)
  with assms(1,2) have run: "stage_search_replace w dry path search replacement expected (unwrap_or allow False) False st d
      = (Inr st', d')" by simp
  obtain p where p: "resolve_existing w d path = Inr p"
    using run by (auto simp: stage_search_replace_def split: if_splits sum.splits)
  obtain idx st1 where e: "ensure_search_replace w d (relative_str w p) p st = Some (idx, st1)"
    using run p by (auto simp: stage_search_replace_def Let_def split: if_splits option.splits)
  have st': "\<exists>t tag. st' \<in> {set_current idx t st1, mark_last_op_inexact tag (set_current idx t st1)}"
    using run p e
    by (auto simp: stage_search_replace_def Let_def split: if_splits option.splits edit_result.splits)
  have "reaches w d T p" using resolve_existing_reaches [OF assms(3) p] assms(5) SearchReplace by simp
  with st' staged_within_ensure [OF assms(6) e] show ?thesis
    by (auto intro: staged_within_mark staged_within_set_current)
next
  case (CreateFile path contents absent)
  with assms(1) obtain p where p: "resolve_for_write w d path = Inr p"
      "st' = push_op (StagedCreate (relative_str w p) p contents) st"
    by (auto simp: stage_create_def Let_def split: sum.splits if_splits)
  from resolve_for_write_reaches [OF assms(3,4) p(1)] assms(5) CreateFile show ?thesis
    unfolding p(2) by (intro staged_within_push [OF assms(6)]) (auto simp: table_ref_def)
next
  case (DeleteFile path expected)
  with assms(1) obtain p sha before where p: "resolve_existing w d path = Inr p"
      "st' = push_op (StagedDelete (relative_str w p) p sha before) st"
    by (auto simp: stage_delete_def Let_def split: sum.splits option.splits)
  from resolve_existing_reaches [OF assms(3) p(1)] assms(5) DeleteFile show ?thesis
    unfolding p(2) by (intro staged_within_push [OF assms(6)]) (auto simp: table_ref_def)
next
  case (MoveFile from_path to_path expected post)
  with assms(1) obtain p p' t t' sha where p: "resolve_existing w d from_path = Inr p" "resolve_for_write w d to_path = Inr p'"
      "st' = push_op (StagedMove (relative_str w p) p (relative_str w p') p' t t' sha) st"
    by (auto simp: stage_move_def Let_def split: sum.splits option.splits if_splits)
  from resolve_existing_reaches [OF assms(3) p(1)] resolve_for_write_reaches [OF assms(3,4) p(2)] assms(5) MoveFile
  show ?thesis
    unfolding p(3) by (intro staged_within_push [OF assms(6)]) (auto simp: table_ref_def)
qed

lemma stage_all_within:
  assumes "stage_all w dry ops st d = (Inr st', d')" "\<forall>op \<in> set ops. \<not> uses_git op"
    and "disk_ok d" "plain_root w" "set (touched_paths ops) \<subseteq> T" "staged_within w d T st"
  shows "staged_within w d T st'"
  using assms(1,2,5,6)
proof (induction ops arbitrary: st)
  case (Cons op ops)
  obtain st1 d1 where r: "stage_apply_patch_op w dry op st d = (Inr st1, d1)" "stage_all w dry ops st1 d1 = (Inr st', d')"
    using Cons.prems(1) by (auto split: prod.splits sum.splits)
  have "d1 = d" using stage_op_disk [OF r(1)] Cons.prems(2) by simp
  moreover have "staged_within w d T st1"
    by (rule stage_op_within [OF r(1) _ assms(3,4)]) (use Cons.prems in \<open>auto simp: touched_paths_def\<close>)
  ultimately show ?case using Cons.IH [of st1] Cons.prems(2,3) r(2) by (auto simp: touched_paths_def)
qed simp

lemma apply_staged_op_changes:
  assumes "apply_staged_op w files op written d = (e, written', d')" "dk_files d' l \<noteq> dk_files d l"
  shows "\<exists>p. dk_resolve d p = Some l
    \<and> (p \<in> set (op_changed_abs_paths [] op) \<or> (\<exists>idx. table_ref op = Some idx \<and> p = pf_path (files ! idx)))"
  using assms
  by (cases op)
    (auto simp: write_atomic_def remove_file_def table_ref_def Let_def
      split: option.splits if_splits prod.splits)

lemma commit_ops_changes:
  assumes "commit_ops w files ops written d = (delta, failure, d')" "dk_files d' l \<noteq> dk_files d l"
  shows "\<exists>p. dk_resolve d p = Some l
    \<and> (\<exists>op \<in> set ops. p \<in> set (op_changed_abs_paths [] op) \<or> (\<exists>idx. table_ref op = Some idx \<and> p = pf_path (files ! idx)))"
  using assms
proof (induction ops arbitrary: written d delta)
  case (Cons op ops)
  obtain e written1 d1 where 1: "apply_staged_op w files op written d = (e, written1, d1)" by (metis prod_cases3)
  have same: "dk_resolve d1 = dk_resolve d" using apply_staged_op_resolve [OF 1] by simp
  show ?case
  proof (cases "dk_files d1 l = dk_files d l")
    case True
    with Cons.prems 1 obtain delta1 where "commit_ops w files ops written1 d1 = (delta1, failure, d')"
      by (auto split: option.splits prod.splits)
    from Cons.IH [OF this] Cons.prems(2) True same show ?thesis by auto
  next
    case False
    from apply_staged_op_changes [OF 1 False] show ?thesis by (metis list.set_intros(1))
  qed
qed simp

end
