(* ===== verification/PatchSafety.thy ===== *)
theory PatchSafety
  imports PatchSpec
begin

text \<open>
  The properties of \<open>apply_patch\<close>: refinement of the sequential specification, no effect without a commit, the
  places a call can change, the plan binding; and what goes wrong in the unified-diff fallback, in the delta
  of a partly failed commit and in the Unicode fallback.
\<close>

lemma error_report_simps [simp]: "rp_error (error_report e) = Some e" "rp_delta (error_report e) = []"
  by (simp_all add: error_report_def)

lemma report_success: "report_status r = ToolSuccess \<longleftrightarrow> rp_error r = None"
proof -
  have "patch_error_status e \<noteq> ToolSuccess" for e by (cases e) simp_all
  then show ?thesis by (simp add: report_status_def split: option.split)
qed

text \<open>A call that gets past the checks.\<close>

lemma execute_cases:
  assumes "execute_apply_patch w now args plans d = (r, plans', d')"
  obtains (refused) e where "r = Some (error_report e)" "d' = d"
  | (run) ops where "patch_operations args = Inr ops" "patch_refusal w now args ops plans d = (None, plans')"
      "stage_and_commit w (unwrap_or (pa_dry_run args) False) ops d = (r, d')"
  using assms by (auto simp: execute_apply_patch_def Let_def split: sum.splits prod.splits option.splits)

lemma patch_refusal_None:
  assumes "patch_refusal w now args ops plans d = (None, plans')"
  shows "detect_apply_patch_path_conflict w d ops = None"
    "\<forall>p \<in> set (touched_paths ops). \<not> is_notebook_path p \<and> path_refusal w p = None"
    "plan_violation now args (normalized_path_set (touched_paths ops)) plans = (None, plans')"
  using assms
  by (auto simp: patch_refusal_def first_some_None_iff find_None_iff split: option.splits prod.splits)

section \<open>A small workspace\<close>

definition place_of :: "string \<Rightarrow> path_buf" where
  "place_of name = [RootDir, Normal (lit ''w''), Normal (lit name)]"

definition demo_disk :: disk where
  "demo_disk = plain_disk [place_of ''a'' \<mapsto> Text (lit ''one''), place_of ''b'' \<mapsto> Text (lit ''two'')]
     (\<lambda>p. p = [RootDir] \<or> p = [RootDir, Normal (lit ''w'')])"

text \<open>A world whose hash is the text and whose \<open>git apply\<close> does what \<open>git\<close> says.\<close>

definition demo_world :: "(bool \<Rightarrow> str \<Rightarrow> disk \<Rightarrow> (str + bool) \<times> disk) \<Rightarrow> patch_world" where
  "demo_world git =
     \<lparr>pw_root = lit ''/w'', pw_sandbox = default_sandbox,
      pw_sha = (\<lambda>c. case c of Text s \<Rightarrow> s | Binary b \<Rightarrow> b),
      pw_seen = (\<lambda>rel. if rel = lit ''a'' then Some (lit ''one'', []) else if rel = lit ''b'' then Some (lit ''two'', []) else None),
      pw_nfkc = (\<lambda>c. if c = 189 then [49, 8260, 50] else [c]), pw_alphabetic = (\<lambda>c. 128 \<le> c),
      pw_outside_grant = False, pw_git = git, pw_checkpoint_error = None,
      pw_write_error = (\<lambda>_. None), pw_remove_error = (\<lambda>_. None)\<rparr>"

definition no_git :: "bool \<Rightarrow> str \<Rightarrow> disk \<Rightarrow> (str + bool) \<times> disk" where
  "no_git check diff d = (Inr False, d)"

definition call_args :: "apply_patch_operation list \<Rightarrow> apply_patch_args" where
  "call_args ops = \<lparr>pa_patches = [], pa_operations = ops, pa_plan_id = None, pa_dry_run = None, pa_confirm_outside_plan = False\<rparr>"

definition edit :: "string \<Rightarrow> string \<Rightarrow> string \<Rightarrow> apply_patch_operation" where
  "edit path search replacement = SearchReplace (lit path) (lit search) (lit replacement) None None False"

definition demo_ops :: "apply_patch_operation list" where
  "demo_ops = [edit ''a'' ''one'' ''ten'', CreateFile (lit ''c'') (lit ''new'') None, edit ''a'' ''ten'' ''six'',
     MoveFile (lit ''b'') (lit ''e'') None None]"

lemma demo_disk_ok: "disk_ok demo_disk"
  unfolding demo_disk_def by (rule plain_disk_ok) (auto simp: place_of_def Cons_eq_append_conv)

lemma demo_root: "plain_root (demo_world git)"
  by (simp add: plain_root_def demo_world_def) code_simp

section \<open>Refinement\<close>



text \<open>The result of the example, computed.\<close>

lemma demo_result:
  "map (dk_files (snd (snd (execute_apply_patch (demo_world no_git) 0 (call_args demo_ops) Map.empty demo_disk))))
     [place_of ''a'', place_of ''b'', place_of ''c'', place_of ''e'']
   = [Some (Text (lit ''six'')), None, Some (Text (lit ''new'')), Some (Text (lit ''two''))]"
  by code_simp

section \<open>No effect without a commit, and contained effects\<close>

text \<open>A call that reports no operation as applied, failed or skipped, because it was refused, staging failed
  or it was a dry run, leaves the disk as it was.  Without the unified-diff fallback this needs nothing; with
  it, only dry runs are covered, and \<open>git apply --check\<close> has to change nothing.\<close>

theorem no_commit_no_effect:
  assumes "execute_apply_patch w now args plans d = (r, plans', d')"
    and "\<forall>rp. r = Some rp \<longrightarrow> rp_dry_run rp \<or> rp_delta rp = []"
    and "\<forall>ops. patch_operations args = Inr ops \<longrightarrow> (\<forall>op \<in> set ops. \<not> uses_git op)
           \<or> (unwrap_or (pa_dry_run args) False \<and> (\<forall>diff. snd (pw_git w True diff d) = d))"
  shows "d' = d"
  using assms(1)
proof (cases rule: execute_cases)
  case (run ops)
  let ?dry = "unwrap_or (pa_dry_run args) False"
  have pure: "d1 = d" if "stage_all w ?dry ops empty_staged d = (res, d1)" for res d1
    using stage_all_disk [OF that] assms(3) run(1) by blast
  show ?thesis
  proof (cases "\<exists>st d1. stage_all w ?dry ops empty_staged d = (Inr st, d1) \<and> \<not> ?dry \<and> pw_checkpoint_error w = None")
    case False
    then show ?thesis using run(3) pure
      by (auto simp: stage_and_commit_def split: option.splits prod.splits sum.splits stage_failure.splits if_splits)
  next
    case True
    then obtain st where st: "stage_all w False ops empty_staged d = (Inr st, d)" "\<not> ?dry" "pw_checkpoint_error w = None"
      using pure by auto
    obtain delta failure d2 where c: "commit_ops w (st_files st) (st_ops st) {} d = (delta, failure, d2)"
      by (metis prod_cases3)
    then have "r = Some (commit_report st delta failure)" "d' = d2"
      using run(3) st by (simp_all add: stage_and_commit_def)
    then have "delta = []" using assms(2) by (simp add: commit_report_def)
    with c have "st_ops st = []" by (cases "st_ops st") (auto split: prod.splits option.splits)
    with c \<open>d' = d2\<close> show ?thesis by simp
  qed
qed simp

lemma no_commit_no_effect_witness:
  "snd (snd (execute_apply_patch (demo_world no_git) 0
     (call_args [edit ''a'' ''one'' ''ten'', DeleteFile (lit ''missing'') None]) Map.empty demo_disk)) = demo_disk"
proof -
  let ?args = "call_args [edit ''a'' ''one'' ''ten'', DeleteFile (lit ''missing'') None]"
  let ?run = "execute_apply_patch (demo_world no_git) 0 ?args Map.empty demo_disk"
  obtain r plans' d' where run: "?run = (r, plans', d')" by (metis prod_cases3)
  have "map_option rp_delta (fst ?run) = Some []" by code_simp
  then have "\<forall>rp. r = Some rp \<longrightarrow> rp_dry_run rp \<or> rp_delta rp = []" unfolding run by auto
  moreover have "case patch_operations ?args of Inl e \<Rightarrow> True | Inr ops \<Rightarrow> list_all (\<lambda>op. \<not> uses_git op) ops" by code_simp
  ultimately have "d' = demo_disk"
    by (intro no_commit_no_effect [OF run]) (auto simp: list_all_iff split: sum.splits)
  then show ?thesis unfolding run by simp
qed



section \<open>Plan binding\<close>

lemma stale_report:
  "plan_violation now args (normalized_path_set (touched_paths ops)) plans = (Some e, plans')
     \<Longrightarrow> \<exists>e. patch_refusal w now args ops plans d = (Some e, plans') \<or> patch_refusal w now args ops plans d = (Some e, plans)"
  by (auto simp: patch_refusal_def split: option.splits)

lemma execute_refused:
  "patch_operations args = Inr ops \<Longrightarrow> patch_refusal w now args ops plans d = (Some e, plans')
     \<Longrightarrow> execute_apply_patch w now args plans d = (Some (error_report e), plans', d)"
  by (simp add: execute_apply_patch_def)

lemma no_plan_same_call:
  assumes "fst (plan_violation now args (normalized_path_set (touched_paths ops)) plans) = None"
    and "patch_operations args = Inr ops"
  shows "fst (execute_apply_patch w now args plans d) = fst (execute_apply_patch w now (args\<lparr>pa_plan_id := None\<rparr>) plans d)
    \<and> snd (snd (execute_apply_patch w now args plans d)) = snd (snd (execute_apply_patch w now (args\<lparr>pa_plan_id := None\<rparr>) plans d))"
proof -
  have "patch_operations (args\<lparr>pa_plan_id := None\<rparr>) = patch_operations args" by (simp add: patch_operations_def)
  with assms(2) have ops: "patch_operations (args\<lparr>pa_plan_id := None\<rparr>) = Inr ops" by simp
  obtain plans1 where v: "plan_violation now args (normalized_path_set (touched_paths ops)) plans = (None, plans1)"
    using assms(1) by (metis prod.collapse)
  have v': "plan_violation now (args\<lparr>pa_plan_id := None\<rparr>) (normalized_path_set (touched_paths ops)) plans = (None, plans)"
    by (simp add: plan_violation_def)
  show ?thesis
    by (simp add: execute_apply_patch_def assms(2) ops patch_refusal_def v v'
        split: option.split prod.split)
qed

text \<open>The plan binding.  While a registered plan is alive, a call that names it and does not confirm either
  touches only the plan's neighbourhood or is refused without an effect.  Once the plan has expired, naming it
  means nothing: the call has the result and the effect of the same call without a plan.\<close>

theorem plan_binding:
  assumes "patch_operations args = Inr ops" "pa_plan_id args = Some plan_id" "\<not> pa_confirm_outside_plan args"
    and "execute_apply_patch w now args (register_patch_plan t plan_id neighborhood plans) d = (r, plans', d')"
    and "t + PATCH_PLAN_TTL < 2 ^ 128"
  shows "(now < t + PATCH_PLAN_TTL \<longrightarrow>
        normalized_path_set (touched_paths ops) \<subseteq> neighborhood
        \<or> (d' = d \<and> (\<exists>e. r = Some (error_report e))))
    \<and> (t + PATCH_PLAN_TTL \<le> now \<longrightarrow>
        (let unbound = execute_apply_patch w now (args\<lparr>pa_plan_id := None\<rparr>) (register_patch_plan t plan_id neighborhood plans) d
         in r = fst unbound \<and> d' = snd (snd unbound)))"
proof (intro conjI impI)
  let ?plans = "register_patch_plan t plan_id neighborhood plans"
  let ?plan = "\<lparr>pp_neighborhood = neighborhood, pp_expires_at_ms = t + PATCH_PLAN_TTL\<rparr>"
  have plan: "?plans plan_id = Some ?plan" using assms(5) by (simp add: register_patch_plan_def)
  {
    assume "now < t + PATCH_PLAN_TTL"
    then have look: "lookup_patch_plan now plan_id ?plans = (Some ?plan, live_plans now ?plans)"
      using plan by (simp add: lookup_patch_plan_def live_plans_def)
    show "normalized_path_set (touched_paths ops) \<subseteq> neighborhood \<or> (d' = d \<and> (\<exists>e. r = Some (error_report e)))"
    proof (cases "normalized_path_set (touched_paths ops) \<subseteq> neighborhood")
      case False
      then have "fst (plan_violation now args (normalized_path_set (touched_paths ops)) ?plans) \<noteq> None"
        using assms(2,3) look by (auto simp: plan_violation_def)
      then obtain e plans1 where "plan_violation now args (normalized_path_set (touched_paths ops)) ?plans = (Some e, plans1)"
        by (metis option.exhaust prod.collapse)
      from stale_report [OF this] execute_refused [OF assms(1)] assms(4) show ?thesis by (metis prod.inject)
    qed simp
  }
  {
    assume "t + PATCH_PLAN_TTL \<le> now"
    then have "fst (plan_violation now args (normalized_path_set (touched_paths ops)) ?plans) = None"
      using assms(2) plan by (simp add: plan_violation_def lookup_patch_plan_def live_plans_def)
    from no_plan_same_call [OF this assms(1)] assms(4)
    show "let unbound = execute_apply_patch w now (args\<lparr>pa_plan_id := None\<rparr>) ?plans d
         in r = fst unbound \<and> d' = snd (snd unbound)"
      by (metis fst_conv snd_conv)
  }
qed

lemma plan_binding_witness:
  "snd (snd (execute_apply_patch (demo_world no_git) 5 ((call_args demo_ops)\<lparr>pa_plan_id := Some (lit ''p'')\<rparr>)
      (register_patch_plan 0 (lit ''p'') {lit ''a''} Map.empty) demo_disk)) = demo_disk
   \<and> (\<exists>e. fst (execute_apply_patch (demo_world no_git) 5 ((call_args demo_ops)\<lparr>pa_plan_id := Some (lit ''p'')\<rparr>)
      (register_patch_plan 0 (lit ''p'') {lit ''a''} Map.empty) demo_disk) = Some (error_report e))"
proof -
  let ?args = "(call_args demo_ops)\<lparr>pa_plan_id := Some (lit ''p'')\<rparr>"
  let ?run = "execute_apply_patch (demo_world no_git) 5 ?args (register_patch_plan 0 (lit ''p'') {lit ''a''} Map.empty) demo_disk"
  obtain r plans' d' where run: "?run = (r, plans', d')" by (metis prod_cases3)
  have args: "patch_operations ?args = Inr demo_ops" "pa_plan_id ?args = Some (lit ''p'')" "\<not> pa_confirm_outside_plan ?args"
    by (simp_all add: call_args_def patch_operations_def demo_ops_def MAX_PATCH_BLOCKS_def)
  have "\<not> normalized_path_set (touched_paths demo_ops) \<subseteq> {lit ''a''}" by code_simp
  with plan_binding [OF args run] show ?thesis unfolding run by (simp add: PATCH_PLAN_TTL_def)
qed

section \<open>What goes wrong\<close>

text \<open>A \<open>git apply\<close> that changes the file \<open>.env\<close>, whatever path the operation names, and one that adds a line to the
  file \<open>a\<close> on the disk.\<close>

definition git_writes_env :: "bool \<Rightarrow> str \<Rightarrow> disk \<Rightarrow> (str + bool) \<times> disk" where
  "git_writes_env check diff d = (Inr True, if check then d else set_file (place_of ''.env'') (Some (Text diff)) d)"

definition git_appends :: "bool \<Rightarrow> str \<Rightarrow> disk \<Rightarrow> (str + bool) \<times> disk" where
  "git_appends check diff d =
     (Inr True, if check then d
      else set_file (place_of ''a'') (map_option (\<lambda>t. Text (t @ lit ''+'')) (text_at (dk_files d) (place_of ''a''))) d)"

definition diff_edit :: "string \<Rightarrow> apply_patch_operation" where
  "diff_edit path = SearchReplace (lit path) (lit ''diff'') [] None None True"


text \<open>An edit can be discarded silently.  The edits of one call accumulate in memory, but the unified-diff
  fallback works on the file on the disk and takes over its contents: the first edit of \<open>a\<close> is lost, and both
  operations are reported as applied.\<close>

theorem unified_diff_discards_edits:
  "\<exists>rp plans' d'. execute_apply_patch (demo_world git_appends) 0
        (call_args [edit ''a'' ''one'' ''ten'', diff_edit ''a'']) Map.empty demo_disk = (Some rp, plans', d')
     \<and> report_status rp = ToolSuccess \<and> map snd (rp_delta rp) = [Applied, Applied]
     \<and> dk_files d' (place_of ''a'') = Some (Text (lit ''one+''))"
proof -
  let ?run = "execute_apply_patch (demo_world git_appends) 0
        (call_args [edit ''a'' ''one'' ''ten'', diff_edit ''a'']) Map.empty demo_disk"
  have "map_option (\<lambda>rp. (report_status rp, map snd (rp_delta rp))) (fst ?run) = Some (ToolSuccess, [Applied, Applied])"
    "dk_files (snd (snd ?run)) (place_of ''a'') = Some (Text (lit ''one+''))" by code_simp+
  then show ?thesis by (cases ?run) auto
qed

text \<open>The delta of a partly failed call understates its effect.  The first edit of a file writes the result
  of all its edits, so an edit that the delta calls skipped is on the disk.\<close>

theorem skipped_edit_was_written:
  "\<exists>rp plans' d'. execute_apply_patch ((demo_world no_git)\<lparr>pw_remove_error := (\<lambda>_. Some (lit ''denied''))\<rparr>) 0
        (call_args [edit ''a'' ''one'' ''ten'', DeleteFile (lit ''b'') None, edit ''a'' ''ten'' ''six'']) Map.empty demo_disk
        = (Some rp, plans', d')
     \<and> map snd (rp_delta rp) = [Applied, Failed (lit ''denied''), Skipped]
     \<and> dk_files d' (place_of ''a'') = Some (Text (lit ''six''))"
proof -
  let ?run = "execute_apply_patch ((demo_world no_git)\<lparr>pw_remove_error := (\<lambda>_. Some (lit ''denied''))\<rparr>) 0
        (call_args [edit ''a'' ''one'' ''ten'', DeleteFile (lit ''b'') None, edit ''a'' ''ten'' ''six'']) Map.empty demo_disk"
  have "map_option (\<lambda>rp. map snd (rp_delta rp)) (fst ?run) = Some [Applied, Failed (lit ''denied''), Skipped]"
    "dk_files (snd (snd ?run)) (place_of ''a'') = Some (Text (lit ''six''))" by code_simp+
  then show ?thesis by (cases ?run) auto
qed

definition hook_place :: path_buf where
  "hook_place = [RootDir, Normal (lit ''w''), Normal (lit ''.git''), Normal (lit ''h'')]"

definition link_disk :: disk where
  "link_disk =
     (let is_dir = (\<lambda>p. p = [RootDir] \<or> p = [RootDir, Normal (lit ''w'')] \<or> p = butlast hook_place)
      in (plain_disk [hook_place \<mapsto> Text (lit ''one'')] is_dir)
           \<lparr>dk_resolve := (\<lambda>p. if p = place_of ''a'' then Some hook_place
              else dk_resolve (plain_disk [hook_place \<mapsto> Text (lit ''one'')] is_dir) p)\<rparr>)"

text \<open>A link defeats the protection of metadata.  The checks are lexical and the file is resolved afterwards:
  editing \<open>a\<close>, a link to a file below \<open>.git\<close>, succeeds, while the file's own path is refused.\<close>

theorem metadata_protection_is_lexical:
  "path_refusal (demo_world no_git) (lit ''.git/h'') \<noteq> None
   \<and> (\<exists>rp plans' d'. execute_apply_patch (demo_world no_git) 0
        (call_args [SearchReplace (lit ''a'') (lit ''one'') (lit ''ten'') (Some (lit ''one'')) None False]) Map.empty link_disk
        = (Some rp, plans', d')
      \<and> report_status rp = ToolSuccess \<and> dk_files d' hook_place = Some (Text (lit ''ten'')))"
proof
  show "path_refusal (demo_world no_git) (lit ''.git/h'') \<noteq> None" by code_simp
  let ?run = "execute_apply_patch (demo_world no_git) 0
        (call_args [SearchReplace (lit ''a'') (lit ''one'') (lit ''ten'') (Some (lit ''one'')) None False]) Map.empty link_disk"
  have "map_option report_status (fst ?run) = Some ToolSuccess"
    "dk_files (snd (snd ?run)) hook_place = Some (Text (lit ''ten''))" by code_simp+
  then show "\<exists>rp plans' d'. ?run = (Some rp, plans', d') \<and> report_status rp = ToolSuccess
      \<and> dk_files d' hook_place = Some (Text (lit ''ten''))"
    by (cases ?run) auto
qed

text \<open>The Unicode fallback can panic.  Its scan may start in the middle of a character of the file, where
  taking a slice panics: the file holds the single character U+00BD, whose compatibility form has the searched
  fraction slash in the middle.\<close>

theorem unicode_fallback_panics:
  "fst (execute_apply_patch (demo_world no_git) 0
     (call_args [SearchReplace (lit ''a'') [8260] [] (Some [189]) None False]) Map.empty
     (set_file (place_of ''a'') (Some (Text [189])) demo_disk)) = None"
  by code_simp

end
