(* ===== verification/Conversation.thy ===== *)
theory Conversation
  imports Prelude
begin

text \<open>
  The conversation a model call is built from (\<open>crates/squeezy-llm/src/lib.rs\<close>,
  \<open>crates/squeezy-core/src/lib.rs\<close>) and the two repairs of its call and output pairs
  (\<open>crates/squeezy-agent/src/context_compaction.rs\<close>).  Providers reject a request with an output whose call is
  not declared, or with a call that is not answered.
\<close>

section \<open>Items\<close>

text \<open>A JSON value as \<open>serde_json\<close> has it; numbers by their text.\<close>

datatype json = JNull | JBool bool | JNumber str | JString str | JArray "json list" | JObject "(str \<times> json) list"

definition json_get :: "str \<Rightarrow> json \<Rightarrow> json option" where
  "json_get key value = (case value of JObject fields_of \<Rightarrow> map_of fields_of key | _ \<Rightarrow> None)"

definition json_as_str :: "json \<Rightarrow> str option" where
  "json_as_str value = (case value of JString s \<Rightarrow> Some s | _ \<Rightarrow> None)"

definition json_as_array :: "json \<Rightarrow> json list option" where
  "json_as_array value = (case value of JArray vs \<Rightarrow> Some vs | _ \<Rightarrow> None)"

datatype thinking_kind = Thinking | RedactedThinking

record thinking_block =
  tb_kind :: thinking_kind
  tb_text :: str
  tb_signature :: "str option"
  tb_data :: "str option"

datatype reasoning_payload =
    OpenAiReasoning str "str list" "str option"
  | AnthropicReasoning "thinking_block list"
  | GoogleReasoning "str list" "str option"

datatype tool_result_part = TextPart str | ImagePart str "nat list"

datatype llm_item =
    UserText str
  | AssistantText str
  | FunctionCall (fc_call_id: str) (fc_name: str) (fc_arguments: json)
  | FunctionCallOutput (fo_call_id: str) (fo_output: str) (fo_parts: "tool_result_part list option") (fo_is_error: bool)
  | Reasoning reasoning_payload
  | ImageItem str "nat list"
  | DocumentItem str str "nat list"

type_synonym conversation = "llm_item list"

text \<open>\<open>ReasoningPayload::display_text\<close>.\<close>

definition block_text :: "thinking_block \<Rightarrow> str" where
  "block_text b = (case tb_kind b of Thinking \<Rightarrow> tb_text b | RedactedThinking \<Rightarrow> lit ''[redacted reasoning]'')"

fun display_text :: "reasoning_payload \<Rightarrow> str" where
  "display_text (OpenAiReasoning item_id summary encrypted) = join [NL, NL] summary"
| "display_text (AnthropicReasoning blocks) = join [NL, NL] (map block_text blocks)"
| "display_text (GoogleReasoning summary signature) = join [NL, NL] summary"

section \<open>Pairs\<close>

fun declared_id :: "llm_item \<Rightarrow> str option" where
  "declared_id (FunctionCall call_id name arguments) = Some call_id"
| "declared_id _ = None"

fun answered_id :: "llm_item \<Rightarrow> str option" where
  "answered_id (FunctionCallOutput call_id output parts is_error) = Some call_id"
| "answered_id _ = None"

definition declared_ids :: "conversation \<Rightarrow> str list" where
  "declared_ids items = List.map_filter declared_id items"

definition answered_ids :: "conversation \<Rightarrow> str list" where
  "answered_ids items = List.map_filter answered_id items"

definition output_declared :: "str set \<Rightarrow> llm_item \<Rightarrow> bool" where
  "output_declared declared item = (case answered_id item of None \<Rightarrow> True | Some i \<Rightarrow> i \<in> declared)"

definition drop_orphan_function_call_outputs :: "conversation \<Rightarrow> conversation" where
  "drop_orphan_function_call_outputs items = List.filter (output_declared (set (declared_ids items))) items"

definition interrupted_output :: "str \<Rightarrow> llm_item" where
  "interrupted_output call_id =
     FunctionCallOutput call_id (lit ''{\"error\":\"tool call interrupted\",\"is_error\":true}'') None True"

definition repair_item :: "str set \<Rightarrow> llm_item \<Rightarrow> conversation" where
  "repair_item answered item =
     item # (case declared_id item of None \<Rightarrow> []
             | Some i \<Rightarrow> if i \<in> answered then [] else [interrupted_output i])"

definition repair_orphan_function_calls :: "conversation \<Rightarrow> conversation" where
  "repair_orphan_function_calls items = concat (map (repair_item (set (answered_ids items))) items)"

section \<open>Redaction\<close>

text \<open>The redactor, a set of regular expressions, is a function on texts.\<close>

fun redact_json_value :: "(str \<Rightarrow> str) \<Rightarrow> json \<Rightarrow> json" where
  "redact_json_value redact (JString s) = JString (redact s)"
| "redact_json_value redact (JArray vs) = JArray (map (redact_json_value redact) vs)"
| "redact_json_value redact (JObject fs) = JObject (map (\<lambda>(k, v). (k, redact_json_value redact v)) fs)"
| "redact_json_value redact v = v"

definition redact_block :: "(str \<Rightarrow> str) \<Rightarrow> thinking_block \<Rightarrow> thinking_block" where
  "redact_block redact b = b\<lparr>tb_text := if tb_text b = [] then [] else redact (tb_text b)\<rparr>"

fun redact_reasoning_payload :: "(str \<Rightarrow> str) \<Rightarrow> reasoning_payload \<Rightarrow> reasoning_payload" where
  "redact_reasoning_payload redact (OpenAiReasoning item_id summary encrypted) =
     OpenAiReasoning item_id (map redact summary) encrypted"
| "redact_reasoning_payload redact (AnthropicReasoning blocks) = AnthropicReasoning (map (redact_block redact) blocks)"
| "redact_reasoning_payload redact (GoogleReasoning summary signature) = GoogleReasoning (map redact summary) signature"

fun redact_part :: "(str \<Rightarrow> str) \<Rightarrow> tool_result_part \<Rightarrow> tool_result_part" where
  "redact_part redact (TextPart t) = TextPart (redact t)"
| "redact_part redact (ImagePart m b) = ImagePart m b"

fun redact_input_item :: "(str \<Rightarrow> str) \<Rightarrow> llm_item \<Rightarrow> llm_item" where
  "redact_input_item redact (UserText t) = UserText (redact t)"
| "redact_input_item redact (AssistantText t) = AssistantText (redact t)"
| "redact_input_item redact (FunctionCall call_id name arguments) =
     FunctionCall call_id name (redact_json_value redact arguments)"
| "redact_input_item redact (FunctionCallOutput call_id output parts is_error) =
     FunctionCallOutput call_id (redact output) (map_option (map (redact_part redact)) parts) is_error"
| "redact_input_item redact (Reasoning payload) = Reasoning (redact_reasoning_payload redact payload)"
| "redact_input_item redact item = item"

definition redact_llm_input_items :: "(str \<Rightarrow> str) \<Rightarrow> conversation \<Rightarrow> conversation" where
  "redact_llm_input_items redact input =
     repair_orphan_function_calls (drop_orphan_function_call_outputs (map (redact_input_item redact) input))"

section \<open>What providers accept\<close>

text \<open>Every call is declared once and answered once, later.  \<open>declared\<close> are the ids met so far, \<open>open_calls\<close> the ones not
  yet answered.\<close>

fun wire_scan :: "str set \<Rightarrow> str set \<Rightarrow> conversation \<Rightarrow> bool" where
  "wire_scan declared open_calls [] \<longleftrightarrow> open_calls = {}"
| "wire_scan declared open_calls (item # items) \<longleftrightarrow>
     (case declared_id item of
        Some i \<Rightarrow> i \<notin> declared \<and> wire_scan (insert i declared) (insert i open_calls) items
      | None \<Rightarrow>
          (case answered_id item of
             Some i \<Rightarrow> i \<in> open_calls \<and> wire_scan declared (open_calls - {i}) items
           | None \<Rightarrow> wire_scan declared open_calls items))"

definition wire_ok :: "conversation \<Rightarrow> bool" where
  "wire_ok items \<longleftrightarrow> wire_scan {} {} items"

lemma ids_Cons:
  "declared_ids (item # items) = (case declared_id item of None \<Rightarrow> declared_ids items | Some i \<Rightarrow> i # declared_ids items)"
  "answered_ids (item # items) = (case answered_id item of None \<Rightarrow> answered_ids items | Some i \<Rightarrow> i # answered_ids items)"
  by (simp_all add: declared_ids_def answered_ids_def List.map_filter_def split: option.split)

lemma ids_Nil [simp]: "declared_ids [] = []" "answered_ids [] = []"
  by (simp_all add: declared_ids_def answered_ids_def List.map_filter_def)

lemma ids_append:
  "declared_ids (xs @ ys) = declared_ids xs @ declared_ids ys" "answered_ids (xs @ ys) = answered_ids xs @ answered_ids ys"
  by (simp_all add: declared_ids_def answered_ids_def List.map_filter_def)

lemma declared_not_answered: "declared_id item = Some i \<Longrightarrow> answered_id item = None"
  by (cases item) auto

lemma wire_scan_ids:
  "map (\<lambda>x. (declared_id x, answered_id x)) xs = map (\<lambda>x. (declared_id x, answered_id x)) ys
     \<Longrightarrow> wire_scan declared open_calls xs = wire_scan declared open_calls ys"
proof (induction xs arbitrary: ys declared open_calls)
  case (Cons x xs)
  then obtain y ys' where y: "ys = y # ys'" "declared_id x = declared_id y" "answered_id x = answered_id y"
      "map (\<lambda>x. (declared_id x, answered_id x)) xs = map (\<lambda>x. (declared_id x, answered_id x)) ys'"
    by (cases ys) auto
  from Cons.IH [OF y(4)] show ?case unfolding y(1) by (simp add: y(2,3) split: option.split)
qed simp

lemma wire_ok_map:
  "(\<And>x. x \<in> set xs \<Longrightarrow> declared_id (f x) = declared_id x \<and> answered_id (f x) = answered_id x) \<Longrightarrow> wire_ok (map f xs) = wire_ok xs"
  unfolding wire_ok_def by (rule wire_scan_ids) simp

lemma output_declared_simps [simp]:
  "answered_id item = None \<Longrightarrow> output_declared K item"
  "answered_id item = Some i \<Longrightarrow> output_declared K item \<longleftrightarrow> i \<in> K"
  by (simp_all add: output_declared_def)

text \<open>The end of a well-formed conversation is well formed once the outputs of calls before it are dropped.\<close>

lemma wire_scan_filter:
  assumes "wire_scan declared open_calls xs" "set (declared_ids xs) \<subseteq> K" "declared' \<subseteq> declared"
  shows "wire_scan declared' (K \<inter> open_calls) (List.filter (output_declared K) xs)"
  using assms
proof (induction xs arbitrary: declared open_calls declared')
  case (Cons item items)
  show ?case
  proof (cases "declared_id item")
    case (Some i)
    then have "i \<in> K" "set (declared_ids items) \<subseteq> K" using Cons.prems(2) by (auto simp: ids_Cons)
    moreover have "wire_scan (insert i declared') (K \<inter> insert i open_calls) (List.filter (output_declared K) items)"
      using Cons.prems Some calculation by (intro Cons.IH [of "insert i declared"]) auto
    moreover have "K \<inter> insert i open_calls = insert i (K \<inter> open_calls)" using \<open>i \<in> K\<close> by blast
    ultimately show ?thesis
      using Cons.prems(1,3) Some declared_not_answered [OF Some] by auto
  next
    case None
    have sub: "set (declared_ids items) \<subseteq> K" using Cons.prems(2) None by (simp add: ids_Cons)
    show ?thesis
    proof (cases "answered_id item")
      case (Some i)
      have i: "i \<in> open_calls" "wire_scan declared (open_calls - {i}) items" using Cons.prems(1) None Some by simp_all
      have rest: "wire_scan declared' (K \<inter> (open_calls - {i})) (List.filter (output_declared K) items)"
        by (rule Cons.IH [OF i(2) sub Cons.prems(3)])
      have "K \<inter> (open_calls - {i}) = K \<inter> open_calls - {i}" "i \<notin> K \<Longrightarrow> K \<inter> open_calls - {i} = K \<inter> open_calls" by blast+
      then show ?thesis using rest i(1) None Some by (cases "i \<in> K") simp_all
    next
      case none: None
      then show ?thesis using Cons None sub by simp
    qed
  qed
qed simp

lemma item_kinds:
  obtains (call) i where "declared_id item = Some i" "answered_id item = None"
  | (answer) i where "declared_id item = None" "answered_id item = Some i"
  | (plain) "declared_id item = None" "answered_id item = None"
  by (cases item) auto

lemma wire_scan_append:
  "wire_scan declared open_calls (xs @ ys) \<Longrightarrow> \<exists>opened. wire_scan (declared \<union> set (declared_ids xs)) opened ys
     \<and> opened \<subseteq> open_calls \<union> set (declared_ids xs)"
proof (induction xs arbitrary: declared open_calls)
  case (Cons item items)
  show ?case
  proof (cases item rule: item_kinds)
    case (call i)
    with Cons.prems have "wire_scan (insert i declared) (insert i open_calls) (items @ ys)" by simp
    from Cons.IH [OF this] show ?thesis using call by (auto simp: ids_Cons)
  next
    case (answer i)
    with Cons.prems have "wire_scan declared (open_calls - {i}) (items @ ys)" by simp
    from Cons.IH [OF this] show ?thesis using answer by (auto simp: ids_Cons)
  next
    case plain
    with Cons.prems have "wire_scan declared open_calls (items @ ys)" by simp
    from Cons.IH [OF this] show ?thesis using plain by (simp add: ids_Cons)
  qed
qed auto

lemma wire_scan_fresh: "wire_scan declared open_calls xs \<Longrightarrow> declared \<inter> set (declared_ids xs) = {}"
proof (induction xs arbitrary: declared open_calls)
  case (Cons item items)
  show ?case
  proof (cases item rule: item_kinds)
    case (call i)
    with Cons.prems have "i \<notin> declared" "wire_scan (insert i declared) (insert i open_calls) items" by simp_all
    with Cons.IH [OF this(2)] show ?thesis using call by (auto simp: ids_Cons)
  next
    case (answer i)
    with Cons.prems have "wire_scan declared (open_calls - {i}) items" by simp
    from Cons.IH [OF this] show ?thesis using answer by (simp add: ids_Cons)
  next
    case plain
    with Cons.prems have "wire_scan declared open_calls items" by simp
    from Cons.IH [OF this] show ?thesis using plain by (simp add: ids_Cons)
  qed
qed simp

lemma wire_scan_answers_once:
  "wire_scan declared open_calls xs \<Longrightarrow> open_calls \<subseteq> declared \<Longrightarrow>
     distinct (answered_ids xs) \<and> set (answered_ids xs) \<inter> (declared - open_calls) = {}"
proof (induction xs arbitrary: declared open_calls)
  case (Cons item items)
  show ?case
  proof (cases item rule: item_kinds)
    case (call i)
    with Cons.prems have i: "i \<notin> declared" and w: "wire_scan (insert i declared) (insert i open_calls) items" by simp_all
    have "insert i declared - insert i open_calls = declared - open_calls" using i by auto
    with Cons.IH [OF w] Cons.prems(2) show ?thesis using call by (auto simp: ids_Cons)
  next
    case (answer i)
    with Cons.prems have i: "i \<in> open_calls" and w: "wire_scan declared (open_calls - {i}) items" by simp_all
    have "declared - (open_calls - {i}) = insert i (declared - open_calls)" using i Cons.prems(2) by auto
    with Cons.IH [OF w] Cons.prems(2) show ?thesis using answer i by (auto simp: ids_Cons)
  next
    case plain
    with Cons.prems have "wire_scan declared open_calls items" by simp
    from Cons.IH [OF this Cons.prems(2)] show ?thesis using plain by (simp add: ids_Cons)
  qed
qed simp

lemma wire_scan_answers_all:
  "wire_scan declared open_calls xs \<Longrightarrow> set (answered_ids xs) = open_calls \<union> set (declared_ids xs)"
proof (induction xs arbitrary: declared open_calls)
  case (Cons item items)
  show ?case
  proof (cases item rule: item_kinds)
    case (call i)
    with Cons.prems have "wire_scan (insert i declared) (insert i open_calls) items" by simp
    from Cons.IH [OF this] show ?thesis using call by (auto simp: ids_Cons)
  next
    case (answer i)
    with Cons.prems have i: "i \<in> open_calls" and "wire_scan declared (open_calls - {i}) items" by simp_all
    from Cons.IH [OF this(2)] show ?thesis using answer i by (auto simp: ids_Cons)
  next
    case plain
    with Cons.prems have "wire_scan declared open_calls items" by simp
    from Cons.IH [OF this] show ?thesis using plain by (simp add: ids_Cons)
  qed
qed simp

lemma wire_ok_answered: "wire_ok xs \<Longrightarrow> set (answered_ids xs) = set (declared_ids xs)"
  using wire_scan_answers_all [of "{}" "{}" xs] by (simp add: wire_ok_def)

lemma wire_ok_distinct: "wire_ok xs \<Longrightarrow> distinct (answered_ids xs)"
  using wire_scan_answers_once [of "{}" "{}" xs] by (simp add: wire_ok_def)

lemma wire_ok_suffix:
  assumes "wire_ok (older @ recent)"
  shows "wire_ok (drop_orphan_function_call_outputs recent)"
proof -
  from assms obtain opened where o: "wire_scan (set (declared_ids older)) opened recent" "opened \<subseteq> set (declared_ids older)"
    using wire_scan_append [of "{}" "{}" older recent] unfolding wire_ok_def by auto
  from wire_scan_fresh [OF o(1)] o(2) have "set (declared_ids recent) \<inter> opened = {}" by blast
  with wire_scan_filter [OF o(1) order_refl, of "{}"] show ?thesis
    by (simp add: wire_ok_def drop_orphan_function_call_outputs_def)
qed

text \<open>A tool round appends calls with new ids and their outputs.\<close>

lemma wire_scan_calls:
  assumes "distinct ids" "set ids \<inter> declared = {}" "map declared_id calls = map Some ids"
    and "wire_scan (declared \<union> set ids) (open_calls \<union> set ids) rest"
  shows "wire_scan declared open_calls (calls @ rest)"
  using assms
proof (induction ids arbitrary: calls declared open_calls)
  case (Cons i ids)
  then obtain c cs where c: "calls = c # cs" "declared_id c = Some i" "map declared_id cs = map Some ids" by auto
  have "wire_scan (insert i declared) (insert i open_calls) (cs @ rest)"
    using Cons.prems c by (intro Cons.IH) (auto simp: insert_commute)
  then show ?case using Cons.prems(2) c by simp
qed simp

lemma wire_scan_answers:
  assumes "distinct ids" "map answered_id outputs = map Some ids" "\<forall>x \<in> set outputs. declared_id x = None"
  shows "wire_scan declared (set ids) outputs"
  using assms
proof (induction ids arbitrary: outputs)
  case (Cons i ids)
  then obtain c cs where c: "outputs = c # cs" "answered_id c = Some i" "map answered_id cs = map Some ids"
      "declared_id c = None" "\<forall>x \<in> set cs. declared_id x = None"
    by auto
  have "insert i (set ids) - {i} = set ids" using Cons.prems(1) by auto
  then show ?case using Cons.IH [OF _ c(3,5)] Cons.prems(1) c by simp
qed simp

lemma wire_scan_extend:
  assumes "wire_scan declared open_calls xs" "wire_scan (declared \<union> set (declared_ids xs)) {} ys"
  shows "wire_scan declared open_calls (xs @ ys)"
  using assms
proof (induction xs arbitrary: declared open_calls)
  case (Cons item items)
  then show ?case
    by (cases item rule: item_kinds) (simp_all add: ids_Cons)
qed simp

lemma wire_ok_round:
  assumes "wire_ok conversation" "distinct ids" "set ids \<inter> set (declared_ids conversation) = {}"
    and "map declared_id calls = map Some ids" "map answered_id outputs = map Some ids"
      "\<forall>x \<in> set outputs. declared_id x = None"
  shows "wire_ok (conversation @ calls @ outputs)"
proof -
  have "wire_scan (set (declared_ids conversation)) {} (calls @ outputs)"
    by (rule wire_scan_calls [OF assms(2,3,4)]) (simp add: wire_scan_answers [OF assms(2,5,6)])
  then show ?thesis using assms(1) wire_scan_extend [of "{}" "{}"] by (simp add: wire_ok_def)
qed

lemma wire_ok_plain:
  assumes "wire_ok conversation" "declared_id item = None" "answered_id item = None"
  shows "wire_ok (conversation @ [item])" "wire_ok (item # conversation)"
  using assms wire_scan_extend [of "{}" "{}" conversation "[item]"] by (simp_all add: wire_ok_def)

section \<open>The repairs\<close>

lemma redact_keeps_ids [simp]:
  "declared_id (redact_input_item redact item) = declared_id item"
  "answered_id (redact_input_item redact item) = answered_id item"
  by (cases item; simp)+

lemma ids_map:
  "(\<And>x. declared_id (f x) = declared_id x) \<Longrightarrow> declared_ids (map f xs) = declared_ids xs"
  "(\<And>x. answered_id (f x) = answered_id x) \<Longrightarrow> answered_ids (map f xs) = answered_ids xs"
  by (simp_all add: declared_ids_def answered_ids_def List.map_filter_def comp_def filter_map)

lemma drop_orphan_ids:
  "declared_ids (List.filter (output_declared K) xs) = declared_ids xs"
  "answered_ids (List.filter (output_declared K) xs) = List.filter (\<lambda>i. i \<in> K) (answered_ids xs)"
proof (induction xs)
  case (Cons item items)
  {
    case 1
    show ?case by (cases item rule: item_kinds) (simp_all add: ids_Cons Cons.IH)
  next
    case 2
    show ?case by (cases item rule: item_kinds) (simp_all add: ids_Cons Cons.IH)
  }
qed simp_all

lemma repair_item_simps:
  "declared_id item = None \<Longrightarrow> repair_item A item = [item]"
  "declared_id item = Some i \<Longrightarrow> repair_item A item = (if i \<in> A then [item] else [item, interrupted_output i])"
  "declared_id (interrupted_output i) = None" "answered_id (interrupted_output i) = Some i"
  by (simp_all add: repair_item_def interrupted_output_def)

lemma repair_ids:
  "declared_ids (concat (map (repair_item A) xs)) = declared_ids xs"
  "set (answered_ids (concat (map (repair_item A) xs))) = set (answered_ids xs) \<union> (set (declared_ids xs) - A)"
proof (induction xs)
  case (Cons item items)
  {
    case 1
    show ?case
      by (cases item rule: item_kinds) (simp_all add: ids_Cons Cons.IH(1) repair_item_simps)
  next
    case 2
    show ?case
      by (cases item rule: item_kinds)
        (auto simp: ids_Cons Cons.IH(2) repair_item_simps)
  }
qed simp_all

lemma repair_id: "set (declared_ids xs) \<subseteq> A \<Longrightarrow> concat (map (repair_item A) xs) = xs"
proof (induction xs)
  case (Cons item items)
  then show ?case by (cases item rule: item_kinds) (simp_all add: ids_Cons repair_item_simps)
qed simp

lemma drop_orphan_id: "set (answered_ids xs) \<subseteq> K \<Longrightarrow> List.filter (output_declared K) xs = xs"
proof (induction xs)
  case (Cons item items)
  then show ?case by (cases item rule: item_kinds) (simp_all add: ids_Cons)
qed simp

lemma declared_member: "i \<in> set (declared_ids xs) \<longleftrightarrow> (\<exists>x \<in> set xs. declared_id x = Some i)"
proof (induction xs)
  case (Cons x xs)
  then show ?case by (cases x rule: item_kinds) (auto simp: ids_Cons)
qed simp

lemma redact_answers_open_call:
  assumes "i \<in> set (declared_ids items)" "i \<notin> set (answered_ids items)"
  shows "interrupted_output i \<in> set (redact_llm_input_items redact items)"
proof -
  let ?red = "map (redact_input_item redact) items"
  let ?kept = "drop_orphan_function_call_outputs ?red"
  have ids: "i \<in> set (declared_ids ?kept)" "i \<notin> set (answered_ids ?kept)"
    using assms by (simp_all add: drop_orphan_function_call_outputs_def drop_orphan_ids ids_map)
  then obtain x where "x \<in> set ?kept" "declared_id x = Some i" using declared_member by blast
  then show ?thesis
    using ids(2) by (auto simp: redact_llm_input_items_def repair_orphan_function_calls_def repair_item_simps
        intro!: bexI [of _ x])
qed

text \<open>A resumed conversation is paired.  After the upgrade on resume every declared call is answered and
  every output has its call, whatever was stored; and a conversation that was paired is only redacted.\<close>

theorem resume_repairs_pairs:
  "set (declared_ids (redact_llm_input_items redact items)) = set (answered_ids (redact_llm_input_items redact items))
   \<and> (set (declared_ids items) = set (answered_ids items) \<longrightarrow>
        redact_llm_input_items redact items = map (redact_input_item redact) items)"
proof
  let ?red = "map (redact_input_item redact) items"
  have ids: "declared_ids ?red = declared_ids items" "answered_ids ?red = answered_ids items"
    by (simp_all add: ids_map)
  show "set (declared_ids (redact_llm_input_items redact items)) = set (answered_ids (redact_llm_input_items redact items))"
    by (auto simp: redact_llm_input_items_def repair_orphan_function_calls_def drop_orphan_function_call_outputs_def
        repair_ids drop_orphan_ids ids)
  show "set (declared_ids items) = set (answered_ids items) \<longrightarrow>
        redact_llm_input_items redact items = map (redact_input_item redact) items"
    by (simp add: redact_llm_input_items_def repair_orphan_function_calls_def drop_orphan_function_call_outputs_def
        drop_orphan_id repair_id ids del: map_map)
qed

lemma resume_repairs_pairs_witness:
  "redact_llm_input_items id [UserText (lit ''hi''), FunctionCall (lit ''1'') (lit ''shell'') JNull]
     = [UserText (lit ''hi''), FunctionCall (lit ''1'') (lit ''shell'') JNull, interrupted_output (lit ''1'')]
   \<and> redact_llm_input_items id [FunctionCall (lit ''1'') (lit ''shell'') JNull, FunctionCallOutput (lit ''1'') [] None False]
     = [FunctionCall (lit ''1'') (lit ''shell'') JNull, FunctionCallOutput (lit ''1'') [] None False]"
proof
  show "redact_llm_input_items id [UserText (lit ''hi''), FunctionCall (lit ''1'') (lit ''shell'') JNull]
     = [UserText (lit ''hi''), FunctionCall (lit ''1'') (lit ''shell'') JNull, interrupted_output (lit ''1'')]" by code_simp
  let ?c = "[FunctionCall (lit ''1'') (lit ''shell'') JNull, FunctionCallOutput (lit ''1'') [] None False]"
  have "set (declared_ids ?c) = set (answered_ids ?c)" by (simp add: ids_Cons)
  with resume_repairs_pairs [of id ?c] show "redact_llm_input_items id ?c = ?c" by simp
qed

end
