(* ===== verification/ContextBudget.thy ===== *)
theory ContextBudget
  imports Conversation
begin

text \<open>
  The size of a conversation and the thresholds it is compared with
  (\<open>crates/squeezy-agent/src/context_compaction.rs\<close>, \<open>ContextCompactionConfig\<close> of
  \<open>crates/squeezy-core/src/lib.rs\<close>).  The text of a JSON value is \<open>serde_json\<close>'s, the parameter \<open>json_text\<close>.
\<close>

section \<open>Estimates\<close>

definition USIZE_MAX :: nat where "USIZE_MAX = 2 ^ 64 - 1"

definition usize_saturating_add :: "nat \<Rightarrow> nat \<Rightarrow> nat" where
  "usize_saturating_add a b = min (a + b) USIZE_MAX"

fun part_bytes :: "tool_result_part \<Rightarrow> nat" where
  "part_bytes (TextPart t) = byte_len t"
| "part_bytes (ImagePart media bytes) = byte_len media + length bytes"

fun llm_item_estimated_bytes :: "(json \<Rightarrow> str) \<Rightarrow> llm_item \<Rightarrow> nat" where
  "llm_item_estimated_bytes json_text (UserText t) = byte_len t"
| "llm_item_estimated_bytes json_text (AssistantText t) = byte_len t"
| "llm_item_estimated_bytes json_text (FunctionCall call_id name arguments) =
     byte_len call_id + byte_len name + byte_len (json_text arguments)"
| "llm_item_estimated_bytes json_text (FunctionCallOutput call_id result parts is_error) =
     byte_len call_id + byte_len result
       + (case parts of None \<Rightarrow> 0 | Some ps \<Rightarrow> foldl (\<lambda>acc p. usize_saturating_add acc (part_bytes p)) 0 ps)"
| "llm_item_estimated_bytes json_text (Reasoning payload) = byte_len (display_text payload)"
| "llm_item_estimated_bytes json_text (ImageItem media bytes) = length bytes"
| "llm_item_estimated_bytes json_text (DocumentItem media name bytes) = length bytes"

definition estimated_tokens :: "u64 \<Rightarrow> u64" where
  "estimated_tokens bytes = saturating_add bytes 3 div 4"

record context_estimate =
  ce_bytes :: nat
  ce_tokens :: u64
  ce_items :: nat

definition estimate_bytes :: "(json \<Rightarrow> str) \<Rightarrow> conversation \<Rightarrow> nat" where
  "estimate_bytes json_text items = foldl usize_saturating_add 0 (map (llm_item_estimated_bytes json_text) items)"

definition estimate_context :: "(json \<Rightarrow> str) \<Rightarrow> conversation \<Rightarrow> context_estimate" where
  "estimate_context json_text items =
     (let bytes = estimate_bytes json_text items
      in \<lparr>ce_bytes = bytes, ce_tokens = estimated_tokens (of_nat bytes), ce_items = length items\<rparr>)"

section \<open>Configuration and thresholds\<close>

datatype compaction_strategy = Extractive | ModelAssisted | LayeredFallback

record compaction_config =
  cc_enabled :: bool
  cc_fallback_window_tokens :: u64
  cc_max_context_tokens :: "u64 option"
  cc_min_items :: nat
  cc_recent_items :: nat
  cc_max_summary_bytes :: nat
  cc_enabled_mid_turn :: bool
  cc_model_context_window :: "u64 option"
  cc_effective_percent :: "u8 option"
  cc_baseline_reserve_tokens :: "u64 option"
  cc_warn_at_percent :: u8
  cc_strategy :: compaction_strategy
  cc_model_assisted_model :: "str option"
  cc_layered_threshold_tokens :: u32
  cc_micro_enabled :: bool
  cc_trim_at_percent :: u8
  cc_keep_recent :: nat

definition clamp_u8 :: "u8 \<Rightarrow> u8 \<Rightarrow> u8 \<Rightarrow> u8" where
  "clamp_u8 lo hi p = max lo (min hi p)"

definition resolve_window :: "compaction_config \<Rightarrow> u64" where
  "resolve_window c =
     (case cc_model_context_window c of
        Some window \<Rightarrow> if 0 < window then window else cc_fallback_window_tokens c
      | None \<Rightarrow> cc_fallback_window_tokens c)"

definition usable_window :: "compaction_config \<Rightarrow> u64" where
  "usable_window c =
     (let percent = clamp_u8 1 100 (case cc_effective_percent c of None \<Rightarrow> 95 | Some p \<Rightarrow> p);
          reserve = (case cc_baseline_reserve_tokens c of None \<Rightarrow> 12000 | Some r \<Rightarrow> r)
      in saturating_sub (saturating_mul (resolve_window c) (ucast percent) div 100) reserve)"

definition effective_window :: "compaction_config \<Rightarrow> u64" where
  "effective_window c =
     (let usable = usable_window c;
          capped = (case cc_max_context_tokens c of
                      Some cap \<Rightarrow> if 0 < cap then min usable cap else usable
                    | None \<Rightarrow> usable)
      in max capped 1)"

definition window_fraction :: "compaction_config \<Rightarrow> u8 \<Rightarrow> u64" where
  "window_fraction c percent = saturating_mul (effective_window c) (ucast (min percent 100)) div 100"

definition trim_threshold :: "compaction_config \<Rightarrow> u64" where
  "trim_threshold c = window_fraction c (cc_trim_at_percent c)"

definition warn_threshold :: "compaction_config \<Rightarrow> u64" where
  "warn_threshold c = window_fraction c (cc_warn_at_percent c)"

definition summarize_threshold :: "compaction_config \<Rightarrow> u64" where
  "summarize_threshold c = effective_window c"

definition HIGH_WATER_BYPASS_PCT :: u64 where "HIGH_WATER_BYPASS_PCT = 90"

definition min_items_bypass_threshold :: "compaction_config \<Rightarrow> u64" where
  "min_items_bypass_threshold c = saturating_mul (effective_window c) HIGH_WATER_BYPASS_PCT div 100"

definition default_compaction_config :: compaction_config where
  "default_compaction_config =
     \<lparr>cc_enabled = True, cc_fallback_window_tokens = 128000, cc_max_context_tokens = None, cc_min_items = 16,
      cc_recent_items = 10, cc_max_summary_bytes = 12000, cc_enabled_mid_turn = True, cc_model_context_window = None,
      cc_effective_percent = None, cc_baseline_reserve_tokens = None, cc_warn_at_percent = 85,
      cc_strategy = Extractive, cc_model_assisted_model = None, cc_layered_threshold_tokens = 4000,
      cc_micro_enabled = True, cc_trim_at_percent = 40, cc_keep_recent = 5\<rparr>"

record compaction_decision =
  cd_estimate :: context_estimate
  cd_should_compact :: bool

definition context_compaction_decision ::
  "(json \<Rightarrow> str) \<Rightarrow> compaction_config \<Rightarrow> u64 \<Rightarrow> conversation \<Rightarrow> compaction_decision" where
  "context_compaction_decision json_text c overhead items =
     (let estimate = estimate_context json_text items;
          tokens = saturating_add (ce_tokens estimate) overhead;
          over_high_water = min_items_bypass_threshold c \<le> tokens;
          keep = max (cc_recent_items c) 1;
          effective_keep = (if over_high_water then max (min keep (ce_items estimate div 2)) 1 else keep)
      in \<lparr>cd_estimate = estimate,
          cd_should_compact = (cc_enabled c \<and> (cc_min_items c \<le> ce_items estimate \<or> over_high_water)
             \<and> effective_keep < ce_items estimate \<and> summarize_threshold c \<le> tokens)\<rparr>)"

section \<open>Bounds\<close>

lemma usize_add_bound [simp]: "usize_saturating_add a b \<le> USIZE_MAX"
  by (simp add: usize_saturating_add_def)

lemma foldl_usize: "acc \<le> USIZE_MAX \<Longrightarrow> foldl usize_saturating_add acc xs = min (acc + sum_list xs) USIZE_MAX"
proof (induction xs arbitrary: acc)
  case (Cons x xs)
  then show ?case by (auto simp: usize_saturating_add_def)
qed simp

lemma estimate_bytes_sum:
  "estimate_bytes json_text items = min (sum_list (map (llm_item_estimated_bytes json_text) items)) USIZE_MAX"
  by (simp add: estimate_bytes_def foldl_usize)

lemma estimate_bytes_bound: "estimate_bytes json_text items \<le> USIZE_MAX"
  by (simp add: estimate_bytes_sum)

lemma scaled_le: "b \<le> 100 \<Longrightarrow> min 18446744073709551615 (a * b) div 100 \<le> (a :: nat)"
proof -
  assume "b \<le> 100"
  then have "a * b \<le> a * 100" by simp
  then have "min 18446744073709551615 (a * b) \<le> a * 100" by (simp add: min.coboundedI2)
  then show ?thesis by (metis div_le_mono nonzero_mult_div_cancel_right zero_neq_numeral)
qed

lemma unat_ucast_u8: "unat (ucast (p :: u8) :: u64) = unat p"
proof -
  have "unat p < 2 ^ 64" using unsigned_less [of p, where ?'a = nat] by simp
  then show ?thesis by (simp add: unsigned_ucast_eq take_bit_nat_eq_self)
qed

lemma unat_percent: "unat (ucast (min (p :: u8) 100) :: u64) = min (unat p) 100"
  by (simp add: unat_ucast_u8) (simp add: min_def word_le_nat_alt)

lemma window_fraction_unat:
  "unat (window_fraction c p) = min 18446744073709551615 (unat (effective_window c) * min (unat p) 100) div 100"
  by (simp add: window_fraction_def unat_div unat_saturating_mul unat_percent)

text \<open>The tiers never come out of order by more than their percentages: each threshold is within the usable
  window, and a smaller percentage gives a smaller threshold.\<close>

lemma window_fraction_le: "window_fraction c p \<le> effective_window c"
  unfolding word_le_nat_alt window_fraction_unat by (rule scaled_le) simp

lemma window_fraction_mono: "p \<le> q \<Longrightarrow> window_fraction c p \<le> window_fraction c q"
  unfolding word_le_nat_alt window_fraction_unat
  by (intro div_le_mono min.mono mult_le_mono) auto

lemma high_water_le: "min_items_bypass_threshold c \<le> effective_window c"
  unfolding word_le_nat_alt min_items_bypass_threshold_def HIGH_WATER_BYPASS_PCT_def
  by (simp add: unat_div unat_saturating_mul scaled_le)

end
