(* ===== verification/MediaStrip.thy ===== *)
theory MediaStrip
  imports ContextBudget
begin

text \<open>
  Media taken out of a conversation before it is summarised
  (\<open>strip_media_for_compaction\<close> of \<open>crates/squeezy-agent/src/context_compaction.rs\<close>).  The code scans bytes; every
  character it tests is ASCII, so the scan is the same on the characters.
\<close>

section \<open>Data URIs\<close>

definition STRIP_MEDIA_MIN_LEN :: nat where "STRIP_MEDIA_MIN_LEN = 100"

definition image_placeholder :: str where "image_placeholder = lit ''[image]''"

definition document_placeholder :: str where "document_placeholder = lit ''[document]''"

text \<open>The loop over the MIME type: where it stops, at the semicolon or the end, and whether it saw a slash.\<close>

fun scan_mime :: "str \<Rightarrow> bool \<Rightarrow> (nat \<times> bool) option" where
  "scan_mime [] saw_slash = Some (0, saw_slash)"
| "scan_mime (c # cs) saw_slash =
     (if c = SEMI then Some (0, saw_slash)
      else if c = SLASH then map_option (\<lambda>(n, s). (Suc n, s)) (scan_mime cs True)
      else if is_alnum c \<or> c \<in> {43, DASH, DOT} then map_option (\<lambda>(n, s). (Suc n, s)) (scan_mime cs saw_slash)
      else None)"

definition match_data_uri_prefix :: "str \<Rightarrow> nat option" where
  "match_data_uri_prefix s =
     (case strip_prefix s (lit ''data:'') of None \<Rightarrow> None
      | Some rest \<Rightarrow>
          (case scan_mime rest False of None \<Rightarrow> None
           | Some (n, saw_slash) \<Rightarrow>
               if \<not> saw_slash then None
               else if starts_with (drop n rest) (lit '';base64,'') then Some (5 + n + 8) else None))"

definition base64_char :: "uchar \<Rightarrow> bool" where
  "base64_char c \<longleftrightarrow> is_alnum c \<or> c \<in> {43, SLASH, EQUALS}"

definition scan_base64_payload :: "str \<Rightarrow> str" where
  "scan_base64_payload = dropWhile base64_char"

definition media_placeholder :: "str \<Rightarrow> str" where
  "media_placeholder matched =
     (if starts_with matched (lit ''data:application/'') then document_placeholder else image_placeholder)"

function strip_media_data_uris :: "str \<Rightarrow> str" where
  "strip_media_data_uris [] = []"
| "strip_media_data_uris (c # cs) =
     (case match_data_uri_prefix (c # cs) of
        Some n \<Rightarrow> media_placeholder (take n (c # cs)) @ strip_media_data_uris (scan_base64_payload (drop n (c # cs)))
      | None \<Rightarrow> c # strip_media_data_uris cs)"
  by pat_completeness auto
termination
proof (relation "measure length")
  fix c cs n
  assume "match_data_uri_prefix (c # cs) = Some n"
  then have "0 < n" by (auto simp: match_data_uri_prefix_def split: option.splits if_splits)
  then have "length (drop n (c # cs)) < length (c # cs)" by simp
  then show "(scan_base64_payload (drop n (c # cs)), c # cs) \<in> measure length"
    using length_dropWhile_le [of base64_char "drop n (c # cs)"]
    by (simp add: scan_base64_payload_def del: length_drop)
qed simp_all

section \<open>Items\<close>

fun strip_part :: "tool_result_part \<Rightarrow> tool_result_part" where
  "strip_part (TextPart t) = TextPart (strip_media_data_uris t)"
| "strip_part (ImagePart media bytes) = TextPart image_placeholder"

definition strip_media_content_parts :: "tool_result_part list \<Rightarrow> tool_result_part list" where
  "strip_media_content_parts = map strip_part"

fun strip_media_item :: "llm_item \<Rightarrow> llm_item" where
  "strip_media_item (FunctionCallOutput call_id result parts is_error) =
     (let stripped = map_option strip_media_content_parts parts
      in if byte_len result < STRIP_MEDIA_MIN_LEN \<and> stripped = None
         then FunctionCallOutput call_id result parts is_error
         else FunctionCallOutput call_id
                (if byte_len result < STRIP_MEDIA_MIN_LEN then result else strip_media_data_uris result) stripped is_error)"
| "strip_media_item item = item"

definition strip_media_for_compaction :: "conversation \<Rightarrow> conversation" where
  "strip_media_for_compaction = map strip_media_item"

section \<open>No data URI is left\<close>

lemma scan_mime_local:
  "scan_mime (p @ LBRACKET # q) saw = Some (n, b) \<Longrightarrow> n < length p \<and> scan_mime (p @ r) saw = Some (n, b)"
proof (induction p arbitrary: saw n b)
  case Nil
  then show ?case by (simp add: is_alnum_def is_digit_def is_alpha_def)
next
  case (Cons c p)
  then show ?case by (fastforce split: if_splits)
qed

lemma starts_with_local:
  assumes "starts_with (p @ x # q) w" "x \<notin> set w"
  shows "starts_with (p @ r) w"
proof -
  from assms(1) obtain t where t: "p @ x # q = w @ t" by (auto simp: starts_with_iff)
  have "length w \<le> length p"
  proof (rule ccontr)
    assume "\<not> length w \<le> length p"
    then have "x = w ! length p" "length p < length w"
      using arg_cong [OF t, of "\<lambda>l. l ! length p"] by (simp_all add: nth_append)
    with assms(2) show False by simp
  qed
  then have "w = take (length w) p" using arg_cong [OF t, of "take (length w)"] by simp
  then show ?thesis using \<open>length w \<le> length p\<close> by (simp add: starts_with_def)
qed

lemma match_iff:
  "match_data_uri_prefix s = Some n \<longleftrightarrow>
     (\<exists>rest m. s = lit ''data:'' @ rest \<and> scan_mime rest False = Some (m, True)
        \<and> starts_with (drop m rest) (lit '';base64,'') \<and> n = 5 + m + 8)"
proof (cases "strip_prefix s (lit ''data:'')")
  case None
  then have "\<not> starts_with s (lit ''data:'')" by (simp add: strip_prefix_None_iff)
  then have "\<nexists>rest. s = lit ''data:'' @ rest" by (auto simp: starts_with_iff)
  then show ?thesis using None by (simp add: match_data_uri_prefix_def)
next
  case (Some rest)
  then have s: "s = lit ''data:'' @ r \<longleftrightarrow> r = rest" for r by (auto simp: strip_prefix_Some_iff)
  show ?thesis
  proof (cases "scan_mime rest False")
    case None
    then show ?thesis by (simp add: match_data_uri_prefix_def Some s)
  next
    case scanned: (Some mb)
    then show ?thesis by (cases mb) (auto simp: match_data_uri_prefix_def Some s)
  qed
qed

lemma match_local:
  assumes "match_data_uri_prefix (p @ LBRACKET # q) = Some n"
  shows "match_data_uri_prefix (p @ r) = Some n"
proof -
  let ?w = "lit ''data:''"
  from assms obtain rest m where m: "p @ LBRACKET # q = ?w @ rest" "scan_mime rest False = Some (m, True)"
      "starts_with (drop m rest) (lit '';base64,'')" "n = 5 + m + 8" unfolding match_iff by blast
  have lb: "LBRACKET \<notin> set ?w" "LBRACKET \<notin> set (lit '';base64,'')" by (simp_all add: lit_def)
  have "starts_with (p @ LBRACKET # q) ?w" using m(1) by simp
  from starts_with_local [OF this lb(1), of "[]"] obtain p' where p: "p = ?w @ p'" by (auto simp: starts_with_iff)
  have rest: "rest = p' @ LBRACKET # q" using m(1) unfolding p by simp
  have loc: "m < length p'" "scan_mime (p' @ r) False = Some (m, True)"
    using scan_mime_local [of p' q False m True r] m(2) unfolding rest by auto
  have "starts_with (drop m p' @ LBRACKET # q) (lit '';base64,'')" using m(3) loc(1) unfolding rest by simp
  from starts_with_local [OF this lb(2)] have "starts_with (drop m (p' @ r)) (lit '';base64,'')" using loc(1) by simp
  moreover have "p @ r = ?w @ (p' @ r)" unfolding p by simp
  ultimately show ?thesis unfolding match_iff using m(4) loc(2) by blast
qed

lemma strip_shape: "strip_media_data_uris s = s \<or> (\<exists>p q r. strip_media_data_uris s = p @ LBRACKET # q \<and> s = p @ r)"
proof (induction s rule: strip_media_data_uris.induct)
  case (2 c cs)
  show ?case
  proof (cases "match_data_uri_prefix (c # cs)")
    case None
    then have eq: "strip_media_data_uris (c # cs) = c # strip_media_data_uris cs" by simp
    from 2(1) [OF None] show ?thesis
    proof (elim disjE exE conjE)
      fix p q r
      assume "strip_media_data_uris cs = p @ LBRACKET # q" "cs = p @ r"
      then have "strip_media_data_uris (c # cs) = (c # p) @ LBRACKET # q" "c # cs = (c # p) @ r" using eq by simp_all
      then show ?thesis by blast
    qed (simp add: eq del: strip_media_data_uris.simps)
  next
    case (Some n)
    have "\<exists>q. media_placeholder (take n (c # cs)) = LBRACKET # q"
      by (simp add: media_placeholder_def document_placeholder_def image_placeholder_def lit_def)
    then obtain q where "strip_media_data_uris (c # cs)
        = [] @ LBRACKET # (q @ strip_media_data_uris (scan_base64_payload (drop n (c # cs))))" using Some by auto
    then show ?thesis by blast
  qed
qed simp

lemma match_head: "match_data_uri_prefix s \<noteq> None \<Longrightarrow> \<exists>t. s = 100 # 97 # t"
  by (auto simp: match_iff lit_def)

lemma no_match_in_placeholder:
  assumes "k < length (media_placeholder m)"
  shows "match_data_uri_prefix (drop k (media_placeholder m @ s)) = None"
proof (rule ccontr)
  let ?ph = "media_placeholder m"
  assume "\<not> ?thesis"
  then obtain t where t: "drop k (?ph @ s) = 100 # 97 # t" using match_head by blast
  have nth: "(?ph @ s) ! (k + i) = (100 # 97 # t) ! i" for i
    using nth_drop [of k "?ph @ s" i] assms t by simp
  have at: "?ph ! k = 100" "(?ph @ s) ! Suc k = 97"
    using nth [of 0] nth [of 1] assms by (simp_all add: nth_append)
  consider "?ph = document_placeholder" | "?ph = image_placeholder" unfolding media_placeholder_def by presburger
  then show False
  proof cases
    case 1
    have "\<forall>i < length document_placeholder. document_placeholder ! i = 100 \<longrightarrow> i = 1" by code_simp
    then have "k = 1" using assms at(1) 1 by simp
    then show False using at(2) 1 by (simp add: document_placeholder_def lit_def)
  next
    case 2
    have "\<forall>i < length image_placeholder. image_placeholder ! i \<noteq> 100" by code_simp
    then show False using assms at(1) 2 by simp
  qed
qed

lemma strip_clean: "match_data_uri_prefix (drop k (strip_media_data_uris s)) = None"
proof (induction s arbitrary: k rule: strip_media_data_uris.induct)
  case 1
  then show ?case by (simp add: match_data_uri_prefix_def strip_prefix_def starts_with_def)
next
  case (2 c cs)
  show ?case
  proof (cases "match_data_uri_prefix (c # cs)")
    case None
    then have eq: "strip_media_data_uris (c # cs) = c # strip_media_data_uris cs" by simp
    show ?thesis
    proof (cases k)
      case 0
      show ?thesis
      proof (rule ccontr)
        assume "\<not> ?thesis"
        then obtain n where n: "match_data_uri_prefix (c # strip_media_data_uris cs) = Some n" using 0 eq by auto
        from strip_shape [of cs] show False
        proof (elim disjE exE conjE)
          fix p q r
          assume "strip_media_data_uris cs = p @ LBRACKET # q" "cs = p @ r"
          then show False using n None match_local [of "c # p" q n r] by simp
        qed (use n None in simp)
      qed
    next
      case (Suc k')
      then show ?thesis using 2(1) [OF None] eq by simp
    qed
  next
    case (Some n)
    let ?ph = "media_placeholder (take n (c # cs))"
    show ?thesis
    proof (cases "k < length ?ph")
      case True
      then show ?thesis using Some no_match_in_placeholder by simp
    next
      case False
      then show ?thesis using Some 2(2) [OF Some] by simp
    qed
  qed
qed

lemma clean_stays: "(\<And>k. match_data_uri_prefix (drop k s) = None) \<Longrightarrow> strip_media_data_uris s = s"
proof (induction s)
  case (Cons c cs)
  have "match_data_uri_prefix (c # cs) = None" using Cons.prems [of 0] by simp
  moreover have "strip_media_data_uris cs = cs" using Cons.prems [of "Suc _"] by (intro Cons.IH) simp
  ultimately show ?case by simp
qed simp

lemma matched_at_least: "match_data_uri_prefix s = Some n \<Longrightarrow> 14 \<le> n \<and> n \<le> length s"
proof -
  assume "match_data_uri_prefix s = Some n"
  then obtain rest m where s: "s = lit ''data:'' @ rest" and m: "scan_mime rest False = Some (m, True)"
      "starts_with (drop m rest) (lit '';base64,'')" "n = 5 + m + 8" unfolding match_iff by blast
  have "m \<noteq> 0" using m(1) by (cases rest) (auto split: if_splits)
  moreover have "8 \<le> length rest - m" using m(2) by (auto simp: starts_with_iff dest: arg_cong [of _ _ length])
  ultimately show ?thesis using s m(3) by simp
qed

lemma placeholder_bytes: "byte_len (media_placeholder m) \<le> 10"
  by (simp add: media_placeholder_def document_placeholder_def image_placeholder_def lit_def utf8_width_def)

lemma strip_bytes: "byte_len (strip_media_data_uris s) \<le> byte_len s"
proof (induction s rule: strip_media_data_uris.induct)
  case (2 c cs)
  show ?case
  proof (cases "match_data_uri_prefix (c # cs)")
    case None
    with 2(1) [OF None] show ?thesis by simp
  next
    case (Some n)
    let ?rest = "drop n (c # cs)"
    have "byte_len (scan_base64_payload ?rest) \<le> byte_len ?rest"
      unfolding scan_base64_payload_def by (metis byte_len_append le_add2 takeWhile_dropWhile_id)
    moreover have "byte_len (c # cs) = byte_len (take n (c # cs)) + byte_len ?rest"
      by (metis append_take_drop_id byte_len_append)
    moreover have "14 \<le> byte_len (take n (c # cs))"
      using length_le_byte_len [of "take n (c # cs)"] matched_at_least [OF Some] by simp
    ultimately show ?thesis using Some 2(2) [OF Some] placeholder_bytes [of "take n (c # cs)"] by simp
  qed
qed simp

text \<open>C16: no data URI is left.  Nowhere in the stripped text does a base64 data URI begin, not even one put together by a
  replacement; the text does not grow; and stripping it again changes nothing.\<close>

theorem strip_leaves_no_data_uri:
  "match_data_uri_prefix (drop k (strip_media_data_uris s)) = None
   \<and> byte_len (strip_media_data_uris s) \<le> byte_len s
   \<and> strip_media_data_uris (strip_media_data_uris s) = strip_media_data_uris s"
  by (intro conjI strip_clean strip_bytes clean_stays)

lemma strip_item_ids [simp]:
  "declared_id (strip_media_item item) = declared_id item" "answered_id (strip_media_item item) = answered_id item"
  by (cases item; simp add: Let_def)+

end
