(* ===== verification/CompactionSummary.thy ===== *)
theory CompactionSummary
  imports MediaStrip PermissionPersist OrdMap PatchText
begin

text \<open>
  The summary that replaces the older part of a conversation: \<open>build_compaction_summary\<close> and the line builders
  it calls (\<open>crates/squeezy-agent/src/context_compaction.rs\<close>), with the text helpers of
  \<open>crates/squeezy-agent/src/lib.rs\<close> and \<open>crates/squeezy-core/src/lib.rs\<close>.
\<close>

section \<open>Text helpers\<close>

definition collapse_status_text :: "str \<Rightarrow> str" where
  "collapse_status_text t = join [SPACE] (split_ws t)"

definition truncate_status_chars :: "str \<Rightarrow> nat \<Rightarrow> str" where
  "truncate_status_chars t max_chars =
     (if length t \<le> max_chars then t else take (max_chars - 13) t @ lit '' [truncated]'')"

definition compact_text :: "str \<Rightarrow> nat \<Rightarrow> str" where
  "compact_text t max_chars = truncate_status_chars (collapse_status_text t) max_chars"

text \<open>The longest prefix of whole characters within a number of bytes: the loop walks back to a character boundary.\<close>

fun utf8_floor :: "nat \<Rightarrow> str \<Rightarrow> str" where
  "utf8_floor n [] = []"
| "utf8_floor n (c # cs) = (if utf8_width c \<le> n then c # utf8_floor (n - utf8_width c) cs else [])"

definition truncate_utf8 :: "str \<Rightarrow> nat \<Rightarrow> str \<times> bool" where
  "truncate_utf8 t max_bytes =
     (if max_bytes = 0 then ([], t \<noteq> [])
      else if byte_len t \<le> max_bytes then (t, False)
      else (utf8_floor max_bytes t, True))"

definition context_attachment_preview :: "str \<Rightarrow> nat \<Rightarrow> str \<times> bool" where
  "context_attachment_preview = truncate_utf8"

definition keep_last :: "nat \<Rightarrow> 'a list \<Rightarrow> 'a list" where
  "keep_last n xs = drop (length xs - n) xs"

section \<open>Data\<close>

record context_pin =
  pin_id :: str
  pin_label :: str
  pin_summary :: str
  pin_origin :: str
  pin_created_ms :: u64

datatype attachment_status = Attached | Removed | Unsupported

datatype attachment_kind =
  LogKind | StackTraceKind | ConfigKind | TextKind | UnsupportedBinaryKind | UnsupportedImageKind | ImageKind | DocumentKind

fun attachment_kind_str :: "attachment_kind \<Rightarrow> str" where
  "attachment_kind_str LogKind = lit ''log''"
| "attachment_kind_str StackTraceKind = lit ''stack_trace''"
| "attachment_kind_str ConfigKind = lit ''config''"
| "attachment_kind_str TextKind = lit ''text''"
| "attachment_kind_str UnsupportedBinaryKind = lit ''unsupported_binary''"
| "attachment_kind_str UnsupportedImageKind = lit ''unsupported_image''"
| "attachment_kind_str ImageKind = lit ''image''"
| "attachment_kind_str DocumentKind = lit ''document''"

text \<open>The fields of an attachment that the summary reads.\<close>

record context_attachment =
  att_id :: str
  att_kind :: attachment_kind
  att_status :: attachment_status
  att_original_bytes :: nat
  att_preview :: str

definition is_active :: "context_attachment \<Rightarrow> bool" where
  "is_active a = (att_status a = Attached)"

datatype observation_kind = Preference | DecisionNote | Convention | DeadEnd | PlainNote

fun observation_label :: "observation_kind \<Rightarrow> str" where
  "observation_label Preference = lit ''preference''"
| "observation_label DecisionNote = lit ''decision''"
| "observation_label Convention = lit ''convention''"
| "observation_label DeadEnd = lit ''deadend''"
| "observation_label PlainNote = lit ''note''"

record observation =
  obs_id :: str
  obs_kind :: observation_kind
  obs_text :: str
  obs_updated_ms :: nat

record stored_receipt =
  sr_tool_name :: str
  sr_stable_sha256 :: str
  sr_call_id :: str
  sr_content_sha256 :: "str option"
  sr_model_output_bytes :: nat
  sr_created_ms :: nat
  sr_summary :: "str option"

text \<open>What the store answers: the rows of a table, or no answer when the database fails.\<close>

record summary_store =
  ss_observations :: "observation list option"
  ss_receipts :: "stored_receipt list option"

definition list_recent_observations :: "nat \<Rightarrow> observation list option \<Rightarrow> observation list option" where
  "list_recent_observations limit rows =
     (if limit = 0 then Some []
      else map_option (\<lambda>all. take limit (sort_key (\<lambda>o'. - int (obs_updated_ms o')) (sort_key obs_id all))) rows)"

section \<open>Files\<close>

datatype file_op_class = ReadOp | ModifiedOp | NoFileOp

definition classify_file_tool :: "str \<Rightarrow> file_op_class" where
  "classify_file_tool name =
     (if one_of name [''read_file'', ''read_slice''] then ReadOp
      else if one_of name [''write_file'', ''notebook_edit'', ''apply_patch''] then ModifiedOp else NoFileOp)"

definition json_get_str :: "str \<Rightarrow> json \<Rightarrow> str list" where
  "json_get_str key value = (case Option.bind (json_get key value) json_as_str of None \<Rightarrow> [] | Some s \<Rightarrow> [s])"

definition json_get_array :: "str \<Rightarrow> json \<Rightarrow> json list" where
  "json_get_array key value = (case Option.bind (json_get key value) json_as_array of None \<Rightarrow> [] | Some vs \<Rightarrow> vs)"

text \<open>The paths \<open>visit_tool_paths\<close> visits, in order.\<close>

definition visit_tool_paths :: "str \<Rightarrow> json \<Rightarrow> str list" where
  "visit_tool_paths name arguments =
     json_get_str (lit ''path'') arguments @
     (if name = lit ''apply_patch''
      then concat (map (json_get_str (lit ''path'')) (json_get_array (lit ''patches'') arguments)) @
           concat (map (\<lambda>entry. json_get_str (lit ''path'') entry @ json_get_str (lit ''from'') entry @ json_get_str (lit ''to'') entry)
             (json_get_array (lit ''operations'') arguments))
      else [])"

text \<open>The vector and the set of the paths in it: the set is read off the vector.\<close>

definition push_unique_path :: "str \<Rightarrow> str list \<Rightarrow> str list" where
  "push_unique_path path paths = (if path \<in> set paths then paths else paths @ [path])"

fun file_paths :: "file_op_class \<Rightarrow> llm_item \<Rightarrow> str list" where
  "file_paths op (FunctionCall call_id name arguments) =
     (if classify_file_tool name = op then visit_tool_paths name arguments else [])"
| "file_paths op _ = []"

definition parse_file_lineage_block :: "str \<Rightarrow> str \<Rightarrow> str list" where
  "parse_file_lineage_block summary tag =
     (let opening = [LESS] @ tag @ [GREATER]; closing = [LESS, SLASH] @ tag @ [GREATER]
      in case find_str summary opening of None \<Rightarrow> []
         | Some open_pos \<Rightarrow>
             (let rest = drop (open_pos + length opening) summary
              in case find_str rest closing of None \<Rightarrow> []
                 | Some close_rel \<Rightarrow> List.filter (\<lambda>l. l \<noteq> []) (map trim (text_lines (take close_rel rest)))))"

definition file_lineage_block :: "str \<Rightarrow> str list \<Rightarrow> str" where
  "file_lineage_block tag paths = [LESS] @ tag @ [GREATER, NL] @ join [NL] paths @ [NL, LESS, SLASH] @ tag @ [GREATER]"

definition COMPACTION_FILE_LINEAGE_LIMIT :: nat where "COMPACTION_FILE_LINEAGE_LIMIT = 50"

definition lineage_of :: "file_op_class \<Rightarrow> str \<Rightarrow> conversation \<Rightarrow> str option \<Rightarrow> str list" where
  "lineage_of op tag older previous =
     (let seeded = (case previous of None \<Rightarrow> [] | Some p \<Rightarrow> fold push_unique_path (parse_file_lineage_block p tag) [])
      in fold push_unique_path (concat (map (file_paths op) older)) seeded)"

definition file_lineage :: "conversation \<Rightarrow> str option \<Rightarrow> str list \<times> str list" where
  "file_lineage older previous =
     (let modified = lineage_of ModifiedOp (lit ''modified-files'') older previous;
          read = List.filter (\<lambda>p. p \<notin> set modified) (lineage_of ReadOp (lit ''read-files'') older previous)
      in (sort (keep_last COMPACTION_FILE_LINEAGE_LIMIT read), sort (keep_last COMPACTION_FILE_LINEAGE_LIMIT modified)))"

definition file_lineage_blocks :: "conversation \<Rightarrow> str option \<Rightarrow> str list" where
  "file_lineage_blocks older previous =
     (case file_lineage older previous of (read, modified) \<Rightarrow>
        (if read = [] then [] else [file_lineage_block (lit ''read-files'') read]) @
        (if modified = [] then [] else [file_lineage_block (lit ''modified-files'') modified]))"

section \<open>Lines\<close>

definition decision_like :: "str \<Rightarrow> bool" where
  "decision_like lower \<longleftrightarrow> contains lower (lit ''decision'') \<or> contains lower (lit ''decided'') \<or> contains lower (lit ''plan'')
     \<or> contains lower (lit ''assumption'') \<or> contains lower (lit ''must'') \<or> contains lower (lit ''should'')"

fun durable_line :: "(json \<Rightarrow> str) \<Rightarrow> llm_item \<Rightarrow> str list" where
  "durable_line json_text (UserText t) =
     (let compact = compact_text t 320 in if compact = [] then [] else [lit ''- user: '' @ compact])"
| "durable_line json_text (AssistantText t) =
     (let compact = compact_text t 320
      in if decision_like (to_lower compact) then [lit ''- assistant: '' @ compact] else [])"
| "durable_line json_text (FunctionCall call_id name arguments) =
     [lit ''- tool call '' @ name @ lit '' args='' @ compact_text (json_text arguments) 260]"
| "durable_line json_text (FunctionCallOutput call_id result parts is_error) =
     [lit ''- tool output '' @ call_id @ lit '': '' @ compact_text result 260]"
| "durable_line json_text (Reasoning payload) = []"
| "durable_line json_text (ImageItem media bytes) = [lit ''- user image: '' @ media]"
| "durable_line json_text (DocumentItem media name bytes) = [lit ''- user document '' @ name @ lit '': '' @ media]"

definition COMPACTION_DURABLE_LINES_LIMIT :: nat where "COMPACTION_DURABLE_LINES_LIMIT = 24"

definition durable_context_lines :: "(json \<Rightarrow> str) \<Rightarrow> conversation \<Rightarrow> str list" where
  "durable_context_lines json_text items =
     keep_last COMPACTION_DURABLE_LINES_LIMIT (concat (map (durable_line json_text) items))"

fun prose_lines :: "llm_item \<Rightarrow> str list" where
  "prose_lines (UserText t) = text_lines t"
| "prose_lines (AssistantText t) = text_lines t"
| "prose_lines _ = []"

definition COMPACTION_UNRESOLVED_LINES_LIMIT :: nat where "COMPACTION_UNRESOLVED_LINES_LIMIT = 8"

definition unresolved_question_lines :: "conversation \<Rightarrow> str list" where
  "unresolved_question_lines items =
     keep_last COMPACTION_UNRESOLVED_LINES_LIMIT
       (map (\<lambda>line. [DASH, SPACE] @ compact_text (collapse_status_text line) 240)
         (List.filter (\<lambda>line. QMARK \<in> set line) (concat (map prose_lines items))))"

definition receipt_line :: "stored_receipt \<Rightarrow> str" where
  "receipt_line r =
     [DASH, SPACE] @ compact_text
       (case sr_summary r of Some s \<Rightarrow> s
        | None \<Rightarrow> sr_tool_name r @ lit '' output '' @ show_nat (sr_model_output_bytes r) @ lit ''B sha='' @ sr_stable_sha256 r) 260"

definition COMPACTION_RECEIPT_LINES_LIMIT :: nat where "COMPACTION_RECEIPT_LINES_LIMIT = 12"

definition receipt_summary_lines :: "summary_store option \<Rightarrow> str list option" where
  "receipt_summary_lines store =
     (case Option.bind store ss_receipts of None \<Rightarrow> None
      | Some receipts \<Rightarrow>
          if receipts = [] then None
          else Some (map receipt_line (take COMPACTION_RECEIPT_LINES_LIMIT (sort_key (\<lambda>r. - int (sr_created_ms r)) receipts))))"

definition observation_line :: "observation \<Rightarrow> str" where
  "observation_line o' = lit ''- ['' @ observation_label (obs_kind o') @ lit ''] '' @ compact_text (obs_text o') 320"

definition pin_line :: "context_pin \<Rightarrow> str" where
  "pin_line p = [DASH, SPACE] @ pin_id p @ [SPACE] @ pin_label p @ lit '': '' @ compact_text (pin_summary p) 400"

definition attachment_line :: "context_attachment \<Rightarrow> str" where
  "attachment_line a =
     [DASH, SPACE] @ att_id a @ [SPACE] @ attachment_kind_str (att_kind a) @ [SPACE] @ show_nat (att_original_bytes a)
     @ lit ''B preview='' @ compact_text (collapse_status_text (att_preview a)) 220"

text \<open>A heading and its lines, when there are any.\<close>

definition titled :: "string \<Rightarrow> str list \<Rightarrow> str list" where
  "titled title ls = (if ls = [] then [] else lit title # ls)"

definition summary_head :: "u64 \<Rightarrow> str option \<Rightarrow> str list" where
  "summary_head generation previous =
     [lit ''Squeezy compacted conversation context (generation '' @ show_nat (unat generation) @ lit '').'',
      lit ''Preserve these durable facts, decisions, pinned entries, seen-file receipts, and unresolved questions; do not ask for raw output already summarized here unless it is needed again.'']
     @ (case previous of None \<Rightarrow> [] | Some s \<Rightarrow> [lit ''Previous compacted summary: '' @ compact_text s 1200])"

definition summary_lines ::
  "(json \<Rightarrow> str) \<Rightarrow> u64 \<Rightarrow> str option \<Rightarrow> context_pin list \<Rightarrow> conversation \<Rightarrow> context_attachment list
     \<Rightarrow> summary_store option \<Rightarrow> str list" where
  "summary_lines json_text generation previous pinned older attachments store =
     summary_head generation previous
     @ titled ''Pinned context:'' (map pin_line pinned)
     @ (case Option.bind store (\<lambda>s. list_recent_observations 5 (ss_observations s)) of None \<Rightarrow> []
        | Some recent \<Rightarrow> titled ''Prior decisions and notes (notes_recall):'' (map observation_line (take 5 recent)))
     @ titled ''Durable conversation facts and decisions:'' (durable_context_lines json_text older)
     @ titled ''Unresolved questions:'' (unresolved_question_lines older)
     @ titled ''Active attached context:'' (map attachment_line (List.filter is_active attachments))
     @ (case receipt_summary_lines store of None \<Rightarrow> []
        | Some receipts \<Rightarrow> lit ''Tool/file output receipts already seen:'' # receipts)
     @ [lit ''Compacted '' @ show_nat (length older)
        @ lit '' older model-visible item(s); the most recent context remains verbatim after this summary.'']
     @ file_lineage_blocks older previous"

definition build_compaction_summary ::
  "(json \<Rightarrow> str) \<Rightarrow> compaction_config \<Rightarrow> u64 \<Rightarrow> str option \<Rightarrow> context_pin list \<Rightarrow> conversation \<Rightarrow> context_attachment list
     \<Rightarrow> summary_store option \<Rightarrow> str" where
  "build_compaction_summary json_text c generation previous pinned older attachments store =
     fst (context_attachment_preview
       (join [NL] (summary_lines json_text generation previous pinned older attachments store)) (cc_max_summary_bytes c))"

section \<open>The structured summary a model writes\<close>

definition REQUIRED_COMPACTION_SLOTS :: "str list" where
  "REQUIRED_COMPACTION_SLOTS = map lit [''goal'', ''progress'', ''decisions'', ''next'']"

definition HASH :: uchar where "HASH = 35"

definition heading_words :: "str \<Rightarrow> str list" where
  "heading_words line =
     (let trimmed = trim_start_matches is_ws line
      in if starts_with trimmed [HASH]
         then split_on (\<lambda>c. \<not> is_alnum c) (to_lower (trim (trim_start_matches (\<lambda>c. c = HASH) trimmed)))
         else [])"

definition is_structured_compaction_summary :: "str \<Rightarrow> bool" where
  "is_structured_compaction_summary t =
     list_all (\<lambda>keyword. list_ex (\<lambda>line. keyword \<in> set (heading_words line)) (text_lines t)) REQUIRED_COMPACTION_SLOTS"

section \<open>Bounds\<close>

lemma utf8_floor_bytes: "byte_len (utf8_floor n s) \<le> n"
  by (induction n s rule: utf8_floor.induct) auto

lemma utf8_floor_prefix: "\<exists>rest. s = utf8_floor n s @ rest"
  by (induction n s rule: utf8_floor.induct) auto

lemma truncate_utf8_bytes: "byte_len (fst (truncate_utf8 s n)) \<le> n"
  by (simp add: truncate_utf8_def utf8_floor_bytes)

lemma length_keep_last [simp]: "length (keep_last n xs) = min n (length xs)"
  by (simp add: keep_last_def)

lemma set_keep_last: "set (keep_last n xs) \<subseteq> set xs"
  by (simp add: keep_last_def set_drop_subset)

lemma push_all:
  "set (fold push_unique_path ps acc) = set acc \<union> set ps" "distinct acc \<Longrightarrow> distinct (fold push_unique_path ps acc)"
proof (induction ps arbitrary: acc)
  case (Cons p ps)
  {
    case 1
    show ?case by (simp add: Cons.IH(1)) (auto simp: push_unique_path_def)
  next
    case 2
    then have "distinct (push_unique_path p acc)" by (simp add: push_unique_path_def)
    from Cons.IH(2) [OF this] show ?case by simp
  }
qed simp_all

lemma lineage_of_distinct: "distinct (lineage_of op tag older previous)"
  unfolding lineage_of_def Let_def by (cases previous) (simp_all add: push_all(2))

lemma distinct_keep_last: "distinct xs \<Longrightarrow> distinct (keep_last n xs)"
  by (simp add: keep_last_def)

text \<open>The lineage stays bounded and unambiguous.  Each of the two lists is strictly sorted and holds at most fifty paths; no
  path is in both; and when nothing overflows, the modified list is exactly what the earlier summary named and what the
  dropped calls modified.\<close>

theorem lineage_is_bounded:
  "case file_lineage older previous of (read, modified) \<Rightarrow>
     sorted_wrt (<) read \<and> sorted_wrt (<) modified \<and> length read \<le> 50 \<and> length modified \<le> 50
     \<and> set read \<inter> set modified = {}
     \<and> (length (lineage_of ModifiedOp (lit ''modified-files'') older previous) \<le> 50 \<longrightarrow>
          set modified = set (case previous of None \<Rightarrow> [] | Some p \<Rightarrow> parse_file_lineage_block p (lit ''modified-files''))
            \<union> (\<Union>item \<in> set older. set (file_paths ModifiedOp item)))"
proof -
  let ?m = "lineage_of ModifiedOp (lit ''modified-files'') older previous"
  let ?r = "List.filter (\<lambda>p. p \<notin> set ?m) (lineage_of ReadOp (lit ''read-files'') older previous)"
  have strict: "distinct xs \<Longrightarrow> sorted_wrt (<) (sort (keep_last 50 xs))" for xs :: "str list"
    by (simp add: strict_sorted_iff distinct_keep_last)
  have all: "set ?m = set (case previous of None \<Rightarrow> [] | Some p \<Rightarrow> parse_file_lineage_block p (lit ''modified-files''))
      \<union> (\<Union>item \<in> set older. set (file_paths ModifiedOp item))"
    by (cases previous) (simp_all add: lineage_of_def push_all(1))
  have "set (keep_last 50 ?r) \<inter> set (keep_last 50 ?m) = {}"
    using set_keep_last [of 50 ?r] set_keep_last [of 50 ?m] by auto
  moreover have "length ?m \<le> 50 \<Longrightarrow> keep_last 50 ?m = ?m" by (simp add: keep_last_def)
  ultimately show ?thesis
    using strict [of ?r] strict [of ?m] all
    by (simp add: file_lineage_def Let_def COMPACTION_FILE_LINEAGE_LIMIT_def lineage_of_distinct)
qed

text \<open>The summary stays within its budget.  Whatever the pins, notes, receipts and files, the head that replaces the older
  items is at most \<open>max_summary_bytes\<close> long.\<close>

theorem summary_within_budget:
  "byte_len (build_compaction_summary json_text c generation previous pinned older attachments store) \<le> cc_max_summary_bytes c"
  by (simp add: build_compaction_summary_def context_attachment_preview_def truncate_utf8_bytes)

section \<open>Reading the lineage back\<close>

lemma find_str_skip: "p = x # q \<Longrightarrow> x \<notin> set s \<Longrightarrow> find_str (s @ p @ t) p = Some (length s)"
proof (induction s)
  case (Cons c s)
  then have "\<not> starts_with (c # s @ p @ t) p" by (auto simp: starts_with_iff)
  then show ?case using Cons by simp
qed (simp add: starts_with_def)

lemma lines_from_NL: "NL \<notin> set p \<Longrightarrow> lines_from current (p @ NL # rest) = strip_cr (current @ p) # lines_from [] rest"
  by (induction p arbitrary: current) auto

definition clean_path :: "str \<Rightarrow> bool" where
  "clean_path p \<longleftrightarrow> p \<noteq> [] \<and> trim p = p \<and> NL \<notin> set p \<and> LESS \<notin> set p"

lemma lines_of_paths:
  "\<forall>p \<in> set ps. NL \<notin> set p \<Longrightarrow> ps \<noteq> [] \<Longrightarrow> lines_from [] (join [NL] ps @ [NL]) = map strip_cr ps"
proof (induction ps)
  case (Cons p ps)
  show ?case
  proof (cases ps)
    case Nil
    then show ?thesis using Cons.prems lines_from_NL [of p "[]" "[]"] by simp
  next
    case (Cons q qs)
    then show ?thesis using Cons.prems Cons.IH lines_from_NL [of p "[]"] by simp
  qed
qed simp

lemma trim_clean: "clean_path p \<Longrightarrow> trim (strip_cr p) = p"
  by (simp add: clean_path_def trim_strip_cr)

lemma set_join: "set (join sep ws) \<subseteq> set sep \<union> (\<Union>w \<in> set ws. set w)"
  by (induction sep ws rule: join.induct) auto

text \<open>The lineage is read back.  From a summary whose first opening tag is the block's own, the next compaction recovers
  the paths it wrote, in order.\<close>

theorem lineage_roundtrip:
  assumes "\<forall>p \<in> set paths. clean_path p" and "paths \<noteq> []"
    and "find_str (before @ file_lineage_block tag paths @ rest) ([LESS] @ tag @ [GREATER]) = Some (length before)"
  shows "parse_file_lineage_block (before @ file_lineage_block tag paths @ rest) tag = paths"
proof -
  let ?body = "NL # join [NL] paths @ [NL]"
  let ?closing = "[LESS, SLASH] @ tag @ [GREATER]"
  have body: "LESS \<notin> set ?body" using assms(1) set_join [of "[NL]" paths] by (auto simp: clean_path_def)
  have "find_str (?body @ ?closing @ rest) ?closing = Some (length ?body)" by (rule find_str_skip [OF _ body]) simp
  moreover have "drop (length before + length ([LESS] @ tag @ [GREATER])) (before @ file_lineage_block tag paths @ rest)
      = ?body @ ?closing @ rest"
    by (simp add: file_lineage_block_def)
  moreover have "text_lines ?body = strip_cr [] # map strip_cr paths"
    using lines_of_paths [of paths] assms(1,2) by (simp add: text_lines_def clean_path_def)
  moreover have "map (trim \<circ> strip_cr) paths = paths" using assms(1) by (intro map_idI) (simp add: trim_clean)
  moreover have "List.filter (\<lambda>l. l \<noteq> []) paths = paths" using assms(1) by (simp add: filter_id_conv clean_path_def)
  ultimately show ?thesis
    using assms(3) by (simp add: parse_file_lineage_block_def Let_def trim_strip_cr)
qed

lemma lineage_roundtrip_witness:
  "parse_file_lineage_block (lit ''x < y'' @ file_lineage_block (lit ''read-files'') [lit ''a.rs'', lit ''b c.rs''] @ []) (lit ''read-files'')
     = [lit ''a.rs'', lit ''b c.rs'']"
  by (rule lineage_roundtrip) code_simp+

text \<open>What a quoted summary does to the lineage.\<close>

lemma find_str_found: "find_str s p = Some i \<Longrightarrow> find_str (s @ t) p = Some i"
proof (induction s arbitrary: i)
  case Nil
  then have "p = []" "i = 0" by (simp_all split: if_splits)
  then show ?case by (cases t) simp_all
next
  case (Cons c s)
  show ?case
  proof (cases "starts_with (c # s) p")
    case True
    then have "starts_with (c # s @ t) p" using starts_with_appendI [of "c # s" p t] by simp
    then show ?thesis using Cons.prems True by simp
  next
    case False
    then obtain j where j: "find_str s p = Some j" "i = Suc j" using Cons.prems by auto
    then have "length p \<le> length s" using find_str_bound by fastforce
    then have "starts_with (c # s @ t) p = starts_with (c # s) p" by (simp add: starts_with_def take_Cons')
    then show ?thesis using False Cons.IH [OF j(1)] j(2) by simp
  qed
qed

lemma find_str_shift: "x \<notin> set a \<Longrightarrow> find_str (a @ s) (x # p) = map_option (\<lambda>i. length a + i) (find_str s (x # p))"
proof (induction a)
  case Nil
  show ?case by (simp add: option.map_ident)
next
  case (Cons c a)
  then have "\<not> starts_with (c # a @ s) (x # p)" by (auto simp: starts_with_iff)
  then show ?case using Cons by (simp add: option.map_comp comp_def)
qed

lemma utf8_floor_keeps: "byte_len x \<le> n \<Longrightarrow> utf8_floor n (x @ y) = x @ utf8_floor (n - byte_len x) y"
  by (induction x arbitrary: n) (auto simp: diff_diff_left)

lemma truncate_utf8_keeps: "byte_len x \<le> n \<Longrightarrow> \<exists>y'. fst (truncate_utf8 (x @ y) n) = x @ y'"
  by (auto simp: truncate_utf8_def utf8_floor_keeps)

lemma parse_lineage_found:
  assumes "find_str s ([LESS] @ tag @ [GREATER]) = Some i"
    and "find_str (drop (i + length ([LESS] @ tag @ [GREATER])) s) ([LESS, SLASH] @ tag @ [GREATER]) = Some j"
  shows "parse_file_lineage_block s tag
    = List.filter (\<lambda>l. l \<noteq> []) (map trim (text_lines (take j (drop (i + length ([LESS] @ tag @ [GREATER])) s))))"
  unfolding parse_file_lineage_block_def Let_def assms(1) option.case assms(2) ..

lemma parse_lineage_prefix:
  assumes "LESS \<notin> set a" and "find_str q ([LESS] @ tag @ [GREATER]) = Some i"
    and "find_str (drop (i + length ([LESS] @ tag @ [GREATER])) q) ([LESS, SLASH] @ tag @ [GREATER]) = Some j"
  shows "parse_file_lineage_block (a @ q @ b) tag = parse_file_lineage_block q tag"
proof -
  let ?op = "[LESS] @ tag @ [GREATER]"
  let ?cl = "[LESS, SLASH] @ tag @ [GREATER]"
  have i: "i + length ?op \<le> length q" by (rule find_str_bound [OF assms(2)])
  have op: "find_str (a @ q @ b) ?op = Some (length a + i)"
    using find_str_found [OF assms(2), of b] find_str_shift [OF assms(1), of "q @ b" "tag @ [GREATER]"] by simp
  have rest: "drop (length a + i + length ?op) (a @ q @ b) = drop (i + length ?op) q @ b"
    using i by (simp only: drop_append length_append) simp
  have cl: "find_str (drop (length a + i + length ?op) (a @ q @ b)) ?cl = Some j"
    unfolding rest by (rule find_str_found [OF assms(3)])
  have "j \<le> length (drop (i + length ?op) q)" using find_str_Some [OF assms(3)] by blast
  then show ?thesis
    unfolding parse_lineage_found [OF op cl] parse_lineage_found [OF assms(2,3)] rest by (simp only: take_append) simp
qed

lemma no_less_in_digits: "LESS \<notin> set (show_nat n)"
proof (induction n rule: show_nat.induct)
  case (1 n)
  then show ?case by (subst show_nat.simps) auto
qed

lemma head_no_less:
  "LESS \<notin> set (lit ''Squeezy compacted conversation context (generation '')" "LESS \<notin> set (lit '').'')"
  "LESS \<notin> set (lit ''Preserve these durable facts, decisions, pinned entries, seen-file receipts, and unresolved questions; do not ask for raw output already summarized here unless it is needed again.'')"
  "LESS \<notin> set (lit ''Previous compacted summary: '')"
  by (simp_all add: lit_def)

lemma join_append_ne: "xs \<noteq> [] \<Longrightarrow> ys \<noteq> [] \<Longrightarrow> join sep (xs @ ys) = join sep xs @ sep @ join sep ys"
proof (induction xs)
  case (Cons x xs)
  then show ?case by (cases "xs = []") (simp_all add: join_Cons)
qed simp

lemma split_ws_no_newline: "w \<in> set (split_ws s) \<Longrightarrow> NL \<notin> set w"
proof (induction s rule: split_ws.induct)
  case (2 c cs)
  show ?case
  proof (cases "is_ws c")
    case True
    then show ?thesis using 2 by simp
  next
    case False
    then consider "w = c # takeWhile (\<lambda>x. \<not> is_ws x) cs" | "w \<in> set (split_ws (dropWhile (\<lambda>x. \<not> is_ws x) cs))"
      using 2(3) by auto
    then show ?thesis
    proof cases
      case 1
      have "\<forall>x \<in> set (c # takeWhile (\<lambda>x. \<not> is_ws x) cs). \<not> is_ws x" using False set_takeWhileD by fastforce
      then show ?thesis using 1 is_ws_nl by blast
    next
      case 2
      then show ?thesis using "2.IH"(2) [OF False] by blast
    qed
  qed
qed simp

lemma collapsed_no_newline: "NL \<notin> set (collapse_status_text s)"
  using set_join [of "[SPACE]" "split_ws s"] split_ws_no_newline [of _ s] by (auto simp: collapse_status_text_def)

lemma text_lines_short: "NL \<notin> set s \<Longrightarrow> length (text_lines s) \<le> 1"
proof -
  have "NL \<notin> set s \<Longrightarrow> length (lines_from current s) \<le> 1" for current by (induction s arbitrary: current) auto
  then show "NL \<notin> set s \<Longrightarrow> length (text_lines s) \<le> 1" by (simp add: text_lines_def)
qed

lemma summary_starts:
  assumes "byte_len (join [NL] (summary_head generation (Some previous))) \<le> cc_max_summary_bytes c"
    and "length (collapse_status_text previous) \<le> 1200"
  obtains a rest where "LESS \<notin> set a"
    "build_compaction_summary json_text c generation (Some previous) pinned older attachments store
       = a @ collapse_status_text previous @ rest"
proof -
  let ?lines = "summary_lines json_text generation (Some previous) pinned older attachments store"
  let ?head = "summary_head generation (Some previous)"
  let ?a = "lit ''Squeezy compacted conversation context (generation '' @ show_nat (unat generation) @ lit '').'' @ [NL]
    @ lit ''Preserve these durable facts, decisions, pinned entries, seen-file receipts, and unresolved questions; do not ask for raw output already summarized here unless it is needed again.''
    @ [NL] @ lit ''Previous compacted summary: ''"
  obtain tail where tail: "?lines = ?head @ tail" "tail \<noteq> []" unfolding summary_lines_def by blast
  have "?head \<noteq> []" by (simp add: summary_head_def)
  then have j: "join [NL] ?lines = join [NL] ?head @ [NL] @ join [NL] tail" using tail by (simp add: join_append_ne)
  obtain y where y: "build_compaction_summary json_text c generation (Some previous) pinned older attachments store
      = join [NL] ?head @ y"
    using truncate_utf8_keeps [OF assms(1)] unfolding build_compaction_summary_def context_attachment_preview_def j by metis
  have "join [NL] ?head = ?a @ collapse_status_text previous"
    using assms(2) by (simp add: summary_head_def compact_text_def truncate_status_chars_def)
  moreover have "LESS \<notin> set ?a" using head_no_less no_less_in_digits by simp
  ultimately show ?thesis using that [of ?a y] y by simp
qed

text \<open>A quoted lineage collapses.  A summary that is short enough is quoted in the next one with its white space
  collapsed, tags included, ahead of that one's own blocks; what the compaction after reads back is the quotation, on one
  line, and so at most one path, whatever was dropped in between.\<close>

theorem quoted_lineage_collapses:
  assumes "length (collapse_status_text previous) \<le> 1200"
    and "find_str (collapse_status_text previous) ([LESS] @ tag @ [GREATER]) = Some i"
    and "find_str (drop (i + length ([LESS] @ tag @ [GREATER])) (collapse_status_text previous)) ([LESS, SLASH] @ tag @ [GREATER]) = Some j"
    and "byte_len (join [NL] (summary_head generation (Some previous))) \<le> cc_max_summary_bytes c"
  shows "parse_file_lineage_block
           (build_compaction_summary json_text c generation (Some previous) pinned older attachments store) tag
         = parse_file_lineage_block (collapse_status_text previous) tag
     \<and> length (parse_file_lineage_block (collapse_status_text previous) tag) \<le> 1"
proof
  obtain a rest where a: "LESS \<notin> set a"
    "build_compaction_summary json_text c generation (Some previous) pinned older attachments store
       = a @ collapse_status_text previous @ rest" by (rule summary_starts [OF assms(4,1)])
  show "parse_file_lineage_block
           (build_compaction_summary json_text c generation (Some previous) pinned older attachments store) tag
         = parse_file_lineage_block (collapse_status_text previous) tag"
    unfolding a(2) by (rule parse_lineage_prefix [OF a(1) assms(2,3)])
  let ?body = "take j (drop (i + length ([LESS] @ tag @ [GREATER])) (collapse_status_text previous))"
  have "NL \<notin> set ?body" using collapsed_no_newline [of previous] by (meson in_set_dropD in_set_takeD)
  then have "length (text_lines ?body) \<le> 1" by (rule text_lines_short)
  then show "length (parse_file_lineage_block (collapse_status_text previous) tag) \<le> 1"
    unfolding parse_lineage_found [OF assms(2,3)] by (metis length_filter_le length_map order_trans)
qed

lemma byte_len_lit: "byte_len (lit s) \<le> 2 * length s"
proof (induction s)
  case (Cons c s)
  have "of_char c < (2048 :: nat)" by (rule less_trans [OF nat_of_char_less_256]) simp
  then have "utf8_width (of_char c) \<le> 2" by (simp add: utf8_width_def)
  then show ?case using Cons by (simp add: lit_def)
qed simp

lemma quoted_lineage_collapses_witness:
  "parse_file_lineage_block
     (build_compaction_summary (\<lambda>_. []) default_compaction_config 2
        (Some (file_lineage_block (lit ''read-files'') [lit ''a.rs'', lit ''b.rs''])) [] [] [] None) (lit ''read-files'')
   = [lit ''a.rs b.rs'']"
proof -
  let ?prev = "file_lineage_block (lit ''read-files'') [lit ''a.rs'', lit ''b.rs'']"
  have c: "collapse_status_text ?prev = lit ''<read-files> a.rs b.rs </read-files>''" by code_simp
  have sz: "byte_len (join [NL] (summary_head 2 (Some ?prev))) \<le> cc_max_summary_bytes default_compaction_config"
  proof -
    have "compact_text ?prev 1200 = lit ''<read-files> a.rs b.rs </read-files>''" by code_simp
    moreover have "show_nat (unat (2 :: u64)) = lit ''2''" by code_simp
    ultimately show ?thesis
      using byte_len_lit [of "''Squeezy compacted conversation context (generation ''"] byte_len_lit [of "''2''"] byte_len_lit [of "'').''"]
        byte_len_lit [of "''Preserve these durable facts, decisions, pinned entries, seen-file receipts, and unresolved questions; do not ask for raw output already summarized here unless it is needed again.''"]
        byte_len_lit [of "''Previous compacted summary: ''"] byte_len_lit [of "''<read-files> a.rs b.rs </read-files>''"]
      by (simp add: summary_head_def default_compaction_config_def utf8_width_def)
  qed
  have "length (collapse_status_text ?prev) \<le> 1200" unfolding c by simp
  moreover have "find_str (collapse_status_text ?prev) ([LESS] @ lit ''read-files'' @ [GREATER]) = Some 0"
    unfolding c by code_simp
  moreover have "find_str (drop (0 + length ([LESS] @ lit ''read-files'' @ [GREATER])) (collapse_status_text ?prev))
      ([LESS, SLASH] @ lit ''read-files'' @ [GREATER]) = Some 11" unfolding c by code_simp
  moreover have "parse_file_lineage_block (collapse_status_text ?prev) (lit ''read-files'') = [lit ''a.rs b.rs'']"
    unfolding c by code_simp
  ultimately show ?thesis using quoted_lineage_collapses [of ?prev _ 0 11, OF _ _ _ sz] by metis
qed

end
