(* ===== verification/Compaction.thy ===== *)
theory Compaction
  imports CompactionSummary
begin

text \<open>
  Summarising a conversation (\<open>compact_conversation\<close>, \<open>compact_conversation_with_strategy\<close> and
  \<open>maybe_compact_conversation\<close> of \<open>crates/squeezy-agent/src/context_compaction.rs\<close>), its state, and the undo
  (\<open>compact_context_undo\<close> of \<open>crates/squeezy-agent/src/lib.rs\<close>).
\<close>

section \<open>State\<close>

datatype compaction_trigger = AutoTrigger | ManualTrigger

record compaction_record =
  cr_generation :: u64
  cr_trigger :: compaction_trigger
  cr_compacted_at_ms :: u64
  cr_before :: context_estimate
  cr_after :: context_estimate
  cr_dropped_items :: nat
  cr_summary_bytes :: nat
  cr_replacement_id :: "str option"

record compaction_state =
  cs_generation :: u64
  cs_summary :: "str option"
  cs_pinned :: "context_pin list"
  cs_last :: "compaction_record option"
  cs_history :: "compaction_record list"

definition empty_compaction_state :: compaction_state where
  "empty_compaction_state = \<lparr>cs_generation = 0, cs_summary = None, cs_pinned = [], cs_last = None, cs_history = []\<rparr>"

section \<open>Persisted items\<close>

datatype resume_item =
    RUserText str
  | RAssistantText str
  | RFunctionCall str str json
  | RFunctionCallOutput str str
  | RReasoning reasoning_payload
  | RImage str str

fun llm_input_to_resume_item :: "(nat list \<Rightarrow> str) \<Rightarrow> llm_item \<Rightarrow> resume_item" where
  "llm_input_to_resume_item encode (UserText t) = RUserText t"
| "llm_input_to_resume_item encode (AssistantText t) = RAssistantText t"
| "llm_input_to_resume_item encode (FunctionCall call_id name arguments) = RFunctionCall call_id name arguments"
| "llm_input_to_resume_item encode (FunctionCallOutput call_id result parts is_error) = RFunctionCallOutput call_id result"
| "llm_input_to_resume_item encode (Reasoning payload) = RReasoning payload"
| "llm_input_to_resume_item encode (ImageItem media bytes) = RImage media (encode bytes)"
| "llm_input_to_resume_item encode (DocumentItem media name bytes) =
     RUserText (lit ''[document attachment dropped on resume: '' @ name @ lit '' ('' @ media @ lit '')]'')"

fun resume_item_to_llm_input :: "(str \<Rightarrow> nat list option) \<Rightarrow> resume_item \<Rightarrow> llm_item" where
  "resume_item_to_llm_input decode (RUserText t) = UserText t"
| "resume_item_to_llm_input decode (RAssistantText t) = AssistantText t"
| "resume_item_to_llm_input decode (RFunctionCall call_id name arguments) = FunctionCall call_id name arguments"
| "resume_item_to_llm_input decode (RFunctionCallOutput call_id result) = FunctionCallOutput call_id result None False"
| "resume_item_to_llm_input decode (RReasoning payload) = Reasoning payload"
| "resume_item_to_llm_input decode (RImage media data) =
     ImageItem media (case decode data of None \<Rightarrow> [] | Some bytes \<Rightarrow> bytes)"

record compaction_checkpoint =
  ck_replacement_id :: str
  ck_session_id :: str
  ck_generation :: u64
  ck_items :: "resume_item list"
  ck_created_ms :: u64

text \<open>The store: the tables the summary reads, the checkpoints, and whether the next write goes through.\<close>

record agent_store =
  as_tables :: summary_store
  as_checkpoints :: "str \<rightharpoonup> compaction_checkpoint"
  as_writable :: bool

record compaction_report =
  rp_record :: compaction_record
  rp_summary :: str
  rp_dropped :: "resume_item list"
  rp_post_compact :: "resume_item list"

section \<open>Compaction\<close>

fun snap_from :: "str set \<Rightarrow> conversation \<Rightarrow> nat \<Rightarrow> nat" where
  "snap_from declared (FunctionCallOutput call_id result parts is_error # items) n =
     (if call_id \<in> declared then snap_from declared items (n + 1) else n)"
| "snap_from declared items n = n"

definition snap_compaction_split :: "conversation \<Rightarrow> nat \<Rightarrow> nat" where
  "snap_compaction_split conversation initial_split =
     snap_from (set (declared_ids (take initial_split conversation))) (drop initial_split conversation) initial_split"

definition COMPACTION_MAX_HISTORY :: nat where "COMPACTION_MAX_HISTORY = 20"

definition over_high_water :: "compaction_config \<Rightarrow> u64 \<Rightarrow> context_estimate \<Rightarrow> bool" where
  "over_high_water c overhead before = (min_items_bypass_threshold c \<le> saturating_add (ce_tokens before) overhead)"

definition compaction_keep :: "compaction_config \<Rightarrow> bool \<Rightarrow> u64 \<Rightarrow> context_estimate \<Rightarrow> nat" where
  "compaction_keep c force overhead before =
     (let keep = max (cc_recent_items c) 1
      in if (force \<or> over_high_water c overhead before) \<and> 1 < ce_items before \<and> ce_items before \<le> keep
         then max (ce_items before div 2) 1 else keep)"

text \<open>Where the conversation is cut, when it is.\<close>

definition compaction_split :: "(json \<Rightarrow> str) \<Rightarrow> compaction_config \<Rightarrow> bool \<Rightarrow> u64 \<Rightarrow> conversation \<Rightarrow> nat option" where
  "compaction_split json_text c force overhead conversation =
     (let before = estimate_context json_text conversation;
          keep = compaction_keep c force overhead before
      in if \<not> force \<and> ce_items before \<le> keep then None
         else
           (let initial_split = length conversation - keep
            in if initial_split = 0 then None
               else
                 (let split = snap_compaction_split conversation initial_split
                  in if split = 0 \<or> length conversation \<le> split then None else Some split)))"

definition checkpoint_id :: "u64 \<Rightarrow> u64 \<Rightarrow> str" where
  "checkpoint_id generation now = lit ''ckpt-'' @ show_nat (unat generation) @ [DASH] @ show_nat (unat now)"

text \<open>A failed write leaves the store alone and the record without an id.\<close>

definition put_checkpoint ::
  "str option \<Rightarrow> u64 \<Rightarrow> u64 \<Rightarrow> resume_item list \<Rightarrow> agent_store option \<Rightarrow> str option \<times> agent_store option" where
  "put_checkpoint session_id generation now dropped store =
     (case store of None \<Rightarrow> (None, None)
      | Some st \<Rightarrow>
          if dropped = [] \<or> \<not> as_writable st then (None, Some st)
          else
            (let i = checkpoint_id generation now;
                 ck = \<lparr>ck_replacement_id = i, ck_session_id = (case session_id of None \<Rightarrow> [] | Some s \<Rightarrow> s),
                       ck_generation = generation, ck_items = dropped, ck_created_ms = now\<rparr>
             in (Some i, Some (st\<lparr>as_checkpoints := (as_checkpoints st)(i \<mapsto> ck)\<rparr>))))"

record compaction_world =
  cw_conversation :: conversation
  cw_state :: compaction_state
  cw_store :: "agent_store option"

text \<open>What does not change while a conversation runs: the rendering of JSON, the base64 codec, the configuration and the
  session.\<close>

record compaction_env =
  ce_json_text :: "json \<Rightarrow> str"
  ce_encode :: "nat list \<Rightarrow> str"
  ce_decode :: "str \<Rightarrow> nat list option"
  ce_config :: compaction_config
  ce_session_id :: "str option"

definition compact_conversation ::
  "compaction_env \<Rightarrow> context_attachment list \<Rightarrow> compaction_trigger \<Rightarrow> bool \<Rightarrow> u64 \<Rightarrow> u64 \<Rightarrow> compaction_world
     \<Rightarrow> compaction_report option \<times> compaction_world" where
  "compact_conversation env attachments trigger force overhead now w =
     (let conversation = cw_conversation w; state = cw_state w;
          before = estimate_context (ce_json_text env) conversation
      in case compaction_split (ce_json_text env) (ce_config env) force overhead conversation of
           None \<Rightarrow> (None, w)
         | Some split \<Rightarrow>
             (let older = take split conversation;
                  recent = drop split conversation;
                  generation = saturating_add (cs_generation state) 1;
                  summary = build_compaction_summary (ce_json_text env) (ce_config env) generation (cs_summary state) (cs_pinned state)
                    (strip_media_for_compaction older) attachments (map_option as_tables (cw_store w));
                  compacted = UserText summary # drop_orphan_function_call_outputs recent;
                  after = estimate_context (ce_json_text env) compacted
              in if \<not> force \<and> ce_bytes before \<le> ce_bytes after then (None, w)
                 else
                   (let dropped = map (llm_input_to_resume_item (ce_encode env)) older;
                        (replacement_id, store') = put_checkpoint (ce_session_id env) generation now dropped (cw_store w);
                        record' = \<lparr>cr_generation = generation, cr_trigger = trigger, cr_compacted_at_ms = now,
                                   cr_before = before, cr_after = after, cr_dropped_items = split,
                                   cr_summary_bytes = byte_len summary, cr_replacement_id = replacement_id\<rparr>;
                        state' = state\<lparr>cs_generation := generation, cs_summary := Some summary, cs_last := Some record',
                                       cs_history := keep_last COMPACTION_MAX_HISTORY (cs_history state @ [record'])\<rparr>
                    in (Some \<lparr>rp_record = record', rp_summary = summary, rp_dropped = dropped,
                              rp_post_compact = map (llm_input_to_resume_item (ce_encode env)) compacted\<rparr>,
                        \<lparr>cw_conversation = compacted, cw_state = state', cw_store = store'\<rparr>))))"

section \<open>The summary rewritten by a model\<close>

text \<open>What the stream of the model comes to: its collected text, an error or cancellation, or the timeout.\<close>

datatype summary_answer = Collected str | StreamFailed | SummaryTimedOut

definition block_of :: "str \<Rightarrow> str \<Rightarrow> str" where
  "block_of tag body =
     [LESS] @ tag @ [GREATER, NL] @ body @ (if ends_with body [NL] then [] else [NL]) @ [LESS, SLASH] @ tag @ [GREATER, NL, NL]"

definition compaction_template :: str where
  "compaction_template =
     lit ''Template:'' @ [NL, NL] @
     lit ''## Goal'' @ [NL] @ lit ''<one-paragraph statement of what the user is trying to accomplish>'' @ [NL, NL] @
     lit ''## Progress'' @ [NL] @ [DASH, SPACE] @ lit ''<what'' @ [SQUOTE] @
     lit ''s been done; preserve prior items and append newly completed actions, decisions, file edits>'' @ [NL, NL] @
     lit ''## Decisions'' @ [NL] @ lit ''- <decisions made '' @ [8212] @
     lit '' chosen approach, rejected options, constraints discovered; preserve every prior decision>'' @ [NL, NL] @
     lit ''## Next'' @ [NL] @ lit ''- <remaining steps to complete the task; update based on new progress>'' @ [NL, NL]"

definition compaction_rules :: "u32 \<Rightarrow> str" where
  "compaction_rules max_output_tokens =
     lit ''Rules:'' @ [NL] @
     lit ''- PRESERVE every entry from `<previous-summary>` unless `<new-conversation>` explicitly invalidates it.'' @ [NL] @
     lit ''- ADD new entries from `<new-conversation>` into the matching slot.'' @ [NL] @
     lit ''- UPDATE the `## Next` slot to drop steps that `<new-conversation>` shows are complete; add steps it surfaces as outstanding.'' @ [NL] @
     lit ''- KEEP exact file paths, function names, error messages, tool call names, and SHA prefixes verbatim.'' @ [NL] @
     lit ''- Do NOT invent new facts. Do NOT omit prior decisions.'' @ [NL] @
     lit ''- Token budget: <= '' @ show_nat (unat max_output_tokens) @ lit '' tokens.'' @ [NL] @
     lit ''- Output only the four sections (`## Goal`, `## Progress`, `## Decisions`, `## Next`). No preamble, no commentary, no trailing prose.'' @ [NL]"

definition build_structured_compaction_prompt :: "str option \<Rightarrow> str \<Rightarrow> u32 \<Rightarrow> str" where
  "build_structured_compaction_prompt previous_summary new_conversation max_output_tokens =
     lit ''Update the structured project context checkpoint below. Emit only the four sections in this EXACT order: `## Goal`, `## Progress`, `## Decisions`, `## Next`.'' @ [NL, NL] @
     block_of (lit ''new-conversation'') new_conversation @
     (case previous_summary of None \<Rightarrow> []
      | Some prev \<Rightarrow> if trim prev = [] then [] else block_of (lit ''previous-summary'') prev) @
     compaction_template @ compaction_rules max_output_tokens"

text \<open>What the environment adds: the small model of the configuration, the output limit and the call itself.\<close>

record model_env =
  me_small_fast_model :: "str option"
  me_max_output_tokens :: u32
  me_call :: "str \<Rightarrow> str \<Rightarrow> summary_answer"

definition MISSING_MODEL :: str where "MISSING_MODEL = lit ''missing_model''"

definition fallback_reason :: "summary_answer \<Rightarrow> str option" where
  "fallback_reason answer =
     (case answer of
        SummaryTimedOut \<Rightarrow> Some (lit ''model_assisted_timeout'')
      | StreamFailed \<Rightarrow> Some (lit ''model_assisted_error'')
      | Collected buffer \<Rightarrow>
          if trim buffer = [] then Some (lit ''model_assisted_empty'')
          else if \<not> is_structured_compaction_summary (trim buffer) then Some (lit ''model_assisted_missing_slots'')
          else None)"

definition set_summary_bytes :: "nat \<Rightarrow> compaction_record \<Rightarrow> compaction_record" where
  "set_summary_bytes n r = r\<lparr>cr_summary_bytes := n\<rparr>"

definition map_last :: "('a \<Rightarrow> 'a) \<Rightarrow> 'a list \<Rightarrow> 'a list" where
  "map_last f xs = (if xs = [] then [] else butlast xs @ [f (last xs)])"

definition rewrite_head :: "str \<Rightarrow> conversation \<Rightarrow> conversation" where
  "rewrite_head new_summary conversation =
     (case conversation of UserText slot # rest \<Rightarrow> UserText new_summary # rest | _ \<Rightarrow> conversation)"

definition rewrite_resume_head :: "str \<Rightarrow> resume_item list \<Rightarrow> resume_item list" where
  "rewrite_resume_head new_summary items =
     (case items of RUserText slot # rest \<Rightarrow> RUserText new_summary # rest | _ \<Rightarrow> items)"

definition apply_model_summary :: "str \<Rightarrow> compaction_report \<Rightarrow> compaction_world \<Rightarrow> compaction_report \<times> compaction_world" where
  "apply_model_summary new_summary report w =
     (let n = byte_len new_summary;
          state = cw_state w
      in (report\<lparr>rp_summary := new_summary, rp_record := set_summary_bytes n (rp_record report),
                 rp_post_compact := rewrite_resume_head new_summary (rp_post_compact report)\<rparr>,
          w\<lparr>cw_conversation := rewrite_head new_summary (cw_conversation w),
            cw_state := state\<lparr>cs_summary := Some new_summary, cs_last := map_option (set_summary_bytes n) (cs_last state),
                              cs_history := map_last (set_summary_bytes n) (cs_history state)\<rparr>\<rparr>))"

definition compact_conversation_with_strategy ::
  "compaction_env \<Rightarrow> model_env \<Rightarrow> context_attachment list \<Rightarrow> compaction_trigger \<Rightarrow> bool \<Rightarrow> u64 \<Rightarrow> u64 \<Rightarrow> compaction_world
     \<Rightarrow> compaction_report option \<times> compaction_world \<times> str option" where
  "compact_conversation_with_strategy env models attachments trigger force overhead now w =
     (let previous_summary_before = cs_summary (cw_state w);
          c = ce_config env
      in case compact_conversation env attachments trigger force overhead now w of
           (None, w') \<Rightarrow> (None, w', None)
         | (Some report, w') \<Rightarrow>
             (let saved = saturating_sub (ce_tokens (cr_before (rp_record report))) (ce_tokens (cr_after (rp_record report)))
              in if cc_strategy c = Extractive then (Some report, w', None)
                 else if cc_strategy c = LayeredFallback \<and> saved < ucast (cc_layered_threshold_tokens c)
                 then (Some report, w', None)
                 else
                   (case (case cc_model_assisted_model c of Some m \<Rightarrow> Some m | None \<Rightarrow> me_small_fast_model models) of
                      None \<Rightarrow> (Some report, w', Some MISSING_MODEL)
                    | Some model \<Rightarrow>
                        (let answer = me_call models model
                               (build_structured_compaction_prompt previous_summary_before (rp_summary report) (me_max_output_tokens models))
                         in case fallback_reason answer of
                              Some reason \<Rightarrow> (Some report, w', Some reason)
                            | None \<Rightarrow>
                                (let (report', w'') = apply_model_summary
                                       (case answer of Collected buffer \<Rightarrow> trim buffer | _ \<Rightarrow> []) report w'
                                 in (Some report', w'', None))))))"

definition maybe_compact_conversation ::
  "compaction_env \<Rightarrow> model_env \<Rightarrow> context_attachment list \<Rightarrow> compaction_trigger \<Rightarrow> u64 \<Rightarrow> u64 \<Rightarrow> compaction_world
     \<Rightarrow> compaction_report option \<times> compaction_world \<times> str option" where
  "maybe_compact_conversation env models attachments trigger overhead now w =
     (if cd_should_compact (context_compaction_decision (ce_json_text env) (ce_config env) overhead (cw_conversation w))
      then compact_conversation_with_strategy env models attachments trigger False overhead now w
      else (None, w, None))"

section \<open>Undo\<close>

datatype undo_error = OtherSession str str str | HeadNotSummary

text \<open>\<open>Ok(None)\<close> when there is nothing to undo; an error leaves the conversation alone.  Reading a checkpoint may fail
  with the store's own error, which is not modelled.\<close>

definition find_checkpoint :: "compaction_world \<Rightarrow> (compaction_record \<times> str \<times> compaction_checkpoint) option" where
  "find_checkpoint w =
     (case cs_last (cw_state w) of None \<Rightarrow> None
      | Some was \<Rightarrow>
          (case cr_replacement_id was of None \<Rightarrow> None
           | Some i \<Rightarrow>
               (case cw_store w of None \<Rightarrow> None
                | Some st \<Rightarrow> map_option (\<lambda>ck. (was, i, ck)) (as_checkpoints st i))))"

definition undo_state :: "compaction_state \<Rightarrow> compaction_state" where
  "undo_state state =
     (let history = butlast (cs_history state);
          previous = (if history = [] then None else Some (last history))
      in state\<lparr>cs_generation := saturating_sub (cs_generation state) 1, cs_history := history, cs_last := previous,
               cs_summary := (case previous of None \<Rightarrow> None | Some _ \<Rightarrow> cs_summary state)\<rparr>)"

definition other_session :: "compaction_env \<Rightarrow> compaction_checkpoint \<Rightarrow> str option" where
  "other_session env ck =
     (case ce_session_id env of None \<Rightarrow> None
      | Some session \<Rightarrow> if ck_session_id ck \<noteq> [] \<and> ck_session_id ck \<noteq> session then Some session else None)"

definition compact_context_undo ::
  "compaction_env \<Rightarrow> compaction_world \<Rightarrow> (undo_error + compaction_record option) \<times> compaction_world" where
  "compact_context_undo env w =
     (case find_checkpoint w of None \<Rightarrow> (Inr None, w)
      | Some (was, i, ck) \<Rightarrow>
          (case other_session env ck of
             Some session \<Rightarrow> (Inl (OtherSession i (ck_session_id ck) session), w)
           | None \<Rightarrow>
               (case cw_conversation w of
                  UserText head # tail \<Rightarrow>
                    (Inr (Some was), w\<lparr>cw_conversation := map (resume_item_to_llm_input (ce_decode env)) (ck_items ck) @ tail,
                                       cw_state := undo_state (cw_state w)\<rparr>)
                | _ \<Rightarrow> (Inl HeadNotSummary, w))))"

end
