(* ===== verification/MicroCompaction.thy ===== *)
theory MicroCompaction
  imports ContextBudget
begin

text \<open>
  The trim tier (\<open>crates/squeezy-agent/src/micro_compaction.rs\<close>): old tool outputs are replaced by a placeholder,
  and reads that an edit made stale lose the changed spans.  Both work in place.
\<close>

section \<open>Trimming\<close>

definition COMPACTABLE_TOOL_NAMES :: "str list" where
  "COMPACTABLE_TOOL_NAMES = map lit
     [''read_file'', ''read_slice'', ''shell'', ''grep'', ''glob'', ''webfetch'', ''websearch'', ''apply_patch'',
      ''write_file'', ''repo_map'', ''decl_search'', ''definition_search'', ''reference_search'', ''upstream_flow'',
      ''downstream_flow'', ''symbol_context'', ''hierarchy'']"

definition MICRO_COMPACT_CLEARED_PREFIX :: str where
  "MICRO_COMPACT_CLEARED_PREFIX = lit ''[Old tool output cleared''"

definition is_already_cleared :: "str \<Rightarrow> bool" where
  "is_already_cleared result = starts_with result MICRO_COMPACT_CLEARED_PREFIX"

text \<open>The map from call id to tool name; the last call of an id wins.\<close>

fun tool_for_call :: "conversation \<Rightarrow> (str \<rightharpoonup> str) \<Rightarrow> (str \<rightharpoonup> str)" where
  "tool_for_call [] m = m"
| "tool_for_call (FunctionCall call_id name arguments # items) m =
     tool_for_call items (if name \<in> set COMPACTABLE_TOOL_NAMES then m(call_id \<mapsto> name) else m)"
| "tool_for_call (_ # items) m = tool_for_call items m"

definition collect_compactable_call_ids :: "conversation \<Rightarrow> (str \<times> str) list" where
  "collect_compactable_call_ids items =
     (let tools = tool_for_call items Map.empty
      in List.map_filter (\<lambda>i. map_option (Pair i) (tools i)) (answered_ids items))"

text \<open>The dash of the placeholder is U+2014.\<close>

definition cleared_placeholder :: "str \<Rightarrow> str \<Rightarrow> nat \<Rightarrow> str" where
  "cleared_placeholder call_id name original_bytes =
     MICRO_COMPACT_CLEARED_PREFIX @ [SPACE, 8212, SPACE] @ lit ''call_id='' @ call_id @ lit '', name='' @ name
     @ lit '', original_bytes='' @ show_nat original_bytes @ lit '']''"

text \<open>One item: the item afterwards, and the id and the bytes saved when it was cleared.\<close>

fun clear_output :: "(str \<rightharpoonup> str) \<Rightarrow> llm_item \<Rightarrow> llm_item \<times> (str \<times> nat) option" where
  "clear_output targets (FunctionCallOutput call_id result parts is_error) =
     (case targets call_id of
        Some name \<Rightarrow>
          if is_already_cleared result then (FunctionCallOutput call_id result parts is_error, None)
          else (let replacement = cleared_placeholder call_id name (byte_len result)
                in if byte_len result \<le> byte_len replacement then (FunctionCallOutput call_id result parts is_error, None)
                   else (FunctionCallOutput call_id replacement parts is_error,
                         Some (call_id, byte_len result - byte_len replacement)))
      | None \<Rightarrow> (FunctionCallOutput call_id result parts is_error, None))"
| "clear_output targets item = (item, None)"

record micro_report =
  mr_cleared_call_ids :: "str list"
  mr_bytes_saved :: nat
  mr_before_tokens :: u64
  mr_after_tokens :: u64

definition clear_targets :: "nat \<Rightarrow> conversation \<Rightarrow> (str \<rightharpoonup> str)" where
  "clear_targets keep_recent items =
     (let ids = collect_compactable_call_ids items
      in map_of (take (length ids - max keep_recent 1) ids))"

definition maybe_micro_compact ::
  "(json \<Rightarrow> str) \<Rightarrow> compaction_config \<Rightarrow> u64 option \<Rightarrow> conversation \<Rightarrow> (micro_report option \<times> conversation)" where
  "maybe_micro_compact json_text c last_total_tokens items =
     (if \<not> cc_micro_enabled c then (None, items)
      else
        (let before = estimate_context json_text items;
             observed = (case last_total_tokens of None \<Rightarrow> ce_tokens before | Some t \<Rightarrow> t)
         in if observed < trim_threshold c then (None, items)
            else if length (collect_compactable_call_ids items) \<le> cc_keep_recent c then (None, items)
            else
              (let cleared = map (clear_output (clear_targets (cc_keep_recent c) items)) items;
                   saved = List.map_filter snd cleared;
                   items' = map fst cleared
               in if saved = [] then (None, items')
                  else (Some \<lparr>mr_cleared_call_ids = map fst saved,
                              mr_bytes_saved = foldl usize_saturating_add 0 (map snd saved),
                              mr_before_tokens = ce_tokens before,
                              mr_after_tokens = ce_tokens (estimate_context json_text items')\<rparr>, items'))))"

section \<open>Masking reads that an edit expired\<close>

definition EXPIRABLE_READ_TOOL_NAMES :: "str list" where
  "EXPIRABLE_READ_TOOL_NAMES = map lit [''read_file'', ''read_slice'', ''grep'']"

record successful_edit =
  ed_path :: str
  ed_changed_spans :: "str list"
  ed_whole_file :: bool

definition arguments_path :: "json \<Rightarrow> str option" where
  "arguments_path arguments =
     (case Option.bind (json_get (lit ''path'') arguments) json_as_str of None \<Rightarrow> None
      | Some value \<Rightarrow> if trim value = [] then None else Some (trim value))"

fun call_meta :: "conversation \<Rightarrow> (str \<rightharpoonup> str \<times> str) \<Rightarrow> (str \<rightharpoonup> str \<times> str)" where
  "call_meta [] m = m"
| "call_meta (FunctionCall call_id name arguments # items) m =
     call_meta items
       (if name \<in> set EXPIRABLE_READ_TOOL_NAMES
        then (case arguments_path arguments of None \<Rightarrow> m | Some path \<Rightarrow> m(call_id \<mapsto> (name, path)))
        else m)"
| "call_meta (_ # items) m = call_meta items m"

text \<open>The positions of the outputs of reads of a path, and the first position that is kept: the last
  \<open>keep_recent\<close> reads stay.\<close>

definition reads_path :: "(str \<rightharpoonup> str \<times> str) \<Rightarrow> str \<Rightarrow> llm_item \<Rightarrow> bool" where
  "reads_path meta path item =
     (case answered_id item of None \<Rightarrow> False | Some i \<Rightarrow> (case meta i of None \<Rightarrow> False | Some (name, p) \<Rightarrow> p = path))"

definition positions_for_path :: "(str \<rightharpoonup> str \<times> str) \<Rightarrow> str \<Rightarrow> conversation \<Rightarrow> nat list" where
  "positions_for_path meta path items = List.filter (\<lambda>idx. reads_path meta path (items ! idx)) [0..<length items]"

definition maskable_at :: "(str \<rightharpoonup> str \<times> str) \<Rightarrow> nat \<Rightarrow> conversation \<Rightarrow> str \<Rightarrow> nat \<Rightarrow> bool" where
  "maskable_at meta keep_recent items path idx =
     (let positions = positions_for_path meta path items;
          maskable = length positions - min keep_recent (length positions)
      in if maskable < length positions then idx < positions ! maskable else True)"

definition json_escaped_inner :: "(json \<Rightarrow> str) \<Rightarrow> str \<Rightarrow> str" where
  "json_escaped_inner json_text t =
     (let encoded = json_text (JString t)
      in case strip_prefix encoded [DQUOTE] of None \<Rightarrow> encoded
         | Some rest \<Rightarrow> (case strip_suffix rest [DQUOTE] of None \<Rightarrow> encoded | Some inner \<Rightarrow> inner))"

definition whole_file_replacement :: "str \<Rightarrow> str \<Rightarrow> nat \<Rightarrow> str" where
  "whole_file_replacement call_id name original_bytes =
     MICRO_COMPACT_CLEARED_PREFIX @ lit '' (expired by edit) '' @ [8212, SPACE] @ lit ''call_id='' @ call_id
     @ lit '', name='' @ name @ lit '', original_bytes='' @ show_nat original_bytes @ lit '']''"

definition span_stub :: "str \<Rightarrow> str \<Rightarrow> nat \<Rightarrow> str" where
  "span_stub call_id name bytes =
     MICRO_COMPACT_CLEARED_PREFIX @ lit '' (expired span) call_id='' @ call_id @ lit '' name='' @ name
     @ lit '' bytes='' @ show_nat bytes @ lit '']''"

lemma find_str_bytes:
  assumes "find_str s p = Some i"
  shows "byte_len s = byte_len (take i s) + byte_len p + byte_len (drop (i + length p) s)"
  using find_str_Some [OF assms] by (metis byte_len_append add.assoc)

text \<open>The loop \<open>while let Some(pos) = result.find(&needle)\<close> with its guard: the stub is shorter than the needle.\<close>

function splice_span :: "str \<Rightarrow> str \<Rightarrow> str \<Rightarrow> str \<times> nat" where
  "splice_span needle stub result =
     (if byte_len needle \<le> byte_len stub then (result, 0)
      else case find_str result needle of None \<Rightarrow> (result, 0)
      | Some pos \<Rightarrow>
          (let (final, n) = splice_span needle stub (take pos result @ stub @ drop (pos + length needle) result)
           in (final, n + 1)))"
  by pat_completeness auto
termination
proof (relation "measure (\<lambda>(_, _, result). byte_len result)")
  fix needle stub result :: str and pos
  assume "\<not> byte_len needle \<le> byte_len stub" "find_str result needle = Some pos"
  then show "((needle, stub, take pos result @ stub @ drop (pos + length needle) result), (needle, stub, result))
      \<in> measure (\<lambda>(_, _, result). byte_len result)"
    using find_str_bytes [of result needle pos] by simp
qed simp

declare splice_span.simps [simp del]

fun splice_changed_spans :: "(json \<Rightarrow> str) \<Rightarrow> str \<Rightarrow> str \<Rightarrow> str list \<Rightarrow> str \<Rightarrow> str \<times> nat" where
  "splice_changed_spans json_text call_id name [] result = (result, 0)"
| "splice_changed_spans json_text call_id name (span # spans) result =
     (let needle = json_escaped_inner json_text span;
          (result1, n) = splice_span needle (span_stub call_id name (byte_len needle)) result;
          (result2, n') = splice_changed_spans json_text call_id name spans result1
      in (result2, n + n'))"

definition spans_of_path :: "successful_edit list \<Rightarrow> str \<Rightarrow> str list option" where
  "spans_of_path edits path =
     (if path \<in> ed_path ` set edits
      then Some (concat (map (\<lambda>e. if ed_path e = path then List.filter (\<lambda>s. s \<noteq> []) (ed_changed_spans e) else []) edits))
      else None)"

text \<open>One item: the item afterwards, with the id, the bytes saved and the number of spans when it changed.\<close>

definition mask_output ::
  "(json \<Rightarrow> str) \<Rightarrow> (str \<rightharpoonup> str \<times> str) \<Rightarrow> nat \<Rightarrow> successful_edit list \<Rightarrow> conversation \<Rightarrow> nat
     \<Rightarrow> llm_item \<times> (str \<times> nat \<times> nat) option" where
  "mask_output json_text meta keep_recent edits items idx =
     (let item = items ! idx
      in case item of
           FunctionCallOutput call_id result parts is_error \<Rightarrow>
             (case meta call_id of None \<Rightarrow> (item, None)
              | Some (name, path) \<Rightarrow>
                  if \<not> maskable_at meta keep_recent items path idx then (item, None)
                  else
                    (let (result', n) =
                       (if (\<exists>e \<in> set edits. ed_path e = path \<and> ed_whole_file e) \<and> \<not> is_already_cleared result
                        then (whole_file_replacement call_id name (byte_len result), 1)
                        else case spans_of_path edits path of None \<Rightarrow> (result, 0)
                             | Some spans \<Rightarrow> splice_changed_spans json_text call_id name spans result)
                     in if n = 0 then (item, None)
                        else (FunctionCallOutput call_id result' parts is_error,
                              Some (call_id, byte_len result - byte_len result', n))))
         | _ \<Rightarrow> (item, None))"

record expired_report =
  er_masked_call_ids :: "str list"
  er_bytes_saved :: nat
  er_spans_masked :: nat

definition mask_expired_reads_after_edits ::
  "(json \<Rightarrow> str) \<Rightarrow> successful_edit list \<Rightarrow> nat \<Rightarrow> conversation \<Rightarrow> (expired_report option \<times> conversation)" where
  "mask_expired_reads_after_edits json_text edits keep_recent items =
     (if edits = [] then (None, items)
      else
        (let meta = call_meta items Map.empty;
             masked = map (mask_output json_text meta keep_recent edits items) [0..<length items];
             hits = List.map_filter snd masked;
             items' = map fst masked
         in if hits = [] then (None, items')
            else (Some \<lparr>er_masked_call_ids = map fst hits,
                        er_bytes_saved = foldl usize_saturating_add 0 (map (fst \<circ> snd) hits),
                        er_spans_masked = foldl usize_saturating_add 0 (map (snd \<circ> snd) hits)\<rparr>, items')))"

section \<open>Properties of trimming\<close>

lemma clear_output_ids [simp]:
  "declared_id (fst (clear_output targets item)) = declared_id item"
  "answered_id (fst (clear_output targets item)) = answered_id item"
  by (cases item; simp add: Let_def split: option.split)+

lemma clear_output_cases:
  obtains (kept) "clear_output targets item = (item, None)"
  | (cleared) call_id result parts is_error name where "item = FunctionCallOutput call_id result parts is_error"
      "targets call_id = Some name" "\<not> is_already_cleared result"
      "byte_len (cleared_placeholder call_id name (byte_len result)) < byte_len result"
      "clear_output targets item = (FunctionCallOutput call_id (cleared_placeholder call_id name (byte_len result)) parts is_error,
         Some (call_id, byte_len result - byte_len (cleared_placeholder call_id name (byte_len result))))"
proof (cases item)
  case (FunctionCallOutput call_id result parts is_error)
  show ?thesis
  proof (cases "clear_output targets item = (item, None)")
    case False
    then obtain name where "targets call_id = Some name" "\<not> is_already_cleared result"
        "byte_len (cleared_placeholder call_id name (byte_len result)) < byte_len result"
      unfolding FunctionCallOutput by (auto simp: Let_def split: option.splits if_splits)
    with FunctionCallOutput show ?thesis by (intro cleared) (simp_all add: Let_def)
  qed (rule kept)
qed (use kept in simp_all)

abbreviation items_bytes :: "(json \<Rightarrow> str) \<Rightarrow> conversation \<Rightarrow> nat" where
  "items_bytes json_text items \<equiv> sum_list (map (llm_item_estimated_bytes json_text) items)"

lemma clear_output_bytes:
  "llm_item_estimated_bytes json_text (fst (clear_output targets item))
     + (case snd (clear_output targets item) of None \<Rightarrow> 0 | Some (i, n) \<Rightarrow> n)
   = llm_item_estimated_bytes json_text item"
  by (cases item rule: clear_output_cases [where targets = targets]) simp_all

lemma clear_all_bytes:
  "items_bytes json_text (map (fst \<circ> clear_output targets) items)
     + sum_list (map snd (List.map_filter (snd \<circ> clear_output targets) items))
   = items_bytes json_text items"
proof (induction items)
  case (Cons item items)
  then show ?case
    using clear_output_bytes [of json_text targets item]
    by (auto simp: List.map_filter_def split: option.splits)
qed (simp add: List.map_filter_def)

lemma clear_output_saved_pos: "snd (clear_output targets item) = Some (i, n) \<Longrightarrow> 0 < n"
  by (cases item rule: clear_output_cases [where targets = targets]) simp_all

lemma clear_output_same: "snd (clear_output targets item) = None \<Longrightarrow> fst (clear_output targets item) = item"
  by (cases item rule: clear_output_cases [where targets = targets]) simp_all

lemma nothing_saved:
  "List.map_filter (snd \<circ> clear_output targets) items = [] \<Longrightarrow> map (fst \<circ> clear_output targets) items = items"
proof (induction items)
  case (Cons item items)
  then show ?case
    by (cases "snd (clear_output targets item)") (simp_all add: List.map_filter_def clear_output_same)
qed simp

lemma micro_compact_cases:
  assumes "maybe_micro_compact json_text c tokens items = (rep, items')"
  obtains (off) "rep = None" "items' = items"
  | (on) "items' = map (fst \<circ> clear_output (clear_targets (cc_keep_recent c) items)) items"
      "rep = None \<longleftrightarrow> List.map_filter (snd \<circ> clear_output (clear_targets (cc_keep_recent c) items)) items = []"
      "\<And>r. rep = Some r \<Longrightarrow> mr_bytes_saved r = foldl usize_saturating_add 0
          (map snd (List.map_filter (snd \<circ> clear_output (clear_targets (cc_keep_recent c) items)) items))"
proof -
  have mf: "List.map_filter snd (map f xs) = List.map_filter (snd \<circ> f) xs" for f :: "llm_item \<Rightarrow> llm_item \<times> (str \<times> nat) option" and xs
    by (induction xs) (simp_all add: List.map_filter_def)
  show ?thesis
    using assms off on
    by (auto simp: maybe_micro_compact_def Let_def mf split: if_splits option.splits)
qed

lemma tool_for_call_compactable:
  "tool_for_call items m i = Some name \<Longrightarrow> m i = Some name \<or>
     (name \<in> set COMPACTABLE_TOOL_NAMES \<and> (\<exists>arguments. FunctionCall i name arguments \<in> set items))"
proof (induction items arbitrary: m)
  case (Cons item items)
  then show ?case
    by (cases item) (fastforce split: if_splits)+
qed simp

lemma map_filter_paired:
  "map fst (List.map_filter (\<lambda>i. map_option (Pair i) (f i)) xs) = List.filter (\<lambda>i. f i \<noteq> None) xs"
  by (induction xs) (auto simp: List.map_filter_def)

lemma collect_ids:
  "map fst (collect_compactable_call_ids items)
     = List.filter (\<lambda>i. tool_for_call items Map.empty i \<noteq> None) (answered_ids items)"
  unfolding collect_compactable_call_ids_def Let_def by (rule map_filter_paired)

lemma clear_output_changes:
  assumes "fst (clear_output targets item) \<noteq> item"
  obtains i name where "answered_id item = Some i" "targets i = Some name"
  using assms by (cases item rule: clear_output_cases [where targets = targets]) simp_all

lemma distinct_collected: "wire_ok items \<Longrightarrow> distinct (map fst (collect_compactable_call_ids items))"
  by (simp add: collect_ids wire_ok_distinct)

lemma not_in_earlier: "distinct xs \<Longrightarrow> x \<in> set (drop n xs) \<Longrightarrow> x \<notin> set (take n xs)"
  using set_take_disj_set_drop_if_distinct [of xs n n] by blast

lemma clear_targets_old:
  assumes "distinct (map fst (collect_compactable_call_ids items))"
    and "i \<in> set (drop (length (collect_compactable_call_ids items) - max keep 1) (map fst (collect_compactable_call_ids items)))"
  shows "clear_targets keep items i = None"
proof -
  have "i \<notin> set (take (length (collect_compactable_call_ids items) - max keep 1) (map fst (collect_compactable_call_ids items)))"
    by (rule not_in_earlier [OF assms])
  then show ?thesis by (simp add: clear_targets_def Let_def map_of_eq_None_iff take_map)
qed

lemma sum_pos: "xs \<noteq> [] \<Longrightarrow> (\<And>x. x \<in> set xs \<Longrightarrow> 0 < x) \<Longrightarrow> 0 < sum_list (xs :: nat list)"
  by (cases xs) auto

lemma set_map_filter: "set (List.map_filter f xs) = {y. \<exists>x \<in> set xs. f x = Some y}"
  by (auto simp: List.map_filter_def) force

lemma saved_pos: "(i, n) \<in> set (List.map_filter (snd \<circ> clear_output targets) items) \<Longrightarrow> 0 < n"
  by (auto simp: set_map_filter dest: clear_output_saved_pos)

lemma trim_keeps_pairs:
  assumes "maybe_micro_compact json_text c tokens items = (rep, items')"
  shows "wire_ok items' = wire_ok items"
  using assms by (cases rule: micro_compact_cases) (simp_all add: wire_ok_map)

text \<open>Trimming is sound.  It keeps the pairs of calls and outputs and every item but the outputs of old
  compactable calls: the newest \<open>keep_recent\<close> ones, and always the last one, stay verbatim.  What the report says is
  the difference in bytes, it is never zero, and without a report nothing has changed.\<close>

theorem trim_is_sound:
  assumes "wire_ok items" and "maybe_micro_compact json_text c tokens items = (rep, items')"
    and "items_bytes json_text items \<le> USIZE_MAX"
  shows "wire_ok items'
    \<and> items_bytes json_text items' + (case rep of None \<Rightarrow> 0 | Some r \<Rightarrow> mr_bytes_saved r) = items_bytes json_text items
    \<and> (case rep of None \<Rightarrow> items' = items | Some r \<Rightarrow> 0 < mr_bytes_saved r)
    \<and> length items' = length items
    \<and> (\<forall>k < length items. answered_id (items ! k) \<notin> Some ` set (map fst (collect_compactable_call_ids items))
         \<or> answered_id (items ! k) \<in> Some ` set (drop (length (collect_compactable_call_ids items) - max (cc_keep_recent c) 1)
             (map fst (collect_compactable_call_ids items)))
         \<longrightarrow> items' ! k = items ! k)"
  using assms(2)
proof (cases rule: micro_compact_cases)
  case off
  then show ?thesis using assms(1) by simp
next
  case on
  let ?t = "clear_targets (cc_keep_recent c) items"
  let ?saved = "map snd (List.map_filter (snd \<circ> clear_output ?t) items)"
  have ok: "wire_ok items'" using assms(1) trim_keeps_pairs [OF assms(2)] by simp
  have total: "items_bytes json_text items' + sum_list ?saved = items_bytes json_text items"
    unfolding on(1) by (rule clear_all_bytes)
  have bytes: "mr_bytes_saved r = sum_list ?saved" if "rep = Some r" for r
    using on(3) [OF that] total assms(3) by (simp add: foldl_usize)
  have none: "rep = None \<Longrightarrow> items' = items" "rep = None \<Longrightarrow> sum_list ?saved = 0"
    using nothing_saved [of ?t items] on(1,2) by simp_all
  have pos: "rep = Some r \<Longrightarrow> 0 < sum_list ?saved" for r
    using on(2) by (intro sum_pos) (auto dest: saved_pos simp del: comp_apply)
  have same: "items' ! k = items ! k"
    if k: "k < length items" and old: "answered_id (items ! k) \<notin> Some ` set (map fst (collect_compactable_call_ids items))
         \<or> answered_id (items ! k) \<in> Some ` set (drop (length (collect_compactable_call_ids items) - max (cc_keep_recent c) 1)
             (map fst (collect_compactable_call_ids items)))" for k
  proof (rule ccontr)
    assume "items' ! k \<noteq> items ! k"
    then have "fst (clear_output ?t (items ! k)) \<noteq> items ! k" using k unfolding on(1) by simp
    then obtain i name where i: "answered_id (items ! k) = Some i" "?t i = Some name" by (rule clear_output_changes)
    then have "(i, name) \<in> set (collect_compactable_call_ids items)"
      by (auto simp: clear_targets_def Let_def dest!: map_of_SomeD in_set_takeD)
    then have "i \<in> set (map fst (collect_compactable_call_ids items))" by force
    moreover have "i \<notin> set (drop (length (collect_compactable_call_ids items) - max (cc_keep_recent c) 1)
        (map fst (collect_compactable_call_ids items)))"
      using clear_targets_old [OF distinct_collected [OF assms(1)]] i(2) by fastforce
    ultimately show False using old i(1) by auto
  qed
  show ?thesis
    using ok total bytes none pos same by (cases rep) (simp_all add: on(1) del: map_map)
qed

definition trim_sample :: conversation where
  "trim_sample =
     [UserText (lit ''go''), FunctionCall (lit ''a'') (lit ''shell'') JNull, FunctionCallOutput (lit ''a'') (replicate 90 65) None False,
      FunctionCall (lit ''b'') (lit ''grep'') JNull, FunctionCallOutput (lit ''b'') (replicate 90 66) None False]"

definition trim_sample_config :: compaction_config where
  "trim_sample_config = default_compaction_config\<lparr>cc_keep_recent := 1\<rparr>"

lemma trim_is_sound_witness:
  "fst (maybe_micro_compact (\<lambda>_. []) trim_sample_config (Some 100000) trim_sample) \<noteq> None
   \<and> snd (maybe_micro_compact (\<lambda>_. []) trim_sample_config (Some 100000) trim_sample) ! 4 = trim_sample ! 4
   \<and> wire_ok (snd (maybe_micro_compact (\<lambda>_. []) trim_sample_config (Some 100000) trim_sample))"
proof -
  have ok: "wire_ok trim_sample" by code_simp
  have size: "items_bytes (\<lambda>_. []) trim_sample \<le> USIZE_MAX" by code_simp
  have some: "fst (maybe_micro_compact (\<lambda>_. []) trim_sample_config (Some 100000) trim_sample) \<noteq> None" by code_simp
  have old: "answered_id (trim_sample ! 4) \<in> Some ` set (drop (length (collect_compactable_call_ids trim_sample)
      - max (cc_keep_recent trim_sample_config) 1) (map fst (collect_compactable_call_ids trim_sample)))" by code_simp
  have n: "4 < length trim_sample" by code_simp
  from trim_is_sound [OF ok prod.collapse [symmetric] size] some old n show ?thesis by blast
qed

section \<open>Trimming settles\<close>

lemma placeholder_cleared [simp]: "is_already_cleared (cleared_placeholder call_id name n)"
  by (simp add: is_already_cleared_def cleared_placeholder_def starts_with_def)

lemma clear_output_twice: "clear_output targets (fst (clear_output targets item)) = (fst (clear_output targets item), None)"
proof (cases item rule: clear_output_cases [where targets = targets])
  case kept
  then show ?thesis by simp
next
  case (cleared call_id result parts is_error name)
  then show ?thesis by simp
qed

lemma tool_for_call_map:
  "(\<And>x. x \<in> set items \<Longrightarrow> (case x of FunctionCall a b c \<Rightarrow> f x = x | _ \<Rightarrow> declared_id (f x) = None))
     \<Longrightarrow> tool_for_call (map f items) m = tool_for_call items m"
proof (induction items arbitrary: m)
  case (Cons item items)
  have rest: "tool_for_call (map f items) m' = tool_for_call items m'" for m'
    using Cons.prems by (intro Cons.IH) simp
  have skip: "declared_id x = None \<Longrightarrow> tool_for_call (x # xs) m' = tool_for_call xs m'" for x xs m'
    by (cases x) simp_all
  show ?case
  proof (cases item)
    case (FunctionCall a b c)
    then have "f item = item" using Cons.prems [of item] by simp
    then show ?thesis using FunctionCall by (simp add: rest)
  qed (use Cons.prems [of item] in \<open>simp_all add: rest skip\<close>)
qed simp

lemma collect_after_clear:
  "collect_compactable_call_ids (map (fst \<circ> clear_output targets) items) = collect_compactable_call_ids items"
proof -
  have "tool_for_call (map (fst \<circ> clear_output targets) items) Map.empty = tool_for_call items Map.empty"
  proof (rule tool_for_call_map)
    fix x
    show "case x of FunctionCall a b c \<Rightarrow> (fst \<circ> clear_output targets) x = x
        | _ \<Rightarrow> declared_id ((fst \<circ> clear_output targets) x) = None"
      by (cases x) (simp_all add: comp_def del: clear_output.simps(1))
  qed
  moreover have "answered_ids (map (fst \<circ> clear_output targets) items) = answered_ids items" by (rule ids_map) simp
  ultimately show ?thesis by (simp add: collect_compactable_call_ids_def del: map_map)
qed

text \<open>Trimming settles.  A conversation that was just trimmed is left alone by the next pass, whatever usage the provider
  reports: a placeholder is not replaced by another one, so the pass that runs after every tool round does no work twice.\<close>

theorem trim_settles:
  assumes "maybe_micro_compact json_text c tokens items = (Some r, items')"
  shows "maybe_micro_compact json_text c tokens' items' = (None, items')"
  using assms
proof (cases rule: micro_compact_cases)
  case on
  let ?t = "clear_targets (cc_keep_recent c) items"
  have t: "clear_targets (cc_keep_recent c) items' = ?t"
    by (simp add: on(1) clear_targets_def collect_after_clear)
  have twice: "map (clear_output ?t) items' = map (\<lambda>x. (x, None)) items'"
    unfolding on(1) map_map comp_def by (simp only: clear_output_twice)
  have "List.map_filter snd (map (\<lambda>x. (x, None :: (str \<times> nat) option)) items') = []"
    by (induction items') (simp_all add: List.map_filter_def)
  then show ?thesis
    by (simp add: maybe_micro_compact_def Let_def t twice comp_def)
qed simp

lemma trim_settles_witness:
  "maybe_micro_compact (\<lambda>_. []) trim_sample_config (Some 200000)
     (snd (maybe_micro_compact (\<lambda>_. []) trim_sample_config (Some 100000) trim_sample))
   = (None, snd (maybe_micro_compact (\<lambda>_. []) trim_sample_config (Some 100000) trim_sample))"
proof -
  have "fst (maybe_micro_compact (\<lambda>_. []) trim_sample_config (Some 100000) trim_sample) \<noteq> None" by code_simp
  then obtain r where "maybe_micro_compact (\<lambda>_. []) trim_sample_config (Some 100000) trim_sample
      = (Some r, snd (maybe_micro_compact (\<lambda>_. []) trim_sample_config (Some 100000) trim_sample))"
    by (metis not_Some_eq prod.collapse)
  then show ?thesis by (rule trim_settles)
qed

section \<open>Masking\<close>

text \<open>The splicing loop ends with no occurrence left.  Every round takes out one occurrence of the changed text and
  shortens the output by the same amount, so the loop ends; the stubs it leaves never bring a new occurrence about that
  it would miss.\<close>

theorem splice_span_ends:
  assumes "byte_len stub < byte_len needle"
  shows "case splice_span needle stub result of (final, n) \<Rightarrow>
     find_str final needle = None \<and> byte_len final + n * (byte_len needle - byte_len stub) = byte_len result
     \<and> (n = 0 \<longleftrightarrow> find_str result needle = None)"
  using assms
proof (induction needle stub result rule: splice_span.induct)
  case (1 needle stub result)
  show ?case
  proof (cases "find_str result needle")
    case None
    then show ?thesis using 1(2) by (subst splice_span.simps) simp
  next
    case (Some pos)
    let ?next = "take pos result @ stub @ drop (pos + length needle) result"
    obtain final n where r: "splice_span needle stub ?next = (final, n)" by fastforce
    have rest: "find_str final needle = None" "byte_len final + n * (byte_len needle - byte_len stub) = byte_len ?next"
      using 1(1) [OF _ Some 1(2)] 1(2) r by simp_all
    have step: "splice_span needle stub result = (final, n + 1)"
      using 1(2) Some r by (subst splice_span.simps) (simp add: Let_def)
    have "byte_len ?next + (byte_len needle - byte_len stub) = byte_len result"
      using find_str_bytes [OF Some] 1(2) by simp
    moreover have "(n + 1) * (byte_len needle - byte_len stub) = n * (byte_len needle - byte_len stub) + (byte_len needle - byte_len stub)"
      by (rule add_mult_distrib [of n 1, simplified mult_1])
    ultimately have "byte_len final + (n + 1) * (byte_len needle - byte_len stub) = byte_len result"
      using rest(2) by linarith
    then show ?thesis using step rest(1) Some by simp
  qed
qed

lemma splice_span_ends_witness:
  "splice_span (lit ''let x = 1;'') (lit ''[gone]'') (lit ''a let x = 1; b let x = 1;'') = (lit ''a [gone] b [gone]'', 2)
   \<and> find_str (fst (splice_span (lit ''let x = 1;'') (lit ''[gone]'') (lit ''a let x = 1; b let x = 1;''))) (lit ''let x = 1;'') = None"
proof -
  have "byte_len (lit ''[gone]'') < byte_len (lit ''let x = 1;'')" by code_simp
  from splice_span_ends [OF this, of "lit ''a let x = 1; b let x = 1;''"]
  have "find_str (fst (splice_span (lit ''let x = 1;'') (lit ''[gone]'') (lit ''a let x = 1; b let x = 1;''))) (lit ''let x = 1;'') = None"
    by (simp add: case_prod_beta)
  moreover have "splice_span (lit ''let x = 1;'') (lit ''[gone]'') (lit ''a let x = 1; b let x = 1;'') = (lit ''a [gone] b [gone]'', 2)"
    by code_simp
  ultimately show ?thesis by blast
qed

lemma sorted_positions: "sorted (positions_for_path meta path items)"
  unfolding positions_for_path_def by (rule sorted_filter [where f = id, simplified]) simp

lemma maskable_later:
  assumes "maskable_at meta keep items path idx" "idx \<in> set (positions_for_path meta path items)"
  shows "keep \<le> length (List.filter (\<lambda>j. idx < j) (positions_for_path meta path items))"
proof -
  let ?p = "positions_for_path meta path items"
  let ?m = "length ?p - min keep (length ?p)"
  have later: "\<And>k. ?m < length ?p \<Longrightarrow> k < length (drop ?m ?p) \<Longrightarrow> idx < drop ?m ?p ! k"
    using assms(1) sorted_nth_mono [OF sorted_positions, of ?m]
    by (fastforce simp: maskable_at_def Let_def intro: less_le_trans)
  then have all: "List.filter (\<lambda>j. idx < j) (drop ?m ?p) = drop ?m ?p"
    by (cases "?m < length ?p") (auto simp: filter_id_conv in_set_conv_nth)
  have "keep \<le> length ?p"
  proof (rule ccontr)
    assume "\<not> keep \<le> length ?p"
    then have "?m = 0" "?m < length ?p" using assms(2) by auto
    with later assms(2) show False by (auto simp: in_set_conv_nth)
  qed
  moreover have "length (drop ?m ?p) \<le> length (List.filter (\<lambda>j. idx < j) ?p)"
    using all by (metis append_take_drop_id filter_append length_append le_add2)
  ultimately show ?thesis by simp
qed

lemma mask_output_ids:
  "idx < length items \<Longrightarrow> declared_id (fst (mask_output json_text meta keep edits items idx)) = declared_id (items ! idx)"
  "idx < length items \<Longrightarrow> answered_id (fst (mask_output json_text meta keep edits items idx)) = answered_id (items ! idx)"
  by (cases "items ! idx"; simp add: mask_output_def Let_def split: option.split prod.split)+

lemma spans_of_path_None: "path \<notin> ed_path ` set edits \<Longrightarrow> spans_of_path edits path = None"
  by (simp add: spans_of_path_def)

lemma mask_output_changes:
  assumes "fst (mask_output json_text meta keep edits items idx) \<noteq> items ! idx"
  obtains i name path where "answered_id (items ! idx) = Some i" "meta i = Some (name, path)"
    "maskable_at meta keep items path idx" "path \<in> ed_path ` set edits"
proof (cases "items ! idx")
  case (FunctionCallOutput i result parts e)
  have "meta i \<noteq> None" using assms FunctionCallOutput by (cases "meta i") (simp_all add: mask_output_def Let_def)
  then obtain name path where m: "meta i = Some (name, path)" by auto
  have k: "maskable_at meta keep items path idx"
    using assms FunctionCallOutput m by (cases "maskable_at meta keep items path idx") (simp_all add: mask_output_def Let_def)
  have "path \<in> ed_path ` set edits"
  proof (rule ccontr)
    assume "path \<notin> ed_path ` set edits"
    moreover from this have "(\<exists>x \<in> set edits. ed_path x = path \<and> ed_whole_file x) = False" by auto
    ultimately have "mask_output json_text meta keep edits items idx = (items ! idx, None)"
      using FunctionCallOutput m k by (simp add: mask_output_def Let_def spans_of_path_None del: bex_simps)
    with assms show False by simp
  qed
  with FunctionCallOutput m k show ?thesis using that by simp
qed (use assms in \<open>simp_all add: mask_output_def\<close>)

lemma mask_shape:
  "snd (mask_expired_reads_after_edits json_text edits keep items) =
     (if edits = [] then items
      else map (\<lambda>k. fst (mask_output json_text (call_meta items Map.empty) keep edits items k)) [0..<length items])"
  by (simp add: mask_expired_reads_after_edits_def Let_def comp_def)

lemma mask_keeps_pairs: "wire_ok (snd (mask_expired_reads_after_edits json_text edits keep items)) = wire_ok items"
proof (cases "edits = []")
  case False
  let ?new = "map (\<lambda>k. fst (mask_output json_text (call_meta items Map.empty) keep edits items k)) [0..<length items]"
  have "wire_scan {} {} ?new = wire_scan {} {} items"
    by (rule wire_scan_ids) (rule nth_equalityI; simp add: mask_output_ids)
  then show ?thesis using False by (simp add: mask_shape wire_ok_def)
qed (simp add: mask_shape)

text \<open>Masking is confined.  It keeps the pairs, and only the output of an earlier read of an edited file changes: at least
  \<open>keep_recent\<close> later reads of the same file stand in the conversation.\<close>

theorem mask_is_confined:
  assumes "wire_ok items"
  shows "wire_ok (snd (mask_expired_reads_after_edits json_text edits keep items))
    \<and> (\<forall>k < length items. snd (mask_expired_reads_after_edits json_text edits keep items) ! k \<noteq> items ! k \<longrightarrow>
         (\<exists>path \<in> ed_path ` set edits. reads_path (call_meta items Map.empty) path (items ! k)
            \<and> keep \<le> length (List.filter (\<lambda>j. k < j) (positions_for_path (call_meta items Map.empty) path items))))"
proof (cases "edits = []")
  case False
  let ?meta = "call_meta items Map.empty"
  let ?new = "map (\<lambda>k. fst (mask_output json_text ?meta keep edits items k)) [0..<length items]"
  have "wire_ok (snd (mask_expired_reads_after_edits json_text edits keep items))" using assms by (simp add: mask_keeps_pairs)
  moreover have "\<exists>path \<in> ed_path ` set edits. reads_path ?meta path (items ! k)
      \<and> keep \<le> length (List.filter (\<lambda>j. k < j) (positions_for_path ?meta path items))"
    if "k < length items" "?new ! k \<noteq> items ! k" for k
  proof -
    have "fst (mask_output json_text ?meta keep edits items k) \<noteq> items ! k" using that by simp
    then obtain i name path where i: "answered_id (items ! k) = Some i" "?meta i = Some (name, path)"
        "maskable_at ?meta keep items path k" "path \<in> ed_path ` set edits" by (rule mask_output_changes)
    then have r: "reads_path ?meta path (items ! k)" by (simp add: reads_path_def)
    then have "k \<in> set (positions_for_path ?meta path items)" using that(1) by (simp add: positions_for_path_def)
    with r i(3,4) show ?thesis using maskable_later [of ?meta keep items path k] by blast
  qed
  ultimately show ?thesis using False by (simp add: mask_shape)
qed (use assms in \<open>simp add: mask_shape\<close>)

definition mask_sample :: conversation where
  "mask_sample =
     [FunctionCall (lit ''a'') (lit ''read_file'') (JObject [(lit ''path'', JString (lit ''m.rs''))]),
      FunctionCallOutput (lit ''a'') (replicate 120 65) None False,
      FunctionCall (lit ''b'') (lit ''read_file'') (JObject [(lit ''path'', JString (lit ''m.rs''))]),
      FunctionCallOutput (lit ''b'') (replicate 120 65) None False]"

definition mask_sample_edit :: successful_edit where
  "mask_sample_edit = \<lparr>ed_path = lit ''m.rs'', ed_changed_spans = [], ed_whole_file = True\<rparr>"

lemma mask_is_confined_witness:
  "wire_ok (snd (mask_expired_reads_after_edits (\<lambda>_. []) [mask_sample_edit] 1 mask_sample))
   \<and> snd (mask_expired_reads_after_edits (\<lambda>_. []) [mask_sample_edit] 1 mask_sample) ! 1 \<noteq> mask_sample ! 1
   \<and> snd (mask_expired_reads_after_edits (\<lambda>_. []) [mask_sample_edit] 1 mask_sample) ! 3 = mask_sample ! 3"
proof -
  have "wire_ok mask_sample" by code_simp
  from mask_is_confined [OF this]
  have "wire_ok (snd (mask_expired_reads_after_edits (\<lambda>_. []) [mask_sample_edit] 1 mask_sample))" by blast
  moreover have "snd (mask_expired_reads_after_edits (\<lambda>_. []) [mask_sample_edit] 1 mask_sample) ! 1 \<noteq> mask_sample ! 1"
    "snd (mask_expired_reads_after_edits (\<lambda>_. []) [mask_sample_edit] 1 mask_sample) ! 3 = mask_sample ! 3" by code_simp+
  ultimately show ?thesis by blast
qed

end
