(* ===== verification/CompactionSpec.thy ===== *)
theory CompactionSpec
  imports Compaction MicroCompaction "HOL-Library.Sublist"
begin

text \<open>
  What summarising, trimming, masking and the undo keep of a conversation: its pairs of calls and outputs, the report
  and the state agreeing, the bounds, and what the undo gives back.
\<close>

section \<open>Cases\<close>

lemma snap_from_bounds: "n \<le> snap_from D items n \<and> snap_from D items n \<le> n + length items"
proof (induction D items n rule: snap_from.induct)
  case (1 D call_id result parts is_error items n)
  then show ?case by (cases "call_id \<in> D") auto
qed simp_all

lemma compaction_split_bounds:
  assumes "compaction_split json_text c force overhead conversation = Some split"
  shows "0 < split" "split < length conversation" "length conversation - split \<le> max (cc_recent_items c) 1"
proof -
  let ?keep = "compaction_keep c force overhead (estimate_context json_text conversation)"
  have s: "split = snap_compaction_split conversation (length conversation - ?keep)" "0 < split" "split < length conversation"
    using assms by (auto simp: compaction_split_def Let_def split: if_splits)
  then show "0 < split" "split < length conversation" by simp_all
  have "?keep \<le> max (cc_recent_items c) 1" by (auto simp: compaction_keep_def Let_def)
  moreover have "length conversation - ?keep \<le> split"
    unfolding s(1) snap_compaction_split_def using snap_from_bounds by blast
  ultimately show "length conversation - split \<le> max (cc_recent_items c) 1" by simp
qed

lemma compact_cases:
  assumes "compact_conversation env attachments trigger force overhead now w = (rep, w')"
  obtains (skipped) "rep = None" "w' = w"
  | (compacted) split r where "rep = Some r"
      "compaction_split (ce_json_text env) (ce_config env) force overhead (cw_conversation w) = Some split"
      "cw_conversation w' = UserText (rp_summary r) # drop_orphan_function_call_outputs (drop split (cw_conversation w))"
      "\<not> force \<Longrightarrow> estimate_bytes (ce_json_text env) (cw_conversation w') < estimate_bytes (ce_json_text env) (cw_conversation w)"
      "byte_len (rp_summary r) \<le> cc_max_summary_bytes (ce_config env)"
      "rp_dropped r = map (llm_input_to_resume_item (ce_encode env)) (take split (cw_conversation w))"
      "rp_post_compact r = map (llm_input_to_resume_item (ce_encode env)) (cw_conversation w')"
      "cr_dropped_items (rp_record r) = split" "cr_summary_bytes (rp_record r) = byte_len (rp_summary r)"
      "cr_generation (rp_record r) = saturating_add (cs_generation (cw_state w)) 1"
      "cw_state w' = (cw_state w)\<lparr>cs_generation := saturating_add (cs_generation (cw_state w)) 1,
         cs_summary := Some (rp_summary r), cs_last := Some (rp_record r),
         cs_history := keep_last COMPACTION_MAX_HISTORY (cs_history (cw_state w) @ [rp_record r])\<rparr>"
      "put_checkpoint (ce_session_id env) (saturating_add (cs_generation (cw_state w)) 1) now (rp_dropped r) (cw_store w)
         = (cr_replacement_id (rp_record r), cw_store w')"
proof (cases "rep")
  case None
  then have "w' = w"
    using assms by (auto simp: compact_conversation_def Let_def split: option.splits if_splits prod.splits)
  with None show ?thesis by (rule skipped)
next
  case (Some r)
  let ?conv = "cw_conversation w"
  obtain split where split: "compaction_split (ce_json_text env) (ce_config env) force overhead ?conv = Some split"
    using assms Some by (auto simp: compact_conversation_def Let_def split: option.splits)
  define summary where "summary = build_compaction_summary (ce_json_text env) (ce_config env)
     (saturating_add (cs_generation (cw_state w)) 1) (cs_summary (cw_state w)) (cs_pinned (cw_state w))
     (strip_media_for_compaction (take split ?conv)) attachments (map_option as_tables (cw_store w))"
  have guard: "\<not> (\<not> force \<and> ce_bytes (estimate_context (ce_json_text env) ?conv) \<le> ce_bytes (estimate_context (ce_json_text env)
      (UserText summary # drop_orphan_function_call_outputs (drop split ?conv))))"
    using assms Some split
    by (auto simp: compact_conversation_def Let_def summary_def [symmetric] split: if_splits)
  obtain i st where put: "put_checkpoint (ce_session_id env) (saturating_add (cs_generation (cw_state w)) 1) now
      (map (llm_input_to_resume_item (ce_encode env)) (take split ?conv)) (cw_store w) = (i, st)" by fastforce
  have r: "compact_conversation env attachments trigger force overhead now w = (Some r, w')" using assms Some by simp
  have bytes: "byte_len summary \<le> cc_max_summary_bytes (ce_config env)"
    unfolding summary_def build_compaction_summary_def context_attachment_preview_def by (rule truncate_utf8_bytes)
  show ?thesis
    by (rule that(2) [of r split])
      (use Some split guard put r bytes in
        \<open>auto simp: compact_conversation_def Let_def summary_def [symmetric] estimate_context_def\<close>)
qed

lemma compact_forced:
  assumes "compaction_split (ce_json_text env) (ce_config env) True overhead (cw_conversation w) = Some split"
  shows "fst (compact_conversation env attachments trigger True overhead now w) \<noteq> None"
  using assms by (simp add: compact_conversation_def Let_def split: prod.split)

section \<open>The model's rewriting\<close>

lemma strategy_cases:
  assumes "compact_conversation_with_strategy env models attachments trigger force overhead now w = (rep, w', reason)"
  obtains (plain) "compact_conversation env attachments trigger force overhead now w = (rep, w')"
  | (rewritten) r w1 r' t where "compact_conversation env attachments trigger force overhead now w = (Some r, w1)"
      "rep = Some r'" "apply_model_summary t r w1 = (r', w')" "reason = None" "is_structured_compaction_summary t"
proof (cases "compact_conversation env attachments trigger force overhead now w")
  case (Pair rep1 w1)
  show ?thesis
  proof (cases rep1)
    case None
    then show ?thesis using assms Pair plain by (simp add: compact_conversation_with_strategy_def Let_def)
  next
    case (Some r)
    show ?thesis
      using assms Pair Some plain rewritten [of r w1]
      by (auto simp: compact_conversation_with_strategy_def Let_def fallback_reason_def
          split: if_splits option.splits prod.splits summary_answer.splits)
  qed
qed

text \<open>A summary that a model could not write falls back.  After a timeout, an error, an empty answer, an answer without the
  four sections, or without a model, the outcome is the one of the deterministic summary, word for word.\<close>

theorem model_failure_falls_back:
  assumes "compact_conversation_with_strategy env models attachments trigger force overhead now w = (rep, w', Some reason)"
  shows "compact_conversation env attachments trigger force overhead now w = (rep, w')"
  using assms by (cases rule: strategy_cases) simp_all

definition sample_env :: compaction_env where
  "sample_env =
     \<lparr>ce_json_text = (\<lambda>_. lit ''{}''), ce_encode = (\<lambda>bytes. bytes), ce_decode = Some,
      ce_config = default_compaction_config\<lparr>cc_recent_items := 3, cc_strategy := ModelAssisted\<rparr>,
      ce_session_id = Some (lit ''s'')\<rparr>"

definition sample_models :: model_env where
  "sample_models = \<lparr>me_small_fast_model = None, me_max_output_tokens = 1024, me_call = (\<lambda>_ _. SummaryTimedOut)\<rparr>"

definition sample_store :: agent_store where
  "sample_store = \<lparr>as_tables = \<lparr>ss_observations = None, ss_receipts = None\<rparr>, as_checkpoints = Map.empty, as_writable = True\<rparr>"

definition call_of :: "string \<Rightarrow> llm_item" where
  "call_of i = FunctionCall (lit i) (lit ''shell'') JNull"

definition answer_of :: "string \<Rightarrow> llm_item" where
  "answer_of i = FunctionCallOutput (lit i) (lit ''ok'') None False"

definition sample_conversation :: conversation where
  "sample_conversation = [UserText (lit ''go''), call_of ''a'', call_of ''b'', answer_of ''a'', answer_of ''b'']"

definition sample_compaction_world :: compaction_world where
  "sample_compaction_world =
     \<lparr>cw_conversation = sample_conversation, cw_state = empty_compaction_state, cw_store = Some sample_store\<rparr>"

lemma sample_split:
  "compaction_split (ce_json_text sample_env) (ce_config sample_env) True 0 (cw_conversation sample_compaction_world) = Some 2"
  by code_simp

lemma sample_run:
  obtains r w1 where "compact_conversation sample_env [] ManualTrigger True 0 7 sample_compaction_world = (Some r, w1)"
    "compact_conversation_with_strategy sample_env sample_models [] ManualTrigger True 0 7 sample_compaction_world
      = (Some r, w1, Some MISSING_MODEL)"
proof -
  obtain r w1 where c: "compact_conversation sample_env [] ManualTrigger True 0 7 sample_compaction_world = (Some r, w1)"
    using compact_forced [OF sample_split, of "[]" ManualTrigger 7] by (metis not_Some_eq prod.collapse)
  have s: "cc_strategy (ce_config sample_env) = ModelAssisted" "cc_model_assisted_model (ce_config sample_env) = None"
      "me_small_fast_model sample_models = None"
    by (simp_all add: sample_env_def sample_models_def default_compaction_config_def)
  show ?thesis by (rule that [OF c]) (simp add: compact_conversation_with_strategy_def Let_def c s)
qed

lemma model_failure_falls_back_witness:
  "\<exists>r w'. compact_conversation sample_env [] ManualTrigger True 0 7 sample_compaction_world = (Some r, w')
     \<and> compact_conversation_with_strategy sample_env sample_models [] ManualTrigger True 0 7 sample_compaction_world
         = (Some r, w', Some MISSING_MODEL)"
proof -
  obtain r w1 where m: "compact_conversation_with_strategy sample_env sample_models [] ManualTrigger True 0 7 sample_compaction_world
      = (Some r, w1, Some MISSING_MODEL)" by (rule sample_run)
  from model_failure_falls_back [OF m] m show ?thesis by blast
qed

section \<open>Pairs\<close>

lemma compact_keeps_pairs:
  assumes "wire_ok (cw_conversation w)" and "compact_conversation env attachments trigger force overhead now w = (rep, w')"
  shows "wire_ok (cw_conversation w')"
  using assms(2)
proof (cases rule: compact_cases)
  case (compacted split r)
  have "wire_ok (take split (cw_conversation w) @ drop split (cw_conversation w))" using assms(1) by simp
  from wire_ok_suffix [OF this] show ?thesis unfolding compacted(3) by (rule wire_ok_plain(2)) simp_all
qed (use assms(1) in simp)

lemma rewrite_head_ok: "wire_ok (rewrite_head t conversation) = wire_ok conversation"
  by (auto simp: rewrite_head_def wire_ok_def split: list.split llm_item.split)

lemma strategy_keeps_pairs:
  assumes "wire_ok (cw_conversation w)"
    and "compact_conversation_with_strategy env models attachments trigger force overhead now w = (rep, w', reason)"
  shows "wire_ok (cw_conversation w')"
  using assms(2)
proof (cases rule: strategy_cases)
  case plain
  then show ?thesis by (rule compact_keeps_pairs [OF assms(1)])
next
  case (rewritten r w1 r' t)
  have "cw_conversation w' = rewrite_head t (cw_conversation w1)"
    using rewritten(3) by (auto simp: apply_model_summary_def Let_def)
  then show ?thesis using compact_keeps_pairs [OF assms(1) rewritten(1)] by (simp add: rewrite_head_ok)
qed

text \<open>C13: summarising keeps the conversation acceptable to a provider.  Wherever the cut falls, also inside a round of parallel
  calls, and whatever the model answers, every call of the result is declared once and answered once, later; the head is the
  summary; at most \<open>recent_items\<close> items follow it, in their order; and without a report nothing has changed.\<close>

theorem compaction_keeps_pairs:
  assumes "wire_ok (cw_conversation w)"
    and "compact_conversation_with_strategy env models attachments trigger force overhead now w = (rep, w', reason)"
  shows "wire_ok (cw_conversation w')
    \<and> (case rep of None \<Rightarrow> w' = w
       | Some r \<Rightarrow> \<exists>kept. cw_conversation w' = UserText (rp_summary r) # kept \<and> subseq kept (cw_conversation w)
           \<and> length kept \<le> max (cc_recent_items (ce_config env)) 1)"
proof
  show "wire_ok (cw_conversation w')" by (rule strategy_keeps_pairs [OF assms])
  have kept: "\<exists>kept. cw_conversation w1 = UserText (rp_summary r) # kept \<and> subseq kept (cw_conversation w)
           \<and> length kept \<le> max (cc_recent_items (ce_config env)) 1"
    if c: "compact_conversation env attachments trigger force overhead now w = (Some r, w1)" for r w1
    using c
  proof (cases rule: compact_cases)
    case (compacted split r2)
    let ?kept = "drop_orphan_function_call_outputs (drop split (cw_conversation w))"
    have "length ?kept \<le> length (drop split (cw_conversation w))"
      unfolding drop_orphan_function_call_outputs_def by (rule length_filter_le)
    then have "length ?kept \<le> max (cc_recent_items (ce_config env)) 1"
      using compaction_split_bounds(3) [OF compacted(2)] by simp
    moreover have "subseq ?kept (cw_conversation w)"
      unfolding drop_orphan_function_call_outputs_def
      by (metis append_take_drop_id list_emb_append2 subseq_filter_left)
    ultimately show ?thesis using compacted(1,3) by auto
  qed simp
  show "case rep of None \<Rightarrow> w' = w
       | Some r \<Rightarrow> \<exists>kept. cw_conversation w' = UserText (rp_summary r) # kept \<and> subseq kept (cw_conversation w)
           \<and> length kept \<le> max (cc_recent_items (ce_config env)) 1"
    using assms(2)
  proof (cases rule: strategy_cases)
    case plain
    show ?thesis
    proof (cases rep)
      case None
      with plain show ?thesis by (cases rule: compact_cases) simp_all
    next
      case (Some r)
      with kept plain show ?thesis by simp
    qed
  next
    case (rewritten r w1 r' t)
    have "cw_conversation w' = rewrite_head t (cw_conversation w1)" "rp_summary r' = t"
      using rewritten(3) by (auto simp: apply_model_summary_def Let_def)
    with kept [OF rewritten(1)] rewritten(2) show ?thesis by (auto simp: rewrite_head_def)
  qed
qed

lemma compaction_keeps_pairs_witness:
  "\<exists>r w' kept. compact_conversation_with_strategy sample_env sample_models [] ManualTrigger True 0 7 sample_compaction_world
       = (Some r, w', Some MISSING_MODEL)
     \<and> wire_ok (cw_conversation w') \<and> cw_conversation w' = UserText (rp_summary r) # kept"
proof -
  obtain r w1 where m: "compact_conversation_with_strategy sample_env sample_models [] ManualTrigger True 0 7 sample_compaction_world
      = (Some r, w1, Some MISSING_MODEL)" by (rule sample_run)
  have "wire_ok (cw_conversation sample_compaction_world)" by code_simp
  from compaction_keeps_pairs [OF this m] m show ?thesis by auto
qed

section \<open>Bounds and the state\<close>

text \<open>An extractive compaction that was not forced makes the conversation smaller, and its head stays within its budget.\<close>

theorem compaction_shrinks:
  assumes "compact_conversation env attachments trigger False overhead now w = (Some r, w')"
  shows "estimate_bytes (ce_json_text env) (cw_conversation w') < estimate_bytes (ce_json_text env) (cw_conversation w)
    \<and> byte_len (rp_summary r) \<le> cc_max_summary_bytes (ce_config env)
    \<and> cr_summary_bytes (rp_record r) = byte_len (rp_summary r)"
  using assms by (cases rule: compact_cases) simp_all

definition shrink_env :: compaction_env where
  "shrink_env = sample_env\<lparr>ce_config := (ce_config sample_env)\<lparr>cc_max_summary_bytes := 0\<rparr>\<rparr>"

lemma compaction_shrinks_witness:
  "\<exists>r w'. compact_conversation shrink_env [] AutoTrigger False 0 7 sample_compaction_world = (Some r, w')
     \<and> estimate_bytes (ce_json_text shrink_env) (cw_conversation w')
         < estimate_bytes (ce_json_text shrink_env) (cw_conversation sample_compaction_world)"
proof -
  have zero: "build_compaction_summary json_text (ce_config shrink_env) generation previous pinned older attachments store = []"
    for json_text generation previous pinned older attachments store
    by (simp add: build_compaction_summary_def context_attachment_preview_def truncate_utf8_def shrink_env_def)
  have split: "compaction_split (ce_json_text shrink_env) (ce_config shrink_env) False 0 (cw_conversation sample_compaction_world) = Some 2"
    by code_simp
  have guard: "ce_bytes (estimate_context (ce_json_text shrink_env)
      (UserText [] # drop_orphan_function_call_outputs (drop 2 (cw_conversation sample_compaction_world))))
      < ce_bytes (estimate_context (ce_json_text shrink_env) (cw_conversation sample_compaction_world))" by code_simp
  have "fst (compact_conversation shrink_env [] AutoTrigger False 0 7 sample_compaction_world) \<noteq> None"
    using guard by (simp add: compact_conversation_def Let_def split zero split: prod.split)
  then obtain r w' where c: "compact_conversation shrink_env [] AutoTrigger False 0 7 sample_compaction_world = (Some r, w')"
    by (metis not_Some_eq prod.collapse)
  from compaction_shrinks [OF c] c show ?thesis by blast
qed

definition compaction_state_ok :: "compaction_state \<Rightarrow> bool" where
  "compaction_state_ok st \<longleftrightarrow>
     length (cs_history st) \<le> COMPACTION_MAX_HISTORY
     \<and> cs_last st = (if cs_history st = [] then None else Some (last (cs_history st)))"

lemma keep_last_snoc: "0 < n \<Longrightarrow> keep_last n (xs @ [x]) \<noteq> [] \<and> last (keep_last n (xs @ [x])) = x"
  by (simp add: keep_last_def)

lemma compact_state_ok:
  assumes "compaction_state_ok (cw_state w)" "compact_conversation env attachments trigger force overhead now w = (rep, w')"
  shows "compaction_state_ok (cw_state w')"
  using assms(2)
proof (cases rule: compact_cases)
  case (compacted split r)
  then show ?thesis
    using keep_last_snoc [of COMPACTION_MAX_HISTORY "cs_history (cw_state w)" "rp_record r"]
    by (simp add: compaction_state_ok_def COMPACTION_MAX_HISTORY_def)
qed (use assms(1) in simp)

lemma map_last_facts: "length (map_last f xs) = length xs" "xs \<noteq> [] \<Longrightarrow> last (map_last f xs) = f (last xs)" "map_last f xs = [] \<longleftrightarrow> xs = []"
  by (simp_all add: map_last_def)

lemma model_summary_state_ok:
  "compaction_state_ok (cw_state w) \<Longrightarrow> apply_model_summary t r w = (r', w') \<Longrightarrow> compaction_state_ok (cw_state w')"
  by (auto simp: apply_model_summary_def Let_def compaction_state_ok_def map_last_facts)

lemma undo_state_ok: "compaction_state_ok st \<Longrightarrow> compaction_state_ok (undo_state st)"
  by (auto simp: compaction_state_ok_def undo_state_def Let_def)

text \<open>The bookkeeping stays consistent.  Summarising, with or without a model, and the undo keep the history within twenty
  records and the last record the end of the history.\<close>

theorem compaction_state_invariant:
  assumes "compaction_state_ok (cw_state w)"
  shows "compaction_state_ok (cw_state (fst (snd (compact_conversation_with_strategy env models attachments trigger force overhead now w))))
    \<and> compaction_state_ok (cw_state (snd (compact_context_undo env w)))"
proof
  obtain rep w' reason where s: "compact_conversation_with_strategy env models attachments trigger force overhead now w = (rep, w', reason)"
    by (metis prod.collapse)
  from s have "compaction_state_ok (cw_state w')"
  proof (cases rule: strategy_cases)
    case plain
    then show ?thesis by (rule compact_state_ok [OF assms])
  next
    case (rewritten r w1 r' t)
    show ?thesis by (rule model_summary_state_ok [OF compact_state_ok [OF assms rewritten(1)] rewritten(3)])
  qed
  with s show "compaction_state_ok (cw_state (fst (snd (compact_conversation_with_strategy env models attachments trigger force overhead now w))))"
    by simp
  show "compaction_state_ok (cw_state (snd (compact_context_undo env w)))"
    using assms undo_state_ok [OF assms]
    by (auto simp: compact_context_undo_def split: option.split prod.split list.split llm_item.split)
qed

lemma compaction_state_invariant_witness:
  "compaction_state_ok (cw_state (fst (snd (compact_conversation_with_strategy sample_env sample_models [] ManualTrigger True 0 7 sample_compaction_world))))"
proof -
  have "compaction_state_ok (cw_state sample_compaction_world)" by code_simp
  from compaction_state_invariant [OF this] show ?thesis by blast
qed

text \<open>The report, the state and the conversation agree.  After a compaction, whether a model rewrote the summary or not,
  the report's summary is the head of the conversation and the state's summary, its record is the state's last one and the
  end of the history, with the size of that summary, and its checkpoint is the conversation as it is persisted.\<close>

theorem report_matches_state:
  assumes "compact_conversation_with_strategy env models attachments trigger force overhead now w = (Some r, w', reason)"
  shows "hd (cw_conversation w') = UserText (rp_summary r) \<and> cs_summary (cw_state w') = Some (rp_summary r)
    \<and> cs_last (cw_state w') = Some (rp_record r) \<and> last (cs_history (cw_state w')) = rp_record r
    \<and> cr_summary_bytes (rp_record r) = byte_len (rp_summary r)
    \<and> rp_post_compact r = map (llm_input_to_resume_item (ce_encode env)) (cw_conversation w')"
proof -
  have plain: "hd (cw_conversation w1) = UserText (rp_summary q) \<and> cs_summary (cw_state w1) = Some (rp_summary q)
    \<and> cs_last (cw_state w1) = Some (rp_record q) \<and> last (cs_history (cw_state w1)) = rp_record q \<and> cs_history (cw_state w1) \<noteq> []
    \<and> cr_summary_bytes (rp_record q) = byte_len (rp_summary q) \<and> cw_conversation w1 \<noteq> []
    \<and> rp_post_compact q = map (llm_input_to_resume_item (ce_encode env)) (cw_conversation w1)"
    if "compact_conversation env attachments trigger force overhead now w = (Some q, w1)" for q w1
    using that
  proof (cases rule: compact_cases)
    case (compacted split r2)
    then show ?thesis
      using keep_last_snoc [of COMPACTION_MAX_HISTORY "cs_history (cw_state w)" "rp_record q"]
      by (simp add: COMPACTION_MAX_HISTORY_def)
  qed simp
  from assms show ?thesis
  proof (cases rule: strategy_cases)
    case unchanged: plain
    from plain [OF unchanged] show ?thesis by blast
  next
    case (rewritten q w1 r' t)
    obtain s rest where c: "cw_conversation w1 = UserText s # rest" using plain [OF rewritten(1)] by (cases "cw_conversation w1") auto
    have r': "r' = r" using rewritten(2) by simp
    show ?thesis
      using rewritten(3) plain [OF rewritten(1)] c unfolding r'
      by (auto simp: apply_model_summary_def Let_def rewrite_head_def rewrite_resume_head_def map_last_facts set_summary_bytes_def)
  qed
qed

lemma report_matches_state_witness:
  "\<exists>r w'. compact_conversation_with_strategy sample_env sample_models [] ManualTrigger True 0 7 sample_compaction_world
       = (Some r, w', Some MISSING_MODEL)
     \<and> cs_last (cw_state w') = Some (rp_record r)"
proof -
  obtain r w1 where m: "compact_conversation_with_strategy sample_env sample_models [] ManualTrigger True 0 7 sample_compaction_world
      = (Some r, w1, Some MISSING_MODEL)" by (rule sample_run)
  from report_matches_state [OF m] m show ?thesis by blast
qed

section \<open>Undo\<close>

definition persistable :: "compaction_env \<Rightarrow> llm_item \<Rightarrow> bool" where
  "persistable env item \<longleftrightarrow> resume_item_to_llm_input (ce_decode env) (llm_input_to_resume_item (ce_encode env) item) = item"

lemma undo_step:
  "find_checkpoint w = Some (was, i, ck) \<Longrightarrow> other_session env ck = None \<Longrightarrow> cw_conversation w = UserText head # tail \<Longrightarrow>
     compact_context_undo env w = (Inr (Some was), w\<lparr>cw_conversation := map (resume_item_to_llm_input (ce_decode env)) (ck_items ck) @ tail,
       cw_state := undo_state (cw_state w)\<rparr>)"
  by (simp add: compact_context_undo_def)

lemma undo_after_compact:
  assumes c: "compact_conversation env attachments trigger force overhead now w = (Some r, w1)"
    and st: "cw_store w = Some st" "as_writable st"
    and split: "split = cr_dropped_items (rp_record r)"
  obtains w2 where "compact_context_undo env (w1\<lparr>cw_conversation := cw_conversation w1 @ later\<rparr>) = (Inr (Some (rp_record r)), w2)"
    "cw_conversation w2 = map (resume_item_to_llm_input (ce_decode env) \<circ> llm_input_to_resume_item (ce_encode env)) (take split (cw_conversation w))
        @ drop_orphan_function_call_outputs (drop split (cw_conversation w)) @ later"
    "cw_state w2 = undo_state (cw_state w1)"
  using c
proof (cases rule: compact_cases)
  case (compacted split' r')
  have r: "r' = r" and sp: "split' = split" using compacted(1,8) split by simp_all
  note k = compacted [unfolded r sp]
  have "take split (cw_conversation w) \<noteq> []" using compaction_split_bounds(1,2) [OF k(2)] by auto
  then have ne: "rp_dropped r \<noteq> []" using k(6) by simp
  let ?i = "checkpoint_id (saturating_add (cs_generation (cw_state w)) 1) now"
  let ?ck = "\<lparr>ck_replacement_id = ?i, ck_session_id = (case ce_session_id env of None \<Rightarrow> [] | Some s \<Rightarrow> s),
    ck_generation = saturating_add (cs_generation (cw_state w)) 1, ck_items = rp_dropped r, ck_created_ms = now\<rparr>"
  have rid: "cr_replacement_id (rp_record r) = Some ?i"
    and st1: "cw_store w1 = Some (st\<lparr>as_checkpoints := (as_checkpoints st)(?i \<mapsto> ?ck)\<rparr>)"
    using k(12) st ne by (simp_all add: put_checkpoint_def Let_def)
  let ?w = "w1\<lparr>cw_conversation := cw_conversation w1 @ later\<rparr>"
  have f: "find_checkpoint ?w = Some (rp_record r, ?i, ?ck)"
    using k(11) rid st1 by (simp add: find_checkpoint_def)
  have o: "other_session env ?ck = None" by (simp add: other_session_def split: option.split)
  have conv: "cw_conversation ?w = UserText (rp_summary r) # drop_orphan_function_call_outputs (drop split (cw_conversation w)) @ later"
    using k(3) by simp
  show ?thesis by (rule that [OF undo_step [OF f o conv]]) (simp_all add: k(6))
qed simp

text \<open>C15: the undo gives back what was dropped.  When the checkpoint was written, undoing a compaction, also after more items
  have come in, puts the dropped items back in front of the kept ones: the conversation is what it was, followed by the new
  items, as long as the dropped items survive being persisted and the cut did not part an output from its call.  The
  bookkeeping goes back too, but the undone summary stays unless no earlier compaction is left.\<close>

theorem undo_gives_back:
  assumes c: "compact_conversation env attachments trigger force overhead now w = (Some r, w1)"
    and st: "cw_store w = Some st" "as_writable st"
    and items: "\<forall>item \<in> set (take (cr_dropped_items (rp_record r)) (cw_conversation w)). persistable env item"
    and whole: "set (answered_ids (drop (cr_dropped_items (rp_record r)) (cw_conversation w)))
      \<subseteq> set (declared_ids (drop (cr_dropped_items (rp_record r)) (cw_conversation w)))"
    and state: "compaction_state_ok (cw_state w)" "length (cs_history (cw_state w)) < COMPACTION_MAX_HISTORY"
      "cs_generation (cw_state w) < U64_MAX"
  shows "\<exists>w2. compact_context_undo env (w1\<lparr>cw_conversation := cw_conversation w1 @ later\<rparr>) = (Inr (Some (rp_record r)), w2)
    \<and> cw_conversation w2 = cw_conversation w @ later
    \<and> cw_state w2 = (cw_state w)\<lparr>cs_summary := (if cs_history (cw_state w) = [] then None else Some (rp_summary r))\<rparr>"
proof -
  let ?split = "cr_dropped_items (rp_record r)"
  obtain w2 where w2: "compact_context_undo env (w1\<lparr>cw_conversation := cw_conversation w1 @ later\<rparr>) = (Inr (Some (rp_record r)), w2)"
    "cw_conversation w2 = map (resume_item_to_llm_input (ce_decode env) \<circ> llm_input_to_resume_item (ce_encode env)) (take ?split (cw_conversation w))
        @ drop_orphan_function_call_outputs (drop ?split (cw_conversation w)) @ later"
    "cw_state w2 = undo_state (cw_state w1)" by (rule undo_after_compact [OF c st refl])
  have "map (resume_item_to_llm_input (ce_decode env) \<circ> llm_input_to_resume_item (ce_encode env)) (take ?split (cw_conversation w))
      = take ?split (cw_conversation w)"
    using items by (intro map_idI) (simp add: persistable_def)
  moreover have "drop_orphan_function_call_outputs (drop ?split (cw_conversation w)) = drop ?split (cw_conversation w)"
    unfolding drop_orphan_function_call_outputs_def by (rule drop_orphan_id [OF whole])
  ultimately have conv: "cw_conversation w2 = cw_conversation w @ later" using w2(2) by simp
  from c have "undo_state (cw_state w1) = (cw_state w)\<lparr>cs_summary := (if cs_history (cw_state w) = [] then None else Some (rp_summary r))\<rparr>"
  proof (cases rule: compact_cases)
    case (compacted split' r')
    have "saturating_sub (saturating_add (cs_generation (cw_state w)) 1) 1 = cs_generation (cw_state w)"
      using state(3) by (simp add: word_unat_eq_iff arith_u64 word_less_nat_alt unat_U64_MAX)
    moreover have "keep_last COMPACTION_MAX_HISTORY (cs_history (cw_state w) @ [rp_record r']) = cs_history (cw_state w) @ [rp_record r']"
      using state(2) by (simp add: keep_last_def)
    ultimately show ?thesis using compacted(1,11) state(1)
      by (simp add: undo_state_def Let_def compaction_state_ok_def)
  qed simp
  with conv w2 show ?thesis by simp
qed

definition serial_world :: compaction_world where
  "serial_world = sample_compaction_world\<lparr>cw_conversation :=
     [UserText (lit ''go''), call_of ''a'', answer_of ''a'', AssistantText (lit ''done''), UserText (lit ''next'')]\<rparr>"

lemma forced_run:
  assumes "compaction_split (ce_json_text env) (ce_config env) True overhead (cw_conversation w) = Some split"
  obtains r w1 where "compact_conversation env attachments trigger True overhead now w = (Some r, w1)"
    "cr_dropped_items (rp_record r) = split"
proof -
  obtain r w1 where c: "compact_conversation env attachments trigger True overhead now w = (Some r, w1)"
    using compact_forced [OF assms, of attachments trigger now] by (metis not_Some_eq prod.collapse)
  from c show ?thesis
  proof (cases rule: compact_cases)
    case (compacted split' r')
    show ?thesis by (rule that [OF c]) (use compacted(1,2,8) assms in simp)
  qed simp
qed

lemma undo_gives_back_witness:
  "\<exists>r w1 w2. compact_conversation sample_env [] ManualTrigger True 0 7 serial_world = (Some r, w1)
     \<and> compact_context_undo sample_env (w1\<lparr>cw_conversation := cw_conversation w1 @ [UserText (lit ''more'')]\<rparr>) = (Inr (Some (rp_record r)), w2)
     \<and> cw_conversation w2 = cw_conversation serial_world @ [UserText (lit ''more'')]"
proof -
  have split: "compaction_split (ce_json_text sample_env) (ce_config sample_env) True 0 (cw_conversation serial_world) = Some 3"
    by code_simp
  obtain r w1 where c: "compact_conversation sample_env [] ManualTrigger True 0 7 serial_world = (Some r, w1)"
    and n: "cr_dropped_items (rp_record r) = 3" by (rule forced_run [OF split])
  have st: "cw_store serial_world = Some sample_store" "as_writable sample_store"
    by (simp_all add: serial_world_def sample_compaction_world_def sample_store_def)
  have items: "\<forall>item \<in> set (take 3 (cw_conversation serial_world)). persistable sample_env item"
    by (simp add: serial_world_def persistable_def call_of_def answer_of_def)
  have whole: "set (answered_ids (drop 3 (cw_conversation serial_world))) \<subseteq> set (declared_ids (drop 3 (cw_conversation serial_world)))"
    by (simp add: serial_world_def ids_Cons)
  have state: "compaction_state_ok (cw_state serial_world)" "length (cs_history (cw_state serial_world)) < COMPACTION_MAX_HISTORY"
    "cs_generation (cw_state serial_world) < U64_MAX"
    by code_simp+
  from undo_gives_back [OF c st, unfolded n, OF items whole state] c show ?thesis by blast
qed

text \<open>The undo does not mend a parted round.  When the cut falls between the calls of a parallel round, the outputs of the
  dropped calls are neither in the checkpoint nor kept: the undo brings the call back without its answer, and the repair at
  the next turn answers it with an error of its own.\<close>

theorem undo_loses_parted_output:
  assumes "wire_ok (cw_conversation w)"
    and c: "compact_conversation env attachments trigger force overhead now w = (Some r, w1)"
    and st: "cw_store w = Some st" "as_writable st"
    and called: "i \<in> set (declared_ids (take (cr_dropped_items (rp_record r)) (cw_conversation w)))"
      "i \<notin> set (answered_ids (take (cr_dropped_items (rp_record r)) (cw_conversation w)))"
  shows "i \<in> set (answered_ids (cw_conversation w))
    \<and> (\<exists>w2. compact_context_undo env w1 = (Inr (Some (rp_record r)), w2)
         \<and> i \<in> set (declared_ids (cw_conversation w2)) \<and> i \<notin> set (answered_ids (cw_conversation w2))
         \<and> interrupted_output i \<in> set (redact_llm_input_items redact (cw_conversation w2)))"
proof -
  let ?n = "cr_dropped_items (rp_record r)"
  let ?older = "take ?n (cw_conversation w)"
  let ?recent = "drop ?n (cw_conversation w)"
  let ?rt = "resume_item_to_llm_input (ce_decode env) \<circ> llm_input_to_resume_item (ce_encode env)"
  obtain w2 where w2: "compact_context_undo env (w1\<lparr>cw_conversation := cw_conversation w1 @ []\<rparr>) = (Inr (Some (rp_record r)), w2)"
    "cw_conversation w2 = map ?rt ?older @ drop_orphan_function_call_outputs ?recent @ []"
    by (rule undo_after_compact [OF c st refl])
  have rt: "declared_id (?rt x) = declared_id x" "answered_id (?rt x) = answered_id x" for x by (cases x; simp)+
  have ids: "declared_ids (cw_conversation w2) = declared_ids ?older @ declared_ids ?recent"
    "answered_ids (cw_conversation w2) = answered_ids ?older @ List.filter (\<lambda>i. i \<in> set (declared_ids ?recent)) (answered_ids ?recent)"
    by (simp_all add: w2(2) ids_append ids_map(1) [of ?rt, OF rt(1)] ids_map(2) [of ?rt, OF rt(2)]
        drop_orphan_function_call_outputs_def drop_orphan_ids del: map_map)
  obtain opened where "wire_scan ({} \<union> set (declared_ids ?older)) opened ?recent"
    using wire_scan_append [of "{}" "{}" ?older ?recent] assms(1) by (auto simp: wire_ok_def)
  then have "i \<notin> set (declared_ids ?recent)" using wire_scan_fresh called(1) by blast
  then have lost: "i \<in> set (declared_ids (cw_conversation w2))" "i \<notin> set (answered_ids (cw_conversation w2))"
    using ids called by auto
  have "declared_ids (cw_conversation w) = declared_ids ?older @ declared_ids ?recent"
    using ids_append(1) [of ?older ?recent] by simp
  then have "i \<in> set (answered_ids (cw_conversation w))" using wire_ok_answered [OF assms(1)] called(1) by simp
  moreover have "compact_context_undo env w1 = (Inr (Some (rp_record r)), w2)" using w2(1) by simp
  ultimately show ?thesis using lost redact_answers_open_call [OF lost, of redact] by blast
qed

lemma undo_loses_parted_output_witness:
  "\<exists>r w1 w2. compact_conversation sample_env [] ManualTrigger True 0 7 sample_compaction_world = (Some r, w1)
     \<and> compact_context_undo sample_env w1 = (Inr (Some (rp_record r)), w2)
     \<and> answer_of ''a'' \<in> set sample_conversation
     \<and> interrupted_output (lit ''a'') \<in> set (redact_llm_input_items id (cw_conversation w2))"
proof -
  obtain r w1 where c: "compact_conversation sample_env [] ManualTrigger True 0 7 sample_compaction_world = (Some r, w1)"
    and n: "cr_dropped_items (rp_record r) = 2" by (rule forced_run [OF sample_split])
  have st: "cw_store sample_compaction_world = Some sample_store" "as_writable sample_store"
    by (simp_all add: sample_compaction_world_def sample_store_def)
  have ok: "wire_ok (cw_conversation sample_compaction_world)" by code_simp
  have called: "lit ''a'' \<in> set (declared_ids (take 2 (cw_conversation sample_compaction_world)))"
    "lit ''a'' \<notin> set (answered_ids (take 2 (cw_conversation sample_compaction_world)))" by code_simp+
  have a: "answer_of ''a'' \<in> set sample_conversation" by (simp add: sample_conversation_def)
  from undo_loses_parted_output [OF ok c st, unfolded n, OF called, of id] c a show ?thesis by blast
qed

end
