(* ===== verification/ConversationRun.thy ===== *)
theory ConversationRun
  imports CompactionSpec
begin

text \<open>
  A conversation through a session, as the turn runner of \<open>crates/squeezy-agent/src/lib.rs\<close> changes it: one rule per
  operation, and the invariant every request to a provider rests on.
\<close>

section \<open>A round of tool calls\<close>

record tool_call =
  tc_call_id :: str
  tc_name :: str
  tc_arguments :: json

record pending_output =
  po_call_id :: str
  po_model_output :: str
  po_is_error :: bool

definition llm_function_call_item :: "(str \<Rightarrow> str) \<Rightarrow> tool_call \<Rightarrow> llm_item" where
  "llm_function_call_item redact call =
     FunctionCall (tc_call_id call) (tc_name call) (redact_json_value redact (tc_arguments call))"

definition output_item :: "(str \<Rightarrow> str) \<Rightarrow> pending_output \<Rightarrow> llm_item" where
  "output_item redact p = FunctionCallOutput (po_call_id p) (redact (po_model_output p)) None (po_is_error p)"

definition push_round :: "(str \<Rightarrow> str) \<Rightarrow> tool_call list \<Rightarrow> pending_output list \<Rightarrow> conversation \<Rightarrow> conversation" where
  "push_round redact calls results conversation =
     conversation @ map (llm_function_call_item redact) calls @ map (output_item redact) results"

section \<open>Steps\<close>

text \<open>A round answers each of its calls once, in their order, and the provider gives its calls ids the conversation does
  not have.\<close>

inductive conversation_step :: "compaction_env \<Rightarrow> model_env \<Rightarrow> (str \<Rightarrow> str) \<Rightarrow> compaction_world \<Rightarrow> compaction_world \<Rightarrow> bool"
  for env models redact where
  said: "declared_id item = None \<Longrightarrow> answered_id item = None \<Longrightarrow>
    conversation_step env models redact w (w\<lparr>cw_conversation := cw_conversation w @ [redact_input_item redact item]\<rparr>)"
| round: "map po_call_id results = map tc_call_id calls \<Longrightarrow> distinct (map tc_call_id calls) \<Longrightarrow>
    set (map tc_call_id calls) \<inter> set (declared_ids (cw_conversation w)) = {} \<Longrightarrow>
    conversation_step env models redact w (w\<lparr>cw_conversation := push_round redact calls results (cw_conversation w)\<rparr>)"
| trimmed: "maybe_micro_compact (ce_json_text env) (ce_config env) tokens (cw_conversation w) = (rep, items) \<Longrightarrow>
    conversation_step env models redact w (w\<lparr>cw_conversation := items\<rparr>)"
| masked: "mask_expired_reads_after_edits (ce_json_text env) edits (cc_keep_recent (ce_config env)) (cw_conversation w) = (rep', items) \<Longrightarrow>
    conversation_step env models redact w (w\<lparr>cw_conversation := items\<rparr>)"
| summarised: "compact_conversation_with_strategy env models attachments trigger force overhead now w = (report, w', reason) \<Longrightarrow>
    conversation_step env models redact w w'"
| resumed: "conversation_step env models redact w
    (w\<lparr>cw_conversation := redact_llm_input_items redact (cw_conversation w)\<rparr>)"

inductive_cases conversation_stepE: "conversation_step env models redact w w'"

inductive conversation_run :: "compaction_env \<Rightarrow> model_env \<Rightarrow> (str \<Rightarrow> str) \<Rightarrow> compaction_world \<Rightarrow> compaction_world \<Rightarrow> bool"
  for env models redact where
  idle: "conversation_run env models redact w w"
| more: "conversation_run env models redact w w' \<Longrightarrow> conversation_step env models redact w' w'' \<Longrightarrow> conversation_run env models redact w w''"

lemma redact_keeps_wire: "wire_ok items \<Longrightarrow> wire_ok (redact_llm_input_items redact items)"
proof -
  assume ok: "wire_ok items"
  let ?red = "map (redact_input_item redact) items"
  have ids: "set (answered_ids ?red) = set (declared_ids ?red)"
    using wire_ok_answered [OF ok] by (simp add: ids_map)
  have "redact_llm_input_items redact items = ?red"
    using ids by (simp add: redact_llm_input_items_def repair_orphan_function_calls_def
        drop_orphan_function_call_outputs_def drop_orphan_id repair_id del: map_map)
  then show "wire_ok (redact_llm_input_items redact items)" using ok by (simp add: wire_ok_map)
qed

lemma round_keeps_wire:
  assumes "wire_ok conversation" "map po_call_id results = map tc_call_id calls" "distinct (map tc_call_id calls)"
    "set (map tc_call_id calls) \<inter> set (declared_ids conversation) = {}"
  shows "wire_ok (push_round redact calls results conversation)"
  unfolding push_round_def
proof (rule wire_ok_round [OF assms(1,3,4)])
  show "map declared_id (map (llm_function_call_item redact) calls) = map Some (map tc_call_id calls)"
    by (simp add: llm_function_call_item_def)
  show "map answered_id (map (output_item redact) results) = map Some (map tc_call_id calls)"
    unfolding assms(2) [symmetric] by (simp add: output_item_def)
  show "\<forall>x \<in> set (map (output_item redact) results). declared_id x = None" by (simp add: output_item_def)
qed

lemma step_keeps_wire:
  assumes "conversation_step env models redact w w'" "wire_ok (cw_conversation w)"
  shows "wire_ok (cw_conversation w')"
  using assms
proof (cases rule: conversation_step.cases)
  case (said item)
  then show ?thesis using assms(2) by (simp add: wire_ok_plain(1))
next
  case (round results calls)
  then show ?thesis using assms(2) by (simp add: round_keeps_wire)
next
  case (trimmed tokens rep items)
  then show ?thesis using assms(2) trim_keeps_pairs [OF trimmed(2)] by simp
next
  case (masked edits rep' items)
  have "wire_ok (snd (rep', items)) = wire_ok (cw_conversation w)" unfolding masked(2) [symmetric] by (rule mask_keeps_pairs)
  then show ?thesis using assms(2) masked(1) by simp
next
  case (summarised attachments trigger force overhead now report reason)
  then show ?thesis by (intro strategy_keeps_pairs [OF assms(2)])
next
  case resumed
  then show ?thesis using assms(2) by (simp add: redact_keeps_wire)
qed



end
