(* ===== verification/ContextPins.thy ===== *)
theory ContextPins
  imports Compaction
begin

text \<open>
  Pinned context (\<open>pin_context_entry\<close>, \<open>unpin_context_entry\<close> and \<open>merge_concurrent_pins\<close> of
  \<open>crates/squeezy-agent/src/lib.rs\<close>, \<open>next_context_pin_id\<close> of \<open>context_compaction.rs\<close>).  A turn works on a clone of
  the compaction state it took at its start and merges the pins that came in meanwhile when it ends.
\<close>

section \<open>Ids\<close>

text \<open>\<open>str::parse::<u64>\<close>: an optional plus sign, then digits, within the width.\<close>

definition pin_digits_value :: "str \<Rightarrow> nat" where
  "pin_digits_value ds = foldl (\<lambda>acc d. acc * 10 + (d - 48)) 0 ds"

definition parse_u64_digits :: "str \<Rightarrow> u64 option" where
  "parse_u64_digits s =
     (let ds = (case s of [] \<Rightarrow> [] | c # cs \<Rightarrow> if c = 43 then cs else s)
      in if ds \<noteq> [] \<and> list_all is_digit ds \<and> pin_digits_value ds < 2 ^ 64 then Some (of_nat (pin_digits_value ds)) else None)"

definition pin_number :: "context_pin \<Rightarrow> u64 option" where
  "pin_number p = Option.bind (strip_prefix (pin_id p) (lit ''pin-'')) parse_u64_digits"

definition pin_numbers :: "context_pin list \<Rightarrow> u64 list" where
  "pin_numbers pins = List.map_filter pin_number pins"

definition pin_name :: "u64 \<Rightarrow> str" where
  "pin_name n = lit ''pin-'' @ replicate (4 - length (show_nat (unat n))) 48 @ show_nat (unat n)"

definition next_context_pin_id :: "context_pin list \<Rightarrow> str" where
  "next_context_pin_id pins = pin_name (saturating_add (fold max (pin_numbers pins) 0) 1)"

section \<open>Operations\<close>

definition pin_context_entry :: "str \<Rightarrow> str \<Rightarrow> str \<Rightarrow> u64 \<Rightarrow> compaction_state \<Rightarrow> context_pin \<times> compaction_state" where
  "pin_context_entry label summary origin now st =
     (let pin = \<lparr>pin_id = next_context_pin_id (cs_pinned st),
                 pin_label = truncate_status_chars (collapse_status_text label) 80,
                 pin_summary = truncate_status_chars (collapse_status_text summary) 800,
                 pin_origin = truncate_status_chars (collapse_status_text origin) 80, pin_created_ms = now\<rparr>
      in (pin, st\<lparr>cs_pinned := cs_pinned st @ [pin]\<rparr>))"

fun remove_pin :: "str \<Rightarrow> context_pin list \<Rightarrow> (context_pin \<times> context_pin list) option" where
  "remove_pin i [] = None"
| "remove_pin i (p # ps) =
     (if pin_id p = i then Some (p, ps) else map_option (\<lambda>(q, qs). (q, p # qs)) (remove_pin i ps))"

text \<open>\<open>None\<close> is the error \<open>pin ... not found\<close>.\<close>

definition unpin_context_entry :: "str \<Rightarrow> compaction_state \<Rightarrow> (context_pin \<times> compaction_state) option" where
  "unpin_context_entry i st =
     map_option (\<lambda>(p, ps). (p, st\<lparr>cs_pinned := ps\<rparr>)) (remove_pin i (cs_pinned st))"

definition merge_pin :: "context_pin \<Rightarrow> context_pin list \<Rightarrow> context_pin list" where
  "merge_pin pin pins = (if list_ex (\<lambda>existing. pin_id existing = pin_id pin) pins then pins else pins @ [pin])"

definition merge_concurrent_pins :: "compaction_state \<Rightarrow> context_pin list \<Rightarrow> compaction_state" where
  "merge_concurrent_pins compaction latest_pins = compaction\<lparr>cs_pinned := fold merge_pin latest_pins (cs_pinned compaction)\<rparr>"

section \<open>Ids are unique\<close>

lemma pin_digits_value_snoc: "pin_digits_value (ds @ [d]) = pin_digits_value ds * 10 + (d - 48)"
  by (simp add: pin_digits_value_def)

lemma show_nat_digits: "list_all is_digit (show_nat n) \<and> show_nat n \<noteq> [] \<and> pin_digits_value (show_nat n) = n"
proof (induction n rule: show_nat.induct)
  case (1 n)
  show ?case
  proof (cases "n < 10")
    case True
    then show ?thesis by (subst (1 2 3) show_nat.simps) (simp add: is_digit_def pin_digits_value_def)
  next
    case False
    have d: "is_digit (48 + n mod 10)" by (simp add: is_digit_def less_Suc_eq_le [symmetric])
    show ?thesis using 1 [OF False] False d
      by (subst (1 2 3) show_nat.simps) (simp add: pin_digits_value_snoc)
  qed
qed

lemma pin_digits_value_zeros: "pin_digits_value (replicate k 48 @ ds) = pin_digits_value ds"
proof -
  have "foldl (\<lambda>acc d. acc * 10 + (d - 48)) 0 (replicate k 48) = (0 :: nat)"
    by (induction k) simp_all
  then show ?thesis by (simp add: pin_digits_value_def)
qed

lemma digits_hd: "list_all is_digit ds \<Longrightarrow> (case ds of [] \<Rightarrow> [] | c # cs \<Rightarrow> if c = 43 then cs else ds) = ds"
  by (cases ds) (auto simp: is_digit_def)

lemma parse_pin_name: "pin_id p = pin_name n \<Longrightarrow> pin_number p = Some n"
proof -
  let ?ds = "replicate (4 - length (show_nat (unat n))) 48 @ show_nat (unat n)"
  have all: "list_all is_digit ?ds" 
  proof -
    have "list_all is_digit (replicate k 48)" for k by (induction k) (simp_all add: is_digit_def)
    then show ?thesis using show_nat_digits [of "unat n"] by simp
  qed
  have v: "pin_digits_value ?ds = unat n" using show_nat_digits [of "unat n"] by (simp add: pin_digits_value_zeros)
  have "?ds \<noteq> []" using show_nat_digits [of "unat n"] by simp
  then have "parse_u64_digits ?ds = Some n"
    unfolding parse_u64_digits_def digits_hd [OF all] Let_def using all v by simp
  moreover assume "pin_id p = pin_name n"
  ultimately show "pin_number p = Some n"
    by (simp add: pin_number_def pin_name_def strip_prefix_def)
qed

lemma fold_max_ge: "acc \<le> fold max ns acc \<and> (\<forall>n \<in> set ns. n \<le> fold max ns (acc :: u64))"
  by (induction ns arbitrary: acc) (force simp: le_max_iff_disj)+

lemma next_id_fresh:
  assumes "fold max (pin_numbers pins) 0 < U64_MAX"
  shows "next_context_pin_id pins \<notin> pin_id ` set pins"
proof
  let ?m = "fold max (pin_numbers pins) 0"
  assume "next_context_pin_id pins \<in> pin_id ` set pins"
  then obtain p where p: "p \<in> set pins" "pin_id p = pin_name (saturating_add ?m 1)"
    by (auto simp: next_context_pin_id_def)
  then have "saturating_add ?m 1 \<in> set (pin_numbers pins)"
    using parse_pin_name [OF p(2)] by (force simp: pin_numbers_def List.map_filter_def)
  then have "saturating_add ?m 1 \<le> ?m" using fold_max_ge by blast
  moreover have "unat (saturating_add ?m 1) = unat ?m + 1"
    using assms by (simp add: unat_saturating_add word_less_nat_alt unat_U64_MAX)
  ultimately show False by (simp add: word_le_nat_alt)
qed

lemma remove_pin_Some:
  "remove_pin i pins = Some (p, ps) \<Longrightarrow> \<exists>before rest. pins = before @ p # rest \<and> ps = before @ rest \<and> pin_id p = i
     \<and> (\<forall>q \<in> set before. pin_id q \<noteq> i)"
proof (induction pins arbitrary: p ps)
  case (Cons q qs)
  show ?case
  proof (cases "pin_id q = i")
    case True
    then have "q # qs = [] @ p # qs \<and> ps = [] @ qs \<and> pin_id p = i" using Cons.prems by simp
    then show ?thesis by (metis empty_iff empty_set)
  next
    case False
    then obtain ps' where ps': "remove_pin i qs = Some (p, ps')" "ps = q # ps'" using Cons.prems by auto
    from Cons.IH [OF ps'(1)] obtain before rest where
      "qs = before @ p # rest" "ps' = before @ rest" "pin_id p = i" "\<forall>q \<in> set before. pin_id q \<noteq> i" by blast
    then have "q # qs = (q # before) @ p # rest \<and> ps = (q # before) @ rest \<and> pin_id p = i \<and> (\<forall>x \<in> set (q # before). pin_id x \<noteq> i)"
      using ps'(2) False by simp
    then show ?thesis by blast
  qed
qed simp

abbreviation pin_ids :: "context_pin list \<Rightarrow> str list" where
  "pin_ids pins \<equiv> map pin_id pins"

lemma merge_pin_ids:
  "distinct (pin_ids pins) \<Longrightarrow> distinct (pin_ids (fold merge_pin latest pins))"
  "set (pin_ids (fold merge_pin latest pins)) = set (pin_ids pins) \<union> set (pin_ids latest)"
proof (induction latest arbitrary: pins)
  case (Cons q qs)
  {
    case 1
    then have "distinct (pin_ids (merge_pin q pins))" by (force simp: merge_pin_def list_ex_iff)
    from Cons.IH(1) [OF this] show ?case by simp
  next
    case 2
    have "set (pin_ids (merge_pin q pins)) = insert (pin_id q) (set (pin_ids pins))"
      by (auto simp: merge_pin_def list_ex_iff image_iff) metis
    then show ?case using Cons.IH(2) [of "merge_pin q pins"] by simp
  }
qed simp_all

text \<open>Pins keep unique ids.  Pinning (below the end of the number range), unpinning and the merge at the end of a turn never
  give two pins one id, so an id names the pin it was shown for.\<close>

theorem pin_ids_stay_unique:
  assumes "distinct (pin_ids (cs_pinned st))"
  shows "(fold max (pin_numbers (cs_pinned st)) 0 < U64_MAX \<longrightarrow>
            distinct (pin_ids (cs_pinned (snd (pin_context_entry label summary origin now st)))))
    \<and> (\<forall>p st'. unpin_context_entry i st = Some (p, st') \<longrightarrow> pin_id p = i \<and> i \<notin> set (pin_ids (cs_pinned st')) \<and> distinct (pin_ids (cs_pinned st')))
    \<and> distinct (pin_ids (cs_pinned (merge_concurrent_pins st latest)))"
proof (intro conjI impI allI)
  assume "fold max (pin_numbers (cs_pinned st)) 0 < U64_MAX"
  from next_id_fresh [OF this] show "distinct (pin_ids (cs_pinned (snd (pin_context_entry label summary origin now st))))"
    using assms by (simp add: pin_context_entry_def Let_def)
next
  fix p st'
  assume "unpin_context_entry i st = Some (p, st')"
  then obtain ps where ps: "remove_pin i (cs_pinned st) = Some (p, ps)" "st' = st\<lparr>cs_pinned := ps\<rparr>"
    by (auto simp: unpin_context_entry_def)
  from remove_pin_Some [OF ps(1)] obtain before rest where
    b: "cs_pinned st = before @ p # rest" "ps = before @ rest" "pin_id p = i" by blast
  then show "pin_id p = i" "i \<notin> set (pin_ids (cs_pinned st'))" "distinct (pin_ids (cs_pinned st'))"
    using assms ps(2) by auto
next
  show "distinct (pin_ids (cs_pinned (merge_concurrent_pins st latest)))"
    using merge_pin_ids(1) [OF assms] by (simp add: merge_concurrent_pins_def)
qed

lemma merge_no_news: "set (pin_ids latest) \<subseteq> set (pin_ids pins) \<Longrightarrow> fold merge_pin latest pins = pins"
proof (induction latest)
  case (Cons q qs)
  then have "merge_pin q pins = pins" by (force simp: merge_pin_def list_ex_iff)
  with Cons show ?case by simp
qed simp

text \<open>A pin removed during a turn comes back.  The merge adds pins and never drops one: whatever \<open>unpin\<close> took away while
  the turn was running is in the state again when the turn ends.\<close>

theorem turn_end_restores_unpinned:
  assumes "unpin_context_entry i st = Some (p, st')"
  shows "merge_concurrent_pins st (cs_pinned st') = st \<and> p \<in> set (cs_pinned (merge_concurrent_pins st (cs_pinned st')))"
proof -
  obtain ps where ps: "remove_pin i (cs_pinned st) = Some (p, ps)" "st' = st\<lparr>cs_pinned := ps\<rparr>"
    using assms by (auto simp: unpin_context_entry_def)
  from remove_pin_Some [OF ps(1)] obtain before rest where
    b: "cs_pinned st = before @ p # rest" "ps = before @ rest" by blast
  then have "fold merge_pin (cs_pinned st') (cs_pinned st) = cs_pinned st"
    using ps(2) by (intro merge_no_news) auto
  then show ?thesis using b by (simp add: merge_concurrent_pins_def)
qed

definition sample_pins :: compaction_state where
  "sample_pins = snd (pin_context_entry (lit ''goal'') (lit ''ship it'') (lit ''user'') 5 empty_compaction_state)"

lemma pin_ids_stay_unique_witness:
  "map pin_id (cs_pinned (snd (pin_context_entry (lit ''b'') (lit ''c'') (lit ''user'') 6 sample_pins))) = map lit [''pin-0001'', ''pin-0002'']
   \<and> distinct (pin_ids (cs_pinned (merge_concurrent_pins sample_pins (cs_pinned sample_pins))))"
proof
  show "map pin_id (cs_pinned (snd (pin_context_entry (lit ''b'') (lit ''c'') (lit ''user'') 6 sample_pins))) = map lit [''pin-0001'', ''pin-0002'']"
    by code_simp
  have "distinct (pin_ids (cs_pinned sample_pins))" by code_simp
  from pin_ids_stay_unique [OF this] show "distinct (pin_ids (cs_pinned (merge_concurrent_pins sample_pins (cs_pinned sample_pins))))"
    by blast
qed

lemma turn_end_restores_unpinned_witness:
  "\<exists>p st'. unpin_context_entry (lit ''pin-0001'') sample_pins = Some (p, st') \<and> cs_pinned st' = []
     \<and> merge_concurrent_pins sample_pins (cs_pinned st') = sample_pins"
proof -
  have ne: "unpin_context_entry (lit ''pin-0001'') sample_pins \<noteq> None" by code_simp
  then obtain p st' where u: "unpin_context_entry (lit ''pin-0001'') sample_pins = Some (p, st')" by auto
  have "map_option (cs_pinned \<circ> snd) (unpin_context_entry (lit ''pin-0001'') sample_pins) = Some []" by code_simp
  then have "cs_pinned st' = []" using u by simp
  with turn_end_restores_unpinned [OF u] u show ?thesis by blast
qed

end
