(* ===== verification/ToolResults.thy ===== *)
theory ToolResults
  imports ContextPins CostBroker "HOL-Library.Product_Lexorder"
begin

text \<open>
  What a round of tool results becomes before it is sent: receipt stubs for outputs already sent, and the packing under
  the round's byte budget (\<open>SeenToolOutputs\<close> and \<open>pack_tool_results\<close> of
  \<open>crates/squeezy-agent/src/context_compaction.rs\<close>, \<open>ToolResult\<close> of \<open>crates/squeezy-tools/src/lib.rs\<close>).
  The rendering of JSON and the hash of a text are parameters.
\<close>

section \<open>Results\<close>

record cost_hint =
  th_files_scanned :: u64
  th_bytes_read :: u64
  th_matches_returned :: u64
  th_output_bytes :: u64
  th_redactions :: u64
  th_truncated :: bool
  th_confidence :: "(str \<times> u32) list"

definition default_cost_hint :: cost_hint where
  "default_cost_hint = \<lparr>th_files_scanned = 0, th_bytes_read = 0, th_matches_returned = 0, th_output_bytes = 0,
     th_redactions = 0, th_truncated = False, th_confidence = []\<rparr>"

record tool_receipt =
  rc_output_sha256 :: str
  rc_content_sha256 :: "str option"

record tool_result_full =
  tf_call_id :: str
  tf_tool_name :: str
  tf_status :: tool_status
  tf_content :: json
  tf_cost :: cost_hint
  tf_receipt :: tool_receipt
  tf_spill :: "str option"

record json_env =
  je_text :: "json \<Rightarrow> str"
  je_sha256 :: "str \<Rightarrow> str"

fun tool_status_name :: "tool_status \<Rightarrow> str" where
  "tool_status_name ToolSuccess = lit ''Success''"
| "tool_status_name ToolError = lit ''Error''"
| "tool_status_name ToolDenied = lit ''Denied''"
| "tool_status_name ToolStale = lit ''Stale''"
| "tool_status_name ToolCancelled = lit ''Cancelled''"

definition model_output :: "json_env \<Rightarrow> tool_result_full \<Rightarrow> str" where
  "model_output env r =
     je_text env (JObject [(lit ''status'', JString (tool_status_name (tf_status r))), (lit ''content'', tf_content r)])"

definition output_len :: "json_env \<Rightarrow> tool_result_full \<Rightarrow> nat" where
  "output_len env r = byte_len (model_output env r)"

definition json_nat :: "nat \<Rightarrow> json" where "json_nat n = JNumber (show_nat n)"

definition json_as_u64 :: "json \<Rightarrow> u64 option" where
  "json_as_u64 value = (case value of JNumber t \<Rightarrow> parse_u64_digits t | _ \<Rightarrow> None)"

definition json_as_bool :: "json \<Rightarrow> bool option" where
  "json_as_bool value = (case value of JBool b \<Rightarrow> Some b | _ \<Rightarrow> None)"

definition json_opt_str :: "str option \<Rightarrow> json" where
  "json_opt_str s = (case s of None \<Rightarrow> JNull | Some t \<Rightarrow> JString t)"

text \<open>The text of an integer within \<open>i64\<close>, as it is printed again.\<close>

definition json_as_i64_text :: "json \<Rightarrow> str option" where
  "json_as_i64_text value =
     (case value of
        JNumber t \<Rightarrow>
          (let ds = (if starts_with t [DASH] then drop 1 t else t)
           in if ds \<noteq> [] \<and> list_all is_digit ds
                 \<and> pin_digits_value ds < 2 ^ 63 + (if starts_with t [DASH] then 1 else 0) then Some t else None)
      | _ \<Rightarrow> None)"

definition make_result :: "json_env \<Rightarrow> str \<Rightarrow> str \<Rightarrow> tool_status \<Rightarrow> json \<Rightarrow> cost_hint \<Rightarrow> str option \<Rightarrow> tool_result_full" where
  "make_result env call_id name status content cost content_sha256 =
     (let encoded = je_text env content
      in \<lparr>tf_call_id = call_id, tf_tool_name = name, tf_status = status, tf_content = content,
          tf_cost = cost\<lparr>th_output_bytes := max (th_output_bytes cost) (of_nat (byte_len encoded))\<rparr>,
          tf_receipt = \<lparr>rc_output_sha256 = je_sha256 env encoded, rc_content_sha256 = content_sha256\<rparr>, tf_spill = None\<rparr>)"

definition aggregate_budget_exceeded :: "json_env \<Rightarrow> nat \<Rightarrow> nat \<Rightarrow> tool_result_full \<Rightarrow> tool_result_full" where
  "aggregate_budget_exceeded env budget_bytes actual_bytes r =
     make_result env (tf_call_id r) (tf_tool_name r) ToolError
       (JObject [(lit ''error'', JString (lit ''tool result omitted because aggregate tool-result budget was exceeded'')),
                 (lit ''budget_bytes'', json_nat budget_bytes), (lit ''actual_bytes'', json_nat actual_bytes),
                 (lit ''original_status'', JString (tool_status_name (tf_status r))),
                 (lit ''original_output_sha256'', JString (rc_output_sha256 (tf_receipt r)))])
       (default_cost_hint\<lparr>th_truncated := True\<rparr>) (rc_content_sha256 (tf_receipt r))"

section \<open>Summaries and identities of outputs\<close>

definition json_path :: "str list \<Rightarrow> json \<Rightarrow> json option" where
  "json_path keys value = fold (\<lambda>k v. Option.bind v (json_get k)) keys (Some value)"

definition json_path_str :: "string list \<Rightarrow> json \<Rightarrow> str option" where
  "json_path_str keys value = Option.bind (json_path (map lit keys) value) json_as_str"

definition tool_result_output_handle :: "tool_result_full \<Rightarrow> str option" where
  "tool_result_output_handle r =
     (case json_path_str [''handle''] (tf_content r) of Some h \<Rightarrow> Some h
      | None \<Rightarrow> json_path_str [''output'', ''handle''] (tf_content r))"

definition opt_part :: "string \<Rightarrow> str option \<Rightarrow> str list" where
  "opt_part label part = (case part of None \<Rightarrow> [] | Some p \<Rightarrow> [lit label @ p])"

definition JOB_SUMMARY_MAX_CHARS :: nat where "JOB_SUMMARY_MAX_CHARS = 320"

definition tool_result_summary :: "tool_result_full \<Rightarrow> str" where
  "tool_result_summary r =
     (let c = tf_content r;
          error = (case json_path_str [''error''] c of None \<Rightarrow> None
                   | Some e \<Rightarrow> if trim e = [] then None else Some (collapse_status_text e))
      in truncate_status_chars
           (join [SPACE]
              ([tf_tool_name r @ [SPACE] @ tool_status_name (tf_status r)]
               @ opt_part ''implicit_skill='' (json_path_str [''implicit_skill_activation'', ''name''] c)
               @ opt_part ''exit='' (Option.bind (json_path [lit ''exit_code''] c) json_as_i64_text)
               @ opt_part ''error='' error
               @ opt_part ''handle='' (tool_result_output_handle r)
               @ (if 0 < th_output_bytes (tf_cost r) then [lit ''output='' @ show_nat (unat (th_output_bytes (tf_cost r))) @ lit ''B''] else [])
               @ (if th_truncated (tf_cost r) then [lit ''truncated''] else [])))
           JOB_SUMMARY_MAX_CHARS)"

definition stable_output_sha256 :: "tool_result_full \<Rightarrow> str" where
  "stable_output_sha256 r =
     (case json_path_str [''cache_receipt'', ''stable_output_sha256''] (tf_content r) of Some s \<Rightarrow> s
      | None \<Rightarrow> (case json_path_str [''original_output_sha256''] (tf_content r) of Some s \<Rightarrow> s
                 | None \<Rightarrow> rc_output_sha256 (tf_receipt r)))"

record seen_output =
  so_call_id :: str
  so_tool_name :: str
  so_stable_sha256 :: str
  so_content_sha256 :: "str option"
  so_model_output_bytes :: nat
  so_summary :: "str option"

definition seen_from_result :: "json_env \<Rightarrow> tool_result_full \<Rightarrow> seen_output" where
  "seen_from_result env r =
     \<lparr>so_call_id = tf_call_id r, so_tool_name = tf_tool_name r, so_stable_sha256 = stable_output_sha256 r,
      so_content_sha256 = rc_content_sha256 (tf_receipt r), so_model_output_bytes = output_len env r,
      so_summary = Some (tool_result_summary r)\<rparr>"

section \<open>Counting from an earlier grep\<close>

record grep_query_key =
  gk_pattern :: str
  gk_path :: str
  gk_include :: "str list"
  gk_exclude :: "str list"
  gk_include_ignored :: bool
  gk_diff_only :: bool
  gk_offset :: u64
  gk_context :: u64

definition string_list :: "json option \<Rightarrow> str list option" where
  "string_list value =
     (case value of None \<Rightarrow> Some []
      | Some (JArray vs) \<Rightarrow> if list_all (\<lambda>v. json_as_str v \<noteq> None) vs then Some (sort (List.map_filter json_as_str vs)) else None
      | Some _ \<Rightarrow> None)"

definition grep_query_key_of :: "tool_result_full \<Rightarrow> grep_query_key option" where
  "grep_query_key_of r =
     (if tf_tool_name r \<noteq> lit ''grep'' then None
      else case json_get (lit ''metadata'') (tf_content r) of
             Some (JObject fs) \<Rightarrow>
               (let m = JObject fs; field = (\<lambda>k. json_get (lit k) m)
                in case (Option.bind (field ''pattern'') json_as_str, Option.bind (field ''path'') json_as_str,
                         string_list (field ''include''), string_list (field ''exclude''),
                         Option.bind (field ''include_ignored'') json_as_bool, Option.bind (field ''diff_only'') json_as_bool,
                         Option.bind (field ''offset'') json_as_u64, Option.bind (field ''context'') json_as_u64) of
                     (Some pattern, Some path, Some inc, Some exc, Some ignored, Some diff, Some offset, Some ctx) \<Rightarrow>
                       Some \<lparr>gk_pattern = pattern, gk_path = path, gk_include = inc, gk_exclude = exc,
                             gk_include_ignored = ignored, gk_diff_only = diff, gk_offset = offset, gk_context = ctx\<rparr>
                   | _ \<Rightarrow> None)
           | _ \<Rightarrow> None)"

definition grep_output_mode :: "tool_result_full \<Rightarrow> str option" where
  "grep_output_mode r = json_path_str [''metadata'', ''output_mode''] (tf_content r)"

definition grep_content_match_count :: "tool_result_full \<Rightarrow> u64 option" where
  "grep_content_match_count r =
     (if tf_tool_name r \<noteq> lit ''grep'' \<or> grep_output_mode r \<noteq> Some (lit ''content'') then None
      else if th_truncated (tf_cost r) then None
      else map_option (\<lambda>vs. of_nat (length vs)) (Option.bind (json_get (lit ''matches'') (tf_content r)) json_as_array))"

record grep_content_count =
  gc_call_id :: str
  gc_count :: u64
  gc_stable_sha256 :: str
  gc_content_sha256 :: "str option"
  gc_model_output_bytes :: nat
  gc_current_round :: bool

section \<open>Stubs\<close>

definition stub_result :: "json_env \<Rightarrow> json \<Rightarrow> tool_result_full \<Rightarrow> tool_result_full" where
  "stub_result env content r =
     (let encoded = je_text env content
      in r\<lparr>tf_content := content,
           tf_cost := (tf_cost r)\<lparr>th_output_bytes := of_nat (byte_len encoded), th_truncated := True\<rparr>,
           tf_receipt := \<lparr>rc_output_sha256 = je_sha256 env encoded, rc_content_sha256 = rc_content_sha256 (tf_receipt r)\<rparr>,
           tf_spill := None\<rparr>)"

definition grep_count_from_content_stub :: "json_env \<Rightarrow> tool_result_full \<Rightarrow> grep_content_count \<Rightarrow> tool_result_full" where
  "grep_count_from_content_stub env r source =
     stub_result env
       (JObject [(lit ''receipt_stub'', JBool True), (lit ''negative_receipt_stub'', JBool (gc_count source = 0)),
                 (lit ''message'', JString (lit ''count derived from an identical grep content result already sent to the model in this turn'')),
                 (lit ''output_mode'', JString (lit ''count'')), (lit ''count'', json_nat (unat (gc_count source))),
                 (lit ''same_as_call_id'', JString (gc_call_id source)), (lit ''same_as_tool_name'', JString (lit ''grep'')),
                 (lit ''original_output_sha256'', JString (gc_stable_sha256 source)),
                 (lit ''original_content_sha256'', json_opt_str (gc_content_sha256 source)),
                 (lit ''original_model_output_bytes'', json_nat (gc_model_output_bytes source))]) r"

definition empty_array_at :: "string \<Rightarrow> json \<Rightarrow> bool" where
  "empty_array_at key c = (Option.bind (json_get (lit key) c) json_as_array = Some [])"

definition is_negative_receipt_result :: "tool_result_full \<Rightarrow> bool" where
  "is_negative_receipt_result r =
     (if tf_tool_name r = lit ''grep''
      then empty_array_at ''matches'' (tf_content r) \<or> empty_array_at ''paths'' (tf_content r)
        \<or> Option.bind (json_get (lit ''count'') (tf_content r)) json_as_u64 = Some 0
      else if tf_tool_name r = lit ''glob'' then empty_array_at ''paths'' (tf_content r) else False)"

definition receipt_stub_result :: "json_env \<Rightarrow> tool_result_full \<Rightarrow> seen_output \<Rightarrow> tool_result_full" where
  "receipt_stub_result env r seen =
     stub_result env
       (JObject [(lit ''receipt_stub'', JBool True), (lit ''negative_receipt_stub'', JBool (is_negative_receipt_result r)),
                 (lit ''message'', JString (lit ''identical tool output already sent to the model in this turn'')),
                 (lit ''same_as_call_id'', JString (so_call_id seen)), (lit ''same_as_tool_name'', JString (so_tool_name seen)),
                 (lit ''original_output_sha256'', JString (so_stable_sha256 seen)),
                 (lit ''original_content_sha256'', json_opt_str (so_content_sha256 seen)),
                 (lit ''original_model_output_bytes'', json_nat (so_model_output_bytes seen))]) r"

definition is_receipt_stub_candidate :: "tool_result_full \<Rightarrow> bool" where
  "is_receipt_stub_candidate r \<longleftrightarrow> tf_status r = ToolSuccess \<and>
     one_of (tf_tool_name r) [''decl_search'', ''definition_search'', ''downstream_flow'', ''glob'', ''grep'', ''hierarchy'',
       ''read_file'', ''read_slice'', ''read_tool_output'', ''reference_search'', ''repo_map'', ''symbol_context'',
       ''upstream_flow'', ''webfetch'', ''websearch'']"

section \<open>Preparing a round\<close>

record pending_result =
  pe_result :: tool_result_full
  pe_remember :: "seen_output option"
  pe_same_as :: "str option"

type_synonym seen_key = "str \<times> str"

record round_seen =
  rs_output :: seen_output
  rs_current :: bool

definition prepare_result ::
  "json_env \<Rightarrow> tool_result_full \<Rightarrow> (seen_key \<rightharpoonup> round_seen) \<Rightarrow> (grep_query_key \<rightharpoonup> grep_content_count)
     \<Rightarrow> pending_result \<times> (seen_key \<rightharpoonup> round_seen) \<times> (grep_query_key \<rightharpoonup> grep_content_count)" where
  "prepare_result env r seen greps =
     (if \<not> is_receipt_stub_candidate r then (\<lparr>pe_result = r, pe_remember = None, pe_same_as = None\<rparr>, seen, greps)
      else
        (let key = (tf_tool_name r, stable_output_sha256 r)
         in case seen key of
              Some s \<Rightarrow>
                (\<lparr>pe_result = receipt_stub_result env r (rs_output s), pe_remember = None,
                  pe_same_as = (if rs_current s then Some (so_call_id (rs_output s)) else None)\<rparr>, seen, greps)
            | None \<Rightarrow>
                (case (if grep_output_mode r = Some (lit ''count'') then Option.bind (grep_query_key_of r) greps else None) of
                   Some source \<Rightarrow>
                     (\<lparr>pe_result = grep_count_from_content_stub env r source, pe_remember = None,
                       pe_same_as = (if gc_current_round source then Some (gc_call_id source) else None)\<rparr>, seen, greps)
                 | None \<Rightarrow>
                     (let output = seen_from_result env r;
                          greps' =
                            (case (grep_content_match_count r, grep_query_key_of r) of
                               (Some n_matches, Some k) \<Rightarrow>
                                 (case greps k of Some _ \<Rightarrow> greps
                                  | None \<Rightarrow> greps(k \<mapsto> \<lparr>gc_call_id = so_call_id output, gc_count = n_matches,
                                      gc_stable_sha256 = so_stable_sha256 output, gc_content_sha256 = so_content_sha256 output,
                                      gc_model_output_bytes = so_model_output_bytes output, gc_current_round = True\<rparr>))
                             | _ \<Rightarrow> greps)
                      in (\<lparr>pe_result = r, pe_remember = Some output, pe_same_as = None\<rparr>,
                          seen(key \<mapsto> \<lparr>rs_output = output, rs_current = True\<rparr>), greps')))))"

fun prepare_all ::
  "json_env \<Rightarrow> tool_result_full list \<Rightarrow> (seen_key \<rightharpoonup> round_seen) \<Rightarrow> (grep_query_key \<rightharpoonup> grep_content_count) \<Rightarrow> pending_result list" where
  "prepare_all env [] seen greps = []"
| "prepare_all env (r # rs) seen greps =
     (case prepare_result env r seen greps of (p, seen', greps') \<Rightarrow> p # prepare_all env rs seen' greps')"

type_synonym seen_index = "seen_key \<rightharpoonup> seen_output"

definition prepare_results :: "json_env \<Rightarrow> seen_index \<Rightarrow> tool_result_full list \<Rightarrow> pending_result list" where
  "prepare_results env index results =
     prepare_all env results (\<lambda>k. map_option (\<lambda>s. \<lparr>rs_output = s, rs_current = False\<rparr>) (index k)) Map.empty"

section \<open>Remembering\<close>

definition insert_new :: "'k \<Rightarrow> 'v \<Rightarrow> ('k \<rightharpoonup> 'v) \<Rightarrow> ('k \<rightharpoonup> 'v)" where
  "insert_new k v m = (case m k of Some _ \<Rightarrow> m | None \<Rightarrow> m(k \<mapsto> v))"

text \<open>The index a turn starts with: every receipt the store holds.\<close>

definition seen_of_receipt :: "stored_receipt \<Rightarrow> seen_output" where
  "seen_of_receipt r =
     \<lparr>so_call_id = sr_call_id r, so_tool_name = sr_tool_name r, so_stable_sha256 = sr_stable_sha256 r,
      so_content_sha256 = sr_content_sha256 r, so_model_output_bytes = sr_model_output_bytes r, so_summary = sr_summary r\<rparr>"

definition seen_key_of :: "seen_output \<Rightarrow> seen_key" where
  "seen_key_of s = (so_tool_name s, so_stable_sha256 s)"

definition seen_from_store :: "stored_receipt list option \<Rightarrow> seen_index" where
  "seen_from_store receipts =
     (case receipts of None \<Rightarrow> Map.empty
      | Some rs \<Rightarrow> fold (\<lambda>r m. insert_new (seen_key_of (seen_of_receipt r)) (seen_of_receipt r) m) rs Map.empty)"

text \<open>The rows of the receipt table, in the order of their keys.\<close>

definition receipt_key :: "str \<Rightarrow> str \<Rightarrow> str" where
  "receipt_key name sha = name @ [0] @ sha"

definition row_key :: "stored_receipt \<Rightarrow> str" where
  "row_key r = receipt_key (sr_tool_name r) (sr_stable_sha256 r)"

fun put_tool_receipt :: "stored_receipt \<Rightarrow> stored_receipt list \<Rightarrow> stored_receipt list" where
  "put_tool_receipt r [] = [r]"
| "put_tool_receipt r (q # qs) =
     (if row_key q = row_key r then r # qs
      else if row_key r < row_key q then r # q # qs
      else q # put_tool_receipt r qs)"

definition receipt_of_seen :: "nat \<Rightarrow> seen_output \<Rightarrow> stored_receipt" where
  "receipt_of_seen now s =
     \<lparr>sr_tool_name = so_tool_name s, sr_stable_sha256 = so_stable_sha256 s, sr_call_id = so_call_id s,
      sr_content_sha256 = so_content_sha256 s, sr_model_output_bytes = so_model_output_bytes s, sr_created_ms = now,
      sr_summary = so_summary s\<rparr>"

record read_snapshot =
  rd_path :: str
  rd_tool_name :: str
  rd_call_id :: str
  rd_stable_sha256 :: str
  rd_content_sha256 :: "str option"
  rd_start_byte :: u64
  rd_end_byte :: u64
  rd_content :: str
  rd_model_output_bytes :: nat
  rd_created_ms :: nat

definition json_field_u64 :: "string \<Rightarrow> json \<Rightarrow> u64 option" where
  "json_field_u64 key c = Option.bind (json_get (lit key) c) json_as_u64"

definition read_snapshot_from_result :: "nat \<Rightarrow> tool_result_full \<Rightarrow> seen_output \<Rightarrow> read_snapshot option" where
  "read_snapshot_from_result now r seen =
     (if \<not> one_of (tf_tool_name r) [''read_file'', ''read_slice''] then None
      else if json_path_str [''read_mode''] (tf_content r) = Some (lit ''diff'') then None
      else case (json_path_str [''path''] (tf_content r), json_path_str [''content''] (tf_content r)) of
             (Some path, Some content) \<Rightarrow>
               (let start = (case json_field_u64 ''offset'' (tf_content r) of Some n \<Rightarrow> n
                             | None \<Rightarrow> (case json_field_u64 ''start_byte'' (tf_content r) of Some n \<Rightarrow> n | None \<Rightarrow> 0));
                    returned = (case json_field_u64 ''bytes_returned'' (tf_content r) of Some n \<Rightarrow> n | None \<Rightarrow> of_nat (byte_len content))
                in Some \<lparr>rd_path = path, rd_tool_name = so_tool_name seen, rd_call_id = so_call_id seen,
                         rd_stable_sha256 = so_stable_sha256 seen, rd_content_sha256 = so_content_sha256 seen,
                         rd_start_byte = start, rd_end_byte = saturating_add start returned, rd_content = content,
                         rd_model_output_bytes = so_model_output_bytes seen, rd_created_ms = now\<rparr>)
           | _ \<Rightarrow> None)"

text \<open>What remembering a round leaves: the index, the receipt rows and the snapshots written.  Without a store, or when its
  writes fail, only the index grows.\<close>

record seen_outputs =
  sn_index :: seen_index
  sn_receipts :: "stored_receipt list"
  sn_snapshots :: "read_snapshot list"
  sn_writable :: bool

definition remember_result :: "nat \<Rightarrow> pending_result \<Rightarrow> seen_outputs \<Rightarrow> seen_outputs" where
  "remember_result now p st =
     (case pe_remember p of None \<Rightarrow> st
      | Some seen \<Rightarrow>
          (let st1 = st\<lparr>sn_index := insert_new (seen_key_of seen) seen (sn_index st)\<rparr>
           in if \<not> sn_writable st then st1
              else st1\<lparr>sn_receipts := put_tool_receipt (receipt_of_seen now seen) (sn_receipts st),
                       sn_snapshots := (case read_snapshot_from_result now (pe_result p) seen of None \<Rightarrow> sn_snapshots st
                                        | Some s \<Rightarrow> sn_snapshots st @ [s])\<rparr>))"

definition remember_results :: "nat \<Rightarrow> pending_result list \<Rightarrow> seen_outputs \<Rightarrow> seen_outputs" where
  "remember_results now results st = fold (remember_result now) results st"

section \<open>Packing\<close>

definition is_packed_receipt_stub :: "tool_result_full \<Rightarrow> bool" where
  "is_packed_receipt_stub r = (Option.bind (json_get (lit ''receipt_stub'') (tf_content r)) json_as_bool = Some True)"

definition tool_result_pack_priority :: "str set \<Rightarrow> pending_result \<Rightarrow> nat" where
  "tool_result_pack_priority referenced p =
     (if tf_call_id (pe_result p) \<in> referenced then 0
      else if tf_status (pe_result p) \<noteq> ToolSuccess then 1
      else if is_packed_receipt_stub (pe_result p) then 2 else 3)"

definition receipt_stub_reference_omitted :: "json_env \<Rightarrow> tool_result_full \<Rightarrow> tool_result_full" where
  "receipt_stub_reference_omitted env r =
     (let content = JObject [(lit ''error'', JString (lit ''tool result omitted because the identical result it references was omitted by the aggregate tool-result budget''))];
          encoded = je_text env content
      in \<lparr>tf_call_id = tf_call_id r, tf_tool_name = tf_tool_name r, tf_status = ToolError, tf_content = content,
          tf_cost = default_cost_hint\<lparr>th_output_bytes := of_nat (byte_len encoded), th_truncated := True\<rparr>,
          tf_receipt = \<lparr>rc_output_sha256 = je_sha256 env encoded, rc_content_sha256 = rc_content_sha256 (tf_receipt r)\<rparr>,
          tf_spill = None\<rparr>)"

definition drop_dangling :: "json_env \<Rightarrow> str set \<Rightarrow> pending_result \<Rightarrow> pending_result" where
  "drop_dangling env visible p =
     (case pe_same_as p of
        Some i \<Rightarrow> if i \<in> visible then p
                  else \<lparr>pe_result = receipt_stub_reference_omitted env (pe_result p), pe_remember = None, pe_same_as = None\<rparr>
      | None \<Rightarrow> p)"

fun pack_loop :: "json_env \<Rightarrow> nat \<Rightarrow> nat \<Rightarrow> str set \<Rightarrow> (nat \<times> pending_result) list \<Rightarrow> (nat \<times> pending_result) list" where
  "pack_loop env budget used visible [] = []"
| "pack_loop env budget used visible ((idx, p0) # ps) =
     (let p = drop_dangling env visible p0;
          bytes = output_len env (pe_result p)
      in if usize_saturating_add used bytes \<le> budget
         then (idx, p) # pack_loop env budget (used + bytes)
                (if pe_remember p \<noteq> None then insert (tf_call_id (pe_result p)) visible else visible) ps
         else
           (let compact = aggregate_budget_exceeded env budget bytes (pe_result p)
            in (idx, \<lparr>pe_result = compact, pe_remember = None, pe_same_as = None\<rparr>)
               # pack_loop env budget (usize_saturating_add used (output_len env compact)) visible ps))"

definition pack_tool_results :: "json_env \<Rightarrow> nat \<Rightarrow> pending_result list \<Rightarrow> pending_result list" where
  "pack_tool_results env budget_bytes results =
     (if budget_bytes = 0 then results
      else
        (let referenced = set (List.map_filter pe_same_as results);
             ordered = sort_key (\<lambda>(idx, p). (tool_result_pack_priority referenced p, output_len env (pe_result p)))
               (List.enumerate 0 results)
         in map snd (sort_key fst (pack_loop env budget_bytes 0 {} ordered))))"

end
