(* ===== verification/ToolResultsSpec.thy ===== *)
theory ToolResultsSpec
  imports ToolResults
begin

text \<open>
  What the preparation and the packing of a round of tool results guarantee: every stub is justified by an output that
  was sent, the results stay in their places, and the budget holds.
\<close>

section \<open>Places\<close>

abbreviation pending_id :: "pending_result \<Rightarrow> str \<times> str" where
  "pending_id p \<equiv> (tf_call_id (pe_result p), tf_tool_name (pe_result p))"

lemma stub_ids [simp]:
  "tf_call_id (stub_result env c r) = tf_call_id r" "tf_tool_name (stub_result env c r) = tf_tool_name r"
  "tf_call_id (receipt_stub_result env r s) = tf_call_id r" "tf_tool_name (receipt_stub_result env r s) = tf_tool_name r"
  "tf_call_id (grep_count_from_content_stub env r g) = tf_call_id r" "tf_tool_name (grep_count_from_content_stub env r g) = tf_tool_name r"
  "tf_call_id (aggregate_budget_exceeded env b n r) = tf_call_id r" "tf_tool_name (aggregate_budget_exceeded env b n r) = tf_tool_name r"
  "tf_call_id (receipt_stub_reference_omitted env r) = tf_call_id r" "tf_tool_name (receipt_stub_reference_omitted env r) = tf_tool_name r"
  by (simp_all add: stub_result_def receipt_stub_result_def grep_count_from_content_stub_def aggregate_budget_exceeded_def
      make_result_def receipt_stub_reference_omitted_def Let_def)

lemma drop_dangling_id: "pending_id (drop_dangling env V p) = pending_id p"
  by (simp add: drop_dangling_def split: option.split)

lemma pack_loop_ids: "map (\<lambda>(i, p). (i, pending_id p)) (pack_loop env b u V xs) = map (\<lambda>(i, p). (i, pending_id p)) xs"
proof (induction env b u V xs rule: pack_loop.induct)
  case (2 env b u V idx p0 ps)
  then show ?case using drop_dangling_id [of env V p0] by (simp add: Let_def)
qed simp

lemma sort_key_map: "sort_key f (map g xs) = map g (sort_key (f \<circ> g) xs)"
proof -
  have "insort_key f (g x) (map g ys) = map g (insort_key (f \<circ> g) x ys)" for x ys by (induction ys) simp_all
  then show ?thesis by (induction xs) simp_all
qed

lemma sort_enumerate:
  assumes "mset ys = mset (List.enumerate 0 xs)"
  shows "sort_key fst ys = List.enumerate 0 xs"
proof (rule sort_key_inj_key_eq [OF assms])
  have "set ys = set (List.enumerate 0 xs)" using assms by (metis set_mset_mset)
  then show "inj_on fst (set ys)" using distinct_map [of fst "List.enumerate 0 xs"] by simp
  show "sorted (map fst (List.enumerate 0 xs))" by simp
qed

lemma pack_permutes:
  assumes "0 < budget"
  obtains loop where "pack_tool_results env budget results = map snd (sort_key fst loop)"
    "map (\<lambda>(i, p). (i, pending_id p)) (sort_key fst loop) = map (\<lambda>(i, p). (i, pending_id p)) (List.enumerate 0 results)"
    "\<exists>xs. mset xs = mset (List.enumerate 0 results) \<and> loop = pack_loop env budget 0 {} xs"
proof -
  let ?key = "\<lambda>(idx :: nat, p). (tool_result_pack_priority (set (List.map_filter pe_same_as results)) p, output_len env (pe_result p))"
  let ?xs = "sort_key ?key (List.enumerate 0 results)"
  let ?loop = "pack_loop env budget 0 {} ?xs"
  let ?g = "\<lambda>(i :: nat, p). (i, pending_id p)"
  have fst_g: "fst \<circ> ?g = fst" by auto
  have "map ?g (sort_key fst ?loop) = sort_key fst (map ?g ?loop)"
    by (simp only: sort_key_map fst_g)
  also have "\<dots> = sort_key fst (map ?g ?xs)" by (simp only: pack_loop_ids)
  also have "\<dots> = map ?g (sort_key fst ?xs)" by (simp only: sort_key_map fst_g)
  also have "sort_key fst ?xs = List.enumerate 0 results" by (rule sort_enumerate) simp
  finally have ids: "map ?g (sort_key fst ?loop) = map ?g (List.enumerate 0 results)" .
  show ?thesis
  proof (rule that)
    show "pack_tool_results env budget results = map snd (sort_key fst ?loop)"
      using assms by (simp add: pack_tool_results_def Let_def)
  qed (use ids in \<open>auto intro!: exI [of _ ?xs]\<close>)
qed

section \<open>Packing\<close>

definition is_budget_omission :: "tool_result_full \<Rightarrow> bool" where
  "is_budget_omission r =
     (json_path_str [''error''] (tf_content r) = Some (lit ''tool result omitted because aggregate tool-result budget was exceeded''))"

lemma omission: "is_budget_omission (aggregate_budget_exceeded env b n r)"
  by (simp add: is_budget_omission_def aggregate_budget_exceeded_def make_result_def Let_def json_path_str_def json_path_def
      json_get_def json_as_str_def)

lemma pack_loop_budget:
  assumes "budget < USIZE_MAX"
  shows "sum_list (map (\<lambda>(i, p). if is_budget_omission (pe_result p) then 0 else output_len env (pe_result p)) (pack_loop env budget used V xs))
    \<le> budget - used"
  using assms
proof (induction env budget used V xs rule: pack_loop.induct)
  case (2 env budget used V idx p0 ps)
  let ?p = "drop_dangling env V p0"
  let ?n = "output_len env (pe_result ?p)"
  show ?case
  proof (cases "usize_saturating_add used ?n \<le> budget")
    case True
    then have fits: "used + ?n \<le> budget" using 2(3) by (auto simp: usize_saturating_add_def)
    show ?thesis using 2(1) [OF refl refl True 2(3)] True fits by (auto simp: Let_def)
  next
    case False
    have "budget - usize_saturating_add used (output_len env (aggregate_budget_exceeded env budget ?n (pe_result ?p))) \<le> budget - used"
      using 2(3) by (auto simp: usize_saturating_add_def)
    then show ?thesis using 2(2) [OF refl refl False refl 2(3)] False by (simp add: Let_def omission)
  qed
qed simp

lemma pack_loop_refs:
  "(k, p) \<in> set (pack_loop env budget used V xs) \<Longrightarrow> pe_same_as p = Some i \<Longrightarrow>
     i \<in> V \<or> (\<exists>j q. (j, q) \<in> set (pack_loop env budget used V xs) \<and> (j, q) \<in> set xs \<and> pe_remember q \<noteq> None \<and> tf_call_id (pe_result q) = i)"
proof (induction env budget used V xs rule: pack_loop.induct)
  case (2 env budget used V idx p0 ps)
  let ?p = "drop_dangling env V p0"
  let ?n = "output_len env (pe_result ?p)"
  have here: "pe_same_as ?p = Some i \<Longrightarrow> i \<in> V" by (auto simp: drop_dangling_def split: option.splits if_splits)
  have same: "pe_remember ?p \<noteq> None \<Longrightarrow> ?p = p0" by (auto simp: drop_dangling_def split: option.splits if_splits)
  show ?case
  proof (cases "usize_saturating_add used ?n \<le> budget")
    case True
    define V' where "V' = (if pe_remember ?p \<noteq> None then insert (tf_call_id (pe_result ?p)) V else V)"
    have eq: "pack_loop env budget used V ((idx, p0) # ps) = (idx, ?p) # pack_loop env budget (used + ?n) V' ps"
      using True by (simp add: Let_def V'_def)
    show ?thesis
    proof (cases "(k, p) = (idx, ?p)")
      case True
      then show ?thesis using here 2(4) by simp
    next
      case False
      then have "(k, p) \<in> set (pack_loop env budget (used + ?n) V' ps)" using 2(3) unfolding eq by auto
      from 2(1) [OF refl refl True, folded V'_def, OF this 2(4)]
      consider "i \<in> V'" | j q where "(j, q) \<in> set (pack_loop env budget (used + ?n) V' ps)" "(j, q) \<in> set ps"
          "pe_remember q \<noteq> None" "tf_call_id (pe_result q) = i" by blast
      then show ?thesis
      proof cases
        case 1
        then consider "i \<in> V" | "pe_remember ?p \<noteq> None" "tf_call_id (pe_result ?p) = i"
          by (auto simp: V'_def split: if_splits)
        then show ?thesis
        proof cases
          case 2
          then show ?thesis using same [OF 2(1)] unfolding eq by (metis list.set_intros(1))
        qed simp
      next
        case 2
        then show ?thesis unfolding eq by (metis list.set_intros(2))
      qed
    qed
  next
    case False
    let ?c = "aggregate_budget_exceeded env budget ?n (pe_result ?p)"
    have eq: "pack_loop env budget used V ((idx, p0) # ps)
        = (idx, \<lparr>pe_result = ?c, pe_remember = None, pe_same_as = None\<rparr>) # pack_loop env budget (usize_saturating_add used (output_len env ?c)) V ps"
      using False by (simp add: Let_def)
    have "(k, p) \<in> set (pack_loop env budget (usize_saturating_add used (output_len env ?c)) V ps)" using 2(3,4) unfolding eq by auto
    from 2(2) [OF refl refl False refl this 2(4)] show ?thesis unfolding eq by auto
  qed
qed simp

text \<open>C14: packing keeps the round together.  Every result stays in its place with its call, so that it is paired with the call it
  answers; what is sent in full fits the budget; and a stub that points at a result of the same round points at one that is
  sent in full.\<close>

theorem packing_is_sound:
  assumes "0 < budget" "budget < USIZE_MAX"
  shows "map pending_id (pack_tool_results env budget results) = map pending_id results
    \<and> sum_list (map (\<lambda>p. if is_budget_omission (pe_result p) then 0 else output_len env (pe_result p))
        (pack_tool_results env budget results)) \<le> budget
    \<and> (\<forall>p \<in> set (pack_tool_results env budget results). \<forall>i. pe_same_as p = Some i \<longrightarrow>
         (\<exists>q \<in> set results \<inter> set (pack_tool_results env budget results). pe_remember q \<noteq> None \<and> tf_call_id (pe_result q) = i))"
proof -
  obtain loop xs where l: "pack_tool_results env budget results = map snd (sort_key fst loop)"
    and ids: "map (\<lambda>(i, p). (i, pending_id p)) (sort_key fst loop) = map (\<lambda>(i, p). (i, pending_id p)) (List.enumerate 0 results)"
    and xs: "mset xs = mset (List.enumerate 0 results)" "loop = pack_loop env budget 0 {} xs"
    by (rule pack_permutes [OF assms(1)]) blast
  have snds: "map snd (map (\<lambda>(i, p). (i, pending_id p)) ys) = map pending_id (map snd ys)" for ys :: "(nat \<times> pending_result) list"
    by (induction ys) auto
  have "map pending_id (map snd (sort_key fst loop)) = map snd (map (\<lambda>(i, p). (i, pending_id p)) (sort_key fst loop))"
    by (rule snds [symmetric])
  also have "\<dots> = map pending_id (map snd (List.enumerate 0 results))" unfolding ids by (rule snds)
  also have "\<dots> = map pending_id results" by (simp only: map_snd_enumerate)
  finally have places: "map pending_id (pack_tool_results env budget results) = map pending_id results" unfolding l .
  let ?w = "\<lambda>p. if is_budget_omission (pe_result p) then 0 else output_len env (pe_result p)"
  have pairs: "map (\<lambda>(i, p). ?w p) ys = map ?w (map snd ys)" for ys :: "(nat \<times> pending_result) list"
    by (induction ys) auto
  have "mset (map ?w (map snd (sort_key fst loop))) = mset (map (\<lambda>(i, p). ?w p) loop)" unfolding pairs by simp
  then have "sum_list (map ?w (map snd (sort_key fst loop))) = sum_list (map (\<lambda>(i, p). ?w p) loop)"
    by (simp only: sum_mset_sum_list [symmetric])
  moreover have "sum_list (map (\<lambda>(i, p). ?w p) loop) \<le> budget" using pack_loop_budget [OF assms(2), of env 0 "{}" xs] xs(2) by simp
  moreover have "\<exists>q \<in> set results \<inter> set (pack_tool_results env budget results). pe_remember q \<noteq> None \<and> tf_call_id (pe_result q) = i"
    if p: "p \<in> set (pack_tool_results env budget results)" and i: "pe_same_as p = Some i" for p i
  proof -
    obtain k where "(k, p) \<in> set (pack_loop env budget 0 {} xs)" using p l xs(2) by auto
    from pack_loop_refs [OF this i] obtain j q where q: "(j, q) \<in> set loop" "(j, q) \<in> set xs" "pe_remember q \<noteq> None" "tf_call_id (pe_result q) = i"
      using xs(2) by auto
    have "(j, q) \<in> set (List.enumerate 0 results)" using q(2) xs(1) by (metis set_mset_mset)
    from imageI [OF this, of snd] have "q \<in> set (map snd (List.enumerate 0 results))" unfolding set_map snd_conv .
    then have "q \<in> set results" by (simp only: map_snd_enumerate)
    then show ?thesis using q l by force
  qed
  ultimately show ?thesis using places l by auto
qed

section \<open>Preparing\<close>

lemma seen_from_result_id [simp]: "so_call_id (seen_from_result env r) = tf_call_id r"
  by (simp add: seen_from_result_def)

definition source_of :: "json_env \<Rightarrow> tool_result_full \<Rightarrow> u64 \<Rightarrow> grep_content_count" where
  "source_of env r n =
     \<lparr>gc_call_id = tf_call_id r, gc_count = n, gc_stable_sha256 = stable_output_sha256 r,
      gc_content_sha256 = rc_content_sha256 (tf_receipt r), gc_model_output_bytes = output_len env r, gc_current_round = True\<rparr>"

text \<open>What the two indexes of a round hold: outputs the turn began with, and earlier results of the round.\<close>

definition seen_ok :: "json_env \<Rightarrow> seen_index \<Rightarrow> tool_result_full list \<Rightarrow> (seen_key \<rightharpoonup> round_seen) \<Rightarrow> bool" where
  "seen_ok env index prev seen \<longleftrightarrow>
     (\<forall>key s. seen key = Some s \<longrightarrow>
        (if rs_current s
         then \<exists>r \<in> set prev. rs_output s = seen_from_result env r \<and> key = (tf_tool_name r, stable_output_sha256 r)
         else index key = Some (rs_output s)))"

definition greps_ok :: "json_env \<Rightarrow> tool_result_full list \<Rightarrow> (grep_query_key \<rightharpoonup> grep_content_count) \<Rightarrow> bool" where
  "greps_ok env prev greps \<longleftrightarrow>
     (\<forall>key g. greps key = Some g \<longrightarrow>
        (\<exists>r \<in> set prev. \<exists>n. grep_query_key_of r = Some key \<and> grep_content_match_count r = Some n \<and> g = source_of env r n))"

definition justified :: "json_env \<Rightarrow> seen_index \<Rightarrow> tool_result_full list \<Rightarrow> tool_result_full \<Rightarrow> pending_result \<Rightarrow> bool" where
  "justified env index prev r p \<longleftrightarrow>
     (pe_result p = r \<and> pe_same_as p = None)
     \<or> (\<exists>s. index (tf_tool_name r, stable_output_sha256 r) = Some s \<and> pe_result p = receipt_stub_result env r s \<and> pe_same_as p = None)
     \<or> (\<exists>q \<in> set prev. tf_tool_name q = tf_tool_name r \<and> stable_output_sha256 q = stable_output_sha256 r
          \<and> pe_result p = receipt_stub_result env r (seen_from_result env q) \<and> pe_same_as p = Some (tf_call_id q))
     \<or> (\<exists>q \<in> set prev. \<exists>n. grep_query_key_of q \<noteq> None \<and> grep_query_key_of q = grep_query_key_of r
          \<and> grep_output_mode r = Some (lit ''count'') \<and> grep_content_match_count q = Some n
          \<and> pe_result p = grep_count_from_content_stub env r (source_of env q n) \<and> pe_same_as p = Some (tf_call_id q))"

lemma seen_ok_mono: "seen_ok env index prev seen \<Longrightarrow> seen_ok env index (prev @ [r]) seen"
  unfolding seen_ok_def by (meson in_set_conv_decomp UnI1 set_append[THEN equalityD2, THEN subsetD])

lemma greps_ok_mono: "greps_ok env prev greps \<Longrightarrow> greps_ok env (prev @ [r]) greps"
  unfolding greps_ok_def by (meson UnI1 set_append[THEN equalityD2, THEN subsetD])

lemma seen_ok_upd:
  assumes "seen_ok env index prev seen"
  shows "seen_ok env index (prev @ [r])
    (seen((tf_tool_name r, stable_output_sha256 r) \<mapsto> \<lparr>rs_output = seen_from_result env r, rs_current = True\<rparr>))"
  unfolding seen_ok_def
proof (intro allI impI)
  fix key s
  assume "(seen((tf_tool_name r, stable_output_sha256 r) \<mapsto> \<lparr>rs_output = seen_from_result env r, rs_current = True\<rparr>)) key = Some s"
  then consider "key = (tf_tool_name r, stable_output_sha256 r)" "s = \<lparr>rs_output = seen_from_result env r, rs_current = True\<rparr>"
    | "seen key = Some s" by (metis (mono_tags) fun_upd_apply option.inject)
  then show "if rs_current s
      then \<exists>q \<in> set (prev @ [r]). rs_output s = seen_from_result env q \<and> key = (tf_tool_name q, stable_output_sha256 q)
      else index key = Some (rs_output s)"
  proof cases
    case 2
    with seen_ok_mono [OF assms, of r] show ?thesis unfolding seen_ok_def by blast
  qed simp
qed

lemma greps_ok_upd:
  "greps_ok env prev greps \<Longrightarrow> grep_content_match_count r = Some n \<Longrightarrow> grep_query_key_of r = Some k \<Longrightarrow>
     greps_ok env (prev @ [r]) (greps(k \<mapsto> source_of env r n))"
  unfolding greps_ok_def by (auto split: if_split_asm)

lemma prepare_step:
  assumes "seen_ok env index prev seen" "greps_ok env prev greps" "prepare_result env r seen greps = (p, seen', greps')"
  shows "justified env index prev r p" "seen_ok env index (prev @ [r]) seen'" "greps_ok env (prev @ [r]) greps'"
proof -
  let ?key = "(tf_tool_name r, stable_output_sha256 r)"
  note mono = seen_ok_mono [OF assms(1)] greps_ok_mono [OF assms(2)]
  have "justified env index prev r p \<and> seen_ok env index (prev @ [r]) seen' \<and> greps_ok env (prev @ [r]) greps'"
  proof (cases "is_receipt_stub_candidate r")
    case False
    then show ?thesis using assms(3) mono by (auto simp: prepare_result_def justified_def)
  next
    case candidate: True
    show ?thesis
    proof (cases "seen ?key")
      case (Some s)
      then have eq: "p = \<lparr>pe_result = receipt_stub_result env r (rs_output s), pe_remember = None,
          pe_same_as = (if rs_current s then Some (so_call_id (rs_output s)) else None)\<rparr>" "seen' = seen" "greps' = greps"
        using assms(3) candidate by (simp_all add: prepare_result_def)
      from assms(1) Some have s: "if rs_current s
         then \<exists>q \<in> set prev. rs_output s = seen_from_result env q \<and> ?key = (tf_tool_name q, stable_output_sha256 q)
         else index ?key = Some (rs_output s)" unfolding seen_ok_def by blast
      show ?thesis
      proof (cases "rs_current s")
        case True
        with s obtain q where "q \<in> set prev" "rs_output s = seen_from_result env q"
            "tf_tool_name q = tf_tool_name r" "stable_output_sha256 q = stable_output_sha256 r" by auto
        then have "justified env index prev r p" using True unfolding justified_def eq(1) by auto
        then show ?thesis using mono eq by simp
      next
        case False
        then have "justified env index prev r p" using s unfolding justified_def eq(1) by auto
        then show ?thesis using mono eq by simp
      qed
    next
      case fresh: None
      show ?thesis
      proof (cases "if grep_output_mode r = Some (lit ''count'') then Option.bind (grep_query_key_of r) greps else None")
        case (Some source)
        then obtain key where key: "grep_output_mode r = Some (lit ''count'')" "grep_query_key_of r = Some key" "greps key = Some source"
          by (auto split: if_splits bind_splits)
        have eq: "p = \<lparr>pe_result = grep_count_from_content_stub env r source, pe_remember = None,
            pe_same_as = (if gc_current_round source then Some (gc_call_id source) else None)\<rparr>" "seen' = seen" "greps' = greps"
          using assms(3) candidate fresh Some by (simp_all add: prepare_result_def)
        from assms(2) key(3) obtain q n where q: "q \<in> set prev" "grep_query_key_of q = Some key" "grep_content_match_count q = Some n"
            "source = source_of env q n" unfolding greps_ok_def by blast
        have "justified env index prev r p"
          unfolding justified_def eq(1) using q key by (auto simp: source_of_def)
        then show ?thesis using mono eq by simp
      next
        case None
        have eq: "pe_result p = r" "pe_same_as p = None"
          "seen' = seen(?key \<mapsto> \<lparr>rs_output = seen_from_result env r, rs_current = True\<rparr>)"
          using assms(3) candidate fresh None by (auto simp: prepare_result_def Let_def)
        have "greps' = greps \<or> (\<exists>n k. grep_content_match_count r = Some n \<and> grep_query_key_of r = Some k
            \<and> greps' = greps(k \<mapsto> source_of env r n))"
          using assms(3) candidate fresh None
          by (auto simp: prepare_result_def Let_def source_of_def seen_from_result_def split: option.splits)
        then have g: "greps_ok env (prev @ [r]) greps'"
          using mono(2) greps_ok_upd [OF assms(2)] by blast
        have "seen_ok env index (prev @ [r]) seen'" unfolding eq(3) by (rule seen_ok_upd [OF assms(1)])
        then show ?thesis using g eq by (simp add: justified_def)
      qed
    qed
  qed
  then show "justified env index prev r p" "seen_ok env index (prev @ [r]) seen'" "greps_ok env (prev @ [r]) greps'" by simp_all
qed

lemma prepare_all_justified:
  assumes "seen_ok env index prev seen" "greps_ok env prev greps"
  shows "length (prepare_all env rs seen greps) = length rs
    \<and> (\<forall>k < length rs. justified env index (prev @ take k rs) (rs ! k) (prepare_all env rs seen greps ! k))"
  using assms
proof (induction rs arbitrary: prev seen greps)
  case (Cons r rs)
  obtain p seen' greps' where step: "prepare_result env r seen greps = (p, seen', greps')" by (metis prod_cases3)
  note ok = prepare_step [OF Cons.prems step]
  note rest = Cons.IH [OF ok(2,3)]
  show ?case
  proof (intro conjI allI impI)
    show "length (prepare_all env (r # rs) seen greps) = length (r # rs)" using rest step by simp
    fix k assume "k < length (r # rs)"
    then show "justified env index (prev @ take k (r # rs)) ((r # rs) ! k) (prepare_all env (r # rs) seen greps ! k)"
      using ok(1) rest step by (cases k) simp_all
  qed
qed simp

text \<open>C17: every stub is justified.  A result is sent as it is, or replaced by a stub for an output with the same tool and hash, known
  from the start of the turn or earlier in the round, or, when it is a count, by the number of matches of an earlier complete
  grep of the same query; a stub that names a call of this round names the one that sent the output.\<close>

theorem stubs_are_justified:
  "length (prepare_results env index results) = length results
   \<and> (\<forall>k < length results. justified env index (take k results) (results ! k) (prepare_results env index results ! k))"
proof -
  have "seen_ok env index [] (\<lambda>k. map_option (\<lambda>s. \<lparr>rs_output = s, rs_current = False\<rparr>) (index k))"
    by (auto simp: seen_ok_def)
  moreover have "greps_ok env [] Map.empty" by (simp add: greps_ok_def)
  ultimately show ?thesis using prepare_all_justified [of env index "[]"] by (simp add: prepare_results_def)
qed

section \<open>Receipts of earlier sessions\<close>

lemma insert_new_Some: "insert_new k v m x = Some w \<Longrightarrow> m x = Some w \<or> (x = k \<and> w = v)"
  by (auto simp: insert_new_def split: option.splits if_splits)

lemma insert_new_dom: "insert_new k v m k \<noteq> None" "m x \<noteq> None \<Longrightarrow> insert_new k v m x \<noteq> None"
  by (auto simp: insert_new_def split: option.splits)

lemma seen_from_store_fold:
  fixes rs :: "stored_receipt list" and m :: seen_index
  defines "step \<equiv> \<lambda>r m. insert_new (seen_key_of (seen_of_receipt r)) (seen_of_receipt r) m"
  shows "m x \<noteq> None \<Longrightarrow> fold step rs m x \<noteq> None"
    and "r \<in> set rs \<Longrightarrow> fold step rs m (seen_key_of (seen_of_receipt r)) \<noteq> None"
    and "fold step rs m x = Some w \<Longrightarrow> m x = Some w \<or> (\<exists>r \<in> set rs. w = seen_of_receipt r \<and> x = seen_key_of w)"
proof (induction rs arbitrary: m x)
  case (Cons q qs)
  {
    case 1
    have "step q m x \<noteq> None" unfolding step_def by (rule insert_new_dom(2) [where m = m and x = x, OF 1])
    from Cons.IH(1) [where m = "step q m" and x = x, OF this] show ?case by simp
  next
    case 2
    then consider "r = q" | "r \<in> set qs" by auto
    then show ?case
    proof cases
      case 1
      have "step q m (seen_key_of (seen_of_receipt q)) \<noteq> None" unfolding step_def by (rule insert_new_dom(1))
      from Cons.IH(1) [where m = "step q m", OF this] show ?thesis unfolding 1 by simp
    next
      case 2
      then show ?thesis using Cons.IH(2) [of "step q m"] by simp
    qed
  next
    case 3
    then have "step q m x = Some w \<or> (\<exists>r \<in> set qs. w = seen_of_receipt r \<and> x = seen_key_of w)"
      using Cons.IH(3) [of "step q m" x] by simp
    then show ?case
      using insert_new_Some [of "seen_key_of (seen_of_receipt q)" "seen_of_receipt q" m x w] by (auto simp: step_def)
  }
qed simp_all

text \<open>A stored receipt silences an output nobody was sent.  The index of a turn starts with every receipt in the store, those of
  earlier sessions too: the first output of a session whose tool and hash are stored is replaced by a stub that says it was
  sent in this turn and names a call of whatever session stored it.\<close>

theorem stored_receipt_stubs_unsent_output:
  assumes "is_receipt_stub_candidate r" and "receipt \<in> set receipts"
    and "sr_tool_name receipt = tf_tool_name r" "sr_stable_sha256 receipt = stable_output_sha256 r"
  shows "\<exists>old \<in> set receipts. map pe_result (prepare_results env (seen_from_store (Some receipts)) [r])
    = [receipt_stub_result env r (seen_of_receipt old)]"
proof -
  let ?key = "(tf_tool_name r, stable_output_sha256 r)"
  have key: "seen_key_of (seen_of_receipt receipt) = ?key" using assms(3,4) by (simp add: seen_key_of_def seen_of_receipt_def)
  have "seen_from_store (Some receipts) ?key \<noteq> None"
    using seen_from_store_fold(2) [OF assms(2), of Map.empty] key by (simp add: seen_from_store_def)
  then obtain w where w: "seen_from_store (Some receipts) ?key = Some w" by blast
  then obtain old where "old \<in> set receipts" "w = seen_of_receipt old"
    using seen_from_store_fold(3) [of receipts Map.empty ?key w] by (auto simp: seen_from_store_def)
  then show ?thesis using w assms(1) by (auto simp: prepare_results_def prepare_result_def intro!: bexI [of _ old])
qed

definition sample_json_env :: json_env where
  "sample_json_env = \<lparr>je_text = (\<lambda>_. replicate 10 65), je_sha256 = (\<lambda>s. s)\<rparr>"

definition sample_read :: "string \<Rightarrow> tool_result_full" where
  "sample_read i = make_result sample_json_env (lit i) (lit ''read_file'') ToolSuccess (JObject []) default_cost_hint None"

definition sample_receipt :: stored_receipt where
  "sample_receipt = receipt_of_seen 1 (seen_from_result sample_json_env (sample_read ''old''))"

lemma stored_receipt_stubs_unsent_output_witness:
  "map (\<lambda>p. json_path_str [''same_as_call_id''] (tf_content (pe_result p)))
     (prepare_results sample_json_env (seen_from_store (Some [sample_receipt])) [sample_read ''new'']) = [Some (lit ''old'')]
   \<and> (\<exists>old \<in> set [sample_receipt]. map pe_result (prepare_results sample_json_env (seen_from_store (Some [sample_receipt])) [sample_read ''new''])
        = [receipt_stub_result sample_json_env (sample_read ''new'') (seen_of_receipt old)])"
proof
  have "is_receipt_stub_candidate (sample_read ''new'')" by code_simp
  moreover have "sample_receipt \<in> set [sample_receipt]" by simp
  moreover have "sr_tool_name sample_receipt = tf_tool_name (sample_read ''new'')"
    "sr_stable_sha256 sample_receipt = stable_output_sha256 (sample_read ''new'')" by code_simp+
  ultimately show "\<exists>old \<in> set [sample_receipt]. map pe_result (prepare_results sample_json_env (seen_from_store (Some [sample_receipt])) [sample_read ''new''])
        = [receipt_stub_result sample_json_env (sample_read ''new'') (seen_of_receipt old)]"
    by (rule stored_receipt_stubs_unsent_output)
  show "map (\<lambda>p. json_path_str [''same_as_call_id''] (tf_content (pe_result p)))
     (prepare_results sample_json_env (seen_from_store (Some [sample_receipt])) [sample_read ''new'']) = [Some (lit ''old'')]"
    by code_simp
qed

lemma stubs_are_justified_witness:
  "map pe_same_as (prepare_results sample_json_env Map.empty [sample_read ''a'', sample_read ''b'']) = [None, Some (lit ''a'')]
   \<and> justified sample_json_env Map.empty [sample_read ''a''] (sample_read ''b'')
        (prepare_results sample_json_env Map.empty [sample_read ''a'', sample_read ''b''] ! 1)"
proof
  let ?rs = "[sample_read ''a'', sample_read ''b'']"
  show "map pe_same_as (prepare_results sample_json_env Map.empty ?rs) = [None, Some (lit ''a'')]" by code_simp
  have "\<forall>k < length ?rs. justified sample_json_env Map.empty (take k ?rs) (?rs ! k) (prepare_results sample_json_env Map.empty ?rs ! k)"
    using stubs_are_justified [of sample_json_env Map.empty ?rs] by blast
  from spec [OF this, of 1]
  show "justified sample_json_env Map.empty [sample_read ''a''] (sample_read ''b'') (prepare_results sample_json_env Map.empty ?rs ! 1)"
    by simp
qed

lemma packing_is_sound_witness:
  "map pe_same_as (pack_tool_results sample_json_env 25 (prepare_results sample_json_env Map.empty [sample_read ''a'', sample_read ''b'']))
     = [None, Some (lit ''a'')]
   \<and> map pe_same_as (pack_tool_results sample_json_env 5 (prepare_results sample_json_env Map.empty [sample_read ''a'', sample_read ''b'']))
     = [None, None]
   \<and> (\<exists>q \<in> set (pack_tool_results sample_json_env 25 (prepare_results sample_json_env Map.empty [sample_read ''a'', sample_read ''b''])).
        pe_remember q \<noteq> None \<and> tf_call_id (pe_result q) = lit ''a'')"
proof (intro conjI)
  let ?rs = "prepare_results sample_json_env Map.empty [sample_read ''a'', sample_read ''b'']"
  show two: "map pe_same_as (pack_tool_results sample_json_env 25 ?rs) = [None, Some (lit ''a'')]" by code_simp
  show "map pe_same_as (pack_tool_results sample_json_env 5 ?rs) = [None, None]" by code_simp
  have "Some (lit ''a'') \<in> pe_same_as ` set (pack_tool_results sample_json_env 25 ?rs)"
    using arg_cong [OF two, of set] by simp
  then obtain p where p: "p \<in> set (pack_tool_results sample_json_env 25 ?rs)" "pe_same_as p = Some (lit ''a'')" by auto
  have "0 < (25 :: nat)" "(25 :: nat) < USIZE_MAX" by (simp_all add: USIZE_MAX_def)
  from packing_is_sound [OF this, of sample_json_env ?rs] p
  show "\<exists>q \<in> set (pack_tool_results sample_json_env 25 ?rs). pe_remember q \<noteq> None \<and> tf_call_id (pe_result q) = lit ''a''" by blast
qed

end
