(* ===== verification/Utf8.thy ===== *)
theory Utf8
  imports Prelude
begin

text \<open>
  UTF-8 as Rust's standard library reads it: \<open>String::from_utf8_lossy\<close> and \<open>std::str::from_utf8\<close> on bytes, and the encoding of
  a string, whose length is \<open>byte_len\<close>.  A step takes one character, or the longest prefix of one that an invalid
  byte ends.
\<close>

section \<open>Decoding\<close>

definition is_continuation :: "u8 \<Rightarrow> bool" where
  "is_continuation b \<longleftrightarrow> 128 \<le> unat b \<and> unat b < 192"

text \<open>The second byte after a lead of three or four: no overlong form, no surrogate, nothing beyond U+10FFFF.\<close>

definition second_byte_ok :: "nat \<Rightarrow> u8 \<Rightarrow> bool" where
  "second_byte_ok lead b \<longleftrightarrow> is_continuation b
     \<and> (lead = 224 \<longrightarrow> 160 \<le> unat b) \<and> (lead = 237 \<longrightarrow> unat b < 160)
     \<and> (lead = 240 \<longrightarrow> 144 \<le> unat b) \<and> (lead = 244 \<longrightarrow> unat b < 144)"

definition payload_bits :: "u8 \<Rightarrow> nat" where
  "payload_bits b = unat b - 128"

fun utf8_step :: "u8 list \<Rightarrow> uchar option \<times> nat" where
  "utf8_step [] = (None, 1)"
| "utf8_step (b # bs) =
     (let lead = unat b
      in if lead < 128 then (Some lead, 1)
         else if 194 \<le> lead \<and> lead < 224 then
           (case bs of
              c # _ \<Rightarrow> if is_continuation c then (Some ((lead - 192) * 64 + payload_bits c), 2) else (None, 1)
            | [] \<Rightarrow> (None, 1))
         else if 224 \<le> lead \<and> lead < 240 then
           (case bs of
              c # cs \<Rightarrow>
                if \<not> second_byte_ok lead c then (None, 1)
                else (case cs of
                        d # _ \<Rightarrow> if is_continuation d
                                 then (Some ((lead - 224) * 4096 + payload_bits c * 64 + payload_bits d), 3) else (None, 2)
                      | [] \<Rightarrow> (None, 2))
            | [] \<Rightarrow> (None, 1))
         else if 240 \<le> lead \<and> lead < 245 then
           (case bs of
              c # cs \<Rightarrow>
                if \<not> second_byte_ok lead c then (None, 1)
                else (case cs of
                        d # ds \<Rightarrow>
                          if \<not> is_continuation d then (None, 2)
                          else (case ds of
                                  e # _ \<Rightarrow> if is_continuation e
                                           then (Some ((lead - 240) * 262144 + payload_bits c * 4096 + payload_bits d * 64 + payload_bits e), 4)
                                           else (None, 3)
                                | [] \<Rightarrow> (None, 3))
                      | [] \<Rightarrow> (None, 2))
            | [] \<Rightarrow> (None, 1))
         else (None, 1))"

lemma utf8_step_pos: "0 < snd (utf8_step bs)"
  by (cases bs) (auto simp: Let_def split: list.split if_split)

definition REPLACEMENT :: uchar where "REPLACEMENT = 65533"

function from_utf8_lossy :: "u8 list \<Rightarrow> str" where
  "from_utf8_lossy bs =
     (if bs = [] then []
      else (case fst (utf8_step bs) of Some c \<Rightarrow> c | None \<Rightarrow> REPLACEMENT) # from_utf8_lossy (drop (snd (utf8_step bs)) bs))"
  by pat_completeness auto
termination
  by (relation "measure length") (use utf8_step_pos in auto)

declare from_utf8_lossy.simps [simp del]

function from_utf8 :: "u8 list \<Rightarrow> str option" where
  "from_utf8 bs =
     (if bs = [] then Some []
      else (case fst (utf8_step bs) of
              Some c \<Rightarrow> map_option (Cons c) (from_utf8 (drop (snd (utf8_step bs)) bs))
            | None \<Rightarrow> None))"
  by pat_completeness auto
termination
  by (relation "measure length") (use utf8_step_pos in auto)

declare from_utf8.simps [simp del]

section \<open>Encoding\<close>

definition is_scalar :: "uchar \<Rightarrow> bool" where
  "is_scalar c \<longleftrightarrow> c < 55296 \<or> (57344 \<le> c \<and> c < 1114112)"

definition utf8_char :: "uchar \<Rightarrow> u8 list" where
  "utf8_char c =
     map of_nat
       (if c < 128 then [c]
        else if c < 2048 then [192 + c div 64, 128 + c mod 64]
        else if c < 65536 then [224 + c div 4096, 128 + c div 64 mod 64, 128 + c mod 64]
        else [240 + c div 262144, 128 + c div 4096 mod 64, 128 + c div 64 mod 64, 128 + c mod 64])"

definition utf8_bytes :: "str \<Rightarrow> u8 list" where
  "utf8_bytes s = concat (map utf8_char s)"

lemma utf8_bytes_simps [simp]:
  "utf8_bytes [] = []" "utf8_bytes (c # s) = utf8_char c @ utf8_bytes s" "utf8_bytes (s @ t) = utf8_bytes s @ utf8_bytes t"
  by (simp_all add: utf8_bytes_def)

lemma length_utf8_bytes: "length (utf8_bytes s) = byte_len s"
  by (induction s) (simp_all add: utf8_char_def utf8_width_def)

lemma unat_byte: "n < 256 \<Longrightarrow> unat (of_nat n :: u8) = n"
  by (simp add: unat_of_nat)

lemma six_bits: "n mod 64 < (64 :: nat)" by simp

lemma three_parts: "c div 4096 * 4096 + c div 64 mod 64 * 64 + c mod 64 = (c :: nat)"
proof -
  have "c div 4096 = c div 64 div 64" by (simp add: div_mult2_eq [symmetric])
  then have "c div 4096 * 64 + c div 64 mod 64 = c div 64" by simp
  then show ?thesis using div_mult_mod_eq [of c 64] by linarith
qed

lemma four_parts: "c div 262144 * 262144 + c div 4096 mod 64 * 4096 + c div 64 mod 64 * 64 + c mod 64 = (c :: nat)"
proof -
  have "c div 262144 = c div 64 div 4096" "c div 4096 = c div 64 div 64" by (simp_all add: div_mult2_eq [symmetric])
  then have "c div 262144 * 4096 + c div 4096 mod 64 * 64 + c div 64 mod 64 = c div 64"
    using three_parts [of "c div 64"] by simp
  then show ?thesis using div_mult_mod_eq [of c 64] by linarith
qed

lemma second_after_E0: "2048 \<le> c \<Longrightarrow> c div 4096 = 0 \<Longrightarrow> 32 \<le> c div 64 mod (64 :: nat)"
  using three_parts [of c] six_bits [of c] six_bits [of "c div 64"] by linarith

lemma second_after_ED: "c < 55296 \<or> 57344 \<le> c \<Longrightarrow> c div 4096 = 13 \<Longrightarrow> c div 64 mod (64 :: nat) < 32"
  using three_parts [of c] six_bits [of c] six_bits [of "c div 64"] by linarith

lemma second_after_F0: "65536 \<le> c \<Longrightarrow> c div 262144 = 0 \<Longrightarrow> 16 \<le> c div 4096 mod (64 :: nat)"
  using four_parts [of c] six_bits [of c] six_bits [of "c div 64"] by linarith

lemma second_after_F4: "c < 1114112 \<Longrightarrow> c div 262144 = 4 \<Longrightarrow> c div 4096 mod (64 :: nat) < 16"
  using four_parts [of c] six_bits [of c] six_bits [of "c div 64"] by linarith

lemma utf8_step_char:
  assumes "is_scalar c"
  shows "utf8_step (utf8_char c @ rest) = (Some c, length (utf8_char c))"
proof -
  have low: "unat (of_nat (128 + n mod 64) :: u8) = 128 + n mod 64" for n :: nat
    by (rule unat_byte) (use six_bits [of n] in linarith)
  have bits: "is_continuation (of_nat (128 + n mod 64))" "payload_bits (of_nat (128 + n mod 64)) = n mod 64" for n :: nat
    using six_bits [of n] by (simp_all only: is_continuation_def payload_bits_def low) simp_all
  consider "c < 128" | "128 \<le> c" "c < 2048" | "2048 \<le> c" "c < 65536" | "65536 \<le> c" by linarith
  then show ?thesis
  proof cases
    case 1
    then show ?thesis by (simp add: utf8_char_def unat_byte)
  next
    case 2
    have lead: "unat (of_nat (192 + c div 64) :: u8) = 192 + c div 64" by (rule unat_byte) (use 2 in simp)
    have "2 \<le> c div 64" "c div 64 < 32" "c div 64 * 64 + c mod 64 = c" using 2 by simp_all
    then show ?thesis using 2 by (simp add: utf8_char_def lead bits Let_def del: of_nat_add)
  next
    case 3
    have lead: "unat (of_nat (224 + c div 4096) :: u8) = 224 + c div 4096" by (rule unat_byte) (use 3 in simp)
    have top: "c div 4096 < 16" using 3 by simp
    have "c < 55296 \<or> 57344 \<le> c" using assms by (auto simp: is_scalar_def)
    then have "second_byte_ok (224 + c div 4096) (of_nat (128 + c div 64 mod 64))"
      unfolding second_byte_ok_def low using bits top 3(1) second_after_E0 [of c] second_after_ED [of c] by auto
    then show ?thesis using 3 top three_parts [of c] by (simp add: utf8_char_def lead bits Let_def del: of_nat_add)
  next
    case 4
    then have c: "c < 1114112" using assms by (simp add: is_scalar_def)
    have lead: "unat (of_nat (240 + c div 262144) :: u8) = 240 + c div 262144" by (rule unat_byte) (use c in simp)
    have top: "c div 262144 < 5" using c by simp
    have "second_byte_ok (240 + c div 262144) (of_nat (128 + c div 4096 mod 64))"
      unfolding second_byte_ok_def low using bits top 4(1) c second_after_F0 [of c] second_after_F4 [of c] by auto
    then show ?thesis using 4 top four_parts [of c] by (simp add: utf8_char_def lead bits Let_def del: of_nat_add)
  qed
qed

lemma utf8_char_nonempty [simp]: "utf8_char c \<noteq> []"
  by (simp add: utf8_char_def)

lemma lossy_char: "is_scalar c \<Longrightarrow> from_utf8_lossy (utf8_char c @ rest) = c # from_utf8_lossy rest"
  by (subst from_utf8_lossy.simps) (simp add: utf8_step_char)

lemma lossy_utf8_bytes: "list_all is_scalar s \<Longrightarrow> from_utf8_lossy (utf8_bytes s) = s"
  by (induction s) (simp_all add: lossy_char from_utf8_lossy.simps [of "[]"])

lemma from_utf8_bytes: "list_all is_scalar s \<Longrightarrow> from_utf8 (utf8_bytes s) = Some s"
proof (induction s)
  case Nil
  then show ?case by (simp add: from_utf8.simps)
next
  case (Cons c s)
  then have "from_utf8 (utf8_char c @ utf8_bytes s) = map_option (Cons c) (from_utf8 (utf8_bytes s))"
    by (subst from_utf8.simps) (simp add: utf8_step_char)
  with Cons show ?case by simp
qed

text \<open>An ASCII byte is never part of a longer character.\<close>

lemma ascii_byte_of_char: "b \<in> set (utf8_char c) \<Longrightarrow> is_scalar c \<Longrightarrow> unat b < 128 \<Longrightarrow> c = unat b"
proof -
  assume b: "b \<in> set (utf8_char c)" "is_scalar c" "unat b < 128"
  have low: "unat (of_nat (128 + n mod 64) :: u8) = 128 + n mod 64" for n :: nat
    by (rule unat_byte) (use six_bits [of n] in linarith)
  show "c = unat b"
  proof (cases "c < 128")
    case True
    then show ?thesis using b by (simp add: utf8_char_def unat_byte)
  next
    case False
    have scalar: "c < 1114112" using b(2) by (auto simp: is_scalar_def)
    have "c < 2048 \<Longrightarrow> unat (of_nat (192 + c div 64) :: u8) = 192 + c div 64" by (rule unat_byte) simp
    moreover have "c < 65536 \<Longrightarrow> unat (of_nat (224 + c div 4096) :: u8) = 224 + c div 4096" by (rule unat_byte) simp
    moreover have "unat (of_nat (240 + c div 262144) :: u8) = 240 + c div 262144"
      by (rule unat_byte) (use scalar in simp)
    ultimately show ?thesis using False b low unfolding utf8_char_def
      by (auto simp del: of_nat_add split: if_splits)
  qed
qed

end
