(* ===== verification/Sse.thy ===== *)
theory Sse
  imports Utf8 PermissionPersist
begin

text \<open>
  The decoder of server-sent events every provider client shares (\<open>crates/squeezy-llm/src/sse.rs\<close>).  Bytes arrive in chunks
  cut anywhere; the decoder frames them into events and joins the \<open>data:\<close> lines of each.
\<close>

section \<open>Framing\<close>

text \<open>\<open>windows(n).position(..)\<close>: the first place a window occurs.\<close>

fun find_window :: "u8 list \<Rightarrow> u8 list \<Rightarrow> nat option" where
  "find_window w [] = None"
| "find_window w (b # bs) = (if take (length w) (b # bs) = w then Some 0 else map_option Suc (find_window w bs))"

definition LF2 :: "u8 list" where "LF2 = [10, 10]"

definition CRLF2 :: "u8 list" where "CRLF2 = [13, 10, 13, 10]"

text \<open>\<open>min_by_key\<close> takes the first of equal keys.\<close>

definition find_event_boundary :: "u8 list \<Rightarrow> nat \<Rightarrow> (nat \<times> nat) option" where
  "find_event_boundary bytes start =
     (let start = min start (length bytes);
          tail = drop start bytes;
          lf = map_option (\<lambda>i. (start + i, 2)) (find_window LF2 tail);
          crlf = map_option (\<lambda>i. (start + i, 4)) (find_window CRLF2 tail)
      in case (lf, crlf) of
           (None, found) \<Rightarrow> found
         | (found, None) \<Rightarrow> found
         | (Some a, Some b) \<Rightarrow> Some (if fst b < fst a then b else a))"

section \<open>One frame\<close>

record sse_event =
  ev_data :: str
  ev_name :: "str option"

definition DONE_SENTINEL :: str where "DONE_SENTINEL = lit ''[DONE]''"

definition push_pending :: "sse_event list \<Rightarrow> str list \<Rightarrow> str option \<Rightarrow> sse_event list" where
  "push_pending events pending name =
     (if pending = [] then events else events @ [\<lparr>ev_data = join [NL] pending, ev_name = name\<rparr>])"

fun sse_lines :: "str list \<Rightarrow> sse_event list \<Rightarrow> str list \<Rightarrow> str option \<Rightarrow> sse_event list" where
  "sse_lines [] events pending name = push_pending events pending name"
| "sse_lines (raw # lines) events pending name =
     (let line = trim_end_matches (\<lambda>c. c = CR) raw
      in case strip_prefix line (lit ''event:'') of
           Some rest \<Rightarrow> sse_lines lines events pending (if trim rest = [] then name else Some (trim rest))
         | None \<Rightarrow>
             (case strip_prefix line (lit ''data:'') of
                Some rest \<Rightarrow>
                  (let payload = trim rest
                   in if payload = [] then sse_lines lines events pending name
                      else if payload = DONE_SENTINEL
                      then sse_lines lines (push_pending events pending name @ [\<lparr>ev_data = payload, ev_name = name\<rparr>]) [] name
                      else sse_lines lines events (pending @ [payload]) name)
              | None \<Rightarrow> sse_lines lines events pending name))"

definition decode_sse_event :: "u8 list \<Rightarrow> sse_event list" where
  "decode_sse_event bytes = sse_lines (text_lines (from_utf8_lossy bytes)) [] [] None"

section \<open>The decoder\<close>

record sse_decoder =
  sd_buffer :: "u8 list"
  sd_scan_pos :: nat

definition sse_new :: sse_decoder where "sse_new = \<lparr>sd_buffer = [], sd_scan_pos = 0\<rparr>"

lemma find_window_bound: "find_window w bs = Some i \<Longrightarrow> w \<noteq> [] \<Longrightarrow> i + length w \<le> length bs"
proof (induction bs arbitrary: i)
  case (Cons b bs)
  then show ?case by (auto split: if_splits) (metis length_Cons length_take min.cobounded1)
qed simp

lemma boundary_bound: "find_event_boundary bytes start = Some (i, n) \<Longrightarrow> 0 < n \<and> i + n \<le> length bytes"
  unfolding find_event_boundary_def
  by (auto simp: Let_def LF2_def CRLF2_def split: option.splits if_splits dest!: find_window_bound)

text \<open>The loop of \<open>push_with_events\<close>: the frames it cuts off, the rest of the buffer and the cursor.\<close>

function push_loop :: "u8 list \<Rightarrow> nat \<Rightarrow> u8 list list \<times> u8 list \<times> nat" where
  "push_loop buffer scan_pos =
     (case find_event_boundary buffer scan_pos of
        Some at \<Rightarrow>
          (case push_loop (drop (fst at + snd at) buffer) 0 of
             (frames, rest) \<Rightarrow> (take (fst at + snd at) buffer # frames, rest))
      | None \<Rightarrow> ([], buffer, length buffer - 3))"
  by pat_completeness auto
termination
proof (relation "measure (length \<circ> fst)")
  fix buffer scan_pos at
  assume "find_event_boundary buffer scan_pos = Some at"
  then have "0 < snd at \<and> fst at + snd at \<le> length buffer" using boundary_bound [of buffer scan_pos "fst at" "snd at"] by simp
  then show "((drop (fst at + snd at) buffer, 0), (buffer, scan_pos)) \<in> measure (length \<circ> fst)" by auto
qed simp

declare push_loop.simps [simp del]

definition push_with_events :: "u8 list \<Rightarrow> sse_decoder \<Rightarrow> sse_event list \<times> sse_decoder" where
  "push_with_events bytes d =
     (case push_loop (sd_buffer d @ bytes) (sd_scan_pos d) of
        (frames, buffer, scan_pos) \<Rightarrow> (concat (map decode_sse_event frames), \<lparr>sd_buffer = buffer, sd_scan_pos = scan_pos\<rparr>))"

definition finish_with_events :: "sse_decoder \<Rightarrow> sse_event list \<times> sse_decoder" where
  "finish_with_events d =
     (if sd_buffer d = [] then ([], d\<lparr>sd_scan_pos := 0\<rparr>)
      else (decode_sse_event (sd_buffer d), \<lparr>sd_buffer = [], sd_scan_pos = 0\<rparr>))"

definition sse_push :: "u8 list \<Rightarrow> sse_decoder \<Rightarrow> str list \<times> sse_decoder" where
  "sse_push bytes d = (case push_with_events bytes d of (events, d') \<Rightarrow> (map ev_data events, d'))"

definition sse_finish :: "sse_decoder \<Rightarrow> str list \<times> sse_decoder" where
  "sse_finish d = (case finish_with_events d of (events, d') \<Rightarrow> (map ev_data events, d'))"

text \<open>A whole response: its chunks one by one, then the end.\<close>

fun sse_run :: "u8 list list \<Rightarrow> sse_decoder \<Rightarrow> sse_event list" where
  "sse_run [] d = fst (finish_with_events d)"
| "sse_run (chunk # chunks) d = (case push_with_events chunk d of (events, d') \<Rightarrow> events @ sse_run chunks d')"

section \<open>Boundaries\<close>

definition window_at :: "u8 list \<Rightarrow> u8 list \<Rightarrow> nat \<Rightarrow> bool" where
  "window_at w bytes i \<longleftrightarrow> take (length w) (drop i bytes) = w"

definition boundary_at :: "u8 list \<Rightarrow> nat \<Rightarrow> nat \<Rightarrow> bool" where
  "boundary_at bytes i n \<longleftrightarrow> (n = 2 \<and> window_at LF2 bytes i) \<or> (n = 4 \<and> window_at CRLF2 bytes i)"

lemma window_lengths [simp]: "length LF2 = 2" "length CRLF2 = 4" "LF2 \<noteq> []" "CRLF2 \<noteq> []"
  by (simp_all add: LF2_def CRLF2_def)

lemma window_nth: "window_at w bytes i \<Longrightarrow> k < length w \<Longrightarrow> i + length w \<le> length bytes \<Longrightarrow> bytes ! (i + k) = w ! k"
  unfolding window_at_def by (metis add_leD1 nth_drop nth_take)

lemma window_bound: "window_at w bytes i \<Longrightarrow> w \<noteq> [] \<Longrightarrow> i + length w \<le> length bytes"
  unfolding window_at_def by (drule arg_cong [where f = length], cases w) (auto simp: min_def split: if_splits)

lemma window_append: "i + length w \<le> length a \<Longrightarrow> window_at w (a @ b) i = window_at w a i"
  by (simp add: window_at_def)

lemma find_window_Some: "find_window w bs = Some i \<Longrightarrow> window_at w bs i \<and> (\<forall>j < i. \<not> window_at w bs j)"
  unfolding window_at_def
proof (induction bs arbitrary: i)
  case (Cons b bs)
  show ?case
  proof (cases "take (length w) (b # bs) = w")
    case False
    then obtain k where k: "find_window w bs = Some k" "i = Suc k" using Cons.prems by auto
    show ?thesis
    proof (intro conjI allI impI)
      show "take (length w) (drop i (b # bs)) = w" using Cons.IH [OF k(1)] k(2) by simp
      fix j assume "j < i"
      then show "take (length w) (drop j (b # bs)) \<noteq> w" using Cons.IH [OF k(1)] k(2) False by (cases j) auto
    qed
  qed (use Cons.prems in simp)
qed simp

lemma find_window_None: "find_window w bs = None \<Longrightarrow> w \<noteq> [] \<Longrightarrow> \<not> window_at w bs j"
  unfolding window_at_def
proof (induction bs arbitrary: j)
  case (Cons b bs)
  then show ?case by (cases j) (auto split: if_splits)
qed simp

lemma boundary_lengths: "boundary_at bytes i n \<Longrightarrow> i + n \<le> length bytes"
  using window_bound [of LF2 bytes i] window_bound [of CRLF2 bytes i] by (auto simp: boundary_at_def)

lemma boundary_append: "i + n \<le> length a \<Longrightarrow> boundary_at (a @ b) i n = boundary_at a i n"
  by (auto simp: boundary_at_def window_append)

lemma boundary_drop: "boundary_at (drop k bytes) i n = boundary_at bytes (k + i) n"
  by (simp add: boundary_at_def window_at_def add.commute)

text \<open>Two boundaries do not overlap in a way that the earlier one ends later.\<close>

lemma boundary_bytes:
  "boundary_at bytes i 2 \<Longrightarrow> bytes ! i = 10 \<and> bytes ! Suc i = 10"
  "boundary_at bytes i 4 \<Longrightarrow> bytes ! i = 13 \<and> bytes ! (i + 2) = 13"
  using boundary_lengths [of bytes i 2] window_nth [of LF2 bytes i 0] window_nth [of LF2 bytes i 1]
    boundary_lengths [of bytes i 4] window_nth [of CRLF2 bytes i 0] window_nth [of CRLF2 bytes i 2]
  by (auto simp: boundary_at_def) (auto simp: LF2_def CRLF2_def)

lemma boundary_kinds: "boundary_at bytes i n \<Longrightarrow> n = 2 \<or> n = 4"
  by (auto simp: boundary_at_def)

lemma boundary_unique: "boundary_at bytes i n \<Longrightarrow> boundary_at bytes i m \<Longrightarrow> n = m"
  using boundary_kinds [of bytes i n] boundary_kinds [of bytes i m] boundary_bytes [of bytes i] by auto

lemma boundary_order:
  assumes "boundary_at bytes i n" "boundary_at bytes j m" "j < i"
  shows "j + m \<le> i + n"
proof (rule ccontr)
  assume "\<not> j + m \<le> i + n"
  then have eq: "m = 4" "n = 2" "i = Suc j"
    using assms(3) boundary_kinds [OF assms(1)] boundary_kinds [OF assms(2)] by auto
  then have "bytes ! Suc (Suc j) = 10" "bytes ! Suc (Suc j) = 13"
    using assms boundary_bytes(1) [of bytes "Suc j"] boundary_bytes(2) [of bytes j] by simp_all
  then show False by simp
qed

lemma find_event_boundary_0:
  "find_event_boundary bytes 0 = None \<longleftrightarrow> (\<forall>i n. \<not> boundary_at bytes i n)"
  "find_event_boundary bytes 0 = Some (i, n) \<longleftrightarrow> boundary_at bytes i n \<and> (\<forall>j < i. \<forall>m. \<not> boundary_at bytes j m)"
proof -
  let ?lf = "find_window LF2 bytes" and ?crlf = "find_window CRLF2 bytes"
  have none: "?lf = None \<Longrightarrow> \<not> boundary_at bytes i 2" "?crlf = None \<Longrightarrow> \<not> boundary_at bytes i 4" for i
    using find_window_None [of LF2 bytes i] find_window_None [of CRLF2 bytes i] by (auto simp: boundary_at_def)
  have lf: "?lf = Some k \<Longrightarrow> boundary_at bytes k 2 \<and> (\<forall>j < k. \<not> boundary_at bytes j 2)" for k
    using find_window_Some [of LF2 bytes k] by (auto simp: boundary_at_def)
  have crlf: "?crlf = Some k \<Longrightarrow> boundary_at bytes k 4 \<and> (\<forall>j < k. \<not> boundary_at bytes j 4)" for k
    using find_window_Some [of CRLF2 bytes k] by (auto simp: boundary_at_def)
  have eq: "find_event_boundary bytes 0 =
     (case ?lf of None \<Rightarrow> map_option (\<lambda>b. (b, 4)) ?crlf
      | Some a \<Rightarrow> (case ?crlf of None \<Rightarrow> Some (a, 2) | Some b \<Rightarrow> Some (if b < a then (b, 4) else (a, 2))))"
    by (simp add: find_event_boundary_def Let_def split: option.split)
  have either: "(\<exists>k m. find_event_boundary bytes 0 = Some (k, m) \<and> boundary_at bytes k m \<and> (\<forall>j < k. \<forall>m'. \<not> boundary_at bytes j m'))
     \<or> (find_event_boundary bytes 0 = None \<and> (\<forall>i n. \<not> boundary_at bytes i n))"
  proof (cases ?lf)
    case None
    note none(1) [OF None]
    then show ?thesis
      using none(2) crlf boundary_kinds unfolding eq None by (cases ?crlf) (auto, metis+)
  next
    case (Some a)
    note a = lf [OF Some]
    show ?thesis
    proof (cases ?crlf)
      case None
      then show ?thesis using a none(2) boundary_kinds unfolding eq Some by (auto, metis)
    next
      case b: (Some b)
      note crlf [OF b]
      then show ?thesis using a boundary_kinds unfolding eq Some b
        by (cases "b < a") (auto, (metis order.strict_trans linorder_not_less order.strict_trans2)+)
    qed
  qed
  then show "find_event_boundary bytes 0 = None \<longleftrightarrow> (\<forall>i n. \<not> boundary_at bytes i n)" by auto
  from either show "find_event_boundary bytes 0 = Some (i, n) \<longleftrightarrow> boundary_at bytes i n \<and> (\<forall>j < i. \<forall>m. \<not> boundary_at bytes j m)"
    using boundary_unique by (auto, (metis linorder_neqE_nat)+)
qed

section \<open>The cursor\<close>

lemma find_from_min: "find_event_boundary bytes (min k (length bytes)) = find_event_boundary bytes k"
  by (simp add: find_event_boundary_def)

lemma find_event_boundary_from:
  assumes "k \<le> length bytes"
  shows "find_event_boundary bytes k = map_option (\<lambda>(i, n). (k + i, n)) (find_event_boundary (drop k bytes) 0)"
  using assms by (cases "find_window LF2 (drop k bytes)"; cases "find_window CRLF2 (drop k bytes)")
    (simp_all add: find_event_boundary_def Let_def)

text \<open>A scan from three bytes before the new ones misses no boundary.\<close>

lemma scan_overlap:
  assumes "find_event_boundary old 0 = None"
  shows "find_event_boundary (old @ new) (length old - 3) = find_event_boundary (old @ new) 0"
proof -
  let ?k = "length old - 3" and ?b = "old @ new"
  have k: "?k \<le> length ?b" by simp
  have none: "\<not> boundary_at ?b i n" if "i < ?k" for i n
  proof
    assume b: "boundary_at ?b i n"
    have "i + n \<le> length old" using that boundary_kinds [OF b] by auto
    with b have "boundary_at old i n" by (simp add: boundary_append)
    then show False using assms by (simp add: find_event_boundary_0)
  qed
  show ?thesis
  proof (cases "find_event_boundary (drop ?k ?b) 0")
    case None
    then have "\<not> boundary_at ?b (?k + i) n" for i n using boundary_drop [of ?k ?b] by (simp add: find_event_boundary_0)
    then have "\<not> boundary_at ?b i n" for i n using none by (metis le_add_diff_inverse not_less)
    then have "find_event_boundary ?b 0 = None" by (simp add: find_event_boundary_0)
    then show ?thesis using find_event_boundary_from [OF k] None by simp
  next
    case (Some at)
    then obtain i n where at: "find_event_boundary (drop ?k ?b) 0 = Some (i, n)" by (cases at) auto
    then have b: "boundary_at ?b (?k + i) n" "\<And>j m. j < i \<Longrightarrow> \<not> boundary_at ?b (?k + j) m"
      using boundary_drop [of ?k ?b] by (auto simp: find_event_boundary_0)
    have "\<not> boundary_at ?b j m" if "j < ?k + i" for j m
      using none b(2) [of "j - ?k"] that by (cases "j < ?k") auto
    with b(1) have "find_event_boundary ?b 0 = Some (?k + i, n)" by (simp add: find_event_boundary_0)
    then show ?thesis using find_event_boundary_from [OF k] at by simp
  qed
qed

lemma boundary_stays: "find_event_boundary a 0 = Some (i, n) \<Longrightarrow> find_event_boundary (a @ b) 0 = Some (i, n)"
proof -
  assume a: "find_event_boundary a 0 = Some (i, n)"
  then have at: "boundary_at a i n" "\<And>j m. j < i \<Longrightarrow> \<not> boundary_at a j m" by (auto simp: find_event_boundary_0)
  then have here: "boundary_at (a @ b) i n" using boundary_lengths [OF at(1)] by (simp add: boundary_append)
  have "\<not> boundary_at (a @ b) j m" if "j < i" for j m
  proof
    assume early: "boundary_at (a @ b) j m"
    have "j + m \<le> length a" using boundary_order [OF here early that] boundary_lengths [OF at(1)] by simp
    with early at(2) [OF that] show False by (simp add: boundary_append)
  qed
  with here show ?thesis by (simp add: find_event_boundary_0)
qed

section \<open>Chunks do not matter\<close>

text \<open>The frames of a whole byte sequence, and what is left over.\<close>

definition frames_of :: "u8 list \<Rightarrow> u8 list list" where "frames_of bytes = fst (push_loop bytes 0)"

definition rest_of :: "u8 list \<Rightarrow> u8 list" where "rest_of bytes = fst (snd (push_loop bytes 0))"

lemma push_loop_None: "find_event_boundary buffer k = None \<Longrightarrow> push_loop buffer k = ([], buffer, length buffer - 3)"
  by (subst push_loop.simps) simp

lemma push_loop_Some:
  "find_event_boundary buffer k = Some (i, n) \<Longrightarrow>
     push_loop buffer k = (take (i + n) buffer # fst (push_loop (drop (i + n) buffer) 0), snd (push_loop (drop (i + n) buffer) 0))"
  by (subst push_loop.simps) (simp split: prod.split)

lemma push_loop_scan: "find_event_boundary buffer k = find_event_boundary buffer 0 \<Longrightarrow> push_loop buffer k = push_loop buffer 0"
  by (subst (1 2) push_loop.simps) simp

lemma push_loop_rest: "snd (push_loop buffer 0) = (rest_of buffer, length (rest_of buffer) - 3)
    \<and> find_event_boundary (rest_of buffer) 0 = None"
proof (induction "length buffer" arbitrary: buffer rule: less_induct)
  case less
  show ?case
  proof (cases "find_event_boundary buffer 0")
    case None
    then show ?thesis by (simp add: rest_of_def push_loop_None)
  next
    case (Some at)
    then obtain i n where at: "find_event_boundary buffer 0 = Some (i, n)" by (cases at) auto
    have "length (drop (i + n) buffer) < length buffer" using boundary_bound [OF at] by (simp, linarith)
    from less [OF this] show ?thesis by (simp add: rest_of_def push_loop_Some [OF at])
  qed
qed

lemma frames_append:
  "frames_of (a @ b) = frames_of a @ frames_of (rest_of a @ b) \<and> rest_of (a @ b) = rest_of (rest_of a @ b)"
proof (induction "length a" arbitrary: a rule: less_induct)
  case less
  show ?case
  proof (cases "find_event_boundary a 0")
    case None
    then show ?thesis by (simp add: frames_of_def rest_of_def push_loop_None)
  next
    case (Some at)
    then obtain i n where at: "find_event_boundary a 0 = Some (i, n)" by (cases at) auto
    have "length (drop (i + n) a) < length a" using boundary_bound [OF at] by (simp, linarith)
    from less [OF this] show ?thesis
      using boundary_bound [OF at]
      by (simp add: frames_of_def rest_of_def push_loop_Some [OF at] push_loop_Some [OF boundary_stays [OF at]])
  qed
qed

definition decoder_ok :: "u8 list \<Rightarrow> sse_decoder \<Rightarrow> bool" where
  "decoder_ok seen d \<longleftrightarrow> sd_buffer d = rest_of seen \<and> sd_scan_pos d = length (rest_of seen) - 3"

lemma decoder_new: "decoder_ok [] sse_new"
  by (simp add: decoder_ok_def sse_new_def rest_of_def push_loop_None find_event_boundary_def)

lemma push_step:
  assumes "decoder_ok seen d" "push_with_events bytes d = (events, d')"
  shows "events = concat (map decode_sse_event (frames_of (rest_of seen @ bytes))) \<and> decoder_ok (seen @ bytes) d'"
proof -
  have none: "find_event_boundary (rest_of seen) 0 = None" using push_loop_rest by blast
  have "push_loop (sd_buffer d @ bytes) (sd_scan_pos d) = push_loop (rest_of seen @ bytes) 0"
    using push_loop_scan [OF scan_overlap [OF none, of bytes]] assms(1) by (simp add: decoder_ok_def)
  moreover have "push_loop (rest_of seen @ bytes) 0 = (frames_of (rest_of seen @ bytes), rest_of (seen @ bytes), length (rest_of (seen @ bytes)) - 3)"
    using push_loop_rest [of "rest_of seen @ bytes"] frames_append [of seen bytes] by (metis frames_of_def prod.collapse)
  ultimately show ?thesis using assms(2) by (auto simp: push_with_events_def decoder_ok_def)
qed

definition events_of :: "u8 list \<Rightarrow> sse_event list" where
  "events_of bytes = concat (map decode_sse_event (frames_of bytes))
     @ (if rest_of bytes = [] then [] else decode_sse_event (rest_of bytes))"

lemma run_from:
  "decoder_ok seen d \<Longrightarrow> concat (map decode_sse_event (frames_of seen)) @ sse_run chunks d = events_of (seen @ concat chunks)"
proof (induction chunks arbitrary: seen d)
  case Nil
  then show ?case by (simp add: finish_with_events_def decoder_ok_def events_of_def)
next
  case (Cons chunk chunks)
  obtain events d' where push: "push_with_events chunk d = (events, d')" by (metis prod.exhaust)
  note step = push_step [OF Cons.prems push]
  then have "concat (map decode_sse_event (frames_of (seen @ chunk))) = concat (map decode_sse_event (frames_of seen)) @ events"
    using frames_append [of seen chunk] by simp
  then show ?case using Cons.IH [of "seen @ chunk" d'] step push by simp
qed

text \<open>C24: how a response is cut into chunks does not matter.  Whatever the chunks, down to single bytes and cuts inside a
  character or a boundary, the events are those of the whole byte sequence; the cursor, which skips what earlier
  scans have seen, misses no boundary.\<close>

theorem sse_chunks_do_not_matter:
  "sse_run chunks sse_new = events_of (concat chunks)"
proof -
  have "frames_of [] = []" by (simp add: frames_of_def push_loop_None find_event_boundary_def)
  then show ?thesis using run_from [OF decoder_new, of chunks] by simp
qed

section \<open>Payloads arrive\<close>

text \<open>What a provider sends for a payload, and the payloads a line can carry.\<close>

definition sse_frame :: "str \<Rightarrow> u8 list" where
  "sse_frame payload = utf8_bytes (lit ''data: '' @ payload @ [NL, NL])"

definition payload_ok :: "str \<Rightarrow> bool" where
  "payload_ok payload \<longleftrightarrow> payload \<noteq> [] \<and> trim payload = payload \<and> NL \<notin> set payload \<and> CR \<notin> set payload \<and> list_all is_scalar payload"

lemma boundary_first_byte: "boundary_at bytes j m \<Longrightarrow> unat (bytes ! j) = 10 \<or> unat (bytes ! j) = 13"
  using boundary_kinds [of bytes j m] boundary_bytes [of bytes j] by auto

lemma line_bytes:
  assumes "list_all is_scalar line" "NL \<notin> set line" "CR \<notin> set line" "b \<in> set (utf8_bytes line)"
  shows "unat b \<noteq> 10 \<and> unat b \<noteq> 13"
proof -
  obtain c where "c \<in> set line" "b \<in> set (utf8_char c)" using assms(4) by (auto simp: utf8_bytes_def)
  moreover then have "is_scalar c" using assms(1) by (simp add: list_all_iff)
  ultimately show ?thesis using ascii_byte_of_char [of b c] assms(2,3) by auto
qed

lemma utf8_newlines: "utf8_bytes [NL, NL] = LF2"
  by (simp add: utf8_char_def LF2_def)

lemma frame_boundary:
  assumes "payload_ok payload"
  shows "find_event_boundary (sse_frame payload @ rest) 0 = Some (length (sse_frame payload) - 2, 2)"
proof -
  let ?line = "lit ''data: '' @ payload"
  define l where "l = utf8_bytes ?line"
  have f: "sse_frame payload = l @ LF2" using utf8_newlines by (simp add: sse_frame_def l_def)
  have line: "list_all is_scalar ?line" "NL \<notin> set ?line" "CR \<notin> set ?line"
    using assms by (auto simp: payload_ok_def lit_def is_scalar_def)
  have "boundary_at (l @ LF2 @ rest) (length l) 2" by (simp add: boundary_at_def window_at_def)
  moreover have "\<not> boundary_at (l @ LF2 @ rest) j m" if "j < length l" for j m
  proof -
    have "l ! j \<in> set (utf8_bytes ?line)" using that by (simp only: l_def [symmetric] nth_mem)
    then show ?thesis
      using line_bytes [OF line] boundary_first_byte [of "l @ LF2 @ rest" j m] that by (auto simp: nth_append)
  qed
  ultimately have "find_event_boundary (l @ LF2 @ rest) 0 = Some (length l, 2)" by (simp only: find_event_boundary_0) blast
  then show ?thesis by (simp add: f)
qed

lemma decode_frame:
  assumes "payload_ok payload"
  shows "map ev_data (decode_sse_event (sse_frame payload)) = [payload]"
proof -
  let ?line = "lit ''data: '' @ payload"
  have decoded: "from_utf8_lossy (sse_frame payload) = ?line @ NL # [NL]"
    unfolding sse_frame_def
    by (subst lossy_utf8_bytes) (use assms in \<open>auto simp: payload_ok_def lit_def is_scalar_def\<close>)
  have line: "NL \<notin> set ?line" "CR \<notin> set ?line" "payload \<noteq> []" using assms by (auto simp: payload_ok_def lit_def)
  have last: "last ?line \<noteq> CR" using line by (metis append_is_Nil_conv last_in_set)
  then have "\<not> ends_with ?line [CR]" by (metis ends_with_iff last_snoc)
  then have "strip_cr ?line = ?line" by (simp add: strip_cr_def strip_suffix_or_def strip_suffix_def)
  then have lines: "text_lines (?line @ NL # [NL]) = [?line, []]"
    using lines_from_line [OF line(1), of "[]" "[NL]"]
    by (simp only: text_lines_def append_Nil) (simp add: strip_cr_def strip_suffix_or_def strip_suffix_def ends_with_def)
  have cr: "trim_end_matches (\<lambda>c. c = CR) ?line = ?line"
    using last line(3) unfolding trim_end_matches_def by (cases "rev payload") (auto simp: rev_swap)
  have "trim (SPACE # payload) = payload"
  proof -
    have "trim (SPACE # payload) = trim payload" by (simp add: trim_def trim_matches_def trim_start_matches_def)
    then show ?thesis using assms by (simp add: payload_ok_def)
  qed
  moreover have "strip_prefix ?line (lit ''event:'') = None" by (simp add: strip_prefix_def starts_with_def lit_def)
  moreover have "strip_prefix ?line (lit ''data:'') = Some (SPACE # payload)" by (simp add: strip_prefix_def starts_with_def lit_def)
  moreover have "strip_prefix [] (lit ''event:'') = None" "strip_prefix [] (lit ''data:'') = None"
    by (simp_all add: strip_prefix_def starts_with_def lit_def)
  ultimately show ?thesis
    using line(3) cr unfolding decode_sse_event_def decoded lines
    by (simp add: Let_def push_pending_def trim_end_matches_def)
qed

lemma frames_of_frame: "payload_ok payload \<Longrightarrow>
    frames_of (sse_frame payload @ rest) = sse_frame payload # frames_of rest \<and> rest_of (sse_frame payload @ rest) = rest_of rest"
proof -
  assume ok: "payload_ok payload"
  have "2 \<le> length (sse_frame payload)" using utf8_newlines by (simp add: sse_frame_def)
  then show ?thesis unfolding frames_of_def rest_of_def push_loop_Some [OF frame_boundary [OF ok]] by simp
qed

text \<open>Every payload arrives.  When a provider sends payloads as \<open>data:\<close> frames and the network cuts the bytes in any way,
  also inside a character, the decoder hands over exactly these payloads, in order, and nothing else.\<close>

theorem sse_delivers_payloads:
  assumes "list_all payload_ok payloads" and "concat chunks = concat (map sse_frame payloads)"
  shows "map ev_data (sse_run chunks sse_new) = payloads"
proof -
  have "frames_of (concat (map sse_frame payloads)) = map sse_frame payloads \<and> rest_of (concat (map sse_frame payloads)) = []"
    using assms(1)
  proof (induction payloads)
    case Nil
    then show ?case by (simp add: frames_of_def rest_of_def push_loop_None find_event_boundary_def)
  next
    case (Cons p ps)
    then show ?case using frames_of_frame [of p "concat (map sse_frame ps)"] by simp
  qed
  then have "events_of (concat chunks) = concat (map decode_sse_event (map sse_frame payloads))"
    unfolding assms(2) by (simp add: events_of_def)
  moreover have "map ev_data (concat (map decode_sse_event (map sse_frame payloads))) = payloads"
    using assms(1) by (induction payloads) (simp_all add: decode_frame)
  ultimately show ?thesis using run_from [OF decoder_new, of chunks]
    by (simp add: frames_of_def push_loop_None find_event_boundary_def)
qed

lemma sse_delivers_payloads_witness:
  "map ev_data (sse_run (map (\<lambda>b. [b]) (sse_frame [123, 8364, 125] @ sse_frame (lit ''[DONE]''))) sse_new)
     = [[123, 8364, 125], lit ''[DONE]'']"
proof (rule sse_delivers_payloads)
  show "list_all payload_ok [[123, 8364, 125], lit ''[DONE]'']" by code_simp
  show "concat (map (\<lambda>b. [b]) (sse_frame [123, 8364, 125] @ sse_frame (lit ''[DONE]'')))
      = concat (map sse_frame [[123, 8364, 125], lit ''[DONE]''])"
    by (simp add: map_concat concat_map_singleton)
qed

end
