(* ===== verification/LlmEvents.thy ===== *)
theory LlmEvents
  imports Conversation Metrics
begin

text \<open>
  What a provider streams (\<open>LlmEvent\<close>, \<open>StopReason\<close> of \<open>crates/squeezy-llm/src/lib.rs\<close>), the errors of
  \<open>crates/squeezy-core/src/lib.rs\<close>, and the classification of a terminal observation as an overflow of the context
  window (\<open>crates/squeezy-llm/src/overflow.rs\<close>).
\<close>

section \<open>Errors\<close>

datatype squeezy_error =
    ConfigFailure str | ProviderNotConfigured str | ProviderRequest str | ProviderStream str | TerminalFailure str
  | AgentFailure str | WorkspaceFailure str | ParseFailure str | GraphFailure str | ToolFailure str | PermissionFailure str
  | IoFailure str

section \<open>Overflow\<close>

datatype overflow_signal = ErrorPattern str | SilentUsage u64 u64 | LengthStopZeroOutput

record usage =
  us_used :: u64
  us_max :: u64

definition overflow_needles :: "str list" where
  "overflow_needles = map lit
     [''prompt is too long'', ''context length'', ''context_length_exceeded'', ''maximum context length'', ''context window'',
      ''input is too long'', ''request too large'', ''too many tokens'', ''tokens exceed'', ''exceeds the model'']"

text \<open>The windows are bytes; every needle is ASCII, so the comparison is the same on characters.\<close>

definition contains_ignore_ascii_case :: "str \<Rightarrow> str \<Rightarrow> bool" where
  "contains_ignore_ascii_case haystack needle = contains (to_lower haystack) (to_lower needle)"

definition error_indicates_overflow :: "str \<Rightarrow> bool" where
  "error_indicates_overflow err = list_ex (contains_ignore_ascii_case err) overflow_needles"

definition is_length_finish :: "str \<Rightarrow> bool" where
  "is_length_finish finish = one_of finish [''length'', ''max_tokens'', ''MAX_TOKENS'', ''max_output_tokens'']"

definition classify_terminal :: "str option \<Rightarrow> str option \<Rightarrow> usage option \<Rightarrow> bool \<Rightarrow> overflow_signal option" where
  "classify_terminal finish last_error usage output_was_empty =
     (case (case last_error of Some err \<Rightarrow> if error_indicates_overflow err then Some (ErrorPattern err) else None | None \<Rightarrow> None) of
        Some signal \<Rightarrow> Some signal
      | None \<Rightarrow>
          (case (case usage of
                   Some u \<Rightarrow> if 0 < us_max u \<and> us_max u \<le> us_used u then Some (SilentUsage (us_used u) (us_max u)) else None
                 | None \<Rightarrow> None) of
             Some signal \<Rightarrow> Some signal
           | None \<Rightarrow>
               (case finish of
                  Some f \<Rightarrow> if output_was_empty \<and> is_length_finish f then Some LengthStopZeroOutput else None
                | None \<Rightarrow> None)))"

section \<open>Events\<close>

datatype reasoning_kind = SummaryReasoning | TextReasoning

datatype stop_reason =
    EndTurn | ToolUse | MaxTokens | ContextWindowExceeded | StopSequence | RefusalStop | PauseTurn | MalformedFunctionCall
  | OtherStop str

record citation_source =
  ct_url :: "str option"
  ct_title :: "str option"
  ct_start_index :: "u32 option"
  ct_end_index :: "u32 option"

datatype llm_event =
    EvStarted
  | EvTextDelta str
  | EvReasoningDelta str reasoning_kind
  | EvReasoningDone reasoning_payload
  | EvToolCall str str json
  | EvToolCallDelta str str str
  | EvRefusal str
  | EvCitation u32 citation_source
  | EvContextOverflow str overflow_signal
  | EvServerModel str
  | EvCompleted "str option" cost_snapshot "stop_reason option" bool
  | EvCancelled

fun is_completed :: "llm_event \<Rightarrow> bool" where
  "is_completed (EvCompleted response_id cost stop_reason reasoning_only) = True"
| "is_completed _ = False"

end
