(* ===== verification/StreamRetry.thy ===== *)
theory StreamRetry
  imports LlmEvents "HOL-Library.Sublist"
begin

text \<open>
  Reconnecting a provider stream (\<open>StreamSkipState\<close>, \<open>SkipCursor\<close> and \<open>with_stream_retry\<close> of
  \<open>crates/squeezy-llm/src/retry.rs\<close>).  A new attempt is sampled afresh; what the consumer has seen already is
  suppressed as long as the attempt reproduces it, and is an error when it does not.  Back-off delays change nothing but
  time here.
\<close>

section \<open>What has been emitted\<close>

record skip_state =
  sk_text :: str
  sk_reasoning :: str
  sk_reasoning_done :: nat
  sk_tool_call_ids :: "str list"
  sk_started :: bool
  sk_server_model :: bool

definition empty_skip :: skip_state where
  "empty_skip = \<lparr>sk_text = [], sk_reasoning = [], sk_reasoning_done = 0, sk_tool_call_ids = [], sk_started = False, sk_server_model = False\<rparr>"

fun observe_yielded :: "llm_event \<Rightarrow> skip_state \<Rightarrow> skip_state" where
  "observe_yielded EvStarted s = s\<lparr>sk_started := True\<rparr>"
| "observe_yielded (EvTextDelta t) s = s\<lparr>sk_text := sk_text s @ t\<rparr>"
| "observe_yielded (EvReasoningDelta t kind) s = s\<lparr>sk_reasoning := sk_reasoning s @ t\<rparr>"
| "observe_yielded (EvReasoningDone payload) s = s\<lparr>sk_reasoning_done := sk_reasoning_done s + 1\<rparr>"
| "observe_yielded (EvToolCall call_id name arguments) s = s\<lparr>sk_tool_call_ids := sk_tool_call_ids s @ [call_id]\<rparr>"
| "observe_yielded (EvServerModel m) s = s\<lparr>sk_server_model := True\<rparr>"
| "observe_yielded _ s = s"

definition is_uncommitted :: "skip_state \<Rightarrow> bool" where
  "is_uncommitted s \<longleftrightarrow> sk_text s = [] \<and> sk_tool_call_ids s = []"

definition reset_content_for_restart :: "skip_state \<Rightarrow> skip_state" where
  "reset_content_for_restart s = s\<lparr>sk_text := [], sk_reasoning := [], sk_reasoning_done := 0, sk_tool_call_ids := []\<rparr>"

definition is_reconnect_divergence :: "squeezy_error \<Rightarrow> bool" where
  "is_reconnect_divergence err =
     (case err of ProviderStream msg \<Rightarrow> contains msg (lit ''stream reconnect diverged'') | _ \<Rightarrow> False)"

section \<open>The cursor of an attempt\<close>

record skip_cursor =
  cu_text :: nat
  cu_reasoning :: nat
  cu_reasoning_done :: nat
  cu_tool_calls :: nat
  cu_expected_text :: nat
  cu_expected_reasoning :: nat
  cu_expected_tool_calls :: nat

definition for_attempt :: "skip_state \<Rightarrow> skip_cursor" where
  "for_attempt s = \<lparr>cu_text = 0, cu_reasoning = 0, cu_reasoning_done = 0, cu_tool_calls = 0,
     cu_expected_text = length (sk_text s), cu_expected_reasoning = length (sk_reasoning s),
     cu_expected_tool_calls = length (sk_tool_call_ids s)\<rparr>"

definition split_delta_prefix :: "str \<Rightarrow> nat \<Rightarrow> nat \<times> str option" where
  "split_delta_prefix t skip_chars =
     (if t = [] then (0, None)
      else if skip_chars = 0 then (0, Some t)
      else if length t \<le> skip_chars then (length t, None)
      else (skip_chars, Some (drop skip_chars t)))"

text \<open>The part of a delta that is new, and how much of the emitted text the attempt has reproduced afterwards.\<close>

definition skip_validated_prefix :: "str \<Rightarrow> str \<Rightarrow> nat \<Rightarrow> squeezy_error + str option \<times> nat" where
  "skip_validated_prefix t already_emitted seen =
     (let already = length already_emitted - seen;
          (consumed, forwarded) = split_delta_prefix t already;
          expected = take consumed (drop seen already_emitted)
      in if expected \<noteq> take consumed t
         then Inl (ProviderStream (lit ''stream reconnect diverged: regenerated text '' @ debug_str (take consumed t)
                     @ lit '' does not match the already-emitted prefix '' @ debug_str expected))
         else Inr (forwarded, seen + (consumed + (case forwarded of None \<Rightarrow> 0 | Some rest \<Rightarrow> length rest))))"

fun filter_event :: "llm_event \<Rightarrow> skip_state \<Rightarrow> skip_cursor \<Rightarrow> squeezy_error + llm_event option \<times> skip_cursor" where
  "filter_event EvStarted s c = Inr (if sk_started s then None else Some EvStarted, c)"
| "filter_event (EvTextDelta t) s c =
     (case skip_validated_prefix t (sk_text s) (cu_text c) of Inl err \<Rightarrow> Inl err
      | Inr (forwarded, seen) \<Rightarrow> Inr (map_option EvTextDelta forwarded, c\<lparr>cu_text := seen\<rparr>))"
| "filter_event (EvReasoningDelta t kind) s c =
     (case skip_validated_prefix t (sk_reasoning s) (cu_reasoning c) of Inl err \<Rightarrow> Inl err
      | Inr (forwarded, seen) \<Rightarrow> Inr (map_option (\<lambda>r. EvReasoningDelta r kind) forwarded, c\<lparr>cu_reasoning := seen\<rparr>))"
| "filter_event (EvReasoningDone payload) s c =
     Inr (if cu_reasoning_done c + 1 \<le> sk_reasoning_done s then None else Some (EvReasoningDone payload),
          c\<lparr>cu_reasoning_done := cu_reasoning_done c + 1\<rparr>)"
| "filter_event (EvToolCall call_id name arguments) s c =
     (let index = cu_tool_calls c
      in if index < length (sk_tool_call_ids s)
         then (let expected = sk_tool_call_ids s ! index
               in if expected = call_id then Inr (None, c\<lparr>cu_tool_calls := index + 1\<rparr>)
                  else Inl (ProviderStream (lit ''stream reconnect diverged: tool call #'' @ show_nat index @ lit '' regenerated as ''
                              @ debug_str call_id @ lit '', but '' @ debug_str expected @ lit '' was already emitted'')))
         else Inr (Some (EvToolCall call_id name arguments), c\<lparr>cu_tool_calls := index + 1\<rparr>))"
| "filter_event (EvServerModel m) s c = Inr (if sk_server_model s then None else Some (EvServerModel m), c)"
| "filter_event event s c = Inr (Some event, c)"

definition check_complete :: "skip_cursor \<Rightarrow> squeezy_error option" where
  "check_complete c =
     (if cu_text c < cu_expected_text c
      then Some (ProviderStream (lit ''stream reconnect diverged: regenerated text shorter than the already-emitted prefix''))
      else if cu_reasoning c < cu_expected_reasoning c
      then Some (ProviderStream (lit ''stream reconnect diverged: regenerated reasoning shorter than the already-emitted prefix''))
      else if cu_tool_calls c < cu_expected_tool_calls c
      then Some (ProviderStream (lit ''stream reconnect diverged: regenerated attempt omitted an already-emitted tool call''))
      else None)"

definition NON_RETRYABLE_MARKER :: str where "NON_RETRYABLE_MARKER = lit ''[non-retryable] ''"

definition is_retryable_stream_error :: "squeezy_error \<Rightarrow> bool" where
  "is_retryable_stream_error err =
     (case err of
        ProviderStream msg \<Rightarrow> \<not> starts_with msg NON_RETRYABLE_MARKER
      | ProviderRequest msg \<Rightarrow> \<not> starts_with msg NON_RETRYABLE_MARKER
      | _ \<Rightarrow> False)"

section \<open>The loop\<close>

text \<open>What the inner stream gives next: an event, an error, or the cancellation that the \<open>select!\<close> sees first; the list of
  an attempt ends where its stream does.\<close>

datatype stream_item = Arrived llm_event | Broke squeezy_error | CancelSeen

datatype attempt_end = Finished | WasCancelled | Raised squeezy_error | Transient "squeezy_error option"

text \<open>An error of the cursor restarts the stream while nothing is committed, and ends it otherwise.\<close>

definition diverge :: "squeezy_error \<Rightarrow> skip_state \<Rightarrow> skip_state \<times> attempt_end" where
  "diverge err s =
     (if is_reconnect_divergence err \<and> is_uncommitted s then (reset_content_for_restart s, Transient (Some err))
      else (s, Raised err))"

fun run_attempt :: "skip_cursor \<Rightarrow> skip_state \<Rightarrow> stream_item list \<Rightarrow> llm_event list \<times> skip_state \<times> attempt_end" where
  "run_attempt c s [] = ([], s, Transient None)"
| "run_attempt c s (CancelSeen # items) = ([EvCancelled], s, WasCancelled)"
| "run_attempt c s (Broke err # items) = ([], s, if is_retryable_stream_error err then Transient (Some err) else Raised err)"
| "run_attempt c s (Arrived event # items) =
     (case (if is_completed event then check_complete c else None) of
        Some err \<Rightarrow> ([], diverge err s)
      | None \<Rightarrow>
          (case filter_event event s c of
             Inl err \<Rightarrow> ([], diverge err s)
           | Inr (forwarded, c') \<Rightarrow>
               (let s' = (case forwarded of None \<Rightarrow> s | Some e \<Rightarrow> observe_yielded e s);
                    ys = (case forwarded of None \<Rightarrow> [] | Some e \<Rightarrow> [e])
                in if is_completed event then (ys, s', Finished)
                   else (case run_attempt c' s' items of (ys', r) \<Rightarrow> (ys @ ys', r)))))"

datatype stream_outcome = StreamCompleted | StreamCancelled | StreamError squeezy_error

lemma unat_next: "(a :: u8) < b \<Longrightarrow> unat (a + 1) = Suc (unat a)"
proof -
  assume "a < b"
  then have "unat a < unat b" "unat b < 256" using unsigned_less [of b] by (simp_all add: word_less_nat_alt)
  then show ?thesis by (simp add: unat_word_ariths)
qed

text \<open>The attempts by number, and whether the token is cancelled while the loop sleeps after one.  The last component is
  the number of the attempt that ended the stream.\<close>

function stream_loop ::
  "u8 \<Rightarrow> (nat \<Rightarrow> stream_item list) \<Rightarrow> (nat \<Rightarrow> bool) \<Rightarrow> skip_state \<Rightarrow> u8 \<Rightarrow> llm_event list \<times> stream_outcome \<times> nat" where
  "stream_loop max_retries attempts asleep s attempt =
     (case run_attempt (for_attempt s) s (attempts (unat attempt)) of
        (ys, s', Finished) \<Rightarrow> (ys, StreamCompleted, unat attempt)
      | (ys, s', WasCancelled) \<Rightarrow> (ys, StreamCancelled, unat attempt)
      | (ys, s', Raised err) \<Rightarrow> (ys, StreamError err, unat attempt)
      | (ys, s', Transient err) \<Rightarrow>
          (if max_retries \<le> attempt
           then (ys, StreamError (case err of None \<Rightarrow> ProviderStream (lit ''provider stream ended without completion'') | Some e \<Rightarrow> e), unat attempt)
           else if asleep (unat attempt) then (ys, StreamError (ProviderStream (lit ''cancelled'')), unat attempt)
           else (case stream_loop max_retries attempts asleep s' (attempt + 1) of (ys', r) \<Rightarrow> (ys @ ys', r))))"
  by pat_completeness auto
termination
proof (relation "measure (\<lambda>(max_retries, _, _, _, attempt). unat max_retries - unat attempt)")
  fix max_retries attempt :: u8 and attempts :: "nat \<Rightarrow> stream_item list" and asleep :: "nat \<Rightarrow> bool" and s s' :: skip_state
  assume "\<not> max_retries \<le> attempt"
  then have "attempt < max_retries" by simp
  then have "unat (attempt + 1) = Suc (unat attempt)" "unat attempt < unat max_retries"
    by (rule unat_next, simp add: word_less_nat_alt)
  then show "((max_retries, attempts, asleep, s', attempt + 1), (max_retries, attempts, asleep, s, attempt))
      \<in> measure (\<lambda>(max_retries, _, _, _, attempt). unat max_retries - unat attempt)" by simp
qed simp

declare stream_loop.simps [simp del]

definition with_stream_retry ::
  "u8 \<Rightarrow> (nat \<Rightarrow> stream_item list) \<Rightarrow> (nat \<Rightarrow> bool) \<Rightarrow> llm_event list \<times> stream_outcome \<times> nat" where
  "with_stream_retry max_retries attempts asleep = stream_loop max_retries attempts asleep empty_skip 0"

section \<open>What the consumer sees\<close>

fun event_text :: "llm_event \<Rightarrow> str" where
  "event_text (EvTextDelta t) = t"
| "event_text _ = []"

fun event_tool_ids :: "llm_event \<Rightarrow> str list" where
  "event_tool_ids (EvToolCall call_id name arguments) = [call_id]"
| "event_tool_ids _ = []"

definition text_of :: "llm_event list \<Rightarrow> str" where "text_of events = concat (map event_text events)"

definition tool_ids_of :: "llm_event list \<Rightarrow> str list" where "tool_ids_of events = concat (map event_tool_ids events)"

definition emitted_events :: "llm_event option \<Rightarrow> llm_event list" where
  "emitted_events e = (case e of None \<Rightarrow> [] | Some event \<Rightarrow> [event])"

lemma stream_of_simps [simp]:
  "text_of [] = []" "text_of (e # es) = event_text e @ text_of es" "text_of (es @ fs) = text_of es @ text_of fs"
  "tool_ids_of [] = []" "tool_ids_of (e # es) = event_tool_ids e @ tool_ids_of es" "tool_ids_of (es @ fs) = tool_ids_of es @ tool_ids_of fs"
  by (simp_all add: text_of_def tool_ids_of_def)

text \<open>The events of one attempt, up to its completion.\<close>

fun attempt_events :: "stream_item list \<Rightarrow> llm_event list" where
  "attempt_events (Arrived event # items) = event # (if is_completed event then [] else attempt_events items)"
| "attempt_events _ = []"

lemma observe_yielded_text [simp]:
  "sk_text (observe_yielded e s) = sk_text s @ event_text e"
  "sk_tool_call_ids (observe_yielded e s) = sk_tool_call_ids s @ event_tool_ids e"
  by (cases e; simp)+

text \<open>An attempt has reproduced a prefix of what was emitted; once something new was emitted, all of it.\<close>

definition reproduces :: "'a list \<Rightarrow> 'a list \<Rightarrow> 'a list \<Rightarrow> nat \<Rightarrow> bool" where
  "reproduces before emitted own seen \<longleftrightarrow>
     seen = length own \<and> prefix own emitted \<and> prefix before emitted \<and> (emitted \<noteq> before \<longrightarrow> own = emitted)"

definition attempt_inv :: "skip_state \<Rightarrow> skip_state \<Rightarrow> skip_cursor \<Rightarrow> str \<Rightarrow> str list \<Rightarrow> bool" where
  "attempt_inv s0 s c own ids \<longleftrightarrow>
     reproduces (sk_text s0) (sk_text s) own (cu_text c) \<and> cu_expected_text c = length (sk_text s0)
     \<and> reproduces (sk_tool_call_ids s0) (sk_tool_call_ids s) ids (cu_tool_calls c)
     \<and> cu_expected_tool_calls c = length (sk_tool_call_ids s0)"

lemma attempt_start: "attempt_inv s s (for_attempt s) [] []"
  by (simp add: attempt_inv_def reproduces_def for_attempt_def)

lemma reproduces_whole: "reproduces before emitted own seen \<Longrightarrow> length before \<le> seen \<Longrightarrow> own = emitted"
  by (cases "emitted = before") (auto simp: reproduces_def prefix_def)

lemma skip_validated_reproduces:
  assumes "reproduces before emitted own seen" "skip_validated_prefix t emitted seen = Inr (forwarded, seen')"
  shows "reproduces before (emitted @ (case forwarded of None \<Rightarrow> [] | Some r \<Rightarrow> r)) (own @ t) seen'"
proof -
  obtain rest where rest: "emitted = own @ rest" using assms(1) by (auto simp: reproduces_def prefix_def)
  have seen: "seen = length own" and old: "prefix before emitted" "emitted \<noteq> before \<longrightarrow> own = emitted"
    using assms(1) by (auto simp: reproduces_def)
  consider "t = []" | "t \<noteq> []" "rest = []" | "t \<noteq> []" "rest \<noteq> []" "length t \<le> length rest" | "t \<noteq> []" "rest \<noteq> []" "length rest < length t"
    by linarith
  then show ?thesis
  proof cases
    case 1
    then show ?thesis using assms by (auto simp: skip_validated_prefix_def split_delta_prefix_def Let_def)
  next
    case 2
    then show ?thesis using assms(2) seen rest old
      by (auto simp: skip_validated_prefix_def split_delta_prefix_def Let_def reproduces_def intro: prefix_prefix)
  next
    case 3
    then have "forwarded = None" "seen' = seen + length t" "take (length t) rest = t"
      using assms(2) seen rest by (auto simp: skip_validated_prefix_def split_delta_prefix_def Let_def split: if_splits)
    then have "prefix t rest" by (metis take_is_prefix)
    then show ?thesis using \<open>forwarded = None\<close> \<open>seen' = _\<close> seen rest old 3(2) by (auto simp: reproduces_def)
  next
    case 4
    then have "forwarded = Some (drop (length rest) t)" "seen' = seen + length t" "rest = take (length rest) t"
      using assms(2) seen rest by (auto simp: skip_validated_prefix_def split_delta_prefix_def Let_def split: if_splits)
    then have "emitted @ drop (length rest) t = own @ t" using rest by (metis append.assoc append_take_drop_id)
    moreover have "prefix before (emitted @ drop (length rest) t)" using old(1) by (rule prefix_prefix)
    ultimately show ?thesis using \<open>forwarded = _\<close> \<open>seen' = _\<close> seen by (auto simp: reproduces_def)
  qed
qed

lemma tool_call_reproduces:
  assumes "reproduces before ids own seen"
  shows "seen < length ids \<Longrightarrow> ids ! seen = i \<Longrightarrow> reproduces before ids (own @ [i]) (seen + 1)"
    and "\<not> seen < length ids \<Longrightarrow> reproduces before (ids @ [i]) (own @ [i]) (seen + 1)"
proof -
  obtain rest where rest: "ids = own @ rest" using assms by (auto simp: reproduces_def prefix_def)
  have seen: "seen = length own" using assms by (simp add: reproduces_def)
  show "seen < length ids \<Longrightarrow> ids ! seen = i \<Longrightarrow> reproduces before ids (own @ [i]) (seen + 1)"
    using assms rest seen by (cases rest) (auto simp: reproduces_def)
  show "\<not> seen < length ids \<Longrightarrow> reproduces before (ids @ [i]) (own @ [i]) (seen + 1)"
    using assms rest seen by (auto simp: reproduces_def intro: prefix_prefix)
qed

lemma filter_keeps_inv:
  assumes "attempt_inv s0 s c own ids" "filter_event event s c = Inr (forwarded, c')"
  shows "attempt_inv s0 (case forwarded of None \<Rightarrow> s | Some e \<Rightarrow> observe_yielded e s) c'
           (own @ event_text event) (ids @ event_tool_ids event)"
proof (cases event)
  case (EvTextDelta t)
  then obtain fw seen where v: "skip_validated_prefix t (sk_text s) (cu_text c) = Inr (fw, seen)"
    "forwarded = map_option EvTextDelta fw" "c' = c\<lparr>cu_text := seen\<rparr>"
    using assms(2) by (auto split: sum.splits)
  have "reproduces (sk_text s0) (sk_text s) own (cu_text c)" using assms(1) by (simp add: attempt_inv_def)
  from skip_validated_reproduces [OF this v(1)] show ?thesis
    using assms(1) v(2,3) EvTextDelta by (cases fw) (simp_all add: attempt_inv_def)
next
  case (EvReasoningDelta t kind)
  then show ?thesis using assms by (auto simp: attempt_inv_def split: sum.splits option.splits)
next
  case (EvToolCall call_id name arguments)
  have r: "reproduces (sk_tool_call_ids s0) (sk_tool_call_ids s) ids (cu_tool_calls c)" using assms(1) by (simp add: attempt_inv_def)
  show ?thesis
    using assms tool_call_reproduces [OF r, of call_id] EvToolCall
    by (auto simp: attempt_inv_def Let_def split: if_splits)
qed (use assms in \<open>auto simp: attempt_inv_def split: if_splits option.splits\<close>)

lemma check_complete_None:
  "check_complete c = None \<longleftrightarrow> cu_expected_text c \<le> cu_text c \<and> cu_expected_reasoning c \<le> cu_reasoning c
     \<and> cu_expected_tool_calls c \<le> cu_tool_calls c"
  by (auto simp: check_complete_def)

lemma attempt_emits:
  assumes "run_attempt c s items = (ys, s', ending)" "attempt_inv s0 s c own ids"
  shows "sk_text s' = sk_text s @ text_of ys \<and> sk_tool_call_ids s' = sk_tool_call_ids s @ tool_ids_of ys
    \<and> (sk_text s' = sk_text s0 \<or> prefix (sk_text s') (own @ text_of (attempt_events items)))
    \<and> (ending = Finished \<longrightarrow> sk_text s' = own @ text_of (attempt_events items)
         \<and> sk_tool_call_ids s' = ids @ tool_ids_of (attempt_events items)
         \<and> (\<exists>before last. ys = before @ [last] \<and> is_completed last \<and> list_all (\<lambda>e. \<not> is_completed e) before))
    \<and> (ending \<noteq> Finished \<longrightarrow> list_all (\<lambda>e. \<not> is_completed e) ys)"
  using assms
proof (induction items arbitrary: c s own ids ys)
  case Nil
  then show ?case by (auto simp: attempt_inv_def reproduces_def)
next
  case (Cons item items)
  have same: "sk_text s = sk_text s0 \<or> prefix (sk_text s) (own @ text_of (attempt_events (item # items)))"
    using Cons.prems(2) by (auto simp: attempt_inv_def reproduces_def)
  show ?case
  proof (cases item)
    case (Arrived event)
    have diverged: ?thesis if "([], diverge err s) = (ys, s', ending)" for err
      using that same
      by (auto simp: diverge_def is_uncommitted_def reset_content_for_restart_def split: if_splits)
    show ?thesis
    proof (cases "if is_completed event then check_complete c else None")
      case (Some err)
      then have "([], diverge err s) = (ys, s', ending)" using Cons.prems(1) Arrived by (simp split: if_splits)
      then show ?thesis by (rule diverged)
    next
      case complete: None
      show ?thesis
      proof (cases "filter_event event s c")
        case (Inl err)
        then have "([], diverge err s) = (ys, s', ending)" using Cons.prems(1) Arrived complete by simp
        then show ?thesis by (rule diverged)
      next
        case (Inr r)
        then obtain forwarded c1 where f: "filter_event event s c = Inr (forwarded, c1)" by (cases r) simp
        define s1 where "s1 = (case forwarded of None \<Rightarrow> s | Some e \<Rightarrow> observe_yielded e s)"
        define es where "es = emitted_events forwarded"
        note inv = filter_keeps_inv [OF Cons.prems(2) f, folded s1_def]
        have grows: "sk_text s1 = sk_text s @ text_of es" "sk_tool_call_ids s1 = sk_tool_call_ids s @ tool_ids_of es"
          by (simp_all add: s1_def es_def emitted_events_def split: option.split)
        show ?thesis
        proof (cases "is_completed event")
          case True
          then obtain i cost reason only where e: "event = EvCompleted i cost reason only" by (cases event) simp_all
          then have fw: "forwarded = Some event" "c1 = c" using f by simp_all
          have out: "ys = [event]" "s' = s" "ending = Finished"
            using Cons.prems(1) Arrived complete f fw e by (simp_all add: Let_def)
          have "check_complete c = None" using complete True by simp
          then have "own = sk_text s" "ids = sk_tool_call_ids s"
            using Cons.prems(2) reproduces_whole [of "sk_text s0" "sk_text s" own "cu_text c"]
              reproduces_whole [of "sk_tool_call_ids s0" "sk_tool_call_ids s" ids "cu_tool_calls c"]
            by (simp_all add: attempt_inv_def check_complete_None)
          then show ?thesis using out Arrived e by simp
        next
          case False
          obtain ys' where rec: "run_attempt c1 s1 items = (ys', s', ending)" "ys = es @ ys'"
            using Cons.prems(1) Arrived complete f False
            by (auto simp: Let_def s1_def es_def emitted_events_def split: prod.splits option.splits)
          have quiet: "list_all (\<lambda>e. \<not> is_completed e) es"
            using f False by (cases event) (auto simp: es_def emitted_events_def Let_def split: option.splits sum.splits if_splits)
          note ih = Cons.IH [OF rec(1) inv]
          show ?thesis
          proof (intro conjI impI)
            show "sk_text s' = sk_text s @ text_of ys" "sk_tool_call_ids s' = sk_tool_call_ids s @ tool_ids_of ys"
              using ih grows rec(2) by simp_all
            have "sk_text s' = sk_text s0 \<or> prefix (sk_text s') ((own @ event_text event) @ text_of (attempt_events items))"
              using ih by blast
            then show "sk_text s' = sk_text s0 \<or> prefix (sk_text s') (own @ text_of (attempt_events (item # items)))"
              using Arrived False by simp
            assume fin: "ending = Finished"
            have "sk_text s' = (own @ event_text event) @ text_of (attempt_events items)"
              "sk_tool_call_ids s' = (ids @ event_tool_ids event) @ tool_ids_of (attempt_events items)"
              using ih fin by blast+
            then show "sk_text s' = own @ text_of (attempt_events (item # items))"
              "sk_tool_call_ids s' = ids @ tool_ids_of (attempt_events (item # items))"
              using Arrived False by simp_all
            obtain before last where "ys' = before @ [last]" "is_completed last" "list_all (\<lambda>e. \<not> is_completed e) before"
              using ih fin by blast
            then have "ys = (es @ before) @ [last] \<and> is_completed last \<and> list_all (\<lambda>e. \<not> is_completed e) (es @ before)"
              using rec(2) quiet by simp
            then show "\<exists>before last. ys = before @ [last] \<and> is_completed last \<and> list_all (\<lambda>e. \<not> is_completed e) before" by blast
          next
            assume "ending \<noteq> Finished"
            then show "list_all (\<lambda>e. \<not> is_completed e) ys" using ih quiet rec(2) by simp
          qed
        qed
      qed
    qed
  qed (use Cons.prems same in \<open>auto split: if_splits\<close>)
qed

text \<open>One turn-start and one model echo, whatever the number of attempts.\<close>

definition count_of :: "(llm_event \<Rightarrow> bool) \<Rightarrow> llm_event list \<Rightarrow> nat" where
  "count_of p events = length (filter p events)"

fun is_started :: "llm_event \<Rightarrow> bool" where
  "is_started EvStarted = True"
| "is_started _ = False"

fun is_server_model :: "llm_event \<Rightarrow> bool" where
  "is_server_model (EvServerModel m) = True"
| "is_server_model _ = False"

lemma attempt_one_shots:
  assumes "run_attempt c s items = (ys, s', ending)"
  shows "count_of is_started ys + of_bool (sk_started s) = of_bool (sk_started s')
    \<and> count_of is_server_model ys + of_bool (sk_server_model s) = of_bool (sk_server_model s')"
  using assms
proof (induction items arbitrary: c s ys)
  case Nil
  then show ?case by (simp add: count_of_def)
next
  case (Cons item items)
  show ?case
  proof (cases item)
    case (Arrived event)
    have diverged: ?thesis if "([], diverge err s) = (ys, s', ending)" for err
      using that by (auto simp: count_of_def diverge_def reset_content_for_restart_def split: if_splits)
    show ?thesis
    proof (cases "if is_completed event then check_complete c else None")
      case (Some err)
      then have "([], diverge err s) = (ys, s', ending)" using Cons.prems Arrived by (simp split: if_splits)
      then show ?thesis by (rule diverged)
    next
      case complete: None
      show ?thesis
      proof (cases "filter_event event s c")
        case (Inl err)
        then have "([], diverge err s) = (ys, s', ending)" using Cons.prems Arrived complete by simp
        then show ?thesis by (rule diverged)
      next
        case (Inr r)
        then obtain forwarded c1 where f: "filter_event event s c = Inr (forwarded, c1)" by (cases r) simp
        define s1 where "s1 = (case forwarded of None \<Rightarrow> s | Some e \<Rightarrow> observe_yielded e s)"
        define es where "es = emitted_events forwarded"
        have step: "count_of is_started es + of_bool (sk_started s) = of_bool (sk_started s1)"
          "count_of is_server_model es + of_bool (sk_server_model s) = of_bool (sk_server_model s1)"
          using f by (cases event; auto simp: count_of_def s1_def es_def emitted_events_def Let_def split: option.splits sum.splits if_splits)+
        show ?thesis
        proof (cases "is_completed event")
          case True
          then show ?thesis using Cons.prems Arrived complete f step
            by (auto simp: Let_def s1_def es_def emitted_events_def split: option.splits)
        next
          case False
          obtain ys' where rec: "run_attempt c1 s1 items = (ys', s', ending)" "ys = es @ ys'"
            using Cons.prems Arrived complete f False
            by (auto simp: Let_def s1_def es_def emitted_events_def split: prod.splits option.splits)
          show ?thesis using Cons.IH [OF rec(1)] step rec(2) by (simp add: count_of_def)
        qed
      qed
    qed
  qed (use Cons.prems in \<open>auto simp: count_of_def split: if_splits\<close>)
qed

section \<open>The whole stream\<close>

text \<open>What the loop promises from a state on: it stops within the retries allowed, a completed stream ends with its one
  \<open>Completed\<close> and has delivered the final attempt, and the text is that of one attempt, never of two.\<close>

definition loop_ok :: "u8 \<Rightarrow> (nat \<Rightarrow> stream_item list) \<Rightarrow> skip_state \<Rightarrow> u8 \<Rightarrow> llm_event list \<times> stream_outcome \<times> nat \<Rightarrow> bool" where
  "loop_ok max_retries attempts s n r \<longleftrightarrow>
     (case r of (ys, outcome, k) \<Rightarrow>
        unat n \<le> k \<and> (n \<le> max_retries \<longrightarrow> k \<le> unat max_retries)
        \<and> (outcome = StreamCompleted \<longrightarrow>
             sk_text s @ text_of ys = text_of (attempt_events (attempts k))
             \<and> sk_tool_call_ids s @ tool_ids_of ys = tool_ids_of (attempt_events (attempts k))
             \<and> (\<exists>before last. ys = before @ [last] \<and> is_completed last \<and> list_all (\<lambda>e. \<not> is_completed e) before))
        \<and> (outcome \<noteq> StreamCompleted \<longrightarrow> list_all (\<lambda>e. \<not> is_completed e) ys)
        \<and> (text_of ys = [] \<or> (\<exists>j. j \<le> k \<and> prefix (sk_text s @ text_of ys) (text_of (attempt_events (attempts j)))))
        \<and> count_of is_started ys + of_bool (sk_started s) \<le> 1
        \<and> count_of is_server_model ys + of_bool (sk_server_model s) \<le> 1)"

lemma loop_attempt:
  assumes "run_attempt (for_attempt s) s (attempts (unat n)) = (ys, s', ending)"
    and "outcome = StreamCompleted \<longleftrightarrow> ending = Finished"
  shows "loop_ok max_retries attempts s n (ys, outcome, unat n)"
  using attempt_emits [OF assms(1) attempt_start] attempt_one_shots [OF assms(1)] assms(2)
  by (auto simp: loop_ok_def word_le_nat_alt)

lemma loop_continues:
  assumes run: "run_attempt (for_attempt s) s (attempts (unat n)) = (ys, s', ending)" "ending \<noteq> Finished"
    and less: "n < max_retries" and rest: "loop_ok max_retries attempts s' (n + 1) (ys', outcome, k)"
  shows "loop_ok max_retries attempts s n (ys @ ys', outcome, k)"
proof -
  note e = attempt_emits [OF run(1) attempt_start] and o = attempt_one_shots [OF run(1)]
  have n: "unat (n + 1) = Suc (unat n)" using less by (rule unat_next)
  have le: "n + 1 \<le> max_retries" using less n by (simp add: word_le_nat_alt word_less_nat_alt)
  have k: "unat n \<le> k" "k \<le> unat max_retries" using rest n le by (simp_all add: loop_ok_def)
  have sums: "sk_text s' = sk_text s @ text_of ys" "sk_tool_call_ids s' = sk_tool_call_ids s @ tool_ids_of ys"
    and quiet: "list_all (\<lambda>e. \<not> is_completed e) ys" using e run(2) by simp_all
  have fin: "\<exists>before last. ys @ ys' = before @ [last] \<and> is_completed last \<and> list_all (\<lambda>e. \<not> is_completed e) before"
    if completed: "outcome = StreamCompleted"
  proof -
    obtain before last where "ys' = before @ [last]" "is_completed last" "list_all (\<lambda>e. \<not> is_completed e) before"
      using rest completed by (auto simp: loop_ok_def)
    then have "ys @ ys' = (ys @ before) @ [last] \<and> is_completed last \<and> list_all (\<lambda>e. \<not> is_completed e) (ys @ before)"
      using quiet by simp
    then show ?thesis by blast
  qed
  have one: "text_of (ys @ ys') = [] \<or> (\<exists>j\<le>k. prefix (sk_text s @ text_of (ys @ ys')) (text_of (attempt_events (attempts j))))"
  proof (cases "text_of ys' = []")
    case True
    then show ?thesis using e k(1) sums by auto
  next
    case False
    then show ?thesis using rest sums by (auto simp: loop_ok_def)
  qed
  show ?thesis using rest k sums quiet fin one o by (auto simp: loop_ok_def count_of_def)
qed

lemma stream_loop_ok: "loop_ok max_retries attempts s n (stream_loop max_retries attempts asleep s n)"
proof (induction max_retries attempts asleep s n rule: stream_loop.induct)
  case (1 max_retries attempts asleep s n)
  obtain ys s' ending where run: "run_attempt (for_attempt s) s (attempts (unat n)) = (ys, s', ending)" by (metis prod_cases3)
  show ?case
  proof (cases ending)
    case (Transient err)
    show ?thesis
    proof (cases "max_retries \<le> n \<or> asleep (unat n)")
      case True
      then show ?thesis using run Transient
        by (auto simp: stream_loop.simps [of max_retries attempts asleep s n] intro!: loop_attempt)
    next
      case False
      obtain ys' r where rest: "stream_loop max_retries attempts asleep s' (n + 1) = (ys', r)" by (metis surj_pair)
      obtain outcome k where r: "r = (outcome, k)" by (cases r)
      have "loop_ok max_retries attempts s' (n + 1) (ys', outcome, k)"
        using "1.IH" [OF run [symmetric] refl] False Transient rest r by simp
      moreover have "n < max_retries" using False by (auto simp: not_le)
      ultimately have "loop_ok max_retries attempts s n (ys @ ys', outcome, k)"
        using loop_continues [OF run(1) _ _ \<open>loop_ok _ _ _ _ _\<close>] Transient by simp
      then show ?thesis
        using run Transient False rest r by (simp add: stream_loop.simps [of max_retries attempts asleep s n])
    qed
  qed (use run in \<open>auto simp: stream_loop.simps [of max_retries attempts asleep s n] intro!: loop_attempt\<close>)
qed


text \<open>A stream that fails or is cancelled has shown a prefix of what one single attempt said, never a splice of two
  different generations, and no completion.\<close>

theorem failed_stream_is_one_attempt:
  assumes "with_stream_retry max_retries attempts asleep = (ys, outcome, k)" "outcome \<noteq> StreamCompleted"
  shows "k \<le> unat max_retries \<and> (\<exists>j\<le>k. prefix (text_of ys) (text_of (attempt_events (attempts j))))
    \<and> list_all (\<lambda>e. \<not> is_completed e) ys \<and> count_of is_started ys \<le> 1 \<and> count_of is_server_model ys \<le> 1"
  using stream_loop_ok [of max_retries attempts empty_skip 0 asleep] assms
  by (auto simp: with_stream_retry_def loop_ok_def empty_skip_def)

text \<open>A stream whose first attempt breaks after a finished reasoning segment.\<close>

definition finished_event :: llm_event where "finished_event = EvCompleted None empty_cost None False"

fun flaky_attempts :: "reasoning_payload \<Rightarrow> reasoning_payload \<Rightarrow> nat \<Rightarrow> stream_item list" where
  "flaky_attempts p q 0 =
     [Arrived EvStarted, Arrived (EvReasoningDelta (lit ''one way'') TextReasoning), Arrived (EvReasoningDone p),
      Broke (ProviderStream (lit ''connection reset''))]"
| "flaky_attempts p q (Suc n) =
     [Arrived EvStarted, Arrived (EvReasoningDelta (lit ''another'') TextReasoning), Arrived (EvReasoningDone q),
      Arrived (EvTextDelta (lit ''hello'')), Arrived finished_event]"

definition broken_reply :: "nat \<Rightarrow> stream_item list" where
  "broken_reply n =
     (if n = 0 then [Arrived EvStarted, Arrived (EvTextDelta (lit ''hel'')), Broke (ProviderStream (lit ''connection reset''))]
      else [Arrived EvStarted, Arrived (EvTextDelta (lit ''he'')), Arrived (EvTextDelta (lit ''llo'')), Arrived finished_event])"


definition diverging_reply :: "nat \<Rightarrow> stream_item list" where
  "diverging_reply n =
     (if n = 0 then [Arrived EvStarted, Arrived (EvTextDelta (lit ''hel'')), Broke (ProviderStream (lit ''connection reset''))]
      else [Arrived EvStarted, Arrived (EvTextDelta (lit ''jel'')), Arrived finished_event])"

lemma failed_stream_is_one_attempt_witness:
  "snd (snd (with_stream_retry 3 diverging_reply (\<lambda>n. False))) = 1
   \<and> prefix (text_of (fst (with_stream_retry 3 diverging_reply (\<lambda>n. False)))) (text_of (attempt_events (diverging_reply 0)))
   \<and> list_all (\<lambda>e. \<not> is_completed e) (fst (with_stream_retry 3 diverging_reply (\<lambda>n. False)))"
proof -
  have run: "\<exists>err. with_stream_retry 3 diverging_reply (\<lambda>n. False) = ([EvStarted, EvTextDelta (lit ''hel'')], StreamError err, 1)"
    by (rule exI [of _ "ProviderStream (lit ''stream reconnect diverged: regenerated text \"jel\" does not match the already-emitted prefix \"hel\"'')"])
      code_simp
  then obtain err where e: "with_stream_retry 3 diverging_reply (\<lambda>n. False) = ([EvStarted, EvTextDelta (lit ''hel'')], StreamError err, 1)"
    by blast
  have "prefix (text_of [EvStarted, EvTextDelta (lit ''hel'')]) (text_of (attempt_events (diverging_reply 0)))" by code_simp
  then show ?thesis using e failed_stream_is_one_attempt [OF e] by simp
qed

text \<open>An attempt that breaks after it finished a reasoning segment and is followed by a divergent one is restarted from
  nothing: the consumer receives the finished segment of the discarded attempt beside the one of the attempt that counts.\<close>

theorem restart_repeats_finished_reasoning:
  "with_stream_retry 2 (flaky_attempts p q) (\<lambda>n. False)
     = ([EvStarted, EvReasoningDelta (lit ''one way'') TextReasoning, EvReasoningDone p,
         EvReasoningDelta (lit ''another'') TextReasoning, EvReasoningDone q, EvTextDelta (lit ''hello''), finished_event],
        StreamCompleted, 2)"
  by code_simp

end
