(* ===== verification/RequestRetry.thy ===== *)
theory RequestRetry
  imports LlmEvents Utf8 ContextPins
begin

text \<open>
  Sending a provider request (\<open>RetryPolicy\<close>, \<open>send_with_retry\<close>, \<open>send_with_auth_retry\<close> and their helpers in
  \<open>crates/squeezy-llm/src/retry.rs\<close>).  A duration is its number of nanoseconds; the floating-point scaling of
  \<open>apply_jitter\<close> by the random sample, the floating-point and HTTP-date readers of \<open>Retry-After\<close> and the JSON parser are
  parameters.
\<close>

section \<open>The policy\<close>

type_synonym duration = nat

definition DURATION_MAX :: duration where "DURATION_MAX = 18446744073709551615 * 1000000000 + 999999999"

definition from_millis :: "u64 \<Rightarrow> duration" where "from_millis ms = unat ms * 1000000"

definition from_secs :: "u64 \<Rightarrow> duration" where "from_secs s = unat s * 1000000000"

record transport_config =
  tp_request_max_retries :: u8
  tp_stream_max_retries :: u8
  tp_stream_idle_timeout_ms :: u64
  tp_pool_idle_timeout_ms :: u64
  tp_pool_max_idle_per_host :: u32
  tp_max_retry_delay_ms :: u64

record retry_policy =
  rp_max_retries :: u8
  rp_base_delay :: duration
  rp_retry_429 :: bool
  rp_retry_5xx :: bool
  rp_retry_transport :: bool
  rp_max_retry_delay :: duration

definition provider_requests :: "transport_config \<Rightarrow> retry_policy" where
  "provider_requests config =
     \<lparr>rp_max_retries = tp_request_max_retries config, rp_base_delay = from_millis 200, rp_retry_429 = True, rp_retry_5xx = True,
      rp_retry_transport = True, rp_max_retry_delay = from_millis (tp_max_retry_delay_ms config)\<rparr>"

definition provider_stream :: "transport_config \<Rightarrow> retry_policy" where
  "provider_stream config =
     \<lparr>rp_max_retries = tp_stream_max_retries config, rp_base_delay = from_millis 200, rp_retry_429 = False, rp_retry_5xx = False,
      rp_retry_transport = True, rp_max_retry_delay = from_millis (tp_max_retry_delay_ms config)\<rparr>"

definition should_retry_status :: "retry_policy \<Rightarrow> nat \<Rightarrow> bool" where
  "should_retry_status policy status \<longleftrightarrow>
     rp_retry_429 policy \<and> status = 429 \<or> rp_retry_5xx policy \<and> 500 \<le> status \<and> status < 600"

definition backoff :: "(nat \<Rightarrow> duration \<Rightarrow> duration) \<Rightarrow> duration \<Rightarrow> u8 \<Rightarrow> duration" where
  "backoff jitter base attempt =
     (let factor = min (2 ^ unat attempt) 4294967295
      in jitter (unat attempt) (min (base * factor) DURATION_MAX))"

definition capped_backoff :: "(nat \<Rightarrow> duration \<Rightarrow> duration) \<Rightarrow> retry_policy \<Rightarrow> u8 \<Rightarrow> duration" where
  "capped_backoff jitter policy attempt = min (backoff jitter (rp_base_delay policy) attempt) (rp_max_retry_delay policy)"

section \<open>Quota errors\<close>

definition TERMINAL_QUOTA_KEYWORDS :: "str list" where
  "TERMINAL_QUOTA_KEYWORDS =
     map lit [''monthly_usage_limit'', ''Monthly usage limit reached'', ''insufficient_quota'', ''billing_hard_limit_reached'',
              ''quota_exceeded'']"

definition has_terminal_provider_error_shape :: "json \<Rightarrow> bool" where
  "has_terminal_provider_error_shape value =
     (case json_get (lit ''error'') value of
        None \<Rightarrow> False
      | Some error \<Rightarrow>
          (case Option.bind (json_get (lit ''type'') error) json_as_str of
             Some error_type \<Rightarrow> error_type = lit ''permission_error'' | None \<Rightarrow> False)
          \<or> (case Option.bind (json_get (lit ''code'') error) json_as_str of
               Some code \<Rightarrow> one_of code [''insufficient_quota'', ''billing_hard_limit_reached'', ''quota_exceeded'']
             | None \<Rightarrow> False))"

definition is_terminal_quota_error :: "(str \<Rightarrow> json option) \<Rightarrow> u8 list \<Rightarrow> bool" where
  "is_terminal_quota_error parse_json body =
     (case from_utf8 body of
        None \<Rightarrow> False
      | Some body_text \<Rightarrow>
          list_ex (contains body_text) TERMINAL_QUOTA_KEYWORDS
          \<or> (case parse_json body_text of Some value \<Rightarrow> has_terminal_provider_error_shape value | None \<Rightarrow> False))"

section \<open>The hint of the server\<close>

text \<open>Header values by their lower-case name, as far as they read as text.  \<open>float_ms\<close> is the clamped number of milliseconds of
  a finite non-negative decimal, \<open>date_delay\<close> the time until an HTTP date.\<close>

record retry_env =
  re_parse_json :: "str \<Rightarrow> json option"
  re_float_ms :: "str \<Rightarrow> u64 option"
  re_date_delay :: "str \<Rightarrow> duration option"
  re_jitter :: "nat \<Rightarrow> duration \<Rightarrow> duration"

type_synonym header_map = "(str \<times> str) list"

definition parse_retry_after :: "retry_env \<Rightarrow> header_map \<Rightarrow> duration option" where
  "parse_retry_after env headers =
     (case Option.bind (map_of headers (lit ''retry-after-ms'')) (\<lambda>v. parse_u64_digits (trim v)) of
        Some millis \<Rightarrow> Some (from_millis millis)
      | None \<Rightarrow>
          (case map_of headers (lit ''retry-after'') of
             None \<Rightarrow> None
           | Some raw \<Rightarrow>
               (let t = trim raw
                in case parse_u64_digits t of
                     Some seconds \<Rightarrow> Some (from_secs seconds)
                   | None \<Rightarrow>
                       (case re_float_ms env t of
                          Some millis \<Rightarrow> Some (from_millis millis)
                        | None \<Rightarrow> re_date_delay env t))))"

section \<open>The request\<close>

record http_response =
  hr_status :: nat
  hr_headers :: header_map
  hr_body :: "u8 list"

text \<open>What becomes of one request: the cancellation is seen first, a response arrives, or the transport fails.\<close>

datatype sent = SeesCancel | Responded http_response | FailedToSend str

definition cancelled_error :: squeezy_error where "cancelled_error = ProviderStream (lit ''cancelled'')"

text \<open>\<open>u8::saturating_add(1)\<close>.\<close>

definition next_attempt :: "u8 \<Rightarrow> u8" where
  "next_attempt attempt = (if attempt = 255 then 255 else attempt + 1)"

lemma next_attempt_less: "(a :: u8) < b \<Longrightarrow> unat (next_attempt a) = Suc (unat a)"
proof -
  assume less: "a < b"
  then have "unat a < unat b" "unat b < 256" using unsigned_less [of b] by (simp_all add: word_less_nat_alt)
  then have "unat a < 255" by simp
  then have "a \<noteq> 255" by auto
  then show ?thesis using \<open>unat a < 255\<close> by (simp add: next_attempt_def unat_word_ariths)
qed

text \<open>The \<open>match\<close> on a response: the end of the loop with a result, or a delay before the next attempt.\<close>

definition after_send ::
  "retry_env \<Rightarrow> retry_policy \<Rightarrow> u8 \<Rightarrow> sent \<Rightarrow> (squeezy_error + http_response) + duration" where
  "after_send env policy attempt x =
     (case x of
        SeesCancel \<Rightarrow> Inl (Inl cancelled_error)
      | Responded response \<Rightarrow>
          if should_retry_status policy (hr_status response) \<and> attempt < rp_max_retries policy
          then (if is_terminal_quota_error (re_parse_json env) (hr_body response) then Inl (Inr response)
                else Inr (case parse_retry_after env (hr_headers response) of
                            Some hint \<Rightarrow> min hint (rp_max_retry_delay policy)
                          | None \<Rightarrow> capped_backoff (re_jitter env) policy attempt))
          else Inl (Inr response)
      | FailedToSend msg \<Rightarrow>
          if rp_retry_transport policy \<and> attempt < rp_max_retries policy
          then Inr (capped_backoff (re_jitter env) policy attempt)
          else Inl (Inl (ProviderRequest msg)))"

lemma after_send_again: "after_send env policy attempt x = Inr delay \<Longrightarrow> attempt < rp_max_retries policy"
  by (simp add: after_send_def split: sent.splits if_splits)

text \<open>The requests by number and whether the token is cancelled while the loop sleeps after one.  Beside the result, the
  sleeps and the number of requests made.\<close>

function send_loop ::
  "retry_env \<Rightarrow> retry_policy \<Rightarrow> (nat \<Rightarrow> sent) \<Rightarrow> (nat \<Rightarrow> bool) \<Rightarrow> u8
     \<Rightarrow> (squeezy_error + http_response) \<times> duration list \<times> nat" where
  "send_loop env policy sends asleep attempt =
     (case after_send env policy attempt (sends (unat attempt)) of
        Inl result \<Rightarrow> (result, [], unat attempt + 1)
      | Inr delay \<Rightarrow>
          if asleep (unat attempt) then (Inl cancelled_error, [delay], unat attempt + 1)
          else (case send_loop env policy sends asleep (next_attempt attempt) of
                  (result, delays, n) \<Rightarrow> (result, delay # delays, n)))"
  by pat_completeness auto
termination
  by (relation "measure (\<lambda>(_, policy, _, _, attempt). unat (rp_max_retries policy) - unat attempt)")
    (auto dest!: after_send_again simp: next_attempt_less word_less_nat_alt intro!: diff_less_mono2)

declare send_loop.simps [simp del]

definition send_with_retry ::
  "retry_env \<Rightarrow> retry_policy \<Rightarrow> (nat \<Rightarrow> sent) \<Rightarrow> (nat \<Rightarrow> bool) \<Rightarrow> (squeezy_error + http_response) \<times> duration list \<times> nat" where
  "send_with_retry env policy sends asleep = send_loop env policy sends asleep 0"

section \<open>Refreshing the credential\<close>

definition is_auth_failure :: "nat \<Rightarrow> bool" where
  "is_auth_failure status \<longleftrightarrow> status = 401 \<or> status = 403"

text \<open>A source of keys: the results of its first and its second \<open>current_key\<close>, whether it can rotate, and the error of
  \<open>invalidate\<close>, if any.\<close>

record key_source =
  ks_first_key :: "squeezy_error + str"
  ks_can_rotate :: bool
  ks_invalidate :: "squeezy_error option"
  ks_refreshed_key :: "squeezy_error + str"

text \<open>The keys the requests were made with, beside the result.\<close>

definition send_with_auth_retry ::
  "retry_env \<Rightarrow> key_source \<Rightarrow> retry_policy \<Rightarrow> (nat \<Rightarrow> str \<Rightarrow> nat \<Rightarrow> sent) \<Rightarrow> (nat \<Rightarrow> nat \<Rightarrow> bool)
     \<Rightarrow> (squeezy_error + http_response) \<times> (str \<times> nat) list" where
  "send_with_auth_retry env source policy sends asleep =
     (case ks_first_key source of
        Inl err \<Rightarrow> (Inl err, [])
      | Inr key \<Rightarrow>
          (case send_with_retry env policy (sends 0 key) (asleep 0) of
             (Inl err, _, n) \<Rightarrow> (Inl err, [(key, n)])
           | (Inr response, _, n) \<Rightarrow>
               if \<not> is_auth_failure (hr_status response) then (Inr response, [(key, n)])
               else if \<not> ks_can_rotate source then (Inr response, [(key, n)])
               else (case ks_invalidate source of
                       Some err \<Rightarrow> (Inl err, [(key, n)])
                     | None \<Rightarrow>
                         (case ks_refreshed_key source of
                            Inl err \<Rightarrow> (Inl err, [(key, n)])
                          | Inr refreshed \<Rightarrow>
                              (case send_with_retry env policy (sends 1 refreshed) (asleep 1) of
                                 (result, _, m) \<Rightarrow> (result, [(key, n), (refreshed, m)]))))))"

section \<open>What the loop does\<close>

text \<open>The outcomes the policy tries again, the verdict on the last one, and the sleep after one.\<close>

definition tried_again :: "retry_env \<Rightarrow> retry_policy \<Rightarrow> sent \<Rightarrow> bool" where
  "tried_again env policy x =
     (case x of
        SeesCancel \<Rightarrow> False
      | Responded response \<Rightarrow>
          should_retry_status policy (hr_status response) \<and> \<not> is_terminal_quota_error (re_parse_json env) (hr_body response)
      | FailedToSend msg \<Rightarrow> rp_retry_transport policy)"

definition verdict :: "sent \<Rightarrow> squeezy_error + http_response" where
  "verdict x =
     (case x of SeesCancel \<Rightarrow> Inl cancelled_error | Responded response \<Rightarrow> Inr response | FailedToSend msg \<Rightarrow> Inl (ProviderRequest msg))"

definition send_ok ::
  "retry_env \<Rightarrow> retry_policy \<Rightarrow> (nat \<Rightarrow> sent) \<Rightarrow> (nat \<Rightarrow> bool) \<Rightarrow> nat \<Rightarrow> (squeezy_error + http_response) \<times> duration list \<times> nat \<Rightarrow> bool" where
  "send_ok env policy sends asleep from r \<longleftrightarrow>
     (case r of (result, delays, made) \<Rightarrow>
        from < made \<and> made \<le> Suc (unat (rp_max_retries policy))
        \<and> (\<forall>i. from \<le> i \<and> i < made - 1 \<longrightarrow> tried_again env policy (sends i) \<and> \<not> asleep i)
        \<and> (\<forall>d\<in>set delays. d \<le> rp_max_retry_delay policy)
        \<and> (if tried_again env policy (sends (made - 1)) \<and> made \<le> unat (rp_max_retries policy)
           then asleep (made - 1) \<and> result = Inl cancelled_error \<and> length delays = made - from
           else result = verdict (sends (made - 1)) \<and> length delays = made - 1 - from))"

lemma capped: "capped_backoff jitter policy attempt \<le> rp_max_retry_delay policy"
  by (simp add: capped_backoff_def)

lemma after_send_cases:
  "after_send env policy attempt x =
     (if tried_again env policy x \<and> attempt < rp_max_retries policy
      then Inr (case x of
                  Responded response \<Rightarrow>
                    (case parse_retry_after env (hr_headers response) of
                       Some hint \<Rightarrow> min hint (rp_max_retry_delay policy)
                     | None \<Rightarrow> capped_backoff (re_jitter env) policy attempt)
                | _ \<Rightarrow> capped_backoff (re_jitter env) policy attempt)
      else Inl (verdict x))"
  by (simp add: after_send_def tried_again_def verdict_def split: sent.split)

lemma after_send_delay: "after_send env policy attempt x = Inr delay \<Longrightarrow> delay \<le> rp_max_retry_delay policy"
  by (auto simp: after_send_def capped split: sent.splits if_splits option.splits)

lemma send_again_ok:
  assumes "tried_again env policy (sends n)" "n < unat (rp_max_retries policy)" "delay \<le> rp_max_retry_delay policy"
    and "\<not> asleep n" "send_ok env policy sends asleep (Suc n) (result, delays, made)"
  shows "send_ok env policy sends asleep n (result, delay # delays, made)"
proof -
  have "tried_again env policy (sends i) \<and> \<not> asleep i" if "n \<le> i" "i < made - 1" for i
    using that assms by (cases "i = n") (auto simp: send_ok_def)
  then show ?thesis using assms by (auto simp: send_ok_def)
qed

lemma send_loop_ok:
  "attempt \<le> rp_max_retries policy
     \<Longrightarrow> send_ok env policy sends asleep (unat attempt) (send_loop env policy sends asleep attempt)"
proof (induction env policy sends asleep attempt rule: send_loop.induct)
  case (1 env policy sends asleep attempt)
  let ?n = "unat attempt"
  have le: "?n \<le> unat (rp_max_retries policy)" using 1 by (simp add: word_le_nat_alt)
  show ?case
  proof (cases "after_send env policy attempt (sends ?n)")
    case (Inl result)
    then have "result = verdict (sends ?n)" "\<not> (tried_again env policy (sends ?n) \<and> ?n < unat (rp_max_retries policy))"
      by (auto simp: after_send_cases word_less_nat_alt split: if_splits)
    then show ?thesis using Inl le
      by (auto simp: send_loop.simps [of env policy sends asleep attempt] send_ok_def)
  next
    case (Inr delay)
    have less: "attempt < rp_max_retries policy" and again: "tried_again env policy (sends ?n)"
      and d: "delay \<le> rp_max_retry_delay policy"
      using Inr after_send_delay [OF Inr] by (auto simp: after_send_cases split: if_splits)
    then have n: "?n < unat (rp_max_retries policy)" by (simp add: word_less_nat_alt)
    show ?thesis
    proof (cases "asleep ?n")
      case True
      then show ?thesis using Inr again n d
        by (auto simp: send_loop.simps [of env policy sends asleep attempt] send_ok_def)
    next
      case False
      have s: "unat (next_attempt attempt) = Suc ?n" using less by (rule next_attempt_less)
      then have "next_attempt attempt \<le> rp_max_retries policy" using n by (simp add: word_le_nat_alt)
      moreover obtain result delays made where r: "send_loop env policy sends asleep (next_attempt attempt) = (result, delays, made)"
        by (metis prod_cases3)
      ultimately have "send_ok env policy sends asleep (Suc ?n) (result, delays, made)"
        using "1.IH" [OF Inr False] s by simp
      from send_again_ok [OF again n d False this] show ?thesis
        using Inr False r by (simp add: send_loop.simps [of env policy sends asleep attempt])
    qed
  qed
qed

lemma send_with_retry_ok: "send_ok env policy sends asleep 0 (send_with_retry env policy sends asleep)"
  using send_loop_ok [of 0 policy env sends asleep] by (simp add: send_with_retry_def word_le_nat_alt)

lemma sum_list_le: "\<forall>x\<in>set xs. x \<le> (b :: nat) \<Longrightarrow> sum_list xs \<le> length xs * b"
  by (induction xs) auto

text \<open>C25: a request is sent at most once more than the policy's retries, and only outcomes the policy tries again are followed
  by another: a retryable status whose body is no hard quota error, or a transport failure.  The result is the verdict on
  the last request, unless the token is cancelled during a sleep; no sleep is longer than the ceiling, whatever the server
  asks for, and all of them together no longer than the ceiling times the retries.\<close>

theorem request_retries_as_the_policy_says:
  assumes "send_with_retry env policy sends asleep = (result, delays, made)"
  shows "0 < made \<and> made \<le> Suc (unat (rp_max_retries policy))
    \<and> (\<forall>i < made - 1. tried_again env policy (sends i) \<and> \<not> asleep i)
    \<and> (\<forall>d\<in>set delays. d \<le> rp_max_retry_delay policy)
    \<and> sum_list delays \<le> unat (rp_max_retries policy) * rp_max_retry_delay policy
    \<and> (if tried_again env policy (sends (made - 1)) \<and> made \<le> unat (rp_max_retries policy)
       then asleep (made - 1) \<and> result = Inl cancelled_error else result = verdict (sends (made - 1)))"
proof -
  have ok: "send_ok env policy sends asleep 0 (result, delays, made)" using send_with_retry_ok [of env policy sends asleep] assms by simp
  then have "length delays \<le> unat (rp_max_retries policy)" and small: "\<forall>d\<in>set delays. d \<le> rp_max_retry_delay policy"
    by (auto simp: send_ok_def split: if_splits)
  then have "sum_list delays \<le> unat (rp_max_retries policy) * rp_max_retry_delay policy"
    using sum_list_le [OF small] by (meson le_trans mult_le_mono1)
  then show ?thesis using ok by (auto simp: send_ok_def)
qed

definition plain_env :: retry_env where
  "plain_env = \<lparr>re_parse_json = (\<lambda>s. None), re_float_ms = (\<lambda>s. None), re_date_delay = (\<lambda>s. None), re_jitter = (\<lambda>n d. d)\<rparr>"

definition sample_transport :: transport_config where
  "sample_transport = \<lparr>tp_request_max_retries = 2, tp_stream_max_retries = 2, tp_stream_idle_timeout_ms = 0,
     tp_pool_idle_timeout_ms = 0, tp_pool_max_idle_per_host = 1, tp_max_retry_delay_ms = 1000\<rparr>"

definition reply_with :: "nat \<Rightarrow> (string \<times> string) list \<Rightarrow> string \<Rightarrow> sent" where
  "reply_with status headers body =
     Responded \<lparr>hr_status = status, hr_headers = map (map_prod lit lit) headers, hr_body = map of_nat (lit body)\<rparr>"

definition throttled_server :: "nat \<Rightarrow> sent" where
  "throttled_server n =
     [reply_with 429 [(''retry-after'', ''999999'')] ''slow down'', FailedToSend (lit ''reset''),
      reply_with 429 [] ''insufficient_quota''] ! n"

lemma request_retries_as_the_policy_says_witness:
  "send_with_retry plain_env (provider_requests sample_transport) throttled_server (\<lambda>n. False)
     = (verdict (throttled_server 2), [1000000000, 400000000], 3)
   \<and> sum_list [1000000000, 400000000] \<le> (2 :: nat) * 1000000000"
proof -
  have run: "send_with_retry plain_env (provider_requests sample_transport) throttled_server (\<lambda>n. False)
     = (verdict (throttled_server 2), [1000000000, 400000000], 3)"
    by code_simp
  have "rp_max_retries (provider_requests sample_transport) = 2" "rp_max_retry_delay (provider_requests sample_transport) = 1000000000"
    by code_simp+
  with request_retries_as_the_policy_says [OF run] run show ?thesis by simp
qed

section \<open>What the refresh does\<close>

lemma sent_count:
  "send_with_retry env policy sends asleep = (result, delays, n) \<Longrightarrow> n \<le> Suc (unat (rp_max_retries policy))"
  using send_with_retry_ok [of env policy sends asleep] by (simp add: send_ok_def)

text \<open>A credential is refreshed at most once, only after the upstream answered 401 or 403 and only by a source that can rotate
  it; the second pass uses the refreshed key, neither pass sends more than the policy allows, and a rejection is returned only
  by a source that cannot rotate or after the refresh.\<close>

theorem auth_retry_refreshes_once:
  assumes "send_with_auth_retry env source policy sends asleep = (result, uses)"
  shows "length uses \<le> 2 \<and> (\<forall>u\<in>set uses. snd u \<le> Suc (unat (rp_max_retries policy)))
    \<and> (length uses = 2 \<longrightarrow>
         (\<exists>key refreshed response n m. uses = [(key, n), (refreshed, m)]
            \<and> ks_first_key source = Inr key \<and> ks_refreshed_key source = Inr refreshed
            \<and> ks_can_rotate source \<and> ks_invalidate source = None
            \<and> fst (send_with_retry env policy (sends 0 key) (asleep 0)) = Inr response \<and> is_auth_failure (hr_status response)
            \<and> result = fst (send_with_retry env policy (sends 1 refreshed) (asleep 1))))
    \<and> (\<forall>response. result = Inr response \<and> is_auth_failure (hr_status response) \<longrightarrow> \<not> ks_can_rotate source \<or> length uses = 2)"
  using assms sent_count
  by (auto simp: send_with_auth_retry_def split: sum.splits prod.splits if_splits option.splits)

definition rotating_source :: key_source where
  "rotating_source = \<lparr>ks_first_key = Inr (lit ''old''), ks_can_rotate = True, ks_invalidate = None, ks_refreshed_key = Inr (lit ''new'')\<rparr>"

definition picky_server :: "nat \<Rightarrow> str \<Rightarrow> nat \<Rightarrow> sent" where
  "picky_server pass key n = (if key = lit ''new'' then reply_with 200 [] ''ok'' else reply_with 401 [] ''bad key'')"

lemma auth_retry_refreshes_once_witness:
  "send_with_auth_retry plain_env rotating_source (provider_requests sample_transport) picky_server (\<lambda>pass n. False)
     = (verdict (reply_with 200 [] ''ok''), [(lit ''old'', 1), (lit ''new'', 1)])
   \<and> is_auth_failure 401 \<and> ks_can_rotate rotating_source"
proof -
  have run: "send_with_auth_retry plain_env rotating_source (provider_requests sample_transport) picky_server (\<lambda>pass n. False)
     = (verdict (reply_with 200 [] ''ok''), [(lit ''old'', 1), (lit ''new'', 1)])"
    by code_simp
  with auth_retry_refreshes_once [OF run] show ?thesis by (simp add: is_auth_failure_def)
qed

end
