(* ===== verification/ModelLimits.thy ===== *)
theory ModelLimits
  imports ToolResults ContextBudget
begin

text \<open>
  The model registry and the resolution of a model's limits (\<open>crates/squeezy-llm/src/registry.rs\<close>, \<open>limits.rs\<close>,
  \<open>models_dev.rs\<close>, the profiles and efforts of \<open>crates/squeezy-core/src/lib.rs\<close>).  The bundled \<open>models.json\<close> is the list of
  entries it parses to, and the floating-point estimates (tokens of a number of bytes, prices) are parameters.
\<close>

section \<open>Profiles and efforts\<close>

datatype model_profile = Cheap | Balanced | Strong

definition model_profile_parse :: "str \<Rightarrow> model_profile option" where
  "model_profile_parse value =
     (let v = to_lower (trim value)
      in if v = lit ''cheap'' then Some Cheap
         else if one_of v [''balanced'', ''default''] then Some Balanced
         else if v = lit ''strong'' then Some Strong
         else None)"

fun model_profile_as_str :: "model_profile \<Rightarrow> str" where
  "model_profile_as_str Cheap = lit ''cheap''"
| "model_profile_as_str Balanced = lit ''balanced''"
| "model_profile_as_str Strong = lit ''strong''"

interpretation profile_enum: parsed_enum model_profile_parse model_profile_as_str
proof
  show "model_profile_parse (model_profile_as_str x) = Some x" for x
    by (cases x) (simp_all add: model_profile_parse_def enum_eval)
qed (simp add: model_profile_parse_def)

datatype reasoning_effort = LowEffort | MediumEffort | HighEffort | XHighEffort

definition reasoning_effort_parse :: "str \<Rightarrow> reasoning_effort option" where
  "reasoning_effort_parse value =
     (let v = to_lower (trim value)
      in if v = lit ''low'' then Some LowEffort
         else if v = lit ''medium'' then Some MediumEffort
         else if v = lit ''high'' then Some HighEffort
         else if one_of v [''xhigh'', ''x-high'', ''x_high''] then Some XHighEffort
         else None)"

fun reasoning_effort_as_str :: "reasoning_effort \<Rightarrow> str" where
  "reasoning_effort_as_str LowEffort = lit ''low''"
| "reasoning_effort_as_str MediumEffort = lit ''medium''"
| "reasoning_effort_as_str HighEffort = lit ''high''"
| "reasoning_effort_as_str XHighEffort = lit ''xhigh''"

interpretation effort_enum: parsed_enum reasoning_effort_parse reasoning_effort_as_str
proof
  show "reasoning_effort_parse (reasoning_effort_as_str x) = Some x" for x
    by (cases x) (simp_all add: reasoning_effort_parse_def enum_eval)
qed (simp add: reasoning_effort_parse_def)

fun thinking_budget_tokens :: "reasoning_effort \<Rightarrow> u32" where
  "thinking_budget_tokens LowEffort = 4096"
| "thinking_budget_tokens MediumEffort = 16384"
| "thinking_budget_tokens HighEffort = 32768"
| "thinking_budget_tokens XHighEffort = 60000"

text \<open>The derived order of the efforts is that of their declaration.\<close>

fun effort_rank :: "reasoning_effort \<Rightarrow> nat" where
  "effort_rank LowEffort = 0"
| "effort_rank MediumEffort = 1"
| "effort_rank HighEffort = 2"
| "effort_rank XHighEffort = 3"

instantiation reasoning_effort :: linorder
begin

definition less_eq_reasoning_effort :: "reasoning_effort \<Rightarrow> reasoning_effort \<Rightarrow> bool" where
  "less_eq_reasoning_effort a b \<longleftrightarrow> effort_rank a \<le> effort_rank b"

definition less_reasoning_effort :: "reasoning_effort \<Rightarrow> reasoning_effort \<Rightarrow> bool" where
  "less_reasoning_effort a b \<longleftrightarrow> effort_rank a < effort_rank b"

instance
proof
  fix x y z :: reasoning_effort
  show "x < y \<longleftrightarrow> x \<le> y \<and> \<not> y \<le> x" by (auto simp: less_eq_reasoning_effort_def less_reasoning_effort_def)
  show "x \<le> x" by (simp add: less_eq_reasoning_effort_def)
  show "x \<le> y \<Longrightarrow> y \<le> z \<Longrightarrow> x \<le> z" by (simp add: less_eq_reasoning_effort_def)
  show "x \<le> y \<Longrightarrow> y \<le> x \<Longrightarrow> x = y" by (cases x; cases y; simp add: less_eq_reasoning_effort_def)
  show "x \<le> y \<or> y \<le> x" by (auto simp: less_eq_reasoning_effort_def)
qed

end

datatype response_verbosity = ConciseVerbosity | NormalVerbosity | VerboseVerbosity

fun response_verbosity_as_str :: "response_verbosity \<Rightarrow> str" where
  "response_verbosity_as_str ConciseVerbosity = lit ''concise''"
| "response_verbosity_as_str NormalVerbosity = lit ''normal''"
| "response_verbosity_as_str VerboseVerbosity = lit ''verbose''"

section \<open>The registry\<close>

record model_capabilities =
  mc_streaming :: bool
  mc_tool_calling :: bool
  mc_json_mode :: bool
  mc_vision :: bool
  mc_response_state :: bool
  mc_reasoning_tokens :: bool
  mc_reasoning_effort :: bool
  mc_text_verbosity :: bool
  mc_prompt_caching :: bool
  mc_default_reasoning_effort :: "reasoning_effort option"
  mc_thinking_budget_min :: "u32 option"
  mc_thinking_budget_max :: "u32 option"

definition TEXT_TOOLS :: model_capabilities where
  "TEXT_TOOLS = \<lparr>mc_streaming = True, mc_tool_calling = True, mc_json_mode = True, mc_vision = False, mc_response_state = False,
     mc_reasoning_tokens = False, mc_reasoning_effort = False, mc_text_verbosity = False, mc_prompt_caching = False,
     mc_default_reasoning_effort = None, mc_thinking_budget_min = None, mc_thinking_budget_max = None\<rparr>"

datatype tokenizer_kind = OpenAiCompatibleTokenizer | AnthropicTokenizer | GoogleTokenizer | OllamaTokenizer

datatype model_lifecycle = ActiveModel | LocalModel

record model_limits =
  ml_context_window_tokens :: u64
  ml_max_output_tokens :: u64
  ml_effective_context_window_percent :: u8

record model_info =
  mi_provider :: str
  mi_id :: str
  mi_profile :: model_profile
  mi_capabilities :: model_capabilities
  mi_pricing :: "token_pricing option"
  mi_limits :: "model_limits option"
  mi_tokenizer :: tokenizer_kind
  mi_lifecycle :: model_lifecycle
  mi_metadata_source :: str

definition after_slash :: "str \<Rightarrow> str option" where
  "after_slash s = map_option snd (split_once SLASH s)"

definition after_last_slash :: "str \<Rightarrow> str option" where
  "after_last_slash s = map_option snd (rsplit_once SLASH s)"

definition or_else :: "'a option \<Rightarrow> 'a \<Rightarrow> 'a" where
  "or_else x d = (case x of Some v \<Rightarrow> v | None \<Rightarrow> d)"

definition fallback_tokenizer :: "str \<Rightarrow> str \<Rightarrow> tokenizer_kind" where
  "fallback_tokenizer provider model =
     (if one_of provider [''anthropic'', ''bedrock''] then AnthropicTokenizer
      else if provider = lit ''google'' then GoogleTokenizer
      else if provider = lit ''ollama'' then OllamaTokenizer
      else (let lower = to_lower model; id = or_else (after_slash lower) lower
            in if starts_with id (lit ''claude'') then AnthropicTokenizer
               else if starts_with id (lit ''gemini'') then GoogleTokenizer
               else OpenAiCompatibleTokenizer))"

definition fallback_model_info :: "str \<Rightarrow> str \<Rightarrow> model_info" where
  "fallback_model_info provider model =
     \<lparr>mi_provider = provider, mi_id = model, mi_profile = Balanced, mi_capabilities = TEXT_TOOLS\<lparr>mc_json_mode := False\<rparr>,
      mi_pricing = None,
      mi_limits = Some \<lparr>ml_context_window_tokens = 272000, ml_max_output_tokens = 64000, ml_effective_context_window_percent = 95\<rparr>,
      mi_tokenizer = fallback_tokenizer provider model,
      mi_lifecycle = (if provider = lit ''ollama'' then LocalModel else ActiveModel), mi_metadata_source = lit ''fallback''\<rparr>"

definition curated_model_info_for :: "model_info list \<Rightarrow> str \<Rightarrow> str \<Rightarrow> model_info option" where
  "curated_model_info_for registry provider model = find (\<lambda>entry. mi_provider entry = provider \<and> mi_id entry = model) registry"

text \<open>The cache of leaked fallback entries returns what it was filled with, the fallback entry of the same pair.\<close>

definition model_info_for :: "model_info list \<Rightarrow> str \<Rightarrow> str \<Rightarrow> model_info option" where
  "model_info_for registry provider model =
     (case curated_model_info_for registry provider model of
        Some entry \<Rightarrow> Some entry | None \<Rightarrow> Some (fallback_model_info provider model))"

definition capabilities_for :: "model_info list \<Rightarrow> str \<Rightarrow> str \<Rightarrow> model_capabilities option" where
  "capabilities_for registry provider model = map_option mi_capabilities (model_info_for registry provider model)"

definition provider_honors_output_schema :: "model_info list \<Rightarrow> str \<Rightarrow> str \<Rightarrow> bool" where
  "provider_honors_output_schema registry provider model =
     (if one_of provider [''anthropic'', ''bedrock'', ''ollama''] then False
      else (case capabilities_for registry provider model of Some caps \<Rightarrow> mc_json_mode caps | None \<Rightarrow> False))"

definition is_text_model_picker_eligible :: "str \<Rightarrow> str \<Rightarrow> bool" where
  "is_text_model_picker_eligible provider model =
     (provider \<noteq> lit ''xai'' \<or> \<not> starts_with (to_lower (or_else (after_last_slash model) model)) (lit ''grok-imagine''))"

definition models_for_provider :: "model_info list \<Rightarrow> str \<Rightarrow> model_info list" where
  "models_for_provider registry provider =
     filter (\<lambda>m. is_text_model_picker_eligible (mi_provider m) (mi_id m)) (filter (\<lambda>m. mi_provider m = provider) registry)"

section \<open>The models.dev catalog\<close>

record models_dev_model =
  mm_id :: str
  mm_name :: "str option"
  mm_context_window :: "u64 option"
  mm_max_output :: "u64 option"
  mm_input :: "u64 option"
  mm_output :: "u64 option"
  mm_cache_read :: "u64 option"
  mm_cache_write :: "u64 option"
  mm_reasoning :: "bool option"
  mm_tool_call :: "bool option"

record models_dev_provider =
  mp_id :: str
  mp_name :: "str option"
  mp_env :: "str list"
  mp_models :: "models_dev_model list"

record models_dev_catalog =
  mg_fetched_at :: u64
  mg_source_url :: str
  mg_providers :: "models_dev_provider list"

definition is_fresh :: "u64 \<Rightarrow> models_dev_catalog \<Rightarrow> bool" where
  "is_fresh now catalog \<longleftrightarrow> now < saturating_add (mg_fetched_at catalog) (24 * 60 * 60)"

definition json_as_object :: "json \<Rightarrow> (str \<times> json) list option" where
  "json_as_object value = (case value of JObject fields_of \<Rightarrow> Some fields_of | _ \<Rightarrow> None)"

definition parse_model :: "(json \<Rightarrow> u64 option) \<Rightarrow> str \<times> json \<Rightarrow> models_dev_model" where
  "parse_model price_micros entry =
     (let id = fst entry; value = snd entry;
          limit = json_get (lit ''limit'') value; cost = json_get (lit ''cost'') value;
          price = (\<lambda>key. Option.bind (Option.bind cost (json_get (lit key))) price_micros)
      in \<lparr>mm_id = id,
          mm_name = Option.bind (json_get (lit ''name'') value) json_as_str,
          mm_context_window = Option.bind (Option.bind limit (json_get (lit ''context''))) json_as_u64,
          mm_max_output = Option.bind (Option.bind limit (json_get (lit ''output''))) json_as_u64,
          mm_input = price ''input'', mm_output = price ''output'',
          mm_cache_read = price ''cache_read'', mm_cache_write = price ''cache_write'',
          mm_reasoning = Option.bind (json_get (lit ''reasoning'') value) json_as_bool,
          mm_tool_call = Option.bind (json_get (lit ''tool_call'') value) json_as_bool\<rparr>)"

definition parse_provider :: "(json \<Rightarrow> u64 option) \<Rightarrow> str \<times> json \<Rightarrow> models_dev_provider option" where
  "parse_provider price_micros entry =
     (case json_as_object (snd entry) of
        None \<Rightarrow> None
      | Some obj \<Rightarrow> Some
          \<lparr>mp_id = fst entry,
           mp_name = Option.bind (map_of obj (lit ''name'')) json_as_str,
           mp_env = (case Option.bind (map_of obj (lit ''env'')) json_as_array of
                       Some arr \<Rightarrow> List.map_filter json_as_str arr | None \<Rightarrow> []),
           mp_models = (case Option.bind (map_of obj (lit ''models'')) json_as_object of
                          Some models \<Rightarrow> map (parse_model price_micros) models | None \<Rightarrow> [])\<rparr>)"

definition parse_catalog :: "(json \<Rightarrow> u64 option) \<Rightarrow> json \<Rightarrow> models_dev_provider list" where
  "parse_catalog price_micros value =
     (case json_as_object value of None \<Rightarrow> [] | Some obj \<Rightarrow> List.map_filter (parse_provider price_micros) obj)"

record models_dev_limits =
  dl_context_window :: "u64 option"
  dl_max_output :: "u64 option"

type_synonym models_dev_view = "((str \<times> str) \<times> models_dev_limits) list"

text \<open>The index of the view: a later insertion under a key hides an earlier one.\<close>

definition from_catalog :: "models_dev_catalog \<Rightarrow> models_dev_view" where
  "from_catalog catalog =
     fold (\<lambda>p index. fold (\<lambda>m index.
            ((mp_id p, mm_id m), \<lparr>dl_context_window = mm_context_window m, dl_max_output = mm_max_output m\<rparr>) # index) (mp_models p) index)
       (mg_providers catalog) []"

definition models_dev_provider_ids :: "str \<Rightarrow> str list" where
  "models_dev_provider_ids provider =
     (let to = (\<lambda>name ids. if provider = lit name then Some (map lit ids) else None);
          table = [to ''openai'' [''openai''], to ''openai_codex'' [''openai''], to ''github_copilot'' [''github-copilot'', ''openai''],
                   to ''anthropic'' [''anthropic''], to ''google'' [''google''], to ''azure_openai'' [''azure'', ''openai''],
                   to ''bedrock'' [''amazon-bedrock''], to ''ollama'' [''ollama''], to ''openrouter'' [''openrouter''],
                   to ''vercel'' [''vercel''], to ''portkey'' [''portkey''], to ''groq'' [''groq''], to ''xai'' [''xai''],
                   to ''deepseek'' [''deepseek''], to ''vertex'' [''google-vertex'', ''google''], to ''mistral'' [''mistral''],
                   to ''together'' [''togetherai''], to ''fireworks'' [''fireworks-ai''], to ''cerebras'' [''cerebras''],
                   to ''deepinfra'' [''deepinfra''], to ''baseten'' [''baseten''], to ''lmstudio'' [''lmstudio''], to ''vllm'' [''vllm''],
                   to ''llamacpp'' [''llamacpp''], to ''cloudflare_workers_ai'' [''cloudflare-workers-ai''],
                   to ''cloudflare_ai_gateway'' [''cloudflare-ai-gateway'']]
      in case List.map_filter id table of ids # _ \<Rightarrow> ids | [] \<Rightarrow> [])"

definition models_dev_lookup :: "models_dev_view \<Rightarrow> str \<Rightarrow> str \<Rightarrow> models_dev_limits option" where
  "models_dev_lookup view provider model =
     (let candidates = model # (case after_slash model of Some tail \<Rightarrow> [tail] | None \<Rightarrow> []);
          keys = concat (map (\<lambda>p. map (\<lambda>c. (p, c)) candidates) (models_dev_provider_ids provider @ [provider]))
      in case List.map_filter (map_of view) keys of limits # _ \<Rightarrow> Some limits | [] \<Rightarrow> None)"

section \<open>Resolving the limits\<close>

datatype limit_source = UserOverride | ProviderLive | CuratedBundle | ModelsDevCache | ObservedBound | SyntheticFallback

datatype limit_confidence = ExactLimit | HighLimit | MediumLimit | LowLimit

fun confidence :: "limit_source \<Rightarrow> limit_confidence" where
  "confidence UserOverride = ExactLimit"
| "confidence ProviderLive = ExactLimit"
| "confidence ObservedBound = ExactLimit"
| "confidence CuratedBundle = HighLimit"
| "confidence ModelsDevCache = MediumLimit"
| "confidence SyntheticFallback = LowLimit"

definition SYNTHETIC_FALLBACK_CONTEXT_WINDOW :: u64 where "SYNTHETIC_FALLBACK_CONTEXT_WINDOW = 272000"

definition SYNTHETIC_FALLBACK_MAX_OUTPUT :: u64 where "SYNTHETIC_FALLBACK_MAX_OUTPUT = 64000"

definition DEFAULT_BASELINE_RESERVE_TOKENS :: u64 where "DEFAULT_BASELINE_RESERVE_TOKENS = 12000"

record context_limit_input =
  li_provider :: str
  li_model :: str
  li_user_override :: "u64 option"
  li_provider_live_window :: "u64 option"
  li_observed_ceiling :: "u64 option"
  li_models_dev :: "models_dev_view option"
  li_effective_percent_override :: "u8 option"
  li_baseline_reserve_override :: "u64 option"

definition new_limit_input :: "str \<Rightarrow> str \<Rightarrow> context_limit_input" where
  "new_limit_input provider model =
     \<lparr>li_provider = provider, li_model = model, li_user_override = None, li_provider_live_window = None, li_observed_ceiling = None,
      li_models_dev = None, li_effective_percent_override = None, li_baseline_reserve_override = None\<rparr>"

record resolved_limits =
  rl_context_window_tokens :: "u64 option"
  rl_max_output_tokens :: "u64 option"
  rl_effective_context_window_percent :: u8
  rl_baseline_reserve_tokens :: u64
  rl_source :: limit_source
  rl_confidence :: limit_confidence
  rl_observed_ceiling_tokens :: "u64 option"
  rl_models_dev_window_tokens :: "u64 option"

definition curated_limits_of :: "model_info list \<Rightarrow> context_limit_input \<Rightarrow> model_limits option" where
  "curated_limits_of registry input = Option.bind (curated_model_info_for registry (li_provider input) (li_model input)) mi_limits"

definition models_dev_limits_of :: "context_limit_input \<Rightarrow> models_dev_limits option" where
  "models_dev_limits_of input =
     Option.bind (li_models_dev input) (\<lambda>view. models_dev_lookup view (li_provider input) (li_model input))"

definition base_window :: "model_info list \<Rightarrow> context_limit_input \<Rightarrow> u64 option \<times> limit_source" where
  "base_window registry input =
     (case li_user_override input of
        Some w \<Rightarrow> (Some w, UserOverride)
      | None \<Rightarrow>
          (case li_provider_live_window input of
             Some w \<Rightarrow> (Some w, ProviderLive)
           | None \<Rightarrow>
               (case curated_limits_of registry input of
                  Some limits \<Rightarrow> (Some (ml_context_window_tokens limits), CuratedBundle)
                | None \<Rightarrow>
                    (case Option.bind (models_dev_limits_of input) dl_context_window of
                       Some w \<Rightarrow> (Some w, ModelsDevCache)
                     | None \<Rightarrow> (None, SyntheticFallback)))))"

definition clamp_observed :: "u64 option \<Rightarrow> u64 option \<times> limit_source \<Rightarrow> u64 option \<times> limit_source" where
  "clamp_observed observed ws =
     (case observed of
        None \<Rightarrow> ws
      | Some ceiling \<Rightarrow>
          (case fst ws of
             Some current \<Rightarrow> if ceiling < current then (Some ceiling, ObservedBound) else ws
           | None \<Rightarrow> (Some ceiling, ObservedBound)))"

definition resolve_context_limits :: "model_info list \<Rightarrow> context_limit_input \<Rightarrow> resolved_limits" where
  "resolve_context_limits registry input =
     (let curated = curated_limits_of registry input;
          models_dev = models_dev_limits_of input;
          (window, source) = clamp_observed (li_observed_ceiling input) (base_window registry input);
          max_output = (case curated of
                          Some limits \<Rightarrow> ml_max_output_tokens limits
                        | None \<Rightarrow> or_else (Option.bind models_dev dl_max_output) SYNTHETIC_FALLBACK_MAX_OUTPUT);
          percent = (case li_effective_percent_override input of
                       Some p \<Rightarrow> p
                     | None \<Rightarrow> (case curated of Some limits \<Rightarrow> ml_effective_context_window_percent limits | None \<Rightarrow> 95))
      in \<lparr>rl_context_window_tokens = Some (or_else window SYNTHETIC_FALLBACK_CONTEXT_WINDOW),
          rl_max_output_tokens = Some max_output,
          rl_effective_context_window_percent = min (max percent 1) 100,
          rl_baseline_reserve_tokens = or_else (li_baseline_reserve_override input) DEFAULT_BASELINE_RESERVE_TOKENS,
          rl_source = source, rl_confidence = confidence source,
          rl_observed_ceiling_tokens = li_observed_ceiling input,
          rl_models_dev_window_tokens = Option.bind models_dev dl_context_window\<rparr>)"

definition effective_window_tokens :: "resolved_limits \<Rightarrow> u64 option" where
  "effective_window_tokens resolved =
     map_option (\<lambda>window. saturating_sub (saturating_mul window (ucast (rl_effective_context_window_percent resolved)) div 100)
                            (rl_baseline_reserve_tokens resolved))
       (rl_context_window_tokens resolved)"

section \<open>The estimate of a request\<close>

record request_parts =
  rq_instructions :: str
  rq_input :: "llm_item list"
  rq_max_output_tokens :: "u32 option"
  rq_response_verbosity :: "response_verbosity option"
  rq_reasoning_effort :: "reasoning_effort option"
  rq_has_previous_response :: bool
  rq_store :: bool
  rq_tools :: "(str \<times> str \<times> json) list"

text \<open>The floating-point side of an estimate: the tokens of a non-zero number of bytes at the provider's ratio, the tokens of
  the base64 form of an attachment, and the length of a JSON value as text.\<close>

record token_scale =
  ts_byte_tokens :: "nat \<Rightarrow> u64"
  ts_wire_tokens :: "nat \<Rightarrow> u64"
  ts_json_len :: "json \<Rightarrow> nat"

definition estimate_byte_tokens :: "token_scale \<Rightarrow> nat \<Rightarrow> u64" where
  "estimate_byte_tokens ts bytes = (if bytes = 0 then 0 else max (ts_byte_tokens ts bytes) 1)"

definition estimate_text_tokens :: "token_scale \<Rightarrow> str \<Rightarrow> u64" where
  "estimate_text_tokens ts s = estimate_byte_tokens ts (byte_len s)"

definition estimate_json_tokens :: "token_scale \<Rightarrow> json \<Rightarrow> u64" where
  "estimate_json_tokens ts value = estimate_byte_tokens ts (ts_json_len ts value)"

fun estimate_input_item_tokens :: "token_scale \<Rightarrow> llm_item \<Rightarrow> u64" where
  "estimate_input_item_tokens ts (UserText s) = saturating_add (estimate_text_tokens ts s) 8"
| "estimate_input_item_tokens ts (AssistantText s) = saturating_add (estimate_text_tokens ts s) 8"
| "estimate_input_item_tokens ts (FunctionCall call_id name arguments) =
     saturating_add (saturating_add (saturating_add (estimate_text_tokens ts call_id) (estimate_text_tokens ts name))
       (estimate_json_tokens ts arguments)) 12"
| "estimate_input_item_tokens ts (FunctionCallOutput call_id out parts is_error) =
     saturating_add (saturating_add (estimate_text_tokens ts call_id) (estimate_text_tokens ts out)) 12"
| "estimate_input_item_tokens ts (Reasoning payload) = saturating_add (estimate_text_tokens ts (display_text payload)) 8"
| "estimate_input_item_tokens ts (ImageItem media bytes) = saturating_add (ts_wire_tokens ts (length bytes)) 1024"
| "estimate_input_item_tokens ts (DocumentItem name media bytes) = saturating_add (ts_wire_tokens ts (length bytes)) 1024"

definition estimate_request_input_tokens :: "token_scale \<Rightarrow> request_parts \<Rightarrow> u64" where
  "estimate_request_input_tokens ts r =
     (let t = saturating_add (estimate_text_tokens ts (rq_instructions r)) 8;
          t = (case rq_response_verbosity r of
                 Some v \<Rightarrow> saturating_add t (estimate_text_tokens ts (response_verbosity_as_str v) + 4) | None \<Rightarrow> t);
          t = (case rq_reasoning_effort r of
                 Some e \<Rightarrow> saturating_add t (estimate_text_tokens ts (reasoning_effort_as_str e) + 4) | None \<Rightarrow> t);
          t = (if rq_has_previous_response r then saturating_add t 8 else t);
          t = (if rq_store r then saturating_add t 2 else t);
          t = fold (\<lambda>item t. saturating_add t (estimate_input_item_tokens ts item)) (rq_input r) t
      in fold (\<lambda>tool t. case tool of (name, description, parameters) \<Rightarrow>
                 saturating_add (saturating_add (saturating_add (saturating_add t 12) (estimate_text_tokens ts name))
                   (estimate_text_tokens ts description)) (estimate_json_tokens ts parameters))
           (rq_tools r) t)"

record request_estimate =
  re_input_tokens :: u64
  re_context_window_tokens :: "u64 option"
  re_effective_context_window_tokens :: "u64 option"
  re_headroom_tokens :: "u64 option"
  re_max_output_tokens :: "u64 option"
  re_input_budget_tokens :: "u64 option"
  re_remaining_input_tokens :: "u64 option"
  re_used_input_percent_x100 :: "u32 option"
  re_tokenizer :: tokenizer_kind
  re_resolved :: resolved_limits

definition estimate_request_context_full ::
  "model_info list \<Rightarrow> token_scale \<Rightarrow> context_limit_input \<Rightarrow> request_parts \<Rightarrow> request_estimate" where
  "estimate_request_context_full registry ts input request =
     (let tokenizer = (case curated_model_info_for registry (li_provider input) (li_model input) of
                         Some entry \<Rightarrow> mi_tokenizer entry | None \<Rightarrow> fallback_tokenizer (li_provider input) (li_model input));
          input_tokens = estimate_request_input_tokens ts request;
          resolved = resolve_context_limits registry input;
          window = rl_context_window_tokens resolved;
          effective = effective_window_tokens resolved;
          headroom = (case window of None \<Rightarrow> None | Some raw \<Rightarrow> map_option (saturating_sub raw) effective);
          cap = (if rl_source resolved = SyntheticFallback then None else rl_max_output_tokens resolved);
          max_output = map_option (\<lambda>tokens. case cap of Some c \<Rightarrow> min tokens c | None \<Rightarrow> tokens)
            (case rq_max_output_tokens request of Some m \<Rightarrow> Some (ucast m) | None \<Rightarrow> rl_max_output_tokens resolved);
          budget = map_option (\<lambda>w. saturating_sub w (or_zero max_output)) effective;
          remaining = map_option (\<lambda>b. saturating_sub b input_tokens) budget;
          used = (case budget of
                    Some b \<Rightarrow> if 0 < b then Some (ucast (min (saturating_mul input_tokens 10000 div b) 4294967295)) else None
                  | None \<Rightarrow> None)
      in \<lparr>re_input_tokens = input_tokens, re_context_window_tokens = window, re_effective_context_window_tokens = effective,
          re_headroom_tokens = headroom, re_max_output_tokens = max_output, re_input_budget_tokens = budget,
          re_remaining_input_tokens = remaining, re_used_input_percent_x100 = used, re_tokenizer = tokenizer,
          re_resolved = resolved\<rparr>)"

section \<open>What the resolution promises\<close>

text \<open>The layers below the observed ceiling, highest trust first; the first that has a window gives it.\<close>

definition window_layers :: "model_info list \<Rightarrow> context_limit_input \<Rightarrow> (limit_source \<times> u64 option) list" where
  "window_layers registry input =
     [(UserOverride, li_user_override input),
      (ProviderLive, li_provider_live_window input),
      (CuratedBundle, map_option ml_context_window_tokens (curated_limits_of registry input)),
      (ModelsDevCache, Option.bind (models_dev_limits_of input) dl_context_window)]"

fun first_layer :: "(limit_source \<times> u64 option) list \<Rightarrow> u64 option \<times> limit_source" where
  "first_layer [] = (None, SyntheticFallback)"
| "first_layer ((source, Some w) # layers) = (Some w, source)"
| "first_layer ((source, None) # layers) = first_layer layers"

lemma base_window_layers: "base_window registry input = first_layer (window_layers registry input)"
  by (simp add: base_window_def window_layers_def split: option.split)

lemma first_layer_None: "first_layer layers = (None, source) \<Longrightarrow> source = SyntheticFallback"
  by (induction layers rule: first_layer.induct) auto

text \<open>C29: the window of a model is that of the highest layer that has one and the fallback guess otherwise, lowered to an observed
  ceiling; the reported source and confidence are those of the value that is reported, and the usable share is a percentage.\<close>

theorem limits_are_layered:
  "\<exists>w. rl_context_window_tokens (resolve_context_limits registry input) = Some w
     \<and> (case first_layer (window_layers registry input) of
          (Some b, source) \<Rightarrow>
            (case li_observed_ceiling input of
               Some c \<Rightarrow> w = min b c \<and> rl_source (resolve_context_limits registry input) = (if c < b then ObservedBound else source)
             | None \<Rightarrow> w = b \<and> rl_source (resolve_context_limits registry input) = source)
        | (None, source) \<Rightarrow>
            (case li_observed_ceiling input of
               Some c \<Rightarrow> w = c \<and> rl_source (resolve_context_limits registry input) = ObservedBound
             | None \<Rightarrow> w = 272000 \<and> rl_source (resolve_context_limits registry input) = SyntheticFallback))
     \<and> rl_confidence (resolve_context_limits registry input) = confidence (rl_source (resolve_context_limits registry input))
     \<and> 1 \<le> rl_effective_context_window_percent (resolve_context_limits registry input)
     \<and> rl_effective_context_window_percent (resolve_context_limits registry input) \<le> 100"
proof -
  define ws where "ws = clamp_observed (li_observed_ceiling input) (first_layer (window_layers registry input))"
  define r where "r = resolve_context_limits registry input"
  have r: "rl_context_window_tokens r = Some (or_else (fst ws) 272000)" "rl_source r = snd ws" "rl_confidence r = confidence (snd ws)"
    "\<exists>p. rl_effective_context_window_percent r = min (max p 1) 100"
    by (auto simp: r_def ws_def resolve_context_limits_def Let_def base_window_layers SYNTHETIC_FALLBACK_CONTEXT_WINDOW_def split: prod.split)
  from r(4) have p: "1 \<le> rl_effective_context_window_percent r \<and> rl_effective_context_window_percent r \<le> 100"
    by (auto simp: min_def max_def not_le intro: order.trans less_imp_le)
  obtain base source where b: "first_layer (window_layers registry input) = (base, source)" by (cases "first_layer (window_layers registry input)")
  have guess: "base = None \<Longrightarrow> source = SyntheticFallback" using first_layer_None b by blast
  have ws: "ws = clamp_observed (li_observed_ceiling input) (base, source)" by (simp add: ws_def b)
  have window: "case base of
      Some w0 \<Rightarrow> (case li_observed_ceiling input of
          Some c \<Rightarrow> or_else (fst ws) 272000 = min w0 c \<and> snd ws = (if c < w0 then ObservedBound else source)
        | None \<Rightarrow> or_else (fst ws) 272000 = w0 \<and> snd ws = source)
    | None \<Rightarrow> (case li_observed_ceiling input of
          Some c \<Rightarrow> or_else (fst ws) 272000 = c \<and> snd ws = ObservedBound
        | None \<Rightarrow> or_else (fst ws) 272000 = 272000 \<and> snd ws = SyntheticFallback)"
    by (cases base; cases "li_observed_ceiling input") (auto simp: ws clamp_observed_def or_else_def min_def guess)
  show ?thesis unfolding r_def [symmetric] b using window r(1-3) p by (cases base; cases "li_observed_ceiling input") simp_all
qed

lemma effective_at_most_window:
  assumes "rl_context_window_tokens r = Some w" "effective_window_tokens r = Some e" "rl_effective_context_window_percent r \<le> 100"
  shows "unat e \<le> unat w - unat (rl_baseline_reserve_tokens r)"
proof -
  let ?p = "unat (rl_effective_context_window_percent r)"
  have e: "e = saturating_sub (saturating_mul w (ucast (rl_effective_context_window_percent r)) div 100) (rl_baseline_reserve_tokens r)"
    using assms(1,2) by (simp add: effective_window_tokens_def)
  have "?p \<le> 100" using assms(3) by (simp add: word_le_nat_alt)
  then have "min 18446744073709551615 (unat w * ?p) div 100 \<le> unat w" by (rule scaled_le)
  then show ?thesis unfolding e by (simp add: unat_saturating_sub unat_div unat_saturating_mul unat_ucast_u8 diff_le_mono)
qed

lemma percent_at_most_100: "rl_effective_context_window_percent (resolve_context_limits registry input) \<le> 100"
  by (simp add: resolve_context_limits_def Let_def split: prod.split)

lemma window_present: "\<exists>w. rl_context_window_tokens (resolve_context_limits registry input) = Some w"
  by (simp add: resolve_context_limits_def Let_def split: prod.split)

lemma saturating_sub_le: "saturating_sub a b \<le> a"
  by (simp add: word_le_nat_alt unat_saturating_sub)

text \<open>The budgets of an estimate are nested: what remains lies in the input budget, that in the effective window and that in the
  raw window, less the reserve; the headroom is exactly what the effective window leaves out.\<close>

theorem estimate_budgets_nest:
  "\<exists>w e b r. re_context_window_tokens (estimate_request_context_full registry ts input request) = Some w
     \<and> re_effective_context_window_tokens (estimate_request_context_full registry ts input request) = Some e
     \<and> re_input_budget_tokens (estimate_request_context_full registry ts input request) = Some b
     \<and> re_remaining_input_tokens (estimate_request_context_full registry ts input request) = Some r
     \<and> re_headroom_tokens (estimate_request_context_full registry ts input request) = Some (w - e)
     \<and> unat e \<le> unat w - unat (rl_baseline_reserve_tokens (resolve_context_limits registry input))
     \<and> b \<le> e
     \<and> unat r = unat b - unat (estimate_request_input_tokens ts request)"
proof -
  obtain w where w: "rl_context_window_tokens (resolve_context_limits registry input) = Some w" using window_present by blast
  then obtain e where e: "effective_window_tokens (resolve_context_limits registry input) = Some e"
    by (simp add: effective_window_tokens_def)
  have le: "unat e \<le> unat w - unat (rl_baseline_reserve_tokens (resolve_context_limits registry input))"
    by (rule effective_at_most_window [OF w e percent_at_most_100])
  then have "e \<le> w" by (simp add: word_le_nat_alt)
  then show ?thesis using w e le
    by (simp add: estimate_request_context_full_def Let_def saturating_sub_le unat_saturating_sub) (simp add: saturating_sub_def)
qed

text \<open>C40: a model that no catalog knows: the fallback number for the output caps an explicit request as soon as anything else,
  an operator's window or an observed overflow, gives the window; with no window at all the request stands.\<close>

definition unknown_request :: request_parts where
  "unknown_request = \<lparr>rq_instructions = [], rq_input = [], rq_max_output_tokens = Some 128000, rq_response_verbosity = None,
     rq_reasoning_effort = None, rq_has_previous_response = False, rq_store = False, rq_tools = []\<rparr>"

theorem guess_caps_request_once_window_is_known:
  "re_max_output_tokens (estimate_request_context_full [] ts (new_limit_input provider model) unknown_request) = Some 128000
   \<and> re_max_output_tokens (estimate_request_context_full [] ts
        ((new_limit_input provider model)\<lparr>li_user_override := Some 1000000\<rparr>) unknown_request) = Some 64000
   \<and> re_max_output_tokens (estimate_request_context_full [] ts
        ((new_limit_input provider model)\<lparr>li_observed_ceiling := Some 900000\<rparr>) unknown_request) = Some 64000"
  by (simp add: estimate_request_context_full_def resolve_context_limits_def Let_def new_limit_input_def unknown_request_def
      curated_limits_of_def curated_model_info_for_def models_dev_limits_of_def base_window_def clamp_observed_def or_else_def
      SYNTHETIC_FALLBACK_MAX_OUTPUT_def min_def)

end
