(* ===== verification/ModelTiers.thy ===== *)
theory ModelTiers
  imports ModelLimits Policy
begin

text \<open>
  The ladder of models the turn router climbs: tiers, aliases, the resolution of a provider's ladder, the reroute filter and the
  routing configuration (\<open>ModelTier\<close>, \<open>TierLadder\<close>, \<open>RoutingConfig\<close> of \<open>crates/squeezy-core/src/lib.rs\<close>, \<open>cheap_model_for\<close> of
  \<open>crates/squeezy-agent/src/lib.rs\<close>).  The regular expression engine is a parameter.
\<close>

section \<open>Tiers\<close>

datatype model_tier = WeakTier | MediumTier | StrongTier

fun tier_as_str :: "model_tier \<Rightarrow> str" where
  "tier_as_str WeakTier = lit ''weak''"
| "tier_as_str MediumTier = lit ''medium''"
| "tier_as_str StrongTier = lit ''strong''"

fun tier_label :: "model_tier \<Rightarrow> str" where
  "tier_label WeakTier = lit ''cheap''"
| "tier_label MediumTier = lit ''mid''"
| "tier_label StrongTier = lit ''strong''"

fun default_effort :: "model_tier \<Rightarrow> reasoning_effort" where
  "default_effort WeakTier = LowEffort"
| "default_effort MediumTier = MediumEffort"
| "default_effort StrongTier = HighEffort"

definition tier_parse :: "str \<Rightarrow> model_tier option" where
  "tier_parse value =
     (let v = to_lower (trim value)
      in if one_of v [''weak'', ''cheap'', ''low'', ''small'', ''fast''] then Some WeakTier
         else if one_of v [''medium'', ''mid'', ''balanced'', ''moderate''] then Some MediumTier
         else if one_of v [''strong'', ''parent'', ''expensive'', ''high'', ''flagship'', ''best''] then Some StrongTier
         else None)"

interpretation tier_enum: parsed_enum tier_parse tier_as_str
proof
  show "tier_parse (tier_as_str x) = Some x" for x
    by (cases x) (simp_all add: tier_parse_def enum_eval)
qed (simp add: tier_parse_def)

fun tier_rank :: "model_tier \<Rightarrow> nat" where
  "tier_rank WeakTier = 0"
| "tier_rank MediumTier = 1"
| "tier_rank StrongTier = 2"

instantiation model_tier :: linorder
begin

definition less_eq_model_tier :: "model_tier \<Rightarrow> model_tier \<Rightarrow> bool" where
  "less_eq_model_tier a b \<longleftrightarrow> tier_rank a \<le> tier_rank b"

definition less_model_tier :: "model_tier \<Rightarrow> model_tier \<Rightarrow> bool" where
  "less_model_tier a b \<longleftrightarrow> tier_rank a < tier_rank b"

instance
proof
  fix x y z :: model_tier
  show "x < y \<longleftrightarrow> x \<le> y \<and> \<not> y \<le> x" by (auto simp: less_eq_model_tier_def less_model_tier_def)
  show "x \<le> x" by (simp add: less_eq_model_tier_def)
  show "x \<le> y \<Longrightarrow> y \<le> z \<Longrightarrow> x \<le> z" by (simp add: less_eq_model_tier_def)
  show "x \<le> y \<Longrightarrow> y \<le> x \<Longrightarrow> x = y" by (cases x; cases y; simp add: less_eq_model_tier_def)
  show "x \<le> y \<or> y \<le> x" by (auto simp: less_eq_model_tier_def)
qed

end

lemma strong_is_top [simp]: "t \<le> StrongTier" "\<not> StrongTier < t" "t < StrongTier \<longleftrightarrow> t \<noteq> StrongTier"
  "StrongTier \<le> t \<longleftrightarrow> t = StrongTier" "WeakTier \<le> t"
  by (cases t; simp add: less_eq_model_tier_def less_model_tier_def)+

section \<open>Built-in models\<close>

definition small_fast_model_for_provider :: "str \<Rightarrow> str option" where
  "small_fast_model_for_provider provider =
     (if provider = lit ''anthropic'' then Some (lit ''claude-haiku-4-5-20251001'')
      else if provider = lit ''openai'' then Some (lit ''gpt-5.4-nano'')
      else if provider = lit ''google'' then Some (lit ''gemini-2.5-flash-lite'')
      else if provider = lit ''azure_openai'' then Some (lit ''gpt-5.4-nano'')
      else if provider = lit ''bedrock'' then Some (lit ''anthropic.claude-haiku-4-5-20251001-v1:0'')
      else if provider = lit ''openrouter'' then Some (lit ''anthropic/claude-haiku-4-5'')
      else if provider = lit ''vercel'' then Some (lit ''anthropic/claude-haiku-4.5'')
      else if provider = lit ''portkey'' then Some (lit ''anthropic/claude-haiku-4-5'')
      else if provider = lit ''vertex'' then Some (lit ''google/gemini-2.5-flash'')
      else None)"

definition judge_model_for_provider :: "str \<Rightarrow> str option" where
  "judge_model_for_provider provider =
     (if provider = lit ''openai'' then Some (lit ''gpt-5.4-mini'')
      else if provider = lit ''google'' then Some (lit ''gemini-3.5-flash'')
      else if provider = lit ''azure_openai'' then Some (lit ''gpt-5.4-mini'')
      else small_fast_model_for_provider provider)"

definition resolve_model_alias :: "str \<Rightarrow> str \<Rightarrow> str option" where
  "resolve_model_alias provider alias =
     (let normalized = to_lower (trim alias);
          on = (\<lambda>providers names model. if one_of provider providers \<and> one_of normalized names then Some (lit model) else None);
          table =
            [on [''anthropic''] [''opus'', ''best'', ''opus-4.8'', ''opus-4-8''] ''claude-opus-4-8'',
             on [''anthropic''] [''opus-4.7'', ''opus-4-7''] ''claude-opus-4-7'',
             on [''anthropic''] [''sonnet''] ''claude-sonnet-4-6'',
             on [''anthropic''] [''haiku''] ''claude-haiku-4-5-20251001'',
             on [''openai'', ''azure_openai''] [''opus''] ''gpt-5.5'',
             on [''openai'', ''azure_openai''] [''sonnet''] ''gpt-5.4-mini'',
             on [''openai'', ''azure_openai''] [''haiku''] ''gpt-5.4-nano'',
             on [''openai'', ''azure_openai''] [''best''] ''gpt-5.5'',
             on [''bedrock''] [''opus'', ''best'', ''opus-4.8'', ''opus-4-8''] ''anthropic.claude-opus-4-8'',
             on [''bedrock''] [''sonnet''] ''anthropic.claude-sonnet-4-6'',
             on [''bedrock''] [''haiku''] ''anthropic.claude-haiku-4-5-20251001-v1:0'',
             on [''openrouter''] [''opus'', ''best'', ''opus-4.8'', ''opus-4-8''] ''anthropic/claude-opus-4.8'',
             on [''openrouter''] [''opus-4.7'', ''opus-4-7''] ''anthropic/claude-opus-4-7'',
             on [''openrouter''] [''sonnet''] ''anthropic/claude-sonnet-4.6'',
             on [''vercel''] [''opus'', ''best'', ''opus-4.8'', ''opus-4-8''] ''anthropic/claude-opus-4.8'',
             on [''vercel''] [''opus-4.7'', ''opus-4-7''] ''anthropic/claude-opus-4.7'',
             on [''vercel''] [''sonnet''] ''anthropic/claude-sonnet-4.6'',
             on [''portkey''] [''opus'', ''best'', ''opus-4.8'', ''opus-4-8''] ''anthropic/claude-opus-4-8'',
             on [''portkey''] [''opus-4.7'', ''opus-4-7''] ''anthropic/claude-opus-4-7'',
             on [''portkey''] [''sonnet''] ''anthropic/claude-sonnet-4-6'',
             on [''cloudflare_workers_ai'', ''cloudflare_ai_gateway''] [''opus-4.8'', ''opus-4-8''] ''anthropic/claude-opus-4.8'',
             on [''google''] [''opus'', ''best''] ''gemini-2.5-pro'',
             on [''google''] [''sonnet''] ''gemini-3.5-flash'',
             on [''google''] [''haiku''] ''gemini-2.5-flash-lite'']
      in case List.map_filter id table of model # _ \<Rightarrow> Some model | [] \<Rightarrow> None)"

definition medium_model_for_provider :: "str \<Rightarrow> str option" where
  "medium_model_for_provider provider = resolve_model_alias provider (lit ''sonnet'')"

section \<open>The configuration\<close>

datatype cache_isolation = SwitchModel | IsolateSubagent | AutoIsolation

definition cache_isolation_parse :: "str \<Rightarrow> cache_isolation option" where
  "cache_isolation_parse value =
     (let v = to_lower (trim value)
      in if v = lit ''switch'' then Some SwitchModel
         else if v = lit ''subagent'' then Some IsolateSubagent
         else if v = lit ''auto'' then Some AutoIsolation
         else None)"

fun cache_isolation_as_str :: "cache_isolation \<Rightarrow> str" where
  "cache_isolation_as_str SwitchModel = lit ''switch''"
| "cache_isolation_as_str IsolateSubagent = lit ''subagent''"
| "cache_isolation_as_str AutoIsolation = lit ''auto''"

interpretation isolation_enum: parsed_enum cache_isolation_parse cache_isolation_as_str
proof
  show "cache_isolation_parse (cache_isolation_as_str x) = Some x" for x
    by (cases x) (simp_all add: cache_isolation_parse_def enum_eval)
qed (simp add: cache_isolation_parse_def)

record routing_config =
  rc_enabled :: bool
  rc_heuristic :: bool
  rc_llm_judge :: bool
  rc_follow_up_max_chars :: u32
  rc_judge_prompt :: "str option"
  rc_expensive_models :: str
  rc_cheap_escalation_tool_calls :: u64
  rc_cheap_escalation_error_threshold :: u8
  rc_escalation_sticky_turns :: u8
  rc_bypass_for_images :: bool
  rc_large_attachment_bypass_bytes :: u32
  rc_heuristic_max_chars :: u32
  rc_judge_max_chars :: u32
  rc_judge_model :: "str option"
  rc_extra_heuristic_verbs :: "str list"
  rc_linux_sandbox_sensitive_parent :: bool
  rc_cache_isolation :: cache_isolation
  rc_auto_prefix_token_threshold :: u64
  rc_tier_effort :: bool
  rc_effort_weak :: "reasoning_effort option"
  rc_effort_medium :: "reasoning_effort option"
  rc_effort_strong :: "reasoning_effort option"
  rc_judge_effort :: bool

record routing_settings =
  rs_enabled :: "bool option"
  rs_heuristic :: "bool option"
  rs_llm_judge :: "bool option"
  rs_follow_up_max_chars :: "u32 option"
  rs_judge_prompt :: "str option"
  rs_expensive_models :: "str option"
  rs_cheap_escalation_tool_calls :: "u64 option"
  rs_cheap_escalation_error_threshold :: "u8 option"
  rs_escalation_sticky_turns :: "u8 option"
  rs_bypass_for_images :: "bool option"
  rs_large_attachment_bypass_bytes :: "u32 option"
  rs_heuristic_max_chars :: "u32 option"
  rs_judge_max_chars :: "u32 option"
  rs_judge_model :: "str option"
  rs_extra_heuristic_verbs :: "str list option"
  rs_linux_sandbox_sensitive_parent :: "bool option"
  rs_cache_isolation :: "cache_isolation option"
  rs_auto_prefix_token_threshold :: "u64 option"
  rs_tier_effort :: "bool option"
  rs_effort_weak :: "reasoning_effort option"
  rs_effort_medium :: "reasoning_effort option"
  rs_effort_strong :: "reasoning_effort option"
  rs_judge_effort :: "bool option"

definition effort_for_tier :: "routing_config \<Rightarrow> model_tier \<Rightarrow> reasoning_effort option" where
  "effort_for_tier cfg tier =
     (case tier of WeakTier \<Rightarrow> rc_effort_weak cfg | MediumTier \<Rightarrow> rc_effort_medium cfg | StrongTier \<Rightarrow> rc_effort_strong cfg)"

definition resolved_cheap_escalation_tool_calls :: "routing_config \<Rightarrow> u64 \<Rightarrow> u64" where
  "resolved_cheap_escalation_tool_calls cfg max_tool_calls_per_turn =
     (if 0 < rc_cheap_escalation_tool_calls cfg then rc_cheap_escalation_tool_calls cfg
      else max (max_tool_calls_per_turn div 4) 1)"

text \<open>\<open>str::parse\<close> at a narrower width.\<close>

definition parse_width_32 :: "str \<Rightarrow> u32 option" where
  "parse_width_32 s = (case parse_u64_digits s of Some v \<Rightarrow> if v < 4294967296 then Some (ucast v) else None | None \<Rightarrow> None)"

definition parse_width_8 :: "str \<Rightarrow> u8 option" where
  "parse_width_8 s = (case parse_u64_digits s of Some v \<Rightarrow> if v < 256 then Some (ucast v) else None | None \<Rightarrow> None)"

text \<open>An environment variable, then the settings, then the default.\<close>

definition env_bool :: "(str \<Rightarrow> str option) \<Rightarrow> string \<Rightarrow> bool option \<Rightarrow> bool \<Rightarrow> bool" where
  "env_bool get_var key setting d =
     (case get_var (lit key) of Some v \<Rightarrow> parse_enabled_bool v | None \<Rightarrow> or_else setting d)"

definition env_parsed :: "(str \<Rightarrow> 'a option) \<Rightarrow> (str \<Rightarrow> str option) \<Rightarrow> string \<Rightarrow> 'a option \<Rightarrow> 'a option" where
  "env_parsed parse get_var key setting =
     (case Option.bind (get_var (lit key)) parse of Some v \<Rightarrow> Some v | None \<Rightarrow> setting)"

definition env_str :: "(str \<Rightarrow> str option) \<Rightarrow> string \<Rightarrow> str option \<Rightarrow> str option" where
  "env_str get_var key setting = (case get_var (lit key) of Some v \<Rightarrow> Some v | None \<Rightarrow> setting)"

definition routing_from_settings_and_env :: "routing_settings \<Rightarrow> (str \<Rightarrow> str option) \<Rightarrow> routing_config" where
  "routing_from_settings_and_env s get_var =
     \<lparr>rc_enabled = env_bool get_var ''SQUEEZY_ROUTING_ENABLED'' (rs_enabled s) True,
      rc_heuristic = env_bool get_var ''SQUEEZY_ROUTING_HEURISTIC'' (rs_heuristic s) True,
      rc_llm_judge = env_bool get_var ''SQUEEZY_ROUTING_LLM_JUDGE'' (rs_llm_judge s) True,
      rc_follow_up_max_chars = or_else (env_parsed parse_width_32 get_var ''SQUEEZY_ROUTING_FOLLOW_UP_MAX_CHARS'' (rs_follow_up_max_chars s)) 24,
      rc_judge_prompt = env_str get_var ''SQUEEZY_ROUTING_JUDGE_PROMPT'' (rs_judge_prompt s),
      rc_expensive_models = or_else (env_str get_var ''SQUEEZY_ROUTING_EXPENSIVE_MODELS'' (rs_expensive_models s)) [],
      rc_cheap_escalation_tool_calls =
        (case Option.bind (get_var (lit ''SQUEEZY_ROUTING_CHEAP_ESCALATION_TOOL_CALLS'')) parse_u64_digits of
           Some v \<Rightarrow> if 0 < v then v else or_else (rs_cheap_escalation_tool_calls s) 0
         | None \<Rightarrow> or_else (rs_cheap_escalation_tool_calls s) 0),
      rc_cheap_escalation_error_threshold =
        or_else (env_parsed parse_width_8 get_var ''SQUEEZY_ROUTING_CHEAP_ESCALATION_ERROR_THRESHOLD'' (rs_cheap_escalation_error_threshold s)) 2,
      rc_escalation_sticky_turns =
        or_else (env_parsed parse_width_8 get_var ''SQUEEZY_ROUTING_ESCALATION_STICKY_TURNS'' (rs_escalation_sticky_turns s)) 3,
      rc_bypass_for_images = env_bool get_var ''SQUEEZY_ROUTING_BYPASS_FOR_IMAGES'' (rs_bypass_for_images s) True,
      rc_large_attachment_bypass_bytes =
        or_else (env_parsed parse_width_32 get_var ''SQUEEZY_ROUTING_LARGE_ATTACHMENT_BYPASS_BYTES'' (rs_large_attachment_bypass_bytes s)) 4096,
      rc_heuristic_max_chars = or_else (env_parsed parse_width_32 get_var ''SQUEEZY_ROUTING_HEURISTIC_MAX_CHARS'' (rs_heuristic_max_chars s)) 2000,
      rc_judge_max_chars = or_else (env_parsed parse_width_32 get_var ''SQUEEZY_ROUTING_JUDGE_MAX_CHARS'' (rs_judge_max_chars s)) 6000,
      rc_judge_model = env_str get_var ''SQUEEZY_ROUTING_JUDGE_MODEL'' (rs_judge_model s),
      rc_extra_heuristic_verbs =
        or_else (case get_var (lit ''SQUEEZY_ROUTING_EXTRA_HEURISTIC_VERBS'') of
                   Some raw \<Rightarrow> Some (filter (\<lambda>v. v \<noteq> []) (map trim (split_on (\<lambda>c. c = COMMA) raw)))
                 | None \<Rightarrow> rs_extra_heuristic_verbs s) [],
      rc_linux_sandbox_sensitive_parent =
        env_bool get_var ''SQUEEZY_ROUTING_LINUX_SANDBOX_SENSITIVE_PARENT'' (rs_linux_sandbox_sensitive_parent s) True,
      rc_cache_isolation =
        or_else (env_parsed cache_isolation_parse get_var ''SQUEEZY_ROUTING_CACHE_ISOLATION'' (rs_cache_isolation s)) AutoIsolation,
      rc_auto_prefix_token_threshold =
        or_else (env_parsed parse_u64_digits get_var ''SQUEEZY_ROUTING_AUTO_PREFIX_TOKEN_THRESHOLD'' (rs_auto_prefix_token_threshold s)) 8000,
      rc_tier_effort = env_bool get_var ''SQUEEZY_ROUTING_TIER_EFFORT'' (rs_tier_effort s) True,
      rc_effort_weak = env_parsed reasoning_effort_parse get_var ''SQUEEZY_ROUTING_EFFORT_WEAK'' (rs_effort_weak s),
      rc_effort_medium = env_parsed reasoning_effort_parse get_var ''SQUEEZY_ROUTING_EFFORT_MEDIUM'' (rs_effort_medium s),
      rc_effort_strong = env_parsed reasoning_effort_parse get_var ''SQUEEZY_ROUTING_EFFORT_STRONG'' (rs_effort_strong s),
      rc_judge_effort = env_bool get_var ''SQUEEZY_ROUTING_JUDGE_EFFORT'' (rs_judge_effort s) False\<rparr>"

section \<open>The ladder\<close>

text \<open>What the router reads of a \<open>[providers.<name>]\<close> table and of the configuration.\<close>

record provider_settings =
  ps_cheap_model :: "str option"
  ps_medium_model :: "str option"
  ps_judge_model :: "str option"
  ps_judge_prompt :: "str option"
  ps_expensive_models :: "str option"

record router_config =
  ac_routing :: routing_config
  ac_providers :: "(str \<times> provider_settings) list"
  ac_small_fast_model :: "str option"

definition provider_setting :: "router_config \<Rightarrow> str \<Rightarrow> (provider_settings \<Rightarrow> str option) \<Rightarrow> str option" where
  "provider_setting config provider get = Option.bind (map_of (ac_providers config) provider) get"

definition present :: "str option \<Rightarrow> str option" where
  "present m = (case m of Some v \<Rightarrow> if trim v = [] then None else Some v | None \<Rightarrow> None)"

definition resolve_model_alias_owned :: "str \<Rightarrow> str \<Rightarrow> str" where
  "resolve_model_alias_owned provider model = or_else (resolve_model_alias provider model) model"

definition cheap_model_for :: "str \<Rightarrow> router_config \<Rightarrow> str option" where
  "cheap_model_for provider config =
     (case present (provider_setting config provider ps_cheap_model) of
        Some m \<Rightarrow> Some (resolve_model_alias_owned provider m)
      | None \<Rightarrow>
          (case ac_small_fast_model config of
             Some m \<Rightarrow> Some (resolve_model_alias_owned provider m)
           | None \<Rightarrow>
               (case judge_model_for_provider provider of
                  Some m \<Rightarrow> Some (resolve_model_alias_owned provider m)
                | None \<Rightarrow> if provider = lit ''ollama'' then Some (lit ''qwen3-coder'') else None)))"

type_synonym tier_ladder = "(model_tier \<times> str) list"

definition ladder_resolve :: "router_config \<Rightarrow> str \<Rightarrow> str option \<Rightarrow> str \<Rightarrow> tier_ladder" where
  "ladder_resolve config provider weak strong =
     (let weak = (case weak of Some w \<Rightarrow> if w \<noteq> strong then Some w else None | None \<Rightarrow> None);
          configured = map_option (resolve_model_alias_owned provider) (present (provider_setting config provider ps_medium_model));
          medium = (case configured of Some m \<Rightarrow> Some m | None \<Rightarrow> medium_model_for_provider provider);
          medium = (case medium of Some m \<Rightarrow> if m \<noteq> strong \<and> weak \<noteq> Some m then Some m else None | None \<Rightarrow> None)
      in (case weak of Some w \<Rightarrow> [(WeakTier, w)] | None \<Rightarrow> [])
         @ (case medium of Some m \<Rightarrow> [(MediumTier, m)] | None \<Rightarrow> []) @ [(StrongTier, strong)])"

definition can_reroute :: "tier_ladder \<Rightarrow> bool" where
  "can_reroute ladder \<longleftrightarrow> 1 < length ladder"

definition model_for :: "tier_ladder \<Rightarrow> model_tier \<Rightarrow> str option" where
  "model_for ladder tier = map_of ladder tier"

definition strong_model :: "tier_ladder \<Rightarrow> str" where
  "strong_model ladder = snd (last ladder)"

definition weakest :: "tier_ladder \<Rightarrow> model_tier \<times> str" where
  "weakest ladder = hd ladder"

definition tier_of :: "tier_ladder \<Rightarrow> str \<Rightarrow> model_tier option" where
  "tier_of ladder model = map_option fst (find (\<lambda>r. snd r = model) ladder)"

definition next_up :: "tier_ladder \<Rightarrow> model_tier \<Rightarrow> (model_tier \<times> str) option" where
  "next_up ladder tier = find (\<lambda>r. tier < fst r) ladder"

definition at_least :: "tier_ladder \<Rightarrow> model_tier \<Rightarrow> model_tier \<times> str" where
  "at_least ladder floor = (case find (\<lambda>r. floor \<le> fst r) ladder of Some r \<Rightarrow> r | None \<Rightarrow> last ladder)"

section \<open>The reroute filter\<close>

definition default_reroute_filter :: "str \<Rightarrow> str" where
  "default_reroute_filter provider =
     (if one_of provider [''openai'', ''azure_openai''] then lit ''(?i)^(?!.*(nano|mini)).*''
      else if one_of provider [''anthropic'', ''bedrock''] then lit ''(?i)^(?!.*haiku).*''
      else if one_of provider [''google'', ''vertex''] then lit ''(?i)^(?!.*flash).*''
      else lit ''(?i)^(?!.*(-nano|-mini|-haiku|-flash|-lite)).*'')"

text \<open>The regular expression engine: a pattern, \<open>None\<close> when it is invalid, matches a text, \<open>None\<close> beyond the backtracking
  limit.  \<open>str::to_lowercase\<close> beside it, which is not confined to ASCII.\<close>

record regex_env =
  rx_compile :: "str \<Rightarrow> (str \<Rightarrow> bool option) option"
  rx_lowercase :: "str \<Rightarrow> str"

definition parent_is_reroute_eligible :: "regex_env \<Rightarrow> str \<Rightarrow> str \<Rightarrow> bool" where
  "parent_is_reroute_eligible rx parent filter_text =
     (let pattern = trim filter_text
      in if pattern = [] then True
         else (case rx_compile rx pattern of
                 Some matches \<Rightarrow> or_else (matches parent) False
               | None \<Rightarrow> contains (rx_lowercase rx parent) (rx_lowercase rx pattern)))"

definition resolved_reroute_filter :: "router_config \<Rightarrow> str \<Rightarrow> str" where
  "resolved_reroute_filter config provider =
     (case provider_setting config provider ps_expensive_models of
        Some f \<Rightarrow> f
      | None \<Rightarrow> if rc_expensive_models (ac_routing config) \<noteq> [] then rc_expensive_models (ac_routing config)
                else default_reroute_filter provider)"

section \<open>What a ladder promises\<close>

text \<open>Tiers strictly rising, no model twice, the strong rung last.\<close>

definition ladder_ok :: "str \<Rightarrow> tier_ladder \<Rightarrow> bool" where
  "ladder_ok strong ladder \<longleftrightarrow>
     sorted_wrt (<) (map fst ladder) \<and> distinct (map snd ladder) \<and> ladder \<noteq> [] \<and> last ladder = (StrongTier, strong)"

lemma ladder_resolve_ok: "ladder_ok strong (ladder_resolve config provider weak strong)"
  by (auto simp: ladder_resolve_def ladder_ok_def Let_def less_model_tier_def split: option.split)

lemma ladder_cases:
  assumes "ladder_ok strong ladder"
  obtains (one) "ladder = [(StrongTier, strong)]"
    | (two) t m where "ladder = [(t, m), (StrongTier, strong)]" "t < StrongTier" "m \<noteq> strong"
    | (three) w m where "ladder = [(WeakTier, w), (MediumTier, m), (StrongTier, strong)]" "w \<noteq> m" "w \<noteq> strong" "m \<noteq> strong"
proof -
  obtain front where f: "ladder = front @ [(StrongTier, strong)]"
    using assms unfolding ladder_ok_def by (metis append_butlast_last_id)
  have sorted: "sorted_wrt (<) (map fst front @ [StrongTier])" and d: "distinct (map snd front @ [strong])"
    using assms f by (simp_all add: ladder_ok_def)
  consider "front = []" | a where "front = [a]" | a b rest where "front = a # b # rest"
    by (metis list.exhaust)
  then show thesis
  proof cases
    case 1
    then show ?thesis using f one by simp
  next
    case (2 a)
    then show ?thesis using f two [of "fst a" "snd a"] sorted d by simp
  next
    case (3 a b rest)
    have chain: "fst a < fst b" "fst b < StrongTier" "\<And>x. x \<in> set rest \<Longrightarrow> fst b < fst x \<and> fst x < StrongTier"
      using sorted 3 by (auto simp: sorted_wrt_append)
    have tiers: "fst a = WeakTier" "fst b = MediumTier"
      using chain(1,2) by (cases "fst a"; cases "fst b"; simp add: less_model_tier_def)+
    have "rest = []"
    proof (rule ccontr)
      assume "rest \<noteq> []"
      then obtain x where "x \<in> set rest" by (meson list.set_sel(1))
      then have "fst b < fst x" "fst x < StrongTier" using chain(3) by blast+
      then show False using tiers by (cases "fst x") (simp_all add: less_model_tier_def)
    qed
    then show ?thesis using 3 f tiers d three [of "snd a" "snd b"] by (cases a; cases b) auto
  qed
qed

end
