(* ===== verification/TurnRouter.thy ===== *)
theory TurnRouter
  imports ModelTiers LlmEvents CostBroker ContextBudget
begin

text \<open>
  The cheap-model fast path (\<open>crates/squeezy-agent/src/turn_router.rs\<close>): the heuristic on the prompt, the judge call, the
  classification of a turn, the sticky window, and the detector that hands a struggling turn to a stronger model.  The provider's
  stream, the JSON reader, the regular expressions, the prices and the built-in prompt texts are parameters.
\<close>

section \<open>Decisions\<close>

datatype cheap_reason = HeuristicSlamDunk str | ExtraVerb str | LlmJudge | UserExplicit

datatype escalation_reason = ToolCallCeiling | ErrorThreshold | RefusalPhrase | ProviderFailure | ToolDiversity

datatype routing_decision = ParentTurn | CheapTurn cheap_reason model_tier str

definition is_cheap :: "routing_decision \<Rightarrow> bool" where
  "is_cheap d = (case d of CheapTurn reason tier model \<Rightarrow> True | ParentTurn \<Rightarrow> False)"

definition decision_tier :: "routing_decision \<Rightarrow> model_tier" where
  "decision_tier d = (case d of CheapTurn reason tier model \<Rightarrow> tier | ParentTurn \<Rightarrow> StrongTier)"

record routing_override =
  ro_force_cheap :: bool
  ro_force_parent :: bool
  ro_session_disabled :: bool

text \<open>The sticky window: \<open>engage\<close>, and \<open>tick\<close> with whether the turn must use the parent.\<close>

definition sticky_engage :: "u8 \<Rightarrow> u8 \<Rightarrow> u8" where
  "sticky_engage sticky_turns remaining = max remaining sticky_turns"

definition sticky_tick :: "u8 \<Rightarrow> bool \<times> u8" where
  "sticky_tick remaining = (if remaining = 0 then (False, remaining) else (True, remaining - 1))"

section \<open>The heuristic\<close>

definition HEURISTIC_VERBS :: "str list" where
  "HEURISTIC_VERBS =
     map lit [''checkout'', ''rename'', ''run'', ''ls'', ''cat'', ''grep'', ''format'', ''fmt'', ''lint'', ''fetch'', ''stash'', ''tag'']"

definition SENSITIVE_SUBSTRINGS :: "str list" where
  "SENSITIVE_SUBSTRINGS =
     map lit [''/proc'', ''/sys'', ''apt-get'', ''network namespace'', ''kernel policy'', ''user namespace'', ''pivot_root'', ''overlayfs'']"

definition SENSITIVE_WORDS :: "str list" where
  "SENSITIVE_WORDS =
     map lit [''unshare'', ''landlock'', ''seccomp'', ''sudo'', ''systemd'', ''docker'', ''podman'', ''pacman'', ''zypper'', ''netns'',
              ''cgroup'', ''nsenter'', ''chroot'', ''containerd'', ''rootless'', ''userns'', ''apt'', ''yum'', ''dnf'', ''apk'']"

definition is_word_char :: "uchar \<Rightarrow> bool" where
  "is_word_char c \<longleftrightarrow> is_alnum c \<or> c = DASH \<or> c = UNDERSCORE"

definition normalized_words :: "str \<Rightarrow> str list" where
  "normalized_words lower = filter (\<lambda>w. w \<noteq> []) (split_on (\<lambda>c. \<not> is_word_char c) lower)"

definition is_linux_sandbox_sensitive :: "str \<Rightarrow> bool" where
  "is_linux_sandbox_sensitive user_input =
     (let lower = to_lower user_input
      in list_ex (contains lower) SENSITIVE_SUBSTRINGS \<or> list_ex (\<lambda>term. term \<in> set (normalized_words lower)) SENSITIVE_WORDS)"

definition AMBIGUITY_MARKERS :: "str list" where
  "AMBIGUITY_MARKERS =
     map lit [''maybe'', ''figure out'', ''decide'', ''design'', ''refactor across'', ''should i'', ''should we'', ''what if'',
              ''think about'', ''let me know'', ''investigate'', ''explore'', ''research'', ''legacy'', ''across the'', ''any test'',
              ''any tests'', ''any file'', ''any files'', ''the one that'', ''carefully'', ''thoroughly'', ''safely'',
              ''without breaking'', ''be careful'', ''make sure not'']"

definition LEADING_FILLER :: "str list" where
  "LEADING_FILLER =
     map lit [''please'', ''can'', ''could'', ''would'', ''you'', ''kindly'', ''now'', ''just'', ''quick'', ''quickly'', ''hey'', ''hi'', ''hello'']"

fun has_window :: "str list \<Rightarrow> str list \<Rightarrow> bool" where
  "has_window pattern [] = (pattern = [])"
| "has_window pattern (w # ws) = (take (length pattern) (w # ws) = pattern \<or> has_window pattern ws)"

definition has_compound_signal :: "str \<Rightarrow> bool" where
  "has_compound_signal lower =
     (let words = normalized_words lower
      in words \<noteq> []
         \<and> (lit ''then'' \<in> set words \<or> SEMI \<in> set lower
            \<or> list_ex (\<lambda>p. has_window (map lit p) words)
                [[''and'', ''check''], [''and'', ''update''], [''and'', ''verify''], [''and'', ''confirm''], [''and'', ''ensure''],
                 [''and'', ''make'', ''sure'']]))"

definition period_is_abbreviation :: "str \<Rightarrow> bool" where
  "period_is_abbreviation up_to_period = list_ex (\<lambda>abbr. ends_with (to_lower up_to_period) (lit abbr)) [''e.g.'', ''i.e.'', ''etc.'']"

definition is_upper :: "uchar \<Rightarrow> bool" where
  "is_upper c \<longleftrightarrow> 65 \<le> c \<and> c \<le> 90"

definition is_terminator :: "uchar \<Rightarrow> bool" where
  "is_terminator c \<longleftrightarrow> c = DOT \<or> c = 33 \<or> c = QMARK"

fun sentence_ends :: "str \<Rightarrow> str \<Rightarrow> nat" where
  "sentence_ends seen [] = 0"
| "sentence_ends seen (c # rest) =
     (let next_is_uppercase = (case dropWhile is_ws rest of d # _ \<Rightarrow> is_upper d | [] \<Rightarrow> False);
          counted = (if is_terminator c
                     then (if c = DOT \<and> period_is_abbreviation (seen @ [c]) \<and> \<not> next_is_uppercase then 0
                           else (case rest of d # _ \<Rightarrow> if is_ws d \<or> is_upper d then 1 else 0 | [] \<Rightarrow> 1))
                     else 0)
      in counted + sentence_ends (seen @ [c]) rest)"

definition count_sentences :: "str \<Rightarrow> nat" where
  "count_sentences s =
     (let trimmed = trim s
      in if trimmed = [] then 0
         else (let sentences = sentence_ends [] trimmed
               in if sentences = 0 then 1 else if is_terminator (last trimmed) then sentences else sentences + 1))"

definition heuristic_words :: "str \<Rightarrow> str list" where
  "heuristic_words lower = filter (\<lambda>w. w \<noteq> []) (split_on (\<lambda>c. \<not> (is_alpha c \<or> c = DASH)) lower)"

definition heuristic_slam_dunk :: "str \<Rightarrow> routing_config \<Rightarrow> cheap_reason option" where
  "heuristic_slam_dunk user_input cfg =
     (let trimmed = trim user_input; lower = to_lower trimmed
      in if trimmed = [] then None
         else if rc_heuristic_max_chars cfg < of_nat (length trimmed) then None
         else if contains trimmed [NL, NL] then None
         else if list_ex (contains lower) AMBIGUITY_MARKERS then None
         else if has_compound_signal lower then None
         else if 15 < length (normalized_words lower) then None
         else if 1 < count_sentences trimmed then None
         else (case dropWhile (\<lambda>w. w \<in> set LEADING_FILLER) (heuristic_words lower) of
                 [] \<Rightarrow> None
               | first # _ \<Rightarrow>
                   if first \<in> set HEURISTIC_VERBS then Some (HeuristicSlamDunk first)
                   else if list_ex (\<lambda>extra. eq_ignore_case extra first) (rc_extra_heuristic_verbs cfg) then Some (ExtraVerb first)
                   else None))"

section \<open>Refusals\<close>

definition REFUSAL_PHRASES :: "str list" where
  "REFUSAL_PHRASES =
     [lit ''i'' @ SQUOTE # lit ''m not sure'', lit ''i am not sure'', lit ''i need more context'', lit ''need more context'',
      lit ''i don'' @ SQUOTE # lit ''t have enough context'', lit ''i do not have enough context'', lit ''i cannot proceed'',
      lit ''i can'' @ SQUOTE # lit ''t proceed'']"

definition REFUSAL_TAIL_CHARS :: nat where "REFUSAL_TAIL_CHARS = 96"

definition clause_start :: "str \<Rightarrow> bool" where
  "clause_start before =
     (case find (\<lambda>c. \<not> is_ws c) (rev before) of
        None \<Rightarrow> True
      | Some c \<Rightarrow> c \<in> {DOT, 33, QMARK, NL, CR, COLON, SEMI, COMMA})"

function clause_scan :: "str \<Rightarrow> str \<Rightarrow> str \<Rightarrow> bool" where
  "clause_scan phrase before rest =
     (if phrase = [] then True
      else (case find_str rest phrase of
              None \<Rightarrow> False
            | Some offset \<Rightarrow>
                clause_start (before @ take offset rest)
                \<or> clause_scan phrase (before @ take (offset + length phrase) rest) (drop (offset + length phrase) rest)))"
  by pat_completeness auto
termination
proof (relation "measure (\<lambda>(phrase, before, rest). length rest)")
  fix phrase before rest :: str and offset :: nat
  assume "phrase \<noteq> []" "find_str rest phrase = Some offset"
  then have "length (drop (offset + length phrase) rest) < length rest"
    using find_str_Some [of rest phrase offset] by (cases rest) auto
  then show "((phrase, before @ take (offset + length phrase) rest, drop (offset + length phrase) rest), (phrase, before, rest))
      \<in> measure (\<lambda>(phrase, before, rest). length rest)" by simp
qed simp

declare clause_scan.simps [simp del]

definition phrase_occurs_at_clause_start :: "str \<Rightarrow> str \<Rightarrow> bool" where
  "phrase_occurs_at_clause_start s phrase = clause_scan phrase [] s"

definition contains_refusal_phrase :: "str \<Rightarrow> bool" where
  "contains_refusal_phrase s \<longleftrightarrow> s \<noteq> [] \<and> list_ex (phrase_occurs_at_clause_start (to_lower s)) REFUSAL_PHRASES"

section \<open>The judge\<close>

record judge_verdict =
  jv_tier :: model_tier
  jv_effort :: "reasoning_effort option"

fun is_deictic_followup :: "str \<Rightarrow> bool" where
  "is_deictic_followup user_input =
     (let lower = to_lower (trim user_input)
      in lower \<noteq> [] \<and>
         list_ex (\<lambda>marker. lower = lit marker \<or> starts_with lower (lit marker @ [SPACE]))
           [''same'', ''keep going'', ''continue'', ''now do'', ''do that'', ''do the same'', ''again'', ''that one'', ''this one'',
            ''like that'', ''similar''])"

definition FENCE :: str where "FENCE = [BACKTICK, BACKTICK, BACKTICK]"

text \<open>\<open>trim_end_matches\<close> of a fence.\<close>

function trim_end_fences :: "str \<Rightarrow> str" where
  "trim_end_fences s = (if ends_with s FENCE then trim_end_fences (take (length s - 3) s) else s)"
  by pat_completeness auto
termination
proof (relation "measure length")
  fix s assume "ends_with s FENCE"
  then have "3 \<le> length s" by (auto simp: ends_with_iff FENCE_def)
  then show "(take (length s - 3) s, s) \<in> measure length" by simp
qed simp

declare trim_end_fences.simps [simp del]

definition reply_body :: "str \<Rightarrow> str" where
  "reply_body raw =
     (let trimmed = trim raw
      in case strip_prefix trimmed (FENCE @ lit ''json'') of
           Some stripped \<Rightarrow> trim (trim_end_fences (trim stripped))
         | None \<Rightarrow> (case strip_prefix trimmed FENCE of
                      Some stripped \<Rightarrow> trim (trim_end_fences (trim stripped)) | None \<Rightarrow> trimmed))"

text \<open>The derived reader of \<open>JudgeReply\<close>: \<open>route\<close> is a string, \<open>effort\<close> may be missing or null, \<open>reason\<close> may be missing.\<close>

definition judge_reply_of :: "json \<Rightarrow> (str \<times> str option) option" where
  "judge_reply_of value =
     (case (value, json_get (lit ''route'') value, json_get (lit ''effort'') value, json_get (lit ''reason'') value) of
        (JObject _, Some (JString route), effort, reason) \<Rightarrow>
          (if reason \<noteq> None \<and> Option.bind reason json_as_str = None then None
           else (case effort of
                   None \<Rightarrow> Some (route, None)
                 | Some JNull \<Rightarrow> Some (route, None)
                 | Some (JString e) \<Rightarrow> Some (route, Some e)
                 | _ \<Rightarrow> None))
      | _ \<Rightarrow> None)"

definition parse_judge_reply :: "(str \<Rightarrow> json option) \<Rightarrow> str \<Rightarrow> judge_verdict option" where
  "parse_judge_reply parse_json raw =
     (case Option.bind (parse_json (reply_body raw)) judge_reply_of of
        None \<Rightarrow> None
      | Some (route, effort) \<Rightarrow>
          (case tier_parse (trim route) of
             None \<Rightarrow> None
           | Some tier \<Rightarrow> Some \<lparr>jv_tier = tier, jv_effort = Option.bind effort reasoning_effort_parse\<rparr>))"

text \<open>What the provider answers to the judge request: nothing before the timeout or the cancellation, or a stream.\<close>

datatype judge_stream = JudgeAborted | JudgeStream "(squeezy_error + llm_event) list"

fun judge_fetch :: "str \<Rightarrow> (squeezy_error + llm_event) list \<Rightarrow> str option \<times> cost_snapshot" where
  "judge_fetch s [] = (Some s, empty_cost)"
| "judge_fetch s (Inl err # events) = (None, empty_cost)"
| "judge_fetch s (Inr (EvTextDelta delta) # events) = judge_fetch (s @ delta) events"
| "judge_fetch s (Inr (EvCompleted response_id cost reason only) # events) = (Some s, cost)"
| "judge_fetch s (Inr _ # events) = judge_fetch s events"

record judge_request =
  jq_model :: str
  jq_instructions :: str
  jq_input :: str
  jq_with_schema :: bool
  jq_with_effort :: bool

record router_env =
  rv_registry :: "model_info list"
  rv_pricing :: pricing_table
  rv_regex :: regex_env
  rv_parse_json :: "str \<Rightarrow> json option"
  rv_default_prompt :: "str \<Rightarrow> str"
  rv_effort_instruction :: str
  rv_judge :: "judge_request \<Rightarrow> judge_stream"

definition run_judge :: "router_env \<Rightarrow> str \<Rightarrow> judge_request \<Rightarrow> judge_verdict option \<times> cost_snapshot" where
  "run_judge env provider request =
     (case rv_judge env request of
        JudgeAborted \<Rightarrow> (None, empty_cost)
      | JudgeStream events \<Rightarrow>
          (let (raw, cost) = judge_fetch [] events;
               cost = (if estimated_usd_micros cost = None
                       then cost\<lparr>estimated_usd_micros := estimate_cost (rv_pricing env) provider (jq_model request) cost\<rparr> else cost)
           in (Option.bind raw (parse_judge_reply (rv_parse_json env)), cost)))"

definition judge_model_for :: "str \<Rightarrow> router_config \<Rightarrow> str \<Rightarrow> str" where
  "judge_model_for provider config cheap_model =
     (case (case present (provider_setting config provider ps_judge_model) of
              Some m \<Rightarrow> Some m | None \<Rightarrow> rc_judge_model (ac_routing config)) of
        Some model \<Rightarrow> resolve_model_alias_owned provider model
      | None \<Rightarrow> or_else (judge_model_for_provider provider) cheap_model)"

section \<open>Classifying a turn\<close>

record turn_inputs =
  ti_user_input :: str
  ti_provider_name :: str
  ti_parent_model :: str
  ti_ladder :: tier_ladder
  ti_config :: router_config
  ti_has_image_input :: bool
  ti_has_large_attachment :: bool
  ti_turn_index :: u64
  ti_prior_turn_was_hard :: bool
  ti_session_mode :: session_mode
  ti_overrides :: routing_override
  ti_sticky :: bool
  ti_linux_sandbox_sensitive_parent :: bool

record classify_result =
  cr_decision :: routing_decision
  cr_judge_cost :: cost_snapshot
  cr_judge_model :: "str option"
  cr_judge_effort :: "reasoning_effort option"

definition parent_result :: classify_result where
  "parent_result = \<lparr>cr_decision = ParentTurn, cr_judge_cost = empty_cost, cr_judge_model = None, cr_judge_effort = None\<rparr>"

definition cheap_result :: "cheap_reason \<Rightarrow> model_tier \<Rightarrow> str \<Rightarrow> classify_result" where
  "cheap_result reason tier model =
     \<lparr>cr_decision = CheapTurn reason tier model, cr_judge_cost = empty_cost, cr_judge_model = None, cr_judge_effort = None\<rparr>"

definition should_isolate :: "routing_config \<Rightarrow> u64 \<Rightarrow> bool \<Rightarrow> bool" where
  "should_isolate cfg prefix_tokens caching_supported =
     (case rc_cache_isolation cfg of
        SwitchModel \<Rightarrow> False | IsolateSubagent \<Rightarrow> True
      | AutoIsolation \<Rightarrow> caching_supported \<and> rc_auto_prefix_token_threshold cfg < prefix_tokens)"

definition judge_turn :: "router_env \<Rightarrow> turn_inputs \<Rightarrow> str \<Rightarrow> classify_result" where
  "judge_turn env t weak_model =
     (let provider = ti_provider_name t; cfg = ac_routing (ti_config t);
          judge_model = judge_model_for provider (ti_config t) weak_model;
          with_effort = rc_judge_effort cfg;
          base = or_else (case provider_setting (ti_config t) provider ps_judge_prompt of
                            Some p \<Rightarrow> Some p | None \<Rightarrow> rc_judge_prompt cfg) (rv_default_prompt env provider);
          instructions = (if with_effort then base @ [NL, NL] @ rv_effort_instruction env else base);
          (verdict, cost) = run_judge env provider
            \<lparr>jq_model = judge_model, jq_instructions = instructions, jq_input = ti_user_input t,
             jq_with_schema = provider_honors_output_schema (rv_registry env) provider judge_model, jq_with_effort = with_effort\<rparr>
      in case verdict of
           Some v \<Rightarrow>
             (let effort = (if with_effort then jv_effort v else None);
                  (actual_tier, model) = at_least (ti_ladder t) (jv_tier v)
              in \<lparr>cr_decision = (if actual_tier = StrongTier then ParentTurn else CheapTurn LlmJudge actual_tier model),
                  cr_judge_cost = cost, cr_judge_model = Some judge_model, cr_judge_effort = effort\<rparr>)
         | None \<Rightarrow>
             \<lparr>cr_decision = ParentTurn, cr_judge_cost = cost, cr_judge_model = Some judge_model, cr_judge_effort = None\<rparr>)"

definition classify_turn :: "router_env \<Rightarrow> turn_inputs \<Rightarrow> classify_result" where
  "classify_turn env t =
     (let cfg = ac_routing (ti_config t); overrides = ti_overrides t;
          auto_disabled = (ro_session_disabled overrides \<or> \<not> rc_enabled cfg);
          (weak_tier, weak_model) = weakest (ti_ladder t);
          prompt_chars = (of_nat (length (ti_user_input t)) :: u32)
      in if ro_force_parent overrides then parent_result
         else if auto_disabled \<and> \<not> ro_force_cheap overrides then parent_result
         else if \<not> can_reroute (ti_ladder t) then parent_result
         else if \<not> ro_force_cheap overrides
                   \<and> \<not> parent_is_reroute_eligible (rv_regex env) (ti_parent_model t)
                         (resolved_reroute_filter (ti_config t) (ti_provider_name t)) then parent_result
         else if ti_session_mode t = Plan then parent_result
         else if ti_has_image_input t \<and> rc_bypass_for_images cfg then parent_result
         else if ti_has_large_attachment t then parent_result
         else if ro_force_cheap overrides then cheap_result UserExplicit weak_tier weak_model
         else if ti_linux_sandbox_sensitive_parent t \<and> is_linux_sandbox_sensitive (ti_user_input t) then parent_result
         else if 0 < ti_turn_index t \<and> ti_prior_turn_was_hard t
                   \<and> (is_deictic_followup (ti_user_input t)
                      \<or> (of_nat (length (trim (ti_user_input t))) :: u32) \<le> rc_follow_up_max_chars cfg) then parent_result
         else if ti_sticky t then parent_result
         else (case (if rc_heuristic cfg then heuristic_slam_dunk (ti_user_input t) cfg else None) of
                 Some reason \<Rightarrow> cheap_result reason weak_tier weak_model
               | None \<Rightarrow>
                   if \<not> rc_llm_judge cfg then parent_result
                   else if prompt_chars = 0 \<or> rc_judge_max_chars cfg < prompt_chars then parent_result
                   else judge_turn env t weak_model))"

section \<open>Savings\<close>

definition saturating_sub_i64 :: "i64 \<Rightarrow> i64 \<Rightarrow> i64" where
  "saturating_sub_i64 a b = (let d = sint a - sint b in
     if d < - (2 ^ 63) then word_of_int (- (2 ^ 63)) else if 2 ^ 63 \<le> d then word_of_int (2 ^ 63 - 1) else word_of_int d)"

definition i64_of_u64 :: "u64 \<Rightarrow> i64" where
  "i64_of_u64 v = ucast (min v 9223372036854775807)"

definition estimate_routing_net_savings :: "pricing_table \<Rightarrow> str \<Rightarrow> str \<Rightarrow> cost_snapshot \<Rightarrow> u64 \<Rightarrow> i64" where
  "estimate_routing_net_savings pricing provider parent_model actual judge_cost_usd_micros =
     (case estimate_cost pricing provider parent_model actual of
        None \<Rightarrow> 0
      | Some parent_estimate \<Rightarrow>
          saturating_sub_i64 (saturating_sub_i64 (i64_of_u64 parent_estimate) (i64_of_u64 (or_zero (estimated_usd_micros actual))))
            (i64_of_u64 judge_cost_usd_micros))"

definition estimate_routing_savings :: "pricing_table \<Rightarrow> str \<Rightarrow> str \<Rightarrow> cost_snapshot \<Rightarrow> u64" where
  "estimate_routing_savings pricing provider parent_model actual =
     (let net = estimate_routing_net_savings pricing provider parent_model actual 0 in if sint net < 0 then 0 else ucast net)"

section \<open>Escalation\<close>

record escalation_state =
  es_triggered :: "escalation_reason option"
  es_refusal_tail :: str
  es_tool_calls_baseline :: u64
  es_errors_baseline :: u64

definition fresh_escalation :: escalation_state where
  "fresh_escalation = \<lparr>es_triggered = None, es_refusal_tail = [], es_tool_calls_baseline = 0, es_errors_baseline = 0\<rparr>"

definition rearm_for_next_rung :: "u64 \<Rightarrow> u64 \<Rightarrow> u64 \<Rightarrow> escalation_state \<Rightarrow> escalation_state" where
  "rearm_for_next_rung tool_calls tool_errors budget_denials s =
     \<lparr>es_triggered = None, es_refusal_tail = [], es_tool_calls_baseline = tool_calls,
      es_errors_baseline = saturating_add tool_errors budget_denials\<rparr>"

definition last_chars :: "nat \<Rightarrow> str \<Rightarrow> str" where
  "last_chars n s = drop (length s - n) s"

definition observes_refusal_phrase :: "str \<Rightarrow> escalation_state \<Rightarrow> bool \<times> escalation_state" where
  "observes_refusal_phrase delta s =
     (if delta = [] then (False, s)
      else (let window = es_refusal_tail s @ delta
            in (contains_refusal_phrase window, s\<lparr>es_refusal_tail := last_chars REFUSAL_TAIL_CHARS window\<rparr>)))"

record turn_counters =
  tk_tool_calls :: u64
  tk_tool_errors :: u64
  tk_budget_denials :: u64

definition maybe_trigger ::
  "turn_counters \<Rightarrow> str \<Rightarrow> bool \<Rightarrow> routing_config \<Rightarrow> u64 \<Rightarrow> escalation_state \<Rightarrow> escalation_reason option \<times> escalation_state" where
  "maybe_trigger k delta on_cheap_turn cfg max_tool_calls_per_turn s =
     (let fire = (\<lambda>reason s. (Some reason, s\<lparr>es_triggered := Some reason\<rparr>));
          ceiling = resolved_cheap_escalation_tool_calls cfg max_tool_calls_per_turn;
          error_threshold = (ucast (rc_cheap_escalation_error_threshold cfg) :: u64);
          errors = saturating_sub (saturating_add (tk_tool_errors k) (tk_budget_denials k)) (es_errors_baseline s)
      in if \<not> on_cheap_turn \<or> es_triggered s \<noteq> None then (None, s)
         else if ceiling < saturating_sub (tk_tool_calls k) (es_tool_calls_baseline s) then fire ToolCallCeiling s
         else if error_threshold \<le> errors \<and> 0 < error_threshold then fire ErrorThreshold s
         else (case observes_refusal_phrase delta s of
                 (True, s') \<Rightarrow> fire RefusalPhrase s'
               | (False, s') \<Rightarrow> (None, s')))"

section \<open>A broad result\<close>

definition is_path_key :: "str \<Rightarrow> bool" where
  "is_path_key key =
     one_of (to_lower (filter is_alnum key))
       [''path'', ''paths'', ''filepath'', ''filepaths'', ''filename'', ''filenames'', ''file'', ''files'', ''sourcepath'', ''targetpath'',
        ''oldpath'', ''newpath'', ''frompath'', ''topath'', ''relativepath'', ''absolutepath'', ''workspacepath'']"

text \<open>\<open>Path::extension\<close> of a name without separators that does not begin with a dot.\<close>

definition has_extension :: "str \<Rightarrow> bool" where
  "has_extension name = (rsplit_once DOT name \<noteq> None)"

definition looks_path_like :: "str \<Rightarrow> bool \<Rightarrow> bool" where
  "looks_path_like s allow_bare_file =
     (let trimmed = trim s
      in if byte_len trimmed < 3 \<or> NL \<in> set trimmed then False
         else if starts_with trimmed (lit ''http://'') \<or> starts_with trimmed (lit ''https://'') then False
         else if SLASH \<in> set trimmed \<or> BSLASH \<in> set trimmed then True
         else allow_bare_file \<and> (starts_with trimmed [DOT] \<or> has_extension trimmed) \<and> \<not> list_ex is_ws trimmed)"

fun path_values :: "str option \<Rightarrow> json \<Rightarrow> str list"
  and path_values_list :: "str option \<Rightarrow> json list \<Rightarrow> str list"
  and path_values_map :: "(str \<times> json) list \<Rightarrow> str list" where
  "path_values key (JString s) =
     (if looks_path_like s (case key of Some k \<Rightarrow> is_path_key k | None \<Rightarrow> False) then [s] else [])"
| "path_values key (JArray items) = path_values_list key items"
| "path_values key (JObject entries) = path_values_map entries"
| "path_values key _ = []"
| "path_values_list key [] = []"
| "path_values_list key (item # items) = path_values key item @ path_values_list key items"
| "path_values_map [] = []"
| "path_values_map ((k, v) # entries) = path_values (Some k) v @ path_values_map entries"

definition insert_all :: "str list \<Rightarrow> str list \<Rightarrow> str list" where
  "insert_all new paths = fold List.insert new paths"

text \<open>Calls with their arguments and results with their content, by call id; the set of paths is a list without repetitions.\<close>

fun collect_tool_round_paths ::
  "(str \<times> json) list \<Rightarrow> (str \<times> json) list \<Rightarrow> nat \<Rightarrow> str list \<Rightarrow> nat \<times> str list" where
  "collect_tool_round_paths calls [] window paths = (0, paths)"
| "collect_tool_round_paths calls ((call_id, content) # results) window paths =
     (if window = 0 then (0, paths)
      else (let paths = (case map_of calls call_id of Some arguments \<Rightarrow> insert_all (path_values None arguments) paths | None \<Rightarrow> paths);
                paths = insert_all (path_values None content) paths;
                (observed, paths) = collect_tool_round_paths calls results (window - 1) paths
            in (observed + 1, paths)))"

section \<open>Whether a model holds the conversation\<close>

record fit_inputs =
  fi_provider_name :: str
  fi_provider_slug :: str
  fi_model_limits :: "(str \<times> u64 option) list"
  fi_global_override :: "u64 option"
  fi_models_dev :: "models_dev_view option"
  fi_effective_percent :: "u8 option"
  fi_baseline_reserve :: "u64 option"
  fi_max_output_tokens :: "u32 option"

definition model_fits_conversation ::
  "model_info list \<Rightarrow> (json \<Rightarrow> str) \<Rightarrow> fit_inputs \<Rightarrow> conversation \<Rightarrow> (str \<Rightarrow> u64 option) \<Rightarrow> str \<Rightarrow> bool" where
  "model_fits_conversation registry json_text fi conversation observed_ceilings model =
     (let per_model = Option.bind (map_of (fi_model_limits fi) (fi_provider_slug fi @ COLON # model)) id;
          input = (new_limit_input (fi_provider_name fi) model)
            \<lparr>li_user_override := (case per_model of Some w \<Rightarrow> Some w | None \<Rightarrow> fi_global_override fi),
             li_observed_ceiling := observed_ceilings model, li_models_dev := fi_models_dev fi,
             li_effective_percent_override := fi_effective_percent fi, li_baseline_reserve_override := fi_baseline_reserve fi\<rparr>;
          resolved = resolve_context_limits registry input
      in if rl_confidence resolved = LowLimit then True
         else (case effective_window_tokens resolved of
                 None \<Rightarrow> True
               | Some effective \<Rightarrow>
                   saturating_add (ce_tokens (estimate_context json_text conversation))
                     (projected_output_tokens (fi_max_output_tokens fi) (rl_max_output_tokens resolved)) \<le> effective))"

section \<open>The rungs of a turn\<close>

text \<open>What a routed turn keeps: the rung, its model, whether it is below the parent, whether it reached the parent by escalation,
  the detector, the sticky window, and what the predictive check has seen.\<close>

record turn_route =
  tr_tier :: model_tier
  tr_model :: str
  tr_on_cheap :: bool
  tr_escalated :: bool
  tr_detector :: escalation_state
  tr_sticky :: u8
  tr_results_seen :: nat
  tr_paths :: "str list"

definition start_route :: "routing_decision \<Rightarrow> str \<Rightarrow> u8 \<Rightarrow> turn_route" where
  "start_route d parent_model sticky =
     \<lparr>tr_tier = decision_tier d,
      tr_model = (case d of CheapTurn reason tier model \<Rightarrow> model | ParentTurn \<Rightarrow> parent_model),
      tr_on_cheap = is_cheap d, tr_escalated = False, tr_detector = fresh_escalation, tr_sticky = sticky,
      tr_results_seen = 0, tr_paths = []\<rparr>"

lemma next_up_higher: "next_up ladder tier = Some (tier', model) \<Longrightarrow> tier < tier' \<and> (tier', model) \<in> set ladder"
  unfolding next_up_def by (metis find_Some_iff fst_conv nth_mem)

text \<open>The rung that holds the conversation as it stands: \<open>fits\<close> is \<open>model_fits_conversation\<close>.\<close>

function fit_rung :: "tier_ladder \<Rightarrow> str \<Rightarrow> (str \<Rightarrow> bool) \<Rightarrow> model_tier \<Rightarrow> str \<Rightarrow> model_tier \<times> str" where
  "fit_rung ladder parent_model fits tier model =
     (if tier = StrongTier then (tier, model)
      else if fits model then (tier, model)
      else (case next_up ladder tier of
              Some r \<Rightarrow> fit_rung ladder parent_model fits (fst r) (snd r)
            | None \<Rightarrow> (StrongTier, parent_model)))"
  by pat_completeness auto
termination
proof (relation "measure (\<lambda>(ladder, parent_model, fits, tier, model). 2 - tier_rank tier)")
  fix ladder parent_model fits tier model r
  assume "tier \<noteq> StrongTier" "next_up ladder tier = Some r"
  then have "tier < fst r" using next_up_higher [of ladder tier "fst r" "snd r"] by simp
  then show "((ladder, parent_model, fits, fst r, snd r), ladder, parent_model, fits, tier, model)
      \<in> measure (\<lambda>(ladder, parent_model, fits, tier, model). 2 - tier_rank tier)"
    by (cases tier; cases "fst r") (simp_all add: less_model_tier_def)
qed simp

declare fit_rung.simps [simp del]

definition fit_context :: "tier_ladder \<Rightarrow> str \<Rightarrow> (str \<Rightarrow> bool) \<Rightarrow> turn_route \<Rightarrow> turn_route" where
  "fit_context ladder parent_model fits r =
     (if \<not> tr_on_cheap r then r
      else (case fit_rung ladder parent_model fits (tr_tier r) (tr_model r) of
              (tier, model) \<Rightarrow> r\<lparr>tr_tier := tier, tr_model := model, tr_on_cheap := tier \<noteq> StrongTier\<rparr>))"

definition step_up :: "routing_config \<Rightarrow> turn_counters \<Rightarrow> model_tier \<times> str \<Rightarrow> turn_route \<Rightarrow> turn_route" where
  "step_up cfg k rung r =
     r\<lparr>tr_tier := fst rung, tr_model := snd rung, tr_on_cheap := fst rung \<noteq> StrongTier,
       tr_escalated := tr_escalated r \<or> fst rung = StrongTier,
       tr_detector := rearm_for_next_rung (tk_tool_calls k) (tk_tool_errors k) (tk_budget_denials k) (tr_detector r),
       tr_sticky := sticky_engage (rc_escalation_sticky_turns cfg) (tr_sticky r)\<rparr>"

text \<open>The poll of the detector before a round, with an empty delta, and on every piece of assistant text.\<close>

definition poll_escalation ::
  "tier_ladder \<Rightarrow> routing_config \<Rightarrow> u64 \<Rightarrow> turn_counters \<Rightarrow> str \<Rightarrow> turn_route \<Rightarrow> escalation_reason option \<times> turn_route" where
  "poll_escalation ladder cfg max_tool_calls k delta r =
     (if \<not> tr_on_cheap r then (None, r)
      else (case maybe_trigger k delta (tr_on_cheap r) cfg max_tool_calls (tr_detector r) of
              (None, d) \<Rightarrow> (None, r\<lparr>tr_detector := d\<rparr>)
            | (Some reason, d) \<Rightarrow>
                (case next_up ladder (tr_tier r) of
                   Some rung \<Rightarrow> (Some reason, step_up cfg k rung (r\<lparr>tr_detector := d\<rparr>))
                 | None \<Rightarrow> (None, r\<lparr>tr_detector := d\<rparr>))))"

definition poll_diversity ::
  "tier_ladder \<Rightarrow> routing_config \<Rightarrow> turn_counters \<Rightarrow> (str \<times> json) list \<Rightarrow> (str \<times> json) list \<Rightarrow> turn_route
     \<Rightarrow> escalation_reason option \<times> turn_route" where
  "poll_diversity ladder cfg k calls results r =
     (if tr_on_cheap r \<and> tr_results_seen r < 3
      then (let (observed, paths) = collect_tool_round_paths calls results (3 - tr_results_seen r) (tr_paths r);
                r = r\<lparr>tr_results_seen := tr_results_seen r + observed, tr_paths := paths\<rparr>
            in if 8 \<le> length paths
               then (case next_up ladder (tr_tier r) of
                       Some rung \<Rightarrow> (Some ToolDiversity, step_up cfg k rung r) | None \<Rightarrow> (None, r))
               else (None, r))
      else (None, r))"

end
