(* ===== verification/TurnRouterSpec.thy ===== *)
theory TurnRouterSpec
  imports TurnRouter
begin

text \<open>
  What the turn router promises: when a turn may run on a cheaper model, that the refusal detector misses nothing a whole
  reading would find, and the rungs a turn climbs (\<open>crates/squeezy-agent/src/turn_router.rs\<close>, and the blocks of
  \<open>TurnRuntime\<close> in \<open>lib.rs\<close> that start and escalate a turn).
\<close>

lemma starts_with_code [code]:
  "starts_with s [] = True" "starts_with [] (p # ps) = False" "starts_with (c # s) (p # ps) = (c = p \<and> starts_with s ps)"
  by (simp_all add: starts_with_def)

section \<open>When a turn may run cheap\<close>

lemma weakest_below_strong:
  assumes "ladder_ok strong ladder" "can_reroute ladder"
  shows "fst (weakest ladder) < StrongTier \<and> snd (weakest ladder) \<noteq> strong \<and> weakest ladder \<in> set ladder"
  using assms(1)
proof (cases rule: ladder_cases)
  case one
  then show ?thesis using assms(2) by (simp add: can_reroute_def)
next
  case (two t m)
  then show ?thesis by (simp add: weakest_def)
next
  case (three w m)
  then show ?thesis by (simp add: weakest_def)
qed

lemma at_least_ok:
  assumes "ladder_ok strong ladder"
  shows "floor \<le> fst (at_least ladder floor) \<and> at_least ladder floor \<in> set ladder
    \<and> (fst (at_least ladder floor) \<noteq> StrongTier \<longrightarrow> snd (at_least ladder floor) \<noteq> strong)"
  using assms
proof (cases rule: ladder_cases)
  case (two t m)
  then show ?thesis by (cases "floor \<le> t") (simp_all add: at_least_def)
next
  case (three w m)
  then show ?thesis by (cases floor) (simp_all add: at_least_def less_eq_model_tier_def)
qed (simp add: at_least_def)

text \<open>C26: a turn runs on a cheaper model only when the user did not ask for the parent, the ladder has a cheaper rung, the session does
  not plan, no attachment forbids it, and either the user asked for it or routing is on, the parent is worth rerouting, the
  prompt is not sandbox-sensitive, no sticky window is open and the heuristic or the judge said so.  Its model is a rung below
  the parent's, never the parent's own model.\<close>

theorem cheap_turn_is_justified:
  assumes ladder: "ladder_ok (ti_parent_model t) (ti_ladder t)"
    and cheap: "cr_decision (classify_turn env t) = CheapTurn reason tier model"
  shows "\<not> ro_force_parent (ti_overrides t) \<and> ti_session_mode t \<noteq> Plan \<and> \<not> ti_has_large_attachment t
    \<and> \<not> (ti_has_image_input t \<and> rc_bypass_for_images (ac_routing (ti_config t)))
    \<and> (tier, model) \<in> set (ti_ladder t) \<and> tier < StrongTier \<and> model \<noteq> ti_parent_model t
    \<and> (if ro_force_cheap (ti_overrides t) then reason = UserExplicit
       else rc_enabled (ac_routing (ti_config t)) \<and> \<not> ro_session_disabled (ti_overrides t)
         \<and> parent_is_reroute_eligible (rv_regex env) (ti_parent_model t) (resolved_reroute_filter (ti_config t) (ti_provider_name t))
         \<and> \<not> (ti_linux_sandbox_sensitive_parent t \<and> is_linux_sandbox_sensitive (ti_user_input t))
         \<and> \<not> ti_sticky t
         \<and> (heuristic_slam_dunk (ti_user_input t) (ac_routing (ti_config t)) = Some reason \<or> reason = LlmJudge))"
proof -
  obtain wt wm where w: "weakest (ti_ladder t) = (wt, wm)" by (cases "weakest (ti_ladder t)")
  have can: "can_reroute (ti_ladder t)" using cheap by (auto simp: classify_turn_def w Let_def parent_result_def split: if_splits)
  then have weak: "wt < StrongTier" "wm \<noteq> ti_parent_model t" "(wt, wm) \<in> set (ti_ladder t)"
    using weakest_below_strong [OF ladder] w by simp_all
  have judged: "reason = LlmJudge \<and> (tier, model) \<in> set (ti_ladder t) \<and> tier < StrongTier \<and> model \<noteq> ti_parent_model t"
    if j: "cr_decision (judge_turn env t wm) = CheapTurn reason tier model"
  proof -
    have "\<exists>v :: judge_verdict. at_least (ti_ladder t) (jv_tier v) = (tier, model) \<and> tier \<noteq> StrongTier \<and> reason = LlmJudge"
      using j unfolding judge_turn_def Let_def by (auto split: prod.splits option.splits if_splits)
    then obtain v :: judge_verdict where "at_least (ti_ladder t) (jv_tier v) = (tier, model)" "tier \<noteq> StrongTier" "reason = LlmJudge" by blast
    then show ?thesis using at_least_ok [OF ladder, of "jv_tier v"] by simp
  qed
  show ?thesis
    using cheap judged weak
    by (auto simp: classify_turn_def w Let_def parent_result_def cheap_result_def split: if_splits option.splits)
qed

section \<open>Refusals are noticed\<close>

text \<open>A phrase at the start of a clause, without the scan.\<close>

definition refusal_at :: "str \<Rightarrow> str \<Rightarrow> nat \<Rightarrow> bool" where
  "refusal_at s phrase i \<longleftrightarrow> starts_with (drop i s) phrase \<and> clause_start (take i s)"

text \<open>No phrase overlaps itself.\<close>

definition borderless :: "str \<Rightarrow> bool" where
  "borderless p \<longleftrightarrow> list_all (\<lambda>k. take (length p - k) p \<noteq> drop k p) [1..<length p]"

lemma phrases_borderless: "list_all borderless REFUSAL_PHRASES" "list_all (\<lambda>p. p \<noteq> [] \<and> length p \<le> REFUSAL_TAIL_CHARS) REFUSAL_PHRASES"
  by code_simp+

lemma no_overlap:
  assumes "borderless p" "starts_with (drop i s) p" "starts_with (drop j s) p" "i < j"
  shows "i + length p \<le> j"
proof (rule ccontr)
  assume "\<not> ?thesis"
  then have k: "j - i \<in> set [1..<length p]" using assms(4) by simp linarith
  obtain u where u: "drop i s = p @ u" using assms(2) by (auto simp: starts_with_iff)
  obtain v where v: "drop j s = p @ v" using assms(3) by (auto simp: starts_with_iff)
  have "drop j s = drop (j - i) (drop i s)" using assms(4) by simp
  moreover have "j - (i + length p) = 0" using k assms(4) by simp linarith
  ultimately have "p @ v = drop (j - i) p @ u" using u v k by simp
  then have "take (length p - (j - i)) (p @ v) = take (length p - (j - i)) (drop (j - i) p @ u)" by (rule arg_cong)
  then have "take (length p - (j - i)) p = drop (j - i) p" by simp
  then show False using assms(1) k by (auto simp: borderless_def list_all_iff)
qed

lemma clause_scan_iff:
  assumes "borderless p" "p \<noteq> []"
  shows "clause_scan p before rest \<longleftrightarrow> (\<exists>i\<ge>length before. refusal_at (before @ rest) p i)"
  using assms
proof (induction p before rest rule: clause_scan.induct)
  case (1 p before rest)
  let ?s = "before @ rest"
  show ?case
  proof (cases "find_str rest p")
    case None
    have "\<not> starts_with (drop i ?s) p" if later: "length before \<le> i" for i
    proof
      assume "starts_with (drop i ?s) p"
      then obtain v where "drop (i - length before) rest = p @ v" using later by (auto simp: starts_with_iff)
      then have "rest = take (i - length before) rest @ p @ v" by (metis append_take_drop_id)
      then show False using None by (auto simp: find_str_None_iff)
    qed
    then show ?thesis using None "1.prems" by (auto simp: clause_scan.simps [of p before rest] refusal_at_def)
  next
    case (Some offset)
    let ?i = "length before + offset" and ?next = "length before + offset + length p"
    have split: "offset \<le> length rest" "rest = take offset rest @ p @ drop (offset + length p) rest" using find_str_Some [OF Some] by simp_all
    have whole: "(before @ take (offset + length p) rest) @ drop (offset + length p) rest = ?s" by simp
    have len: "length (before @ take (offset + length p) rest) = ?next"
      using arg_cong [OF split(2), of length] split(1) by simp
    have here: "starts_with (drop ?i ?s) p"
    proof -
      have "drop offset rest = p @ drop (offset + length p) rest" using split(2) by (metis append_take_drop_id same_append_eq)
      then show ?thesis by (simp add: starts_with_iff)
    qed
    have take_here: "take ?i ?s = before @ take offset rest" by simp
    have ih: "clause_scan p (before @ take (offset + length p) rest) (drop (offset + length p) rest)
        \<longleftrightarrow> (\<exists>i\<ge>?next. refusal_at ?s p i)"
      using "1.IH" [OF "1.prems"(2) Some "1.prems"] unfolding whole len .
    have between: "i = ?i \<or> ?next \<le> i" if "length before \<le> i" "refusal_at ?s p i" for i
    proof -
      have "\<not> i < ?i"
      proof
        assume "i < ?i"
        then have "\<not> starts_with (drop (i - length before) rest) p" using that(1) by (intro find_str_is_first [OF Some]) simp
        then show False using that by (simp add: refusal_at_def)
      qed
      then show ?thesis using no_overlap [OF "1.prems"(1) here, of i] that(2) by (cases "i = ?i") (auto simp: refusal_at_def)
    qed
    have "(\<exists>i\<ge>length before. refusal_at ?s p i) \<longleftrightarrow> clause_start (before @ take offset rest) \<or> (\<exists>i\<ge>?next. refusal_at ?s p i)"
    proof
      assume "\<exists>i\<ge>length before. refusal_at ?s p i"
      then obtain i where i: "length before \<le> i" "refusal_at ?s p i" by blast
      then show "clause_start (before @ take offset rest) \<or> (\<exists>i\<ge>?next. refusal_at ?s p i)"
        using between [OF i] take_here by (auto simp: refusal_at_def)
    next
      assume "clause_start (before @ take offset rest) \<or> (\<exists>i\<ge>?next. refusal_at ?s p i)"
      then show "\<exists>i\<ge>length before. refusal_at ?s p i"
      proof
        assume "clause_start (before @ take offset rest)"
        then have "refusal_at ?s p ?i" using here take_here by (simp add: refusal_at_def)
        then show ?thesis by (meson le_add1)
      qed (meson le_add1 le_trans)
    qed
    then show ?thesis using Some ih "1.prems"(2) by (simp add: clause_scan.simps [of p before rest])
  qed
qed

lemma contains_refusal_iff:
  "contains_refusal_phrase s \<longleftrightarrow> (\<exists>p\<in>set REFUSAL_PHRASES. \<exists>i. refusal_at (to_lower s) p i)"
proof -
  have "phrase_occurs_at_clause_start (to_lower s) p \<longleftrightarrow> (\<exists>i. refusal_at (to_lower s) p i)" if "p \<in> set REFUSAL_PHRASES" for p
    using clause_scan_iff [of p "[]" "to_lower s"] phrases_borderless that
    by (simp add: phrase_occurs_at_clause_start_def list_all_iff)
  moreover have "\<not> refusal_at (to_lower []) p i" if "p \<in> set REFUSAL_PHRASES" for p i
    using phrases_borderless(2) that by (auto simp: refusal_at_def list_all_iff to_lower_def starts_with_iff)
  ultimately show ?thesis by (auto simp: contains_refusal_phrase_def list_ex_iff)
qed

lemma clause_start_suffix: "clause_start s \<Longrightarrow> clause_start (drop m s)"
proof -
  assume start: "clause_start s"
  have rev: "rev s = rev (drop m s) @ rev (take m s)" by (metis append_take_drop_id rev_append)
  have "find f (xs @ ys) = (case find f xs of Some x \<Rightarrow> Some x | None \<Rightarrow> find f ys)" for f :: "uchar \<Rightarrow> bool" and xs ys
    by (induction xs) auto
  then show ?thesis using start unfolding clause_start_def rev by (auto split: option.splits)
qed

lemma to_lower_parts [simp]: "to_lower (take n s) = take n (to_lower s)" "to_lower (drop n s) = drop n (to_lower s)"
  "length (to_lower s) = length s" "to_lower (s @ t) = to_lower s @ to_lower t"
  by (simp_all add: to_lower_def take_map drop_map)

lemma last_chars_append: "last_chars n (last_chars n a @ b) = last_chars n (a @ b)"
  by (cases "length a \<le> n") (simp_all add: last_chars_def drop_append add.commute)

text \<open>The window at a delta holds every occurrence that ends inside the delta.\<close>

lemma occurrence_in_window:
  assumes occ: "refusal_at (to_lower (a @ d @ rest)) p i" and ends: "length a < i + length p" "i + length p \<le> length (a @ d)"
    and short: "length p \<le> n"
  shows "refusal_at (to_lower (last_chars n a @ d)) p (i - (length a - n))"
proof -
  let ?m = "length a - n" and ?L = "to_lower (a @ d)"
  have m: "?m \<le> i" using ends short by simp
  have window: "last_chars n a @ d = drop ?m (a @ d)" by (simp add: last_chars_def)
  obtain v where v: "drop i (to_lower (a @ d @ rest)) = p @ v" using occ by (auto simp: refusal_at_def starts_with_iff)
  have "drop i (to_lower (a @ d @ rest)) = drop i ?L @ to_lower rest" using ends(2) by simp
  then have "take (length p) (drop i ?L @ to_lower rest) = p" using v by simp
  moreover have "length p \<le> length (drop i ?L)" using ends(2) by (simp only: length_drop length_append to_lower_parts)
  ultimately have "take (length p) (drop i ?L) = p" by simp
  then have "starts_with (drop i ?L) p" unfolding starts_with_iff by (metis append_take_drop_id)
  moreover have "take i (to_lower (a @ d @ rest)) = take i ?L" using ends(2) by simp
  then have "clause_start (take i ?L)" using occ unfolding refusal_at_def by metis
  then have "clause_start (drop ?m (take i ?L))" by (rule clause_start_suffix)
  moreover define L where "L = to_lower (a @ d)"
  ultimately have "starts_with (drop i L) p" "clause_start (drop ?m (take i L))" by simp_all
  moreover have "to_lower (last_chars n a @ d) = drop ?m L" unfolding window L_def by (rule to_lower_parts)
  ultimately show ?thesis unfolding refusal_at_def using m by (simp add: drop_take)
qed

text \<open>Polling the detector over the pieces of the assistant's text, each with the counters of its moment.\<close>

fun poll_run ::
  "routing_config \<Rightarrow> u64 \<Rightarrow> (turn_counters \<times> str) list \<Rightarrow> escalation_state \<Rightarrow> escalation_reason option" where
  "poll_run cfg max_tool_calls [] s = None"
| "poll_run cfg max_tool_calls ((k, delta) # polls) s =
     (case maybe_trigger k delta True cfg max_tool_calls s of
        (Some reason, _) \<Rightarrow> Some reason
      | (None, s') \<Rightarrow> poll_run cfg max_tool_calls polls s')"

lemma poll_keeps_tail:
  assumes "maybe_trigger k delta True cfg max_tool_calls s = (None, s')" "es_triggered s = None"
    and "es_refusal_tail s = last_chars REFUSAL_TAIL_CHARS a"
  shows "es_triggered s' = None \<and> es_refusal_tail s' = last_chars REFUSAL_TAIL_CHARS (a @ delta)
    \<and> (delta \<noteq> [] \<longrightarrow> \<not> contains_refusal_phrase (last_chars REFUSAL_TAIL_CHARS a @ delta))"
  using assms by (auto simp: maybe_trigger_def observes_refusal_phrase_def Let_def last_chars_append split: if_splits prod.splits bool.splits)

lemma poll_run_notices:
  assumes "es_triggered s = None" "es_refusal_tail s = last_chars REFUSAL_TAIL_CHARS a"
    and "p \<in> set REFUSAL_PHRASES" "refusal_at (to_lower (a @ concat (map snd polls))) p i" "length a < i + length p"
  shows "poll_run cfg max_tool_calls polls s \<noteq> None"
  using assms
proof (induction polls arbitrary: s a)
  case Nil
  obtain v where "drop i (to_lower a) = p @ v" using Nil.prems(4) by (auto simp: refusal_at_def starts_with_iff)
  then have "length a - i = length p + length v" by (metis length_append length_drop to_lower_parts(3))
  moreover have "0 < length p" using phrases_borderless(2) Nil.prems(3) by (simp add: list_all_iff)
  ultimately have False using Nil.prems(5) by linarith
  then show ?case ..
next
  case (Cons poll polls)
  obtain k delta where poll: "poll = (k, delta)" by (cases poll)
  show ?case
  proof (cases "maybe_trigger k delta True cfg max_tool_calls s")
    case (Pair reason s')
    show ?thesis
    proof (cases reason)
      case None
      note t = poll_keeps_tail [OF Pair [unfolded None] Cons.prems(1,2)]
      have short: "length p \<le> REFUSAL_TAIL_CHARS" using phrases_borderless(2) Cons.prems(3) by (simp add: list_all_iff)
      show ?thesis
      proof (cases "i + length p \<le> length (a @ delta)")
        case True
        then have "delta \<noteq> []" using Cons.prems(5) by auto
        moreover have "refusal_at (to_lower (last_chars REFUSAL_TAIL_CHARS a @ delta)) p (i - (length a - REFUSAL_TAIL_CHARS))"
          using occurrence_in_window [of a delta "concat (map snd polls)" p i] Cons.prems(4,5) True short poll by simp
        then have "contains_refusal_phrase (last_chars REFUSAL_TAIL_CHARS a @ delta)"
          using Cons.prems(3) contains_refusal_iff by blast
        ultimately show ?thesis using t by simp
      next
        case False
        then show ?thesis using Cons.IH [of s' "a @ delta"] t Cons.prems(3,4) poll Pair None by simp
      qed
    qed (simp add: poll Pair)
  qed
qed

text \<open>C27: a refusal is noticed however it was cut into pieces: when the text as a whole holds one of the phrases at the start of a
  clause, some poll of a turn on a cheap model fires, for the refusal or for a counter before it.\<close>

theorem refusal_is_noticed:
  assumes "contains_refusal_phrase (concat (map snd polls))"
  shows "poll_run cfg max_tool_calls polls fresh_escalation \<noteq> None"
proof -
  obtain p i where "p \<in> set REFUSAL_PHRASES" "refusal_at (to_lower (concat (map snd polls))) p i"
    using assms contains_refusal_iff by blast
  moreover from this have "0 < length p" using phrases_borderless(2) by (auto simp: list_all_iff)
  ultimately show ?thesis
    using poll_run_notices [of fresh_escalation "[]" p polls i cfg max_tool_calls]
    by (simp add: fresh_escalation_def last_chars_def)
qed

section \<open>Samples\<close>

definition empty_routing_settings :: routing_settings where
  "empty_routing_settings = \<lparr>rs_enabled = None, rs_heuristic = None, rs_llm_judge = None, rs_follow_up_max_chars = None,
     rs_judge_prompt = None, rs_expensive_models = None, rs_cheap_escalation_tool_calls = None,
     rs_cheap_escalation_error_threshold = None, rs_escalation_sticky_turns = None, rs_bypass_for_images = None,
     rs_large_attachment_bypass_bytes = None, rs_heuristic_max_chars = None, rs_judge_max_chars = None, rs_judge_model = None,
     rs_extra_heuristic_verbs = None, rs_linux_sandbox_sensitive_parent = None, rs_cache_isolation = None,
     rs_auto_prefix_token_threshold = None, rs_tier_effort = None, rs_effort_weak = None, rs_effort_medium = None,
     rs_effort_strong = None, rs_judge_effort = None\<rparr>"

definition default_routing :: routing_config where
  "default_routing = routing_from_settings_and_env empty_routing_settings (\<lambda>key. None)"

definition sample_router_config :: router_config where
  "sample_router_config = \<lparr>ac_routing = default_routing, ac_providers = [], ac_small_fast_model = None\<rparr>"

definition sample_router_env :: router_env where
  "sample_router_env = \<lparr>rv_registry = [], rv_pricing = (\<lambda>p m. None),
     rv_regex = \<lparr>rx_compile = (\<lambda>pattern. Some (\<lambda>s. Some True)), rx_lowercase = to_lower\<rparr>,
     rv_parse_json = (\<lambda>s. None), rv_default_prompt = (\<lambda>p. []), rv_effort_instruction = [], rv_judge = (\<lambda>q. JudgeAborted)\<rparr>"

definition parent_id :: str where "parent_id = lit ''claude-opus-4-8''"

definition sample_ladder :: tier_ladder where
  "sample_ladder = ladder_resolve sample_router_config (lit ''anthropic'')
     (cheap_model_for (lit ''anthropic'') sample_router_config) parent_id"

definition rename_turn :: turn_inputs where
  "rename_turn = \<lparr>ti_user_input = lit ''please rename foo to bar'', ti_provider_name = lit ''anthropic'', ti_parent_model = parent_id,
     ti_ladder = sample_ladder, ti_config = sample_router_config, ti_has_image_input = False, ti_has_large_attachment = False,
     ti_turn_index = 0, ti_prior_turn_was_hard = False, ti_session_mode = Build,
     ti_overrides = \<lparr>ro_force_cheap = False, ro_force_parent = False, ro_session_disabled = False\<rparr>, ti_sticky = False,
     ti_linux_sandbox_sensitive_parent = True\<rparr>"

lemma cheap_turn_is_justified_witness:
  "cr_decision (classify_turn sample_router_env rename_turn)
     = CheapTurn (HeuristicSlamDunk (lit ''rename'')) WeakTier (lit ''claude-haiku-4-5-20251001'')
   \<and> (WeakTier, lit ''claude-haiku-4-5-20251001'') \<in> set (ti_ladder rename_turn)"
proof -
  have ladder: "ladder_ok (ti_parent_model rename_turn) (ti_ladder rename_turn)"
    by (simp add: rename_turn_def sample_ladder_def ladder_resolve_ok)
  have run: "cr_decision (classify_turn sample_router_env rename_turn)
     = CheapTurn (HeuristicSlamDunk (lit ''rename'')) WeakTier (lit ''claude-haiku-4-5-20251001'')"
    by code_simp
  with cheap_turn_is_justified [OF ladder run] show ?thesis by simp
qed

definition no_calls :: turn_counters where
  "no_calls = \<lparr>tk_tool_calls = 0, tk_tool_errors = 0, tk_budget_denials = 0\<rparr>"

definition not_sure :: str where "not_sure = lit ''i'' @ SQUOTE # lit ''m not sure''"

lemma refusal_is_noticed_witness:
  "poll_run default_routing 100 [(no_calls, lit ''Well. I am n''), (no_calls, lit ''ot sure'')] fresh_escalation \<noteq> None"
proof -
  have "contains_refusal_phrase (concat (map snd [(no_calls, lit ''Well. I am n''), (no_calls, lit ''ot sure'')]))" by code_simp
  from refusal_is_noticed [OF this] show ?thesis .
qed

text \<open>The converse does not hold: the cut of the tail can fall right in front of a phrase in the middle of a clause, which then
  stands at the start of the window.\<close>

theorem tail_cut_fakes_refusal:
  "\<not> contains_refusal_phrase ((lit ''they say '' @ not_sure @ replicate 84 120) @ [120])
   \<and> poll_run default_routing 100 [(no_calls, lit ''they say '' @ not_sure @ replicate 84 120), (no_calls, [120])] fresh_escalation
       = Some RefusalPhrase"
  by code_simp

text \<open>A line break is among the characters that end a clause, but white space is skipped before they are looked at: a refusal at
  the start of a line without punctuation before it is not one.\<close>

theorem line_start_is_no_clause_start:
  "\<not> contains_refusal_phrase (lit ''Summary'' @ NL # not_sure) \<and> contains_refusal_phrase (lit ''Summary.'' @ NL # not_sure)"
  by code_simp

section \<open>Climbing the ladder\<close>

definition route_ok :: "str \<Rightarrow> tier_ladder \<Rightarrow> turn_route \<Rightarrow> bool" where
  "route_ok parent_model ladder r \<longleftrightarrow>
     (tr_tier r, tr_model r) \<in> set ladder \<and> (tr_on_cheap r \<longleftrightarrow> tr_tier r \<noteq> StrongTier) \<and> (tr_escalated r \<longrightarrow> tr_tier r = StrongTier)
     \<and> (tr_tier r = StrongTier \<longrightarrow> tr_model r = parent_model)"

text \<open>The polls of a turn in their order.\<close>

datatype route_event =
    PollText turn_counters str
  | PollResults turn_counters "(str \<times> json) list" "(str \<times> json) list"

fun route_step :: "tier_ladder \<Rightarrow> routing_config \<Rightarrow> u64 \<Rightarrow> route_event \<Rightarrow> turn_route \<Rightarrow> escalation_reason option \<times> turn_route" where
  "route_step ladder cfg m (PollText k delta) r = poll_escalation ladder cfg m k delta r"
| "route_step ladder cfg m (PollResults k calls results) r = poll_diversity ladder cfg k calls results r"

fun route_run :: "tier_ladder \<Rightarrow> routing_config \<Rightarrow> u64 \<Rightarrow> route_event list \<Rightarrow> turn_route \<Rightarrow> escalation_reason list \<times> turn_route" where
  "route_run ladder cfg m [] r = ([], r)"
| "route_run ladder cfg m (e # es) r =
     (case route_step ladder cfg m e r of
        (reason, r') \<Rightarrow> (case route_run ladder cfg m es r' of
          (reasons, r'') \<Rightarrow> ((case reason of Some x \<Rightarrow> x # reasons | None \<Rightarrow> reasons), r'')))"

lemma strong_rung: "ladder_ok parent_model ladder \<Longrightarrow> (StrongTier, m) \<in> set ladder \<Longrightarrow> m = parent_model"
  by (erule ladder_cases) auto

lemma step_up_ok:
  assumes ladder: "ladder_ok parent_model ladder" and r: "route_ok parent_model ladder r"
    and cheap: "tr_on_cheap r" and up: "next_up ladder (tr_tier r) = Some rung"
  shows "route_ok parent_model ladder (step_up cfg k rung r) \<and> tr_tier r < tr_tier (step_up cfg k rung r)
    \<and> rc_escalation_sticky_turns cfg \<le> tr_sticky (step_up cfg k rung r) \<and> tr_sticky r \<le> tr_sticky (step_up cfg k rung r)"
proof -
  have "tr_tier r < fst rung" "rung \<in> set ladder" using next_up_higher [of ladder "tr_tier r" "fst rung" "snd rung"] up by simp_all
  moreover have "\<not> tr_escalated r" using r cheap by (auto simp: route_ok_def)
  ultimately show ?thesis using strong_rung [OF ladder, of "snd rung"]
    by (cases rung) (auto simp: step_up_def route_ok_def sticky_engage_def)
qed

text \<open>One poll: the tier stays, or the reason is reported and the tier rises.\<close>

definition poll_ok :: "str \<Rightarrow> tier_ladder \<Rightarrow> routing_config \<Rightarrow> turn_route \<Rightarrow> escalation_reason option \<times> turn_route \<Rightarrow> bool" where
  "poll_ok parent_model ladder cfg r out \<longleftrightarrow>
     (case out of (reason, r') \<Rightarrow>
        route_ok parent_model ladder r'
        \<and> tr_sticky r \<le> tr_sticky r'
        \<and> (if reason = None then tr_tier r' = tr_tier r \<and> tr_model r' = tr_model r \<and> tr_sticky r' = tr_sticky r
           else tr_tier r < tr_tier r' \<and> rc_escalation_sticky_turns cfg \<le> tr_sticky r'))"

lemma poll_ok_step_up:
  assumes "ladder_ok parent_model ladder" "route_ok parent_model ladder r" "tr_on_cheap r"
    and "q = r\<lparr>tr_detector := d\<rparr> \<or> q = r\<lparr>tr_results_seen := n, tr_paths := ps\<rparr>"
  shows "poll_ok parent_model ladder cfg r (None, q)"
    and "next_up ladder (tr_tier r) = Some rung \<Longrightarrow> poll_ok parent_model ladder cfg r (Some reason, step_up cfg k rung q)"
proof -
  have same: "route_ok parent_model ladder q" "tr_on_cheap q" "tr_tier q = tr_tier r" "tr_sticky q = tr_sticky r" "tr_model q = tr_model r"
    using assms(2-4) by (auto simp: route_ok_def)
  then show "poll_ok parent_model ladder cfg r (None, q)" by (simp add: poll_ok_def)
  assume "next_up ladder (tr_tier r) = Some rung"
  then show "poll_ok parent_model ladder cfg r (Some reason, step_up cfg k rung q)"
    using step_up_ok [OF assms(1) same(1,2), of rung cfg k] same by (simp add: poll_ok_def)
qed

lemma route_step_ok:
  assumes "ladder_ok parent_model ladder" "route_ok parent_model ladder r"
  shows "poll_ok parent_model ladder cfg r (route_step ladder cfg m e r)"
proof (cases "tr_on_cheap r")
  case True
  note up = poll_ok_step_up [OF assms True]
  show ?thesis
  proof (cases e)
    case (PollText k delta)
    obtain reason d where t: "maybe_trigger k delta True cfg m (tr_detector r) = (reason, d)" by (cases "maybe_trigger k delta True cfg m (tr_detector r)")
    show ?thesis
    proof (cases "next_up ladder (tr_tier r)")
      case None
      then show ?thesis using PollText True t up(1) [where q = "r\<lparr>tr_detector := d\<rparr>" and d = d]
        by (cases reason) (simp_all add: poll_escalation_def)
    next
      case (Some rung)
      then show ?thesis using PollText True t up [where q = "r\<lparr>tr_detector := d\<rparr>" and d = d]
        by (cases reason) (simp_all add: poll_escalation_def)
    qed
  next
    case (PollResults k calls results)
    obtain n ps where c: "collect_tool_round_paths calls results (3 - tr_results_seen r) (tr_paths r) = (n, ps)" by fastforce
    let ?r = "r\<lparr>tr_results_seen := tr_results_seen r + n, tr_paths := ps\<rparr>"
    have still: "poll_ok parent_model ladder cfg r (None, r)" using assms(2) by (simp add: poll_ok_def)
    show ?thesis
    proof (cases "next_up ladder (tr_tier r)")
      case None
      then show ?thesis using PollResults True c still up(1) [where q = ?r and n = "tr_results_seen r + n" and ps = ps]
        by (simp add: poll_diversity_def Let_def)
    next
      case (Some rung)
      then show ?thesis using PollResults True c still up [where q = ?r and n = "tr_results_seen r + n" and ps = ps]
        by (simp add: poll_diversity_def Let_def)
    qed
  qed
next
  case False
  then show ?thesis using assms(2) by (cases e) (simp_all add: poll_escalation_def poll_diversity_def poll_ok_def)
qed

lemma tier_rank_less: "t < t' \<Longrightarrow> tier_rank t < tier_rank t'"
  by (simp add: less_model_tier_def)


text \<open>A run of a turn on the three rungs of a provider.\<close>

definition started :: turn_route where
  "started = start_route (CheapTurn LlmJudge WeakTier (lit ''claude-haiku-4-5-20251001'')) parent_id 0"

definition many_calls :: turn_counters where
  "many_calls = \<lparr>tk_tool_calls = 30, tk_tool_errors = 0, tk_budget_denials = 0\<rparr>"

definition climbing_events :: "route_event list" where
  "climbing_events = [PollText no_calls (lit ''Looking.''), PollText many_calls [], PollText many_calls (lit ''I am not sure'')]"


section \<open>The rung that holds the context\<close>

lemma next_up_least:
  assumes "ladder_ok parent_model ladder" "next_up ladder tier = Some r" "(t, m) \<in> set ladder" "tier < t"
  shows "fst r \<le> t"
  using assms by (cases rule: ladder_cases [OF assms(1)]) (auto simp: next_up_def split: if_splits)

lemma next_up_exists: "ladder_ok parent_model ladder \<Longrightarrow> tier \<noteq> StrongTier \<Longrightarrow> next_up ladder tier \<noteq> None"
  by (erule ladder_cases) (auto simp: next_up_def)

lemma same_rung: "ladder_ok parent_model ladder \<Longrightarrow> (t, m) \<in> set ladder \<Longrightarrow> (t, m') \<in> set ladder \<Longrightarrow> m = m'"
  by (erule ladder_cases) auto

text \<open>Before its first request a routed turn climbs to the lowest rung from its own upward whose window holds the conversation as
  it stands, and to the parent when none does.\<close>

theorem context_fit_is_lowest:
  assumes "ladder_ok parent_model ladder" "(tier, model) \<in> set ladder"
    and "fit_rung ladder parent_model fits tier model = (tier', model')"
  shows "(tier', model') \<in> set ladder \<and> tier \<le> tier' \<and> (tier' = StrongTier \<or> fits model')
    \<and> (\<forall>(t, m) \<in> set ladder. tier \<le> t \<and> t < tier' \<longrightarrow> \<not> fits m)"
  using assms
proof (induction ladder parent_model fits tier model rule: fit_rung.induct)
  case (1 ladder parent_model fits tier model)
  note run = "1.prems"(3) [unfolded fit_rung.simps [of ladder parent_model fits tier model]]
  show ?case
  proof (cases "tier = StrongTier \<or> fits model")
    case True
    then show ?thesis using run "1.prems"(2) by (auto split: if_splits)
  next
    case False
    then obtain r where r: "next_up ladder tier = Some r" using next_up_exists [OF "1.prems"(1)] by blast
    note up = next_up_higher [of ladder tier "fst r" "snd r"]
    have ih: "(tier', model') \<in> set ladder \<and> fst r \<le> tier' \<and> (tier' = StrongTier \<or> fits model')
      \<and> (\<forall>(t, m) \<in> set ladder. fst r \<le> t \<and> t < tier' \<longrightarrow> \<not> fits m)"
      using "1.IH" [of r] False r run up "1.prems"(1) by simp
    have "\<not> fits m" if "(t, m) \<in> set ladder" "tier \<le> t" "t < tier'" for t m
    proof (cases "t = tier")
      case True
      then show ?thesis using same_rung [OF "1.prems"(1,2)] that False by blast
    next
      case other: False
      then show ?thesis using next_up_least [OF "1.prems"(1) r that(1)] ih that by auto
    qed
    then show ?thesis using ih up r by (auto intro: order.trans less_imp_le)
  qed
qed

lemma context_fit_is_lowest_witness:
  "fit_rung sample_ladder parent_id (\<lambda>m. m = lit ''claude-sonnet-4-6'') WeakTier (lit ''claude-haiku-4-5-20251001'')
     = (MediumTier, lit ''claude-sonnet-4-6'')
   \<and> WeakTier \<le> MediumTier"
proof -
  have ladder: "ladder_ok parent_id sample_ladder" by (simp add: sample_ladder_def ladder_resolve_ok)
  have on: "(WeakTier, lit ''claude-haiku-4-5-20251001'') \<in> set sample_ladder" by code_simp
  have run: "fit_rung sample_ladder parent_id (\<lambda>m. m = lit ''claude-sonnet-4-6'') WeakTier (lit ''claude-haiku-4-5-20251001'')
     = (MediumTier, lit ''claude-sonnet-4-6'')" by code_simp
  with context_fit_is_lowest [OF ladder on run] show ?thesis by simp
qed

section \<open>The broad result is counted twice\<close>

definition broad_result :: json where
  "broad_result = JArray (map (\<lambda>n. JString (lit ''src/'' @ show_nat n)) [0..<8])"

definition diversity_events :: "route_event list" where
  "diversity_events =
     [PollResults no_calls [] [(lit ''c1'', broad_result)], PollResults no_calls [] [(lit ''c2'', JString (lit ''ok''))]]"

text \<open>An escalation re-arms the detector but not the predictive check: the paths of the result that moved the turn up one rung are
  still there after the next round, whose results name no path, and move it up again.\<close>

theorem broad_result_escalates_twice:
  "fst (route_run sample_ladder default_routing 100 diversity_events started) = [ToolDiversity, ToolDiversity]
   \<and> tr_tier (snd (route_run sample_ladder default_routing 100 diversity_events started)) = StrongTier"
  by code_simp

section \<open>The sticky window\<close>

fun sticky_ticks :: "nat \<Rightarrow> u8 \<Rightarrow> bool list" where
  "sticky_ticks 0 remaining = []"
| "sticky_ticks (Suc n) remaining = (case sticky_tick remaining of (forced, remaining') \<Rightarrow> forced # sticky_ticks n remaining')"

text \<open>An engaged window forces exactly the turns it was engaged for, or what is left of a longer one.\<close>

theorem sticky_window_is_exact:
  "sticky_ticks n (sticky_engage turns remaining)
     = map (\<lambda>i. i < max (unat remaining) (unat turns)) [0..<n]"
proof -
  have "sticky_ticks n r = map (\<lambda>i. i < unat r) [0..<n]" for r
  proof (induction n arbitrary: r)
    case (Suc n)
    have shift: "map (\<lambda>i. i < unat r) [0..<Suc n] = (0 < unat r) # map (\<lambda>i. Suc i < unat r) [0..<n]"
      by (simp add: upt_conv_Cons map_Suc_upt [symmetric] del: upt_Suc)
    show ?case
    proof (cases "r = 0")
      case False
      then have "unat (r - 1) = unat r - 1" by (simp add: unat_minus_one)
      then show ?thesis using Suc [of "r - 1"] shift False by (auto simp: sticky_tick_def unat_gt_0)
    qed (use Suc [of 0] shift in \<open>simp add: sticky_tick_def\<close>)
  qed simp
  moreover have "unat (sticky_engage turns remaining) = max (unat remaining) (unat turns)"
    by (simp add: sticky_engage_def max_def word_le_nat_alt)
  ultimately show ?thesis by simp
qed

end
