(* ===== verification/HashMaps.thy ===== *)
theory HashMaps
  imports Prelude "HOL-Library.AList"
begin

text \<open>
  Rust's \<open>HashMap\<close> as an association list with distinct keys, in the order an iteration visits them (one of the orders the
  real map may have): \<open>insert\<close> is \<open>AList.update\<close>, \<open>remove\<close> is \<open>AList.delete\<close>, \<open>retain\<close> is \<open>filter\<close>.  An index is built with
  \<open>entry(k).or_default().push(v)\<close>, here \<open>push_at\<close>, and read with \<open>get(k).into_iter().flatten()\<close>, here \<open>bucket\<close>.
\<close>

type_synonym ('k, 'v) hash_map = "('k \<times> 'v) list"

definition keys_distinct :: "('k, 'v) hash_map \<Rightarrow> bool" where
  "keys_distinct m \<longleftrightarrow> distinct (map fst m)"

definition bucket :: "('k, 'v list) hash_map \<Rightarrow> 'k \<Rightarrow> 'v list" where
  "bucket m k = (case map_of m k of Some vs \<Rightarrow> vs | None \<Rightarrow> [])"

definition push_at :: "'k \<Rightarrow> 'v \<Rightarrow> ('k, 'v list) hash_map \<Rightarrow> ('k, 'v list) hash_map" where
  "push_at k v m = AList.update k (bucket m k @ [v]) m"

definition group_by :: "('k \<times> 'v) list \<Rightarrow> ('k, 'v list) hash_map" where
  "group_by kvs = fold (\<lambda>(k, v) m. push_at k v m) kvs []"

text \<open>Inserting a list of entries one after the other: the last one for a key stays.\<close>

definition insert_entries :: "('k \<times> 'v) list \<Rightarrow> ('k, 'v) hash_map \<Rightarrow> ('k, 'v) hash_map" where
  "insert_entries kvs m = fold (\<lambda>(k, v) m. AList.update k v m) kvs m"

lemma bucket_Nil [simp]: "bucket [] k = []"
  by (simp add: bucket_def)

lemma map_of_push_at: "map_of (push_at k v m) = (map_of m)(k \<mapsto> bucket m k @ [v])"
  by (simp add: push_at_def update_conv')

lemma bucket_push_at: "bucket (push_at k v m) k' = bucket m k' @ (if k = k' then [v] else [])"
  by (auto simp: bucket_def map_of_push_at)

lemma bucket_fold_push:
  "bucket (fold (\<lambda>(k, v) m. push_at k v m) kvs m) k = bucket m k @ map snd (filter (\<lambda>kv. fst kv = k) kvs)"
proof (induction kvs arbitrary: m)
  case (Cons kv kvs)
  then show ?case by (cases kv) (simp add: bucket_push_at)
qed simp

lemma bucket_group_by: "bucket (group_by kvs) k = map snd (filter (\<lambda>kv. fst kv = k) kvs)"
  by (simp add: group_by_def bucket_fold_push)

lemma keys_fold_push: "fst ` set (fold (\<lambda>(k, v) m. push_at k v m) kvs m) = fst ` set m \<union> fst ` set kvs"
proof (induction kvs arbitrary: m)
  case (Cons kv kvs)
  have "fst ` set (push_at (fst kv) (snd kv) m) = insert (fst kv) (fst ` set m)"
    by (simp add: push_at_def dom_update)
  with Cons show ?case by (cases kv) auto
qed simp

lemma map_of_group_by_None: "map_of (group_by kvs) k = None \<longleftrightarrow> k \<notin> fst ` set kvs"
  using keys_fold_push [of kvs "[]"] by (simp add: group_by_def map_of_eq_None_iff)

lemma map_of_group_by:
  "map_of (group_by kvs) k = (if k \<in> fst ` set kvs then Some (map snd (filter (\<lambda>kv. fst kv = k) kvs)) else None)"
proof (cases "map_of (group_by kvs) k")
  case None
  then show ?thesis by (simp add: map_of_group_by_None)
next
  case (Some vs)
  then have "vs = map snd (filter (\<lambda>kv. fst kv = k) kvs)" using bucket_group_by [of kvs k] by (simp add: bucket_def)
  with Some map_of_group_by_None [of kvs k] show ?thesis by auto
qed

lemma bucket_positions:
  "bucket (group_by (map (\<lambda>(i, x). (f x, i)) (enumerate 0 xs))) k = filter (\<lambda>i. f (xs ! i) = k) [0..<length xs]"
proof -
  have enum: "enumerate 0 xs = map (\<lambda>i. (i, xs ! i)) [0..<length xs]" by (rule nth_equalityI) (simp_all add: nth_enumerate_eq)
  show ?thesis by (simp add: bucket_group_by enum filter_map o_def)
qed

lemma map_of_insert_entries: "map_of (insert_entries kvs m) = map_of m ++ map_of (rev kvs)"
proof (induction kvs arbitrary: m)
  case (Cons kv kvs)
  obtain k v where kv: "kv = (k, v)" by (cases kv)
  have "map_of (insert_entries (kv # kvs) m) = map_of (AList.update k v m) ++ map_of (rev kvs)"
    using Cons by (simp add: insert_entries_def kv)
  also have "\<dots> = map_of m ++ (map_of [(k, v)] ++ map_of (rev kvs))"
    by (simp add: update_conv' map_add_assoc)
  finally show ?case by (simp add: kv)
qed (simp add: insert_entries_def)

lemma keys_distinct_insert_entries: "keys_distinct m \<Longrightarrow> keys_distinct (insert_entries kvs m)"
proof (induction kvs arbitrary: m)
  case (Cons kv kvs)
  then show ?case by (cases kv) (simp add: insert_entries_def keys_distinct_def distinct_update)
qed (simp add: insert_entries_def)

lemma keys_distinct_filter: "keys_distinct m \<Longrightarrow> keys_distinct (filter P m)"
  by (simp add: keys_distinct_def distinct_map_filter)

lemma map_of_filter: "keys_distinct m \<Longrightarrow>
    map_of (filter P m) k = (case map_of m k of Some v \<Rightarrow> if P (k, v) then Some v else None | None \<Rightarrow> None)"
  by (induction m) (auto simp: keys_distinct_def map_of_eq_None_iff [THEN iffD2] image_iff split: option.splits dest: map_of_SomeD)

end
