(* ===== verification/StrOps.thy ===== *)
theory StrOps
  imports Prelude
begin

text \<open>
  More of the standard library's string operations: splitting at and trimming of string patterns.
\<close>

text \<open>\<open>str::split\<close> and \<open>str::split_once\<close> on a non-empty string pattern.\<close>

function split_str :: "str \<Rightarrow> str \<Rightarrow> str list" where
  "split_str p s =
     (if p = [] then [s]
      else (case find_str s p of
              None \<Rightarrow> [s]
            | Some i \<Rightarrow> take i s # split_str p (drop (i + length p) s)))"
  by pat_completeness auto

lemma find_str_rest_shorter:
  assumes "p \<noteq> []" "find_str s p = Some i"
  shows "length (drop (i + length p) s) < length s"
proof -
  have "s = take i s @ p @ drop (i + length p) s" using find_str_Some [OF assms(2)] by blast
  then have "length s = length (take i s) + length p + length (drop (i + length p) s)"
    by (metis length_append add.assoc)
  with assms(1) show ?thesis by (cases p) auto
qed

termination split_str
  by (relation "measure (\<lambda>(p, s). length s)") (auto dest: find_str_rest_shorter)

declare split_str.simps [simp del]

definition split_once_str :: "str \<Rightarrow> str \<Rightarrow> (str \<times> str) option" where
  "split_once_str p s = map_option (\<lambda>i. (take i s, drop (i + length p) s)) (find_str s p)"

text \<open>\<open>str::rsplit(p).next()\<close>: what stands after the last occurrence.\<close>

function after_last_opt :: "str \<Rightarrow> str \<Rightarrow> str option" where
  "after_last_opt p s =
     (if p = [] then None
      else (case find_str s p of
              None \<Rightarrow> None
            | Some i \<Rightarrow> (case after_last_opt p (drop (Suc i) s) of
                          Some r \<Rightarrow> Some r | None \<Rightarrow> Some (drop (i + length p) s))))"
  by pat_completeness auto
termination
proof (relation "measure (\<lambda>(p, s). length s)")
  fix p s :: str and i :: nat
  assume "p \<noteq> []" "find_str s p = Some i"
  then have "length (drop (i + length p) s) < length s" by (rule find_str_rest_shorter)
  then have "s \<noteq> []" by auto
  then show "((p, drop (Suc i) s), (p, s)) \<in> measure (\<lambda>(p, s). length s)" by simp
qed simp

declare after_last_opt.simps [simp del]

definition after_last :: "str \<Rightarrow> str \<Rightarrow> str" where
  "after_last p s = (case after_last_opt p s of Some r \<Rightarrow> r | None \<Rightarrow> s)"

text \<open>\<open>trim_end_matches\<close> and \<open>trim_start_matches\<close> of a string pattern.\<close>

function trim_end_str :: "str \<Rightarrow> str \<Rightarrow> str" where
  "trim_end_str p s = (if p \<noteq> [] \<and> ends_with s p then trim_end_str p (take (length s - length p) s) else s)"
  by pat_completeness auto
termination
  by (relation "measure (\<lambda>(p, s). length s)") (auto simp: ends_with_iff)

function trim_start_str :: "str \<Rightarrow> str \<Rightarrow> str" where
  "trim_start_str p s = (if p \<noteq> [] \<and> starts_with s p then trim_start_str p (drop (length p) s) else s)"
  by pat_completeness auto
termination
  by (relation "measure (\<lambda>(p, s). length s)") (auto simp: starts_with_iff)

declare trim_end_str.simps [simp del] trim_start_str.simps [simp del]

lemma after_last_absent: "p \<noteq> [] \<Longrightarrow> \<not> contains s p \<Longrightarrow> after_last p s = s"
  unfolding after_last_def contains_def by (subst after_last_opt.simps) simp

end
