(* ===== verification/GraphNames.thy ===== *)
theory GraphNames
  imports StrOps
begin

text \<open>
  Names and paths in the code graph (\<open>crates/squeezy-graph/src/lib.rs\<close>): the leaf and the segments of a dotted or scoped
  path, the module path of a file, the package of a path, the suffix a path-like import names, and the headers of Rust
  \<open>impl\<close> blocks.
\<close>

section \<open>Paths\<close>

definition last_path_segment :: "str \<Rightarrow> str" where
  "last_path_segment path =
     (let segment = after_last [DOT] (after_last [SLASH] (after_last (lit ''::'') (after_last (lit ''->'') path)))
      in trim_end_str (lit ''::*'') (trim_end_matches (\<lambda>c. c = 33) (trim (hd (split_on (\<lambda>c. c = LESS) segment)))))"

definition path_segments :: "str \<Rightarrow> str list" where
  "path_segments path =
     (let pieces = concat (map (split_on (\<lambda>c. c = SLASH)) (split_str (lit ''::'') path));
          pieces = concat (map (split_on (\<lambda>c. c = DOT)) pieces)
      in filter (\<lambda>s. s \<noteq> [])
           (map (\<lambda>s. trim_end_str (lit ''::*'') (trim_end_matches (\<lambda>c. c = 33) s))
             (filter (\<lambda>s. s \<noteq> []) (map trim pieces))))"

definition receiver_split :: "str \<Rightarrow> uchar \<Rightarrow> str option" where
  "receiver_split s delimiter =
     (case rsplit_once delimiter s of
        None \<Rightarrow> None
      | Some (_, rest) \<Rightarrow> if trim rest = [] then None else Some (trim rest))"

definition module_path_for_file :: "str \<Rightarrow> str list" where
  "module_path_for_file path =
     (let path = trim_end_str (lit ''.rs'') path;
          path = (case split_once_str (lit ''/src/'') path of
                    Some (_, rest) \<Rightarrow> rest
                  | None \<Rightarrow>
                      (case strip_prefix path (lit ''src/'') of
                         Some rest \<Rightarrow> rest
                       | None \<Rightarrow>
                           (case strip_prefix path (lit ''crates/'') of
                              Some rest \<Rightarrow> (case split_once SLASH rest of Some (_, rest) \<Rightarrow> rest | None \<Rightarrow> path)
                            | None \<Rightarrow> path)));
          path = (case strip_suffix path (lit ''/mod'') of Some rest \<Rightarrow> rest | None \<Rightarrow> path)
      in lit ''crate'' # filter (\<lambda>s. s \<noteq> lit ''lib'' \<and> s \<noteq> lit ''main'' \<and> s \<noteq> []) (split_on (\<lambda>c. c = SLASH) path))"

definition package_key :: "str \<Rightarrow> str" where
  "package_key path =
     (case split_on (\<lambda>c. c = SLASH) path of
        first # second # _ \<Rightarrow>
          if first = lit ''crates'' then lit ''crates/'' @ second
          else if one_of first [''src'', ''tests'', ''benches'', ''examples''] then [DOT] else first
      | _ \<Rightarrow> [DOT])"

definition strip_source_extension :: "str \<Rightarrow> str" where
  "strip_source_extension path =
     (case rsplit_once DOT path of
        Some (stem, ext) \<Rightarrow> if SLASH \<notin> set ext \<and> stem \<noteq> [] then stem else path
      | None \<Rightarrow> path)"

definition import_path_filesystem_suffix :: "str \<Rightarrow> str option" where
  "import_path_filesystem_suffix import_path =
     (let path = trim import_path;
          path = (case strip_prefix path (lit ''package:'') of
                    Some rest \<Rightarrow> (case split_once SLASH rest of Some (_, rest) \<Rightarrow> rest | None \<Rightarrow> rest)
                  | None \<Rightarrow> path);
          path = trim_start_str (lit ''./'') path
      in if SLASH \<notin> set path then None
         else (let normalized = trim_start_matches (\<lambda>c. c = SLASH) (strip_source_extension path)
               in if SLASH \<notin> set normalized then None else Some normalized))"

definition file_path_matches_import_suffix :: "str \<Rightarrow> str \<Rightarrow> bool" where
  "file_path_matches_import_suffix relative_path suffix_path =
     (let file_stem = trim_start_str (lit ''./'') (strip_source_extension relative_path)
      in file_stem = suffix_path \<or> ends_with file_stem (SLASH # suffix_path)
         \<or> ends_with file_stem (SLASH # suffix_path @ lit ''/index'') \<or> ends_with file_stem (SLASH # suffix_path @ lit ''/mod''))"

section \<open>Headers of \<open>impl\<close> blocks\<close>

definition first_token :: "str \<Rightarrow> str" where
  "first_token s = (case split_ws s of w # _ \<Rightarrow> w | [] \<Rightarrow> [])"

definition is_ident_char :: "uchar \<Rightarrow> bool" where
  "is_ident_char c \<longleftrightarrow> is_alnum c \<or> c = UNDERSCORE"

definition header_target :: "str \<Rightarrow> str" where
  "header_target header = (case split_once_str (lit '' for '') header of Some (_, target) \<Rightarrow> target | None \<Rightarrow> header)"

definition impl_header_matches_type :: "str \<Rightarrow> str \<Rightarrow> bool" where
  "impl_header_matches_type header type_name \<longleftrightarrow>
     last_path_segment (trim_matches (\<lambda>c. \<not> is_ident_char c) (first_token (header_target header))) = type_name"

definition impl_header_type_name :: "str \<Rightarrow> str" where
  "impl_header_type_name header =
     last_path_segment (trim_matches (\<lambda>c. \<not> is_ident_char c \<and> c \<noteq> COLON) (first_token (header_target header)))"

definition impl_header_trait_name :: "str \<Rightarrow> str option" where
  "impl_header_trait_name header =
     (case split_once_str (lit '' for '') header of
        None \<Rightarrow> None
      | Some (trait_part, _) \<Rightarrow>
          (let leaf = last_path_segment (trim_matches (\<lambda>c. \<not> is_ident_char c \<and> c \<noteq> COLON) (first_token trait_part))
           in if leaf = [] then None else Some leaf))"

section \<open>Markers and receivers\<close>

definition is_package_marker_alias :: "str option \<Rightarrow> bool" where
  "is_package_marker_alias alias =
     (case alias of Some a \<Rightarrow> one_of a [''__java_package__'', ''__kotlin_package__'', ''__scala_package__''] | None \<Rightarrow> False)"

definition is_self_receiver :: "str option \<Rightarrow> bool" where
  "is_self_receiver receiver = (case receiver of Some r \<Rightarrow> one_of r [''self'', ''this'', ''cls'', ''Self''] | None \<Rightarrow> False)"

text \<open>The one symbol of a list, if there is exactly one; \<open>single_unique\<close> and \<open>single_symbol\<close> of the code.\<close>

definition single_symbol :: "str list \<Rightarrow> str option" where
  "single_symbol symbols = (case remdups symbols of [only] \<Rightarrow> Some only | _ \<Rightarrow> None)"

fun single_unique_from :: "str option \<Rightarrow> str list \<Rightarrow> str option" where
  "single_unique_from seen [] = seen"
| "single_unique_from None (x # xs) = single_unique_from (Some x) xs"
| "single_unique_from (Some e) (x # xs) = (if e = x then single_unique_from (Some e) xs else None)"

definition single_unique :: "str list \<Rightarrow> str option" where
  "single_unique symbols = single_unique_from None symbols"

lemma single_symbol_Some: "single_symbol xs = Some x \<longleftrightarrow> set xs = {x}"
proof
  assume "single_symbol xs = Some x"
  then have "remdups xs = [x]" by (auto simp: single_symbol_def split: list.splits)
  then show "set xs = {x}" by (metis set_remdups list.set(1) list.set(2))
next
  assume "set xs = {x}"
  then have "set (remdups xs) = {x}" "distinct (remdups xs)" by simp_all
  then have "remdups xs = [x]"
    by (cases "remdups xs") (auto, metis distinct.simps(2) list.set_cases set_ConsD singletonD subset_singletonD insertE empty_iff list.set_intros(1) neq_Nil_conv)
  then show "single_symbol xs = Some x" by (simp add: single_symbol_def)
qed

lemma single_unique_from_Some:
  "single_unique_from (Some e) xs = Some x \<longleftrightarrow> e = x \<and> set xs \<subseteq> {x}"
  by (induction xs) auto

lemma single_unique_eq: "single_unique xs = single_symbol xs"
proof -
  have "single_unique xs = Some x \<longleftrightarrow> set xs = {x}" for x
    by (cases xs) (auto simp: single_unique_def single_unique_from_Some)
  then show ?thesis by (metis single_symbol_Some not_Some_eq)
qed

end
