(* ===== verification/SemanticGraph.thy ===== *)
theory SemanticGraph
  imports HashMaps GraphNames
begin

text \<open>
  The state of the code graph (\<open>crates/squeezy-graph/src/lib.rs\<close>): what the parsers deliver for a file
  (\<open>crates/squeezy-parse/src/lib.rs\<close>), the symbols and edges of the graph, and its indexes.  Left out are the project facts read
  from build files and the path table of JavaScript and TypeScript, which only language-specific code reads.
\<close>

section \<open>Vocabulary\<close>

datatype symbol_kind = ClassKind | CrateKind | FileKind | InterfaceKind | ModuleKind | StructKind | EnumKind | UnionKind
  | TraitKind | ImplKind | FunctionKind | MethodKind | ConstKind | StaticKind | TypeAliasKind | FieldKind | VariantKind
  | MacroKind | TestKind | UnknownKind

datatype edge_kind = ContainsEdge | ImportsEdge | ReexportsEdge | CallsEdge | ReferencesEdge | ExtendsEdge | PartialOfEdge
  | ImplementsEdge | InherentImplEdge | TraitImplEdge | TestOfEdge | DefinesMacroEdge | InvokesMacroEdge | ConditionalEdge
  | UsesTraitEdge

datatype confidence_level = ExactSyntax | ImportResolved | Heuristic | CandidateSet | ExternalTarget | MacroOpaque
  | ConditionalUnknown | UnsupportedSyntax | StaleFact | PartialFact

datatype freshness = FreshRow | StaleRow | PartialRow | UnknownRow

datatype language_kind = LangC | LangCSharp | LangCpp | LangDart | LangGo | LangJava | LangJavaScript | LangJsx | LangKotlin
  | LangPhp | LangPython | LangRuby | LangRust | LangScala | LangSwift | LangTypeScript | LangTsx | LangUnsupported | LangUnknown

record source_point =
  pt_line :: u32
  pt_column :: u32

record source_span =
  sp_start_byte :: u32
  sp_end_byte :: u32
  sp_start :: source_point
  sp_end :: source_point

definition zero_span :: source_span where
  "zero_span = \<lparr>sp_start_byte = 0, sp_end_byte = 0, sp_start = \<lparr>pt_line = 0, pt_column = 0\<rparr>, sp_end = \<lparr>pt_line = 0, pt_column = 0\<rparr>\<rparr>"

record provenance =
  pv_source :: str
  pv_reason :: str

section \<open>What a parser delivers\<close>

type_synonym file_id = str
type_synonym symbol_id = str

record file_record =
  fr_id :: file_id
  fr_relative_path :: str
  fr_hash :: str
  fr_size_bytes :: u64
  fr_modified_unix_millis :: u128
  fr_language :: language_kind
  fr_freshness :: freshness

record parsed_symbol =
  ps_id :: symbol_id
  ps_file_id :: file_id
  ps_parent_id :: "symbol_id option"
  ps_name :: str
  ps_kind :: symbol_kind
  ps_language_identity :: "str option"
  ps_span :: source_span
  ps_body_span :: "source_span option"
  ps_signature_span :: "source_span option"
  ps_signature :: str
  ps_visibility :: "str option"
  ps_docs :: "str list"
  ps_attributes :: "str list"
  ps_provenance :: provenance
  ps_confidence :: confidence_level
  ps_freshness :: freshness
  ps_arity :: "u8 option"

datatype import_kind = UnspecifiedImport | NamedImport | DefaultImport | NamespaceImport | StaticImport | WildcardImport

record parsed_import =
  im_file_id :: file_id
  im_owner_id :: "symbol_id option"
  im_path :: str
  im_alias :: "str option"
  im_is_glob :: bool
  im_is_reexport :: bool
  im_is_static :: bool
  im_span :: source_span
  im_provenance :: provenance
  im_kind :: import_kind
  im_imported_name :: "str option"
  im_is_global :: bool

datatype call_kind = DirectCall | MethodCall | MacroCall

record parsed_call =
  ca_file_id :: file_id
  ca_caller_id :: "symbol_id option"
  ca_name :: str
  ca_target_text :: str
  ca_receiver :: "str option"
  ca_arity :: nat
  ca_kind :: call_kind
  ca_span :: source_span
  ca_provenance :: provenance
  ca_confidence :: confidence_level

datatype reference_kind = IdentifierRef | TypeRef | PathRef | FieldRef | AttributeRef

record parsed_reference =
  re_file_id :: file_id
  re_owner_id :: "symbol_id option"
  re_text :: str
  re_kind :: reference_kind
  re_span :: source_span
  re_provenance :: provenance

datatype body_hit_kind = IdentifierHit | TypeHit | PathHit | CallHit | MacroHit | LiteralHit | AttributeHit

record body_hit =
  bh_file_id :: file_id
  bh_owner_id :: "symbol_id option"
  bh_text :: str
  bh_kind :: body_hit_kind
  bh_span :: source_span

text \<open>A parsed file; an unsupported one carries the reason and the fallback.\<close>

record parsed_file =
  pf_file :: file_record
  pf_package :: "str option"
  pf_symbols :: "parsed_symbol list"
  pf_imports :: "parsed_import list"
  pf_calls :: "parsed_call list"
  pf_references :: "parsed_reference list"
  pf_body_hits :: "body_hit list"
  pf_unsupported :: "(str \<times> str) option"

definition edge_kind_for_call :: "call_kind \<Rightarrow> edge_kind" where
  "edge_kind_for_call k = (case k of MacroCall \<Rightarrow> InvokesMacroEdge | _ \<Rightarrow> CallsEdge)"

section \<open>The graph\<close>

record dirty_range =
  dr_start_line :: u32
  dr_end_line :: u32

record dirty_annotation =
  da_status :: str
  da_ranges :: "dirty_range list"

record graph_symbol =
  gs_id :: symbol_id
  gs_file_id :: file_id
  gs_parent_id :: "symbol_id option"
  gs_name :: str
  gs_kind :: symbol_kind
  gs_language_identity :: "str option"
  gs_span :: source_span
  gs_body_span :: "source_span option"
  gs_signature_span :: "source_span option"
  gs_signature :: str
  gs_visibility :: "str option"
  gs_docs :: "str list"
  gs_attributes :: "str list"
  gs_provenance :: provenance
  gs_confidence :: confidence_level
  gs_freshness :: freshness
  gs_dirty :: "dirty_annotation option"
  gs_arity :: "u8 option"
  gs_scanned :: bool

definition graph_symbol_of :: "parsed_symbol \<Rightarrow> graph_symbol" where
  "graph_symbol_of s =
     \<lparr>gs_id = ps_id s, gs_file_id = ps_file_id s, gs_parent_id = ps_parent_id s, gs_name = ps_name s, gs_kind = ps_kind s,
      gs_language_identity = ps_language_identity s, gs_span = ps_span s, gs_body_span = ps_body_span s,
      gs_signature_span = ps_signature_span s, gs_signature = ps_signature s, gs_visibility = ps_visibility s, gs_docs = ps_docs s,
      gs_attributes = ps_attributes s, gs_provenance = ps_provenance s, gs_confidence = ps_confidence s,
      gs_freshness = ps_freshness s, gs_dirty = None, gs_arity = ps_arity s, gs_scanned = True\<rparr>"

record graph_edge =
  ed_from :: symbol_id
  ed_to :: "symbol_id option"
  ed_target_text :: str
  ed_kind :: edge_kind
  ed_span :: "source_span option"
  ed_confidence :: confidence_level
  ed_freshness :: freshness
  ed_provenance :: provenance
  ed_candidates :: "symbol_id list"

definition MAX_EDGE_CANDIDATES :: nat where "MAX_EDGE_CANDIDATES = 8"

definition BODY_HIT_TRIGRAM_INDEX_MAX_HITS :: nat where "BODY_HIT_TRIGRAM_INDEX_MAX_HITS = 100000"

datatype export_kind = NamedExport | DefaultExport | ReExport | StarExport | ModuleAliasExport

record export_entry =
  ex_name :: str
  ex_kind :: export_kind
  ex_symbol :: "symbol_id option"
  ex_source :: "file_id option"

record import_entry =
  ie_path :: str
  ie_imported_name :: "str option"
  ie_alias :: "str option"
  ie_source_file :: "file_id option"

record resolver_slot =
  rs_exports :: "(str, export_entry) hash_map"
  rs_imports :: "import_entry list"

definition empty_slot :: resolver_slot where "empty_slot = \<lparr>rs_exports = [], rs_imports = []\<rparr>"

type_synonym trigram = "u8 \<times> u8 \<times> u8"

record semantic_graph =
  sg_files :: "(file_id, file_record) hash_map"
  sg_symbols :: "(symbol_id, graph_symbol) hash_map"
  sg_packages :: "(file_id, str) hash_map"
  sg_edges :: "graph_edge list"
  sg_imports :: "parsed_import list"
  sg_calls :: "parsed_call list"
  sg_references :: "parsed_reference list"
  sg_body_hits :: "body_hit list"
  sg_symbols_by_name :: "(str, symbol_id list) hash_map"
  sg_signature_lower :: "(symbol_id, str) hash_map"
  sg_signature_trigrams :: "(trigram, symbol_id list) hash_map"
  sg_body_lower :: "str list"
  sg_body_trigrams :: "(trigram, nat list) hash_map"
  sg_body_indexed :: bool
  sg_body_fingerprint :: "u64 option"
  sg_references_by_text :: "(str, nat list) hash_map"
  sg_children :: "(symbol_id, symbol_id list) hash_map"
  sg_edges_by_from :: "(symbol_id, nat list) hash_map"
  sg_edges_by_to :: "(symbol_id, nat list) hash_map"
  sg_ancestor_edges :: "(symbol_id, symbol_id list \<times> symbol_id list \<times> symbol_id list) hash_map"
  sg_imports_by_file :: "(file_id, nat list) hash_map"
  sg_imports_by_alias_target :: "(str, nat list) hash_map"
  sg_imports_by_alias :: "(str, nat list) hash_map"
  sg_wildcard_imports :: "nat list"
  sg_java_packages :: "(file_id, str list) hash_map"
  sg_kotlin_packages :: "(file_id, str list) hash_map"
  sg_scala_packages :: "(file_id, str list) hash_map"
  sg_arity_index :: "(file_id \<times> str \<times> u8, symbol_id) hash_map"
  sg_importers_by_file :: "(file_id, file_id list) hash_map"
  sg_resolver_slots :: "(file_id, resolver_slot) hash_map"
  sg_by_identity :: "(str, symbol_id list) hash_map"
  sg_files_by_normalized :: "(str, file_id) hash_map"
  sg_case_collisions :: "(str \<times> str) list"

definition empty_graph :: semantic_graph where
  "empty_graph =
     \<lparr>sg_files = [], sg_symbols = [], sg_packages = [], sg_edges = [], sg_imports = [], sg_calls = [], sg_references = [],
      sg_body_hits = [], sg_symbols_by_name = [], sg_signature_lower = [], sg_signature_trigrams = [], sg_body_lower = [],
      sg_body_trigrams = [], sg_body_indexed = True, sg_body_fingerprint = None, sg_references_by_text = [], sg_children = [],
      sg_edges_by_from = [], sg_edges_by_to = [], sg_ancestor_edges = [], sg_imports_by_file = [],
      sg_imports_by_alias_target = [], sg_imports_by_alias = [], sg_wildcard_imports = [], sg_java_packages = [],
      sg_kotlin_packages = [], sg_scala_packages = [], sg_arity_index = [], sg_importers_by_file = [], sg_resolver_slots = [],
      sg_by_identity = [], sg_files_by_normalized = [], sg_case_collisions = []\<rparr>"

abbreviation symbol_at :: "semantic_graph \<Rightarrow> symbol_id \<Rightarrow> graph_symbol option" where
  "symbol_at g \<equiv> map_of (sg_symbols g)"

abbreviation file_at :: "semantic_graph \<Rightarrow> file_id \<Rightarrow> file_record option" where
  "file_at g \<equiv> map_of (sg_files g)"

definition all_symbols :: "semantic_graph \<Rightarrow> graph_symbol list" where
  "all_symbols g = map snd (sg_symbols g)"

end
