(* ===== verification/GraphStore.thy ===== *)
theory GraphStore
  imports SemanticGraph Utf8 "HOL-Library.List_Lexorder" "HOL-Library.Product_Lexorder"
begin

text \<open>
  The code graph's rows and indexes (\<open>crates/squeezy-graph/src/lib.rs\<close>): \<open>insert_parsed_file\<close>, \<open>remove_file_data\<close>,
  \<open>remove_files_data\<close>, \<open>rebuild_indexes\<close> and the indexes the resolver reads while the edges are rebuilt.  The lower-casing of
  the whole of Unicode, the standard hasher and the import rules of single languages are parameters.
\<close>

text \<open>The rules of single languages that \<open>resolve_call\<close> tries, by the name of their method.\<close>

datatype call_rule = PhpTypeCandidate | InheritedPythonMethod | InheritedRubyMethod | DartInheritedMethod | InheritedJsTsMethod
  | InheritedPhpMethod | JavaStaticImportedMethod | JavaReceiverFieldMethod | CsharpReceiverFieldMethod
  | KotlinExtensionFunction | KotlinCompanionMember | KotlinReceiverFieldMethod | SwiftExtensionReceiver
  | PythonReceiverAlias | PythonManagerDispatch | PythonModuleQualified | GoPackageQualified | GoReceiverMethod
  | ScalaCompanionMethod | ScalaExtensionMethod | DartImportPrefix | DartExtensionMethod | DartTypedLocal | TsReceiverTyped
  | CppMemberMethod | CFamilyIncludeDirect | ScalaTopLevelDef

record graph_env =
  gx_lowercase :: "str \<Rightarrow> str"
  gx_hash :: "str list \<Rightarrow> u64"
  gx_language_import :: "language_kind \<Rightarrow> semantic_graph \<Rightarrow> parsed_import \<Rightarrow> graph_symbol \<Rightarrow> bool"
  gx_csharp_type_edges :: "semantic_graph \<Rightarrow> graph_edge list"
  gx_php_type_edges :: "semantic_graph \<Rightarrow> graph_edge list"
  gx_python_route_edges :: "semantic_graph \<Rightarrow> graph_edge list"
  gx_type_candidates :: "language_kind \<Rightarrow> semantic_graph \<Rightarrow> file_id \<Rightarrow> str \<Rightarrow> symbol_id list"
  gx_rule :: "call_rule \<Rightarrow> semantic_graph \<Rightarrow> symbol_id list \<Rightarrow> symbol_id \<Rightarrow> parsed_call \<Rightarrow> symbol_id option"
  gx_unresolved_import :: "semantic_graph \<Rightarrow> symbol_id \<Rightarrow> parsed_call \<Rightarrow> bool"

section \<open>Inserting a file\<close>

definition file_symbol_id :: "file_id \<Rightarrow> symbol_id" where
  "file_symbol_id f = lit ''file:'' @ f"

definition file_symbol :: "file_record \<Rightarrow> graph_symbol" where
  "file_symbol f =
     \<lparr>gs_id = file_symbol_id (fr_id f), gs_file_id = fr_id f, gs_parent_id = None, gs_name = fr_relative_path f, gs_kind = FileKind,
      gs_language_identity = None, gs_span = zero_span, gs_body_span = None, gs_signature_span = None,
      gs_signature = fr_relative_path f, gs_visibility = None, gs_docs = [], gs_attributes = [],
      gs_provenance = \<lparr>pv_source = lit ''squeezy-workspace'', pv_reason = lit ''workspace file record''\<rparr>,
      gs_confidence = ExactSyntax, gs_freshness = fr_freshness f, gs_dirty = None, gs_arity = None, gs_scanned = True\<rparr>"

definition contains_edge :: "symbol_id \<Rightarrow> graph_symbol \<Rightarrow> graph_edge" where
  "contains_edge file_sym s =
     \<lparr>ed_from = (case gs_parent_id s of Some p \<Rightarrow> p | None \<Rightarrow> file_sym), ed_to = Some (gs_id s), ed_target_text = gs_name s,
      ed_kind = ContainsEdge, ed_span = Some (gs_span s), ed_confidence = ExactSyntax, ed_freshness = gs_freshness s,
      ed_provenance = \<lparr>pv_source = lit ''squeezy-graph'', pv_reason = lit ''contains edge from parser hierarchy''\<rparr>,
      ed_candidates = []\<rparr>"

definition file_symbols :: "parsed_file \<Rightarrow> (symbol_id \<times> graph_symbol) list" where
  "file_symbols pf =
     (file_symbol_id (fr_id (pf_file pf)), file_symbol (pf_file pf)) # map (\<lambda>s. (ps_id s, graph_symbol_of s)) (pf_symbols pf)"

definition insert_parsed_file :: "parsed_file \<Rightarrow> semantic_graph \<Rightarrow> semantic_graph" where
  "insert_parsed_file pf g =
     (let f = pf_file pf; id = fr_id f;
          g = g\<lparr>sg_files := AList.update id f (sg_files g),
                sg_packages := (case pf_package pf of Some p \<Rightarrow> AList.update id p (sg_packages g) | None \<Rightarrow> sg_packages g)\<rparr>
      in if pf_unsupported pf \<noteq> None then g
         else g\<lparr>sg_symbols := insert_entries (file_symbols pf) (sg_symbols g),
                sg_edges := sg_edges g @ map (\<lambda>s. contains_edge (file_symbol_id id) (graph_symbol_of s)) (pf_symbols pf),
                sg_imports := sg_imports g @ pf_imports pf,
                sg_calls := sg_calls g @ pf_calls pf,
                sg_references := sg_references g @ pf_references pf,
                sg_body_hits := sg_body_hits g @ pf_body_hits pf\<rparr>)"

section \<open>Removing files\<close>

definition edge_endpoints_present :: "(symbol_id, graph_symbol) hash_map \<Rightarrow> graph_edge \<Rightarrow> bool" where
  "edge_endpoints_present symbols e \<longleftrightarrow>
     map_of symbols (ed_from e) \<noteq> None \<and> (case ed_to e of Some t \<Rightarrow> map_of symbols t \<noteq> None | None \<Rightarrow> True)"

text \<open>The lower-case shadow of the body hits follows them while the two are aligned.\<close>

definition retain_lower :: "(body_hit \<Rightarrow> bool) \<Rightarrow> body_hit list \<Rightarrow> str list \<Rightarrow> str list" where
  "retain_lower keep hits lower =
     (if length lower = length hits then map snd (filter (\<lambda>(h, l). keep h) (zip hits lower)) else lower)"

definition remove_rows :: "(file_id \<Rightarrow> bool) \<Rightarrow> semantic_graph \<Rightarrow> semantic_graph" where
  "remove_rows gone g =
     (let symbols = filter (\<lambda>(_, s). \<not> gone (gs_file_id s)) (sg_symbols g)
      in g\<lparr>sg_files := filter (\<lambda>(id, _). \<not> gone id) (sg_files g),
           sg_packages := filter (\<lambda>(id, _). \<not> gone id) (sg_packages g),
           sg_symbols := symbols,
           sg_imports := filter (\<lambda>i. \<not> gone (im_file_id i)) (sg_imports g),
           sg_calls := filter (\<lambda>c. \<not> gone (ca_file_id c)) (sg_calls g),
           sg_references := filter (\<lambda>r. \<not> gone (re_file_id r)) (sg_references g),
           sg_body_lower := retain_lower (\<lambda>h. \<not> gone (bh_file_id h)) (sg_body_hits g) (sg_body_lower g),
           sg_body_hits := filter (\<lambda>h. \<not> gone (bh_file_id h)) (sg_body_hits g),
           sg_edges := filter (edge_endpoints_present symbols) (sg_edges g)\<rparr>)"

definition remove_file_data :: "file_id \<Rightarrow> semantic_graph \<Rightarrow> semantic_graph" where
  "remove_file_data f g = remove_rows (\<lambda>id. id = f) g"

definition remove_files_data :: "file_id list \<Rightarrow> semantic_graph \<Rightarrow> semantic_graph" where
  "remove_files_data fs g = (if fs = [] then g else remove_rows (\<lambda>id. id \<in> set fs) g)"

section \<open>The indexes of the imports\<close>

definition rebuild_import_indexes :: "semantic_graph \<Rightarrow> semantic_graph" where
  "rebuild_import_indexes g =
     (let numbered = enumerate 0 (sg_imports g);
          marked = filter (\<lambda>(_, i). is_package_marker_alias (im_alias i)) numbered;
          plain = filter (\<lambda>(_, i). \<not> is_package_marker_alias (im_alias i)) numbered;
          aliased = filter (\<lambda>(_, i). im_alias i \<noteq> None) plain;
          wildcard = (\<lambda>i. last_path_segment (im_path i) = [STAR] \<or> last_path_segment (im_path i) = []);
          packages = (\<lambda>pick. insert_entries
             (concat (map (\<lambda>(_, i). if path_segments (im_path i) \<noteq> [] \<and> pick (im_alias i)
                                    then [(im_file_id i, path_segments (im_path i))] else []) marked)) []);
          scala = (\<lambda>a. a = Some (lit ''__scala_package__'')); kotlin = (\<lambda>a. a = Some (lit ''__kotlin_package__''))
      in g\<lparr>sg_imports_by_file := group_by (map (\<lambda>(n, i). (im_file_id i, n)) numbered),
           sg_imports_by_alias := group_by (map (\<lambda>(n, i). (the (im_alias i), n)) aliased),
           sg_imports_by_alias_target :=
             group_by (map (\<lambda>(n, i). (last_path_segment (im_path i), n)) (filter (\<lambda>(_, i). \<not> wildcard i) aliased)),
           sg_wildcard_imports := map fst (filter (\<lambda>(_, i). wildcard i) aliased),
           sg_scala_packages := packages scala,
           sg_kotlin_packages := packages kotlin,
           sg_java_packages := packages (\<lambda>a. \<not> scala a \<and> \<not> kotlin a)\<rparr>)"

definition imports_for_file :: "semantic_graph \<Rightarrow> file_id \<Rightarrow> parsed_import list" where
  "imports_for_file g f = map (\<lambda>n. sg_imports g ! n) (filter (\<lambda>n. n < length (sg_imports g)) (bucket (sg_imports_by_file g) f))"

section \<open>Trigrams\<close>

fun windows3 :: "u8 list \<Rightarrow> trigram list" where
  "windows3 (a # b # c # rest) = (a, b, c) # windows3 (b # c # rest)"
| "windows3 _ = []"

definition unique_trigrams :: "str \<Rightarrow> trigram list" where
  "unique_trigrams s = sort (remdups (windows3 (utf8_bytes s)))"

datatype 'a candidates = AllRows | NoRows | Rows "'a list"

fun rarest_from :: "'a list option \<Rightarrow> trigram list \<Rightarrow> (trigram, 'a list) hash_map \<Rightarrow> 'a candidates" where
  "rarest_from best [] index = (case best of Some rows \<Rightarrow> Rows rows | None \<Rightarrow> AllRows)"
| "rarest_from best (t # ts) index =
     (case map_of index t of
        None \<Rightarrow> NoRows
      | Some rows \<Rightarrow>
          rarest_from (case best of
                         Some current \<Rightarrow> if length rows < length current then Some rows else Some current
                       | None \<Rightarrow> Some rows) ts index)"

definition rarest_indexed_trigram :: "str \<Rightarrow> (trigram, 'a list) hash_map \<Rightarrow> 'a candidates" where
  "rarest_indexed_trigram needle index =
     (if unique_trigrams needle = [] then AllRows else rarest_from None (unique_trigrams needle) index)"

section \<open>Rebuilding the indexes\<close>

definition is_class_like_kind :: "symbol_kind \<Rightarrow> bool" where
  "is_class_like_kind k \<longleftrightarrow> k \<in> {ClassKind, StructKind, InterfaceKind, TraitKind, EnumKind}"

definition index_names :: "semantic_graph \<Rightarrow> (str, symbol_id list) hash_map" where
  "index_names g = group_by (map (\<lambda>s. (gs_name s, gs_id s)) (all_symbols g))"

definition index_identities :: "semantic_graph \<Rightarrow> (str, symbol_id list) hash_map" where
  "index_identities g =
     group_by (map (\<lambda>s. (the (gs_language_identity s), gs_id s))
       (filter (\<lambda>s. gs_language_identity s \<noteq> None \<and> is_class_like_kind (gs_kind s)) (all_symbols g)))"

definition index_children :: "semantic_graph \<Rightarrow> (symbol_id, symbol_id list) hash_map" where
  "index_children g =
     group_by (map (\<lambda>e. (ed_from e, the (ed_to e))) (filter (\<lambda>e. ed_kind e = ContainsEdge \<and> ed_to e \<noteq> None) (sg_edges g)))"

fun index_file_names :: "file_id list \<Rightarrow> (str, file_id) hash_map \<times> (str \<times> str) list \<Rightarrow> (str, file_id) hash_map \<times> (str \<times> str) list" where
  "index_file_names [] acc = acc"
| "index_file_names (f # fs) (names, collisions) =
     index_file_names fs
       (case map_of names (to_lower f) of
          Some existing \<Rightarrow> (names, if existing \<noteq> f then collisions @ [(existing, f)] else collisions)
        | None \<Rightarrow> (AList.update (to_lower f) f names, collisions))"

definition reference_keys :: "str \<Rightarrow> str list" where
  "reference_keys s =
     [s, lit ''::'' @ last_path_segment s]
     @ (case receiver_split s DOT of Some rest \<Rightarrow> [DOT # rest] | None \<Rightarrow> [])
     @ (case receiver_split s GREATER of Some rest \<Rightarrow> [lit ''->'' @ rest] | None \<Rightarrow> [])
     @ path_segments s"

definition body_hits_fingerprint :: "graph_env \<Rightarrow> body_hit list \<Rightarrow> u64" where
  "body_hits_fingerprint env hits = gx_hash env (map bh_text hits)"

definition trigram_index :: "('a \<times> str) list \<Rightarrow> (trigram, 'a list) hash_map" where
  "trigram_index rows = group_by (concat (map (\<lambda>(a, s). map (\<lambda>t. (t, a)) (unique_trigrams s)) rows))"

text \<open>The shadow and the trigrams of the body hits are kept when the fingerprint says nothing changed.\<close>

definition rebuild_body_index :: "graph_env \<Rightarrow> semantic_graph \<Rightarrow> semantic_graph" where
  "rebuild_body_index env g =
     (let fingerprint = body_hits_fingerprint env (sg_body_hits g)
      in if sg_body_fingerprint g = Some fingerprint \<and> length (sg_body_lower g) = length (sg_body_hits g) then g
         else (let lower = map (\<lambda>h. gx_lowercase env (bh_text h)) (sg_body_hits g);
                   indexed = length (sg_body_hits g) \<le> BODY_HIT_TRIGRAM_INDEX_MAX_HITS
               in g\<lparr>sg_body_lower := lower, sg_body_indexed := indexed,
                    sg_body_trigrams := (if indexed then trigram_index (enumerate 0 lower) else []),
                    sg_body_fingerprint := Some fingerprint\<rparr>))"

definition rebuild_indexes :: "graph_env \<Rightarrow> semantic_graph \<Rightarrow> semantic_graph" where
  "rebuild_indexes env g =
     (let g = rebuild_import_indexes g;
          (normalized, collisions) = index_file_names (map fst (sg_files g)) ([], []);
          lower = map (\<lambda>s. (gs_id s, gx_lowercase env (gs_signature s))) (all_symbols g);
          g = rebuild_body_index env g;
          edges = enumerate 0 (sg_edges g)
      in g\<lparr>sg_files_by_normalized := normalized, sg_case_collisions := collisions,
           sg_symbols_by_name := index_names g,
           sg_by_identity := index_identities g,
           sg_signature_lower := insert_entries lower [],
           sg_signature_trigrams := trigram_index lower,
           sg_references_by_text :=
             group_by (concat (map (\<lambda>(n, r). map (\<lambda>k. (k, n)) (reference_keys (re_text r))) (enumerate 0 (sg_references g)))),
           sg_children := index_children g,
           sg_edges_by_from := group_by (map (\<lambda>(n, e). (ed_from e, n)) edges),
           sg_edges_by_to := group_by (map (\<lambda>(n, e). (the (ed_to e), n)) (filter (\<lambda>(_, e). ed_to e \<noteq> None) edges))\<rparr>)"

section \<open>The indexes the resolver reads\<close>

definition symbol_is_exported :: "graph_symbol \<Rightarrow> bool" where
  "symbol_is_exported s \<longleftrightarrow>
     gs_kind s \<in> {ClassKind, FunctionKind, MethodKind, InterfaceKind, StructKind, EnumKind, TraitKind, TypeAliasKind, ConstKind,
                   MacroKind, TestKind, ModuleKind}
     \<and> (case gs_visibility s of Some v \<Rightarrow> \<not> one_of v [''private'', ''protected'', ''internal''] | None \<Rightarrow> True)"

definition add_export :: "graph_symbol \<Rightarrow> (file_id, resolver_slot) hash_map \<Rightarrow> (file_id, resolver_slot) hash_map" where
  "add_export s slots =
     (case map_of slots (gs_file_id s) of
        None \<Rightarrow> slots
      | Some slot \<Rightarrow>
          if symbol_is_exported s
          then AList.update (gs_file_id s)
                 (slot\<lparr>rs_exports := AList.update (gs_name s)
                    \<lparr>ex_name = gs_name s, ex_kind = NamedExport, ex_symbol = Some (gs_id s), ex_source = None\<rparr> (rs_exports slot)\<rparr>) slots
          else slots)"

definition add_import_entry :: "parsed_import \<Rightarrow> (file_id, resolver_slot) hash_map \<Rightarrow> (file_id, resolver_slot) hash_map" where
  "add_import_entry i slots =
     (if is_package_marker_alias (im_alias i) then slots
      else (case map_of slots (im_file_id i) of
              None \<Rightarrow> slots
            | Some slot \<Rightarrow>
                AList.update (im_file_id i)
                  (slot\<lparr>rs_imports := rs_imports slot
                     @ [\<lparr>ie_path = im_path i, ie_imported_name = im_imported_name i, ie_alias = im_alias i, ie_source_file = None\<rparr>]\<rparr>) slots))"

definition rebuild_resolver_slots :: "semantic_graph \<Rightarrow> semantic_graph" where
  "rebuild_resolver_slots g =
     (let slots = map (\<lambda>(f, _). (f, empty_slot)) (sg_files g)
      in g\<lparr>sg_resolver_slots := fold add_import_entry (sg_imports g) (fold add_export (all_symbols g) slots)\<rparr>)"

definition is_js_ts_language :: "language_kind \<Rightarrow> bool" where
  "is_js_ts_language l \<longleftrightarrow> l \<in> {LangJavaScript, LangJsx, LangTypeScript, LangTsx}"

definition import_matches_symbol :: "graph_env \<Rightarrow> semantic_graph \<Rightarrow> parsed_import \<Rightarrow> graph_symbol \<Rightarrow> bool" where
  "import_matches_symbol env g i s =
     (if is_package_marker_alias (im_alias i) then False
      else (case file_at g (gs_file_id s) of
              None \<Rightarrow> last_path_segment (im_path i) = gs_name s
            | Some f \<Rightarrow>
                let l = fr_language f
                in if l \<in> {LangJava, LangKotlin, LangScala, LangSwift} \<or> is_js_ts_language l then gx_language_import env l g i s
                   else if last_path_segment (im_path i) \<noteq> gs_name s then False
                   else if l \<noteq> LangPython \<and> l \<noteq> LangGo then True
                   else gx_language_import env l g i s))"

definition language_uses_default_import_match :: "language_kind \<Rightarrow> bool" where
  "language_uses_default_import_match l \<longleftrightarrow>
     l \<notin> {LangJava, LangKotlin, LangScala, LangSwift, LangPython, LangGo} \<and> \<not> is_js_ts_language l"

definition import_path_dir_matches_file :: "str \<Rightarrow> file_id \<Rightarrow> (file_id, file_record) hash_map \<Rightarrow> bool" where
  "import_path_dir_matches_file import_path f files =
     (case map_of files f of
        None \<Rightarrow> True
      | Some r \<Rightarrow>
          if \<not> language_uses_default_import_match (fr_language r) then True
          else (case import_path_filesystem_suffix import_path of
                  None \<Rightarrow> True
                | Some suffix_path \<Rightarrow> file_path_matches_import_suffix (fr_relative_path r) suffix_path))"

definition symbol_is_top_level_for_imports :: "graph_symbol \<Rightarrow> bool" where
  "symbol_is_top_level_for_imports s =
     (case gs_parent_id s of Some p \<Rightarrow> starts_with p (lit ''file:'') | None \<Rightarrow> True)"

text \<open>The files an import attaches to: through the symbols it names, otherwise through the path it names.\<close>

definition named_targets :: "graph_env \<Rightarrow> semantic_graph \<Rightarrow> parsed_import \<Rightarrow> file_id list" where
  "named_targets env g i =
     map gs_file_id
       (filter (\<lambda>s. gs_file_id s \<noteq> im_file_id i \<and> import_matches_symbol env g i s
                    \<and> import_path_dir_matches_file (im_path i) (gs_file_id s) (sg_files g))
         (List.map_filter (symbol_at g) (bucket (sg_symbols_by_name g) (last_path_segment (im_path i)))))"

definition path_targets :: "semantic_graph \<Rightarrow> parsed_import \<Rightarrow> file_id list" where
  "path_targets g i =
     (case import_path_filesystem_suffix (im_path i) of
        None \<Rightarrow> []
      | Some suffix_path \<Rightarrow>
          map fst (filter (\<lambda>(f, r). f \<noteq> im_file_id i \<and> file_path_matches_import_suffix (fr_relative_path r) suffix_path) (sg_files g)))"

definition import_targets :: "graph_env \<Rightarrow> semantic_graph \<Rightarrow> parsed_import \<Rightarrow> file_id list" where
  "import_targets env g i = (if named_targets env g i \<noteq> [] then named_targets env g i else path_targets g i)"

definition glob_attachments :: "graph_env \<Rightarrow> semantic_graph \<Rightarrow> parsed_import list \<Rightarrow> (file_id \<times> file_id) list" where
  "glob_attachments env g globs =
     concat (map (\<lambda>s. map (\<lambda>i. (gs_file_id s, im_file_id i))
                       (filter (\<lambda>i. gs_file_id s \<noteq> im_file_id i \<and> import_matches_symbol env g i s) globs))
               (filter symbol_is_top_level_for_imports (all_symbols g)))"

definition rebuild_importers_by_file :: "graph_env \<Rightarrow> semantic_graph \<Rightarrow> semantic_graph" where
  "rebuild_importers_by_file env g =
     (let imports = filter (\<lambda>i. \<not> is_package_marker_alias (im_alias i)) (sg_imports g);
          attach = concat (map (\<lambda>i. map (\<lambda>f. (f, im_file_id i)) (import_targets env g i)) (filter (\<lambda>i. \<not> im_is_glob i) imports))
                   @ glob_attachments env g (filter im_is_glob imports)
      in g\<lparr>sg_importers_by_file := map (\<lambda>(f, importers). (f, remdups_adj (sort importers))) (group_by attach)\<rparr>)"

definition rebuild_resolution_indexes :: "graph_env \<Rightarrow> bool \<Rightarrow> semantic_graph \<Rightarrow> semantic_graph" where
  "rebuild_resolution_indexes env resolver_loaded g =
     (let g = rebuild_import_indexes g;
          g = g\<lparr>sg_symbols_by_name := index_names g,
                sg_by_identity := index_identities g,
                sg_arity_index := insert_entries
                  (map (\<lambda>s. ((gs_file_id s, gs_name s, the (gs_arity s)), gs_id s)) (filter (\<lambda>s. gs_arity s \<noteq> None) (all_symbols g))) [],
                sg_children := index_children g\<rparr>
      in if resolver_loaded then g else rebuild_importers_by_file env (rebuild_resolver_slots g))"

end
