(* ===== verification/GraphQueries.thy ===== *)
theory GraphQueries
  imports GraphStore
begin

text \<open>
  The questions the code graph answers (\<open>crates/squeezy-graph/src/lib.rs\<close>, \<open>references.rs\<close>, \<open>cross_file.rs\<close>,
  \<open>affected.rs\<close>): containment trees, searches over signatures, bodies and references, the declaration at a position, callers,
  callees and call chains, the inheritance walks, and the files a change reaches.
\<close>

section \<open>Containment\<close>

datatype hierarchy_tree =
  HierarchyNode (hn_id: symbol_id) (hn_name: str) (hn_kind: symbol_kind) (hn_span: source_span) (hn_freshness: freshness)
    (hn_children: "hierarchy_tree list")

definition node_of :: "graph_symbol \<Rightarrow> hierarchy_tree list \<Rightarrow> hierarchy_tree" where
  "node_of s children = HierarchyNode (gs_id s) (gs_name s) (gs_kind s) (gs_span s) (gs_freshness s) children"

definition sort_children :: "hierarchy_tree list \<Rightarrow> hierarchy_tree list" where
  "sort_children ns = sort_key (\<lambda>n. (sp_start_byte (hn_span n), hn_name n)) ns"

fun hierarchy_node :: "semantic_graph \<Rightarrow> symbol_id \<Rightarrow> nat \<Rightarrow> hierarchy_tree option" where
  "hierarchy_node g node 0 = map_option (\<lambda>s. node_of s []) (symbol_at g node)"
| "hierarchy_node g node (Suc d) =
     map_option (\<lambda>s. node_of s (sort_children (List.map_filter (\<lambda>c. hierarchy_node g c d) (bucket (sg_children g) node))))
       (symbol_at g node)"

definition file_roots :: "semantic_graph \<Rightarrow> graph_symbol list" where
  "file_roots g = filter (\<lambda>s. gs_kind s = FileKind) (all_symbols g)"

definition hierarchy :: "semantic_graph \<Rightarrow> symbol_id option \<Rightarrow> nat \<Rightarrow> hierarchy_tree list" where
  "hierarchy g root max_depth =
     (let roots = (case root of Some r \<Rightarrow> [r] | None \<Rightarrow> map gs_id (file_roots g))
      in sort_key hn_name (List.map_filter (\<lambda>id. hierarchy_node g id max_depth) roots))"

definition hierarchy_capped :: "semantic_graph \<Rightarrow> symbol_id option \<Rightarrow> nat \<Rightarrow> nat \<Rightarrow> hierarchy_tree list \<times> nat" where
  "hierarchy_capped g root max_depth max_roots =
     (case root of
        Some r \<Rightarrow> (case hierarchy_node g r max_depth of Some n \<Rightarrow> ([n], 1) | None \<Rightarrow> ([], 0))
      | None \<Rightarrow>
          (let roots = sort_key fst (map (\<lambda>s. (gs_name s, gs_id s)) (file_roots g))
           in (List.map_filter (\<lambda>(_, id). hierarchy_node g id max_depth) (take max_roots roots), length roots)))"

section \<open>Searches\<close>

record signature_query =
  sq_text :: str
  sq_kind :: "symbol_kind option"
  sq_visibility :: "str option"
  sq_attribute :: "str option"

definition signature_candidates :: "semantic_graph \<Rightarrow> str \<Rightarrow> graph_symbol list" where
  "signature_candidates g needle =
     (case rarest_indexed_trigram needle (sg_signature_trigrams g) of
        AllRows \<Rightarrow> all_symbols g
      | NoRows \<Rightarrow> []
      | Rows ids \<Rightarrow> List.map_filter (symbol_at g) ids)"

definition signature_query_matches :: "semantic_graph \<Rightarrow> signature_query \<Rightarrow> str \<Rightarrow> graph_symbol \<Rightarrow> bool" where
  "signature_query_matches g q needle s \<longleftrightarrow>
     (case sq_kind q of Some k \<Rightarrow> gs_kind s = k | None \<Rightarrow> True)
     \<and> (case map_of (sg_signature_lower g) (gs_id s) of Some lower \<Rightarrow> contains lower needle | None \<Rightarrow> False)
     \<and> (case sq_visibility q of Some v \<Rightarrow> gs_visibility s = Some v | None \<Rightarrow> True)
     \<and> (case sq_attribute q of Some a \<Rightarrow> list_ex (\<lambda>existing. contains existing a) (gs_attributes s) | None \<Rightarrow> True)"

definition symbol_position :: "graph_symbol \<Rightarrow> file_id \<times> u32" where
  "symbol_position s = (gs_file_id s, sp_start_byte (gs_span s))"

definition signature_search :: "graph_env \<Rightarrow> semantic_graph \<Rightarrow> signature_query \<Rightarrow> graph_symbol list" where
  "signature_search env g q =
     (let needle = gx_lowercase env (sq_text q)
      in sort_key symbol_position (filter (signature_query_matches g q needle) (signature_candidates g needle)))"

record body_search_query =
  bq_text :: str
  bq_owner_kind :: "symbol_kind option"
  bq_hit_kind :: "body_hit_kind option"

record body_search_hit =
  bsh_owner :: "graph_symbol option"
  bsh_hit :: body_hit
  bsh_confidence :: confidence_level

definition body_hit_scan :: "semantic_graph \<Rightarrow> str \<Rightarrow> body_hit list" where
  "body_hit_scan g needle = map fst (filter (\<lambda>(_, lower). contains lower needle) (zip (sg_body_hits g) (sg_body_lower g)))"

definition body_hit_candidates :: "semantic_graph \<Rightarrow> str \<Rightarrow> body_hit list" where
  "body_hit_candidates g needle =
     (if \<not> sg_body_indexed g then body_hit_scan g needle
      else (case rarest_indexed_trigram needle (sg_body_trigrams g) of
              AllRows \<Rightarrow> body_hit_scan g needle
            | NoRows \<Rightarrow> []
            | Rows ns \<Rightarrow>
                List.map_filter
                  (\<lambda>n. if n < length (sg_body_lower g) \<and> contains (sg_body_lower g ! n) needle \<and> n < length (sg_body_hits g)
                       then Some (sg_body_hits g ! n) else None) ns))"

definition body_search_hit_of :: "semantic_graph \<Rightarrow> body_search_query \<Rightarrow> body_hit \<Rightarrow> body_search_hit option" where
  "body_search_hit_of g q h =
     (let owner = Option.bind (bh_owner_id h) (symbol_at g)
      in if (case bq_hit_kind q of Some k \<Rightarrow> bh_kind h = k | None \<Rightarrow> True)
            \<and> (case bq_owner_kind q of Some k \<Rightarrow> map_option gs_kind owner = Some k | None \<Rightarrow> True)
         then Some \<lparr>bsh_owner = owner, bsh_hit = h, bsh_confidence = Heuristic\<rparr> else None)"

definition body_search :: "graph_env \<Rightarrow> semantic_graph \<Rightarrow> body_search_query \<Rightarrow> body_search_hit list" where
  "body_search env g q =
     sort_key (\<lambda>b. (bh_file_id (bsh_hit b), sp_start_byte (bh_span (bsh_hit b))))
       (List.map_filter (body_search_hit_of g q) (body_hit_candidates g (gx_lowercase env (bq_text q))))"

record reference_hit =
  rh_owner :: "graph_symbol option"
  rh_reference :: parsed_reference
  rh_confidence :: confidence_level

definition reference_hit_of :: "semantic_graph \<Rightarrow> parsed_reference \<Rightarrow> confidence_level \<Rightarrow> reference_hit" where
  "reference_hit_of g r c = \<lparr>rh_owner = Option.bind (re_owner_id r) (symbol_at g), rh_reference = r, rh_confidence = c\<rparr>"

text \<open>The ordered set of the positions under the text and its three suffix keys.\<close>

definition reference_candidate_indexes :: "semantic_graph \<Rightarrow> str \<Rightarrow> nat list" where
  "reference_candidate_indexes g s =
     sort (remdups (concat (map (bucket (sg_references_by_text g)) [s, lit ''::'' @ s, DOT # s, lit ''->'' @ s])))"

definition alias_leaves :: "semantic_graph \<Rightarrow> str \<Rightarrow> str list" where
  "alias_leaves g s =
     filter (\<lambda>leaf. leaf \<noteq> [] \<and> leaf \<noteq> [STAR] \<and> leaf \<noteq> s)
       (map (\<lambda>n. last_path_segment (im_path (sg_imports g ! n)))
         (filter (\<lambda>n. n < length (sg_imports g)) (bucket (sg_imports_by_alias g) s)))"

definition reference_search :: "semantic_graph \<Rightarrow> str \<Rightarrow> reference_hit list" where
  "reference_search g s =
     (let ns = sort (remdups (reference_candidate_indexes g s @ concat (map (reference_candidate_indexes g) (alias_leaves g s))))
      in sort_key (\<lambda>h. (re_file_id (rh_reference h), sp_start_byte (re_span (rh_reference h))))
           (map (\<lambda>n. reference_hit_of g (sg_references g ! n) Heuristic) (filter (\<lambda>n. n < length (sg_references g)) ns)))"

definition find_symbol_by_name :: "semantic_graph \<Rightarrow> str \<Rightarrow> graph_symbol list" where
  "find_symbol_by_name g name = List.map_filter (symbol_at g) (bucket (sg_symbols_by_name g) name)"

definition normalized_query :: "str \<Rightarrow> str" where
  "normalized_query query = to_lower (replace_char BSLASH SLASH query)"

definition find_file_case_insensitive :: "semantic_graph \<Rightarrow> str \<Rightarrow> file_record option" where
  "find_file_case_insensitive g query = Option.bind (map_of (sg_files_by_normalized g) (normalized_query query)) (file_at g)"

definition case_insensitive_match_hint :: "semantic_graph \<Rightarrow> str \<Rightarrow> str option" where
  "case_insensitive_match_hint g query = map_of (sg_files_by_normalized g) (normalized_query query)"

section \<open>Positions\<close>

text \<open>\<open>saturating_sub\<close> on \<open>u32\<close>, and \<open>min_by\<close>, which keeps the first of the least elements.\<close>

definition saturating_sub_u32 :: "u32 \<Rightarrow> u32 \<Rightarrow> u32" where
  "saturating_sub_u32 a b = (if b \<le> a then a - b else 0)"

definition span_line_height :: "source_span \<Rightarrow> u32" where
  "span_line_height s = saturating_sub_u32 (pt_line (sp_end s)) (pt_line (sp_start s))"

definition span_byte_width :: "source_span \<Rightarrow> u32" where
  "span_byte_width s = saturating_sub_u32 (sp_end_byte s) (sp_start_byte s)"

fun min_by_key :: "('a \<Rightarrow> 'b::linorder) \<Rightarrow> 'a list \<Rightarrow> 'a option" where
  "min_by_key key [] = None"
| "min_by_key key (x # xs) =
     (case min_by_key key xs of Some y \<Rightarrow> if key y < key x then Some y else Some x | None \<Rightarrow> Some x)"

definition symbol_at_line :: "semantic_graph \<Rightarrow> file_id \<Rightarrow> u32 \<Rightarrow> graph_symbol option" where
  "symbol_at_line g f line =
     min_by_key (\<lambda>s. (span_line_height (gs_span s), span_byte_width (gs_span s)))
       (filter (\<lambda>s. gs_kind s \<noteq> FileKind \<and> gs_file_id s = f
                    \<and> pt_line (sp_start (gs_span s)) \<le> line \<and> line \<le> pt_line (sp_end (gs_span s))) (all_symbols g))"

definition symbol_at_byte :: "semantic_graph \<Rightarrow> file_id \<Rightarrow> u32 \<Rightarrow> graph_symbol option" where
  "symbol_at_byte g f byte =
     min_by_key (\<lambda>s. (span_byte_width (gs_span s), span_line_height (gs_span s)))
       (filter (\<lambda>s. gs_kind s \<noteq> FileKind \<and> gs_file_id s = f
                    \<and> sp_start_byte (gs_span s) \<le> byte \<and> byte \<le> sp_end_byte (gs_span s)) (all_symbols g))"

definition line_ranges_intersect :: "u32 \<Rightarrow> u32 \<Rightarrow> dirty_range \<Rightarrow> bool" where
  "line_ranges_intersect first_line last_line dirty \<longleftrightarrow> first_line \<le> dr_end_line dirty \<and> dr_start_line dirty \<le> last_line"

definition annotate_symbol :: "(file_id \<times> dirty_annotation) list \<Rightarrow> graph_symbol \<Rightarrow> graph_symbol" where
  "annotate_symbol dirty s =
     (case map_of dirty (gs_file_id s) of
        None \<Rightarrow> s\<lparr>gs_dirty := None\<rparr>
      | Some a \<Rightarrow>
          if gs_kind s = FileKind
             \<or> list_ex (line_ranges_intersect (pt_line (sp_start (gs_span s))) (pt_line (sp_end (gs_span s)))) (da_ranges a)
          then s\<lparr>gs_dirty := Some a\<rparr> else s\<lparr>gs_dirty := None\<rparr>)"

definition annotate_dirty_ranges :: "(file_id \<times> dirty_annotation) list \<Rightarrow> semantic_graph \<Rightarrow> semantic_graph" where
  "annotate_dirty_ranges dirty g = g\<lparr>sg_symbols := map (\<lambda>(id, s). (id, annotate_symbol dirty s)) (sg_symbols g)\<rparr>"

definition dirty_symbols :: "semantic_graph \<Rightarrow> graph_symbol list" where
  "dirty_symbols g = sort_key symbol_position (filter (\<lambda>s. gs_dirty s \<noteq> None \<and> gs_kind s \<noteq> FileKind) (all_symbols g))"

section \<open>Edges and call chains\<close>

definition outgoing_edges :: "semantic_graph \<Rightarrow> symbol_id \<Rightarrow> graph_edge list" where
  "outgoing_edges g from_id =
     map (\<lambda>n. sg_edges g ! n) (filter (\<lambda>n. n < length (sg_edges g)) (bucket (sg_edges_by_from g) from_id))"

definition inbound_edges :: "semantic_graph \<Rightarrow> symbol_id \<Rightarrow> graph_edge list" where
  "inbound_edges g to_id = map (\<lambda>n. sg_edges g ! n) (filter (\<lambda>n. n < length (sg_edges g)) (bucket (sg_edges_by_to g) to_id))"

definition is_call_edge :: "graph_edge \<Rightarrow> bool" where
  "is_call_edge e \<longleftrightarrow> ed_kind e \<in> {CallsEdge, InvokesMacroEdge}"

record call_edge_hit =
  ch_caller :: "graph_symbol option"
  ch_callee :: "graph_symbol option"
  ch_edge :: graph_edge

definition edge_hit :: "semantic_graph \<Rightarrow> graph_edge \<Rightarrow> call_edge_hit" where
  "edge_hit g e = \<lparr>ch_caller = symbol_at g (ed_from e), ch_callee = Option.bind (ed_to e) (symbol_at g), ch_edge = e\<rparr>"

definition callees :: "semantic_graph \<Rightarrow> symbol_id \<Rightarrow> call_edge_hit list" where
  "callees g caller = map (edge_hit g) (filter is_call_edge (outgoing_edges g caller))"

definition callers :: "semantic_graph \<Rightarrow> symbol_id \<Rightarrow> call_edge_hit list" where
  "callers g callee = map (edge_hit g) (filter is_call_edge (inbound_edges g callee))"

definition called_ids :: "semantic_graph \<Rightarrow> symbol_id \<Rightarrow> symbol_id list" where
  "called_ids g caller = List.map_filter (\<lambda>h. ed_to (ch_edge h)) (callees g caller)"

text \<open>The neighbours that were not seen before, each once, in order.\<close>

fun unseen_by :: "('a \<Rightarrow> 'b) \<Rightarrow> 'b list \<Rightarrow> 'a list \<Rightarrow> 'a list" where
  "unseen_by key seen [] = []"
| "unseen_by key seen (x # xs) =
     (if key x \<in> set seen then unseen_by key seen xs else x # unseen_by key (key x # seen) xs)"

abbreviation unseen :: "'a list \<Rightarrow> 'a list \<Rightarrow> 'a list" where
  "unseen \<equiv> unseen_by (\<lambda>x. x)"

lemma keys_unseen_by: "key ` set (unseen_by key seen xs) = key ` set xs - set seen"
  by (induction key seen xs rule: unseen_by.induct) auto

lemma set_unseen_by: "set (unseen_by key seen xs) \<subseteq> set xs"
  by (induction key seen xs rule: unseen_by.induct) auto

lemma distinct_unseen_by: "distinct (map key (unseen_by key seen xs))"
proof (induction key seen xs rule: unseen_by.induct)
  case (2 key seen x xs)
  then show ?case using keys_unseen_by [of key "key x # seen" xs] by auto
qed simp

lemma map_unseen_by: "map key (unseen_by key seen xs) = unseen seen (map key xs)"
  by (induction key seen xs rule: unseen_by.induct) auto

lemma set_unseen: "set (unseen seen xs) = set xs - set seen"
  using keys_unseen_by [of "\<lambda>x. x" seen xs] by simp

definition edge_targets :: "semantic_graph \<Rightarrow> symbol_id set" where
  "edge_targets g = {t. \<exists>e \<in> set (sg_edges g). ed_to e = Some t}"

lemma finite_edge_targets [simp]: "finite (edge_targets g)"
proof -
  have "edge_targets g \<subseteq> set (map (\<lambda>e. the (ed_to e)) (sg_edges g))" by (force simp: edge_targets_def)
  then show ?thesis using finite_subset by blast
qed

lemma called_ids_targets: "set (called_ids g x) \<subseteq> edge_targets g"
  by (auto simp: called_ids_def callees_def edge_hit_def outgoing_edges_def edge_targets_def map_filter_def split: option.splits)

lemma unseen_measure:
  assumes "set xs \<subseteq> U" "finite U" "unseen seen xs \<noteq> []"
  shows "card (U - set (seen @ unseen seen xs)) < card (U - set seen)"
proof (rule psubset_card_mono)
  obtain x where "x \<in> set (unseen seen xs)" using assms(3) by (cases "unseen seen xs") auto
  then have "x \<in> U - set seen" "x \<notin> U - set (seen @ unseen seen xs)" using assms(1) set_unseen by fastforce+
  then show "U - set (seen @ unseen seen xs) \<subset> U - set seen" by auto
qed (simp add: assms(2))

function call_chain_loop ::
  "semantic_graph \<Rightarrow> symbol_id \<Rightarrow> nat \<Rightarrow> (symbol_id \<times> symbol_id list) list \<Rightarrow> symbol_id list \<Rightarrow> symbol_id list option" where
  "call_chain_loop g to_id max_depth [] seen = None"
| "call_chain_loop g to_id max_depth ((current, path) # queue) seen =
     (if current = to_id then Some path
      else if max_depth < length path then call_chain_loop g to_id max_depth queue seen
      else (let fresh = unseen seen (called_ids g current)
            in call_chain_loop g to_id max_depth (queue @ map (\<lambda>n. (n, path @ [n])) fresh) (seen @ fresh)))"
  by pat_completeness auto
termination
proof (relation "measures [\<lambda>(g, to_id, max_depth, queue, seen). card (edge_targets g - set seen),
    \<lambda>(g, to_id, max_depth, queue, seen). length queue]")
  fix g :: semantic_graph and to_id current :: symbol_id and max_depth :: nat and path seen fresh :: "symbol_id list"
    and queue :: "(symbol_id \<times> symbol_id list) list"
  assume fresh: "fresh = unseen seen (called_ids g current)"
  show "((g, to_id, max_depth, queue @ map (\<lambda>n. (n, path @ [n])) fresh, seen @ fresh), g, to_id, max_depth, (current, path) # queue, seen)
      \<in> measures [\<lambda>(g, to_id, max_depth, queue, seen). card (edge_targets g - set seen),
                  \<lambda>(g, to_id, max_depth, queue, seen). length queue]"
  proof (cases "fresh = []")
    case True
    then show ?thesis by simp
  next
    case False
    then show ?thesis using unseen_measure [OF called_ids_targets finite_edge_targets, of seen g current] fresh by simp
  qed
qed simp_all

definition call_chain :: "semantic_graph \<Rightarrow> symbol_id \<Rightarrow> symbol_id \<Rightarrow> nat \<Rightarrow> symbol_id list option" where
  "call_chain g from_id to_id max_depth = call_chain_loop g to_id max_depth [(from_id, [from_id])] [from_id]"

section \<open>Inheritance\<close>

definition is_inheritance_edge :: "graph_edge \<Rightarrow> bool" where
  "is_inheritance_edge e \<longleftrightarrow> ed_kind e \<in> {UsesTraitEdge, ExtendsEdge, ImplementsEdge}"

definition direct_subtypes :: "semantic_graph \<Rightarrow> symbol_id \<Rightarrow> graph_symbol list" where
  "direct_subtypes g target = List.map_filter (\<lambda>e. symbol_at g (ed_from e)) (filter is_inheritance_edge (inbound_edges g target))"

text \<open>One level of the walk: every node of the frontier in turn, with the ids seen so far.\<close>

fun subtype_level :: "semantic_graph \<Rightarrow> symbol_id list \<Rightarrow> symbol_id list \<Rightarrow> graph_symbol list \<times> symbol_id list" where
  "subtype_level g [] visited = ([], visited)"
| "subtype_level g (current # frontier) visited =
     (let rows = unseen_by gs_id visited (direct_subtypes g current);
          (rest, visited) = subtype_level g frontier (visited @ map gs_id rows)
      in (rows @ rest, visited))"

fun subtype_levels :: "semantic_graph \<Rightarrow> nat \<Rightarrow> symbol_id list \<Rightarrow> symbol_id list \<Rightarrow> graph_symbol list" where
  "subtype_levels g 0 frontier visited = []"
| "subtype_levels g (Suc d) frontier visited =
     (if frontier = [] then []
      else (case subtype_level g frontier visited of
              (rows, visited) \<Rightarrow> rows @ subtype_levels g d (map gs_id rows) visited))"

definition inheritance_subtypes_transitive :: "semantic_graph \<Rightarrow> symbol_id \<Rightarrow> nat \<Rightarrow> graph_symbol list" where
  "inheritance_subtypes_transitive g target max_depth = subtype_levels g max_depth [target] [target]"

definition MEMBER_IMPL_MAX_SUBTYPE_DEPTH :: nat where "MEMBER_IMPL_MAX_SUBTYPE_DEPTH = 64"

definition is_override_or_abstract :: "graph_symbol \<Rightarrow> bool" where
  "is_override_or_abstract s =
     list_ex (\<lambda>a. ends_with a (lit '':override'') \<or> ends_with a (lit '':abstract'') \<or> a = lit ''override'' \<or> a = lit ''abstract'')
       (gs_attributes s)"

definition overrides_member :: "graph_symbol \<Rightarrow> graph_symbol \<Rightarrow> bool" where
  "overrides_member base child \<longleftrightarrow>
     gs_name child = gs_name base
     \<and> (case (gs_arity base, gs_arity child) of (Some a, Some b) \<Rightarrow> a = b | _ \<Rightarrow> True)"

definition member_implementations :: "semantic_graph \<Rightarrow> symbol_id \<Rightarrow> graph_symbol list" where
  "member_implementations g member_id =
     (case symbol_at g member_id of
        None \<Rightarrow> []
      | Some base \<Rightarrow>
          (case gs_parent_id base of
             None \<Rightarrow> []
           | Some owner \<Rightarrow>
               (let subtypes = inheritance_subtypes_transitive g owner MEMBER_IMPL_MAX_SUBTYPE_DEPTH;
                    children = concat (map (\<lambda>t. List.map_filter (symbol_at g) (bucket (sg_children g) (gs_id t))) subtypes);
                    found = unseen_by gs_id [member_id] (filter (overrides_member base) children)
                in filter is_override_or_abstract found @ filter (\<lambda>s. \<not> is_override_or_abstract s) found)))"

definition ancestor_slot :: "edge_kind \<Rightarrow> nat option" where
  "ancestor_slot k =
     (if k = UsesTraitEdge then Some 0 else if k = ExtendsEdge then Some 1 else if k = ImplementsEdge then Some 2 else None)"

definition push_ancestor :: "nat \<Rightarrow> symbol_id \<Rightarrow> symbol_id list \<times> symbol_id list \<times> symbol_id list \<Rightarrow> symbol_id list \<times> symbol_id list \<times> symbol_id list" where
  "push_ancestor n t slots =
     (case slots of (traits, bases, interfaces) \<Rightarrow>
        if n = 0 then (traits @ [t], bases, interfaces)
        else if n = 1 then (traits, bases @ [t], interfaces) else (traits, bases, interfaces @ [t]))"

definition ancestor_slots :: "semantic_graph \<Rightarrow> symbol_id \<Rightarrow> symbol_id list \<times> symbol_id list \<times> symbol_id list" where
  "ancestor_slots g node = (case map_of (sg_ancestor_edges g) node of Some slots \<Rightarrow> slots | None \<Rightarrow> ([], [], []))"

definition index_ancestor_edge :: "graph_edge \<Rightarrow> semantic_graph \<Rightarrow> semantic_graph" where
  "index_ancestor_edge e g =
     (case (ancestor_slot (ed_kind e), ed_to e) of
        (Some n, Some t) \<Rightarrow>
          g\<lparr>sg_ancestor_edges := AList.update (ed_from e) (push_ancestor n t (ancestor_slots g (ed_from e))) (sg_ancestor_edges g)\<rparr>
      | _ \<Rightarrow> g)"

definition build_ancestor_edge_index :: "semantic_graph \<Rightarrow> semantic_graph" where
  "build_ancestor_edge_index g = fold index_ancestor_edge (sg_edges g) (g\<lparr>sg_ancestor_edges := []\<rparr>)"

definition ancestor_targets :: "semantic_graph \<Rightarrow> symbol_id \<Rightarrow> symbol_id list" where
  "ancestor_targets g node = (case ancestor_slots g node of (traits, bases, interfaces) \<Rightarrow> traits @ bases @ interfaces)"

definition all_ancestor_targets :: "semantic_graph \<Rightarrow> symbol_id set" where
  "all_ancestor_targets g = (\<Union>(id, slots) \<in> set (sg_ancestor_edges g). set (fst slots @ fst (snd slots) @ snd (snd slots)))"

lemma finite_ancestor_targets [simp]: "finite (all_ancestor_targets g)"
  by (auto simp: all_ancestor_targets_def)

lemma ancestor_targets_in: "set (ancestor_targets g x) \<subseteq> all_ancestor_targets g"
proof (cases "map_of (sg_ancestor_edges g) x")
  case None
  then show ?thesis by (simp add: ancestor_targets_def ancestor_slots_def)
next
  case (Some slots)
  then have "(x, slots) \<in> set (sg_ancestor_edges g)" by (rule map_of_SomeD)
  then show ?thesis using Some
    by (cases slots) (fastforce simp: ancestor_targets_def ancestor_slots_def all_ancestor_targets_def)
qed

function ancestor_loop :: "semantic_graph \<Rightarrow> symbol_id list \<Rightarrow> symbol_id list \<Rightarrow> symbol_id list" where
  "ancestor_loop g [] visited = []"
| "ancestor_loop g (current # queue) visited =
     (let fresh = unseen visited (ancestor_targets g current)
      in fresh @ ancestor_loop g (queue @ fresh) (visited @ fresh))"
  by pat_completeness auto
termination
proof (relation "measures [\<lambda>(g, queue, visited). card (all_ancestor_targets g - set visited), \<lambda>(g, queue, visited). length queue]")
  fix g :: semantic_graph and current :: symbol_id and queue visited fresh :: "symbol_id list"
  assume fresh: "fresh = unseen visited (ancestor_targets g current)"
  show "((g, queue @ fresh, visited @ fresh), g, current # queue, visited)
      \<in> measures [\<lambda>(g, queue, visited). card (all_ancestor_targets g - set visited), \<lambda>(g, queue, visited). length queue]"
  proof (cases "fresh = []")
    case True
    then show ?thesis by simp
  next
    case False
    then show ?thesis using unseen_measure [OF ancestor_targets_in finite_ancestor_targets, of visited g current] fresh by simp
  qed
qed simp

definition walk_inheritance_ancestors :: "semantic_graph \<Rightarrow> symbol_id \<Rightarrow> symbol_id list" where
  "walk_inheritance_ancestors g start = ancestor_loop g [start] [start]"

definition inheritance_ancestors :: "semantic_graph \<Rightarrow> symbol_id \<Rightarrow> graph_symbol list" where
  "inheritance_ancestors g start = List.map_filter (symbol_at g) (walk_inheritance_ancestors g start)"

section \<open>What a change reaches\<close>

text \<open>The stack of files still to visit, its top at the head of the list.\<close>

function affected_loop :: "(file_id, file_id list) hash_map \<Rightarrow> file_id list \<Rightarrow> file_id list \<Rightarrow> file_id list \<Rightarrow> file_id list" where
  "affected_loop importers [] visited affected = affected"
| "affected_loop importers (f # frontier) visited affected =
     (if f \<in> set visited then affected_loop importers frontier visited affected
      else affected_loop importers (rev (filter (\<lambda>i. i \<notin> set (f # visited)) (bucket importers f)) @ frontier)
             (f # visited) (List.insert f affected))"
  by pat_completeness auto

definition all_importers :: "(file_id, file_id list) hash_map \<Rightarrow> file_id set" where
  "all_importers importers = (\<Union>(f, fs) \<in> set importers. set fs)"

lemma finite_all_importers [simp]: "finite (all_importers importers)"
  by (auto simp: all_importers_def)

lemma bucket_all_importers: "set (bucket importers f) \<subseteq> all_importers importers"
proof (cases "map_of importers f")
  case (Some fs)
  then have "(f, fs) \<in> set importers" by (rule map_of_SomeD)
  then show ?thesis using Some by (auto simp: bucket_def all_importers_def)
qed (simp add: bucket_def)

termination affected_loop
proof (relation "measures [\<lambda>(importers, frontier, visited, affected). card (set frontier \<union> all_importers importers - set visited),
    \<lambda>(importers, frontier, visited, affected). length frontier]", goal_cases)
  case (2 importers f frontier visited affected)
  then have "card (set frontier \<union> all_importers importers - set visited) \<le> card (set (f # frontier) \<union> all_importers importers - set visited)"
    by (intro card_mono) auto
  then show ?case by (simp add: le_less)
next
  case (3 importers f frontier visited affected)
  have "set (rev (filter (\<lambda>i. i \<notin> set (f # visited)) (bucket importers f)) @ frontier) \<union> all_importers importers - set (f # visited)
      \<subset> set (f # frontier) \<union> all_importers importers - set visited"
    using 3 bucket_all_importers [of importers f] by auto
  then have "card (set (rev (filter (\<lambda>i. i \<notin> set (f # visited)) (bucket importers f)) @ frontier) \<union> all_importers importers
        - set (f # visited)) < card (set (f # frontier) \<union> all_importers importers - set visited)"
    by (intro psubset_card_mono) auto
  then show ?case by simp
qed simp

definition compute_affected ::
  "file_id list \<Rightarrow> (file_id, file_id list) hash_map \<Rightarrow> file_id list \<Rightarrow> file_id list \<Rightarrow> file_id list" where
  "compute_affected changed importers propagating removed =
     affected_loop importers (rev (propagating @ removed)) [] (remdups (changed @ removed))"

record impact_set =
  is_affected_files :: "file_id list"
  is_affected_symbols :: "graph_symbol list"
  is_affected_tests :: "graph_symbol list"

definition compute_impact :: "semantic_graph \<Rightarrow> file_id list \<Rightarrow> file_id list \<Rightarrow> file_id list \<Rightarrow> impact_set" where
  "compute_impact g changed propagating removed =
     (let files = compute_affected changed (sg_importers_by_file g) propagating removed;
          symbols = filter (\<lambda>s. gs_kind s \<noteq> FileKind \<and> gs_file_id s \<in> set files) (all_symbols g)
      in \<lparr>is_affected_files = files, is_affected_symbols = symbols,
          is_affected_tests =
            filter (\<lambda>s. list_ex (\<lambda>a. eq_ignore_case a (lit ''test'')) (gs_attributes s)
                        \<or> list_ex (\<lambda>e. ed_kind e = TestOfEdge) (outgoing_edges g (gs_id s))) symbols\<rparr>)"

definition direct_importers :: "semantic_graph \<Rightarrow> file_id \<Rightarrow> file_id list" where
  "direct_importers g f = bucket (sg_importers_by_file g) f"

end
