(* ===== verification/GraphEdges.thy ===== *)
theory GraphEdges
  imports GraphQueries
begin

text \<open>
  How the code graph finds its edges (\<open>crates/squeezy-graph/src/resolution.rs\<close>): \<open>rebuild_semantic_edges\<close> keeps the
  containment edges and derives the inheritance, import, call and reference edges anew.  The rules that belong to one language
  are parameters; the chain that tries them, and the rules all languages share, are here.
\<close>

section \<open>Scopes\<close>

text \<open>
  The ids from a symbol up to its outermost parent.  The code follows \<open>parent_id\<close> until it runs out; the walk is cut after one
  step others than there are symbols, which no chain without a cycle exceeds.
\<close>

fun ancestor_ids :: "semantic_graph \<Rightarrow> nat \<Rightarrow> symbol_id option \<Rightarrow> symbol_id list" where
  "ancestor_ids g n None = []"
| "ancestor_ids g 0 (Some i) = []"
| "ancestor_ids g (Suc n) (Some i) = i # ancestor_ids g n (Option.bind (symbol_at g i) gs_parent_id)"

definition parent_ids :: "semantic_graph \<Rightarrow> symbol_id option \<Rightarrow> symbol_id list" where
  "parent_ids g start = ancestor_ids g (Suc (length (sg_symbols g))) start"

definition symbol_is_descendant_of :: "semantic_graph \<Rightarrow> symbol_id \<Rightarrow> symbol_id \<Rightarrow> bool" where
  "symbol_is_descendant_of g child ancestor \<longleftrightarrow> ancestor \<in> set (parent_ids g (Some child))"

definition import_visible_from_symbol :: "semantic_graph \<Rightarrow> parsed_import \<Rightarrow> graph_symbol \<Rightarrow> bool" where
  "import_visible_from_symbol g i caller \<longleftrightarrow>
     im_file_id i = gs_file_id caller
     \<and> (case im_owner_id i of
          None \<Rightarrow> True
        | Some owner \<Rightarrow> owner = gs_id caller \<or> symbol_is_descendant_of g (gs_id caller) owner)"

definition module_path_for_symbol :: "semantic_graph \<Rightarrow> graph_symbol \<Rightarrow> str list" where
  "module_path_for_symbol g s =
     (let path = (case file_at g (gs_file_id s) of
                    None \<Rightarrow> [lit ''crate'']
                  | Some f \<Rightarrow>
                      if fr_language f = LangJava
                      then (case map_of (sg_java_packages g) (gs_file_id s) of
                              Some package \<Rightarrow> package | None \<Rightarrow> module_path_for_file (fr_relative_path f))
                      else module_path_for_file (fr_relative_path f));
          parents = List.map_filter (symbol_at g) (parent_ids g (gs_parent_id s))
      in path @ rev (map gs_name (filter (\<lambda>p. gs_kind p = ModuleKind) parents)))"

definition local_name :: "parsed_import \<Rightarrow> str" where
  "local_name i = (case im_alias i of Some a \<Rightarrow> a | None \<Rightarrow> last_path_segment (im_path i))"

definition visible_imports :: "semantic_graph \<Rightarrow> graph_symbol \<Rightarrow> parsed_import list" where
  "visible_imports g caller = filter (\<lambda>i. import_visible_from_symbol g i caller) (imports_for_file g (gs_file_id caller))"

definition receiver_module_paths :: "semantic_graph \<Rightarrow> graph_symbol \<Rightarrow> str \<Rightarrow> str list list" where
  "receiver_module_paths g caller receiver =
     (case path_segments receiver of
        [] \<Rightarrow> []
      | first # others \<Rightarrow>
          (let in_file = (case file_at g (gs_file_id caller) of
                            None \<Rightarrow> []
                          | Some f \<Rightarrow> (let m = module_path_for_file (fr_relative_path f)
                                      in [m @ first # others, butlast m @ first # others]));
               imported = map (\<lambda>i. path_segments (im_path i) @ others)
                            (filter (\<lambda>i. \<not> is_package_marker_alias (im_alias i) \<and> local_name i = first) (visible_imports g caller))
           in sort (remdups (filter (\<lambda>p. p \<noteq> [] \<and> hd p = lit ''crate'') ((first # others) # in_file @ imported)))))"

definition import_module_matches_symbol :: "graph_env \<Rightarrow> semantic_graph \<Rightarrow> parsed_import \<Rightarrow> graph_symbol \<Rightarrow> bool" where
  "import_module_matches_symbol env g i s =
     (let language = map_option fr_language (file_at g (gs_file_id s));
          own_rule = (case language of
             Some l \<Rightarrow> l \<in> {LangJava, LangKotlin, LangScala, LangSwift} \<or> is_js_ts_language l | None \<Rightarrow> False)
      in if own_rule then gx_language_import env (the language) g i s
         else (let path = path_segments (im_path i);
                   path = (if im_is_glob i then (if path \<noteq> [] \<and> last path = [STAR] then butlast path else path) else butlast path)
               in path \<noteq> [] \<and> path = module_path_for_symbol g s))"

section \<open>Inheritance edges\<close>

datatype inheritance_tag = BaseTag | InterfaceTag | MixinTag

definition symbol_uses_generic_inheritance :: "semantic_graph \<Rightarrow> graph_symbol \<Rightarrow> bool" where
  "symbol_uses_generic_inheritance g s \<longleftrightarrow>
     gs_kind s \<in> {ClassKind, InterfaceKind, StructKind, EnumKind, TraitKind, UnionKind}
     \<and> (case file_at g (gs_file_id s) of Some f \<Rightarrow> fr_language f \<notin> {LangCSharp, LangPhp} | None \<Rightarrow> False)"

definition inheritance_tag_of :: "str \<Rightarrow> (inheritance_tag \<times> str) option" where
  "inheritance_tag_of attribute =
     (case strip_prefix attribute (lit ''base:'') of
        Some name \<Rightarrow> Some (BaseTag, name)
      | None \<Rightarrow>
          (case strip_prefix attribute (lit ''iface:'') of
             Some name \<Rightarrow> Some (InterfaceTag, name)
           | None \<Rightarrow> map_option (\<lambda>name. (MixinTag, name)) (strip_prefix attribute (lit ''mixin:''))))"

definition generic_type_candidates :: "semantic_graph \<Rightarrow> file_id \<Rightarrow> str \<Rightarrow> symbol_id list" where
  "generic_type_candidates g f name =
     (let typed = filter (\<lambda>s. is_class_like_kind (gs_kind s) \<or> gs_kind s = UnionKind)
                    (List.map_filter (symbol_at g) (bucket (sg_symbols_by_name g) (last_path_segment name)))
      in case single_symbol (map gs_id (filter (\<lambda>s. gs_file_id s = f) typed)) of
           Some i \<Rightarrow> [i]
         | None \<Rightarrow> (case single_symbol (map gs_id typed) of Some i \<Rightarrow> [i] | None \<Rightarrow> []))"

definition generic_inheritance_target :: "graph_env \<Rightarrow> semantic_graph \<Rightarrow> file_id \<Rightarrow> str \<Rightarrow> symbol_id option" where
  "generic_inheritance_target env g f name =
     single_symbol
       (case map_option fr_language (file_at g f) of
          Some l \<Rightarrow> if l \<in> {LangJava, LangPython, LangC, LangCpp} then gx_type_candidates env l g f name
                   else generic_type_candidates g f name
        | None \<Rightarrow> generic_type_candidates g f name)"

definition inheritance_kind :: "semantic_graph \<Rightarrow> inheritance_tag \<Rightarrow> symbol_id \<Rightarrow> edge_kind" where
  "inheritance_kind g tag target =
     (case tag of
        BaseTag \<Rightarrow> (case symbol_at g target of
                      Some t \<Rightarrow> if gs_kind t = InterfaceKind then ImplementsEdge else ExtendsEdge | None \<Rightarrow> ExtendsEdge)
      | InterfaceTag \<Rightarrow> ImplementsEdge
      | MixinTag \<Rightarrow> UsesTraitEdge)"

definition heuristic_edge :: "symbol_id \<Rightarrow> symbol_id \<Rightarrow> str \<Rightarrow> edge_kind \<Rightarrow> source_span \<Rightarrow> string \<Rightarrow> string \<Rightarrow> graph_edge" where
  "heuristic_edge from_id to_id target kind span source reason =
     \<lparr>ed_from = from_id, ed_to = Some to_id, ed_target_text = target, ed_kind = kind, ed_span = Some span,
      ed_confidence = Heuristic, ed_freshness = FreshRow, ed_provenance = \<lparr>pv_source = lit source, pv_reason = lit reason\<rparr>,
      ed_candidates = []\<rparr>"

definition symbol_inheritance_edges :: "graph_env \<Rightarrow> semantic_graph \<Rightarrow> graph_symbol \<Rightarrow> graph_edge list" where
  "symbol_inheritance_edges env g s =
     unseen_by (\<lambda>e. (ed_kind e, ed_to e)) []
       (List.map_filter
         (\<lambda>(tag, raw_name). map_option
            (\<lambda>t. heuristic_edge (gs_id s) t (last_path_segment raw_name) (inheritance_kind g tag t) (gs_span s)
               ''graph'' ''generic inheritance attribute edge'')
            (generic_inheritance_target env g (gs_file_id s) raw_name))
         (List.map_filter inheritance_tag_of (gs_attributes s)))"

definition generic_inheritance_edges :: "graph_env \<Rightarrow> semantic_graph \<Rightarrow> graph_edge list" where
  "generic_inheritance_edges env g =
     concat (map (symbol_inheritance_edges env g) (filter (symbol_uses_generic_inheritance g) (all_symbols g)))"

definition impl_header_trait_resolves_to :: "graph_env \<Rightarrow> semantic_graph \<Rightarrow> str \<Rightarrow> graph_symbol \<Rightarrow> graph_symbol \<Rightarrow> bool" where
  "impl_header_trait_resolves_to env g header trait_symbol impl_anchor =
     (case split_once_str (lit '' for '') header of
        None \<Rightarrow> False
      | Some (trait_part, _) \<Rightarrow>
          (let segments = path_segments (trim_matches (\<lambda>c. \<not> is_ident_char c \<and> c \<noteq> COLON) (first_token trait_part))
           in if segments = [] \<or> last segments \<noteq> gs_name trait_symbol then False
              else if length segments = 1
              then gs_file_id trait_symbol = gs_file_id impl_anchor
                   \<or> list_ex (\<lambda>i. im_file_id i = gs_file_id impl_anchor \<and> local_name i = gs_name trait_symbol
                                  \<and> import_module_matches_symbol env g i trait_symbol) (sg_imports g)
              else if hd segments = lit ''crate'' then segments = module_path_for_symbol g trait_symbol @ [gs_name trait_symbol]
              else module_path_for_symbol g trait_symbol
                     \<in> set (receiver_module_paths g impl_anchor (join (lit ''::'') (butlast segments)))))"

definition rust_impl_type_symbol :: "semantic_graph \<Rightarrow> graph_symbol \<Rightarrow> str \<Rightarrow> symbol_id option" where
  "rust_impl_type_symbol g s type_name =
     (case generic_type_candidates g (gs_file_id s) type_name of i # _ \<Rightarrow> Some i | [] \<Rightarrow> None)"

definition rust_impl_trait_symbol :: "graph_env \<Rightarrow> semantic_graph \<Rightarrow> graph_symbol \<Rightarrow> str \<Rightarrow> symbol_id option" where
  "rust_impl_trait_symbol env g s trait_name =
     single_symbol (map gs_id
       (filter (\<lambda>t. gs_kind t = TraitKind \<and> impl_header_trait_resolves_to env g (gs_name s) t s)
         (List.map_filter (symbol_at g) (bucket (sg_symbols_by_name g) trait_name))))"

definition impl_edges :: "graph_env \<Rightarrow> semantic_graph \<Rightarrow> graph_symbol \<Rightarrow> graph_edge list" where
  "impl_edges env g s =
     (let header = gs_name s; type_name = impl_header_type_name header
      in if type_name = [] then []
         else (case rust_impl_type_symbol g s type_name of
                 None \<Rightarrow> []
               | Some type_id \<Rightarrow>
                   (case impl_header_trait_name header of
                      Some trait_name \<Rightarrow>
                        (case rust_impl_trait_symbol env g s trait_name of
                           None \<Rightarrow> []
                         | Some trait_id \<Rightarrow>
                             [heuristic_edge (gs_id s) trait_id trait_name TraitImplEdge (gs_span s) ''tree-sitter-rust'' ''trait impl edge'',
                              heuristic_edge type_id trait_id trait_name ImplementsEdge (gs_span s) ''tree-sitter-rust''
                                ''trait impl implements edge''])
                    | None \<Rightarrow>
                        [heuristic_edge (gs_id s) type_id type_name InherentImplEdge (gs_span s) ''tree-sitter-rust''
                           ''inherent impl edge''])))"

definition rust_impl_edges :: "graph_env \<Rightarrow> semantic_graph \<Rightarrow> graph_edge list" where
  "rust_impl_edges env g =
     concat (map (impl_edges env g)
       (filter (\<lambda>s. gs_kind s = ImplKind \<and> map_option fr_language (file_at g (gs_file_id s)) = Some LangRust) (all_symbols g)))"

section \<open>Ranking candidates\<close>

definition score_call_candidate ::
  "semantic_graph \<Rightarrow> file_id option \<Rightarrow> str option \<Rightarrow> str option \<Rightarrow> symbol_id \<Rightarrow> int" where
  "score_call_candidate g caller_file caller_package qualifier candidate_id =
     (case symbol_at g candidate_id of
        None \<Rightarrow> 0
      | Some candidate \<Rightarrow>
          (if caller_file = Some (gs_file_id candidate) then 8 else 0)
          + (case (caller_package, file_at g (gs_file_id candidate)) of
               (Some package, Some f) \<Rightarrow> if package_key (fr_relative_path f) = package then 4 else 0
             | _ \<Rightarrow> 0)
          + (case (qualifier, Option.bind (gs_parent_id candidate) (symbol_at g)) of
               (Some q, Some parent) \<Rightarrow>
                 if gs_name parent = q then 4
                 else if gs_kind parent = ImplKind \<and> impl_header_matches_type (gs_name parent) q then 4 else 0
             | _ \<Rightarrow> 0))"

definition rank_by :: "(symbol_id \<Rightarrow> int) \<Rightarrow> symbol_id list \<Rightarrow> symbol_id list" where
  "rank_by score candidates = map snd (sort_key (\<lambda>(s, i). (- s, i)) (map (\<lambda>i. (score i, i)) candidates))"

definition file_package :: "semantic_graph \<Rightarrow> file_id \<Rightarrow> str option" where
  "file_package g f = map_option (\<lambda>r. package_key (fr_relative_path r)) (file_at g f)"

definition rank_call_candidates :: "semantic_graph \<Rightarrow> symbol_id list \<Rightarrow> symbol_id \<Rightarrow> parsed_call \<Rightarrow> symbol_id list" where
  "rank_call_candidates g candidates caller_id call =
     (let caller_file = map_option gs_file_id (symbol_at g caller_id);
          qualifier = (case map_option last_path_segment (ca_receiver call) of Some q \<Rightarrow> if q = [] then None else Some q | None \<Rightarrow> None)
      in rank_by (score_call_candidate g caller_file (Option.bind caller_file (file_package g)) qualifier) candidates)"

definition rank_import_candidates :: "semantic_graph \<Rightarrow> symbol_id list \<Rightarrow> file_id \<Rightarrow> symbol_id list" where
  "rank_import_candidates g candidates importer =
     rank_by (score_call_candidate g (Some importer) (file_package g importer) None) candidates"

section \<open>Import edges\<close>

definition edge_source :: "symbol_id option \<Rightarrow> file_id \<Rightarrow> symbol_id" where
  "edge_source owner f = (case owner of Some i \<Rightarrow> i | None \<Rightarrow> file_symbol_id f)"

definition import_candidates :: "graph_env \<Rightarrow> semantic_graph \<Rightarrow> parsed_import \<Rightarrow> symbol_id list" where
  "import_candidates env g i =
     (let named = bucket (sg_symbols_by_name g) (last_path_segment (im_path i))
      in case map_option fr_language (file_at g (im_file_id i)) of
           Some l \<Rightarrow>
             if l \<in> {LangJava, LangKotlin, LangCSharp, LangPhp}
             then filter (\<lambda>c. case symbol_at g c of Some s \<Rightarrow> gx_language_import env l g i s | None \<Rightarrow> False) named
             else named
         | None \<Rightarrow> named)"

definition import_edge :: "graph_env \<Rightarrow> semantic_graph \<Rightarrow> parsed_import \<Rightarrow> graph_edge option" where
  "import_edge env g i =
     (if is_package_marker_alias (im_alias i) then None
      else (let candidates = import_candidates env g i;
                (to_id, confidence, edge_candidates) =
                  (case candidates of
                     [] \<Rightarrow> (None, if im_is_glob i then CandidateSet else ExternalTarget, [])
                   | only # others \<Rightarrow>
                       if others = [] \<and> \<not> im_is_glob i then (Some only, ImportResolved, [])
                       else (None, CandidateSet,
                             take MAX_EDGE_CANDIDATES (rank_import_candidates g candidates (im_file_id i))))
            in Some \<lparr>ed_from = edge_source (im_owner_id i) (im_file_id i), ed_to = to_id, ed_target_text = im_path i,
                     ed_kind = (if im_is_reexport i then ReexportsEdge else ImportsEdge), ed_span = Some (im_span i),
                     ed_confidence = confidence, ed_freshness = FreshRow, ed_provenance = im_provenance i,
                     ed_candidates = edge_candidates\<rparr>))"

section \<open>Reference edges\<close>

definition should_skip_reference_edge :: "semantic_graph \<Rightarrow> parsed_reference \<Rightarrow> bool" where
  "should_skip_reference_edge g r \<longleftrightarrow>
     (case file_at g (re_file_id r) of
        Some f \<Rightarrow> fr_language f = LangJava \<and> re_kind r \<in> {IdentifierRef, FieldRef} | None \<Rightarrow> False)"

definition reference_edge :: "semantic_graph \<Rightarrow> parsed_reference \<Rightarrow> graph_edge option" where
  "reference_edge g r =
     (if should_skip_reference_edge g r then None
      else (case bucket (sg_symbols_by_name g) (last_path_segment (re_text r)) of
              [only] \<Rightarrow>
                Some \<lparr>ed_from = edge_source (re_owner_id r) (re_file_id r), ed_to = Some only, ed_target_text = re_text r,
                      ed_kind = ReferencesEdge, ed_span = Some (re_span r), ed_confidence = Heuristic, ed_freshness = FreshRow,
                      ed_provenance = re_provenance r, ed_candidates = []\<rparr>
            | _ \<Rightarrow> None))"

end
