(* ===== verification/CallResolution.thy ===== *)
theory CallResolution
  imports GraphEdges
begin

text \<open>
  The resolution of a call (\<open>resolve_call\<close> in \<open>crates/squeezy-graph/src/resolution.rs\<close>): the shared rules one by one, the chain
  that tries them, the derivation of all edges, and the operations that change the graph's files.
\<close>

section \<open>Shared rules\<close>

abbreviation has_scope :: "str \<Rightarrow> bool" where
  "has_scope s \<equiv> contains s (lit ''::'')"

definition arity_unique_candidate :: "semantic_graph \<Rightarrow> symbol_id list \<Rightarrow> parsed_call \<Rightarrow> symbol_id option" where
  "arity_unique_candidate g candidates call =
     (if length candidates < 2 \<or> 256 \<le> ca_arity call then None
      else (case filter (\<lambda>i. Option.bind (symbol_at g i) gs_arity = Some (of_nat (ca_arity call))) candidates of
              [only] \<Rightarrow> Some only | _ \<Rightarrow> None))"

definition found_symbols :: "semantic_graph \<Rightarrow> symbol_id list \<Rightarrow> graph_symbol list" where
  "found_symbols g ids = List.map_filter (symbol_at g) ids"

definition same_impl_qualified_call :: "semantic_graph \<Rightarrow> symbol_id list \<Rightarrow> symbol_id \<Rightarrow> parsed_call \<Rightarrow> symbol_id option" where
  "same_impl_qualified_call g candidates caller_id call =
     (if ca_receiver call \<noteq> Some (lit ''Self'') then None
      else (case symbol_at g caller_id of
              None \<Rightarrow> None
            | Some caller \<Rightarrow>
                (case (if gs_kind caller = ImplKind then Some (gs_id caller) else gs_parent_id caller) of
                   None \<Rightarrow> None
                 | Some impl_id \<Rightarrow>
                     (case symbol_at g impl_id of
                        None \<Rightarrow> None
                      | Some s \<Rightarrow>
                          if gs_kind s = ImplKind
                          then single_symbol (map gs_id (filter (\<lambda>c. gs_parent_id c = Some impl_id) (found_symbols g candidates)))
                          else None))))"

text \<open>\<open>path_starts_with_external_root\<close> for Rust, the only language these rules ask about.\<close>

definition has_rust_external_root :: "str \<Rightarrow> bool" where
  "has_rust_external_root path = one_of (trim (hd (split_str (lit ''::'') path))) [''std'', ''core'', ''alloc'', ''proc_macro'']"

definition associated_function_call :: "semantic_graph \<Rightarrow> symbol_id list \<Rightarrow> parsed_call \<Rightarrow> symbol_id option" where
  "associated_function_call g candidates call =
     (case ca_receiver call of
        None \<Rightarrow> None
      | Some receiver \<Rightarrow>
          (let type_name = last_path_segment receiver
           in if has_rust_external_root receiver then None
              else if type_name = [] \<or> \<not> (65 \<le> hd type_name \<and> hd type_name \<le> 90) then None
              else single_symbol (map gs_id
                     (filter (\<lambda>c. gs_kind c \<in> {FunctionKind, MethodKind}
                                  \<and> (case Option.bind (gs_parent_id c) (symbol_at g) of
                                       Some parent \<Rightarrow> gs_kind parent = ImplKind \<and> impl_header_matches_type (gs_name parent) type_name
                                     | None \<Rightarrow> False))
                       (found_symbols g candidates)))))"

definition is_free_function_like :: "graph_symbol \<Rightarrow> bool" where
  "is_free_function_like s \<longleftrightarrow>
     (case gs_parent_id s of
        Some p \<Rightarrow> starts_with p (lit ''file:'') \<or> contains p (lit ''::module:'') | None \<Rightarrow> True)"

definition module_qualified_call :: "semantic_graph \<Rightarrow> symbol_id list \<Rightarrow> symbol_id \<Rightarrow> parsed_call \<Rightarrow> symbol_id option" where
  "module_qualified_call g candidates caller_id call =
     (case (ca_receiver call, symbol_at g caller_id) of
        (Some receiver, Some caller) \<Rightarrow>
          if has_rust_external_root receiver then None
          else (let paths = receiver_module_paths g caller receiver
                in if paths = [] then None
                   else single_symbol (map gs_id
                          (filter (\<lambda>c. gs_kind c \<in> {FunctionKind, TestKind} \<and> is_free_function_like c
                                       \<and> module_path_for_symbol g c \<in> set paths) (found_symbols g candidates))))
      | _ \<Rightarrow> None)"

fun first_hit :: "'a option list \<Rightarrow> 'a option" where
  "first_hit [] = None"
| "first_hit (Some x # xs) = Some x"
| "first_hit (None # xs) = first_hit xs"

definition qualified_direct_call :: "semantic_graph \<Rightarrow> symbol_id list \<Rightarrow> symbol_id \<Rightarrow> parsed_call \<Rightarrow> symbol_id option" where
  "qualified_direct_call g candidates caller_id call =
     (if ca_kind call \<noteq> DirectCall \<or> \<not> has_scope (ca_target_text call) then None
      else first_hit [same_impl_qualified_call g candidates caller_id call, associated_function_call g candidates call,
                       module_qualified_call g candidates caller_id call])"

definition method_on_class_or_partials :: "semantic_graph \<Rightarrow> graph_symbol \<Rightarrow> str \<Rightarrow> symbol_id option \<Rightarrow> symbol_id option" where
  "method_on_class_or_partials g parent name exclude =
     (let partials = (case gs_language_identity parent of Some l \<Rightarrow> bucket (sg_by_identity g) l | None \<Rightarrow> []);
          children = concat (map (bucket (sg_children g)) (gs_id parent # partials))
      in single_symbol (map gs_id
           (filter (\<lambda>c. gs_kind c \<in> {MethodKind, FunctionKind, TestKind} \<and> gs_name c = name \<and> exclude \<noteq> Some (gs_id c))
             (found_symbols g children))))"

definition same_class_direct_call :: "semantic_graph \<Rightarrow> symbol_id \<Rightarrow> str \<Rightarrow> symbol_id option" where
  "same_class_direct_call g caller_id name =
     (case symbol_at g caller_id of
        None \<Rightarrow> None
      | Some caller \<Rightarrow>
          if gs_kind caller \<notin> {MethodKind, FunctionKind} then None
          else (case Option.bind (gs_parent_id caller) (symbol_at g) of
                  None \<Rightarrow> None
                | Some parent \<Rightarrow>
                    if gs_kind parent \<in> {ClassKind, StructKind, UnionKind}
                    then method_on_class_or_partials g parent name (Some (gs_id caller)) else None))"

definition same_impl_method :: "semantic_graph \<Rightarrow> symbol_id \<Rightarrow> str \<Rightarrow> symbol_id option" where
  "same_impl_method g caller_id name =
     (case symbol_at g caller_id of
        None \<Rightarrow> None
      | Some caller \<Rightarrow>
          (case Option.bind (if gs_kind caller = ImplKind then Some (gs_id caller) else gs_parent_id caller) (symbol_at g) of
             None \<Rightarrow> None
           | Some parent \<Rightarrow>
               if gs_kind parent \<in> {ClassKind, ImplKind, InterfaceKind, StructKind, TraitKind}
               then method_on_class_or_partials g parent name (Some (gs_id caller)) else None))"

definition same_file_direct_call :: "semantic_graph \<Rightarrow> symbol_id list \<Rightarrow> symbol_id \<Rightarrow> parsed_call \<Rightarrow> symbol_id option" where
  "same_file_direct_call g candidates caller_id call =
     (if has_scope (ca_target_text call) then None
      else (case symbol_at g caller_id of
              None \<Rightarrow> None
            | Some caller \<Rightarrow>
                single_unique (map gs_id
                  (filter (\<lambda>c. gs_file_id c = gs_file_id caller \<and> gs_kind c \<in> {ClassKind, FunctionKind, TestKind})
                    (found_symbols g candidates)))))"

definition symbol_is_imported_as :: "graph_env \<Rightarrow> semantic_graph \<Rightarrow> graph_symbol \<Rightarrow> graph_symbol \<Rightarrow> str \<Rightarrow> bool" where
  "symbol_is_imported_as env g caller s name =
     list_ex (\<lambda>i. \<not> is_package_marker_alias (im_alias i) \<and> local_name i = name \<and> import_matches_symbol env g i s)
       (visible_imports g caller)"

definition imported_direct_call :: "graph_env \<Rightarrow> semantic_graph \<Rightarrow> symbol_id list \<Rightarrow> symbol_id \<Rightarrow> parsed_call \<Rightarrow> symbol_id option" where
  "imported_direct_call env g candidates caller_id call =
     (if ca_receiver call \<noteq> None then None
      else (case symbol_at g caller_id of
              None \<Rightarrow> None
            | Some caller \<Rightarrow>
                single_unique (map gs_id
                  (filter (\<lambda>c. symbol_is_imported_as env g caller c (ca_name call)) (found_symbols g candidates)))))"

definition is_callable_kind :: "symbol_kind \<Rightarrow> bool" where
  "is_callable_kind k \<longleftrightarrow> k \<in> {ClassKind, FunctionKind, MethodKind, TestKind}"

definition import_alias_direct_call :: "graph_env \<Rightarrow> semantic_graph \<Rightarrow> symbol_id \<Rightarrow> parsed_call \<Rightarrow> symbol_id option" where
  "import_alias_direct_call env g caller_id call =
     (if ca_kind call \<noteq> DirectCall \<or> ca_receiver call \<noteq> None then None
      else (case symbol_at g caller_id of
              None \<Rightarrow> None
            | Some caller \<Rightarrow>
                single_symbol (concat (map
                  (\<lambda>i. map gs_id (filter (\<lambda>s. is_callable_kind (gs_kind s) \<and> import_matches_symbol env g i s)
                                   (found_symbols g (bucket (sg_symbols_by_name g) (last_path_segment (im_path i))))))
                  (filter (\<lambda>i. sp_start_byte (im_span i) \<le> sp_start_byte (ca_span call) \<and> im_alias i = Some (ca_name call))
                    (visible_imports g caller))))))"

definition package_local_direct_call :: "semantic_graph \<Rightarrow> symbol_id list \<Rightarrow> symbol_id \<Rightarrow> symbol_id option" where
  "package_local_direct_call g candidates caller_id =
     (case symbol_at g caller_id of
        None \<Rightarrow> None
      | Some caller \<Rightarrow>
          (case file_at g (gs_file_id caller) of
             None \<Rightarrow> None
           | Some caller_file \<Rightarrow>
               single_symbol (map gs_id
                 (filter (\<lambda>c. (if fr_language caller_file = LangJava
                               then map_of (sg_java_packages g) (gs_file_id c) = map_of (sg_java_packages g) (gs_file_id caller)
                               else file_package g (gs_file_id c) = Some (package_key (fr_relative_path caller_file)))
                              \<and> is_callable_kind (gs_kind c))
                   (found_symbols g candidates)))))"

section \<open>The chain of rules\<close>

type_synonym resolution = "symbol_id option \<times> confidence_level \<times> string \<times> symbol_id list"

definition resolved_to :: "confidence_level \<Rightarrow> string \<Rightarrow> symbol_id \<Rightarrow> resolution" where
  "resolved_to confidence reason i = (Some i, confidence, reason, [])"

definition tried :: "symbol_id option \<Rightarrow> confidence_level \<Rightarrow> string \<Rightarrow> resolution option" where
  "tried found confidence reason = map_option (resolved_to confidence reason) found"

definition unresolved ::
  "semantic_graph \<Rightarrow> symbol_id list \<Rightarrow> symbol_id \<Rightarrow> parsed_call \<Rightarrow> confidence_level \<Rightarrow> string \<Rightarrow> string \<Rightarrow> resolution" where
  "unresolved g candidates caller_id call none_confidence none_reason set_reason =
     (if candidates = [] then (None, none_confidence, none_reason, [])
      else (None, CandidateSet, set_reason, take MAX_EDGE_CANDIDATES (rank_call_candidates g candidates caller_id call)))"

definition METHOD_RULES :: "(call_rule \<times> confidence_level \<times> string) list" where
  "METHOD_RULES =
     [(JavaStaticImportedMethod, ImportResolved, ''java static import''),
      (JavaReceiverFieldMethod, Heuristic, ''java field receiver''),
      (CsharpReceiverFieldMethod, Heuristic, ''csharp field receiver''),
      (KotlinExtensionFunction, Heuristic, ''kotlin extension receiver''),
      (KotlinCompanionMember, Heuristic, ''kotlin companion member''),
      (KotlinReceiverFieldMethod, Heuristic, ''kotlin field receiver''),
      (SwiftExtensionReceiver, Heuristic, ''swift extension receiver''),
      (PythonReceiverAlias, Heuristic, ''constructor alias''),
      (PythonManagerDispatch, Heuristic, ''python manager dispatch''),
      (PythonModuleQualified, ImportResolved, ''imported module''),
      (GoPackageQualified, ImportResolved, ''go package import''),
      (GoReceiverMethod, Heuristic, ''go receiver method''),
      (ScalaCompanionMethod, Heuristic, ''scala companion object''),
      (ScalaExtensionMethod, Heuristic, ''scala extension method''),
      (DartImportPrefix, ImportResolved, ''dart prefix import''),
      (DartExtensionMethod, Heuristic, ''dart extension method''),
      (DartTypedLocal, Heuristic, ''dart typed local receiver''),
      (TsReceiverTyped, Heuristic, ''js/ts typed receiver''),
      (CppMemberMethod, Heuristic, ''cpp member method'')]"

definition resolve_macro :: "semantic_graph \<Rightarrow> parsed_call \<Rightarrow> symbol_id \<Rightarrow> resolution" where
  "resolve_macro g call caller_id =
     (let candidates = filter (\<lambda>i. map_option gs_kind (symbol_at g i) = Some MacroKind) (bucket (sg_symbols_by_name g) (ca_name call))
      in case candidates of
           [only] \<Rightarrow> resolved_to ExactSyntax ''macro exact'' only
         | _ \<Rightarrow> unresolved g candidates caller_id call MacroOpaque ''macro opaque'' ''macro candidate set'')"

definition first_resolution :: "resolution option list \<Rightarrow> resolution \<Rightarrow> resolution" where
  "first_resolution attempts otherwise = (case first_hit attempts of Some r \<Rightarrow> r | None \<Rightarrow> otherwise)"

definition call_candidates :: "semantic_graph \<Rightarrow> parsed_call \<Rightarrow> symbol_id list" where
  "call_candidates g call =
     filter (\<lambda>i. case symbol_at g i of Some s \<Rightarrow> is_callable_kind (gs_kind s) | None \<Rightarrow> False)
       (bucket (sg_symbols_by_name g) (ca_name call))"

definition early_attempts :: "graph_env \<Rightarrow> semantic_graph \<Rightarrow> parsed_call \<Rightarrow> symbol_id \<Rightarrow> resolution option list" where
  "early_attempts env g call caller_id =
     (let direct = ca_kind call = DirectCall; method = ca_kind call = MethodCall;
          is_base_call = (method \<and> ca_receiver call = Some (lit ''base''));
          own_receiver = (ca_receiver call = None \<or> is_self_receiver (ca_receiver call));
          rule = (\<lambda>r. gx_rule env r g [] caller_id call)
      in [if direct then tried (import_alias_direct_call env g caller_id call) ImportResolved ''import alias'' else None,
          if method \<and> \<not> is_base_call \<and> own_receiver
          then tried (same_impl_method g caller_id (ca_name call)) ExactSyntax ''same class or impl'' else None,
          if direct \<and> ca_receiver call = None \<and> \<not> has_scope (ca_target_text call)
          then tried (same_class_direct_call g caller_id (ca_name call)) ExactSyntax ''same class'' else None,
          if direct then tried (rule PhpTypeCandidate) Heuristic ''php psr4 type'' else None,
          if method then tried (rule InheritedPythonMethod) Heuristic ''inherited class'' else None,
          tried (rule InheritedRubyMethod) Heuristic ''ruby ancestor'',
          tried (rule DartInheritedMethod) Heuristic ''dart inherited'',
          if method then tried (rule InheritedJsTsMethod) Heuristic ''js/ts inherited'' else None,
          if method then tried (rule InheritedPhpMethod) Heuristic ''inherited php trait or class'' else None])"

definition resolve_call :: "graph_env \<Rightarrow> semantic_graph \<Rightarrow> parsed_call \<Rightarrow> symbol_id \<Rightarrow> resolution" where
  "resolve_call env g call caller_id =
     (if ca_kind call = MacroCall then resolve_macro g call caller_id
      else (let candidates = call_candidates g call;
                rule = (\<lambda>r. gx_rule env r g candidates caller_id call);
                set_of = unresolved g candidates caller_id call ExternalTarget;
                own_receiver = (ca_receiver call = None \<or> is_self_receiver (ca_receiver call));
                by_arity = tried (arity_unique_candidate g candidates call) Heuristic ''arity match'';
                early = early_attempts env g call caller_id
                  @ [tried (qualified_direct_call g candidates caller_id call) Heuristic ''qualified syntax'']
            in if ca_kind call = MethodCall
               then first_resolution
                      (early @ map (\<lambda>(r, confidence, reason). tried (rule r) confidence reason) METHOD_RULES
                       @ [if own_receiver then by_arity else None])
                      (set_of ''method external'' ''method candidate set'')
               else if ca_receiver call \<noteq> None
               then first_resolution (early @ [if is_self_receiver (ca_receiver call) then by_arity else None])
                      (set_of ''receiver external'' ''receiver candidate set'')
               else first_resolution
                      (early
                       @ [tried (same_file_direct_call g candidates caller_id call) ExactSyntax ''same file'',
                          tried (imported_direct_call env g candidates caller_id call) ImportResolved ''explicit import'',
                          if gx_unresolved_import env g caller_id call
                          then Some (set_of ''unresolved imported symbol'' ''unresolved imported symbol candidate set'') else None,
                          tried (rule CFamilyIncludeDirect) ImportResolved ''include directive'',
                          tried (package_local_direct_call g candidates caller_id) Heuristic ''package local'',
                          tried (rule ScalaTopLevelDef) ImportResolved ''scala top-level def'',
                          by_arity])
                      (set_of ''external'' ''candidate set'')))"

definition call_edge :: "graph_env \<Rightarrow> semantic_graph \<Rightarrow> parsed_call \<Rightarrow> graph_edge" where
  "call_edge env g call =
     (let from_id = edge_source (ca_caller_id call) (ca_file_id call);
          (to_id, confidence, reason, edge_candidates) = resolve_call env g call from_id
      in \<lparr>ed_from = from_id, ed_to = to_id, ed_target_text = ca_target_text call, ed_kind = edge_kind_for_call (ca_kind call),
          ed_span = Some (ca_span call), ed_confidence = confidence, ed_freshness = FreshRow,
          ed_provenance = \<lparr>pv_source = pv_source (ca_provenance call),
                           pv_reason = pv_reason (ca_provenance call) @ lit ''; rank='' @ lit reason\<rparr>,
          ed_candidates = edge_candidates\<rparr>)"

section \<open>Deriving the edges\<close>

definition add_edges :: "graph_edge list \<Rightarrow> semantic_graph \<Rightarrow> semantic_graph" where
  "add_edges es g = g\<lparr>sg_edges := sg_edges g @ es\<rparr>"

text \<open>While the edges of a row list are made, that list is taken out of the graph.\<close>

definition add_import_edges :: "graph_env \<Rightarrow> semantic_graph \<Rightarrow> semantic_graph" where
  "add_import_edges env g =
     (let taken = g\<lparr>sg_imports := []\<rparr> in add_edges (List.map_filter (import_edge env taken) (sg_imports g)) g)"

definition add_call_edges :: "graph_env \<Rightarrow> semantic_graph \<Rightarrow> semantic_graph" where
  "add_call_edges env g = (let taken = g\<lparr>sg_calls := []\<rparr> in add_edges (map (call_edge env taken) (sg_calls g)) g)"

definition add_reference_edges :: "semantic_graph \<Rightarrow> semantic_graph" where
  "add_reference_edges g =
     (let taken = g\<lparr>sg_references := []\<rparr> in add_edges (List.map_filter (reference_edge taken) (sg_references g)) g)"

definition keep_containment :: "semantic_graph \<Rightarrow> semantic_graph" where
  "keep_containment g =
     g\<lparr>sg_edges := filter (\<lambda>e. ed_kind e = ContainsEdge \<and> edge_endpoints_present (sg_symbols g) e) (sg_edges g)\<rparr>"

definition rebuild_semantic_edges :: "graph_env \<Rightarrow> bool \<Rightarrow> semantic_graph \<Rightarrow> semantic_graph" where
  "rebuild_semantic_edges env resolver_loaded g =
     (let g = rebuild_resolution_indexes env resolver_loaded (keep_containment g);
          g = add_edges (gx_csharp_type_edges env g) g;
          g = add_edges (gx_php_type_edges env g) g;
          g = add_edges (generic_inheritance_edges env g) g;
          g = add_edges (rust_impl_edges env g) g;
          g = build_ancestor_edge_index g;
          g = add_import_edges env g;
          g = add_call_edges env g;
          g = add_reference_edges g
      in add_edges (gx_python_route_edges env g) g)"

section \<open>Changing the files\<close>

definition from_parsed :: "graph_env \<Rightarrow> parsed_file list \<Rightarrow> semantic_graph" where
  "from_parsed env files =
     rebuild_indexes env (rebuild_semantic_edges env False (fold insert_parsed_file files empty_graph))"

definition replace_files :: "graph_env \<Rightarrow> parsed_file list \<Rightarrow> semantic_graph \<Rightarrow> semantic_graph" where
  "replace_files env files g =
     (let g = remove_files_data (map (\<lambda>pf. fr_id (pf_file pf)) files) g
      in rebuild_indexes env (rebuild_semantic_edges env False (fold insert_parsed_file files g)))"

definition replace_file :: "graph_env \<Rightarrow> parsed_file \<Rightarrow> semantic_graph \<Rightarrow> semantic_graph" where
  "replace_file env pf g = replace_files env [pf] g"

definition remove_graph_file :: "graph_env \<Rightarrow> file_id \<Rightarrow> semantic_graph \<Rightarrow> semantic_graph" where
  "remove_graph_file env f g = rebuild_indexes env (rebuild_semantic_edges env False (remove_file_data f g))"

end
