(* ===== verification/GraphSearchSpec.thy ===== *)
theory GraphSearchSpec
  imports CallResolution
begin

text \<open>
  The searches of the code graph: the trigram index finds exactly what a scan of all rows finds, also when the index of the body
  hits is carried over from one rebuild to the next.
\<close>

section \<open>Trigrams of a substring\<close>

lemma windows3_Cons: "set (windows3 xs) \<subseteq> set (windows3 (x # xs))"
  by (cases xs; cases "tl xs") auto

lemma windows3_append1: "set (windows3 xs) \<subseteq> set (windows3 (ys @ xs))"
  by (induction ys) (auto intro: subsetD [OF windows3_Cons])

lemma windows3_append2: "set (windows3 xs) \<subseteq> set (windows3 (xs @ ys))"
  by (induction xs rule: windows3.induct) auto

lemma set_unique_trigrams: "set (unique_trigrams s) = set (windows3 (utf8_bytes s))"
  by (simp add: unique_trigrams_def)

lemma distinct_unique_trigrams: "distinct (unique_trigrams s)"
  by (simp add: unique_trigrams_def)

lemma utf8_bytes_append: "utf8_bytes (a @ b) = utf8_bytes a @ utf8_bytes b"
  by (induction a) simp_all

lemma contains_trigrams: "contains s needle \<Longrightarrow> set (unique_trigrams needle) \<subseteq> set (unique_trigrams s)"
proof -
  assume "contains s needle"
  then obtain u v where "s = u @ needle @ v" by (auto simp: contains_iff)
  then have "utf8_bytes s = utf8_bytes u @ (utf8_bytes needle @ utf8_bytes v)" by (simp add: utf8_bytes_append)
  then show ?thesis unfolding set_unique_trigrams
    by (simp only: subset_trans [OF windows3_append2 windows3_append1])
qed

section \<open>The index\<close>

lemma map_filter_snd_pair:
  "distinct ts \<Longrightarrow> map snd (filter (\<lambda>kv. fst kv = t) (map (\<lambda>x. (x, a)) ts)) = (if t \<in> set ts then [a] else [])"
  by (induction ts) (auto split: if_splits)

lemma bucket_trigram_index:
  "bucket (trigram_index rows) t = map fst (filter (\<lambda>(a, s). t \<in> set (unique_trigrams s)) rows)"
proof (induction rows)
  case Nil
  show ?case by (simp add: trigram_index_def bucket_group_by)
next
  case (Cons row rows)
  have step: "bucket (trigram_index (row # rows)) t
      = map snd (filter (\<lambda>kv. fst kv = t) (map (\<lambda>x. (x, fst row)) (unique_trigrams (snd row)))) @ bucket (trigram_index rows) t"
    by (simp add: trigram_index_def bucket_group_by case_prod_beta)
  show ?case
    unfolding step map_filter_snd_pair [OF distinct_unique_trigrams] Cons.IH by (cases row) simp
qed

lemma trigram_index_None:
  "map_of (trigram_index rows) t = None \<Longrightarrow> (a, s) \<in> set rows \<Longrightarrow> t \<notin> set (unique_trigrams s)"
  by (force simp: trigram_index_def map_of_group_by_None)

lemma trigram_index_Some:
  "map_of (trigram_index rows) t = Some found \<Longrightarrow> found = map fst (filter (\<lambda>(a, s). t \<in> set (unique_trigrams s)) rows)"
  using bucket_trigram_index [of rows t] by (simp add: bucket_def)

lemma rarest_from_cases:
  "case rarest_from best ts index of
     AllRows \<Rightarrow> best = None \<and> ts = []
   | NoRows \<Rightarrow> \<exists>t \<in> set ts. map_of index t = None
   | Rows found \<Rightarrow> best = Some found \<or> (\<exists>t \<in> set ts. map_of index t = Some found)"
proof (induction best ts index rule: rarest_from.induct)
  case (1 best index)
  then show ?case by (cases best) auto
next
  case (2 best t ts index)
  show ?case
  proof (cases "map_of index t")
    case None
    then show ?thesis by simp
  next
    case (Some found)
    let ?next = "case best of Some current \<Rightarrow> if length found < length current then Some found else Some current | None \<Rightarrow> Some found"
    have "?next = best \<or> ?next = Some found" "?next \<noteq> None" by (auto split: option.splits)
    with 2 [OF Some] Some show ?thesis by (fastforce split: candidates.splits)
  qed
qed

text \<open>Any needle's rows, read from the index and filtered, are the rows a scan keeps, in the same order.\<close>

lemma indexed_rows:
  assumes "rarest_indexed_trigram needle (trigram_index rows) = Rows found"
  shows "\<exists>t \<in> set (unique_trigrams needle). found = map fst (filter (\<lambda>(a, s). t \<in> set (unique_trigrams s)) rows)"
proof -
  have "\<exists>t \<in> set (unique_trigrams needle). map_of (trigram_index rows) t = Some found"
    using assms rarest_from_cases [of None "unique_trigrams needle" "trigram_index rows"]
    by (simp add: rarest_indexed_trigram_def split: if_splits)
  then show ?thesis using trigram_index_Some by metis
qed

lemma no_indexed_rows:
  assumes "rarest_indexed_trigram needle (trigram_index rows) = NoRows" "(a, s) \<in> set rows"
  shows "\<not> contains s needle"
proof -
  obtain t where "t \<in> set (unique_trigrams needle)" "map_of (trigram_index rows) t = None"
    using assms(1) rarest_from_cases [of None "unique_trigrams needle" "trigram_index rows"]
    by (fastforce simp: rarest_indexed_trigram_def split: if_splits)
  then show ?thesis using trigram_index_None [OF _ assms(2)] contains_trigrams by blast
qed

lemma filter_indexed:
  assumes "rarest_indexed_trigram needle (trigram_index rows) = Rows found"
    and "\<And>a s. (a, s) \<in> set rows \<Longrightarrow> P a \<Longrightarrow> contains s needle"
  shows "filter P found = filter P (map fst rows)"
proof -
  obtain t where t: "t \<in> set (unique_trigrams needle)" "found = map fst (filter (\<lambda>(a, s). t \<in> set (unique_trigrams s)) rows)"
    using indexed_rows [OF assms(1)] by blast
  have "P a \<longrightarrow> t \<in> set (unique_trigrams s)" if "(a, s) \<in> set rows" for a s
    using assms(2) [OF that] contains_trigrams t(1) by blast
  then have "filter P (map fst (filter (\<lambda>(a, s). t \<in> set (unique_trigrams s)) rows)) = filter P (map fst rows)"
  proof (induction rows)
    case (Cons row rows)
    have "filter P (map fst (filter (\<lambda>(a, s). t \<in> set (unique_trigrams s)) rows)) = filter P (map fst rows)"
      by (rule Cons.IH, rule Cons.prems) simp
    moreover have "P (fst row) \<longrightarrow> t \<in> set (unique_trigrams (snd row))" using Cons.prems [of "fst row" "snd row"] by simp
    ultimately show ?case by (cases row) simp
  qed simp
  then show ?thesis by (simp add: t(2))
qed

section \<open>Searching signatures\<close>

definition symbols_keyed :: "semantic_graph \<Rightarrow> bool" where
  "symbols_keyed g \<longleftrightarrow> distinct (map fst (sg_symbols g)) \<and> (\<forall>(i, s) \<in> set (sg_symbols g). gs_id s = i)"

lemma symbols_keyed_at: "symbols_keyed g \<Longrightarrow> symbol_at g i = Some s \<longleftrightarrow> s \<in> set (all_symbols g) \<and> gs_id s = i"
  by (force simp: symbols_keyed_def all_symbols_def)

lemma symbols_keyed_ids: "symbols_keyed g \<Longrightarrow> map gs_id (all_symbols g) = map fst (sg_symbols g)"
  by (auto simp: symbols_keyed_def all_symbols_def)

lemma symbol_at_own_id: "symbols_keyed g \<Longrightarrow> s \<in> set (all_symbols g) \<Longrightarrow> symbol_at g (gs_id s) = Some s"
  by (simp add: symbols_keyed_at)

definition signature_scan :: "graph_env \<Rightarrow> semantic_graph \<Rightarrow> signature_query \<Rightarrow> graph_symbol list" where
  "signature_scan env g q =
     sort_key symbol_position
       (filter (\<lambda>s. (case sq_kind q of Some k \<Rightarrow> gs_kind s = k | None \<Rightarrow> True)
                    \<and> contains (gx_lowercase env (gs_signature s)) (gx_lowercase env (sq_text q))
                    \<and> (case sq_visibility q of Some v \<Rightarrow> gs_visibility s = Some v | None \<Rightarrow> True)
                    \<and> (case sq_attribute q of Some a \<Rightarrow> list_ex (\<lambda>existing. contains existing a) (gs_attributes s) | None \<Rightarrow> True))
         (all_symbols g))"

definition signatures_indexed :: "graph_env \<Rightarrow> semantic_graph \<Rightarrow> bool" where
  "signatures_indexed env g \<longleftrightarrow>
     (let lower = map (\<lambda>s. (gs_id s, gx_lowercase env (gs_signature s))) (all_symbols g)
      in sg_signature_lower g = insert_entries lower [] \<and> sg_signature_trigrams g = trigram_index lower)"

lemma map_of_entries_distinct: "distinct (map fst kvs) \<Longrightarrow> map_of (insert_entries kvs []) = map_of kvs"
proof -
  assume "distinct (map fst kvs)"
  then have "map_of (rev kvs) = map_of kvs" by (intro map_of_eqI) (auto simp: rev_map [symmetric] map_of_eq_Some_iff)
  then show ?thesis by (simp add: map_of_insert_entries)
qed

lemma signature_lower_of:
  assumes "symbols_keyed g" "signatures_indexed env g" "s \<in> set (all_symbols g)"
  shows "map_of (sg_signature_lower g) (gs_id s) = Some (gx_lowercase env (gs_signature s))"
proof -
  let ?lower = "map (\<lambda>s. (gs_id s, gx_lowercase env (gs_signature s))) (all_symbols g)"
  have "map fst ?lower = map fst (sg_symbols g)" using symbols_keyed_ids [OF assms(1)] by (simp add: o_def)
  then have "distinct (map fst ?lower)" using assms(1) by (simp only: symbols_keyed_def)
  moreover have "(gs_id s, gx_lowercase env (gs_signature s)) \<in> set ?lower" using assms(3) by auto
  ultimately have "map_of ?lower (gs_id s) = Some (gx_lowercase env (gs_signature s))" by (rule map_of_is_SomeI)
  then show ?thesis
    using assms(2) map_of_entries_distinct [OF \<open>distinct (map fst ?lower)\<close>] by (simp add: signatures_indexed_def Let_def)
qed

lemma signature_search_scan:
  assumes keyed: "symbols_keyed g" and indexed: "signatures_indexed env g"
  shows "signature_search env g q = signature_scan env g q"
proof -
  let ?needle = "gx_lowercase env (sq_text q)"
  let ?match = "signature_query_matches g q ?needle"
  let ?rows = "map (\<lambda>s. (gs_id s, gx_lowercase env (gs_signature s))) (all_symbols g)"
  have trigrams: "sg_signature_trigrams g = trigram_index ?rows" using indexed by (simp add: signatures_indexed_def Let_def)
  have match: "?match s \<Longrightarrow> contains (gx_lowercase env (gs_signature s)) ?needle" if "s \<in> set (all_symbols g)" for s
    using signature_lower_of [OF keyed indexed that] by (simp add: signature_query_matches_def)
  have "filter ?match (signature_candidates g ?needle) = filter ?match (all_symbols g)"
  proof (cases "rarest_indexed_trigram ?needle (sg_signature_trigrams g)")
    case AllRows
    then show ?thesis by (simp add: signature_candidates_def)
  next
    case NoRows
    then have "\<not> ?match s" if "s \<in> set (all_symbols g)" for s
      using no_indexed_rows [of ?needle ?rows "gs_id s" "gx_lowercase env (gs_signature s)"] match [OF that] that trigrams by auto
    then show ?thesis using NoRows by (simp add: signature_candidates_def)
  next
    case (Rows ids)
    let ?P = "\<lambda>i. case symbol_at g i of Some s \<Rightarrow> ?match s | None \<Rightarrow> False"
    have "filter ?P ids = filter ?P (map fst ?rows)"
    proof (rule filter_indexed [of ?needle])
      show "rarest_indexed_trigram ?needle (trigram_index ?rows) = Rows ids" using Rows trigrams by simp
      fix i lower assume "(i, lower) \<in> set ?rows" "?P i"
      then obtain s where "s \<in> set (all_symbols g)" "i = gs_id s" "lower = gx_lowercase env (gs_signature s)" "?match s"
        using symbol_at_own_id [OF keyed] by auto
      then show "contains lower ?needle" using match by blast
    qed
    moreover have "filter ?match (List.map_filter (symbol_at g) xs) = List.map_filter (symbol_at g) (filter ?P xs)" for xs
      by (induction xs) (auto simp: map_filter_def split: option.splits)
    moreover have "List.map_filter (symbol_at g) (filter ?P (map gs_id xs)) = filter ?match xs" if "set xs \<subseteq> set (all_symbols g)" for xs
      using that by (induction xs) (auto simp: map_filter_def symbol_at_own_id [OF keyed])
    ultimately show ?thesis using Rows by (simp add: signature_candidates_def o_def)
  qed
  moreover have "filter ?match (all_symbols g)
      = filter (\<lambda>s. (case sq_kind q of Some k \<Rightarrow> gs_kind s = k | None \<Rightarrow> True)
                    \<and> contains (gx_lowercase env (gs_signature s)) ?needle
                    \<and> (case sq_visibility q of Some v \<Rightarrow> gs_visibility s = Some v | None \<Rightarrow> True)
                    \<and> (case sq_attribute q of Some a \<Rightarrow> list_ex (\<lambda>existing. contains existing a) (gs_attributes s) | None \<Rightarrow> True))
          (all_symbols g)"
    by (rule filter_cong) (auto simp: signature_query_matches_def signature_lower_of [OF keyed indexed])
  ultimately show ?thesis by (simp add: signature_search_def signature_scan_def Let_def)
qed

section \<open>Searching bodies\<close>

definition body_index_exact :: "graph_env \<Rightarrow> semantic_graph \<Rightarrow> bool" where
  "body_index_exact env g \<longleftrightarrow>
     sg_body_lower g = map (\<lambda>h. gx_lowercase env (bh_text h)) (sg_body_hits g)
     \<and> sg_body_indexed g = (length (sg_body_hits g) \<le> BODY_HIT_TRIGRAM_INDEX_MAX_HITS)
     \<and> sg_body_trigrams g = (if sg_body_indexed g then trigram_index (enumerate 0 (sg_body_lower g)) else [])
     \<and> sg_body_fingerprint g = Some (body_hits_fingerprint env (sg_body_hits g))"

definition body_scan :: "graph_env \<Rightarrow> semantic_graph \<Rightarrow> body_search_query \<Rightarrow> body_search_hit list" where
  "body_scan env g q =
     sort_key (\<lambda>b. (bh_file_id (bsh_hit b), sp_start_byte (bh_span (bsh_hit b))))
       (List.map_filter (body_search_hit_of g q)
         (filter (\<lambda>h. contains (gx_lowercase env (bh_text h)) (gx_lowercase env (bq_text q))) (sg_body_hits g)))"

lemma enumerate_upt: "enumerate 0 xs = map (\<lambda>i. (i, xs ! i)) [0..<length xs]"
  by (rule nth_equalityI) (simp_all add: nth_enumerate_eq)

lemma map_filter_nth: "map ((!) xs) (filter (\<lambda>i. P (xs ! i)) [0..<length xs]) = filter P xs"
proof -
  have "filter P (map ((!) xs) [0..<length xs]) = map ((!) xs) (filter (P \<circ> (!) xs) [0..<length xs])" by (rule filter_map)
  then show ?thesis by (simp add: map_nth o_def)
qed

lemma body_hit_scan_exact:
  "body_index_exact env g \<Longrightarrow>
     body_hit_scan g needle = filter (\<lambda>h. contains (gx_lowercase env (bh_text h)) needle) (sg_body_hits g)"
proof -
  assume "body_index_exact env g"
  then have lower: "sg_body_lower g = map (\<lambda>h. gx_lowercase env (bh_text h)) (sg_body_hits g)" by (simp add: body_index_exact_def)
  have "map fst (filter (\<lambda>(_, l). contains l needle) (zip hits (map f hits))) = filter (\<lambda>h. contains (f h) needle) hits"
    for f :: "body_hit \<Rightarrow> str" and hits by (induction hits) auto
  then show ?thesis by (simp add: body_hit_scan_def lower)
qed

lemma body_hit_candidates_exact:
  assumes exact: "body_index_exact env g"
  shows "body_hit_candidates g needle = filter (\<lambda>h. contains (gx_lowercase env (bh_text h)) needle) (sg_body_hits g)"
proof -
  let ?low = "\<lambda>h. gx_lowercase env (bh_text h)"
  let ?hits = "sg_body_hits g"
  have lower: "sg_body_lower g = map ?low ?hits" using exact by (simp add: body_index_exact_def)
  show ?thesis
  proof (cases "sg_body_indexed g")
    case False
    then show ?thesis by (simp add: body_hit_candidates_def body_hit_scan_exact [OF exact])
  next
    case indexed: True
    then have trigrams: "sg_body_trigrams g = trigram_index (enumerate 0 (map ?low ?hits))"
      using exact by (simp add: body_index_exact_def)
    show ?thesis
    proof (cases "rarest_indexed_trigram needle (sg_body_trigrams g)")
      case AllRows
      then show ?thesis using indexed by (simp add: body_hit_candidates_def body_hit_scan_exact [OF exact])
    next
      case NoRows
      have "\<not> contains (?low h) needle" if h: "h \<in> set ?hits" for h
      proof -
        obtain n where "n < length ?hits" "?hits ! n = h" using h by (metis in_set_conv_nth)
        then have "(n, ?low h) \<in> set (enumerate 0 (map ?low ?hits))" by (simp add: in_set_enumerate_eq)
        then show ?thesis using no_indexed_rows NoRows trigrams by metis
      qed
      then show ?thesis using NoRows indexed by (simp add: body_hit_candidates_def)
    next
      case (Rows ns)
      let ?P = "\<lambda>n. n < length ?hits \<and> contains (?low (?hits ! n)) needle"
      have "filter ?P ns = filter ?P (map fst (enumerate 0 (map ?low ?hits)))"
      proof (rule filter_indexed [of needle])
        show "rarest_indexed_trigram needle (trigram_index (enumerate 0 (map ?low ?hits))) = Rows ns" using Rows trigrams by simp
      qed (auto simp: in_set_enumerate_eq)
      also have "\<dots> = filter (\<lambda>n. contains (?low (?hits ! n)) needle) [0..<length ?hits]"
        by (rule filter_cong) (simp_all add: enumerate_upt o_def)
      finally have rows: "map ((!) ?hits) (filter ?P ns) = filter (\<lambda>h. contains (?low h) needle) ?hits"
        using map_filter_nth [of ?hits "\<lambda>h. contains (?low h) needle"] by simp
      have "List.map_filter
              (\<lambda>n. if n < length (sg_body_lower g) \<and> contains (sg_body_lower g ! n) needle \<and> n < length ?hits
                   then Some (?hits ! n) else None) xs = map ((!) ?hits) (filter ?P xs)" for xs
        by (induction xs) (auto simp: map_filter_def lower)
      then show ?thesis using Rows indexed rows by (simp add: body_hit_candidates_def)
    qed
  qed
qed

lemma body_search_scan: "body_index_exact env g \<Longrightarrow> body_search env g q = body_scan env g q"
  by (simp add: body_search_def body_scan_def body_hit_candidates_exact)

end
