(* ===== verification/GraphRowsSpec.thy ===== *)
theory GraphRowsSpec
  imports GraphSearchSpec
begin

text \<open>
  The graph as a view of a set of parsed files: whatever files were replaced and removed on the way, its rows are those of a graph
  built from the files that are there now.
\<close>

section \<open>The rows of parsed files\<close>

definition supported :: "parsed_file \<Rightarrow> bool" where
  "supported pf \<longleftrightarrow> pf_unsupported pf = None"

abbreviation pf_id :: "parsed_file \<Rightarrow> file_id" where
  "pf_id pf \<equiv> fr_id (pf_file pf)"

definition symbols_of :: "parsed_file \<Rightarrow> (symbol_id \<times> graph_symbol) list" where
  "symbols_of pf = (if supported pf then rev (file_symbols pf) else [])"

definition containment_of :: "parsed_file \<Rightarrow> graph_edge list" where
  "containment_of pf =
     (if supported pf then map (\<lambda>s. contains_edge (file_symbol_id (pf_id pf)) (graph_symbol_of s)) (pf_symbols pf) else [])"

definition rows_of :: "(parsed_file \<Rightarrow> 'a list) \<Rightarrow> parsed_file \<Rightarrow> 'a list" where
  "rows_of rows pf = (if supported pf then rows pf else [])"

text \<open>What the parsers promise: every row names its file, and a parent is a symbol of the same file.\<close>

definition file_ok :: "parsed_file \<Rightarrow> bool" where
  "file_ok pf \<longleftrightarrow>
     (\<forall>s \<in> set (pf_symbols pf). ps_file_id s = pf_id pf
        \<and> (case ps_parent_id s of Some p \<Rightarrow> p \<in> fst ` set (file_symbols pf) | None \<Rightarrow> True))
     \<and> (\<forall>i \<in> set (pf_imports pf). im_file_id i = pf_id pf) \<and> (\<forall>c \<in> set (pf_calls pf). ca_file_id c = pf_id pf)
     \<and> (\<forall>r \<in> set (pf_references pf). re_file_id r = pf_id pf) \<and> (\<forall>h \<in> set (pf_body_hits pf). bh_file_id h = pf_id pf)"

definition files_ok :: "parsed_file list \<Rightarrow> bool" where
  "files_ok pfs \<longleftrightarrow>
     distinct (map pf_id pfs) \<and> list_all file_ok pfs
     \<and> (\<forall>a \<in> set pfs. \<forall>b \<in> set pfs. pf_id a \<noteq> pf_id b \<longrightarrow> fst ` set (symbols_of a) \<inter> fst ` set (symbols_of b) = {})"

lemma files_ok_filter: "files_ok pfs \<Longrightarrow> files_ok (filter P pfs)"
  by (auto simp: files_ok_def distinct_map_filter list_all_iff)

lemma files_ok_append1: "files_ok (pfs @ more_files) \<Longrightarrow> files_ok pfs"
  by (auto simp: files_ok_def)

section \<open>Graphs that show a list of files\<close>

definition containment :: "semantic_graph \<Rightarrow> graph_edge list" where
  "containment g = filter (\<lambda>e. ed_kind e = ContainsEdge) (sg_edges g)"

definition represents :: "semantic_graph \<Rightarrow> parsed_file list \<Rightarrow> bool" where
  "represents g pfs \<longleftrightarrow>
     keys_distinct (sg_files g) \<and> keys_distinct (sg_packages g) \<and> symbols_keyed g
     \<and> (\<forall>f r. file_at g f = Some r \<longleftrightarrow> (\<exists>pf \<in> set pfs. pf_id pf = f \<and> pf_file pf = r))
     \<and> (\<forall>f p. map_of (sg_packages g) f = Some p \<longleftrightarrow> (\<exists>pf \<in> set pfs. pf_id pf = f \<and> pf_package pf = Some p))
     \<and> (\<forall>i s. symbol_at g i = Some s \<longleftrightarrow> (\<exists>pf \<in> set pfs. map_of (symbols_of pf) i = Some s))
     \<and> containment g = concat (map containment_of pfs)
     \<and> sg_imports g = concat (map (rows_of pf_imports) pfs)
     \<and> sg_calls g = concat (map (rows_of pf_calls) pfs)
     \<and> sg_references g = concat (map (rows_of pf_references) pfs)
     \<and> sg_body_hits g = concat (map (rows_of pf_body_hits) pfs)"

definition same_rows :: "semantic_graph \<Rightarrow> semantic_graph \<Rightarrow> bool" where
  "same_rows g h \<longleftrightarrow>
     file_at g = file_at h \<and> map_of (sg_packages g) = map_of (sg_packages h) \<and> symbol_at g = symbol_at h
     \<and> containment g = containment h \<and> sg_imports g = sg_imports h
     \<and> sg_calls g = sg_calls h \<and> sg_references g = sg_references h
     \<and> sg_body_hits g = sg_body_hits h"

lemma option_map_eqI: "(\<And>k v. m k = Some v \<longleftrightarrow> m' k = Some v) \<Longrightarrow> m = m'"
proof (rule ext)
  fix k assume *: "\<And>k v. m k = Some v \<longleftrightarrow> m' k = Some v"
  show "m k = m' k" by (cases "m k"; cases "m' k") (use * in \<open>metis option.distinct(1)\<close>)+
qed

lemma represents_same: "represents g pfs \<Longrightarrow> represents h pfs \<Longrightarrow> same_rows g h"
  unfolding represents_def same_rows_def by (intro conjI option_map_eqI) simp_all

lemma represents_cong:
  assumes "represents g pfs" "sg_files h = sg_files g" "sg_packages h = sg_packages g" "sg_symbols h = sg_symbols g"
    "containment h = containment g" "sg_imports h = sg_imports g" "sg_calls h = sg_calls g" "sg_references h = sg_references g"
    "sg_body_hits h = sg_body_hits g"
  shows "represents h pfs"
  using assms by (simp add: represents_def symbols_keyed_def)

section \<open>Inserting and removing\<close>

lemma symbols_of_keyed: "(i, s) \<in> set (symbols_of pf) \<Longrightarrow> gs_id s = i"
  by (auto simp: symbols_of_def file_symbols_def file_symbol_def graph_symbol_of_def split: if_splits)

lemma symbols_of_file: "file_ok pf \<Longrightarrow> (i, s) \<in> set (symbols_of pf) \<Longrightarrow> gs_file_id s = pf_id pf"
  by (auto simp: symbols_of_def file_symbols_def file_symbol_def graph_symbol_of_def file_ok_def split: if_splits)

lemma represents_empty: "represents empty_graph []"
  by (simp add: represents_def empty_graph_def keys_distinct_def symbols_keyed_def containment_def)

lemma keyed_insert_entries:
  assumes "distinct (map fst m)" "\<forall>(i, s) \<in> set m. gs_id s = i" "\<forall>(i, s) \<in> set kvs. gs_id s = i"
  shows "distinct (map fst (insert_entries kvs m)) \<and> (\<forall>(i, s) \<in> set (insert_entries kvs m). gs_id s = i)"
proof -
  have keys: "keys_distinct (insert_entries kvs m)" using keys_distinct_insert_entries assms(1) by (simp add: keys_distinct_def)
  have "gs_id s = i" if "(i, s) \<in> set (insert_entries kvs m)" for i s
  proof -
    have "map_of (insert_entries kvs m) i = Some s" using that keys by (simp add: keys_distinct_def)
    then have "map_of m i = Some s \<or> map_of (rev kvs) i = Some s" by (auto simp: map_of_insert_entries map_add_Some_iff)
    then have "(i, s) \<in> set m \<union> set kvs" by (auto dest: map_of_SomeD)
    then show ?thesis using assms(2,3) by auto
  qed
  then show ?thesis using keys by (auto simp: keys_distinct_def)
qed

lemma insert_fields:
  "sg_files (insert_parsed_file pf g) = AList.update (pf_id pf) (pf_file pf) (sg_files g)"
  "sg_packages (insert_parsed_file pf g)
     = (case pf_package pf of Some p \<Rightarrow> AList.update (pf_id pf) p (sg_packages g) | None \<Rightarrow> sg_packages g)"
  "sg_symbols (insert_parsed_file pf g) = insert_entries (rev (symbols_of pf)) (sg_symbols g)"
  "sg_edges (insert_parsed_file pf g) = sg_edges g @ containment_of pf"
  "sg_imports (insert_parsed_file pf g) = sg_imports g @ rows_of pf_imports pf"
  "sg_calls (insert_parsed_file pf g) = sg_calls g @ rows_of pf_calls pf"
  "sg_references (insert_parsed_file pf g) = sg_references g @ rows_of pf_references pf"
  "sg_body_hits (insert_parsed_file pf g) = sg_body_hits g @ rows_of pf_body_hits pf"
  by (cases "pf_unsupported pf";
      simp add: insert_parsed_file_def Let_def symbols_of_def containment_of_def rows_of_def supported_def insert_entries_def)+

lemma represents_insert:
  assumes "represents g pfs" "files_ok (pfs @ [pf])"
  shows "represents (insert_parsed_file pf g) (pfs @ [pf])"
proof -
  note r = assms(1) [unfolded represents_def]
  have new: "pf_id pf \<notin> pf_id ` set pfs" using assms(2) by (auto simp: files_ok_def)
  have apart: "fst ` set (symbols_of pf) \<inter> fst ` set (symbols_of p) = {}" if "p \<in> set pfs" for p
    using assms(2) new that by (auto simp: files_ok_def)
  have files: "file_at (insert_parsed_file pf g) f = Some x \<longleftrightarrow> (\<exists>p \<in> set (pfs @ [pf]). pf_id p = f \<and> pf_file p = x)" for f x
    using r new by (auto simp: insert_fields update_conv' image_iff)
  have packages: "map_of (sg_packages (insert_parsed_file pf g)) f = Some x
      \<longleftrightarrow> (\<exists>p \<in> set (pfs @ [pf]). pf_id p = f \<and> pf_package p = Some x)" for f x
    using r new by (cases "pf_package pf") (auto simp: insert_fields update_conv' image_iff)
  have symbols: "symbol_at (insert_parsed_file pf g) i = Some s \<longleftrightarrow> (\<exists>p \<in> set (pfs @ [pf]). map_of (symbols_of p) i = Some s)" for i s
  proof (cases "map_of (symbols_of pf) i")
    case None
    then show ?thesis using r by (auto simp: insert_fields map_of_insert_entries map_add_Some_iff)
  next
    case (Some t)
    then have "i \<in> fst ` set (symbols_of pf)" by (force dest: map_of_SomeD)
    then have "map_of (symbols_of p) i = None" if "p \<in> set pfs" for p
      using apart [OF that] by (auto simp: map_of_eq_None_iff)
    then show ?thesis using Some by (auto simp: insert_fields map_of_insert_entries)
  qed
  have keyed: "symbols_keyed (insert_parsed_file pf g)"
    using r keyed_insert_entries [of "sg_symbols g" "rev (symbols_of pf)"] symbols_of_keyed [of _ _ pf]
    by (fastforce simp: symbols_keyed_def insert_fields)
  have edges: "containment (insert_parsed_file pf g) = containment g @ containment_of pf"
    by (auto simp: containment_def insert_fields containment_of_def contains_edge_def filter_True)
  show ?thesis
    unfolding represents_def using files packages symbols keyed r
    by (auto simp: edges insert_fields keys_distinct_def distinct_update split: option.splits)
qed

lemma represents_inserts:
  "represents g pfs \<Longrightarrow> files_ok (pfs @ new_files) \<Longrightarrow> represents (fold insert_parsed_file new_files g) (pfs @ new_files)"
proof (induction new_files arbitrary: g pfs)
  case (Cons pf new_files)
  have "files_ok (pfs @ [pf])" using files_ok_append1 [of "pfs @ [pf]" new_files] Cons.prems(2) by simp
  then have "represents (insert_parsed_file pf g) (pfs @ [pf])" using represents_insert Cons.prems(1) by blast
  from Cons.IH [OF this] Cons.prems(2) show ?case by simp
qed simp

lemma filter_rows:
  assumes "\<And>pf x. pf \<in> set pfs \<Longrightarrow> x \<in> set (rows pf) \<Longrightarrow> P x \<longleftrightarrow> Q pf"
  shows "filter P (concat (map rows pfs)) = concat (map rows (filter Q pfs))"
  using assms
proof (induction pfs)
  case (Cons pf pfs)
  have "filter P (rows pf) = (if Q pf then rows pf else [])"
    using Cons.prems [of pf] by (cases "Q pf") (auto simp: filter_id_conv filter_empty_conv)
  then show ?case using Cons by simp
qed simp

lemma containment_endpoints:
  assumes "file_ok pf" "e \<in> set (containment_of pf)"
  shows "ed_from e \<in> fst ` set (symbols_of pf) \<and> (\<exists>t. ed_to e = Some t \<and> t \<in> fst ` set (symbols_of pf))"
proof -
  obtain s where s: "supported pf" "s \<in> set (pf_symbols pf)" "e = contains_edge (file_symbol_id (pf_id pf)) (graph_symbol_of s)"
    using assms(2) by (auto simp: containment_of_def split: if_splits)
  have ids: "fst ` set (symbols_of pf) = fst ` set (file_symbols pf)" using s(1) by (simp add: symbols_of_def)
  have "ps_id s \<in> fst ` set (file_symbols pf)" using s(2) by (force simp: file_symbols_def)
  moreover have "ed_from e \<in> fst ` set (file_symbols pf)"
  proof -
    have "ed_from e = (case ps_parent_id s of Some p \<Rightarrow> p | None \<Rightarrow> file_symbol_id (pf_id pf))"
      by (simp add: s(3) contains_edge_def graph_symbol_of_def)
    moreover have "file_symbol_id (pf_id pf) \<in> fst ` set (file_symbols pf)" by (simp add: file_symbols_def)
    moreover have "case ps_parent_id s of Some p \<Rightarrow> p \<in> fst ` set (file_symbols pf) | None \<Rightarrow> True"
      using s(2) assms(1) by (simp add: file_ok_def)
    ultimately show ?thesis by (simp split: option.splits)
  qed
  ultimately show ?thesis using s(3) ids by (simp add: contains_edge_def graph_symbol_of_def)
qed

lemma represents_remove:
  assumes "represents g pfs" "files_ok pfs"
  shows "represents (remove_rows gone g) (filter (\<lambda>pf. \<not> gone (pf_id pf)) pfs)"
proof -
  note r = assms(1) [unfolded represents_def]
  have ok: "file_ok pf" if "pf \<in> set pfs" for pf using assms(2) that by (auto simp: files_ok_def list_all_iff)
  define kept where "kept = filter (\<lambda>pf. \<not> gone (pf_id pf)) pfs"
  define symbols where "symbols = filter (\<lambda>(_, s). \<not> gone (gs_file_id s)) (sg_symbols g)"
  have symbol_kept: "map_of symbols i = Some s \<longleftrightarrow> (\<exists>pf \<in> set kept. map_of (symbols_of pf) i = Some s)" for i s
  proof -
    have "map_of symbols i = Some s \<longleftrightarrow> symbol_at g i = Some s \<and> \<not> gone (gs_file_id s)"
    proof -
      have "keys_distinct (sg_symbols g)" using r by (simp add: symbols_keyed_def keys_distinct_def)
      from map_of_filter [OF this, of "\<lambda>(_, s). \<not> gone (gs_file_id s)" i]
      show ?thesis unfolding symbols_def by (cases "symbol_at g i") auto
    qed
    also have "\<dots> \<longleftrightarrow> (\<exists>pf \<in> set kept. map_of (symbols_of pf) i = Some s)"
    proof -
      have "symbol_at g i = Some s \<longleftrightarrow> (\<exists>pf \<in> set pfs. map_of (symbols_of pf) i = Some s)" using r by blast
      moreover have "gs_file_id s = pf_id pf" if "pf \<in> set pfs" "map_of (symbols_of pf) i = Some s" for pf
        using symbols_of_file [OF ok [OF that(1)]] that(2) by (blast dest: map_of_SomeD)
      ultimately show ?thesis by (auto simp: kept_def) metis
    qed
    finally show ?thesis .
  qed
  have present: "map_of symbols i \<noteq> None \<longleftrightarrow> (\<exists>pf \<in> set kept. i \<in> fst ` set (symbols_of pf))" for i
    using symbol_kept [of i] by (metis map_of_eq_None_iff not_None_eq)
  have alive: "edge_endpoints_present symbols e \<longleftrightarrow> \<not> gone (pf_id pf)" if e: "pf \<in> set pfs" "e \<in> set (containment_of pf)" for pf e
  proof -
    obtain t where t: "ed_from e \<in> fst ` set (symbols_of pf)" "ed_to e = Some t" "t \<in> fst ` set (symbols_of pf)"
      using containment_endpoints [OF ok [OF e(1)] e(2)] by blast
    show ?thesis
    proof
      assume "edge_endpoints_present symbols e"
      then have "map_of symbols (ed_from e) \<noteq> None" by (simp add: edge_endpoints_present_def)
      then obtain p where p: "p \<in> set pfs" "\<not> gone (pf_id p)" "ed_from e \<in> fst ` set (symbols_of p)"
        unfolding present kept_def by auto
      have "pf_id p = pf_id pf"
      proof (rule ccontr)
        assume "pf_id p \<noteq> pf_id pf"
        then have "fst ` set (symbols_of p) \<inter> fst ` set (symbols_of pf) = {}" using assms(2) p(1) e(1) by (simp add: files_ok_def)
        then show False using p(3) t(1) by blast
      qed
      then show "\<not> gone (pf_id pf)" using p(2) by simp
    next
      assume "\<not> gone (pf_id pf)"
      then have "pf \<in> set kept" using e(1) by (simp add: kept_def)
      then show "edge_endpoints_present symbols e" using t present unfolding edge_endpoints_present_def by auto
    qed
  qed
  have edges: "containment (remove_rows gone g) = concat (map containment_of kept)"
  proof -
    have "containment (remove_rows gone g) = filter (edge_endpoints_present symbols) (containment g)"
      by (simp add: containment_def remove_rows_def symbols_def Let_def conj_commute)
    then show ?thesis using r filter_rows [of pfs containment_of] alive by (simp add: kept_def)
  qed
  have rows: "filter (\<lambda>x. \<not> gone (file_of x)) xs = concat (map (rows_of rows) kept)"
    if "xs = concat (map (rows_of rows) pfs)" "\<And>pf x. pf \<in> set pfs \<Longrightarrow> x \<in> set (rows pf) \<Longrightarrow> file_of x = pf_id pf"
    for file_of xs and rows :: "parsed_file \<Rightarrow> 'b list"
    unfolding kept_def that(1) by (rule filter_rows) (auto simp: rows_of_def that(2) split: if_splits)
  have by_file: "map_of (filter (\<lambda>(f, _). \<not> gone f) m) f = (if gone f then None else map_of m f)" if "keys_distinct m"
    for m :: "(file_id \<times> 'c) list" and f
    using map_of_filter [OF that, of "\<lambda>(f, _). \<not> gone f" f] by (auto split: option.splits)
  have "keys_distinct symbols" using r by (simp add: symbols_def symbols_keyed_def keys_distinct_def distinct_map_filter)
  moreover have "\<forall>(i, s) \<in> set symbols. gs_id s = i" using r by (auto simp: symbols_def symbols_keyed_def)
  ultimately have keyed: "symbols_keyed (remove_rows gone g)"
    by (simp add: symbols_keyed_def keys_distinct_def remove_rows_def symbols_def Let_def)
  show ?thesis
    unfolding represents_def kept_def [symmetric]
  proof (intro conjI allI)
    show "symbols_keyed (remove_rows gone g)" by (rule keyed)
    show "containment (remove_rows gone g) = concat (map containment_of kept)" by (rule edges)
    fix i s show "symbol_at (remove_rows gone g) i = Some s \<longleftrightarrow> (\<exists>pf \<in> set kept. map_of (symbols_of pf) i = Some s)"
      using symbol_kept [of i s] by (simp add: remove_rows_def symbols_def Let_def)
  next
    show "keys_distinct (sg_files (remove_rows gone g))" "keys_distinct (sg_packages (remove_rows gone g))"
      using r by (simp_all add: remove_rows_def Let_def keys_distinct_filter)
    fix f x
    show "file_at (remove_rows gone g) f = Some x \<longleftrightarrow> (\<exists>pf \<in> set kept. pf_id pf = f \<and> pf_file pf = x)"
      using r by (auto simp: remove_rows_def Let_def by_file kept_def)
  next
    fix f x
    show "map_of (sg_packages (remove_rows gone g)) f = Some x \<longleftrightarrow> (\<exists>pf \<in> set kept. pf_id pf = f \<and> pf_package pf = Some x)"
      using r by (auto simp: remove_rows_def Let_def by_file kept_def)
  next
    show "sg_imports (remove_rows gone g) = concat (map (rows_of pf_imports) kept)"
      using r ok rows [of "sg_imports g" pf_imports im_file_id] by (simp add: remove_rows_def Let_def file_ok_def)
    show "sg_calls (remove_rows gone g) = concat (map (rows_of pf_calls) kept)"
      using r ok rows [of "sg_calls g" pf_calls ca_file_id] by (simp add: remove_rows_def Let_def file_ok_def)
    show "sg_references (remove_rows gone g) = concat (map (rows_of pf_references) kept)"
      using r ok rows [of "sg_references g" pf_references re_file_id] by (simp add: remove_rows_def Let_def file_ok_def)
    show "sg_body_hits (remove_rows gone g) = concat (map (rows_of pf_body_hits) kept)"
      using r ok rows [of "sg_body_hits g" pf_body_hits bh_file_id] by (simp add: remove_rows_def Let_def file_ok_def)
  qed
qed

end
