(* ===== verification/GraphHistorySpec.thy ===== *)
theory GraphHistorySpec
  imports GraphRowsSpec
begin

text \<open>
  A graph through a history of builds, replacements and removals: its rows are those of its files, its indexes agree with its rows,
  and an edge that was derived points to a symbol that is there.
\<close>

section \<open>What the rebuilding leaves alone\<close>

definition rows_unchanged :: "semantic_graph \<Rightarrow> semantic_graph \<Rightarrow> bool" where
  "rows_unchanged g h \<longleftrightarrow>
     sg_files h = sg_files g \<and> sg_packages h = sg_packages g \<and> sg_symbols h = sg_symbols g \<and> sg_imports h = sg_imports g
     \<and> sg_calls h = sg_calls g \<and> sg_references h = sg_references g \<and> sg_body_hits h = sg_body_hits g"

definition body_index_same :: "semantic_graph \<Rightarrow> semantic_graph \<Rightarrow> bool" where
  "body_index_same g h \<longleftrightarrow>
     sg_body_lower h = sg_body_lower g \<and> sg_body_indexed h = sg_body_indexed g \<and> sg_body_trigrams h = sg_body_trigrams g
     \<and> sg_body_fingerprint h = sg_body_fingerprint g"

lemmas unchanged_defs = rows_unchanged_def body_index_same_def

lemma rows_unchanged_trans: "rows_unchanged g h \<Longrightarrow> rows_unchanged h k \<Longrightarrow> rows_unchanged g k"
  and body_index_same_trans: "body_index_same g h \<Longrightarrow> body_index_same h k \<Longrightarrow> body_index_same g k"
  by (simp_all add: unchanged_defs)

definition rebuilt_only :: "semantic_graph \<Rightarrow> semantic_graph \<Rightarrow> bool" where
  "rebuilt_only g h \<longleftrightarrow> rows_unchanged g h \<and> body_index_same g h \<and> sg_edges h = sg_edges g"

lemma rebuilt_only_trans [trans]: "rebuilt_only g h \<Longrightarrow> rebuilt_only h k \<Longrightarrow> rebuilt_only g k"
  by (simp add: rebuilt_only_def unchanged_defs)

lemma rebuilt_only_imports: "rebuilt_only g (rebuild_import_indexes g)"
  unfolding rebuilt_only_def unchanged_defs rebuild_import_indexes_def Let_def by simp

lemma rebuilt_only_importers: "rebuilt_only g (rebuild_importers_by_file env g)"
  unfolding rebuilt_only_def unchanged_defs rebuild_importers_by_file_def Let_def by simp

lemma rebuilt_only_slots: "rebuilt_only g (rebuild_resolver_slots g)"
  unfolding rebuilt_only_def unchanged_defs rebuild_resolver_slots_def Let_def by simp

lemma rebuilt_only_names:
  "rebuilt_only g (g\<lparr>sg_symbols_by_name := a, sg_by_identity := b, sg_arity_index := c, sg_children := d\<rparr>)"
  unfolding rebuilt_only_def unchanged_defs by simp

lemma rebuilt_only_resolution: "rebuilt_only g (rebuild_resolution_indexes env b g)"
proof -
  note rebuilt_only_imports
  also note rebuilt_only_names
  finally have named: "rebuilt_only g (rebuild_resolution_indexes env True g)"
    unfolding rebuild_resolution_indexes_def Let_def if_True .
  also note rebuilt_only_slots
  also note rebuilt_only_importers
  finally have "rebuilt_only g (rebuild_resolution_indexes env False g)"
    unfolding rebuild_resolution_indexes_def Let_def if_True if_False .
  with named show ?thesis by (cases b) simp_all
qed

lemma unchanged_add_edges:
  "rows_unchanged g (add_edges es g) \<and> body_index_same g (add_edges es g) \<and> sg_edges (add_edges es g) = sg_edges g @ es"
  by (simp add: unchanged_defs add_edges_def)

lemma unchanged_keep: "rows_unchanged g (keep_containment g) \<and> body_index_same g (keep_containment g)"
  by (simp add: unchanged_defs keep_containment_def)

lemma rebuilt_only_index_edge: "rebuilt_only g (index_ancestor_edge e g)"
  by (simp add: rebuilt_only_def unchanged_defs index_ancestor_edge_def split: option.splits)

lemma rebuilt_only_ancestors: "rebuilt_only g (build_ancestor_edge_index g)"
proof -
  have "rebuilt_only h (fold index_ancestor_edge es h)" for es h
  proof (induction es arbitrary: h)
    case (Cons e es)
    show ?case using rebuilt_only_trans [OF rebuilt_only_index_edge [of h e] Cons.IH] by simp
  qed (simp add: rebuilt_only_def unchanged_defs)
  moreover have "rebuilt_only g (g\<lparr>sg_ancestor_edges := []\<rparr>)" by (simp add: rebuilt_only_def unchanged_defs)
  ultimately show ?thesis unfolding build_ancestor_edge_index_def using rebuilt_only_trans by blast
qed

section \<open>The edges that are derived\<close>

definition env_ok :: "graph_env \<Rightarrow> bool" where
  "env_ok env \<longleftrightarrow>
     (\<forall>g. \<forall>e \<in> set (gx_csharp_type_edges env g) \<union> set (gx_php_type_edges env g) \<union> set (gx_python_route_edges env g).
        ed_kind e \<noteq> ContainsEdge)"

lemma inheritance_edges_kind: "e \<in> set (generic_inheritance_edges env g) \<Longrightarrow> ed_kind e \<noteq> ContainsEdge"
  by (auto simp: generic_inheritance_edges_def symbol_inheritance_edges_def heuristic_edge_def inheritance_kind_def map_filter_def
      split: inheritance_tag.splits option.splits if_splits dest!: subsetD [OF set_unseen_by])

lemma impl_edges_kind: "e \<in> set (rust_impl_edges env g) \<Longrightarrow> ed_kind e \<noteq> ContainsEdge"
  by (auto simp: rust_impl_edges_def impl_edges_def heuristic_edge_def Let_def split: option.splits if_splits)

lemma import_edge_kind: "import_edge env g i = Some e \<Longrightarrow> ed_kind e \<noteq> ContainsEdge"
  by (auto simp: import_edge_def Let_def split: if_splits prod.splits)

lemma call_edge_kind: "ed_kind (call_edge env g c) \<noteq> ContainsEdge"
  by (simp add: call_edge_def Let_def edge_kind_for_call_def split: prod.splits call_kind.splits)

lemma reference_edge_kind: "reference_edge g r = Some e \<Longrightarrow> ed_kind e \<noteq> ContainsEdge"
  by (auto simp: reference_edge_def split: if_splits list.splits)

lemma containment_add_edges: "(\<And>e. e \<in> set es \<Longrightarrow> ed_kind e \<noteq> ContainsEdge) \<Longrightarrow> containment (add_edges es g) = containment g"
  by (simp add: containment_def add_edges_def filter_empty_conv)

text \<open>A step that adds edges of other kinds and rebuilds indexes.\<close>

definition derived_from :: "semantic_graph \<Rightarrow> semantic_graph \<Rightarrow> bool" where
  "derived_from g h \<longleftrightarrow> rows_unchanged g h \<and> body_index_same g h \<and> containment h = containment g"

lemma derived_from_trans [trans]: "derived_from g h \<Longrightarrow> derived_from h k \<Longrightarrow> derived_from g k"
  by (simp add: derived_from_def unchanged_defs)

lemma derived_rebuilt: "rebuilt_only g h \<Longrightarrow> derived_from g h"
  by (simp add: rebuilt_only_def derived_from_def containment_def)

lemma derived_add_edges: "(\<And>e. e \<in> set es \<Longrightarrow> ed_kind e \<noteq> ContainsEdge) \<Longrightarrow> derived_from g (add_edges es g)"
  using unchanged_add_edges containment_add_edges by (simp add: derived_from_def)

lemma derived_env_edges:
  assumes "env_ok env"
  shows "derived_from g (add_edges (gx_csharp_type_edges env g) g)" "derived_from g (add_edges (gx_php_type_edges env g) g)"
    "derived_from g (add_edges (gx_python_route_edges env g) g)"
  using assms by (auto simp: env_ok_def intro!: derived_add_edges)

lemma derived_import_edges: "derived_from g (add_import_edges env g)"
  unfolding add_import_edges_def Let_def by (rule derived_add_edges) (auto simp: map_filter_def dest: import_edge_kind)

lemma derived_call_edges: "derived_from g (add_call_edges env g)"
  unfolding add_call_edges_def Let_def by (rule derived_add_edges) (use call_edge_kind in auto)

lemma derived_reference_edges: "derived_from g (add_reference_edges g)"
  unfolding add_reference_edges_def Let_def by (rule derived_add_edges) (auto simp: map_filter_def dest: reference_edge_kind)

lemma derived_rebuild:
  assumes "env_ok env"
  shows "derived_from (keep_containment g) (rebuild_semantic_edges env b g)"
proof -
  note derived_rebuilt [OF rebuilt_only_resolution [of "keep_containment g" env b]]
  also note derived_env_edges(1) [OF assms]
  also note derived_env_edges(2) [OF assms]
  also note derived_add_edges [OF inheritance_edges_kind]
  also note derived_add_edges [OF impl_edges_kind]
  also note derived_rebuilt [OF rebuilt_only_ancestors]
  also note derived_import_edges
  also note derived_call_edges
  also note derived_reference_edges
  also note derived_env_edges(3) [OF assms]
  finally show ?thesis unfolding rebuild_semantic_edges_def Let_def .
qed

lemma represents_keep:
  assumes "represents g pfs" "files_ok pfs"
  shows "containment (keep_containment g) = containment g"
proof -
  have "edge_endpoints_present (sg_symbols g) e" if "e \<in> set (containment g)" for e
  proof -
    have "e \<in> set (concat (map containment_of pfs))" using assms(1) that unfolding represents_def by metis
    then obtain pf where pf: "pf \<in> set pfs" "e \<in> set (containment_of pf)" by auto
    then have "file_ok pf" using assms(2) by (simp add: files_ok_def list_all_iff)
    from containment_endpoints [OF this pf(2)]
    obtain t where t: "ed_from e \<in> fst ` set (symbols_of pf)" "ed_to e = Some t" "t \<in> fst ` set (symbols_of pf)" by blast
    have "symbol_at g i \<noteq> None" if i: "i \<in> fst ` set (symbols_of pf)" for i
    proof -
      obtain s where "map_of (symbols_of pf) i = Some s" using i by (metis map_of_eq_None_iff not_None_eq)
      then have "symbol_at g i = Some s" using assms(1) pf(1) unfolding represents_def by blast
      then show ?thesis by simp
    qed
    then show ?thesis using t by (simp add: edge_endpoints_present_def)
  qed
  then have "filter (edge_endpoints_present (sg_symbols g)) (containment g) = containment g" by (simp add: filter_id_conv)
  then show ?thesis by (simp add: keep_containment_def containment_def conj_commute)
qed

lemma represents_unchanged: "represents g pfs \<Longrightarrow> rows_unchanged g h \<Longrightarrow> containment h = containment g \<Longrightarrow> represents h pfs"
  by (rule represents_cong) (simp_all add: rows_unchanged_def)

lemma represents_rebuild:
  assumes "env_ok env" "represents g pfs" "files_ok pfs"
  shows "represents (rebuild_semantic_edges env b g) pfs"
proof -
  have "represents (keep_containment g) pfs"
    using represents_unchanged assms(2) unchanged_keep represents_keep [OF assms(2,3)] by blast
  then show ?thesis
    using derived_rebuild [OF assms(1)] represents_unchanged unfolding derived_from_def by blast
qed

section \<open>The indexes\<close>

lemma rows_rebuild_body: "rows_unchanged g (rebuild_body_index env g)" "sg_edges (rebuild_body_index env g) = sg_edges g"
  unfolding unchanged_defs rebuild_body_index_def Let_def by simp_all

lemma rebuild_indexes_fields:
  fixes env g defines "h \<equiv> rebuild_body_index env (rebuild_import_indexes g)"
  shows "rows_unchanged h (rebuild_indexes env g)" "body_index_same h (rebuild_indexes env g)"
    "sg_edges (rebuild_indexes env g) = sg_edges h"
    "sg_signature_lower (rebuild_indexes env g)
       = insert_entries (map (\<lambda>s. (gs_id s, gx_lowercase env (gs_signature s))) (all_symbols (rebuild_import_indexes g))) []"
    "sg_signature_trigrams (rebuild_indexes env g)
       = trigram_index (map (\<lambda>s. (gs_id s, gx_lowercase env (gs_signature s))) (all_symbols (rebuild_import_indexes g)))"
    "sg_children (rebuild_indexes env g) = index_children h"
    "sg_edges_by_from (rebuild_indexes env g) = group_by (map (\<lambda>(n, e). (ed_from e, n)) (enumerate 0 (sg_edges h)))"
    "sg_edges_by_to (rebuild_indexes env g)
       = group_by (map (\<lambda>(n, e). (the (ed_to e), n)) (filter (\<lambda>(_, e). ed_to e \<noteq> None) (enumerate 0 (sg_edges h))))"
  unfolding unchanged_defs rebuild_indexes_def Let_def case_prod_beta h_def by simp_all

lemma rows_rebuild_indexes: "rows_unchanged g (rebuild_indexes env g)" "sg_edges (rebuild_indexes env g) = sg_edges g"
  using rebuild_indexes_fields(1,3) [of env g] rows_rebuild_body [where env = env and g = "rebuild_import_indexes g"] rebuilt_only_imports [of g]
  unfolding rebuilt_only_def unchanged_defs by simp_all

definition edges_indexed :: "semantic_graph \<Rightarrow> bool" where
  "edges_indexed g \<longleftrightarrow>
     (\<forall>i. outgoing_edges g i = filter (\<lambda>e. ed_from e = i) (sg_edges g))
     \<and> (\<forall>i. inbound_edges g i = filter (\<lambda>e. ed_to e = Some i) (sg_edges g))
     \<and> (\<forall>i. bucket (sg_children g) i = map (\<lambda>e. the (ed_to e)) (filter (\<lambda>e. ed_from e = i \<and> ed_to e \<noteq> None) (containment g)))"

lemma positions_nth:
  "map ((!) xs) (filter (\<lambda>n. n < length xs) (filter (\<lambda>n. P (xs ! n)) [0..<length xs])) = filter P xs"
proof -
  have "filter (\<lambda>n. n < length xs) ns = ns" if "set ns \<subseteq> {0..<length xs}" for ns
    using that by (auto intro!: filter_True)
  then have "filter (\<lambda>n. n < length xs) (filter (\<lambda>n. P (xs ! n)) [0..<length xs]) = filter (\<lambda>n. P (xs ! n)) [0..<length xs]"
    by (metis (no_types) filter_is_subset set_upt)
  then show ?thesis by (metis (no_types) map_filter_nth)
qed

lemma grouped_children:
  "map snd (filter (\<lambda>kv. fst kv = i) (map (\<lambda>e. (from e, the (to e))) (filter (\<lambda>e. K e \<and> to e \<noteq> None) es)))
     = map (\<lambda>e. the (to e)) (filter (\<lambda>e. from e = i \<and> to e \<noteq> None) (filter K es))"
  by (induction es) auto

lemma rebuild_edges_indexed: "edges_indexed (rebuild_indexes env g)"
proof -
  let ?h = "rebuild_indexes env g"
  let ?es = "sg_edges g"
  have es: "sg_edges ?h = ?es" by (rule rows_rebuild_indexes)
  have same: "sg_edges (rebuild_body_index env (rebuild_import_indexes g)) = ?es" using rebuild_indexes_fields(3) [of env g] es by simp
  have "bucket (sg_edges_by_from ?h) i = filter (\<lambda>n. ed_from (?es ! n) = i) [0..<length ?es]" for i
    using bucket_positions [of ed_from ?es i] by (simp add: rebuild_indexes_fields(7) same)
  then have out: "outgoing_edges ?h i = filter (\<lambda>e. ed_from e = i) (sg_edges ?h)" for i
    using positions_nth [of ?es "\<lambda>e. ed_from e = i"] by (simp only: outgoing_edges_def es)
  have "bucket (sg_edges_by_to ?h) i = filter (\<lambda>n. ed_to (?es ! n) = Some i) [0..<length ?es]" for i
    unfolding rebuild_indexes_fields(8) same
    by (simp add: bucket_group_by enumerate_upt filter_map o_def) (rule filter_cong, auto)
  then have inb: "inbound_edges ?h i = filter (\<lambda>e. ed_to e = Some i) (sg_edges ?h)" for i
    using positions_nth [of ?es "\<lambda>e. ed_to e = Some i"] by (simp only: inbound_edges_def es)
  have "bucket (sg_children ?h) i = map (\<lambda>e. the (ed_to e)) (filter (\<lambda>e. ed_from e = i \<and> ed_to e \<noteq> None) (containment ?h))" for i
    unfolding rebuild_indexes_fields(6) index_children_def same containment_def es bucket_group_by by (rule grouped_children)
  with out inb show ?thesis by (simp add: edges_indexed_def)
qed

lemma rebuild_signatures_indexed: "signatures_indexed env (rebuild_indexes env g)"
proof -
  have "all_symbols (rebuild_indexes env g) = all_symbols (rebuild_import_indexes g)"
    using rows_rebuild_indexes(1) [of g env] rebuilt_only_imports [of g]
    unfolding rebuilt_only_def unchanged_defs all_symbols_def by simp
  then show ?thesis unfolding signatures_indexed_def Let_def by (simp only: rebuild_indexes_fields(4,5))
qed

section \<open>Keeping the index of the body hits\<close>

definition body_texts :: "semantic_graph \<Rightarrow> str list" where
  "body_texts g = map bh_text (sg_body_hits g)"

text \<open>Between rebuilds: the index is that of some earlier texts, and the shadow is right while it is as long as the hits.\<close>

definition body_index_of :: "graph_env \<Rightarrow> str list \<Rightarrow> semantic_graph \<Rightarrow> bool" where
  "body_index_of env texts g \<longleftrightarrow>
     sg_body_fingerprint g = Some (gx_hash env texts)
     \<and> sg_body_indexed g = (length texts \<le> BODY_HIT_TRIGRAM_INDEX_MAX_HITS)
     \<and> sg_body_trigrams g = (if sg_body_indexed g then trigram_index (enumerate 0 (map (gx_lowercase env) texts)) else [])
     \<and> (length (sg_body_lower g) = length (sg_body_hits g) \<longrightarrow> sg_body_lower g = map (gx_lowercase env) (body_texts g))"

lemma body_index_exact_iff: "body_index_exact env g \<longleftrightarrow>
    body_index_of env (body_texts g) g \<and> sg_body_lower g = map (gx_lowercase env) (body_texts g)"
  by (auto simp: body_index_exact_def body_index_of_def body_texts_def body_hits_fingerprint_def o_def)

lemma body_index_of_same: "body_index_of env texts g \<Longrightarrow> body_index_same g h \<Longrightarrow> sg_body_hits h = sg_body_hits g \<Longrightarrow> body_index_of env texts h"
  by (simp add: body_index_of_def body_index_same_def body_texts_def)

definition same_hash_same_texts :: "graph_env \<Rightarrow> str list \<Rightarrow> str list \<Rightarrow> bool" where
  "same_hash_same_texts env a b \<longleftrightarrow> (gx_hash env a = gx_hash env b \<longrightarrow> a = b)"

definition body_index_carried :: "graph_env \<Rightarrow> semantic_graph \<Rightarrow> bool" where
  "body_index_carried env g \<longleftrightarrow>
     sg_body_fingerprint g = None \<or> (\<exists>texts. body_index_of env texts g \<and> same_hash_same_texts env texts (body_texts g))"

lemma body_index_carried_same:
  "body_index_carried env g \<Longrightarrow> body_index_same g h \<Longrightarrow> sg_body_hits h = sg_body_hits g \<Longrightarrow> body_index_carried env h"
  using body_index_of_same unfolding body_index_carried_def body_index_same_def body_texts_def by metis

lemma body_texts_fingerprint: "body_hits_fingerprint env (sg_body_hits g) = gx_hash env (body_texts g)"
  by (simp add: body_hits_fingerprint_def body_texts_def)

lemma rebuild_body_exact:
  assumes "body_index_carried env g"
  shows "body_index_exact env (rebuild_body_index env g)"
proof (cases "sg_body_fingerprint g = Some (gx_hash env (body_texts g)) \<and> length (sg_body_lower g) = length (sg_body_hits g)")
  case True
  then obtain texts where texts: "body_index_of env texts g" "same_hash_same_texts env texts (body_texts g)"
    using assms unfolding body_index_carried_def by auto
  have "gx_hash env texts = gx_hash env (body_texts g)" using texts(1) True unfolding body_index_of_def by simp
  then have "texts = body_texts g" using texts(2) unfolding same_hash_same_texts_def by blast
  then have "body_index_exact env g"
    using texts(1) True unfolding body_index_exact_iff body_index_of_def by blast
  then show ?thesis using True unfolding rebuild_body_index_def Let_def body_texts_fingerprint by simp
next
  case False
  then have "rebuild_body_index env g = (let lower = map (gx_lowercase env) (body_texts g);
      indexed = length (sg_body_hits g) \<le> BODY_HIT_TRIGRAM_INDEX_MAX_HITS
    in g\<lparr>sg_body_lower := lower, sg_body_indexed := indexed,
         sg_body_trigrams := (if indexed then trigram_index (enumerate 0 lower) else []),
         sg_body_fingerprint := Some (gx_hash env (body_texts g))\<rparr>)"
    unfolding rebuild_body_index_def Let_def body_texts_fingerprint by (simp only: if_False body_texts_def map_map o_def)
  then show ?thesis unfolding body_index_exact_def body_hits_fingerprint_def Let_def by (simp add: body_texts_def)
qed

lemma rebuild_indexes_body_exact:
  assumes "body_index_carried env g"
  shows "body_index_exact env (rebuild_indexes env g)"
proof -
  let ?g = "rebuild_import_indexes g"
  have "body_index_carried env ?g"
    using body_index_carried_same [OF assms] rebuilt_only_imports [of g] unfolding rebuilt_only_def rows_unchanged_def by blast
  then have "body_index_exact env (rebuild_body_index env ?g)" by (rule rebuild_body_exact)
  then show ?thesis
    using rebuild_indexes_fields(1,2) [of env g] unfolding body_index_exact_def unchanged_defs by simp
qed

text \<open>The shadow stays a prefix of the lower-cased hits while rows are removed and files inserted.\<close>

definition lower_prefix :: "graph_env \<Rightarrow> semantic_graph \<Rightarrow> bool" where
  "lower_prefix env g \<longleftrightarrow> sg_body_lower g = map (gx_lowercase env) (take (length (sg_body_lower g)) (body_texts g))"

lemma lower_prefix_insert: "lower_prefix env g \<Longrightarrow> lower_prefix env (insert_parsed_file pf g)"
proof -
  assume p: "lower_prefix env g"
  then have "length (sg_body_lower g) \<le> length (body_texts g)"
    unfolding lower_prefix_def by (metis length_map length_take min.cobounded1)
  moreover have "sg_body_lower (insert_parsed_file pf g) = sg_body_lower g" by (simp add: insert_parsed_file_def Let_def)
  ultimately show ?thesis using p by (simp add: lower_prefix_def body_texts_def insert_fields)
qed

lemma retain_lower_map: "retain_lower keep hits (map f hits) = map f (filter keep hits)"
  unfolding retain_lower_def by (induction hits) auto

lemma lower_prefix_remove: "body_index_exact env g \<Longrightarrow> lower_prefix env (remove_rows gone g)"
  by (simp add: lower_prefix_def body_index_exact_def remove_rows_def Let_def retain_lower_map body_texts_def o_def)

definition body_tables_same :: "semantic_graph \<Rightarrow> semantic_graph \<Rightarrow> bool" where
  "body_tables_same g h \<longleftrightarrow>
     sg_body_indexed h = sg_body_indexed g \<and> sg_body_trigrams h = sg_body_trigrams g \<and> sg_body_fingerprint h = sg_body_fingerprint g"

lemma body_tables_remove: "body_tables_same g (remove_rows gone g)"
  by (simp add: body_tables_same_def remove_rows_def Let_def)

lemma body_tables_insert: "body_tables_same g (insert_parsed_file pf g)"
  by (simp add: body_tables_same_def insert_parsed_file_def Let_def)

lemma inserted_body:
  "lower_prefix env g \<Longrightarrow> lower_prefix env (fold insert_parsed_file pfs g) \<and> body_tables_same g (fold insert_parsed_file pfs g)"
proof (induction pfs arbitrary: g)
  case (Cons pf pfs)
  show ?case using Cons.IH [OF lower_prefix_insert [OF Cons.prems, of pf]] body_tables_insert [of g pf]
    by (simp add: body_tables_same_def)
qed (simp add: body_tables_same_def)

lemma carried_from_exact:
  assumes "body_index_exact env g" "lower_prefix env h" "body_tables_same g h"
    "same_hash_same_texts env (body_texts g) (body_texts h)"
  shows "body_index_carried env h"
proof -
  have "length (sg_body_lower h) = length (sg_body_hits h) \<Longrightarrow> sg_body_lower h = map (gx_lowercase env) (body_texts h)"
    using assms(2) unfolding lower_prefix_def body_texts_def by (metis length_map take_all order_refl)
  moreover have tables: "sg_body_indexed h = sg_body_indexed g" "sg_body_trigrams h = sg_body_trigrams g"
    "sg_body_fingerprint h = sg_body_fingerprint g" using assms(3) unfolding body_tables_same_def by blast+
  moreover have "body_index_of env (body_texts g) g" using assms(1) unfolding body_index_exact_iff by blast
  ultimately have "body_index_of env (body_texts g) h" unfolding body_index_of_def tables by blast
  then show ?thesis using assms(4) unfolding body_index_carried_def by blast
qed

section \<open>Histories\<close>

definition indexes_exact :: "graph_env \<Rightarrow> semantic_graph \<Rightarrow> bool" where
  "indexes_exact env g \<longleftrightarrow> edges_indexed g \<and> signatures_indexed env g \<and> body_index_exact env g"

definition rebuilt :: "graph_env \<Rightarrow> semantic_graph \<Rightarrow> semantic_graph" where
  "rebuilt env g = rebuild_indexes env (rebuild_semantic_edges env False g)"

lemma rebuilt_body: "body_index_same g (rebuild_semantic_edges env b g) \<and> rows_unchanged g (rebuild_semantic_edges env b g)"
  if "env_ok env"
  using derived_rebuild [OF that, of g b] unchanged_keep [of g] rows_unchanged_trans body_index_same_trans
  unfolding derived_from_def by blast

lemma rebuilt_exact:
  assumes "env_ok env" "represents g pfs" "files_ok pfs" "body_index_carried env g"
  shows "represents (rebuilt env g) pfs" "indexes_exact env (rebuilt env g)" "body_texts (rebuilt env g) = body_texts g"
proof -
  let ?h = "rebuild_semantic_edges env False g"
  have r: "represents ?h pfs" using represents_rebuild assms(1-3) by blast
  have "containment (rebuild_indexes env ?h) = containment ?h" by (simp add: containment_def rows_rebuild_indexes)
  then show "represents (rebuilt env g) pfs"
    unfolding rebuilt_def using represents_unchanged [OF r rows_rebuild_indexes(1)] by blast
  have same: "body_index_same g ?h" "sg_body_hits ?h = sg_body_hits g"
    using rebuilt_body [OF assms(1)] unfolding rows_unchanged_def by blast+
  have "body_index_carried env ?h" by (rule body_index_carried_same [OF assms(4) same])
  then show "indexes_exact env (rebuilt env g)"
    unfolding indexes_exact_def rebuilt_def
    using rebuild_edges_indexed rebuild_signatures_indexed rebuild_indexes_body_exact by blast
  show "body_texts (rebuilt env g) = body_texts g"
    using rows_rebuild_indexes(1) [of ?h env] same(2) unfolding rebuilt_def rows_unchanged_def body_texts_def by simp
qed

definition files_without :: "file_id list \<Rightarrow> parsed_file list \<Rightarrow> parsed_file list" where
  "files_without fs pfs = filter (\<lambda>pf. pf_id pf \<notin> set fs) pfs"

definition texts_of :: "parsed_file list \<Rightarrow> str list" where
  "texts_of pfs = map bh_text (concat (map (rows_of pf_body_hits) pfs))"

text \<open>
  The graphs a manager can hold, each with the files it shows.  The one condition on a change is that the 64-bit hash of the body
  texts does not take the new texts for the old ones.
\<close>

inductive graph_history :: "graph_env \<Rightarrow> semantic_graph \<Rightarrow> parsed_file list \<Rightarrow> bool" for env where
  built: "files_ok pfs \<Longrightarrow> graph_history env (from_parsed env pfs) pfs"
| replaced: "graph_history env g pfs \<Longrightarrow> files_ok (files_without (map pf_id new_files) pfs @ new_files)
    \<Longrightarrow> same_hash_same_texts env (texts_of pfs) (texts_of (files_without (map pf_id new_files) pfs @ new_files))
    \<Longrightarrow> graph_history env (replace_files env new_files g) (files_without (map pf_id new_files) pfs @ new_files)"
| removed: "graph_history env g pfs \<Longrightarrow> same_hash_same_texts env (texts_of pfs) (texts_of (files_without [f] pfs))
    \<Longrightarrow> graph_history env (remove_graph_file env f g) (files_without [f] pfs)"

lemma represents_body_texts: "represents g pfs \<Longrightarrow> body_texts g = texts_of pfs"
  by (simp add: represents_def body_texts_def texts_of_def)

lemma replace_files_rebuilt:
  "replace_files env new_files g
     = rebuilt env (fold insert_parsed_file new_files (remove_files_data (map pf_id new_files) g))"
  by (simp add: replace_files_def rebuilt_def Let_def)

lemma remove_file_rebuilt: "remove_graph_file env f g = rebuilt env (remove_file_data f g)"
  by (simp add: remove_graph_file_def rebuilt_def)

lemma from_parsed_rebuilt: "from_parsed env pfs = rebuilt env (fold insert_parsed_file pfs empty_graph)"
  by (simp add: from_parsed_def rebuilt_def)

lemma represents_removed:
  assumes "represents g pfs" "files_ok pfs" "body_index_exact env g"
  shows "represents (remove_files_data fs g) (files_without fs pfs) \<and> lower_prefix env (remove_files_data fs g)
    \<and> body_tables_same g (remove_files_data fs g)"
proof (cases "fs = []")
  case True
  have "lower_prefix env g" using assms(3) by (simp add: lower_prefix_def body_index_exact_def body_texts_def o_def)
  then show ?thesis using True assms(1) by (simp add: remove_files_data_def files_without_def body_tables_same_def)
next
  case False
  then show ?thesis
    using represents_remove [OF assms(1,2), of "\<lambda>f. f \<in> set fs"] lower_prefix_remove [OF assms(3)] body_tables_remove
    by (simp add: remove_files_data_def files_without_def)
qed

lemma remove_file_data_single: "remove_file_data f g = remove_files_data [f] g"
  by (simp add: remove_file_data_def remove_files_data_def)

lemma changed_exact:
  assumes "env_ok env" "represents g pfs" "files_ok pfs" "body_index_exact env g"
    and kept: "files_ok (files_without fs pfs @ new_files)"
    and hash: "same_hash_same_texts env (texts_of pfs) (texts_of (files_without fs pfs @ new_files))"
  defines "h \<equiv> rebuilt env (fold insert_parsed_file new_files (remove_files_data fs g))"
  shows "represents h (files_without fs pfs @ new_files) \<and> indexes_exact env h"
proof -
  let ?mid = "remove_files_data fs g"
  let ?all = "fold insert_parsed_file new_files ?mid"
  note mid = represents_removed [OF assms(2-4), of fs]
  have shows_all: "represents ?all (files_without fs pfs @ new_files)" using mid represents_inserts kept by blast
  have "lower_prefix env ?all" "body_tables_same g ?all"
    using mid inserted_body [of env ?mid new_files] unfolding body_tables_same_def by auto
  moreover have "same_hash_same_texts env (body_texts g) (body_texts ?all)"
    using hash represents_body_texts [OF assms(2)] represents_body_texts [OF shows_all] by simp
  ultimately have "body_index_carried env ?all" using carried_from_exact [OF assms(4)] by blast
  then show ?thesis unfolding h_def using rebuilt_exact [OF assms(1) shows_all kept] by blast
qed

lemma history_exact:
  assumes "env_ok env" "graph_history env g pfs"
  shows "files_ok pfs \<and> represents g pfs \<and> indexes_exact env g"
  using assms(2)
proof (induction rule: graph_history.induct)
  case (built pfs)
  let ?g = "fold insert_parsed_file pfs empty_graph"
  have shown: "represents ?g pfs" using represents_inserts [OF represents_empty, of pfs] built by simp
  have empty_prefix: "lower_prefix env empty_graph" "sg_body_fingerprint empty_graph = None"
    by (simp_all add: lower_prefix_def empty_graph_def)
  then have "sg_body_fingerprint ?g = None" using inserted_body [of env empty_graph pfs] unfolding body_tables_same_def by simp
  then have "body_index_carried env ?g" unfolding body_index_carried_def by blast
  then show ?case unfolding from_parsed_rebuilt using rebuilt_exact [OF assms(1) shown built] built by blast
next
  case (replaced g pfs new_files)
  then show ?case
    using changed_exact [OF assms(1), of g pfs "map pf_id new_files" new_files]
    unfolding replace_files_rebuilt indexes_exact_def by blast
next
  case (removed g pfs f)
  then have "files_ok (files_without [f] pfs)" using files_ok_filter unfolding files_without_def by blast
  then show ?case
    using changed_exact [OF assms(1), of g pfs "[f]" "[]"] removed
    unfolding remove_file_rebuilt remove_file_data_single indexes_exact_def by simp
qed

end
