(* ===== verification/GraphTargetsSpec.thy ===== *)
theory GraphTargetsSpec
  imports GraphHistorySpec
begin

text \<open>
  What the edges of a graph point to: a resolved edge names a symbol that is there and offers no other candidates, and the
  candidates of an unresolved one are at most eight symbols that are there.
\<close>

definition edge_sound :: "semantic_graph \<Rightarrow> graph_edge \<Rightarrow> bool" where
  "edge_sound g e \<longleftrightarrow>
     (case ed_to e of Some t \<Rightarrow> symbol_at g t \<noteq> None \<and> ed_candidates e = [] | None \<Rightarrow> True)
     \<and> length (ed_candidates e) \<le> MAX_EDGE_CANDIDATES \<and> (\<forall>c \<in> set (ed_candidates e). symbol_at g c \<noteq> None)"

lemma edge_sound_cong: "sg_symbols h = sg_symbols g \<Longrightarrow> edge_sound h e = edge_sound g e"
  by (simp add: edge_sound_def cong: option.case_cong)

definition names_current :: "semantic_graph \<Rightarrow> bool" where
  "names_current g \<longleftrightarrow> symbols_keyed g \<and> sg_symbols_by_name g = index_names g"

lemma names_current_cong: "sg_symbols h = sg_symbols g \<Longrightarrow> sg_symbols_by_name h = sg_symbols_by_name g \<Longrightarrow> names_current h = names_current g"
  by (simp add: names_current_def symbols_keyed_def index_names_def all_symbols_def)

text \<open>What the rules of single languages promise: they answer with symbols of the graph they were asked about.\<close>

definition env_resolves :: "graph_env \<Rightarrow> bool" where
  "env_resolves env \<longleftrightarrow>
     (\<forall>g. names_current g \<longrightarrow>
        (\<forall>r candidates caller call i. gx_rule env r g candidates caller call = Some i \<longrightarrow> symbol_at g i \<noteq> None)
        \<and> (\<forall>l f name. \<forall>i \<in> set (gx_type_candidates env l g f name). symbol_at g i \<noteq> None)
        \<and> (\<forall>e \<in> set (gx_csharp_type_edges env g) \<union> set (gx_php_type_edges env g) \<union> set (gx_python_route_edges env g).
             edge_sound g e))"

section \<open>The answers of the rules\<close>

lemma name_known: "names_current g \<Longrightarrow> i \<in> set (bucket (sg_symbols_by_name g) name) \<Longrightarrow> symbol_at g i \<noteq> None"
proof -
  assume g: "names_current g" "i \<in> set (bucket (sg_symbols_by_name g) name)"
  then obtain s where "s \<in> set (all_symbols g)" "i = gs_id s"
    by (auto simp: names_current_def index_names_def bucket_group_by)
  then show ?thesis using symbol_at_own_id g(1) unfolding names_current_def by fastforce
qed

lemma found_known: "symbols_keyed g \<Longrightarrow> s \<in> set (found_symbols g ids) \<Longrightarrow> symbol_at g (gs_id s) = Some s"
proof -
  assume g: "symbols_keyed g" "s \<in> set (found_symbols g ids)"
  then obtain i where "symbol_at g i = Some s" by (auto simp: found_symbols_def map_filter_def)
  moreover from this have "gs_id s = i" using symbols_keyed_at [OF g(1)] by blast
  ultimately show ?thesis by simp
qed

lemma single_known:
  assumes "symbols_keyed g" "single_symbol xs = Some i" "set xs \<subseteq> gs_id ` set (found_symbols g ids)"
  shows "symbol_at g i \<noteq> None"
proof -
  have "i \<in> gs_id ` set (found_symbols g ids)" using assms(2,3) by (auto simp: single_symbol_Some)
  then show ?thesis using found_known [OF assms(1)] by auto
qed

lemma single_filter_known:
  "symbols_keyed g \<Longrightarrow> single_symbol (map gs_id (filter P (found_symbols g ids))) = Some i \<Longrightarrow> symbol_at g i \<noteq> None"
  by (rule single_known) auto

lemma arity_known: "arity_unique_candidate g candidates call = Some i \<Longrightarrow> symbol_at g i \<noteq> None"
proof -
  assume a: "arity_unique_candidate g candidates call = Some i"
  let ?P = "\<lambda>i. Option.bind (symbol_at g i) gs_arity = Some (of_nat (ca_arity call))"
  have "filter ?P candidates = [i]" using a by (auto simp: arity_unique_candidate_def split: if_splits list.splits)
  then have "?P i" by (metis (mono_tags) filter_eq_ConsD)
  then show ?thesis by (cases "symbol_at g i") auto
qed

lemma same_impl_known: "symbols_keyed g \<Longrightarrow> same_impl_qualified_call g candidates caller call = Some i \<Longrightarrow> symbol_at g i \<noteq> None"
  by (auto simp: same_impl_qualified_call_def split: if_splits option.splits dest: single_filter_known)

lemma associated_known: "symbols_keyed g \<Longrightarrow> associated_function_call g candidates call = Some i \<Longrightarrow> symbol_at g i \<noteq> None"
  unfolding associated_function_call_def Let_def by (auto split: if_splits option.splits dest: single_filter_known)

lemma module_known: "symbols_keyed g \<Longrightarrow> module_qualified_call g candidates caller call = Some i \<Longrightarrow> symbol_at g i \<noteq> None"
  unfolding module_qualified_call_def Let_def by (auto split: if_splits option.splits dest: single_filter_known)

lemma first_some_in: "first_hit xs = Some x \<Longrightarrow> Some x \<in> set xs"
  by (induction xs rule: first_hit.induct) auto

lemma qualified_known: "symbols_keyed g \<Longrightarrow> qualified_direct_call g candidates caller call = Some i \<Longrightarrow> symbol_at g i \<noteq> None"
proof -
  assume g: "symbols_keyed g" "qualified_direct_call g candidates caller call = Some i"
  then have "Some i \<in> {same_impl_qualified_call g candidates caller call, associated_function_call g candidates call,
      module_qualified_call g candidates caller call}"
    using first_some_in by (fastforce simp: qualified_direct_call_def split: if_splits)
  then consider "same_impl_qualified_call g candidates caller call = Some i" | "associated_function_call g candidates call = Some i"
    | "module_qualified_call g candidates caller call = Some i" by auto
  then show ?thesis using same_impl_known associated_known module_known g(1) by cases blast+
qed

lemma method_on_class_known: "symbols_keyed g \<Longrightarrow> method_on_class_or_partials g parent name exclude = Some i \<Longrightarrow> symbol_at g i \<noteq> None"
  unfolding method_on_class_or_partials_def Let_def by (rule single_filter_known)

lemma same_class_known: "symbols_keyed g \<Longrightarrow> same_class_direct_call g caller name = Some i \<Longrightarrow> symbol_at g i \<noteq> None"
  unfolding same_class_direct_call_def by (auto split: if_splits option.splits dest: method_on_class_known)

lemma same_impl_method_known: "symbols_keyed g \<Longrightarrow> same_impl_method g caller name = Some i \<Longrightarrow> symbol_at g i \<noteq> None"
  unfolding same_impl_method_def by (auto split: if_splits option.splits dest: method_on_class_known)

lemma same_file_known: "symbols_keyed g \<Longrightarrow> same_file_direct_call g candidates caller call = Some i \<Longrightarrow> symbol_at g i \<noteq> None"
  unfolding same_file_direct_call_def single_unique_eq by (auto split: if_splits option.splits dest: single_filter_known)

lemma imported_known: "symbols_keyed g \<Longrightarrow> imported_direct_call env g candidates caller call = Some i \<Longrightarrow> symbol_at g i \<noteq> None"
  unfolding imported_direct_call_def single_unique_eq by (auto split: if_splits option.splits dest: single_filter_known)

lemma package_local_known: "symbols_keyed g \<Longrightarrow> package_local_direct_call g candidates caller = Some i \<Longrightarrow> symbol_at g i \<noteq> None"
  unfolding package_local_direct_call_def by (auto split: option.splits dest: single_filter_known)

lemma import_alias_known:
  assumes g: "symbols_keyed g" and i: "import_alias_direct_call env g caller call = Some i"
  shows "symbol_at g i \<noteq> None"
proof -
  obtain xs where xs: "single_symbol xs = Some i" "\<forall>x \<in> set xs. \<exists>ids. x \<in> gs_id ` set (found_symbols g ids)"
    using i unfolding import_alias_direct_call_def by (fastforce split: if_splits option.splits)
  then have "i \<in> set xs" by (simp add: single_symbol_Some)
  then show ?thesis using xs(2) found_known [OF g] by fastforce
qed

section \<open>The chain of rules\<close>

definition resolution_sound :: "semantic_graph \<Rightarrow> resolution \<Rightarrow> bool" where
  "resolution_sound g r \<longleftrightarrow>
     (case r of (found, confidence, reason, candidates) \<Rightarrow>
        (case found of Some t \<Rightarrow> symbol_at g t \<noteq> None \<and> candidates = [] | None \<Rightarrow> True)
        \<and> length candidates \<le> MAX_EDGE_CANDIDATES \<and> (\<forall>c \<in> set candidates. symbol_at g c \<noteq> None))"

lemma resolved_sound: "symbol_at g i \<noteq> None \<Longrightarrow> resolution_sound g (resolved_to confidence reason i)"
  by (simp add: resolution_sound_def resolved_to_def)

lemma set_rank: "set (rank_call_candidates g candidates caller call) = set candidates"
  by (auto simp: rank_call_candidates_def rank_by_def Let_def image_image)

lemma set_rank_import: "set (rank_import_candidates g candidates f) = set candidates"
  by (auto simp: rank_import_candidates_def rank_by_def Let_def image_image)

lemma unresolved_sound:
  "(\<And>c. c \<in> set candidates \<Longrightarrow> symbol_at g c \<noteq> None) \<Longrightarrow> resolution_sound g (unresolved g candidates caller call none_c none_r set_r)"
  using set_rank [of g candidates caller call]
  by (auto simp: unresolved_def resolution_sound_def dest: in_set_takeD)

definition attempt_sound :: "semantic_graph \<Rightarrow> resolution option \<Rightarrow> bool" where
  "attempt_sound g attempt \<longleftrightarrow> (\<forall>r. attempt = Some r \<longrightarrow> resolution_sound g r)"

lemma attempt_tried: "(\<And>i. found = Some i \<Longrightarrow> symbol_at g i \<noteq> None) \<Longrightarrow> attempt_sound g (tried found confidence reason)"
  unfolding attempt_sound_def tried_def by (cases found) (use resolved_sound in \<open>simp_all del: not_None_eq\<close>)

lemma attempt_if: "attempt_sound g a \<Longrightarrow> attempt_sound g (if c then a else None)"
  by (simp add: attempt_sound_def)

lemma attempt_some: "resolution_sound g r \<Longrightarrow> attempt_sound g (Some r)"
  by (simp add: attempt_sound_def)

lemma attempts_Nil: "list_all (attempt_sound g) []"
  and attempts_Cons: "attempt_sound g a \<Longrightarrow> list_all (attempt_sound g) as \<Longrightarrow> list_all (attempt_sound g) (a # as)"
  and attempts_append: "list_all (attempt_sound g) as \<Longrightarrow> list_all (attempt_sound g) bs \<Longrightarrow> list_all (attempt_sound g) (as @ bs)"
  by simp_all

lemmas attempts_intros = attempts_Nil attempts_Cons attempts_append attempt_if attempt_some

lemma first_resolution_sound:
  "list_all (attempt_sound g) attempts \<Longrightarrow> resolution_sound g otherwise \<Longrightarrow> resolution_sound g (first_resolution attempts otherwise)"
  unfolding first_resolution_def list_all_iff attempt_sound_def by (cases "first_hit attempts") (auto dest: first_some_in)

lemma rule_known:
  "env_resolves env \<Longrightarrow> names_current g \<Longrightarrow> gx_rule env r g candidates caller call = Some i \<Longrightarrow> symbol_at g i \<noteq> None"
  unfolding env_resolves_def by blast

lemma attempts_known:
  assumes "env_resolves env" "names_current g"
  shows "attempt_sound g (tried (gx_rule env r g candidates caller call) confidence reason)"
    "attempt_sound g (tried (import_alias_direct_call env g caller call) confidence reason)"
    "attempt_sound g (tried (same_impl_method g caller name) confidence reason)"
    "attempt_sound g (tried (same_class_direct_call g caller name) confidence reason)"
    "attempt_sound g (tried (qualified_direct_call g candidates caller call) confidence reason)"
    "attempt_sound g (tried (arity_unique_candidate g candidates call) confidence reason)"
    "attempt_sound g (tried (same_file_direct_call g candidates caller call) confidence reason)"
    "attempt_sound g (tried (imported_direct_call env g candidates caller call) confidence reason)"
    "attempt_sound g (tried (package_local_direct_call g candidates caller) confidence reason)"
proof -
  have keyed: "symbols_keyed g" using assms(2) by (simp add: names_current_def)
  show "attempt_sound g (tried (gx_rule env r g candidates caller call) confidence reason)"
    by (rule attempt_tried) (rule rule_known [OF assms])
  show "attempt_sound g (tried (import_alias_direct_call env g caller call) confidence reason)"
    by (rule attempt_tried) (rule import_alias_known [OF keyed])
  show "attempt_sound g (tried (same_impl_method g caller name) confidence reason)"
    by (rule attempt_tried) (rule same_impl_method_known [OF keyed])
  show "attempt_sound g (tried (same_class_direct_call g caller name) confidence reason)"
    by (rule attempt_tried) (rule same_class_known [OF keyed])
  show "attempt_sound g (tried (qualified_direct_call g candidates caller call) confidence reason)"
    by (rule attempt_tried) (rule qualified_known [OF keyed])
  show "attempt_sound g (tried (arity_unique_candidate g candidates call) confidence reason)"
    by (rule attempt_tried) (rule arity_known)
  show "attempt_sound g (tried (same_file_direct_call g candidates caller call) confidence reason)"
    by (rule attempt_tried) (rule same_file_known [OF keyed])
  show "attempt_sound g (tried (imported_direct_call env g candidates caller call) confidence reason)"
    by (rule attempt_tried) (rule imported_known [OF keyed])
  show "attempt_sound g (tried (package_local_direct_call g candidates caller) confidence reason)"
    by (rule attempt_tried) (rule package_local_known [OF keyed])
qed

lemma early_sound:
  assumes env: "env_resolves env" and g: "names_current g"
  shows "list_all (attempt_sound g) (early_attempts env g call caller)"
  unfolding early_attempts_def Let_def by (intro attempts_intros attempts_known [OF env g])

lemma callable_known: "c \<in> set (call_candidates g call) \<Longrightarrow> symbol_at g c \<noteq> None"
  by (auto simp: call_candidates_def split: option.splits)

lemma resolve_macro_sound: "resolution_sound g (resolve_macro g call caller)"
proof -
  let ?c = "filter (\<lambda>i. map_option gs_kind (symbol_at g i) = Some MacroKind) (bucket (sg_symbols_by_name g) (ca_name call))"
  have known: "symbol_at g c \<noteq> None" if "c \<in> set ?c" for c using that by (cases "symbol_at g c") auto
  have sound: "resolution_sound g (unresolved g ?c caller call MacroOpaque ''macro opaque'' ''macro candidate set'')"
    by (rule unresolved_sound) (rule known)
  have "resolution_sound g (case xs of [only] \<Rightarrow> resolved_to ExactSyntax ''macro exact'' only | _ \<Rightarrow> r)"
    if "\<And>c. c \<in> set xs \<Longrightarrow> symbol_at g c \<noteq> None" "resolution_sound g r" for xs r
    by (cases xs rule: remdups_adj.cases) (use that resolved_sound in \<open>simp_all del: not_None_eq\<close>)
  from this [OF known sound] show ?thesis unfolding resolve_macro_def Let_def .
qed

lemma resolution_if: "resolution_sound g a \<Longrightarrow> resolution_sound g b \<Longrightarrow> resolution_sound g (if c then a else b)"
  by simp

lemma attempts_rules:
  "(\<And>r confidence reason. attempt_sound g (tried (answer r) confidence reason)) \<Longrightarrow>
     list_all (attempt_sound g) (map (\<lambda>(r, confidence, reason). tried (answer r) confidence reason) rules)"
  by (induction rules) auto

lemma resolve_call_sound:
  assumes env: "env_resolves env" and g: "names_current g"
  shows "resolution_sound g (resolve_call env g call caller)"
proof (cases "ca_kind call = MacroCall")
  case True
  then show ?thesis using resolve_macro_sound by (simp add: resolve_call_def)
next
  case False
  let ?c = "call_candidates g call"
  have set_of: "resolution_sound g (unresolved g ?c caller call ExternalTarget a b)" for a b
    by (rule unresolved_sound) (rule callable_known)
  show ?thesis
    unfolding resolve_call_def if_not_P [OF False] Let_def
    by (intro resolution_if first_resolution_sound set_of attempts_intros attempts_rules early_sound [OF env g] attempts_known [OF env g])
qed

section \<open>The edges\<close>

lemma call_edge_sound:
  assumes "env_resolves env" "names_current g"
  shows "edge_sound g (call_edge env g call)"
  using resolve_call_sound [OF assms, of call "edge_source (ca_caller_id call) (ca_file_id call)"]
  unfolding call_edge_def Let_def resolution_sound_def edge_sound_def by (simp split: prod.splits option.splits)

lemma import_edge_sound:
  assumes g: "names_current g" and e: "import_edge env g i = Some e"
  shows "edge_sound g e"
proof -
  have known: "symbol_at g c \<noteq> None" if "c \<in> set (import_candidates env g i)" for c
    using that name_known [OF g] by (auto simp: import_candidates_def Let_def split: option.splits if_splits simp del: not_None_eq)
  show ?thesis
  proof (cases "import_candidates env g i")
    case Nil
    then show ?thesis using e by (auto simp: import_edge_def edge_sound_def split: if_splits)
  next
    case (Cons only others)
    then have "symbol_at g only \<noteq> None" using known [of only] by simp
    moreover have "symbol_at g c \<noteq> None" if "c \<in> set (take MAX_EDGE_CANDIDATES (rank_import_candidates g (only # others) (im_file_id i)))" for c
      using known [of c] in_set_takeD [OF that] set_rank_import [of g "only # others"] Cons by auto
    ultimately show ?thesis using e Cons
      by (fastforce simp: import_edge_def edge_sound_def split: if_splits)
  qed
qed

lemma reference_edge_sound:
  assumes g: "names_current g" and e: "reference_edge g r = Some e"
  shows "edge_sound g e"
proof -
  obtain only where "bucket (sg_symbols_by_name g) (last_path_segment (re_text r)) = [only]" "ed_to e = Some only" "ed_candidates e = []"
    using e by (auto simp: reference_edge_def split: if_splits list.splits)
  then show ?thesis using name_known [OF g, of only "last_path_segment (re_text r)"] by (simp add: edge_sound_def del: not_None_eq)
qed

lemma generic_candidates_known: "symbols_keyed g \<Longrightarrow> i \<in> set (generic_type_candidates g f name) \<Longrightarrow> symbol_at g i \<noteq> None"
proof -
  assume g: "symbols_keyed g" "i \<in> set (generic_type_candidates g f name)"
  have "\<exists>P. single_symbol (map gs_id (filter P (found_symbols g (bucket (sg_symbols_by_name g) (last_path_segment name))))) = Some i"
    using g(2) unfolding generic_type_candidates_def Let_def filter_filter found_symbols_def [symmetric] by (auto split: option.splits)
  then show ?thesis using single_filter_known [OF g(1)] by blast
qed

lemma heuristic_edge_sound: "symbol_at g t \<noteq> None \<Longrightarrow> edge_sound g (heuristic_edge s t target kind span source reason)"
  by (simp add: edge_sound_def heuristic_edge_def)

lemma inheritance_target_known:
  assumes "env_resolves env" "names_current g" "generic_inheritance_target env g f name = Some t"
  shows "symbol_at g t \<noteq> None"
proof -
  have "t \<in> set (generic_type_candidates g f name) \<or> (\<exists>l. t \<in> set (gx_type_candidates env l g f name))"
    using assms(3) unfolding generic_inheritance_target_def by (auto simp: single_symbol_Some split: option.splits if_splits)
  then show ?thesis
    using generic_candidates_known assms(1,2) unfolding env_resolves_def names_current_def by blast
qed

lemma inheritance_edge_sound:
  assumes "env_resolves env" "names_current g" "e \<in> set (generic_inheritance_edges env g)"
  shows "edge_sound g e"
proof -
  obtain s where "e \<in> set (symbol_inheritance_edges env g s)" using assms(3) by (auto simp: generic_inheritance_edges_def)
  then obtain f name t kind span target where t: "generic_inheritance_target env g f name = Some t"
    and e: "e = heuristic_edge (gs_id s) t target kind span ''graph'' ''generic inheritance attribute edge''"
    by (auto simp: symbol_inheritance_edges_def map_filter_def dest!: subsetD [OF set_unseen_by])
  show ?thesis unfolding e by (rule heuristic_edge_sound) (rule inheritance_target_known [OF assms(1,2) t])
qed

lemma impl_edge_sound:
  assumes "symbols_keyed g" "e \<in> set (rust_impl_edges env g)"
  shows "edge_sound g e"
proof -
  obtain s where e: "e \<in> set (impl_edges env g s)" using assms(2) by (auto simp: rust_impl_edges_def)
  have trait: "symbol_at g t \<noteq> None" if "rust_impl_trait_symbol env g s name = Some t" for t name
    using that single_filter_known [OF assms(1)] unfolding rust_impl_trait_symbol_def found_symbols_def [symmetric] by blast
  have type: "symbol_at g t \<noteq> None" if "rust_impl_type_symbol g s name = Some t" for t name
    using that generic_candidates_known [OF assms(1), of t "gs_file_id s" name]
    unfolding rust_impl_type_symbol_def by (auto split: list.splits simp del: not_None_eq)
  show ?thesis
    using e unfolding impl_edges_def Let_def
    by (auto split: if_splits option.splits intro!: heuristic_edge_sound dest!: trait [OF sym] type [OF sym])
qed

section \<open>Through a rebuild\<close>

definition targets_present :: "semantic_graph \<Rightarrow> bool" where
  "targets_present g \<longleftrightarrow> (\<forall>e \<in> set (sg_edges g). edge_sound g e)"

definition resolvable :: "semantic_graph \<Rightarrow> bool" where
  "resolvable g \<longleftrightarrow> names_current g \<and> targets_present g"

lemma resolvable_add_edges: "resolvable g \<Longrightarrow> (\<And>e. e \<in> set es \<Longrightarrow> edge_sound g e) \<Longrightarrow> resolvable (add_edges es g)"
  unfolding resolvable_def targets_present_def
  using names_current_cong [of "add_edges es g" g] edge_sound_cong [of "add_edges es g" g]
  by (auto simp: add_edges_def)

lemma resolvable_cong:
  "sg_symbols h = sg_symbols g \<Longrightarrow> sg_symbols_by_name h = sg_symbols_by_name g \<Longrightarrow> sg_edges h = sg_edges g \<Longrightarrow> resolvable g \<Longrightarrow> resolvable h"
  unfolding resolvable_def targets_present_def using names_current_cong edge_sound_cong by metis

lemma ancestors_names: "sg_symbols_by_name (build_ancestor_edge_index g) = sg_symbols_by_name g"
proof -
  have "sg_symbols_by_name (fold index_ancestor_edge es h) = sg_symbols_by_name h" for es h
    by (induction es arbitrary: h) (auto simp: index_ancestor_edge_def split: option.splits)
  then show ?thesis by (simp add: build_ancestor_edge_index_def)
qed

lemma resolvable_ancestors: "resolvable g \<Longrightarrow> resolvable (build_ancestor_edge_index g)"
  using rebuilt_only_ancestors [of g] ancestors_names unfolding rebuilt_only_def rows_unchanged_def
  by (blast intro: resolvable_cong)

lemma names_cleared:
  assumes "resolvable g"
  shows "names_current (g\<lparr>sg_imports := []\<rparr>)" "names_current (g\<lparr>sg_calls := []\<rparr>)" "names_current (g\<lparr>sg_references := []\<rparr>)"
proof -
  have g: "names_current g" using assms by (simp add: resolvable_def)
  then show "names_current (g\<lparr>sg_imports := []\<rparr>)" using names_current_cong [of "g\<lparr>sg_imports := []\<rparr>" g] by simp
  show "names_current (g\<lparr>sg_calls := []\<rparr>)" using names_current_cong [of "g\<lparr>sg_calls := []\<rparr>" g] g by simp
  show "names_current (g\<lparr>sg_references := []\<rparr>)" using names_current_cong [of "g\<lparr>sg_references := []\<rparr>" g] g by simp
qed

lemma resolvable_imports: "resolvable g \<Longrightarrow> resolvable (add_import_edges env g)"
proof -
  assume g: "resolvable g"
  have "edge_sound g e" if "import_edge env (g\<lparr>sg_imports := []\<rparr>) i = Some e" for i e
    using import_edge_sound [OF names_cleared(1) [OF g] that] edge_sound_cong [of "g\<lparr>sg_imports := []\<rparr>" g] by simp
  then show ?thesis unfolding add_import_edges_def Let_def by (intro resolvable_add_edges [OF g]) (auto simp: map_filter_def)
qed

lemma resolvable_calls: "env_resolves env \<Longrightarrow> resolvable g \<Longrightarrow> resolvable (add_call_edges env g)"
proof -
  assume g: "env_resolves env" "resolvable g"
  have "edge_sound g (call_edge env (g\<lparr>sg_calls := []\<rparr>) c)" for c
    using call_edge_sound [OF g(1) names_cleared(2) [OF g(2)]] edge_sound_cong [of "g\<lparr>sg_calls := []\<rparr>" g] by simp
  then show ?thesis unfolding add_call_edges_def Let_def by (intro resolvable_add_edges [OF g(2)]) auto
qed

lemma resolvable_references: "resolvable g \<Longrightarrow> resolvable (add_reference_edges g)"
proof -
  assume g: "resolvable g"
  have "edge_sound g e" if "reference_edge (g\<lparr>sg_references := []\<rparr>) r = Some e" for r e
    using reference_edge_sound [OF names_cleared(3) [OF g] that] edge_sound_cong [of "g\<lparr>sg_references := []\<rparr>" g] by simp
  then show ?thesis unfolding add_reference_edges_def Let_def by (intro resolvable_add_edges [OF g]) (auto simp: map_filter_def)
qed

lemma resolvable_env:
  assumes "env_resolves env" "resolvable g"
  shows "resolvable (add_edges (gx_csharp_type_edges env g) g)" "resolvable (add_edges (gx_php_type_edges env g) g)"
    "resolvable (add_edges (gx_python_route_edges env g) g)"
  using assms unfolding env_resolves_def by (auto intro!: resolvable_add_edges simp: resolvable_def [of g])

lemma resolution_names: "sg_symbols_by_name (rebuild_resolution_indexes env b g) = index_names g"
proof -
  have "index_names (rebuild_import_indexes g) = index_names g"
    using rebuilt_only_imports [of g] unfolding rebuilt_only_def rows_unchanged_def index_names_def all_symbols_def by simp
  then show ?thesis
    by (simp add: rebuild_resolution_indexes_def rebuild_importers_by_file_def rebuild_resolver_slots_def Let_def)
qed

lemma resolvable_resolution:
  assumes "symbols_keyed g" "targets_present g"
  shows "resolvable (rebuild_resolution_indexes env b g)"
proof -
  let ?h = "rebuild_resolution_indexes env b g"
  have same: "sg_symbols ?h = sg_symbols g" "sg_edges ?h = sg_edges g"
    using rebuilt_only_resolution [of g env b] unfolding rebuilt_only_def rows_unchanged_def by auto
  then have "index_names ?h = index_names g" by (simp add: index_names_def all_symbols_def)
  then show ?thesis
    using assms same resolution_names [of env b g] edge_sound_cong [of ?h g]
    unfolding resolvable_def names_current_def targets_present_def symbols_keyed_def by simp
qed

lemma rebuild_targets:
  assumes "env_resolves env" "symbols_keyed g" "targets_present (keep_containment g)"
  shows "targets_present (rebuild_semantic_edges env b g)"
proof -
  have "symbols_keyed (keep_containment g)" using assms(2) by (simp add: symbols_keyed_def keep_containment_def)
  note start = resolvable_resolution [OF this assms(3)]
  have inheritance: "resolvable (add_edges (generic_inheritance_edges env h) h)" if "resolvable h" for h
    using that inheritance_edge_sound [OF assms(1)] by (intro resolvable_add_edges) (auto simp: resolvable_def)
  have impls: "resolvable (add_edges (rust_impl_edges env h) h)" if "resolvable h" for h
    using that impl_edge_sound by (intro resolvable_add_edges) (auto simp: resolvable_def names_current_def)
  have "resolvable (rebuild_semantic_edges env b g)"
    unfolding rebuild_semantic_edges_def Let_def
    by (intro resolvable_env [OF assms(1)] resolvable_references resolvable_calls [OF assms(1)] resolvable_imports
        resolvable_ancestors impls inheritance start)
  then show ?thesis by (simp add: resolvable_def)
qed

lemma kept_containment_sound:
  assumes "represents g pfs"
  shows "targets_present (keep_containment g)"
proof -
  have "edge_sound (keep_containment g) e" if "e \<in> set (sg_edges (keep_containment g))" for e
  proof -
    have e: "e \<in> set (containment g)" "edge_endpoints_present (sg_symbols g) e"
      using that by (auto simp: keep_containment_def containment_def)
    then have "e \<in> set (concat (map containment_of pfs))" using assms unfolding represents_def by metis
    then have "ed_candidates e = []" by (auto simp: containment_of_def contains_edge_def split: if_splits)
    moreover have "sg_symbols (keep_containment g) = sg_symbols g" by (simp add: keep_containment_def)
    ultimately show ?thesis using e(2) by (auto simp: edge_sound_def edge_endpoints_present_def split: option.splits)
  qed
  then show ?thesis by (simp add: targets_present_def)
qed

lemma rebuilt_targets:
  assumes "env_resolves env" "represents g pfs"
  shows "targets_present (rebuilt env g)"
proof -
  let ?h = "rebuild_semantic_edges env False g"
  have "symbols_keyed g" using assms(2) by (simp add: represents_def)
  from rebuild_targets [OF assms(1) this kept_containment_sound [OF assms(2)]]
  have "targets_present ?h" .
  moreover have "sg_symbols (rebuild_indexes env ?h) = sg_symbols ?h" "sg_edges (rebuild_indexes env ?h) = sg_edges ?h"
    using rows_rebuild_indexes [where g = ?h and env = env] unfolding rows_unchanged_def by blast+
  ultimately show ?thesis unfolding rebuilt_def targets_present_def using edge_sound_cong by metis
qed

end
