(* ===== verification/GraphWalkSpec.thy ===== *)
theory GraphWalkSpec
  imports CallResolution
begin

text \<open>
  The walks of the code graph against the relations they follow: call chains are the shortest there are within the depth, the
  inheritance walks visit what is reachable, each symbol once, and a change reaches the closure of its importers.
\<close>

section \<open>Reachability\<close>

definition within :: "('a \<times> 'a) set \<Rightarrow> nat \<Rightarrow> 'a set \<Rightarrow> 'a set" where
  "within R n A = {x. \<exists>k \<le> n. \<exists>a \<in> A. (a, x) \<in> R ^^ k}"

lemma within_0 [simp]: "within R 0 A = A"
  by (auto simp: within_def)

lemma within_Suc: "within R (Suc n) A = within R n A \<union> R `` within R n A"
proof
  show "within R (Suc n) A \<subseteq> within R n A \<union> R `` within R n A"
  proof
    fix x assume "x \<in> within R (Suc n) A"
    then obtain k a where k: "k \<le> Suc n" "a \<in> A" "(a, x) \<in> R ^^ k" by (auto simp: within_def)
    show "x \<in> within R n A \<union> R `` within R n A"
    proof (cases k)
      case 0
      then show ?thesis using k by (auto simp: within_def)
    next
      case (Suc j)
      then obtain y where "(a, y) \<in> R ^^ j" "(y, x) \<in> R" using k(3) by auto
      then have "y \<in> within R n A" using k Suc by (auto simp: within_def)
      then show ?thesis using \<open>(y, x) \<in> R\<close> by blast
    qed
  qed
  show "within R n A \<union> R `` within R n A \<subseteq> within R (Suc n) A"
  proof
    fix x assume "x \<in> within R n A \<union> R `` within R n A"
    then consider "x \<in> within R n A" | y where "y \<in> within R n A" "(y, x) \<in> R" by blast
    then show "x \<in> within R (Suc n) A"
    proof cases
      case 1
      then show ?thesis unfolding within_def using le_SucI by blast
    next
      case 2
      then obtain k a where "k \<le> n" "a \<in> A" "(a, y) \<in> R ^^ k" by (auto simp: within_def)
      then have "Suc k \<le> Suc n" "(a, x) \<in> R ^^ Suc k" using 2(2) by auto
      then show ?thesis unfolding within_def using \<open>a \<in> A\<close> by blast
    qed
  qed
qed

lemma within_Suc_first: "within R (Suc n) A = A \<union> within R n (R `` A)"
proof (induction n)
  case (Suc n)
  have "within R (Suc (Suc n)) A = (A \<union> within R n (R `` A)) \<union> R `` (A \<union> within R n (R `` A))"
    unfolding within_Suc [of R "Suc n"] Suc.IH ..
  also have "\<dots> = A \<union> (R `` A \<union> (within R n (R `` A) \<union> R `` within R n (R `` A)))" by blast
  also have "\<dots> = A \<union> (R `` A \<union> within R (Suc n) (R `` A))" unfolding within_Suc ..
  also have "R `` A \<subseteq> within R (Suc n) (R `` A)" unfolding within_def by fastforce
  then have "A \<union> (R `` A \<union> within R (Suc n) (R `` A)) = A \<union> within R (Suc n) (R `` A)" by blast
  finally show ?case .
qed (simp add: within_Suc)

lemma within_mono: "n \<le> m \<Longrightarrow> within R n A \<subseteq> within R m A"
  by (auto simp: within_def) (meson order_trans)

lemma within_Un: "within R n (A \<union> B) = within R n A \<union> within R n B"
  by (auto simp: within_def)

lemma within_closed: "R `` within R n A \<subseteq> within R n A \<Longrightarrow> within R m A \<subseteq> within R n A"
proof (induction m)
  case 0
  show ?case using within_mono [of 0 n R A] by simp
qed (auto simp: within_Suc)

section \<open>Call chains\<close>

definition calls_relation :: "semantic_graph \<Rightarrow> (symbol_id \<times> symbol_id) set" where
  "calls_relation g = {(x, y). y \<in> set (called_ids g x)}"

definition is_chain :: "semantic_graph \<Rightarrow> symbol_id \<Rightarrow> symbol_id \<Rightarrow> symbol_id list \<Rightarrow> bool" where
  "is_chain g a b p \<longleftrightarrow> p \<noteq> [] \<and> hd p = a \<and> last p = b \<and> successively (\<lambda>x y. y \<in> set (called_ids g x)) p"

lemma is_chain_extend: "is_chain g a b p \<Longrightarrow> c \<in> set (called_ids g b) \<Longrightarrow> is_chain g a c (p @ [c])"
  by (simp add: is_chain_def successively_append_iff)

text \<open>
  The state of the breadth-first search at level \<open>n\<close>: the queue holds the rest of the nodes at distance \<open>n\<close> and those found
  at distance \<open>n + 1\<close>, all else within \<open>n\<close> has been compared and, below the depth, expanded.
\<close>

definition search_state :: "semantic_graph \<Rightarrow> symbol_id \<Rightarrow> symbol_id \<Rightarrow> nat \<Rightarrow> nat
    \<Rightarrow> (symbol_id \<times> symbol_id list) list \<Rightarrow> (symbol_id \<times> symbol_id list) list \<Rightarrow> symbol_id set \<Rightarrow> bool" where
  "search_state g a b d n here there seen \<longleftrightarrow>
     (let R = calls_relation g; W = within R n {a}
      in n \<le> d \<and> (n = d \<longrightarrow> there = [])
         \<and> (\<forall>(x, p) \<in> set here. is_chain g a x p \<and> length p = Suc n)
         \<and> (\<forall>(x, p) \<in> set there. is_chain g a x p \<and> length p = Suc (Suc n))
         \<and> fst ` set here \<subseteq> W \<and> (\<forall>m < n. fst ` set here \<inter> within R m {a} = {})
         \<and> W \<subseteq> seen \<and> fst ` set there = seen - W
         \<and> (\<forall>x \<in> W - fst ` set here. x \<noteq> b \<and> (n < d \<longrightarrow> R `` {x} \<subseteq> seen))
         \<and> seen \<subseteq> within R (Suc n) {a})"

lemma search_state_start: "search_state g a b d 0 [(a, [a])] [] {a}"
  by (simp add: search_state_def Let_def is_chain_def within_Suc)

lemma search_state_next:
  assumes "search_state g a b d n [] there seen" "n < d"
  shows "search_state g a b d (Suc n) there [] seen"
proof -
  let ?R = "calls_relation g"
  let ?W = "\<lambda>n. within ?R n {a}"
  note s = assms(1) [unfolded search_state_def Let_def]
  have seen: "seen = ?W (Suc n)"
  proof
    show "?W (Suc n) \<subseteq> seen" using s assms(2) by (auto simp: within_Suc)
  qed (use s in blast)
  have there: "fst ` set there = ?W (Suc n) - ?W n" using s seen by blast
  have old: "\<forall>x \<in> ?W n. x \<noteq> b \<and> ?R `` {x} \<subseteq> ?W (Suc n)" using s seen assms(2) by auto
  have "?W m \<subseteq> ?W n" if "m < Suc n" for m using within_mono that by (metis less_Suc_eq_le)
  then have "\<forall>m < Suc n. fst ` set there \<inter> ?W m = {}" using there by blast
  moreover have "\<forall>x \<in> ?W (Suc n) - fst ` set there. x \<noteq> b \<and> ?R `` {x} \<subseteq> ?W (Suc n)" using there old by blast
  moreover have "?W (Suc n) \<subseteq> ?W (Suc (Suc n))" by (rule within_mono) simp
  ultimately show ?thesis
    unfolding search_state_def Let_def using s there assms(2) seen by auto
qed

lemma search_state_end: "search_state g a b d n [] [] seen \<Longrightarrow> b \<notin> within (calls_relation g) d {a}"
proof (induction "d - n" arbitrary: n)
  case 0
  then show ?case unfolding search_state_def Let_def by auto
next
  case (Suc k)
  then have "n < d" by simp
  from Suc.hyps(1) [OF _ search_state_next [OF Suc.prems this]] Suc.hyps(2) show ?case by simp
qed

lemma search_state_expand:
  assumes "search_state g a b d n ((c, p) # here) there seen" "c \<noteq> b" "n < d"
    and fresh: "set fresh = set (called_ids g c) - seen"
  shows "search_state g a b d n here (there @ map (\<lambda>x. (x, p @ [x])) fresh) (seen \<union> set fresh)"
proof -
  let ?R = "calls_relation g"
  let ?W = "within ?R n {a}"
  note s = assms(1) [unfolded search_state_def Let_def]
  have c: "c \<in> ?W" "is_chain g a c p" "length p = Suc n" using s by auto
  have succ: "?R `` {c} \<subseteq> seen \<union> set fresh" by (auto simp: calls_relation_def fresh)
  have "set fresh \<subseteq> ?R `` ?W" using c(1) by (auto simp: calls_relation_def fresh)
  then have near: "seen \<union> set fresh \<subseteq> within ?R (Suc n) {a}" using s by (auto simp: within_Suc)
  have new: "set fresh \<inter> ?W = {}" using s fresh by auto
  have names: "fst ` set (there @ map (\<lambda>x. (x, p @ [x])) fresh) = (seen \<union> set fresh) - ?W"
    using s new by (auto simp: image_Un image_image)
  have checked: "\<forall>x \<in> ?W - fst ` set here. x \<noteq> b \<and> ?R `` {x} \<subseteq> seen \<union> set fresh"
    using s succ assms(2,3) by auto
  have chains: "\<forall>(x, q) \<in> set (there @ map (\<lambda>x. (x, p @ [x])) fresh). is_chain g a x q \<and> length q = Suc (Suc n)"
    using s c is_chain_extend [OF c(2)] fresh by auto
  show ?thesis
    unfolding search_state_def Let_def using s near names checked chains assms(3) by auto
qed

lemma search_state_skip:
  assumes "search_state g a b d n ((c, p) # here) there seen" "c \<noteq> b" "d \<le> n"
  shows "search_state g a b d n here there seen"
  using assms unfolding search_state_def Let_def by auto

definition chain_result :: "semantic_graph \<Rightarrow> symbol_id \<Rightarrow> symbol_id \<Rightarrow> nat \<Rightarrow> symbol_id list option \<Rightarrow> bool" where
  "chain_result g a b d result \<longleftrightarrow>
     (case result of
        Some p \<Rightarrow> is_chain g a b p \<and> length p \<le> Suc d \<and> (\<forall>k < length p - 1. (a, b) \<notin> calls_relation g ^^ k)
      | None \<Rightarrow> \<forall>k \<le> d. (a, b) \<notin> calls_relation g ^^ k)"

lemma call_chain_loop_result:
  "search_state g a b d n here there (set seen) \<Longrightarrow> queue = here @ there \<Longrightarrow> chain_result g a b d (call_chain_loop g b d queue seen)"
proof (induction g b d queue seen arbitrary: n here there rule: call_chain_loop.induct)
  case (1 g b d seen)
  then have "b \<notin> within (calls_relation g) d {a}" using search_state_end by auto
  then show ?case by (simp add: chain_result_def within_def)
next
  case (2 g b d c p queue seen)
  obtain n' here' there' where st: "search_state g a b d n' ((c, p) # here') there' (set seen)" "queue = here' @ there'"
  proof (cases here)
    case Nil
    then have "there \<noteq> []" using 2(4) by auto
    then have "n < d" using 2(3) by (auto simp: search_state_def Let_def)
    then have "search_state g a b d (Suc n) there [] (set seen)" using search_state_next 2(3) Nil by blast
    then show ?thesis using that [of "Suc n" queue "[]"] 2(4) Nil by simp
  next
    case (Cons x here1)
    then show ?thesis using that 2(3,4) by auto
  qed
  note s = st(1) [unfolded search_state_def Let_def]
  have len: "length p = Suc n'" "is_chain g a c p" "n' \<le> d" using s by auto
  show ?case
  proof (cases "c = b")
    case True
    have "(a, b) \<notin> calls_relation g ^^ k" if "k < n'" for k
    proof
      assume "(a, b) \<in> calls_relation g ^^ k"
      then have "b \<in> within (calls_relation g) k {a}" by (auto simp: within_def)
      then show False using s that True by auto
    qed
    then show ?thesis using True len by (simp add: chain_result_def)
  next
    case neq: False
    show ?thesis
    proof (cases "d < length p")
      case True
      then have "d \<le> n'" using len by simp
      from 2(1) [OF neq True search_state_skip [OF st(1) neq this] st(2)] show ?thesis using neq True by simp
    next
      case False
      then have "n' < d" using len by simp
      let ?fresh = "unseen seen (called_ids g c)"
      have "search_state g a b d n' here' (there' @ map (\<lambda>x. (x, p @ [x])) ?fresh) (set seen \<union> set ?fresh)"
        by (rule search_state_expand [OF st(1) neq \<open>n' < d\<close> set_unseen])
      then show ?thesis using 2(2) [OF neq False refl, of n' here'] neq False st(2) by (simp add: Let_def)
    qed
  qed
qed

lemma call_chain_result: "chain_result g a b d (call_chain g a b d)"
  unfolding call_chain_def using call_chain_loop_result [of g a b d 0 "[(a, [a])]" "[]" "[a]"] search_state_start by simp

section \<open>Subtypes\<close>

definition subtype_relation :: "semantic_graph \<Rightarrow> (symbol_id \<times> symbol_id) set" where
  "subtype_relation g = {(x, y). y \<in> gs_id ` set (direct_subtypes g x)}"

lemma subtype_level_ids:
  "subtype_level g frontier visited = (rows, visited') \<Longrightarrow>
     set visited' = set visited \<union> gs_id ` set rows \<and> gs_id ` set rows = subtype_relation g `` set frontier - set visited
     \<and> distinct (map gs_id rows)"
proof (induction g frontier visited arbitrary: rows visited' rule: subtype_level.induct)
  case (2 g current frontier visited)
  let ?rows = "unseen_by gs_id visited (direct_subtypes g current)"
  obtain later last_visited where l: "subtype_level g frontier (visited @ map gs_id ?rows) = (later, last_visited)"
    by (cases "subtype_level g frontier (visited @ map gs_id ?rows)")
  note ih = 2(1) [OF refl l]
  have out: "rows = ?rows @ later" "visited' = last_visited" using 2(2) l by (simp_all add: Let_def)
  have ids: "gs_id ` set ?rows = subtype_relation g `` {current} - set visited"
    using keys_unseen_by [of gs_id visited "direct_subtypes g current"] by (auto simp: subtype_relation_def)
  have all: "gs_id ` set rows = gs_id ` set ?rows \<union> gs_id ` set later" by (simp add: out image_Un)
  have "gs_id ` set ?rows \<inter> gs_id ` set later = {}" using ih by auto
  then have "distinct (map gs_id rows)" using ih distinct_unseen_by [of gs_id visited "direct_subtypes g current"] by (simp add: out)
  moreover have "set visited' = set visited \<union> gs_id ` set ?rows \<union> gs_id ` set later" using ih unfolding out by auto
  moreover have "gs_id ` set rows = subtype_relation g `` set (current # frontier) - set visited"
    unfolding all using ih ids by auto
  ultimately show ?case unfolding all by blast
qed simp

text \<open>What is reached past the visited nodes is reached from the frontier.\<close>

lemma within_frontier:
  assumes "F \<subseteq> V" "R `` (V - F) \<subseteq> V"
  shows "within R (Suc n) F - V = (R `` F - V) \<union> (within R n (R `` F - V) - V)"
proof
  have step: "x \<in> V \<Longrightarrow> (x, y) \<in> R ^^ k \<Longrightarrow> y \<notin> V \<Longrightarrow> k \<le> Suc n \<Longrightarrow> y \<in> within R n (R `` F - V)" for x y k
  proof (induction k arbitrary: x)
    case (Suc k)
    then obtain z where z: "(x, z) \<in> R" "(z, y) \<in> R ^^ k" by (meson relpow_Suc_D2)
    show ?case
    proof (cases "z \<in> V")
      case True
      then show ?thesis using Suc.IH z(2) Suc.prems by simp
    next
      case False
      then have "x \<in> F" using assms(2) z(1) Suc.prems(1) by blast
      then have "z \<in> R `` F - V" using z(1) False by blast
      then show ?thesis using z(2) Suc.prems(4) unfolding within_def by auto
    qed
  qed simp
  show "within R (Suc n) F - V \<subseteq> (R `` F - V) \<union> (within R n (R `` F - V) - V)"
  proof
    fix y assume y: "y \<in> within R (Suc n) F - V"
    then obtain k x where "k \<le> Suc n" "x \<in> F" "(x, y) \<in> R ^^ k" by (auto simp: within_def)
    then show "y \<in> (R `` F - V) \<union> (within R n (R `` F - V) - V)" using step [of x y k] assms(1) y by blast
  qed
  have "R `` F \<subseteq> within R (Suc n) F" using within_mono [of 1 "Suc n" R F] by (auto simp: within_Suc)
  moreover have "within R n (R `` F - V) \<subseteq> within R n (R `` F)" by (auto simp: within_def)
  ultimately show "(R `` F - V) \<union> (within R n (R `` F - V) - V) \<subseteq> within R (Suc n) F - V"
    unfolding within_Suc_first [of R n F] by blast
qed

lemma subtype_levels_ids:
  "set frontier \<subseteq> set visited \<Longrightarrow> subtype_relation g `` (set visited - set frontier) \<subseteq> set visited \<Longrightarrow>
     gs_id ` set (subtype_levels g d frontier visited) = within (subtype_relation g) d (set frontier) - set visited
     \<and> distinct (map gs_id (subtype_levels g d frontier visited))"
proof (induction d arbitrary: frontier visited)
  case (Suc d)
  let ?R = "subtype_relation g"
  show ?case
  proof (cases "frontier = []")
    case True
    then show ?thesis by (simp add: within_def)
  next
    case False
    obtain rows visited' where l: "subtype_level g frontier visited = (rows, visited')"
      by (cases "subtype_level g frontier visited")
    note ids = subtype_level_ids [OF l]
    let ?F = "set (map gs_id rows)"
    have F: "?F = ?R `` set frontier - set visited" using ids by simp
    have V: "set visited' = set visited \<union> (?R `` set frontier - set visited)" using ids by simp
    have "?R `` set visited \<subseteq> set visited \<union> ?R `` set frontier" using Suc.prems by blast
    then have new: "?F \<subseteq> set visited'" "?R `` (set visited' - ?F) \<subseteq> set visited'" unfolding V F by blast+
    note ih = Suc.IH [OF new]
    have "within ?R (Suc d) (set frontier) - set visited = ?F \<union> (within ?R d ?F - set visited)"
      unfolding F by (rule within_frontier [OF Suc.prems])
    also have "\<dots> = ?F \<union> (within ?R d ?F - set visited')" using ids by auto
    finally have "within ?R (Suc d) (set frontier) - set visited = ?F \<union> (within ?R d ?F - set visited')" .
    then show ?thesis using ih ids False l by auto
  qed
qed simp

lemma subtypes_ids:
  "gs_id ` set (inheritance_subtypes_transitive g t d) = within (subtype_relation g) d {t} - {t}
   \<and> distinct (map gs_id (inheritance_subtypes_transitive g t d))"
  unfolding inheritance_subtypes_transitive_def using subtype_levels_ids [of "[t]" "[t]" g d] by simp

section \<open>Ancestors\<close>

definition ancestor_relation :: "semantic_graph \<Rightarrow> (symbol_id \<times> symbol_id) set" where
  "ancestor_relation g = {(x, y). y \<in> set (ancestor_targets g x)}"

lemma rtrancl_image_step: "F \<subseteq> R\<^sup>* `` V \<Longrightarrow> R\<^sup>* `` (V \<union> F) = R\<^sup>* `` V"
  by (auto intro: rtrancl_trans)

lemma rtrancl_image_closed: "R `` V \<subseteq> V \<Longrightarrow> R\<^sup>* `` V = V"
  by (rule Image_closed_trancl)

lemma ancestor_loop_set:
  "set queue \<subseteq> set visited \<Longrightarrow> ancestor_relation g `` (set visited - set queue) \<subseteq> set visited \<Longrightarrow>
     set (ancestor_loop g queue visited) = (ancestor_relation g)\<^sup>* `` set visited - set visited \<and> distinct (ancestor_loop g queue visited)"
proof (induction g queue visited rule: ancestor_loop.induct)
  case (1 g visited)
  then show ?case by (simp add: rtrancl_image_closed)
next
  case (2 g current queue visited)
  let ?R = "ancestor_relation g"
  let ?fresh = "unseen visited (ancestor_targets g current)"
  have fresh: "set ?fresh = ?R `` {current} - set visited" by (auto simp: set_unseen ancestor_relation_def)
  have "distinct ?fresh" using distinct_unseen_by [of "\<lambda>x. x" visited "ancestor_targets g current"] by simp
  have prems: "set (queue @ ?fresh) \<subseteq> set (visited @ ?fresh)"
    "?R `` (set (visited @ ?fresh) - set (queue @ ?fresh)) \<subseteq> set (visited @ ?fresh)"
    using 2(2,3) fresh by auto
  note ih = 2(1) [OF refl prems]
  have "set ?fresh \<subseteq> ?R\<^sup>* `` set visited" using fresh 2(2) by auto
  then have "?R\<^sup>* `` set (visited @ ?fresh) = ?R\<^sup>* `` set visited" using rtrancl_image_step [of "set ?fresh" ?R "set visited"] by simp
  then show ?case using ih \<open>distinct ?fresh\<close> fresh \<open>set ?fresh \<subseteq> ?R\<^sup>* `` set visited\<close> by (auto simp: Let_def)
qed

lemma ancestors_set:
  "set (walk_inheritance_ancestors g start) = (ancestor_relation g)\<^sup>* `` {start} - {start} \<and> distinct (walk_inheritance_ancestors g start)"
  unfolding walk_inheritance_ancestors_def using ancestor_loop_set [of "[start]" "[start]" g] by simp

section \<open>Affected files\<close>

definition importer_relation :: "(file_id, file_id list) hash_map \<Rightarrow> (file_id \<times> file_id) set" where
  "importer_relation importers = {(f, i). i \<in> set (bucket importers f)}"

lemma affected_loop_set:
  "set visited \<subseteq> set affected \<Longrightarrow> importer_relation importers `` set visited \<subseteq> set visited \<union> set frontier \<Longrightarrow> distinct affected \<Longrightarrow>
     set (affected_loop importers frontier visited affected)
       = set affected \<union> (importer_relation importers)\<^sup>* `` (set visited \<union> set frontier)
     \<and> distinct (affected_loop importers frontier visited affected)"
proof (induction importers frontier visited affected rule: affected_loop.induct)
  case (1 importers visited affected)
  then show ?case using rtrancl_image_closed [of "importer_relation importers" "set visited"] by auto
next
  case (2 importers f frontier visited affected)
  let ?R = "importer_relation importers"
  show ?case
  proof (cases "f \<in> set visited")
    case True
    then have "set visited \<union> set (f # frontier) = set visited \<union> set frontier" by auto
    then show ?thesis using 2(1) [OF True] 2(3-5) True by simp
  next
    case False
    let ?next = "rev (filter (\<lambda>i. i \<notin> set (f # visited)) (bucket importers f)) @ frontier"
    have "?R `` set (f # visited) \<subseteq> set (f # visited) \<union> set ?next" using 2(4) by (auto simp: importer_relation_def)
    moreover have "set (f # visited) \<subseteq> set (List.insert f affected)" "distinct (List.insert f affected)" using 2(3,5) by auto
    ultimately have ih: "set (affected_loop importers ?next (f # visited) (List.insert f affected))
          = set (List.insert f affected) \<union> ?R\<^sup>* `` (set (f # visited) \<union> set ?next)
        \<and> distinct (affected_loop importers ?next (f # visited) (List.insert f affected))"
      using 2(2) [OF False] by blast
    let ?N = "set (filter (\<lambda>i. i \<notin> set (f # visited)) (bucket importers f))"
    have all: "set (f # visited) \<union> set ?next = (set visited \<union> set (f # frontier)) \<union> ?N" by auto
    have "?N \<subseteq> ?R\<^sup>* `` (set visited \<union> set (f # frontier))" by (auto simp: importer_relation_def)
    then have "?R\<^sup>* `` (set (f # visited) \<union> set ?next) = ?R\<^sup>* `` (set visited \<union> set (f # frontier))"
      unfolding all by (rule rtrancl_image_step)
    moreover have "f \<in> ?R\<^sup>* `` (set visited \<union> set (f # frontier))" by auto
    ultimately show ?thesis using ih False by auto
  qed
qed

lemma affected_set:
  "set (compute_affected changed importers propagating removed)
     = set changed \<union> set removed \<union> (importer_relation importers)\<^sup>* `` (set propagating \<union> set removed)
   \<and> distinct (compute_affected changed importers propagating removed)"
  unfolding compute_affected_def
  using affected_loop_set [of "[]" "remdups (changed @ removed)" importers "rev (propagating @ removed)"]
  by (simp add: Un_commute)

end
