(* ===== verification/GraphSpec.thy ===== *)
theory GraphSpec
  imports GraphTargetsSpec GraphWalkSpec
begin

text \<open>
  What the code graph promises, stated over the operations that build and change it and over the questions it answers.
\<close>

section \<open>Helpers\<close>

lemma history_rebuilt:
  assumes "env_ok env" "graph_history env g pfs"
  obtains x where "g = rebuilt env x" "represents x pfs"
  using assms(2)
proof (cases rule: graph_history.cases)
  case built
  then show ?thesis using that represents_inserts [OF represents_empty, of pfs] from_parsed_rebuilt by simp
next
  case (replaced g0 pfs0 new_files)
  note old = history_exact [OF assms(1) replaced(3)]
  then have "represents (remove_files_data (map pf_id new_files) g0) (files_without (map pf_id new_files) pfs0)"
    using represents_removed unfolding indexes_exact_def by blast
  then show ?thesis using that represents_inserts replaced(1,2,4) replace_files_rebuilt by metis
next
  case (removed g0 pfs0 f)
  note old = history_exact [OF assms(1) removed(3)]
  then have "represents (remove_file_data f g0) (files_without [f] pfs0)"
    using represents_removed unfolding indexes_exact_def remove_file_data_single by blast
  then show ?thesis using that removed(1,2) remove_file_rebuilt by metis
qed

lemma history_keyed: "env_ok env \<Longrightarrow> graph_history env g pfs \<Longrightarrow> symbols_keyed g"
  using history_exact represents_def by blast

definition call_edges_relation :: "semantic_graph \<Rightarrow> (symbol_id \<times> symbol_id) set" where
  "call_edges_relation g = {(x, y). \<exists>e \<in> set (sg_edges g). is_call_edge e \<and> ed_from e = x \<and> ed_to e = Some y}"

lemma in_map_filter: "y \<in> set (List.map_filter f xs) \<longleftrightarrow> (\<exists>x \<in> set xs. f x = Some y)"
  by (force simp: map_filter_def)

lemma called_ids_edges: "called_ids g x = List.map_filter ed_to (filter is_call_edge (outgoing_edges g x))"
  by (simp add: called_ids_def callees_def map_filter_def filter_map o_def edge_hit_def)

lemma called_ids_exact: "edges_indexed g \<Longrightarrow> calls_relation g = call_edges_relation g"
  unfolding calls_relation_def call_edges_relation_def called_ids_edges in_map_filter edges_indexed_def by auto

definition inheritance_edges_relation :: "semantic_graph \<Rightarrow> (symbol_id \<times> symbol_id) set" where
  "inheritance_edges_relation g =
     {(x, y). symbol_at g y \<noteq> None \<and> (\<exists>e \<in> set (sg_edges g). is_inheritance_edge e \<and> ed_from e = y \<and> ed_to e = Some x)}"

lemma subtypes_exact: "edges_indexed g \<Longrightarrow> symbols_keyed g \<Longrightarrow> subtype_relation g = inheritance_edges_relation g"
proof -
  assume g: "edges_indexed g" "symbols_keyed g"
  have inbound: "e \<in> set (inbound_edges g x) \<longleftrightarrow> e \<in> set (sg_edges g) \<and> ed_to e = Some x" for e x
    using g(1) unfolding edges_indexed_def by simp
  have direct: "s \<in> set (direct_subtypes g x)
      \<longleftrightarrow> (\<exists>e \<in> set (sg_edges g). ed_to e = Some x \<and> is_inheritance_edge e \<and> symbol_at g (ed_from e) = Some s)" for s x
    unfolding direct_subtypes_def in_map_filter set_filter using inbound by blast
  have own: "symbol_at g i = Some s \<Longrightarrow> gs_id s = i" for i s using symbols_keyed_at [OF g(2)] by blast
  have "y \<in> gs_id ` set (direct_subtypes g x) \<longleftrightarrow> (x, y) \<in> inheritance_edges_relation g" for x y
  proof
    assume "y \<in> gs_id ` set (direct_subtypes g x)"
    then obtain s e where e: "e \<in> set (sg_edges g)" "ed_to e = Some x" "is_inheritance_edge e" "symbol_at g (ed_from e) = Some s"
      "gs_id s = y" using direct by blast
    then have "ed_from e = y" using own [OF e(4)] by simp
    then show "(x, y) \<in> inheritance_edges_relation g" using e unfolding inheritance_edges_relation_def by blast
  next
    assume "(x, y) \<in> inheritance_edges_relation g"
    then obtain e s where e: "e \<in> set (sg_edges g)" "is_inheritance_edge e" "ed_from e = y" "ed_to e = Some x" "symbol_at g y = Some s"
      unfolding inheritance_edges_relation_def by blast
    then have "s \<in> set (direct_subtypes g x)" using direct by blast
    then show "y \<in> gs_id ` set (direct_subtypes g x)" using own [OF e(5)] by blast
  qed
  then show ?thesis unfolding subtype_relation_def by auto
qed

lemma hierarchy_node_name: "hierarchy_node g i d = Some n \<Longrightarrow> \<exists>s. symbol_at g i = Some s \<and> hn_name n = gs_name s"
  by (cases d) (auto simp: node_of_def)

lemma hierarchy_node_present: "symbol_at g i \<noteq> None \<Longrightarrow> hierarchy_node g i d \<noteq> None"
  by (cases d) auto

lemma file_roots_nodes:
  assumes "symbols_keyed g" "s \<in> set (file_roots g)"
  obtains n where "hierarchy_node g (gs_id s) d = Some n" "hn_name n = gs_name s"
proof -
  have s: "symbol_at g (gs_id s) = Some s" using assms symbol_at_own_id by (simp add: file_roots_def)
  then obtain n where n: "hierarchy_node g (gs_id s) d = Some n" using hierarchy_node_present [of g "gs_id s" d] by auto
  then show ?thesis using that hierarchy_node_name [OF n] s by auto
qed

lemma sort_key_cong_map: "(\<And>x. x \<in> set xs \<Longrightarrow> k (f x) = k' x) \<Longrightarrow> sort_key k (map f xs) = map f (sort_key k' xs)"
proof (induction xs)
  case (Cons x xs)
  have "insort_key k (f x) (map f ys) = map f (insort_key k' x ys)" if "\<forall>y \<in> set (x # ys). k (f y) = k' y" for ys
    using that by (induction ys) auto
  from this [of "sort_key k' xs"] Cons show ?case by (auto simp: sort_key_def [symmetric])
qed simp

lemma hierarchy_capped_prefix:
  assumes "symbols_keyed g"
  shows "hierarchy_capped g None d n = (take n (hierarchy g None d), length (hierarchy g None d))"
proof -
  let ?node = "\<lambda>s. the (hierarchy_node g (gs_id s) d)"
  let ?roots = "sort_key gs_name (file_roots g)"
  have node: "hierarchy_node g (gs_id s) d = Some (?node s) \<and> hn_name (?node s) = gs_name s" if "s \<in> set (file_roots g)" for s
    using file_roots_nodes [OF assms that] by (metis option.sel)
  have pick: "List.map_filter (\<lambda>i. hierarchy_node g i d) (map gs_id xs) = map ?node xs"
    "List.map_filter (\<lambda>(_, i). hierarchy_node g i d) (map (\<lambda>s. (gs_name s, gs_id s)) xs) = map ?node xs"
    if "set xs \<subseteq> set (file_roots g)" for xs
    using that node by (induction xs) (auto simp: map_filter_def)
  have "hierarchy g None d = sort_key hn_name (map ?node (file_roots g))"
    by (simp add: hierarchy_def pick)
  also have "\<dots> = map ?node ?roots" by (rule sort_key_cong_map) (use node in blast)
  finally have full: "hierarchy g None d = map ?node ?roots" .
  have "sort_key fst (map (\<lambda>s. (gs_name s, gs_id s)) (file_roots g)) = map (\<lambda>s. (gs_name s, gs_id s)) ?roots"
    by (rule sort_key_cong_map) simp
  moreover have "set (take n ?roots) \<subseteq> set (file_roots g)" using set_take_subset by fastforce
  ultimately show ?thesis by (simp add: hierarchy_capped_def full take_map pick)
qed

lemma remove_rows_compose:
  assumes "length (sg_body_lower g) = length (sg_body_hits g)"
  shows "remove_rows b (remove_rows a g) = remove_rows (\<lambda>f. a f \<or> b f) g"
proof -
  have lower: "retain_lower (\<lambda>h. \<not> b (bh_file_id h)) (filter (\<lambda>h. \<not> a (bh_file_id h)) hits)
        (retain_lower (\<lambda>h. \<not> a (bh_file_id h)) hits low)
      = retain_lower (\<lambda>h. \<not> a (bh_file_id h) \<and> \<not> b (bh_file_id h)) hits low" if "length low = length hits" for hits and low :: "str list"
  proof -
    have "map fst (filter (\<lambda>(h, l). P h) (zip hits low)) = filter P hits" for P
      using that by (induction low hits rule: list_induct2) auto
    moreover have "zip (filter P hits) (map snd (filter (\<lambda>(h, l). P h) (zip hits low))) = filter (\<lambda>(h, l). P h) (zip hits low)" for P
      using that by (induction low hits rule: list_induct2) auto
    moreover have "length (map snd (filter (\<lambda>(h, l). P h) (zip hits low))) = length (filter P hits)" for P
      using that by (induction low hits rule: list_induct2) auto
    ultimately show ?thesis
      using that by (simp add: retain_lower_def) (metis (mono_tags, lifting) case_prod_beta filter_cong conj_commute)
  qed
  have edges: "edge_endpoints_present (filter (\<lambda>x. \<not> a (gs_file_id (snd x))) xs) e
        \<and> edge_endpoints_present (filter (\<lambda>x. \<not> a (gs_file_id (snd x)) \<and> \<not> b (gs_file_id (snd x))) xs) e
      \<longleftrightarrow> edge_endpoints_present (filter (\<lambda>x. \<not> a (gs_file_id (snd x)) \<and> \<not> b (gs_file_id (snd x))) xs) e" for xs e
    unfolding edge_endpoints_present_def map_of_eq_None_iff by (auto split: option.splits)
  show ?thesis
    by (simp add: remove_rows_def Let_def case_prod_unfold lower assms edges)
qed

lemma remove_rows_aligned:
  "length (sg_body_lower g) = length (sg_body_hits g) \<Longrightarrow>
     length (sg_body_lower (remove_rows gone g)) = length (sg_body_hits (remove_rows gone g))"
proof -
  have "length (map snd (filter (\<lambda>(h, l). P h) (zip hits low))) = length (filter P hits)" if "length low = length hits"
    for P :: "body_hit \<Rightarrow> bool" and hits and low :: "str list" using that by (induction low hits rule: list_induct2) auto
  then show "length (sg_body_lower g) = length (sg_body_hits g) \<Longrightarrow> ?thesis" by (simp add: remove_rows_def Let_def retain_lower_def)
qed

lemma fold_remove_file_data:
  "length (sg_body_lower g) = length (sg_body_hits g) \<Longrightarrow> fs \<noteq> [] \<Longrightarrow> fold remove_file_data fs g = remove_rows (\<lambda>f. f \<in> set fs) g"
proof (induction fs arbitrary: g)
  case (Cons f fs)
  show ?case
  proof (cases "fs = []")
    case True
    then show ?thesis by (simp add: remove_file_data_def)
  next
    case False
    have "fold remove_file_data (f # fs) g = remove_rows (\<lambda>i. i \<in> set fs) (remove_rows (\<lambda>i. i = f) g)"
      unfolding fold_simps(2) remove_file_data_def [of f g] by (rule Cons.IH [OF remove_rows_aligned [OF Cons.prems(1)] False])
    then show ?thesis using remove_rows_compose [OF Cons.prems(1)] by simp
  qed
qed simp

section \<open>Files to try it on\<close>

definition sample_graph_env :: graph_env where
  "sample_graph_env =
     \<lparr>gx_lowercase = to_lower, gx_hash = (\<lambda>texts. of_nat (length (concat texts))), gx_language_import = (\<lambda>l g i s. False),
      gx_csharp_type_edges = (\<lambda>g. []), gx_php_type_edges = (\<lambda>g. []), gx_python_route_edges = (\<lambda>g. []),
      gx_type_candidates = (\<lambda>l g f n. []), gx_rule = (\<lambda>r g c i call. None), gx_unresolved_import = (\<lambda>g i call. False)\<rparr>"

definition plain_file :: "string \<Rightarrow> file_record" where
  "plain_file path =
     \<lparr>fr_id = lit path, fr_relative_path = lit path, fr_hash = [], fr_size_bytes = 0, fr_modified_unix_millis = 0,
      fr_language = LangRust, fr_freshness = FreshRow\<rparr>"

definition plain_provenance :: provenance where
  "plain_provenance = \<lparr>pv_source = lit ''tree-sitter-rust'', pv_reason = []\<rparr>"

definition plain_function :: "string \<Rightarrow> string \<Rightarrow> parsed_symbol" where
  "plain_function path name =
     \<lparr>ps_id = lit (path @ ''::'' @ name), ps_file_id = lit path, ps_parent_id = None, ps_name = lit name, ps_kind = FunctionKind,
      ps_language_identity = None, ps_span = zero_span, ps_body_span = None, ps_signature_span = None,
      ps_signature = lit (''fn '' @ name), ps_visibility = None, ps_docs = [], ps_attributes = [],
      ps_provenance = plain_provenance, ps_confidence = ExactSyntax, ps_freshness = FreshRow, ps_arity = Some 0\<rparr>"

definition plain_call :: "string \<Rightarrow> string \<Rightarrow> string \<Rightarrow> parsed_call" where
  "plain_call path caller name =
     \<lparr>ca_file_id = lit path, ca_caller_id = Some (lit (path @ ''::'' @ caller)), ca_name = lit name, ca_target_text = lit name,
      ca_receiver = None, ca_arity = 0, ca_kind = DirectCall, ca_span = zero_span, ca_provenance = plain_provenance,
      ca_confidence = ExactSyntax\<rparr>"

definition plain_hit :: "string \<Rightarrow> string \<Rightarrow> body_hit" where
  "plain_hit path name =
     \<lparr>bh_file_id = lit path, bh_owner_id = None, bh_text = lit name, bh_kind = CallHit, bh_span = zero_span\<rparr>"

definition parsed_sources :: "string \<Rightarrow> string list \<Rightarrow> (string \<times> string) list \<Rightarrow> parsed_file" where
  "parsed_sources path names calls =
     \<lparr>pf_file = plain_file path, pf_package = None, pf_symbols = map (plain_function path) names, pf_imports = [],
      pf_calls = map (\<lambda>(c, n). plain_call path c n) calls, pf_references = [],
      pf_body_hits = map (\<lambda>(c, n). plain_hit path n) calls, pf_unsupported = None\<rparr>"

definition main_file :: parsed_file where
  "main_file = parsed_sources ''m.rs'' [''main'', ''run'', ''go''] [(''main'', ''run''), (''run'', ''go'')]"

definition old_file :: parsed_file where
  "old_file = parsed_sources ''o.rs'' [''stop''] []"

definition changed_file :: parsed_file where
  "changed_file = parsed_sources ''o.rs'' [''halt''] [(''halt'', ''halt'')]"

definition changed_graph :: semantic_graph where
  "changed_graph = replace_file sample_graph_env changed_file (from_parsed sample_graph_env [main_file, old_file])"

lemma plain_env_ok: "env_ok sample_graph_env" "env_resolves sample_graph_env"
  by (simp_all add: env_ok_def env_resolves_def sample_graph_env_def)

lemmas sample_defs = main_file_def old_file_def changed_file_def parsed_sources_def plain_file_def plain_function_def plain_call_def
  plain_hit_def

lemma sample_files_ok: "files_ok [main_file, old_file]" "files_ok [main_file, changed_file]"
  by (auto simp: files_ok_def file_ok_def sample_defs symbols_of_def supported_def file_symbols_def file_symbol_id_def lit_def)

lemma sample_history: "graph_history sample_graph_env changed_graph [main_file, changed_file]"
proof -
  have "graph_history sample_graph_env (from_parsed sample_graph_env [main_file, old_file]) [main_file, old_file]"
    by (rule graph_history.built [OF sample_files_ok(1)])
  moreover have "files_without (map pf_id [changed_file]) [main_file, old_file] = [main_file]"
    by (simp add: files_without_def sample_defs lit_def)
  moreover have "same_hash_same_texts sample_graph_env (texts_of [main_file, old_file]) (texts_of [main_file, changed_file])"
    by (simp add: same_hash_same_texts_def texts_of_def rows_of_def supported_def sample_defs sample_graph_env_def lit_def)
  ultimately show ?thesis
    using graph_history.replaced [of sample_graph_env _ "[main_file, old_file]" "[changed_file]"] sample_files_ok(2)
    by (simp add: changed_graph_def replace_file_def)
qed

definition sample_edge :: graph_edge where
  "sample_edge = contains_edge (lit ''file:m.rs'') (graph_symbol_of (plain_function ''m.rs'' ''main''))"

lemma sample_edge_in: "sample_edge \<in> set (sg_edges changed_graph)"
proof -
  have "sample_edge \<in> set (containment_of main_file)"
    by (simp add: sample_edge_def containment_of_def supported_def sample_defs file_symbol_id_def lit_def)
  moreover have "containment changed_graph = concat (map containment_of [main_file, changed_file])"
    using history_exact [OF plain_env_ok(1) sample_history] unfolding represents_def by blast
  ultimately have "sample_edge \<in> set (containment changed_graph)" by simp
  then show ?thesis by (simp add: containment_def)
qed

lemma sample_aligned: "length (sg_body_lower changed_graph) = length (sg_body_hits changed_graph)"
  using history_exact [OF plain_env_ok(1) sample_history] by (simp add: indexes_exact_def body_index_exact_def)

section \<open>The graph and its files\<close>

text \<open>C18: Whatever files were built, replaced and removed on the way, the graph shows exactly the files that are there now: its file,
  package and symbol maps and its containment, import, call, reference and body rows, in their order, are those of a graph built
  from these files at once.
\<close>

theorem incremental_is_fresh:
  assumes "env_ok env" "graph_history env g pfs"
  shows "represents g pfs \<and> same_rows g (from_parsed env pfs)"
proof -
  have shown: "represents g pfs" and ok: "files_ok pfs" using history_exact [OF assms] by blast+
  from graph_history.built [OF ok] have "represents (from_parsed env pfs) pfs" using history_exact [OF assms(1)] by blast
  then show ?thesis using shown represents_same by blast
qed

theorem incremental_is_fresh_witness:
  "represents changed_graph [main_file, changed_file]
   \<and> same_rows changed_graph (from_parsed sample_graph_env [main_file, changed_file])"
  by (rule incremental_is_fresh [OF plain_env_ok(1) sample_history])

text \<open>C19: Through every such history the trigram indexes are exact: a signature search and a body search find what a scan of all
  symbols and of all body hits finds, in the same order, also when the index of the body hits was carried over.
\<close>

theorem searches_are_scans:
  assumes "env_ok env" "graph_history env g pfs"
  shows "signature_search env g sq = signature_scan env g sq \<and> body_search env g bq = body_scan env g bq"
  using history_exact [OF assms] signature_search_scan body_search_scan history_keyed [OF assms] unfolding indexes_exact_def by blast

theorem searches_are_scans_witness:
  "signature_search sample_graph_env changed_graph \<lparr>sq_text = lit ''fn r'', sq_kind = None, sq_visibility = None, sq_attribute = None\<rparr>
     = signature_scan sample_graph_env changed_graph \<lparr>sq_text = lit ''fn r'', sq_kind = None, sq_visibility = None, sq_attribute = None\<rparr>
   \<and> body_search sample_graph_env changed_graph \<lparr>bq_text = lit ''halt'', bq_owner_kind = None, bq_hit_kind = None\<rparr>
     = body_scan sample_graph_env changed_graph \<lparr>bq_text = lit ''halt'', bq_owner_kind = None, bq_hit_kind = None\<rparr>"
  by (rule searches_are_scans [OF plain_env_ok(1) sample_history])



section \<open>Walks\<close>

text \<open>C21: A call chain that is found follows call edges of the graph from the one symbol to the other, has at most the asked number
  of steps, and no chain of call edges is shorter; when none is found, the target is more than that many call edges away.
\<close>

theorem call_chain_shortest:
  assumes "env_ok env" "graph_history env g pfs"
  shows "case call_chain g a b d of
      Some p \<Rightarrow> p \<noteq> [] \<and> hd p = a \<and> last p = b \<and> successively (\<lambda>x y. (x, y) \<in> call_edges_relation g) p
        \<and> length p \<le> Suc d \<and> (\<forall>k < length p - 1. (a, b) \<notin> call_edges_relation g ^^ k)
    | None \<Rightarrow> \<forall>k \<le> d. (a, b) \<notin> call_edges_relation g ^^ k"
proof -
  have "calls_relation g = call_edges_relation g"
    using history_exact [OF assms] called_ids_exact unfolding indexes_exact_def by blast
  moreover have "y \<in> set (called_ids g x) \<longleftrightarrow> (x, y) \<in> calls_relation g" for x y by (simp add: calls_relation_def)
  ultimately show ?thesis
    using call_chain_result [of g a b d] by (simp add: chain_result_def is_chain_def split: option.splits)
qed

lemma sample_chain:
  "call_chain (from_parsed sample_graph_env [main_file]) (lit ''m.rs::main'') (lit ''m.rs::go'') 2
     = Some [lit ''m.rs::main'', lit ''m.rs::run'', lit ''m.rs::go'']"
  by code_simp

theorem call_chain_shortest_witness:
  "successively (\<lambda>x y. (x, y) \<in> call_edges_relation (from_parsed sample_graph_env [main_file]))
     [lit ''m.rs::main'', lit ''m.rs::run'', lit ''m.rs::go'']
   \<and> (lit ''m.rs::main'', lit ''m.rs::go'') \<notin> call_edges_relation (from_parsed sample_graph_env [main_file]) ^^ 1"
proof -
  have "files_ok [main_file]" using files_ok_append1 [of "[main_file]" "[old_file]"] sample_files_ok by simp
  note found = call_chain_shortest [OF plain_env_ok(1) graph_history.built [OF this],
      where a = "lit ''m.rs::main''" and b = "lit ''m.rs::go''" and d = 2,
      unfolded sample_chain option.case]
  show ?thesis using found by (simp del: successively.simps relpow.simps)
qed

text \<open>
  The transitive subtypes of a type are the symbols that inheritance edges reach from it within the depth, other than itself,
  each of them once.
\<close>

theorem subtypes_within_hops:
  assumes "env_ok env" "graph_history env g pfs"
  shows "gs_id ` set (inheritance_subtypes_transitive g t d)
      = {x. x \<noteq> t \<and> (\<exists>k \<le> d. (t, x) \<in> inheritance_edges_relation g ^^ k)}
    \<and> distinct (map gs_id (inheritance_subtypes_transitive g t d))"
proof -
  have "subtype_relation g = inheritance_edges_relation g"
    using history_exact [OF assms] subtypes_exact history_keyed [OF assms] unfolding indexes_exact_def by blast
  then show ?thesis using subtypes_ids [of g t d] by (auto simp: within_def)
qed

theorem subtypes_within_hops_witness:
  "gs_id ` set (inheritance_subtypes_transitive changed_graph (lit ''m.rs::main'') 2)
      = {x. x \<noteq> lit ''m.rs::main'' \<and> (\<exists>k \<le> 2. (lit ''m.rs::main'', x) \<in> inheritance_edges_relation changed_graph ^^ k)}
    \<and> distinct (map gs_id (inheritance_subtypes_transitive changed_graph (lit ''m.rs::main'') 2))"
  by (rule subtypes_within_hops [OF plain_env_ok(1) sample_history])

text \<open>C22: The files a change affects are the changed and removed files and all that import, directly or through others, one whose
  exports changed or that was removed; the affected symbols are the declarations of these files, and the tests are among them.
\<close>

theorem impact_is_closure:
  "set (is_affected_files (compute_impact g changed propagating removed))
     = set changed \<union> set removed \<union> {(f, i). i \<in> set (direct_importers g f)}\<^sup>* `` (set propagating \<union> set removed)
   \<and> is_affected_symbols (compute_impact g changed propagating removed)
     = filter (\<lambda>s. gs_kind s \<noteq> FileKind \<and> gs_file_id s \<in> set (is_affected_files (compute_impact g changed propagating removed)))
         (all_symbols g)
   \<and> set (is_affected_tests (compute_impact g changed propagating removed))
     \<subseteq> set (is_affected_symbols (compute_impact g changed propagating removed))"
  using affected_set [of changed "sg_importers_by_file g" propagating removed]
  by (simp add: compute_impact_def Let_def importer_relation_def direct_importers_def) blast

section \<open>Shortcuts\<close>

text \<open>
  The capped outline, which sorts and cuts the file roots before it builds their trees, gives the first trees of the full
  outline and its length.
\<close>

theorem capped_outline_is_prefix:
  assumes "env_ok env" "graph_history env g pfs"
  shows "hierarchy_capped g None d n = (take n (hierarchy g None d), length (hierarchy g None d))"
  by (rule hierarchy_capped_prefix [OF history_keyed [OF assms]])

theorem capped_outline_is_prefix_witness:
  "hierarchy_capped changed_graph None 3 1
     = (take 1 (hierarchy changed_graph None 3), length (hierarchy changed_graph None 3))"
  by (rule capped_outline_is_prefix [OF plain_env_ok(1) sample_history])

text \<open>Purging a batch of files in one pass is purging them one after the other, while the lower-case shadow is aligned.\<close>

theorem batch_removal_is_sequential:
  assumes "length (sg_body_lower g) = length (sg_body_hits g)"
  shows "remove_files_data fs g = fold remove_file_data fs g"
  using fold_remove_file_data [OF assms] by (cases "fs = []") (simp_all add: remove_files_data_def)

theorem batch_removal_is_sequential_witness:
  "remove_files_data [lit ''m.rs'', lit ''o.rs''] changed_graph = fold remove_file_data [lit ''m.rs'', lit ''o.rs''] changed_graph"
  by (rule batch_removal_is_sequential [OF sample_aligned])

end
