(* ===== verification/Spec2Isabelle.thy ===== *)
theory Spec2Isabelle
  imports PermissionFlow PersistProtocol PatchSafety ConversationRun ToolResultsSpec Sse StreamRetry RequestRetry TurnRouterSpec GraphSpec
begin

text \<open>
  A verification library for squeezy, a coding agent for the terminal (Rust, \<open>crates/\<close>).  Squeezy lets
  a language model call tools.  What makes it safe to run is the decision logic between a tool call and
  its effect, and this library models that logic and the accounting around it.

  \<^bold>\<open>How the parts work together.\<close>  A tool call becomes a permission request.  For shell calls the request
  carries a capability and a risk that come from an analysis of the command text.  The decision asks, in
  this order: the hooks, the session mode (Plan or Build), the policy with the user's, project's and
  session's rules, a structural pre-classifier, an AI reviewer, a cheap shell classifier, and the user.
  The user's answer may install a rule, which is kept for the session and written to a settings file that
  several agents share.  An approved edit reaches the disk through
  \<open>apply_patch\<close>, which stages all operations of a call and then commits them, while a queue of per-file
  mutexes keeps concurrent calls apart.  The results of a round are deduplicated and packed under a byte budget, and
  with their calls they extend the conversation the next model call is built from; when it grows too large it is
  trimmed, masked and summarised, and a summary can be undone.  Model calls, reviewer calls included, are billed to a
  session's cost, its per-model ledger and a broker that enforces a spending cap.

  \<^bold>\<open>Theories.\<close>
    \<^item> \<open>Prelude\<close>: Rust strings, characters and saturating arithmetic; a \<open>char\<close> is its Unicode number.
    \<^item> \<open>ShellLex\<close>, \<open>ShellClassify\<close>, \<open>WindowsCmd\<close>, \<open>ShellTree\<close>, \<open>ShellAnalyze\<close>
      (\<open>crates/squeezy-tools/src/shell_parse.rs\<close>, \<open>windows_cmd.rs\<close>): tokens, operator segments, wrapper
      expansion, the classes of segments, the walks over the syntax tree, the analysis and its memo.
    \<^item> \<open>PlanMode\<close> (\<open>shell_parse.rs\<close>): which commands Plan mode runs, asks for or refuses.
    \<^item> \<open>WriteTargets\<close>, \<open>Safety\<close>, \<open>Paths\<close> (\<open>shell_parse.rs\<close>, \<open>safety.rs\<close>, \<open>shell.rs\<close>): write targets of a command,
      the pre-classifier, sensitive and protected paths, writable roots.
    \<^item> \<open>PermissionTypes\<close>, \<open>Wildcard\<close>, \<open>SandboxConfig\<close>, \<open>Policy\<close> (\<open>crates/squeezy-core/src/lib.rs\<close>): modes,
      capabilities and risks, the rule glob, sandbox and reviewer settings, presets, layers, rules and
      their evaluation.
    \<^item> \<open>ReviewTranscript\<close>, \<open>Reviewer\<close> (\<open>crates/squeezy-agent/src/ai_reviewer.rs\<close>): the budgeted transcript,
      the review call, its circuit breaker and audit ring.
    \<^item> \<open>PermissionFlow\<close> (\<open>crates/squeezy-agent/src/lib.rs\<close>, \<open>plan_mode.rs\<close>): the whole decision.  One definition
      per stage; \<open>flow_state\<close> is what a decision changes, \<open>flow_world\<close> what it asks.
    \<^item> \<open>PermissionPersist\<close>, \<open>PersistProtocol\<close> (\<open>permission_persist.rs\<close>): the text of a rule, and the protocol of
      several agents on one settings file as an inductive step relation with crashes and I/O errors.
    \<^item> \<open>Disk\<close>, \<open>MutationQueue\<close> (\<open>crates/squeezy-tools/src/file_mutation_queue.rs\<close>): what the tools ask of the file
      system, and the queue of mutation locks as a step relation with cancellation.
    \<^item> \<open>PatchText\<close>, \<open>PatchOps\<close>, \<open>PatchApply\<close> (\<open>crates/squeezy-tools/src/patch.rs\<close>, \<open>lib.rs\<close>): searching and replacing with
      the quote and Unicode fallbacks, staging and commit of each operation, the whole call.  \<open>PatchSpec\<close> states what
      the call promises, a sequential run on a file map, and \<open>PatchSafety\<close> holds the properties.
    \<^item> \<open>ToolResults\<close>, \<open>ToolResultsSpec\<close> (\<open>crates/squeezy-agent/src/context_compaction.rs\<close>, \<open>lib.rs\<close> of the tools): receipts
      and stubs of repeated outputs, counts taken from an earlier grep, packing under the budget of a round.
    \<^item> \<open>Conversation\<close>, \<open>ContextBudget\<close>, \<open>MicroCompaction\<close>, \<open>MediaStrip\<close>, \<open>CompactionSummary\<close>, \<open>Compaction\<close>,
      \<open>ContextPins\<close> (\<open>context_compaction.rs\<close>, \<open>micro_compaction.rs\<close>, \<open>crates/squeezy-agent/src/lib.rs\<close>, \<open>crates/squeezy-core/src/lib.rs\<close>):
      items and the repair of call and output pairs; estimates and thresholds; the trim and masking passes; media taken out
      of outputs; the summary with its file lineage; the cut, the rewriting by a model, checkpoints and the undo; pins.
      \<open>CompactionSpec\<close> and \<open>ConversationRun\<close> hold what they keep, for one operation and for whole runs.
    \<^item> \<open>Utf8\<close>, \<open>Sse\<close>, \<open>LlmEvents\<close>, \<open>StreamRetry\<close>, \<open>RequestRetry\<close> (\<open>crates/squeezy-llm/src/sse.rs\<close>, \<open>overflow.rs\<close>, \<open>retry.rs\<close>):
      the decoder of server-sent events, what a provider streams, reconnecting a stream behind what was shown already, and
      repeating a request under its policy.
    \<^item> \<open>ModelLimits\<close> (\<open>crates/squeezy-llm/src/registry.rs\<close>, \<open>limits.rs\<close>, \<open>models_dev.rs\<close>), \<open>ModelTiers\<close>, \<open>TurnRouter\<close>
      (\<open>crates/squeezy-agent/src/turn_router.rs\<close>): the limits of a model by layers of trust and the estimate of a request; the
      ladder of a provider's models, the choice of the rung a turn starts on, and the polls that move it up.
      \<open>TurnRouterSpec\<close> holds what routing promises.
    \<^item> \<open>StrOps\<close>, \<open>HashMaps\<close>, \<open>GraphNames\<close>, \<open>SemanticGraph\<close>, \<open>GraphStore\<close>, \<open>GraphQueries\<close>, \<open>GraphEdges\<close>,
      \<open>CallResolution\<close> (\<open>crates/squeezy-graph/src/lib.rs\<close>, \<open>resolution.rs\<close>, \<open>references.rs\<close>, \<open>cross_file.rs\<close>, \<open>affected.rs\<close>):
      the code graph the navigation tools read.  Rows come from parsed files and go with them; indexes and derived edges are
      rebuilt after every change; \<open>resolve_call\<close> tries its rules in order.  The rules of single languages are fields of
      \<open>graph_env\<close>, as are Unicode lower-casing and the standard hasher.  \<open>GraphSearchSpec\<close>, \<open>GraphRowsSpec\<close>,
      \<open>GraphHistorySpec\<close>, \<open>GraphTargetsSpec\<close>, \<open>GraphWalkSpec\<close> and \<open>GraphSpec\<close> hold what it promises: \<open>graph_history\<close> is every
      graph that builds, replacements and removals can reach.
    \<^item> \<open>OrdMap\<close>, \<open>Metrics\<close>, \<open>CostBroker\<close> (\<open>crates/squeezy-core/src/lib.rs\<close>, \<open>cost_broker.rs\<close>,
      \<open>crates/squeezy-llm/src/registry.rs\<close>): counters, the ledger, and the broker with its cap and gates.

  \<^bold>\<open>Modelling.\<close>  A struct is a record, an enum a datatype, \<open>Result\<close> a sum, \<open>u64\<close> a 64-bit word (\<open>saturating_add\<close>
  written out), \<open>usize\<close> counters that index or count list elements are \<open>nat\<close>, a hash map a partial map or
  an association list where order shows.  State is passed explicitly.  Loops over text are structural
  recursions; the wrapper unwrapping has the code's own bound of eight levels.  Third-party code is a
  parameter: the tree-sitter grammar (\<open>ts_parser\<close>), \<open>Url::parse\<close>, \<open>canonicalize\<close>, the JSON reader, \<open>git apply\<close>, NFKC, the model
  and pricing tables.  Definitions are executable, and witnesses evaluate them.

  \<^bold>\<open>What is shown.\<close>  For the lexers and the classifiers: stability, completeness of wrapper expansion, exact
  flags, soundness of low risk and of Plan mode's and the pre-classifier's permissions.  For the policy:
  the last matching rule decides, an \<open>Allow\<close> needs a narrow rule or a default, loaded rules are honoured.
  For the decision: what an approval rests on, finality of refusals, that only answers change rules.  For
  the reviewer: bounded authority, circuit breaker, bounded memory.  For persistence: no lost update,
  refinement of the sequential reading, round trip through the loader.  For edits: mutual exclusion and
  progress of the lock queue, refinement of the sequential specification, containment of changes, no effect
  without a commit, plan binding.  For the conversation: after any run every call is declared once and answered once,
  later; trims and summaries shrink it and touch only what they may; the undo gives back what was dropped; stripping
  leaves no data URI; pins keep unique ids.  For tool results: every stub is justified by an output that was sent,
  results stay in their places and within the budget.  For the transport: chunk
  boundaries do not matter, a reconnected stream is the stream of its last attempt, requests and sleeps stay within the
  policy.  For routing: what a cheap turn rests on, refusals are noticed in any cut, rungs only rise, limits follow their
  layers.  For the code graph: any history of changes shows the rows of a fresh build, the trigram searches, carried over or
  not, find what a scan finds, edges name symbols that are there, call chains are shortest, walks visit what is reachable
  once, an impact is the closure under importers.  For cost: ledger sums, at most one
  notice, warning before the cap, spending within the cap.  Several theorems state faults of the code:
  line breaks lost before parsing, substitutions that are auto-allowed, spend that is not reported, a lock
  that no one removes, edits that escape the checks, are lost or are reported as skipped, outputs that an undo loses,
  a file lineage that collapses when it is quoted, pins that come back, stubs for outputs that were never sent, reasoning of a
  discarded attempt that is kept, a broad result that escalates twice, a guess that caps a request.

  \<^bold>\<open>Not modelled.\<close>  The terminal interface, the command line, the HTTP client and the wire formats of the model providers, the
  language extractors, the crawler, the session store, MCP, skills and telemetry are I/O, rendering or wrappers of libraries.
  Of the code graph, the rules of single languages, the project facts read from build files, the binding of references to one
  symbol and the warm start from the partition store are left out; dirty ranges are annotated between changes and are no step
  of a history.  A walk up the parents of a symbol is cut after as many steps as there are symbols, which only a cycle exceeds.
  Logging and notification hooks inside modelled functions change no modelled state and are left out.
\<close>

end
